(* ===== verification/Prelude.thy ===== *)
theory Prelude
  imports Main "HOL-Library.Word"
begin

text \<open>
  The common ground of the development: the machine types of the C sources, the outcome of
  a call that may abort or leave defined behaviour, byte copies, and the arithmetic of ring
  indices on which every ring buffer of the repository rests.
\<close>

section \<open>Machine types and C primitives\<close>

type_synonym byte = "8 word"
type_synonym u16 = "16 word"
type_synonym u32 = "32 word"
type_synonym u64 = "64 word"

text \<open>The return codes of \<^verbatim>\<open>libfdu-utils/utils.h\<close>.\<close>

abbreviation SUCCESS :: int where "SUCCESS \<equiv> 0"

abbreviation FAILED :: int where "FAILED \<equiv> - 1"

text \<open>
  A call returns a value, fails an \<^verbatim>\<open>assert\<close> (the process aborts), does something C leaves
  undefined (an access outside an array, a null dereference, a division by zero), or spins
  forever.
\<close>

datatype 'a outcome = Ret 'a | Abort | Undef | Spin

fun bind_out :: "'a outcome \<Rightarrow> ('a \<Rightarrow> 'b outcome) \<Rightarrow> 'b outcome" where
  "bind_out (Ret x) f = f x"
| "bind_out Abort f = Abort"
| "bind_out Undef f = Undef"
| "bind_out Spin f = Spin"

lemma bind_out_eq_Ret [simp]:
  "bind_out m f = Ret y \<longleftrightarrow> (\<exists>x. m = Ret x \<and> f x = Ret y)"
  by (cases m) auto

lemma bind_out_assoc: "bind_out (bind_out m f) g = bind_out m (\<lambda>x. bind_out (f x) g)"
  by (cases m) auto

text \<open>\<^verbatim>\<open>assert(b)\<close>.\<close>

definition c_assert :: "bool \<Rightarrow> unit outcome" where
  "c_assert b = (if b then Ret () else Abort)"

lemma c_assert_simps [simp]: "c_assert True = Ret ()" "c_assert False = Abort"
  by (simp_all add: c_assert_def)

lemma c_assert_Ret [simp]: "c_assert b = Ret u \<longleftrightarrow> b"
  by (simp add: c_assert_def)

text \<open>An array read and an array write, undefined outside the array.\<close>

definition array_get :: "'a list \<Rightarrow> nat \<Rightarrow> 'a outcome" where
  "array_get xs i = (if i < length xs then Ret (xs ! i) else Undef)"

definition array_set :: "'a list \<Rightarrow> nat \<Rightarrow> 'a \<Rightarrow> 'a list outcome" where
  "array_set xs i v = (if i < length xs then Ret (xs[i := v]) else Undef)"

lemma array_get_ok [simp]: "i < length xs \<Longrightarrow> array_get xs i = Ret (xs ! i)"
  by (simp add: array_get_def)

lemma array_set_ok [simp]: "i < length xs \<Longrightarrow> array_set xs i v = Ret (xs[i := v])"
  by (simp add: array_set_def)

lemma array_get_Ret: "array_get xs i = Ret v \<longleftrightarrow> i < length xs \<and> v = xs ! i"
  by (auto simp: array_get_def)

lemma array_set_Ret: "array_set xs i v = Ret ys \<longleftrightarrow> i < length xs \<and> ys = xs[i := v]"
  by (auto simp: array_set_def)

text \<open>
  \<^verbatim>\<open>memcpy(dst, src, n)\<close> on buffers as lists: the first \<open>n\<close> cells of \<open>dst\<close> are overwritten.
  Reading or writing past the end of a buffer is undefined.
\<close>

definition memcpy :: "'a list \<Rightarrow> 'a list \<Rightarrow> nat \<Rightarrow> 'a list outcome" where
  "memcpy dst src n =
     (if n \<le> length src \<and> n \<le> length dst then Ret (take n src @ drop n dst) else Undef)"

lemma memcpy_ok [simp]:
  "n \<le> length src \<Longrightarrow> n \<le> length dst \<Longrightarrow> memcpy dst src n = Ret (take n src @ drop n dst)"
  by (simp add: memcpy_def)

lemma memcpy_Ret:
  "memcpy dst src n = Ret d \<longleftrightarrow> n \<le> length src \<and> n \<le> length dst \<and> d = take n src @ drop n dst"
  by (auto simp: memcpy_def)

lemma memcpy_length: "memcpy dst src n = Ret d \<Longrightarrow> length d = length dst"
  by (auto simp: memcpy_Ret)

section \<open>Little-endian representation\<close>

text \<open>The bytes of an integer in memory, least significant first, and back.\<close>

fun le_enc :: "nat \<Rightarrow> nat \<Rightarrow> byte list" where
  "le_enc 0 x = []"
| "le_enc (Suc n) x = of_nat x # le_enc n (x div 256)"

fun le_dec :: "byte list \<Rightarrow> nat" where
  "le_dec [] = 0"
| "le_dec (b # bs) = unat b + 256 * le_dec bs"

lemma length_le_enc [simp]: "length (le_enc n x) = n"
  by (induction n arbitrary: x) auto

lemma unat_byte_of_nat: "unat (of_nat x :: byte) = x mod 256"
  by (simp add: unat_of_nat)

lemma le_dec_enc: "le_dec (le_enc n x) = x mod 256 ^ n"
proof (induction n arbitrary: x)
  case (Suc n)
  have "x mod (256 * 256 ^ n) = 256 * (x div 256 mod 256 ^ n) + x mod 256"
    by (rule mod_mult2_eq)
  with Suc show ?case by (simp add: unat_byte_of_nat)
qed simp

lemma le_dec_enc_small [simp]: "x < 256 ^ n \<Longrightarrow> le_dec (le_enc n x) = x"
  by (simp add: le_dec_enc)

lemma le_dec_less: "le_dec bs < 256 ^ length bs"
proof (induction bs)
  case (Cons b bs)
  have "unat b < 256" using unsigned_less [of b] by simp
  then show ?case using Cons by (simp add: algebra_simps)
qed simp

lemma le_enc_dec: "length bs = n \<Longrightarrow> le_enc n (le_dec bs) = bs"
proof (induction bs arbitrary: n)
  case (Cons b bs)
  have b: "unat b < 256" using unsigned_less [of b] by simp
  then have "(unat b + 256 * le_dec bs) div 256 = le_dec bs" by simp
  moreover have "(of_nat (unat b + 256 * le_dec bs) :: byte) = b"
    using b by (simp add: word_unat_eq_iff unat_byte_of_nat del: of_nat_add of_nat_mult)
  ultimately show ?case using Cons by (auto simp del: of_nat_add of_nat_mult)
qed simp

section \<open>Word arithmetic\<close>

named_theorems nat_of_word \<open>reading word operations as operations on nat\<close>

lemma word_eq_iff_unat: "(a :: 'a::len word) = b \<longleftrightarrow> unat a = unat b"
  by (simp add: word_unat_eq_iff)

lemma unat_plus_one_small [nat_of_word]:
  fixes i c :: "'a::len word"
  assumes "unat i < unat c"
  shows "unat (i + 1) = unat i + 1"
proof -
  have "unat c < 2 ^ LENGTH('a)" by (rule unsigned_less)
  with assms have "Suc (unat i) < 2 ^ LENGTH('a)" by linarith
  then show ?thesis by (simp add: unat_word_ariths)
qed

section \<open>Ring index arithmetic\<close>

named_theorems ring_simps \<open>equations for the contents of a ring\<close>

text \<open>
  A ring of \<open>cap\<close> cells with read index \<open>r\<close> and write index \<open>w\<close> holds \<open>ring_count cap r w\<close>
  elements, from cell \<open>r\<close> on; \<open>f i\<close> is what cell \<open>i\<close> holds.
\<close>

definition ring_count :: "nat \<Rightarrow> nat \<Rightarrow> nat \<Rightarrow> nat" where
  "ring_count cap r w = (w + cap - r) mod cap"

definition ring_list :: "nat \<Rightarrow> nat \<Rightarrow> nat \<Rightarrow> (nat \<Rightarrow> 'a) \<Rightarrow> 'a list" where
  "ring_list cap r w f = map (\<lambda>k. f ((r + k) mod cap)) [0..<ring_count cap r w]"

lemma add_mod_alt:
  fixes i k :: nat
  assumes "i < cap" "k \<le> cap"
  shows "(i + k) mod cap = (if i + k < cap then i + k else i + k - cap)"
proof (cases "i + k < cap")
  case False
  with assms have "(i + k) mod cap = (i + k - cap) mod cap" and "i + k - cap < cap"
    by (auto simp: le_mod_geq)
  with False show ?thesis by simp
qed simp

lemma ring_count_alt:
  assumes "r < cap" "w < cap"
  shows "ring_count cap r w = (if r \<le> w then w - r else cap + w - r)"
proof -
  from assms have "ring_count cap r w = (w + (cap - r)) mod cap"
    by (simp add: ring_count_def)
  also have "\<dots> = (if r \<le> w then w - r else cap + w - r)"
    using assms by (subst add_mod_alt) auto
  finally show ?thesis .
qed

lemma ring_count_less: "r < cap \<Longrightarrow> w < cap \<Longrightarrow> ring_count cap r w < cap"
  by (simp add: ring_count_def)

lemma ring_count_eq_0: "r < cap \<Longrightarrow> w < cap \<Longrightarrow> ring_count cap r w = 0 \<longleftrightarrow> w = r"
  by (auto simp: ring_count_alt)

lemma Suc_mod_alt: "i < cap \<Longrightarrow> Suc i mod cap = (if Suc i < cap then Suc i else 0)"
  by (auto simp: not_less le_Suc_eq)

lemma ring_count_full:
  "r < cap \<Longrightarrow> w < cap \<Longrightarrow> ring_count cap r w = cap - 1 \<longleftrightarrow> Suc w mod cap = r"
  by (auto simp: ring_count_alt Suc_mod_alt)

lemma length_ring_list [simp]: "length (ring_list cap r w f) = ring_count cap r w"
  by (simp add: ring_list_def)

lemma ring_list_empty: "r < cap \<Longrightarrow> w < cap \<Longrightarrow> ring_list cap r w f = [] \<longleftrightarrow> w = r"
  by (metis length_0_conv length_ring_list ring_count_eq_0)

lemma ring_list_same [simp]: "r < cap \<Longrightarrow> ring_list cap r r f = []"
  by (simp add: ring_list_empty)

lemma ring_list_cong:
  assumes "0 < cap" and "\<And>i. i < cap \<Longrightarrow> f i = g i"
  shows "ring_list cap r w f = ring_list cap r w g"
  using assms by (auto simp: ring_list_def)

text \<open>A cell outside the occupied part does not matter.\<close>

lemma ring_index_neq:
  assumes "r < cap" "w < cap" "k < ring_count cap r w"
  shows "(r + k) mod cap \<noteq> w"
proof -
  from assms have "k \<le> cap" using ring_count_less [of r cap w] by simp
  with assms show ?thesis
    by (simp add: add_mod_alt ring_count_alt split: if_splits) linarith+
qed

lemma ring_list_upd_w:
  assumes "r < cap" "w < cap"
  shows "ring_list cap r w (f(w := x)) = ring_list cap r w f"
  using ring_index_neq [OF assms] by (auto simp: ring_list_def)

lemma ring_count_push:
  assumes "r < cap" "w < cap" "Suc w mod cap \<noteq> r"
  shows "ring_count cap r (Suc w mod cap) = Suc (ring_count cap r w)"
  using assms by (auto simp: ring_count_alt Suc_mod_alt split: if_splits)

lemma ring_index_w:
  assumes "r < cap" "w < cap"
  shows "(r + ring_count cap r w) mod cap = w"
  using assms by (auto simp: ring_count_alt)

lemma ring_list_push [ring_simps]:
  assumes "r < cap" "w < cap" "Suc w mod cap \<noteq> r"
  shows "ring_list cap r (Suc w mod cap) (f(w := x)) = ring_list cap r w f @ [x]"
proof -
  have "ring_list cap r (Suc w mod cap) (f(w := x))
      = map (\<lambda>k. (f(w := x)) ((r + k) mod cap)) [0..<ring_count cap r w] @ [x]"
    using assms by (simp add: ring_list_def ring_count_push ring_index_w)
  also have "map (\<lambda>k. (f(w := x)) ((r + k) mod cap)) [0..<ring_count cap r w] = ring_list cap r w f"
    using ring_list_upd_w [OF assms(1,2), of f x] by (simp add: ring_list_def)
  finally show ?thesis .
qed

lemma ring_count_pop:
  assumes "r < cap" "w < cap" "w \<noteq> r"
  shows "ring_count cap r w = Suc (ring_count cap (Suc r mod cap) w)"
  using assms by (auto simp: ring_count_alt Suc_mod_alt split: if_splits)

lemma ring_list_pop [ring_simps]:
  assumes "r < cap" "w < cap" "w \<noteq> r"
  shows "ring_list cap r w f = f r # ring_list cap (Suc r mod cap) w f"
proof -
  have "[0..<Suc n] = 0 # map Suc [0..<n]" for n
    by (simp add: map_Suc_upt upt_conv_Cons del: upt_Suc)
  then have "[0..<ring_count cap r w] = 0 # map Suc [0..<ring_count cap (Suc r mod cap) w]"
    using ring_count_pop [OF assms] by simp
  then show ?thesis
    using assms(1) by (simp add: ring_list_def comp_def mod_simps)
qed

text \<open>A whole run of cells written behind the occupied part is appended.\<close>

lemma ring_count_add:
  assumes "r < cap" "w < cap" "ring_count cap r w + n < cap"
  shows "ring_count cap r ((w + n) mod cap) = ring_count cap r w + n"
proof -
  from assms have "n \<le> cap" by simp
  with assms show ?thesis
    by (auto simp: add_mod_alt ring_count_alt split: if_splits)
qed

lemma ring_index_add:
  assumes "r < cap" "w < cap"
  shows "(r + (ring_count cap r w + k)) mod cap = (w + k) mod cap"
  using ring_index_w [OF assms] by (metis add.assoc mod_add_left_eq)

lemma ring_list_append:
  assumes "r < cap" "w < cap" "ring_count cap r w + length xs < cap"
    and "\<And>k. k < ring_count cap r w \<Longrightarrow> g ((r + k) mod cap) = f ((r + k) mod cap)"
    and "\<And>k. k < length xs \<Longrightarrow> g ((w + k) mod cap) = xs ! k"
  shows "ring_list cap r ((w + length xs) mod cap) g = ring_list cap r w f @ xs"
proof (rule nth_equalityI)
  show "length (ring_list cap r ((w + length xs) mod cap) g) = length (ring_list cap r w f @ xs)"
    using assms by (simp add: ring_count_add)
next
  fix k assume "k < length (ring_list cap r ((w + length xs) mod cap) g)"
  then have k: "k < ring_count cap r w + length xs" using assms by (simp add: ring_count_add)
  show "ring_list cap r ((w + length xs) mod cap) g ! k = (ring_list cap r w f @ xs) ! k"
  proof (cases "k < ring_count cap r w")
    case True
    with assms k show ?thesis
      by (simp add: ring_list_def nth_append ring_count_add [OF assms(1-3)])
  next
    case False
    then obtain j where j: "k = ring_count cap r w + j" by (metis le_add_diff_inverse not_less)
    with k have "j < length xs" by simp
    with assms j k show ?thesis
      by (simp add: ring_list_def nth_append ring_count_add [OF assms(1-3)]
          ring_index_add [OF assms(1,2)])
  qed
qed

text \<open>Advancing the read index by \<open>n\<close> drops the first \<open>n\<close> elements.\<close>

lemma ring_list_drop:
  assumes "r < cap" "w < cap" "n \<le> ring_count cap r w"
  shows "ring_list cap ((r + n) mod cap) w f = drop n (ring_list cap r w f)"
  using assms
proof (induction n arbitrary: r)
  case (Suc n)
  then have "ring_count cap r w \<noteq> 0" by simp
  with Suc.prems have "w \<noteq> r" by (simp add: ring_count_eq_0)
  with Suc.prems have "n \<le> ring_count cap (Suc r mod cap) w" "Suc r mod cap < cap"
    using ring_count_pop [of r cap w] by auto
  from Suc.IH [OF this(2) Suc.prems(2) this(1)] show ?case
    using Suc.prems \<open>w \<noteq> r\<close> by (simp add: ring_list_pop [of r cap w] mod_simps)
qed simp

lemma ring_list_nth:
  "k < ring_count cap r w \<Longrightarrow> ring_list cap r w f ! k = f ((r + k) mod cap)"
  by (simp add: ring_list_def)

section \<open>Rings that use every cell\<close>

text \<open>The \<open>n\<close> cells from the read index on; unlike \<open>ring_list\<close> this also describes a ring whose cells are all taken.\<close>

definition ring_cells :: "nat \<Rightarrow> nat \<Rightarrow> nat \<Rightarrow> (nat \<Rightarrow> 'a) \<Rightarrow> 'a list" where
  "ring_cells cap r n f = map (\<lambda>k. f ((r + k) mod cap)) [0..<n]"

lemma length_ring_cells [simp]: "length (ring_cells cap r n f) = n"
  by (simp add: ring_cells_def)

lemma ring_cells_0 [simp]: "ring_cells cap r 0 f = []"
  by (simp add: ring_cells_def)

lemma ring_cells_free:
  fixes r n k cap :: nat
  assumes "r < cap" "n < cap" "k < n"
  shows "(r + k) mod cap \<noteq> (r + n) mod cap"
proof -
  from assms have "k \<le> cap" by linarith
  moreover from assms have "n \<le> cap" by linarith
  ultimately show ?thesis using assms by (auto simp: add_mod_alt)
qed

lemma ring_cells_cong:
  "(\<And>k. k < n \<Longrightarrow> f ((r + k) mod cap) = g ((r + k) mod cap)) \<Longrightarrow> ring_cells cap r n f = ring_cells cap r n g"
  by (simp add: ring_cells_def)

lemma ring_cells_push [ring_simps]:
  assumes "r < cap" "n < cap" "w = (r + n) mod cap"
  shows "ring_cells cap r (Suc n) (f(w := x)) = ring_cells cap r n f @ [x]"
  using assms ring_cells_free [OF assms(1,2)] by (auto simp: ring_cells_def)

lemma ring_cells_pop [ring_simps]:
  assumes "r < cap"
  shows "ring_cells cap r (Suc n) f = f r # ring_cells cap (Suc r mod cap) n f"
proof -
  have "[0..<Suc n] = 0 # map Suc [0..<n]"
    by (simp add: map_Suc_upt upt_conv_Cons del: upt_Suc)
  then show ?thesis using assms by (simp add: ring_cells_def comp_def mod_simps del: upt_Suc)
qed

end
