(* ===== verification/Fifo.thy ===== *)
theory Fifo
  imports Prelude
begin

text \<open>
  The contract every ring buffer of the repository offers its two ends: a bounded first-in
  first-out queue. A client is a sequence of push and pop attempts in the order in which they
  take effect; the locale proves once what such a client observes.
\<close>

datatype 'a fifo_op = Push 'a | Pop

text \<open>
  Run the attempts in order. The result holds the elements a push accepted, the elements the
  pops delivered, and the final queue.
\<close>

fun fifo_run ::
  "('q \<Rightarrow> 'e \<Rightarrow> (bool \<times> 'q) outcome) \<Rightarrow> ('q \<Rightarrow> ('a option \<times> 'q) outcome)
     \<Rightarrow> 'q \<Rightarrow> 'e fifo_op list \<Rightarrow> ('e list \<times> 'a list \<times> 'q) outcome"
where
  "fifo_run psh pp q [] = Ret ([], [], q)"
| "fifo_run psh pp q (Push x # ops) =
     bind_out (psh q x) (\<lambda>(ok, q').
     bind_out (fifo_run psh pp q' ops) (\<lambda>(acc, out, q'').
       Ret (if ok then x # acc else acc, out, q'')))"
| "fifo_run psh pp q (Pop # ops) =
     bind_out (pp q) (\<lambda>(x, q').
     bind_out (fifo_run psh pp q' ops) (\<lambda>(acc, out, q'').
       Ret (acc, (case x of None \<Rightarrow> out | Some v \<Rightarrow> v # out), q'')))"

definition pushes :: "'a fifo_op list \<Rightarrow> 'a list" where
  "pushes ops = concat (map (\<lambda>c. case c of Push x \<Rightarrow> [x] | Pop \<Rightarrow> []) ops)"

lemma pushes_simps [simp]:
  "pushes [] = []" "pushes (Push x # ops) = x # pushes ops" "pushes (Pop # ops) = pushes ops"
  by (simp_all add: pushes_def)

text \<open>
  What a ring delivers of an element may be less than what was pushed: a message loses the bytes behind
  its length. \<open>view\<close> is the part that counts.
\<close>

locale viewed_fifo =
  fixes psh :: "'q \<Rightarrow> 'e \<Rightarrow> (bool \<times> 'q) outcome"
    and pp :: "'q \<Rightarrow> ('a option \<times> 'q) outcome"
    and contents :: "'q \<Rightarrow> 'a list"
    and invar :: "'q \<Rightarrow> bool"
    and bound :: "'q \<Rightarrow> nat"
    and elem :: "'q \<Rightarrow> 'e \<Rightarrow> bool"
    and view :: "'e \<Rightarrow> 'a"
  assumes push_room:
      "invar q \<Longrightarrow> elem q x \<Longrightarrow> length (contents q) < bound q \<Longrightarrow>
       \<exists>q'. psh q x = Ret (True, q') \<and> invar q' \<and> contents q' = contents q @ [view x]
          \<and> bound q' = bound q \<and> elem q' = elem q"
    and push_full:
      "invar q \<Longrightarrow> elem q x \<Longrightarrow> length (contents q) = bound q \<Longrightarrow> psh q x = Ret (False, q)"
    and pop_some:
      "invar q \<Longrightarrow> contents q = v # xs \<Longrightarrow>
       \<exists>q'. pp q = Ret (Some v, q') \<and> invar q' \<and> contents q' = xs
          \<and> bound q' = bound q \<and> elem q' = elem q"
    and pop_empty: "invar q \<Longrightarrow> contents q = [] \<Longrightarrow> pp q = Ret (None, q)"
    and contents_bound: "invar q \<Longrightarrow> length (contents q) \<le> bound q"
begin

lemma push_cases:
  assumes "invar q" "elem q x"
  obtains (room) q' where "psh q x = Ret (True, q')" "invar q'" "contents q' = contents q @ [view x]"
      "bound q' = bound q" "elem q' = elem q" "length (contents q) < bound q"
    | (full) "psh q x = Ret (False, q)" "length (contents q) = bound q"
  using push_room [OF assms] push_full [OF assms] contents_bound [OF assms(1)]
  by (metis le_neq_implies_less)

lemma pop_cases:
  assumes "invar q"
  obtains (some) x q' where "pp q = Ret (Some x, q')" "invar q'" "contents q = x # contents q'"
      "bound q' = bound q" "elem q' = elem q"
    | (empty) "pp q = Ret (None, q)" "contents q = []"
  using pop_some [OF assms] pop_empty [OF assms] by (cases "contents q") metis+

text \<open>
  Whatever the interleaving of attempts: the run never leaves defined behaviour, what was
  delivered followed by what is left is what was there followed by what was accepted.
\<close>

lemma fifo_order:
  assumes "invar q" and "\<forall>x \<in> set (pushes ops). elem q x"
  shows "\<exists>acc out q'. fifo_run psh pp q ops = Ret (acc, out, q') \<and> invar q'
           \<and> contents q @ map view acc = out @ contents q' \<and> bound q' = bound q"
  using assms
proof (induction ops arbitrary: q)
  case Nil
  then show ?case by simp
next
  case (Cons c ops)
  show ?case
  proof (cases c)
    case (Push x)
    with Cons.prems have "elem q x" by simp
    with Cons.prems(1) show ?thesis
    proof (cases rule: push_cases)
      case (room q')
      with Cons.prems Push have "\<forall>x \<in> set (pushes ops). elem q' x" by simp
      from Cons.IH [OF room(2) this] obtain acc out q'' where
        "fifo_run psh pp q' ops = Ret (acc, out, q'')" "invar q''"
        "contents q' @ map view acc = out @ contents q''" "bound q'' = bound q'"
        by blast
      with room Push show ?thesis by auto
    next
      case full
      from Cons.prems Push have "\<forall>x \<in> set (pushes ops). elem q x" by simp
      from Cons.IH [OF Cons.prems(1) this] full Push show ?thesis by auto
    qed
  next
    case Pop
    from Cons.prems(1) show ?thesis
    proof (cases rule: pop_cases)
      case (some x q')
      with Cons.prems Pop have "\<forall>x \<in> set (pushes ops). elem q' x" by simp
      from Cons.IH [OF some(2) this] obtain acc out q'' where
        "fifo_run psh pp q' ops = Ret (acc, out, q'')" "invar q''"
        "contents q' @ map view acc = out @ contents q''" "bound q'' = bound q'"
        by blast
      with some Pop show ?thesis by auto
    next
      case empty
      from Cons.prems Pop have "\<forall>x \<in> set (pushes ops). elem q x" by simp
      from Cons.IH [OF Cons.prems(1) this] empty Pop show ?thesis by auto
    qed
  qed
qed

text \<open>While there is room for everything that is ever pushed, nothing is refused.\<close>

lemma fifo_accepts:
  assumes "invar q" and "\<forall>x \<in> set (pushes ops). elem q x"
    and "length (contents q) + length (pushes ops) \<le> bound q"
  shows "\<exists>out q'. fifo_run psh pp q ops = Ret (pushes ops, out, q')"
  using assms
proof (induction ops arbitrary: q)
  case (Cons c ops)
  show ?case
  proof (cases c)
    case (Push x)
    with Cons.prems have "elem q x" "length (contents q) < bound q" by simp_all
    from push_room [OF Cons.prems(1) this] obtain q' where q': "psh q x = Ret (True, q')" "invar q'"
      "contents q' = contents q @ [view x]" "bound q' = bound q" "elem q' = elem q" by blast
    from Cons.IH [OF q'(2)] Cons.prems Push q' show ?thesis by fastforce
  next
    case Pop
    from Cons.prems(1) show ?thesis
    proof (cases rule: pop_cases)
      case (some v q')
      from Cons.IH [OF some(2)] Cons.prems Pop some show ?thesis by fastforce
    next
      case empty
      from Cons.IH [OF Cons.prems(1)] Cons.prems Pop empty show ?thesis by fastforce
    qed
  qed
qed simp

text \<open>With room for all of them, a burst of pushes is accepted whole.\<close>

lemma fifo_burst:
  assumes "invar q" and "\<forall>x \<in> set xs. elem q x" and "length (contents q) + length xs \<le> bound q"
  shows "\<exists>q'. fifo_run psh pp q (map Push xs) = Ret (xs, [], q') \<and> invar q'
           \<and> contents q' = contents q @ map view xs \<and> bound q' = bound q \<and> elem q' = elem q"
  using assms
proof (induction xs arbitrary: q)
  case (Cons x xs)
  then obtain q' where q': "psh q x = Ret (True, q')" "invar q'" "contents q' = contents q @ [view x]"
      "bound q' = bound q" "elem q' = elem q"
    using push_room [of q x] by auto
  with Cons.prems have "\<forall>x \<in> set xs. elem q' x" "length (contents q') + length xs \<le> bound q'"
    by auto
  from Cons.IH [OF q'(2) this] q' show ?case by auto
qed simp

text \<open>Popping as often as there are elements delivers exactly the contents and empties the queue.\<close>

lemma fifo_drain:
  assumes "invar q"
  shows "\<exists>q'. fifo_run psh pp q (replicate (length (contents q)) Pop) = Ret ([], contents q, q')
           \<and> invar q' \<and> contents q' = [] \<and> bound q' = bound q"
  using assms
proof (induction "contents q" arbitrary: q)
  case Nil
  from Nil.hyps [symmetric] Nil.prems show ?case by simp
next
  case (Cons x xs)
  from pop_some [OF Cons.prems Cons.hyps(2) [symmetric]] obtain q' where
    q': "pp q = Ret (Some x, q')" "invar q'" "contents q' = xs" "bound q' = bound q"
    by blast
  from Cons.hyps(1) [OF q'(3) [symmetric] q'(2)] q' Cons.hyps(2) [symmetric] show ?case by auto
qed

end

text \<open>The ring delivers the elements themselves.\<close>

locale bounded_fifo =
  fixes psh :: "'q \<Rightarrow> 'a \<Rightarrow> (bool \<times> 'q) outcome"
    and pp :: "'q \<Rightarrow> ('a option \<times> 'q) outcome"
    and contents :: "'q \<Rightarrow> 'a list"
    and invar :: "'q \<Rightarrow> bool"
    and bound :: "'q \<Rightarrow> nat"
    and elem :: "'q \<Rightarrow> 'a \<Rightarrow> bool"
  assumes push_room:
      "invar q \<Longrightarrow> elem q x \<Longrightarrow> length (contents q) < bound q \<Longrightarrow>
       \<exists>q'. psh q x = Ret (True, q') \<and> invar q' \<and> contents q' = contents q @ [x]
          \<and> bound q' = bound q \<and> elem q' = elem q"
    and push_full:
      "invar q \<Longrightarrow> elem q x \<Longrightarrow> length (contents q) = bound q \<Longrightarrow> psh q x = Ret (False, q)"
    and pop_some:
      "invar q \<Longrightarrow> contents q = x # xs \<Longrightarrow>
       \<exists>q'. pp q = Ret (Some x, q') \<and> invar q' \<and> contents q' = xs
          \<and> bound q' = bound q \<and> elem q' = elem q"
    and pop_empty: "invar q \<Longrightarrow> contents q = [] \<Longrightarrow> pp q = Ret (None, q)"
    and contents_bound: "invar q \<Longrightarrow> length (contents q) \<le> bound q"
begin

sublocale v: viewed_fifo psh pp contents invar bound elem "\<lambda>x. x"
  by unfold_locales (fact push_room push_full pop_some pop_empty contents_bound)+

lemma fifo_order:
  assumes "invar q" and "\<forall>x \<in> set (pushes ops). elem q x"
  shows "\<exists>acc out q'. fifo_run psh pp q ops = Ret (acc, out, q') \<and> invar q'
           \<and> contents q @ acc = out @ contents q' \<and> bound q' = bound q"
  using v.fifo_order [OF assms] by simp

lemma fifo_burst:
  assumes "invar q" and "\<forall>x \<in> set xs. elem q x" and "length (contents q) + length xs \<le> bound q"
  shows "\<exists>q'. fifo_run psh pp q (map Push xs) = Ret (xs, [], q') \<and> invar q'
           \<and> contents q' = contents q @ xs \<and> bound q' = bound q \<and> elem q' = elem q"
  using v.fifo_burst [OF assms] by simp

lemmas push_cases = v.push_cases

lemmas pop_cases = v.pop_cases

lemmas fifo_drain = v.fifo_drain

end

end
