(* ===== verification/Ring_Index.thy ===== *)
theory Ring_Index
  imports Prelude
begin

unbundle bit_operations_syntax

text \<open>
  The index functions that head \<^verbatim>\<open>libfdu-utils/shmring.c\<close> and are repeated verbatim in the other
  ring buffers of the repository, on the 64-bit words the code computes with.
\<close>

definition increment :: "u64 \<Rightarrow> u64 \<Rightarrow> u64 outcome" where
  "increment current_idx max_size =
     (if max_size = 0 then Undef else Ret ((current_idx + 1) mod max_size))"

definition mask_increment :: "u64 \<Rightarrow> u64 \<Rightarrow> u64" where
  "mask_increment current_idx msk = (current_idx + 1) AND msk"

text \<open>The loop \<^verbatim>\<open>while (ret >= max_size) ret -= max_size\<close>; it never ends when \<open>max_size = 0\<close>.\<close>

function wrap_down :: "u64 \<Rightarrow> u64 \<Rightarrow> u64 outcome" where
  "wrap_down ret max_size =
     (if ret < max_size then Ret ret
      else if max_size = 0 then Spin
      else wrap_down (ret - max_size) max_size)"
  by pat_completeness auto
termination
  by (relation "measure (\<lambda>(ret, max_size). unat ret)")
     (auto simp: word_less_nat_alt unat_sub word_le_nat_alt not_less unat_eq_zero
       intro!: diff_less gr0I dest: le_zero_eq [THEN iffD1])

declare wrap_down.simps [simp del]

definition next_index :: "u64 \<Rightarrow> u64 \<Rightarrow> u64 outcome" where
  "next_index current_idx max_size = wrap_down (current_idx + 1) max_size"

definition next_index_bulk :: "u64 \<Rightarrow> u64 \<Rightarrow> u64 \<Rightarrow> u64 outcome" where
  "next_index_bulk current_idx max_size step_size = wrap_down (current_idx + step_size) max_size"

definition ring_empty :: "u64 \<Rightarrow> u64 \<Rightarrow> bool" where
  "ring_empty write_idx read_idx \<longleftrightarrow> write_idx = read_idx"

section \<open>Meaning on natural numbers\<close>

text \<open>The subtraction loop computes the remainder, for every positive ring size.\<close>

lemma wrap_down_mod: "max_size \<noteq> 0 \<Longrightarrow> wrap_down ret max_size = Ret (ret mod max_size)"
proof (induction ret max_size rule: wrap_down.induct)
  case (1 ret m)
  show ?case
  proof (cases "ret < m")
    case True
    then have "ret mod m = ret" by (simp add: word_eq_iff_unat unat_mod word_less_nat_alt)
    with True show ?thesis by (simp add: wrap_down.simps [of ret m])
  next
    case False
    then have "(ret - m) mod m = ret mod m"
      by (simp add: word_eq_iff_unat unat_mod unat_sub word_le_nat_alt not_less word_less_nat_alt
          le_mod_geq)
    with False "1" show ?thesis by (simp add: wrap_down.simps [of ret m])
  qed
qed

lemma wrap_down_zero: "wrap_down ret 0 = Spin"
  by (simp add: wrap_down.simps [of ret 0])

lemma unat_succ_mod:
  fixes i c :: u64
  shows "unat i < unat c \<Longrightarrow> unat ((i + 1) mod c) = Suc (unat i) mod unat c"
  by (simp add: unat_mod nat_of_word)

lemma next_index_eq: "max_size \<noteq> 0 \<Longrightarrow> next_index i max_size = Ret ((i + 1) mod max_size)"
  by (simp add: next_index_def wrap_down_mod)

text \<open>The two ways to step an index agree on every ring.\<close>

lemma increment_next_index: "max_size \<noteq> 0 \<Longrightarrow> increment i max_size = next_index i max_size"
  by (simp add: increment_def next_index_eq)

lemma unat_add_mod:
  fixes i k c :: u64
  assumes "unat i < 2 ^ 63" "unat k \<le> 2 ^ 63"
  shows "unat ((i + k) mod c) = (unat i + unat k) mod unat c"
proof -
  from assms have "unat (i + k) = unat i + unat k"
    by (simp add: unat_word_ariths)
  then show ?thesis by (simp add: unat_mod)
qed

lemma next_index_bulk_eq:
  "max_size \<noteq> 0 \<Longrightarrow> next_index_bulk i max_size k = Ret ((i + k) mod max_size)"
  by (simp add: next_index_bulk_def wrap_down_mod)

text \<open>
  Masking steps an index like the remainder exactly because the ring size is a power of two.
\<close>

lemma unat_mask_increment:
  fixes i :: u64
  assumes "unat i < 2 ^ k" "k < 64"
  shows "unat (mask_increment i (mask k)) = Suc (unat i) mod 2 ^ k"
proof -
  have "(2::nat) ^ k < 2 ^ 64" by (rule power_strict_increasing) (use assms(2) in simp_all)
  with assms(1) have "unat (i + 1) = Suc (unat i)"
    by (simp add: unat_word_ariths)
  moreover have "mask_increment i (mask k) = take_bit k (i + 1)"
    by (simp add: mask_increment_def take_bit_eq_mask)
  ultimately show ?thesis
    by (simp add: unsigned_take_bit_eq) (simp add: take_bit_eq_mod)
qed

end
