(* ===== verification/Os_Resource.thy ===== *)
theory Os_Resource
  imports Prelude
begin

text \<open>
  Operating-system resources. The constructors and destructors of the repository acquire heap
  blocks, descriptors, mappings, shared-memory names and semaphores; their models return the trace of
  acquisitions and releases beside the result, and \<open>held\<close> reads off what a trace leaves behind.
\<close>

datatype 'r os_call = Acquire 'r | Release 'r

text \<open>Releasing what is not held (such as \<^verbatim>\<open>munmap(MAP_FAILED, n)\<close>) changes nothing.\<close>

fun held :: "'r list \<Rightarrow> 'r os_call list \<Rightarrow> 'r list" where
  "held rs [] = rs"
| "held rs (Acquire r # cs) = held (r # rs) cs"
| "held rs (Release r # cs) = held (remove1 r rs) cs"

lemma held_append [simp]: "held rs (cs @ ds) = held (held rs cs) ds"
  by (induction rs cs rule: held.induct) auto

text \<open>The calls of a part, named as resources of the whole.\<close>

definition map_call :: "('a \<Rightarrow> 'b) \<Rightarrow> 'a os_call \<Rightarrow> 'b os_call" where
  "map_call f c = (case c of Acquire r \<Rightarrow> Acquire (f r) | Release r \<Rightarrow> Release (f r))"

text \<open>
  A pointer of a context with what it points at: indeterminate after \<^verbatim>\<open>malloc\<close>, null, valid, or freed.
\<close>

datatype 'a cptr = Wild | Null | Live 'a | Dangling

definition deref :: "'a cptr \<Rightarrow> 'a outcome" where
  "deref p = (case p of Live x \<Rightarrow> Ret x | _ \<Rightarrow> Undef)"

end
