(* ===== verification/Shmring.thy ===== *)
theory Shmring
  imports Fifo Ring_Index Os_Resource
begin

text \<open>
  \<^verbatim>\<open>libfdu-utils/shmring.c\<close>: the single-producer single-consumer ring in shared memory that
  carries data messages between the socket library and the proxy. \<open>shmring_buf\<close> is the shared part,
  \<open>shmring\<close> the handle of one process. The array \<^verbatim>\<open>data\<close> of the handle points at the
  consecutive slots of \<^verbatim>\<open>data_area\<close>, so \<open>data_area q ! i\<close> stands for the \<^verbatim>\<open>ele_size\<close> bytes at
  \<^verbatim>\<open>data[i]\<close>; a copy that leaves its slot is \<open>Undef\<close>. A handle or buffer argument of a
  definition is a value, which is the non-null case of the pointer assertions.
\<close>

section \<open>Data\<close>

record shmring_buf =
  write_idx :: u64
  read_idx :: u64
  data_area :: "byte list list"

record shmring =
  shm_fd :: int
  addrlen :: u64
  ele_size :: u64
  capacity :: u64
  queue_size :: u64
  peer_read_idx :: u64
  shm_addr :: string
  queue :: shmring_buf

abbreviation set_write_idx :: "shmring \<Rightarrow> u64 \<Rightarrow> shmring" where
  "set_write_idx s w \<equiv> s\<lparr>queue := (queue s)\<lparr>write_idx := w\<rparr>\<rparr>"

abbreviation set_read_idx :: "shmring \<Rightarrow> u64 \<Rightarrow> shmring" where
  "set_read_idx s r \<equiv> s\<lparr>queue := (queue s)\<lparr>read_idx := r\<rparr>\<rparr>"

abbreviation set_data_area :: "shmring \<Rightarrow> byte list list \<Rightarrow> shmring" where
  "set_data_area s d \<equiv> s\<lparr>queue := (queue s)\<lparr>data_area := d\<rparr>\<rparr>"

definition clamp_len :: "u64 \<Rightarrow> u64 \<Rightarrow> nat" where
  "clamp_len ele_len esz = unat (if ele_len \<le> esz then ele_len else esz)"

section \<open>One element at a time\<close>

definition shmring_push :: "shmring \<Rightarrow> byte list \<Rightarrow> u64 \<Rightarrow> (int \<times> shmring) outcome" where
  "shmring_push self element ele_len =
     (let w_idx = write_idx (queue self) in
      bind_out (increment w_idx (capacity self)) (\<lambda>w_next_idx.
      if w_next_idx = read_idx (queue self) then Ret (FAILED, self)
      else
        bind_out (array_get (data_area (queue self)) (unat w_idx)) (\<lambda>slot.
        bind_out (memcpy slot element (clamp_len ele_len (ele_size self))) (\<lambda>slot'.
        bind_out (array_set (data_area (queue self)) (unat w_idx) slot') (\<lambda>area.
          Ret (SUCCESS, set_write_idx (set_data_area self area) w_next_idx))))))"

definition shmring_pop :: "shmring \<Rightarrow> byte list \<Rightarrow> u64 \<Rightarrow> (int \<times> byte list \<times> shmring) outcome" where
  "shmring_pop self element ele_len =
     (let w_idx = write_idx (queue self); r_idx = read_idx (queue self) in
      if ring_empty w_idx r_idx then Ret (FAILED, element, self)
      else
        bind_out (array_get (data_area (queue self)) (unat r_idx)) (\<lambda>slot.
        bind_out (memcpy element slot (clamp_len ele_len (ele_size self))) (\<lambda>element'.
        bind_out (increment r_idx (capacity self)) (\<lambda>r_next_idx.
          Ret (SUCCESS, element', set_read_idx self r_next_idx)))))"

definition shmring_plain_pop :: "shmring \<Rightarrow> (int \<times> shmring) outcome" where
  "shmring_plain_pop self =
     (let w_idx = write_idx (queue self); r_idx = read_idx (queue self) in
      if ring_empty w_idx r_idx then Ret (- 1, self)
      else bind_out (next_index r_idx (capacity self)) (\<lambda>r_next_idx.
             Ret (0, set_read_idx self r_next_idx)))"

definition shmring_front :: "shmring \<Rightarrow> byte list \<Rightarrow> u64 \<Rightarrow> (int \<times> byte list) outcome" where
  "shmring_front self element ele_len =
     (let w_idx = write_idx (queue self); r_idx = read_idx (queue self) in
      if ring_empty w_idx r_idx then Ret (FAILED, element)
      else
        bind_out (array_get (data_area (queue self)) (unat r_idx)) (\<lambda>slot.
        bind_out (memcpy element slot (clamp_len ele_len (ele_size self))) (\<lambda>element'.
          Ret (SUCCESS, element'))))"

definition ntp_get_read_index :: "shmring \<Rightarrow> u64" where
  "ntp_get_read_index self = read_idx (queue self)"

definition ntp_get_peer_read_index :: "shmring \<Rightarrow> u64" where
  "ntp_get_peer_read_index self = peer_read_idx self"

definition ntp_set_peer_read_index :: "shmring \<Rightarrow> u64 \<Rightarrow> int \<times> shmring" where
  "ntp_set_peer_read_index self r = (0, self\<lparr>peer_read_idx := r\<rparr>)"

section \<open>Bulk operations\<close>

text \<open>
  The copy loops: \<open>n\<close> elements from \<open>elements[i]\<close> on into the slots from \<open>pos\<close> on, and back.
\<close>

fun bulk_in ::
  "byte list list \<Rightarrow> nat \<Rightarrow> byte list list \<Rightarrow> u64 list \<Rightarrow> nat \<Rightarrow> nat \<Rightarrow> byte list list outcome"
where
  "bulk_in area pos elements ele_lens i 0 = Ret area"
| "bulk_in area pos elements ele_lens i (Suc n) =
     bind_out (array_get area pos) (\<lambda>slot.
     bind_out (array_get elements i) (\<lambda>e.
     bind_out (array_get ele_lens i) (\<lambda>len.
     bind_out (memcpy slot e (unat len)) (\<lambda>slot'.
       bulk_in (area[pos := slot']) (Suc pos) elements ele_lens (Suc i) n))))"

fun bulk_out ::
  "byte list list \<Rightarrow> u64 list \<Rightarrow> nat \<Rightarrow> byte list list \<Rightarrow> nat \<Rightarrow> nat \<Rightarrow> byte list list outcome"
where
  "bulk_out elements max_lens i area pos 0 = Ret elements"
| "bulk_out elements max_lens i area pos (Suc n) =
     bind_out (array_get elements i) (\<lambda>e.
     bind_out (array_get area pos) (\<lambda>slot.
     bind_out (array_get max_lens i) (\<lambda>len.
     bind_out (memcpy e slot (unat len)) (\<lambda>e'.
       bulk_out (elements[i := e']) max_lens (Suc i) area (Suc pos) n))))"

definition bulk_count :: "u64 \<Rightarrow> u64 \<Rightarrow> u64" where
  "bulk_count count cap = (if count \<le> cap then count else cap - 1)"

definition shmring_push_bulk ::
  "shmring \<Rightarrow> byte list list \<Rightarrow> u64 list \<Rightarrow> u64 \<Rightarrow> (int \<times> shmring) outcome"
where
  "shmring_push_bulk self elements ele_lens count0 =
     bind_out (c_assert (0 < count0)) (\<lambda>_.
     let count = bulk_count count0 (capacity self);
         w_idx = write_idx (queue self); area = data_area (queue self) in
     bind_out (next_index_bulk w_idx (capacity self) count) (\<lambda>w_next_idx.
     let r_idx = read_idx (queue self) in
     if w_next_idx = r_idx then Ret (FAILED, self)
     else
       let idle_slots = (if r_idx \<le> w_idx then capacity self - 1 - w_idx + r_idx else r_idx - w_idx) in
       if idle_slots < count then Ret (FAILED, self)
       else
         bind_out
           (if w_idx < w_next_idx \<or> w_next_idx = 0
            then bulk_in area (unat w_idx) elements ele_lens 0 (unat count)
            else
              let head = unat (capacity self - w_idx) in
              bind_out (bulk_in area (unat w_idx) elements ele_lens 0 head) (\<lambda>area'.
                bulk_in area' 0 elements ele_lens head (unat w_next_idx)))
           (\<lambda>area'. Ret (SUCCESS, set_write_idx (set_data_area self area') w_next_idx))))"

definition shmring_pop_bulk ::
  "shmring \<Rightarrow> byte list list \<Rightarrow> u64 list \<Rightarrow> u64 \<Rightarrow> (u64 \<times> byte list list \<times> shmring) outcome"
where
  "shmring_pop_bulk self elements max_lens count0 =
     bind_out (c_assert (0 < count0)) (\<lambda>_.
     let count = bulk_count count0 (capacity self);
         w_idx = write_idx (queue self); r_idx = read_idx (queue self);
         area = data_area (queue self) in
     if ring_empty w_idx r_idx then Ret (- 1, elements, self)
     else if r_idx < w_idx then
       let pop_cnt = (if count \<le> w_idx - r_idx then count else w_idx - r_idx) in
       bind_out (next_index_bulk r_idx (capacity self) pop_cnt) (\<lambda>r_next_idx.
       bind_out (bulk_out elements max_lens 0 area (unat r_idx) (unat pop_cnt)) (\<lambda>elements'.
         Ret (pop_cnt, elements', set_read_idx self r_next_idx)))
     else
       let pop_cnt = (if count < capacity self - r_idx + w_idx then count
                      else capacity self - 1 - r_idx + w_idx) in
       bind_out (next_index_bulk r_idx (capacity self) pop_cnt) (\<lambda>r_next_idx.
       bind_out
         (if r_idx < r_next_idx \<or> r_next_idx = 0
          then bulk_out elements max_lens 0 area (unat r_idx) (unat pop_cnt)
          else
            let head = unat (capacity self - r_idx) in
            bind_out (bulk_out elements max_lens 0 area (unat r_idx) head) (\<lambda>elements'.
              bulk_out elements' max_lens head area 0 (unat r_next_idx)))
         (\<lambda>elements'. Ret (pop_cnt, elements', set_read_idx self r_next_idx))))"

section \<open>Construction and destruction\<close>

datatype shm_res = R_handle | R_data | R_fd int | R_map | R_name string

text \<open>
  What the system calls answer: whether each allocation succeeds, the descriptor of each
  \<^verbatim>\<open>shm_open\<close> (\<open>-1\<close> for failure), whether \<^verbatim>\<open>errno\<close> is then \<^verbatim>\<open>ENOENT\<close> or \<^verbatim>\<open>EEXIST\<close>, and what the
  mapping holds.
\<close>

record shm_os =
  os_calloc_handle :: bool
  os_calloc_data :: bool
  os_shm_open :: int
  os_errno_retry :: bool
  os_shm_reopen :: int
  os_ftruncate :: bool
  os_mmap :: "shmring_buf option"

abbreviation DEFAULT_MAX_BUFS :: u64 where "DEFAULT_MAX_BUFS \<equiv> 1024"

definition shmring_fail :: "bool \<Rightarrow> int \<Rightarrow> string \<Rightarrow> bool \<Rightarrow> shm_res os_call list" where
  "shmring_fail is_owner fd addr mapped =
     (if mapped then [Release R_map] else []) @
     (if 0 < fd then [Release (R_fd fd)] @ (if is_owner then [Release (R_name addr)] else []) else []) @
     [Release R_data, Release R_handle]"

definition shmring_open :: "shm_os \<Rightarrow> bool \<Rightarrow> int" where
  "shmring_open os is_owner =
     (if os_shm_open os = - 1
      then (if is_owner \<and> os_errno_retry os then os_shm_reopen os else - 1)
      else os_shm_open os)"

definition shmring_setup ::
  "shm_os \<Rightarrow> string \<Rightarrow> u64 \<Rightarrow> u64 \<Rightarrow> u64 \<Rightarrow> bool \<Rightarrow> shmring option \<times> shm_res os_call list"
where
  "shmring_setup os addr len esz num is_owner =
     (let fd = shmring_open os is_owner;
          opened = Acquire (R_fd fd) # (if is_owner then [Acquire (R_name addr)] else []) in
      if fd = - 1 then (None, shmring_fail is_owner fd addr False)
      else if is_owner \<and> \<not> os_ftruncate os then (None, opened @ shmring_fail is_owner fd addr False)
      else case os_mmap os of
        None \<Rightarrow> (None, opened @ shmring_fail is_owner fd addr True)
      | Some m \<Rightarrow>
          (Some \<lparr>shm_fd = - 1, addrlen = len, ele_size = esz, capacity = num,
             queue_size = 16 + esz * (num + 1), peer_read_idx = 0, shm_addr = addr,
             queue = (if is_owner then m\<lparr>write_idx := 0, read_idx := 0\<rparr> else m)\<rparr>,
           opened @ [Acquire R_map, Release (R_fd fd)]))"

definition shmring_init0 ::
  "shm_os \<Rightarrow> string \<Rightarrow> u64 \<Rightarrow> u64 \<Rightarrow> u64 \<Rightarrow> bool \<Rightarrow> (shmring option \<times> shm_res os_call list) outcome"
where
  "shmring_init0 os addr len esz ele_num is_owner =
     bind_out (c_assert (0 < len)) (\<lambda>_.
     bind_out (c_assert (0 < esz)) (\<lambda>_.
     let num = (if 0 < ele_num then ele_num else DEFAULT_MAX_BUFS) in
     if \<not> os_calloc_handle os then Ret (None, [])
     else
       bind_out (memcpy (replicate 64 (CHR 0x00)) addr (unat len)) (\<lambda>name.
       if \<not> os_calloc_data os then Ret (None, [Acquire R_handle, Release R_handle])
       else
         (case shmring_setup os name len esz num is_owner of
            (h, cs) \<Rightarrow> Ret (h, [Acquire R_handle, Acquire R_data] @ cs)))))"

definition shmring_create ::
  "shm_os \<Rightarrow> string \<Rightarrow> u64 \<Rightarrow> u64 \<Rightarrow> u64 \<Rightarrow> (shmring option \<times> shm_res os_call list) outcome"
where
  "shmring_create os addr len esz num = shmring_init0 os addr len esz num True"

definition shmring_init ::
  "shm_os \<Rightarrow> string \<Rightarrow> u64 \<Rightarrow> u64 \<Rightarrow> u64 \<Rightarrow> (shmring option \<times> shm_res os_call list) outcome"
where
  "shmring_init os addr len esz num = shmring_init0 os addr len esz num False"

definition shmring_free :: "shmring \<Rightarrow> bool \<Rightarrow> shm_res os_call list" where
  "shmring_free handle is_unlink =
     [Release R_map] @ (if shm_fd handle \<noteq> - 1 then [Release (R_fd (shm_fd handle))] else []) @
     (if is_unlink then [Release (R_name (shm_addr handle))] else []) @ [Release R_data, Release R_handle]"

section \<open>Invariant and contents\<close>

text \<open>The code loops over the slots with an \<^verbatim>\<open>int\<close>, whence the bound on the capacity.\<close>

definition shmring_inv :: "shmring \<Rightarrow> bool" where
  "shmring_inv s \<longleftrightarrow>
     0 < capacity s \<and> unat (capacity s) < 2 ^ 31 \<and>
     length (data_area (queue s)) = unat (capacity s) \<and>
     unat (write_idx (queue s)) < unat (capacity s) \<and>
     unat (read_idx (queue s)) < unat (capacity s) \<and>
     (\<forall>slot \<in> set (data_area (queue s)). length slot = unat (ele_size s))"

definition shmring_contents :: "shmring \<Rightarrow> byte list list" where
  "shmring_contents s =
     ring_list (unat (capacity s)) (unat (read_idx (queue s))) (unat (write_idx (queue s)))
       ((!) (data_area (queue s)))"

lemma shmring_contents_length:
  "shmring_inv s \<Longrightarrow> length (shmring_contents s) \<le> unat (capacity s) - 1"
  unfolding shmring_inv_def shmring_contents_def
  using ring_count_less [of "unat (read_idx (queue s))" "unat (capacity s)" "unat (write_idx (queue s))"]
  by simp

lemma shmring_contents_empty:
  "shmring_inv s \<Longrightarrow> shmring_contents s = [] \<longleftrightarrow> write_idx (queue s) = read_idx (queue s)"
  by (simp add: shmring_inv_def shmring_contents_def ring_list_empty word_eq_iff_unat)

lemma shmring_slot_length:
  "shmring_inv s \<Longrightarrow> i < unat (capacity s) \<Longrightarrow> length (data_area (queue s) ! i) = unat (ele_size s)"
  by (simp add: shmring_inv_def)

lemma shmring_inv_step:
  assumes "shmring_inv s" "i = write_idx (queue s) \<or> i = read_idx (queue s)"
  shows "increment i (capacity s) = Ret ((i + 1) mod capacity s)"
    and "next_index i (capacity s) = Ret ((i + 1) mod capacity s)"
    and "unat ((i + 1) mod capacity s) = Suc (unat i) mod unat (capacity s)"
proof -
  from assms have "capacity s \<noteq> 0" "unat i < unat (capacity s)" by (auto simp: shmring_inv_def)
  then show "increment i (capacity s) = Ret ((i + 1) mod capacity s)"
    "next_index i (capacity s) = Ret ((i + 1) mod capacity s)"
    "unat ((i + 1) mod capacity s) = Suc (unat i) mod unat (capacity s)"
    by (simp_all add: increment_def next_index_eq unat_succ_mod)
qed

lemma shmring_full_iff:
  assumes "shmring_inv s"
  shows "(write_idx (queue s) + 1) mod capacity s = read_idx (queue s)
           \<longleftrightarrow> length (shmring_contents s) = unat (capacity s) - 1"
proof -
  let ?c = "unat (capacity s)" and ?r = "unat (read_idx (queue s))" and ?w = "unat (write_idx (queue s))"
  have "(write_idx (queue s) + 1) mod capacity s = read_idx (queue s) \<longleftrightarrow> Suc ?w mod ?c = ?r"
    using shmring_inv_step(3) [OF assms] by (simp add: word_eq_iff_unat)
  also have "\<dots> \<longleftrightarrow> length (shmring_contents s) = ?c - 1"
    using assms ring_count_full [of ?r ?c ?w] by (simp add: shmring_inv_def shmring_contents_def)
  finally show ?thesis .
qed

lemma clamp_len_le: "clamp_len n m \<le> unat m"
  by (simp add: clamp_len_def word_le_nat_alt)

section \<open>What one push and one pop do\<close>

lemma shmring_push_full:
  "shmring_inv s \<Longrightarrow> length (shmring_contents s) = unat (capacity s) - 1 \<Longrightarrow>
   shmring_push s e n = Ret (FAILED, s)"
  by (simp add: shmring_push_def shmring_inv_step shmring_full_iff)

text \<open>A push that finds room writes the clamped prefix of the element over the free slot.\<close>

lemma shmring_push_room:
  assumes inv: "shmring_inv s" and room: "length (shmring_contents s) < unat (capacity s) - 1"
    and e: "clamp_len n (ele_size s) \<le> length e"
  obtains s' where "shmring_push s e n = Ret (SUCCESS, s')" "shmring_inv s'"
    "shmring_contents s' = shmring_contents s @
       [take (clamp_len n (ele_size s)) e @
        drop (clamp_len n (ele_size s)) (data_area (queue s) ! unat (write_idx (queue s)))]"
    "capacity s' = capacity s" "ele_size s' = ele_size s" "read_idx (queue s') = read_idx (queue s)"
proof -
  let ?c = "unat (capacity s)" and ?r = "unat (read_idx (queue s))" and ?w = "unat (write_idx (queue s))"
  let ?n = "clamp_len n (ele_size s)" and ?d = "data_area (queue s)"
  define slot where "slot = take ?n e @ drop ?n (?d ! ?w)"
  define s' where "s' = set_write_idx (set_data_area s (?d[?w := slot])) ((write_idx (queue s) + 1) mod capacity s)"
  from inv have i: "?w < ?c" "?r < ?c" "length ?d = ?c" by (simp_all add: shmring_inv_def)
  have nf: "(write_idx (queue s) + 1) mod capacity s \<noteq> read_idx (queue s)"
    using room shmring_full_iff [OF inv] by simp
  then have nf': "Suc ?w mod ?c \<noteq> ?r"
    using shmring_inv_step(3) [OF inv] by (simp add: word_eq_iff_unat)
  have sl: "length (?d ! ?w) = unat (ele_size s)" using shmring_slot_length [OF inv i(1)] .
  have len: "?n \<le> unat (ele_size s)" by (rule clamp_len_le)
  have "shmring_push s e n = Ret (SUCCESS, s')"
    using i nf sl len e by (simp add: shmring_push_def shmring_inv_step [OF inv] s'_def slot_def Let_def)
  moreover have "shmring_inv s'"
    using inv i sl len e
    by (auto simp: shmring_inv_def s'_def slot_def unat_succ_mod dest!: subsetD [OF set_update_subset_insert])
  moreover have "shmring_contents s' = shmring_contents s @ [slot]"
  proof -
    have "shmring_contents s' = ring_list ?c ?r (Suc ?w mod ?c) (((!) ?d)(?w := slot))"
      unfolding shmring_contents_def s'_def
      using i shmring_inv_step(3) [OF inv, of "write_idx (queue s)"]
      by (simp, intro ring_list_cong) (auto simp: nth_list_update)
    then show ?thesis using i nf' by (simp add: ring_list_push shmring_contents_def)
  qed
  ultimately show ?thesis using that by (simp add: s'_def slot_def)
qed

lemma shmring_nonempty:
  assumes inv: "shmring_inv s" and "shmring_contents s = x # xs"
  shows "write_idx (queue s) \<noteq> read_idx (queue s)"
    and "data_area (queue s) ! unat (read_idx (queue s)) = x"
    and "shmring_inv (set_read_idx s ((read_idx (queue s) + 1) mod capacity s))"
    and "shmring_contents (set_read_idx s ((read_idx (queue s) + 1) mod capacity s)) = xs"
proof -
  show ne: "write_idx (queue s) \<noteq> read_idx (queue s)"
    using assms shmring_contents_empty [OF inv] by auto
  have "shmring_contents s = data_area (queue s) ! unat (read_idx (queue s)) #
     shmring_contents (set_read_idx s ((read_idx (queue s) + 1) mod capacity s))"
    using inv ne unfolding shmring_contents_def shmring_inv_def
    by (subst ring_list_pop) (simp_all add: word_eq_iff_unat unat_succ_mod)
  with assms(2) show "data_area (queue s) ! unat (read_idx (queue s)) = x"
    "shmring_contents (set_read_idx s ((read_idx (queue s) + 1) mod capacity s)) = xs" by simp_all
  show "shmring_inv (set_read_idx s ((read_idx (queue s) + 1) mod capacity s))"
    using inv by (simp add: shmring_inv_def unat_succ_mod)
qed

lemma shmring_pop_some:
  assumes "shmring_inv s" "shmring_contents s = x # xs" "clamp_len n (ele_size s) \<le> length buf"
  shows "\<exists>s'. shmring_pop s buf n =
           Ret (SUCCESS, take (clamp_len n (ele_size s)) x @ drop (clamp_len n (ele_size s)) buf, s')
         \<and> shmring_plain_pop s = Ret (0, s')
         \<and> shmring_front s buf n =
           Ret (SUCCESS, take (clamp_len n (ele_size s)) x @ drop (clamp_len n (ele_size s)) buf)
         \<and> shmring_inv s' \<and> shmring_contents s' = xs \<and> capacity s' = capacity s \<and> ele_size s' = ele_size s"
proof -
  have "unat (read_idx (queue s)) < length (data_area (queue s))"
    using assms(1) by (simp add: shmring_inv_def)
  moreover from this have "length x = unat (ele_size s)"
    using shmring_slot_length [OF assms(1), of "unat (read_idx (queue s))"] shmring_nonempty(2) [OF assms(1,2)]
      assms(1) by (simp add: shmring_inv_def)
  ultimately show ?thesis
    using shmring_nonempty [OF assms(1,2)] assms(3) clamp_len_le [of n "ele_size s"]
    by (simp add: shmring_pop_def shmring_plain_pop_def shmring_front_def ring_empty_def
        shmring_inv_step [OF assms(1)])
qed

lemma shmring_pop_none:
  assumes "shmring_inv s" "shmring_contents s = []"
  shows "shmring_pop s buf n = Ret (FAILED, buf, s)" "shmring_plain_pop s = Ret (- 1, s)"
    "shmring_front s buf n = Ret (FAILED, buf)"
  using assms shmring_contents_empty [OF assms(1)]
  by (simp_all add: shmring_pop_def shmring_plain_pop_def shmring_front_def ring_empty_def)

section \<open>The ring is a bounded FIFO\<close>

text \<open>Whole elements, the way \<^verbatim>\<open>ntp2nts_shm.c\<close> calls the ring.\<close>

definition ring_put :: "shmring \<Rightarrow> byte list \<Rightarrow> (bool \<times> shmring) outcome" where
  "ring_put s e = bind_out (shmring_push s e (ele_size s)) (\<lambda>(rc, s'). Ret (rc = SUCCESS, s'))"

definition ring_take :: "shmring \<Rightarrow> (byte list option \<times> shmring) outcome" where
  "ring_take s =
     bind_out (shmring_pop s (replicate (unat (ele_size s)) 0) (ele_size s)) (\<lambda>(rc, e, s').
       Ret (if rc = SUCCESS then Some e else None, s'))"

lemma clamp_len_self [simp]: "clamp_len n n = unat n"
  by (simp add: clamp_len_def)

interpretation sr: bounded_fifo ring_put ring_take shmring_contents shmring_inv
  "\<lambda>s. unat (capacity s) - 1" "\<lambda>s e. length e = unat (ele_size s)"
proof unfold_locales
  fix s :: shmring and e :: "byte list"
  assume *: "shmring_inv s" "length e = unat (ele_size s)"
    "length (shmring_contents s) < unat (capacity s) - 1"
  moreover have "length (data_area (queue s) ! unat (write_idx (queue s))) = unat (ele_size s)"
    using *(1) by (simp add: shmring_inv_def)
  ultimately show "\<exists>s'. ring_put s e = Ret (True, s') \<and> shmring_inv s' \<and>
      shmring_contents s' = shmring_contents s @ [e] \<and> unat (capacity s') - 1 = unat (capacity s) - 1 \<and>
      (\<lambda>e. length e = unat (ele_size s')) = (\<lambda>e. length e = unat (ele_size s))"
    by (auto simp: ring_put_def elim!: shmring_push_room [of s "ele_size s" e])
next
  fix s :: shmring and e xs
  assume *: "shmring_inv s" "shmring_contents s = e # xs"
  then have "length e = unat (ele_size s)"
    using shmring_nonempty(2) [OF *] by (auto simp: shmring_inv_def)
  with * shmring_pop_some [OF *, of "ele_size s" "replicate (unat (ele_size s)) 0"]
  show "\<exists>s'. ring_take s = Ret (Some e, s') \<and> shmring_inv s' \<and> shmring_contents s' = xs \<and>
      unat (capacity s') - 1 = unat (capacity s) - 1 \<and>
      (\<lambda>e. length e = unat (ele_size s')) = (\<lambda>e. length e = unat (ele_size s))"
    by (auto simp: ring_take_def)
qed (simp_all add: ring_put_def ring_take_def shmring_push_full shmring_pop_none
    shmring_contents_length [simplified One_nat_def])

section \<open>Bulk copies\<close>

text \<open>A batch of \<open>n\<close> elements of the slot's size, with their lengths.\<close>

definition batch :: "u64 \<Rightarrow> byte list list \<Rightarrow> u64 list \<Rightarrow> nat \<Rightarrow> bool" where
  "batch esz es lens n \<longleftrightarrow> n \<le> length es \<and> n \<le> length lens \<and>
     (\<forall>i < n. length (es ! i) = unat esz \<and> lens ! i = esz)"

lemma batchD: "batch esz es lens n \<Longrightarrow> i < n \<Longrightarrow> length (es ! i) = unat esz \<and> lens ! i = esz"
  by (simp add: batch_def)

lemma bulk_in_ok:
  assumes "batch esz es lens m" "i + n \<le> m" "pos + n \<le> length area"
    and "\<forall>slot \<in> set area. length slot = unat esz"
  shows "bulk_in area pos es lens i n = Ret (take pos area @ take n (drop i es) @ drop (pos + n) area)"
  using assms
proof (induction n arbitrary: area pos i)
  case (Suc n)
  have e: "length (es ! i) = unat esz" "lens ! i = esz" "i < length es" "i < length lens"
    using Suc.prems batchD [OF Suc.prems(1), of i] by (auto simp: batch_def)
  have sl: "length (area ! pos) = unat esz" using Suc.prems by simp
  have "bulk_in area pos es lens i (Suc n) = bulk_in (area[pos := es ! i]) (Suc pos) es lens (Suc i) n"
    using e sl Suc.prems by simp
  also have "\<dots> = Ret (take (Suc pos) (area[pos := es ! i]) @ take n (drop (Suc i) es)
                     @ drop (Suc pos + n) (area[pos := es ! i]))"
    using Suc.prems e by (intro Suc.IH) (auto dest!: subsetD [OF set_update_subset_insert])
  also have "\<dots> = Ret (take pos area @ take (Suc n) (drop i es) @ drop (pos + Suc n) area)"
    using Suc.prems e by (simp add: take_Suc_conv_app_nth Cons_nth_drop_Suc [symmetric])
  finally show ?case .
qed simp

lemma bulk_out_ok:
  assumes "batch esz es lens m" "i + n \<le> m" "pos + n \<le> length area"
    and "\<forall>slot \<in> set area. length slot = unat esz"
  shows "bulk_out es lens i area pos n = Ret (take i es @ take n (drop pos area) @ drop (i + n) es)"
  using assms
proof (induction n arbitrary: es pos i)
  case (Suc n)
  have e: "length (es ! i) = unat esz" "lens ! i = esz" "i < length es" "i < length lens"
    using Suc.prems batchD [OF Suc.prems(1), of i] by (auto simp: batch_def)
  have sl: "length (area ! pos) = unat esz" using Suc.prems by simp
  have "bulk_out es lens i area pos (Suc n) = bulk_out (es[i := area ! pos]) lens (Suc i) area (Suc pos) n"
    using e sl Suc.prems by simp
  also have "\<dots> = Ret (take (Suc i) (es[i := area ! pos]) @ take n (drop (Suc pos) area)
                     @ drop (Suc i + n) (es[i := area ! pos]))"
    using Suc.prems e sl by (intro Suc.IH) (auto simp: batch_def nth_list_update)
  also have "\<dots> = Ret (take i es @ take (Suc n) (drop pos area) @ drop (i + Suc n) es)"
    using Suc.prems e by (simp add: take_Suc_conv_app_nth Cons_nth_drop_Suc [symmetric])
  finally show ?case .
qed simp

lemma batch_take:
  "batch esz es lens m \<Longrightarrow> n \<le> m \<Longrightarrow> batch esz es lens n"
  by (auto simp: batch_def)

text \<open>The two-part copy of a push that wraps around writes cell \<open>(w + k) mod c\<close> from element \<open>k\<close>.\<close>

lemma bulk_in_ring:
  assumes b: "batch esz es lens n" and sl: "\<forall>slot \<in> set area. length slot = unat esz"
    and c: "length area = c" "w < c" "n \<le> c"
    and a: "(if w + n \<le> c then bulk_in area w es lens 0 n
             else bind_out (bulk_in area w es lens 0 (c - w)) (\<lambda>a'. bulk_in a' 0 es lens (c - w) (w + n - c))) = m"
  obtains area' where "m = Ret area'" "length area' = c"
    "\<forall>k < n. area' ! ((w + k) mod c) = es ! k"
    "\<forall>j < c. (\<forall>k < n. (w + k) mod c \<noteq> j) \<longrightarrow> area' ! j = area ! j"
    "\<forall>slot \<in> set area'. length slot = unat esz"
proof -
  have es: "n \<le> length es" "\<forall>e \<in> set (take n es). length e = unat esz"
    using b by (auto simp: batch_def in_set_conv_nth)
  show ?thesis
  proof (cases "w + n \<le> c")
    case True
    define area' where "area' = take w area @ take n es @ drop (w + n) area"
    from True a have "m = Ret area'"
      using bulk_in_ok [OF b, of 0 n w area] sl c by (simp add: area'_def)
    moreover have "area' ! ((w + k) mod c) = es ! k" if "k < n" for k
      using that True c es by (simp add: area'_def nth_append)
    moreover have "area' ! j = area ! j" if "j < c" "\<And>k. k < n \<Longrightarrow> (w + k) mod c \<noteq> j" for j
    proof -
      from that(2) [of "j - w"] True that(1) have "j < w \<or> w + n \<le> j" by force
      then show ?thesis using True c es that(1) by (auto simp: area'_def nth_append)
    qed
    moreover have "\<forall>slot \<in> set area'. length slot = unat esz"
      using es sl by (auto simp: area'_def dest: in_set_takeD in_set_dropD)
    ultimately show ?thesis using True c es by (intro that [of area']) (auto simp: area'_def)
  next
    case False
    then have cw: "c - w \<le> n" by simp
    define area1 where "area1 = take w area @ take (c - w) es"
    have l1: "length area1 = c" using c es False by (simp add: area1_def)
    have sl1: "\<forall>slot \<in> set area1. length slot = unat esz"
      using es sl set_take_subset_set_take [OF cw, of es]
      by (auto simp: area1_def dest: in_set_takeD)
    define area' where "area' = take (w + n - c) (drop (c - w) es) @ drop (w + n - c) area1"
    have "bulk_in area w es lens 0 (c - w) = Ret area1"
      using bulk_in_ok [OF b, of 0 "c - w" w area] sl c False by (simp add: area1_def)
    moreover have "bulk_in area1 0 es lens (c - w) (w + n - c) = Ret area'"
      using bulk_in_ok [OF b, of "c - w" "w + n - c" 0 area1] sl1 l1 c False by (simp add: area'_def)
    ultimately have "m = Ret area'" using False a by simp
    moreover have "area' ! ((w + k) mod c) = es ! k" if "k < n" for k
      using that False c es by (auto simp: area'_def area1_def nth_append add_mod_alt)
    moreover have "area' ! j = area ! j" if "j < c" "\<And>k. k < n \<Longrightarrow> (w + k) mod c \<noteq> j" for j
    proof -
      have "j < w"
      proof (rule ccontr)
        assume "\<not> j < w"
        with False that(1) have "j - w < n" "(w + (j - w)) mod c = j" by simp_all
        with that(2) show False by blast
      qed
      moreover have "w + n - c \<le> j"
      proof (rule ccontr)
        assume "\<not> w + n - c \<le> j"
        with False c \<open>j < w\<close> have "j + c - w < n" "(w + (j + c - w)) mod c = j" by simp_all
        with that(2) show False by blast
      qed
      ultimately show ?thesis using c es False by (auto simp: area'_def area1_def nth_append)
    qed
    moreover have "\<forall>slot \<in> set area'. length slot = unat esz"
    proof -
      have "drop (c - w) (take n es) = take (w + n - c) (drop (c - w) es)"
        using c False by (simp add: drop_take add.commute)
      then have "set (take (w + n - c) (drop (c - w) es)) \<subseteq> set (take n es)"
        by (metis set_drop_subset)
      then show ?thesis using es sl1 by (auto simp: area'_def dest: in_set_dropD)
    qed
    ultimately show ?thesis using False c es l1 by (intro that [of area']) (auto simp: area'_def)
  qed
qed

lemma bulk_count_le: "0 < cap \<Longrightarrow> unat (bulk_count n cap) \<le> unat cap"
  by (auto simp: bulk_count_def word_le_nat_alt unat_sub word_less_nat_alt)

text \<open>The two tests of a bulk push refuse exactly when the batch does not fit.\<close>

lemma push_bulk_fits:
  assumes inv: "shmring_inv s" and n: "0 < n" "unat n \<le> unat (capacity s)"
  defines "w \<equiv> write_idx (queue s)" and "r \<equiv> read_idx (queue s)" and "c \<equiv> capacity s"
  shows "(w + n) mod c = r \<or> (if r \<le> w then c - 1 - w + r else r - w) < n
           \<longleftrightarrow> unat c - 1 < length (shmring_contents s) + unat n"
proof -
  have i: "unat w < unat c" "unat r < unat c" "unat c < 2 ^ 31"
    using inv by (simp_all add: shmring_inv_def w_def r_def c_def)
  have n': "0 < unat n" "unat n \<le> unat c" using n by (simp_all add: c_def word_less_nat_alt)
  have "unat ((w + n) mod c) = (unat w + unat n) mod unat c"
    using i n' by (intro unat_add_mod) simp_all
  then have 1: "(w + n) mod c = r \<longleftrightarrow> (unat w + unat n) mod unat c = unat r"
    by (simp add: word_eq_iff_unat)
  have 2: "unat (if r \<le> w then c - 1 - w + r else r - w) =
      (if unat r \<le> unat w then unat c - 1 - unat w + unat r else unat r - unat w)"
  proof (cases "r \<le> w")
    case True
    then have "unat (c - 1 - w) = unat c - 1 - unat w" using i by unat_arith
    with True i show ?thesis by (simp add: word_le_nat_alt unat_word_ariths)
  next
    case False
    then show ?thesis by (simp add: word_le_nat_alt unat_sub)
  qed
  have 3: "length (shmring_contents s) = ring_count (unat c) (unat r) (unat w)"
    by (simp add: shmring_contents_def w_def r_def c_def)
  show ?thesis unfolding 1 3 word_less_nat_alt 2
    using i n' by (auto simp: ring_count_alt add_mod_alt split: if_splits)
qed

text \<open>Occupied cells and the cells a fitting batch goes to are disjoint.\<close>

lemma ring_disjoint:
  assumes "r < c" "w < c" "ring_count c r w + n < c" "k < ring_count c r w" "j < n"
  shows "(w + j) mod c \<noteq> (r + k) mod c"
proof -
  have "k \<le> c" "j \<le> c" using assms by simp_all
  with assms show ?thesis
    by (simp add: add_mod_alt ring_count_alt split: if_splits) linarith+
qed

lemma push_bulk_refused:
  assumes inv: "shmring_inv s" and "0 < count"
    and full: "unat (capacity s) - 1 < length (shmring_contents s) + unat (bulk_count count (capacity s))"
    and n: "0 < bulk_count count (capacity s)"
  shows "shmring_push_bulk s es lens count = Ret (FAILED, s)"
proof -
  have c: "0 < capacity s" "capacity s \<noteq> 0" using inv by (auto simp: shmring_inv_def)
  note fits = push_bulk_fits [OF inv n bulk_count_le [OF c(1)]]
  show ?thesis using fits full assms(2) c
    by (auto simp: shmring_push_bulk_def Let_def next_index_bulk_eq)
qed

lemma push_bulk_accepted:
  assumes inv: "shmring_inv s" and "0 < count"
    and n: "n = unat (bulk_count count (capacity s))" "0 < n"
    and room: "length (shmring_contents s) + n \<le> unat (capacity s) - 1"
    and b: "batch (ele_size s) es lens n"
  shows "\<exists>s'. shmring_push_bulk s es lens count = Ret (SUCCESS, s') \<and> shmring_inv s'
           \<and> shmring_contents s' = shmring_contents s @ take n es
           \<and> capacity s' = capacity s \<and> ele_size s' = ele_size s"
proof -
  let ?c = "unat (capacity s)" and ?r = "unat (read_idx (queue s))" and ?w = "unat (write_idx (queue s))"
  let ?n = "bulk_count count (capacity s)" and ?d = "data_area (queue s)"
  let ?wn = "(write_idx (queue s) + ?n) mod capacity s"
  have i: "?w < ?c" "?r < ?c" "?c < 2 ^ 31" "length ?d = ?c" "0 < capacity s" "capacity s \<noteq> 0"
    and sl: "\<forall>slot \<in> set ?d. length slot = unat (ele_size s)"
    using inv by (auto simp: shmring_inv_def)
  have nc: "n \<le> ?c" using bulk_count_le [OF i(5)] n by simp
  have n0: "0 < ?n" using n by (simp add: word_less_nat_alt)
  have wn: "unat ?wn = (?w + n) mod ?c" unfolding n(1) using i nc n by (intro unat_add_mod) simp_all
  have cond: "write_idx (queue s) < ?wn \<or> ?wn = 0 \<longleftrightarrow> ?w + n \<le> ?c"
    unfolding word_less_nat_alt unat_eq_0 [symmetric] wn
    using i nc n(2) by (auto simp: add_mod_alt)
  have head: "unat (capacity s - write_idx (queue s)) = ?c - ?w"
    using i by (simp add: unat_sub word_le_nat_alt)
  have wrap: "\<not> ?w + n \<le> ?c \<Longrightarrow> unat ?wn = ?w + n - ?c" unfolding wn using i nc by (simp add: add_mod_alt)
  obtain area' where a0:
    "(if ?w + n \<le> ?c then bulk_in ?d ?w es lens 0 n
      else bind_out (bulk_in ?d ?w es lens 0 (?c - ?w)) (\<lambda>a. bulk_in a 0 es lens (?c - ?w) (?w + n - ?c)))
     = Ret area'"
    and a': "length area' = ?c" "\<forall>k < n. area' ! ((?w + k) mod ?c) = es ! k"
    "\<forall>j < ?c. (\<forall>k < n. (?w + k) mod ?c \<noteq> j) \<longrightarrow> area' ! j = ?d ! j"
    "\<forall>slot \<in> set area'. length slot = unat (ele_size s)"
    by (rule bulk_in_ring [OF b sl i(4) i(1) nc refl]) (rule that)
  have a: "(if write_idx (queue s) < ?wn \<or> ?wn = 0 then bulk_in ?d ?w es lens 0 (unat ?n)
      else bind_out (bulk_in ?d ?w es lens 0 (?c - ?w)) (\<lambda>a. bulk_in a 0 es lens (?c - ?w) (unat ?wn)))
     = Ret area'"
    unfolding cond using a0 wrap by (cases "?w + n \<le> ?c") (simp_all add: n(1) [symmetric])
  define s' where "s' = set_write_idx (set_data_area s area') ?wn"
  have fits: "?wn \<noteq> read_idx (queue s)"
    "\<not> (if read_idx (queue s) \<le> write_idx (queue s)
        then capacity s - 1 - write_idx (queue s) + read_idx (queue s)
        else read_idx (queue s) - write_idx (queue s)) < ?n"
    using push_bulk_fits [OF inv n0 bulk_count_le [OF i(5)]] room unfolding n(1) [symmetric] by auto
  have "shmring_push_bulk s es lens count =
      bind_out (if write_idx (queue s) < ?wn \<or> ?wn = 0 then bulk_in ?d ?w es lens 0 (unat ?n)
        else bind_out (bulk_in ?d ?w es lens 0 (?c - ?w)) (\<lambda>a. bulk_in a 0 es lens (?c - ?w) (unat ?wn)))
      (\<lambda>area'. Ret (SUCCESS, set_write_idx (set_data_area s area') ?wn))"
    unfolding shmring_push_bulk_def Let_def next_index_bulk_eq [OF i(6)] bind_out.simps
    using assms(2) fits head by (simp only: c_assert_simps bind_out.simps if_False simp_thms)
  then have "shmring_push_bulk s es lens count = Ret (SUCCESS, s')"
    unfolding a by (simp add: s'_def)
  moreover have "shmring_inv s'"
    using inv a' i wn by (auto simp: shmring_inv_def s'_def)
  moreover have "shmring_contents s' = shmring_contents s @ take n es"
  proof -
    have len: "length (take n es) = n" using b by (simp add: batch_def)
    have "ring_count ?c ?r ?w + n < ?c" using room i by (simp add: shmring_contents_def)
    note dis = ring_disjoint [OF i(2) i(1) this]
    have "ring_list ?c ?r ((?w + length (take n es)) mod ?c) ((!) area')
        = ring_list ?c ?r ?w ((!) ?d) @ take n es"
      using i \<open>ring_count ?c ?r ?w + n < ?c\<close> dis a'(2,3) unfolding len
      by (intro ring_list_append [where xs = "take n es", unfolded len]) auto
    then show ?thesis by (simp add: shmring_contents_def s'_def wn len del: length_take)
  qed
  ultimately show ?thesis by (auto simp: s'_def)
qed

lemma take_ring_list:
  "n \<le> ring_count c r w \<Longrightarrow> take n (ring_list c r w f) = map (\<lambda>k. f ((r + k) mod c)) [0..<n]"
  by (simp add: ring_list_def take_map)

lemma bulk_out_ring:
  assumes b: "batch esz es lens n" and sl: "\<forall>slot \<in> set area. length slot = unat esz"
    and c: "length area = c" "r < c" and n: "n \<le> ring_count c r w" "n \<le> c"
  shows "(if r + n \<le> c then bulk_out es lens 0 area r n
          else bind_out (bulk_out es lens 0 area r (c - r)) (\<lambda>es'. bulk_out es' lens (c - r) area 0 (r + n - c)))
         = Ret (take n (ring_list c r w ((!) area)) @ drop n es)"
proof (cases "r + n \<le> c")
  case True
  have "take n (drop r area) = take n (ring_list c r w ((!) area))"
    unfolding take_ring_list [OF n(1)] using True c by (intro nth_equalityI) auto
  then show ?thesis using True c bulk_out_ok [OF b, of 0 n r area] sl by simp
next
  case False
  define es1 where "es1 = drop r area @ drop (c - r) es"
  have b1: "batch esz es1 lens n"
    using b sl c False unfolding batch_def es1_def by (auto simp: nth_append)
  have le: "n \<le> length es" using b by (simp add: batch_def)
  have "bulk_out es lens 0 area r (c - r) = Ret es1"
    using bulk_out_ok [OF b, of 0 "c - r" r area] sl c False by (simp add: es1_def)
  moreover have "bulk_out es1 lens (c - r) area 0 (r + n - c)
      = Ret (drop r area @ take (r + n - c) area @ drop n es)"
    using bulk_out_ok [OF b1, of "c - r" "r + n - c" 0 area] sl c n(2) False le by (simp add: es1_def)
  moreover have "drop r area @ take (r + n - c) area = take n (ring_list c r w ((!) area))"
    unfolding take_ring_list [OF n(1)]
    by (rule nth_equalityI) (use False c n(2) in \<open>auto simp: nth_append add_mod_alt add.commute\<close>)
  ultimately show ?thesis using False by simp
qed

text \<open>
  How many elements a bulk pop takes. When the occupied part wraps around and does not exceed the
  request, the code leaves one element behind.
\<close>

definition pop_bulk_count :: "shmring \<Rightarrow> u64 \<Rightarrow> nat" where
  "pop_bulk_count s count =
     (let n = unat (bulk_count count (capacity s)); avail = length (shmring_contents s) in
      if read_idx (queue s) < write_idx (queue s) then min n avail
      else if n < avail then n else avail - 1)"

lemma pop_bulk_ok:
  assumes inv: "shmring_inv s" and "0 < count" and ne: "shmring_contents s \<noteq> []"
    and n: "n = pop_bulk_count s count" "0 < n" and b: "batch (ele_size s) es lens n"
  shows "\<exists>s'. shmring_pop_bulk s es lens count =
             Ret (word_of_nat n, take n (shmring_contents s) @ drop n es, s')
           \<and> shmring_inv s' \<and> shmring_contents s' = drop n (shmring_contents s)
           \<and> capacity s' = capacity s \<and> ele_size s' = ele_size s"
proof -
  let ?c = "unat (capacity s)" and ?r = "unat (read_idx (queue s))" and ?w = "unat (write_idx (queue s))"
  let ?k = "bulk_count count (capacity s)" and ?d = "data_area (queue s)"
  let ?R = "read_idx (queue s)" and ?W = "write_idx (queue s)"
  define N where "N = (word_of_nat n :: u64)"
  let ?rn = "(?R + N) mod capacity s"
  have i: "?w < ?c" "?r < ?c" "?c < 2 ^ 31" "length ?d = ?c" "0 < capacity s" "capacity s \<noteq> 0"
    and sl: "\<forall>slot \<in> set ?d. length slot = unat (ele_size s)"
    using inv by (auto simp: shmring_inv_def)
  have neq: "?W \<noteq> ?R" using ne shmring_contents_empty [OF inv] by simp
  have av: "length (shmring_contents s) = ring_count ?c ?r ?w" by (simp add: shmring_contents_def)
  have nle: "n \<le> ring_count ?c ?r ?w" "n < ?c"
    using n ring_count_less [OF i(2) i(1)] av by (auto simp: pop_bulk_count_def Let_def split: if_splits)
  have N: "unat N = n" using nle i by (simp add: N_def unat_of_nat)
  have rn: "unat ?rn = (?r + n) mod ?c" unfolding N [symmetric] using i nle N by (intro unat_add_mod) simp_all
  have cond: "?R < ?rn \<or> ?rn = 0 \<longleftrightarrow> ?r + n \<le> ?c"
    unfolding word_less_nat_alt unat_eq_0 [symmetric] rn using i nle n(2) by (auto simp: add_mod_alt)
  have head: "unat (capacity s - ?R) = ?c - ?r" using i by (simp add: unat_sub word_le_nat_alt)
  have wrap: "\<not> ?r + n \<le> ?c \<Longrightarrow> unat ?rn = ?r + n - ?c" unfolding rn using i nle by (simp add: add_mod_alt)
  let ?es = "take n (shmring_contents s) @ drop n es"
  have "(if ?r + n \<le> ?c then bulk_out es lens 0 ?d ?r n
         else bind_out (bulk_out es lens 0 ?d ?r (?c - ?r)) (\<lambda>es'. bulk_out es' lens (?c - ?r) ?d 0 (?r + n - ?c)))
        = Ret ?es"
    unfolding shmring_contents_def by (rule bulk_out_ring [OF b sl i(4) i(2) nle(1)]) (use nle in simp)
  then have out: "(if ?R < ?rn \<or> ?rn = 0 then bulk_out es lens 0 ?d ?r (unat N)
         else bind_out (bulk_out es lens 0 ?d ?r (?c - ?r)) (\<lambda>es'. bulk_out es' lens (?c - ?r) ?d 0 (unat ?rn)))
        = Ret ?es"
    unfolding cond N using wrap by (cases "?r + n \<le> ?c") simp_all
  have "shmring_pop_bulk s es lens count = Ret (N, ?es, set_read_idx s ?rn)"
  proof (cases "?R < ?W")
    case True
    then have "?r < ?w" by (simp add: word_less_nat_alt)
    then have sub: "?r + n \<le> ?c" using nle i by (simp add: ring_count_alt)
    have "unat (?W - ?R) = ?w - ?r" using True by (simp add: unat_sub word_less_nat_alt word_le_nat_alt)
    then have "(if ?k \<le> ?W - ?R then ?k else ?W - ?R) = N"
      unfolding word_eq_iff_unat N n(1) pop_bulk_count_def Let_def av
      using True i \<open>?r < ?w\<close> by (simp add: word_le_nat_alt ring_count_alt)
    then show ?thesis using out sub assms(2) neq True i
      by (simp add: shmring_pop_bulk_def Let_def ring_empty_def next_index_bulk_eq cond)
  next
    case False
    with neq have lt: "?w < ?r" by (simp add: word_less_nat_alt word_eq_iff_unat)
    have h: "unat (capacity s - 1 - ?R) = ?c - 1 - ?r" using i(2) by unat_arith
    have u: "unat (capacity s - ?R + ?W) = ?c - ?r + ?w" "unat (capacity s - 1 - ?R + ?W) = ?c - 1 - ?r + ?w"
      using i h head by (simp_all add: unat_word_ariths(1))
    have "(if ?k < capacity s - ?R + ?W then ?k else capacity s - 1 - ?R + ?W) = N"
      unfolding word_eq_iff_unat N n(1) pop_bulk_count_def Let_def av
      using False i lt u by (simp add: word_less_nat_alt ring_count_alt)
    then have "shmring_pop_bulk s es lens count =
      bind_out (if ?R < ?rn \<or> ?rn = 0 then bulk_out es lens 0 ?d ?r (unat N)
         else bind_out (bulk_out es lens 0 ?d ?r (?c - ?r)) (\<lambda>es'. bulk_out es' lens (?c - ?r) ?d 0 (unat ?rn)))
       (\<lambda>es'. Ret (N, es', set_read_idx s ?rn))"
      using assms(2) neq False i head
      by (simp only: shmring_pop_bulk_def Let_def ring_empty_def next_index_bulk_eq c_assert_simps
          bind_out.simps if_False simp_thms not_False_eq_True)
    then show ?thesis unfolding out by simp
  qed
  moreover have "shmring_inv (set_read_idx s ?rn)" using inv rn i by (simp add: shmring_inv_def)
  moreover have "shmring_contents (set_read_idx s ?rn) = drop n (shmring_contents s)"
    unfolding shmring_contents_def using ring_list_drop [OF i(2) i(1) nle(1)] rn by simp
  ultimately show ?thesis by (auto simp: N_def)
qed

lemma batch_sets:
  "batch esz es lens n \<longleftrightarrow> n \<le> length es \<and> n \<le> length lens \<and>
     (\<forall>e \<in> set (take n es). length e = unat esz) \<and> (\<forall>l \<in> set (take n lens). l = esz)"
  by (auto simp: batch_def all_set_conv_all_nth)

section \<open>Properties\<close>

text \<open>A small ring for the witnesses: four slots of two bytes, empty, with the indices at \<open>i\<close>.\<close>

definition demo_ring :: "u64 \<Rightarrow> shmring" where
  "demo_ring i = \<lparr>shm_fd = - 1, addrlen = 2, ele_size = 2, capacity = 4, queue_size = 26,
     peer_read_idx = 0, shm_addr = ''r'',
     queue = \<lparr>write_idx = i, read_idx = i, data_area = [[0, 0], [0, 0], [0, 0], [0, 0]]\<rparr>\<rparr>"

text \<open>
  C13: for every ring that satisfies the invariant and every sequence of push and pop attempts, the
  calls stay within defined behaviour, the invariant holds at the end, and the elements delivered
  followed by those still in the ring are the elements there at first followed by those a push
  accepted, in order: nothing is lost, duplicated or reordered.
\<close>

theorem shmring_fifo:
  assumes "shmring_inv s" and "\<forall>e \<in> set (pushes ops). length e = unat (ele_size s)"
  shows "\<exists>acc out s'. fifo_run ring_put ring_take s ops = Ret (acc, out, s') \<and> shmring_inv s'
           \<and> shmring_contents s @ acc = out @ shmring_contents s'
           \<and> unat (capacity s') - 1 = unat (capacity s) - 1"
  using assms by (rule sr.fifo_order)

theorem shmring_fifo_witness:
  "\<exists>acc out s'. fifo_run ring_put ring_take (demo_ring 3) [Push [1, 2], Push [3, 4], Pop, Pop, Pop]
       = Ret (acc, out, s') \<and> shmring_inv s'
     \<and> shmring_contents (demo_ring 3) @ acc = out @ shmring_contents s'
     \<and> unat (capacity s') - 1 = unat (capacity (demo_ring 3)) - 1"
  by (rule shmring_fifo) (simp_all add: shmring_inv_def demo_ring_def)

text \<open>
  A bulk push is all or nothing. If the batch (cut to the ring's size) fits into the free slots
  it is appended whole and in order, otherwise the call fails and changes nothing.
\<close>

theorem shmring_push_bulk_all_or_nothing:
  assumes "shmring_inv s" "1 < unat (capacity s)" "0 < count"
    and "n = unat (bulk_count count (capacity s))" "batch (ele_size s) es lens n"
  shows "if length (shmring_contents s) + n \<le> unat (capacity s) - 1
         then \<exists>s'. shmring_push_bulk s es lens count = Ret (SUCCESS, s') \<and> shmring_inv s'
                \<and> shmring_contents s' = shmring_contents s @ take n es
         else shmring_push_bulk s es lens count = Ret (FAILED, s)"
proof -
  have "0 < n" using assms(2,3,4)
    by (auto simp: bulk_count_def word_less_nat_alt word_le_nat_alt unat_sub)
  moreover from this have "0 < bulk_count count (capacity s)"
    using assms(4) by (simp add: word_less_nat_alt)
  ultimately show ?thesis
    using push_bulk_accepted [OF assms(1,3,4) _ _ assms(5)] push_bulk_refused [OF assms(1,3)] assms(4)
    by auto
qed

theorem shmring_push_bulk_witness:
  "if length (shmring_contents (demo_ring 3)) + 2 \<le> unat (capacity (demo_ring 3)) - 1
   then \<exists>s'. shmring_push_bulk (demo_ring 3) [[1, 2], [3, 4]] [2, 2] 2 = Ret (SUCCESS, s') \<and> shmring_inv s'
          \<and> shmring_contents s' = shmring_contents (demo_ring 3) @ take 2 [[1, 2], [3, 4]]
   else shmring_push_bulk (demo_ring 3) [[1, 2], [3, 4]] [2, 2] 2 = Ret (FAILED, demo_ring 3)"
  by (rule shmring_push_bulk_all_or_nothing)
     (simp_all add: shmring_inv_def demo_ring_def bulk_count_def batch_sets)

text \<open>
  A bulk pop that takes at least one element delivers the oldest elements in order into the front
  of the caller's arrays, leaves the rest of the arrays alone, and removes exactly what it delivered.
\<close>

theorem shmring_pop_bulk_prefix:
  assumes "shmring_inv s" "0 < count" "shmring_contents s \<noteq> []"
    and "n = pop_bulk_count s count" "0 < n" "batch (ele_size s) es lens n"
  shows "\<exists>s'. shmring_pop_bulk s es lens count =
             Ret (word_of_nat n, take n (shmring_contents s) @ drop n es, s')
           \<and> shmring_inv s' \<and> shmring_contents s' = drop n (shmring_contents s)"
  using pop_bulk_ok [OF assms] by blast

definition demo_full :: shmring where
  "demo_full = set_write_idx (set_data_area (demo_ring 2) [[5, 6], [0, 0], [1, 2], [3, 4]]) 1"

theorem shmring_pop_bulk_witness:
  "\<exists>s'. shmring_pop_bulk demo_full [[9, 9], [9, 9], [9, 9]] [2, 2, 2] 2 =
             Ret (word_of_nat 2, take 2 (shmring_contents demo_full) @ drop 2 [[9, 9], [9, 9], [9, 9]], s')
           \<and> shmring_inv s' \<and> shmring_contents s' = drop 2 (shmring_contents demo_full)"
  by (rule shmring_pop_bulk_prefix)
     (simp_all add: shmring_inv_def demo_full_def demo_ring_def bulk_count_def batch_sets
       pop_bulk_count_def shmring_contents_def ring_count_def flip: length_0_conv)

lemma bulk_out_overrun:
  assumes "batch esz es lens (length es)" "length es < i + n" "i \<le> length es" "pos + n \<le> length area"
    and "\<forall>slot \<in> set area. length slot = unat esz"
  shows "bulk_out es lens i area pos n = Undef"
  using assms
proof (induction n arbitrary: es pos i)
  case (Suc n)
  show ?case
  proof (cases "i < length es")
    case True
    then have e: "length (es ! i) = unat esz" "lens ! i = esz" "i < length lens"
      using Suc.prems batchD [OF Suc.prems(1), of i] by (auto simp: batch_def)
    have "batch esz (es[i := area ! pos]) lens (length (es[i := area ! pos]))"
      using Suc.prems True by (auto simp: batch_def nth_list_update)
    then have "bulk_out (es[i := area ! pos]) lens (Suc i) area (Suc pos) n = Undef"
      using Suc.prems True by (intro Suc.IH) auto
    then show ?thesis using Suc.prems e True by simp
  next
    case False
    then show ?thesis by (simp add: array_get_def)
  qed
qed simp

text \<open>
  C31: the bulk pop of a ring whose only element sits in the last slot while the write index is back
  at zero. The code computes that there is nothing to take, then copies the whole ring into the
  caller's arrays: unless these hold a full ring, the copy runs past their end.
\<close>

theorem shmring_pop_bulk_overrun:
  assumes inv: "shmring_inv s" and c: "1 < unat (capacity s)" and "0 < count"
    and r: "read_idx (queue s) = capacity s - 1" "write_idx (queue s) = 0"
    and es: "0 < length es" "length es < unat (capacity s)" "batch (ele_size s) es lens (length es)"
  shows "length (shmring_contents s) = 1 \<and> shmring_pop_bulk s es lens count = Undef"
proof -
  let ?c = "unat (capacity s)" and ?d = "data_area (queue s)"
  have ur: "unat (capacity s - 1) = ?c - 1" using c by unat_arith
  have i: "length ?d = ?c" "\<forall>slot \<in> set ?d. length slot = unat (ele_size s)" "capacity s \<noteq> 0"
    using inv by (auto simp: shmring_inv_def)
  have neq: "capacity s - 1 \<noteq> 0" using ur c by (metis unat_0 zero_less_diff less_numeral_extra(3))
  have k: "\<not> bulk_count count (capacity s) < 1"
    using assms(3) c by (auto simp: bulk_count_def word_less_nat_alt word_le_nat_alt ur)
  have m: "(capacity s - 1) mod capacity s = capacity s - 1"
    unfolding word_eq_iff_unat unat_mod ur using c by simp
  let ?e = "es[0 := ?d ! (?c - 1)]"
  have e0: "length (es ! 0) = unat (ele_size s)" "lens ! 0 = ele_size s" "0 < length lens"
    using es batchD [OF es(3), of 0] by (auto simp: batch_def)
  have "bulk_out ?e lens 1 ?d 0 (?c - 1) = Undef"
    using es i c by (intro bulk_out_overrun [where esz = "ele_size s"])
      (auto simp: batch_def nth_list_update Suc_le_eq)
  then have "shmring_pop_bulk s es lens count = Undef"
    using assms(3) i neq k m r e0 es(1) c
    by (simp add: shmring_pop_bulk_def Let_def ring_empty_def next_index_bulk_eq ur)
  moreover have "length (shmring_contents s) = 1"
    using c r ur by (simp add: shmring_contents_def ring_count_alt)
  ultimately show ?thesis by simp
qed

definition demo_last :: shmring where
  "demo_last = set_write_idx (set_data_area (demo_ring 3) [[0, 0], [0, 0], [0, 0], [3, 4]]) 0"

theorem shmring_pop_bulk_overrun_witness:
  "length (shmring_contents demo_last) = 1 \<and>
   shmring_pop_bulk demo_last [[9, 9], [9, 9]] [2, 2] 2 = Undef"
  by (rule shmring_pop_bulk_overrun)
     (simp_all add: shmring_inv_def demo_last_def demo_ring_def batch_sets)

text \<open>
  Construction and destruction balance. Whatever the system calls answer, as long as no
  descriptor is 0, a call of the constructor that returns NULL leaves nothing allocated, open, mapped
  or named behind, and a handle it returns is released completely by \<^verbatim>\<open>shmring_free\<close>, unlinking
  included for the owner.
\<close>

theorem shmring_lifecycle:
  assumes "0 < len" "unat len \<le> 64" "unat len \<le> length addr" "0 < esz"
    and "os_shm_open os \<noteq> 0" "os_shm_open os \<ge> - 1" "os_shm_reopen os \<noteq> 0" "os_shm_reopen os \<ge> - 1"
  shows "\<exists>h cs. shmring_init0 os addr len esz num is_owner = Ret (h, cs) \<and>
           (case h of None \<Rightarrow> held [] cs = []
            | Some s \<Rightarrow> held [] (cs @ shmring_free s is_owner) = [])"
  using assms
  by (auto simp: shmring_init0_def shmring_setup_def shmring_open_def shmring_fail_def shmring_free_def
      Let_def word_less_nat_alt split: option.splits)

theorem shmring_lifecycle_witness:
  "\<exists>h cs. shmring_init0 \<lparr>os_calloc_handle = True, os_calloc_data = True, os_shm_open = - 1, os_errno_retry = True,
        os_shm_reopen = 5, os_ftruncate = True, os_mmap = None\<rparr> ''/ntp-1'' 6 16 1024 True = Ret (h, cs) \<and>
           (case h of None \<Rightarrow> held [] cs = []
            | Some s \<Rightarrow> held [] (cs @ shmring_free s True) = [])"
  by (rule shmring_lifecycle) simp_all

text \<open>
  The creator of a ring gets an empty ring that satisfies the invariant, of the requested
  number of slots or the default one, whatever the mapped memory held before.
\<close>

theorem shmring_create_empty:
  assumes "shmring_create os addr len esz num = Ret (Some s, cs)"
    and "os_mmap os = Some m" "cap = (if 0 < num then num else DEFAULT_MAX_BUFS)" "unat cap < 2 ^ 31"
    and "length (data_area m) = unat cap" "\<forall>slot \<in> set (data_area m). length slot = unat esz"
  shows "shmring_inv s \<and> shmring_contents s = [] \<and> capacity s = cap \<and> ele_size s = esz \<and> shm_fd s = - 1"
proof -
  have "0 < cap" "cap \<noteq> 0" using assms(3) by (auto simp: word_neq_0_conv)
  then show ?thesis using assms
    by (auto simp: shmring_create_def shmring_init0_def shmring_setup_def Let_def shmring_inv_def
      shmring_contents_def word_less_nat_alt split: if_splits)
qed

definition demo_os :: shm_os where
  "demo_os = \<lparr>os_calloc_handle = True, os_calloc_data = True, os_shm_open = 4, os_errno_retry = False,
     os_shm_reopen = - 1, os_ftruncate = True,
     os_mmap = Some \<lparr>write_idx = 1, read_idx = 1, data_area = [[0, 0], [7, 7]]\<rparr>\<rparr>"

theorem shmring_create_empty_witness:
  "\<exists>s cs. shmring_create demo_os ''/ring'' 5 2 2 = Ret (Some s, cs) \<and>
     (shmring_inv s \<and> shmring_contents s = [] \<and> capacity s = 2 \<and> ele_size s = 2 \<and> shm_fd s = - 1)"
proof -
  obtain s cs where *: "shmring_create demo_os ''/ring'' 5 2 2 = Ret (Some s, cs)"
    by (simp add: shmring_create_def shmring_init0_def shmring_setup_def shmring_open_def demo_os_def Let_def)
  with shmring_create_empty [OF *, of "\<lparr>write_idx = 1, read_idx = 1, data_area = [[0, 0], [7, 7]]\<rparr>" 2]
  show ?thesis by (auto simp: demo_os_def)
qed

end
