(* ===== verification/Shmring_Conc.thy ===== *)
theory Shmring_Conc
  imports Shmring
begin

text \<open>
  The two ends of a \<^verbatim>\<open>shmring\<close> live in different processes. Here \<^verbatim>\<open>shmring_push\<close> and
  \<^verbatim>\<open>shmring_pop\<close> are cut at their shared accesses (the two index loads, the copy of the slot and the
  store of the index, in program order) and the accesses of one producer and one consumer are interleaved
  arbitrarily. The acquire and release orders of the code are what entitles the model to
  one global order of these accesses.
\<close>

text \<open>Where each side is inside its call, with the local variables it holds there.\<close>

datatype prod_pc =
    P_idle
  | P_loaded "byte list" u64 u64
  | P_copy "byte list" u64 u64
  | P_store "byte list" u64 u64

datatype cons_pc =
    C_idle
  | C_loaded u64
  | C_copy u64
  | C_store u64 "byte list"

record spsc =
  ring :: shmring
  pside :: prod_pc
  cside :: cons_pc
  accepted :: "byte list list"
  delivered :: "byte list list"

inductive push_step :: "spsc \<Rightarrow> spsc \<Rightarrow> bool" where
  load_w: "pside st = P_idle \<Longrightarrow> length e = unat (ele_size (ring st)) \<Longrightarrow>
     w = write_idx (queue (ring st)) \<Longrightarrow> increment w (capacity (ring st)) = Ret wn \<Longrightarrow>
     push_step st (st\<lparr>pside := P_loaded e w wn\<rparr>)"
| full: "pside st = P_loaded e w wn \<Longrightarrow> wn = read_idx (queue (ring st)) \<Longrightarrow>
     push_step st (st\<lparr>pside := P_idle\<rparr>)"
| room: "pside st = P_loaded e w wn \<Longrightarrow> wn \<noteq> read_idx (queue (ring st)) \<Longrightarrow>
     push_step st (st\<lparr>pside := P_copy e w wn\<rparr>)"
| copy_in: "pside st = P_copy e w wn \<Longrightarrow>
     array_get (data_area (queue (ring st))) (unat w) = Ret slot \<Longrightarrow>
     memcpy slot e (clamp_len (ele_size (ring st)) (ele_size (ring st))) = Ret slot' \<Longrightarrow>
     array_set (data_area (queue (ring st))) (unat w) slot' = Ret area \<Longrightarrow>
     push_step st (st\<lparr>ring := set_data_area (ring st) area, pside := P_store e w wn\<rparr>)"
| store_w: "pside st = P_store e w wn \<Longrightarrow>
     push_step st (st\<lparr>ring := set_write_idx (ring st) wn, pside := P_idle, accepted := accepted st @ [e]\<rparr>)"

inductive pop_step :: "spsc \<Rightarrow> spsc \<Rightarrow> bool" where
  load_w: "cside st = C_idle \<Longrightarrow> pop_step st (st\<lparr>cside := C_loaded (write_idx (queue (ring st)))\<rparr>)"
| empty: "cside st = C_loaded w \<Longrightarrow> ring_empty w (read_idx (queue (ring st))) \<Longrightarrow>
     pop_step st (st\<lparr>cside := C_idle\<rparr>)"
| some: "cside st = C_loaded w \<Longrightarrow> \<not> ring_empty w (read_idx (queue (ring st))) \<Longrightarrow>
     pop_step st (st\<lparr>cside := C_copy (read_idx (queue (ring st)))\<rparr>)"
| copy_out: "cside st = C_copy r \<Longrightarrow>
     array_get (data_area (queue (ring st))) (unat r) = Ret slot \<Longrightarrow>
     memcpy (replicate (unat (ele_size (ring st))) 0) slot
       (clamp_len (ele_size (ring st)) (ele_size (ring st))) = Ret e \<Longrightarrow>
     pop_step st (st\<lparr>cside := C_store r e\<rparr>)"
| store_r: "cside st = C_store r e \<Longrightarrow> increment r (capacity (ring st)) = Ret rn \<Longrightarrow>
     pop_step st (st\<lparr>ring := set_read_idx (ring st) rn, cside := C_idle, delivered := delivered st @ [e]\<rparr>)"

definition spsc_step :: "spsc \<Rightarrow> spsc \<Rightarrow> bool" where
  "spsc_step st st' \<longleftrightarrow> push_step st st' \<or> pop_step st st'"

definition spsc_start :: "shmring \<Rightarrow> spsc" where
  "spsc_start s = \<lparr>ring = s, pside = P_idle, cside = C_idle, accepted = [], delivered = []\<rparr>"

section \<open>Invariant\<close>

fun prod_inv :: "shmring \<Rightarrow> prod_pc \<Rightarrow> bool" where
  "prod_inv s P_idle \<longleftrightarrow> True"
| "prod_inv s (P_loaded e w wn) \<longleftrightarrow> length e = unat (ele_size s) \<and> w = write_idx (queue s) \<and>
     wn = (w + 1) mod capacity s"
| "prod_inv s (P_copy e w wn) \<longleftrightarrow> length e = unat (ele_size s) \<and> w = write_idx (queue s) \<and>
     wn = (w + 1) mod capacity s \<and> wn \<noteq> read_idx (queue s)"
| "prod_inv s (P_store e w wn) \<longleftrightarrow> length e = unat (ele_size s) \<and> w = write_idx (queue s) \<and>
     wn = (w + 1) mod capacity s \<and> wn \<noteq> read_idx (queue s) \<and> data_area (queue s) ! unat w = e"

text \<open>
  The write index the consumer holds may be stale, but the ring only fills up while it holds it.
\<close>

fun cons_inv :: "shmring \<Rightarrow> cons_pc \<Rightarrow> bool" where
  "cons_inv s C_idle \<longleftrightarrow> True"
| "cons_inv s (C_loaded w) \<longleftrightarrow> (w \<noteq> read_idx (queue s) \<longrightarrow> shmring_contents s \<noteq> [])"
| "cons_inv s (C_copy r) \<longleftrightarrow> r = read_idx (queue s) \<and> shmring_contents s \<noteq> []"
| "cons_inv s (C_store r e) \<longleftrightarrow> r = read_idx (queue s) \<and> shmring_contents s \<noteq> [] \<and> e = hd (shmring_contents s)"

definition spsc_inv :: "byte list list \<Rightarrow> spsc \<Rightarrow> bool" where
  "spsc_inv xs st \<longleftrightarrow> shmring_inv (ring st) \<and> prod_inv (ring st) (pside st) \<and> cons_inv (ring st) (cside st) \<and>
     xs @ accepted st = delivered st @ shmring_contents (ring st)"

lemma spsc_inv_start: "shmring_inv s \<Longrightarrow> spsc_inv (shmring_contents s) (spsc_start s)"
  by (simp add: spsc_inv_def spsc_start_def)

text \<open>Writing the free slot behind the last element changes nothing the consumer can see.\<close>

lemma contents_write_free:
  assumes "shmring_inv s" "area = (data_area (queue s))[unat (write_idx (queue s)) := e]"
    and "length e = unat (ele_size s)"
  shows "shmring_inv (set_data_area s area)" "shmring_contents (set_data_area s area) = shmring_contents s"
proof -
  let ?c = "unat (capacity s)" and ?r = "unat (read_idx (queue s))" and ?w = "unat (write_idx (queue s))"
  have i: "?w < ?c" "?r < ?c" "length (data_area (queue s)) = ?c" using assms(1) by (auto simp: shmring_inv_def)
  show "shmring_inv (set_data_area s area)" using assms
    by (auto simp: shmring_inv_def dest!: subsetD [OF set_update_subset_insert])
  have "shmring_contents (set_data_area s area) = ring_list ?c ?r ?w (((!) (data_area (queue s)))(?w := e))"
    unfolding shmring_contents_def using i assms(2)
    by (simp, intro ring_list_cong) (auto simp: nth_list_update)
  then show "shmring_contents (set_data_area s area) = shmring_contents s"
    using i by (simp add: ring_list_upd_w shmring_contents_def)
qed

text \<open>Publishing a written slot appends it.\<close>

lemma contents_publish:
  assumes "shmring_inv s" "(write_idx (queue s) + 1) mod capacity s \<noteq> read_idx (queue s)"
    and "data_area (queue s) ! unat (write_idx (queue s)) = e"
  defines "s' \<equiv> set_write_idx s ((write_idx (queue s) + 1) mod capacity s)"
  shows "shmring_inv s'" "shmring_contents s' = shmring_contents s @ [e]"
proof -
  let ?c = "unat (capacity s)" and ?r = "unat (read_idx (queue s))" and ?w = "unat (write_idx (queue s))"
  have i: "?w < ?c" "?r < ?c" using assms(1) by (auto simp: shmring_inv_def)
  have wn: "unat ((write_idx (queue s) + 1) mod capacity s) = Suc ?w mod ?c"
    using shmring_inv_step(3) [OF assms(1)] by simp
  show "shmring_inv s'" using assms(1) wn by (simp add: shmring_inv_def s'_def)
  have "Suc ?w mod ?c \<noteq> ?r" using assms(2) wn by (simp add: word_eq_iff_unat)
  moreover have "(!) (data_area (queue s)) = ((!) (data_area (queue s)))(?w := e)"
    using assms(3) by auto
  ultimately have "ring_list ?c ?r (Suc ?w mod ?c) ((!) (data_area (queue s)))
      = ring_list ?c ?r ?w ((!) (data_area (queue s))) @ [e]"
    using ring_list_push [OF i(2) i(1), of "(!) (data_area (queue s))" e] by simp
  then show "shmring_contents s' = shmring_contents s @ [e]"
    by (simp add: shmring_contents_def s'_def wn)
qed

text \<open>The consumer freeing a slot cannot make the ring full.\<close>

lemma pop_keeps_room:
  assumes "shmring_inv s" "shmring_contents s \<noteq> []"
    and "(write_idx (queue s) + 1) mod capacity s \<noteq> read_idx (queue s)"
  defines "s' \<equiv> set_read_idx s ((read_idx (queue s) + 1) mod capacity s)"
  shows "(write_idx (queue s') + 1) mod capacity s' \<noteq> read_idx (queue s')"
proof -
  obtain x xs where xs: "shmring_contents s = x # xs" using assms(2) by (cases "shmring_contents s") auto
  note s' = shmring_nonempty(3,4) [OF assms(1) xs, folded s'_def]
  have "length (shmring_contents s') < unat (capacity s') - 1"
    using shmring_contents_length [OF assms(1)] xs s'(2) by (simp add: s'_def)
  then show ?thesis using shmring_full_iff [OF s'(1)] by simp
qed

lemma push_step_inv:
  assumes "push_step st st'" "spsc_inv xs st"
  shows "spsc_inv xs st'"
  using assms
proof (cases rule: push_step.cases)
  case (load_w e w wn)
  with assms(2) shmring_inv_step(1) [of "ring st" w] show ?thesis by (auto simp: spsc_inv_def)
next
  case (copy_in e w wn slot slot' area)
  with assms(2) have s: "shmring_inv (ring st)" "w = write_idx (queue (ring st))"
    "length e = unat (ele_size (ring st))" "cons_inv (ring st) (cside st)" by (auto simp: spsc_inv_def)
  have sl: "length (data_area (queue (ring st)) ! unat w) = unat (ele_size (ring st))"
    "unat w < length (data_area (queue (ring st)))"
    using s(1,2) by (auto simp: shmring_inv_def)
  have "area = (data_area (queue (ring st)))[unat (write_idx (queue (ring st))) := e]"
    using copy_in s sl by (auto simp: array_get_Ret array_set_Ret memcpy_Ret)
  note w = contents_write_free [OF s(1) this s(3)]
  have "cons_inv (set_data_area (ring st) area) (cside st)"
    using s(4) w(2) by (cases "cside st") auto
  moreover have "data_area (queue (set_data_area (ring st) area)) ! unat w = e"
    using copy_in s sl by (auto simp: array_get_Ret array_set_Ret memcpy_Ret)
  ultimately show ?thesis using copy_in assms(2) w by (auto simp: spsc_inv_def)
next
  case (store_w e w wn)
  with assms(2) have s: "shmring_inv (ring st)" "wn = (write_idx (queue (ring st)) + 1) mod capacity (ring st)"
    "(write_idx (queue (ring st)) + 1) mod capacity (ring st) \<noteq> read_idx (queue (ring st))"
    "data_area (queue (ring st)) ! unat (write_idx (queue (ring st))) = e"
    and c: "cons_inv (ring st) (cside st)" by (auto simp: spsc_inv_def)
  note p = contents_publish [OF s(1) s(3) s(4), folded s(2)]
  have "cons_inv (set_write_idx (ring st) wn) (cside st)"
    using c p(2) by (cases "cside st") auto
  then show ?thesis using store_w assms(2) p by (auto simp: spsc_inv_def)
qed (use assms(2) in \<open>auto simp: spsc_inv_def\<close>)

lemma pop_step_inv:
  assumes "pop_step st st'" "spsc_inv xs st"
  shows "spsc_inv xs st'"
  using assms
proof (cases rule: pop_step.cases)
  case load_w
  with assms(2) show ?thesis by (auto simp: spsc_inv_def shmring_contents_empty)
next
  case (copy_out r slot e)
  with assms(2) have s: "shmring_inv (ring st)" "r = read_idx (queue (ring st))"
    "shmring_contents (ring st) \<noteq> []" by (auto simp: spsc_inv_def)
  then obtain y ys where ys: "shmring_contents (ring st) = y # ys" by (cases "shmring_contents (ring st)") auto
  have "slot = y" using copy_out s shmring_nonempty(2) [OF s(1) ys] by (auto simp: array_get_Ret)
  moreover have "length slot = unat (ele_size (ring st))"
    using copy_out s by (auto simp: array_get_Ret shmring_inv_def)
  ultimately have "e = hd (shmring_contents (ring st))"
    using copy_out ys by (auto simp: memcpy_Ret)
  then show ?thesis using copy_out assms(2) s by (auto simp: spsc_inv_def)
next
  case (store_r r e rn)
  with assms(2) have s: "shmring_inv (ring st)" "r = read_idx (queue (ring st))"
    "shmring_contents (ring st) \<noteq> []" "e = hd (shmring_contents (ring st))"
    and p: "prod_inv (ring st) (pside st)" by (auto simp: spsc_inv_def)
  then obtain ys where ys: "shmring_contents (ring st) = e # ys" by (cases "shmring_contents (ring st)") auto
  have rn: "rn = (read_idx (queue (ring st)) + 1) mod capacity (ring st)"
    using store_r s shmring_inv_step(1) [OF s(1), of r] by simp
  note q = shmring_nonempty(3,4) [OF s(1) ys, folded rn]
  have "prod_inv (set_read_idx (ring st) rn) (pside st)"
    using p pop_keeps_room [OF s(1,3), folded rn] by (cases "pside st") auto
  then show ?thesis using store_r assms(2) q ys by (auto simp: spsc_inv_def)
qed (use assms(2) in \<open>auto simp: spsc_inv_def ring_empty_def\<close>)

lemma spsc_reachable_inv:
  assumes "spsc_step\<^sup>*\<^sup>* st st'" "spsc_inv xs st"
  shows "spsc_inv xs st'"
  using assms by (induction rule: rtranclp_induct) (auto simp: spsc_step_def intro: push_step_inv pop_step_inv)

text \<open>Neither side can get stuck: its next access is always defined.\<close>

lemma push_progress:
  assumes "spsc_inv xs st"
  shows "\<exists>st'. push_step st st'"
proof (cases "pside st")
  case P_idle
  have "increment (write_idx (queue (ring st))) (capacity (ring st))
      = Ret ((write_idx (queue (ring st)) + 1) mod capacity (ring st))"
    using assms by (intro shmring_inv_step(1)) (auto simp: spsc_inv_def)
  from push_step.load_w [OF P_idle length_replicate refl this] show ?thesis by blast
next
  case (P_loaded e w wn)
  then show ?thesis
    by (cases "wn = read_idx (queue (ring st))") (blast intro: push_step.intros)+
next
  case (P_copy e w wn)
  with assms have "shmring_inv (ring st)" "w = write_idx (queue (ring st))"
    "length e = unat (ele_size (ring st))" by (auto simp: spsc_inv_def)
  then have "unat w < length (data_area (queue (ring st)))"
    "length (data_area (queue (ring st)) ! unat w) = unat (ele_size (ring st))"
    by (auto simp: shmring_inv_def)
  then show ?thesis using push_step.copy_in [OF P_copy] \<open>length e = _\<close> by fastforce
qed (auto intro: push_step.intros)

lemma pop_progress:
  assumes "spsc_inv xs st"
  shows "\<exists>st'. pop_step st st'"
proof (cases "cside st")
  case (C_loaded w)
  then show ?thesis
    by (cases "ring_empty w (read_idx (queue (ring st)))") (blast intro: pop_step.intros)+
next
  case (C_copy r)
  with assms have "shmring_inv (ring st)" "r = read_idx (queue (ring st))" by (auto simp: spsc_inv_def)
  then have "unat r < length (data_area (queue (ring st)))"
    "length (data_area (queue (ring st)) ! unat r) = unat (ele_size (ring st))"
    by (auto simp: shmring_inv_def)
  then show ?thesis using pop_step.copy_out [OF C_copy] by fastforce
next
  case (C_store r e)
  with assms shmring_inv_step(1) [of "ring st" r] show ?thesis
    using pop_step.store_r [OF C_store] by (auto simp: spsc_inv_def)
qed (auto intro: pop_step.intros)

text \<open>While the producer copies into a slot the consumer never copies from the same one.\<close>

lemma slots_differ:
  assumes "spsc_inv xs st" "pside st = P_copy e w wn" "cside st = C_copy r"
  shows "w \<noteq> r"
  using assms shmring_contents_empty [of "ring st"] by (auto simp: spsc_inv_def)

text \<open>Cut and uncut calls agree: undisturbed, the steps of a push do what \<^verbatim>\<open>shmring_push\<close> does.\<close>

lemma push_steps_sequential:
  assumes "shmring_push (ring st) e (ele_size (ring st)) = Ret (SUCCESS, s')" "pside st = P_idle"
    and "length e = unat (ele_size (ring st))"
  shows "push_step\<^sup>*\<^sup>* st (st\<lparr>ring := s', pside := P_idle, accepted := accepted st @ [e]\<rparr>)"
proof -
  let ?w = "write_idx (queue (ring st))"
  from assms(1) obtain wn slot slot' area where *: "increment ?w (capacity (ring st)) = Ret wn"
      "wn \<noteq> read_idx (queue (ring st))" "array_get (data_area (queue (ring st))) (unat ?w) = Ret slot"
      "memcpy slot e (clamp_len (ele_size (ring st)) (ele_size (ring st))) = Ret slot'"
      "array_set (data_area (queue (ring st))) (unat ?w) slot' = Ret area"
      "s' = set_write_idx (set_data_area (ring st) area) wn"
    by (auto simp: shmring_push_def Let_def split: if_splits)
  define s1 where "s1 = st\<lparr>pside := P_loaded e ?w wn\<rparr>"
  define s2 where "s2 = st\<lparr>pside := P_copy e ?w wn\<rparr>"
  define s3 where "s3 = st\<lparr>ring := set_data_area (ring st) area, pside := P_store e ?w wn\<rparr>"
  have "push_step st s1" unfolding s1_def using assms(2,3) * by (intro push_step.load_w) auto
  moreover have "push_step s1 s2"
    using push_step.room [of s1 e ?w wn] * by (simp add: s1_def s2_def)
  moreover have "push_step s2 s3"
    using push_step.copy_in [of s2 e ?w wn slot slot' area] * by (simp add: s2_def s3_def)
  moreover have "push_step s3 (st\<lparr>ring := s', pside := P_idle, accepted := accepted st @ [e]\<rparr>)"
    using push_step.store_w [of s3 e ?w wn] * assms(2) by (simp add: s3_def)
  ultimately show ?thesis by (meson converse_rtranclp_into_rtranclp rtranclp.rtrancl_refl)
qed

section \<open>Properties\<close>

text \<open>
  C8: for every interleaving of the shared accesses of one producer and one consumer, from a ring
  that satisfies the invariant: the invariant is kept, the elements delivered followed by those in the
  ring are the initial ones followed by the accepted ones in order, neither side is ever
  blocked or led to an undefined access, and the two never copy to and from the same slot.
\<close>

theorem spsc_safe:
  assumes "shmring_inv s" "spsc_step\<^sup>*\<^sup>* (spsc_start s) st"
  shows "shmring_inv (ring st) \<and>
     shmring_contents s @ accepted st = delivered st @ shmring_contents (ring st) \<and>
     (\<exists>st'. push_step st st') \<and> (\<exists>st'. pop_step st st') \<and>
     (\<forall>e w wn r. \<not> (pside st = P_copy e w wn \<and> cside st = C_copy r \<and> w = r))"
proof -
  have "spsc_inv (shmring_contents s) st"
    using assms by (blast intro: spsc_reachable_inv spsc_inv_start)
  then show ?thesis
    using push_progress pop_progress slots_differ unfolding spsc_inv_def by blast
qed

theorem spsc_safe_witness:
  "\<exists>st. pside st = P_idle \<and> accepted st = [[1, 2]] \<and>
     spsc_step\<^sup>*\<^sup>* (spsc_start (demo_ring 3)) st \<and> shmring_inv (ring st) \<and>
     shmring_contents (demo_ring 3) @ accepted st = delivered st @ shmring_contents (ring st) \<and>
     (\<exists>st'. push_step st st') \<and> (\<exists>st'. pop_step st st') \<and>
     (\<forall>e w wn r. \<not> (pside st = P_copy e w wn \<and> cside st = C_copy r \<and> w = r))"
proof -
  obtain s' where s': "shmring_push (demo_ring 3) [1, 2] 2 = Ret (SUCCESS, s')"
    by (simp add: shmring_push_def demo_ring_def increment_def clamp_len_def Let_def)
  let ?st = "spsc_start (demo_ring 3)\<lparr>ring := s', accepted := [[1, 2]]\<rparr>"
  have "push_step\<^sup>*\<^sup>* (spsc_start (demo_ring 3)) ?st"
    using push_steps_sequential [of "spsc_start (demo_ring 3)" "[1, 2]" s'] s'
    by (simp add: spsc_start_def demo_ring_def)
  then have "spsc_step\<^sup>*\<^sup>* (spsc_start (demo_ring 3)) ?st"
    by (rule rtranclp_mono [THEN predicate2D, rotated]) (auto simp: spsc_step_def)
  moreover from spsc_safe [OF _ this] have "shmring_inv (ring ?st)" "\<exists>st'. push_step ?st st'" "\<exists>st'. pop_step ?st st'"
    "shmring_contents (demo_ring 3) @ accepted ?st = delivered ?st @ shmring_contents (ring ?st)"
    by (auto simp: shmring_inv_def demo_ring_def)
  ultimately show ?thesis by (intro exI [of _ ?st]) (simp add: spsc_start_def)
qed

end
