(* ===== verification/Msg_Ring.thy ===== *)
theory Msg_Ring
  imports Fifo Ring_Index Os_Resource
begin

unbundle bit_operations_syntax

text \<open>
  The rings for control messages: \<^verbatim>\<open>ntm_ntp_shmring.c\<close> and \<^verbatim>\<open>ntp_ntm_shmring.c\<close> between the monitor and the
  proxy and \<^verbatim>\<open>nts_shmring.c\<close> between the monitor and an application, with the contexts of
  \<^verbatim>\<open>ntm_ntp_shm.c\<close> and its siblings. The files have one text; they differ in the message
  type and in the function that copies a message, which are the parameters here.
\<close>

section \<open>Data\<close>

record 'm msg_buf =
  mb_buf :: "'m list"
  mb_write :: u64
  mb_read :: u64

record 'm msg_ring =
  mr_fd :: int
  mr_MASK :: u64
  mr_addrlen :: u64
  mr_addr :: string
  mr_shm :: "'m msg_buf"
  mr_max :: u64

datatype mr_res = M_handle | M_fd int | M_map | M_name string | M_addr | M_ctx

text \<open>The answers of the system, as for \<^verbatim>\<open>shmring.c\<close>.\<close>

record 'm mr_os =
  mo_malloc :: bool
  mo_shm_open :: int
  mo_errno_retry :: bool
  mo_shm_reopen :: int
  mo_ftruncate :: bool
  mo_mmap :: "'m msg_buf option"

section \<open>Construction and destruction\<close>

text \<open>\<^verbatim>\<open>shm_open\<close> reads its name up to the terminator.\<close>

definition c_name :: "string \<Rightarrow> string outcome" where
  "c_name a = (if CHR 0x00 \<in> set a then Ret (takeWhile (\<lambda>c. c \<noteq> CHR 0x00) a) else Undef)"

definition msg_ring_open :: "'m mr_os \<Rightarrow> int" where
  "msg_ring_open os =
     (if mo_shm_open os = - 1 then (if mo_errno_retry os then mo_shm_reopen os else - 1) else mo_shm_open os)"

definition msg_ring_fail :: "bool \<Rightarrow> int \<Rightarrow> string \<Rightarrow> mr_res os_call list" where
  "msg_ring_fail owner fd name =
     (if fd \<noteq> - 1 then Release (M_fd fd) # (if owner then [Release (M_name name)] else []) else []) @
     [Release M_handle]"

text \<open>
  \<^verbatim>\<open>ntm_ntp_shmring_init\<close>: the result of \<^verbatim>\<open>malloc\<close> is used without a test.
\<close>

definition msg_ring_init ::
  "u64 \<Rightarrow> 'm mr_os \<Rightarrow> string \<Rightarrow> u64 \<Rightarrow> ('m msg_ring option \<times> mr_res os_call list) outcome"
where
  "msg_ring_init max_bufs os addr len =
     bind_out (c_assert (0 < len)) (\<lambda>_.
     if \<not> mo_malloc os then Undef
     else
       bind_out (c_name addr) (\<lambda>name.
       let fd = msg_ring_open os; opened = [Acquire M_handle, Acquire (M_fd fd), Acquire (M_name name)] in
       if fd = - 1 then Ret (None, Acquire M_handle # msg_ring_fail True fd name)
       else if \<not> mo_ftruncate os then Ret (None, opened @ msg_ring_fail True fd name)
       else case mo_mmap os of
         None \<Rightarrow> Ret (None, opened @ msg_ring_fail True fd name)
       | Some m \<Rightarrow>
           Ret (Some \<lparr>mr_fd = - 1, mr_MASK = max_bufs - 1, mr_addrlen = len, mr_addr = addr,
                      mr_shm = m\<lparr>mb_read := 0, mb_write := 0\<rparr>, mr_max = max_bufs\<rparr>,
                opened @ [Acquire M_map, Release (M_fd fd)])))"

definition msg_ring_get ::
  "u64 \<Rightarrow> 'm mr_os \<Rightarrow> string \<Rightarrow> u64 \<Rightarrow> ('m msg_ring option \<times> mr_res os_call list) outcome"
where
  "msg_ring_get max_bufs os addr len =
     bind_out (c_assert (0 < len)) (\<lambda>_.
     if \<not> mo_malloc os then Undef
     else
       bind_out (c_name addr) (\<lambda>name.
       let fd = mo_shm_open os; opened = [Acquire M_handle, Acquire (M_fd fd)] in
       if fd = - 1 then Ret (None, Acquire M_handle # msg_ring_fail False fd name)
       else case mo_mmap os of
         None \<Rightarrow> Ret (None, opened @ msg_ring_fail False fd name)
       | Some m \<Rightarrow>
           Ret (Some \<lparr>mr_fd = - 1, mr_MASK = max_bufs - 1, mr_addrlen = len, mr_addr = addr,
                      mr_shm = m, mr_max = max_bufs\<rparr>,
                opened @ [Acquire M_map, Release (M_fd fd)])))"

definition msg_ring_free :: "'m msg_ring \<Rightarrow> bool \<Rightarrow> mr_res os_call list outcome" where
  "msg_ring_free self unlink =
     bind_out (if unlink then bind_out (c_name (mr_addr self)) (\<lambda>name. Ret [Release (M_name name)]) else Ret [])
       (\<lambda>cs. Ret ([Release M_map] @ cs @ [Release M_handle]))"

section \<open>Push and pop\<close>

definition msg_ring_push ::
  "('m \<Rightarrow> 'm \<Rightarrow> 'm outcome) \<Rightarrow> 'm msg_ring \<Rightarrow> 'm \<Rightarrow> (bool \<times> 'm msg_ring) outcome"
where
  "msg_ring_push copy self element =
     (let b = mr_shm self; w_idx = mb_write b; w_next_idx = mask_increment w_idx (mr_MASK self) in
      if w_next_idx = mb_read b then Ret (False, self)
      else
        bind_out (array_get (mb_buf b) (unat w_idx)) (\<lambda>cell.
        bind_out (copy element cell) (\<lambda>m.
          Ret (True, self\<lparr>mr_shm := b\<lparr>mb_buf := (mb_buf b)[unat w_idx := m], mb_write := w_next_idx\<rparr>\<rparr>))))"

definition msg_ring_pop ::
  "('m \<Rightarrow> 'm \<Rightarrow> 'm outcome) \<Rightarrow> 'm msg_ring \<Rightarrow> 'm \<Rightarrow> (bool \<times> 'm \<times> 'm msg_ring) outcome"
where
  "msg_ring_pop copy self element =
     (let b = mr_shm self in
      if ring_empty (mb_write b) (mb_read b) then Ret (False, element, self)
      else
        bind_out (array_get (mb_buf b) (unat (mb_read b))) (\<lambda>cell.
        bind_out (copy cell element) (\<lambda>m.
          Ret (True, m, self\<lparr>mr_shm := b\<lparr>mb_read := mask_increment (mb_read b) (mr_MASK self)\<rparr>\<rparr>))))"

section \<open>Contexts\<close>

datatype shm_stat4 = SHM_UNREADY | SHM_READY | SHM_CLOSE | SHM_UNLINK

record 'm shm_ctx4 =
  sc_stat :: shm_stat4
  sc_handle :: "'m msg_ring cptr"
  sc_addr :: "string cptr"
  sc_addrlen :: u64

text \<open>\<^verbatim>\<open>ntm_ntp_shm\<close> writes to the context before it tests the pointer.\<close>

definition shm_ctx4_new :: "bool \<Rightarrow> 'm shm_ctx4 outcome" where
  "shm_ctx4_new malloc_ok =
     (if malloc_ok then Ret \<lparr>sc_stat = SHM_UNREADY, sc_handle = Wild, sc_addr = Wild, sc_addrlen = 0\<rparr> else Undef)"

text \<open>
  \<^verbatim>\<open>accept\<close> and \<^verbatim>\<open>connect\<close>: \<open>n\<close> bytes are allocated for the name, \<open>len\<close> bytes are copied, and \<open>open_ring\<close>
  is called; a ring that could not be opened is stored as a null pointer and the call succeeds.
\<close>

definition shm_ctx4_attach ::
  "(string \<Rightarrow> u64 \<Rightarrow> ('m msg_ring option \<times> mr_res os_call list) outcome) \<Rightarrow> bool \<Rightarrow> u64 \<Rightarrow> 'm shm_ctx4
     \<Rightarrow> string \<Rightarrow> u64 \<Rightarrow> (int \<times> 'm shm_ctx4 \<times> mr_res os_call list) outcome"
where
  "shm_ctx4_attach open_ring malloc_ok n ctx addr len =
     bind_out (c_assert (0 < len)) (\<lambda>_.
     if \<not> malloc_ok then Undef
     else
       bind_out (memcpy (replicate (unat n) (CHR 0x00)) (addr @ [CHR 0x00]) (unat len)) (\<lambda>a.
       bind_out (open_ring a n) (\<lambda>(ring, cs).
         Ret (0, ctx\<lparr>sc_addr := Live a, sc_addrlen := n, sc_stat := SHM_READY,
                      sc_handle := (case ring of None \<Rightarrow> Null | Some r \<Rightarrow> Live r)\<rparr>,
              Acquire M_addr # cs))))"

text \<open>\<^verbatim>\<open>assert(self)\<close> in front of the ring operations.\<close>

definition live_ring :: "'m msg_ring cptr \<Rightarrow> 'm msg_ring outcome" where
  "live_ring p = (case p of Live r \<Rightarrow> Ret r | Null \<Rightarrow> Abort | _ \<Rightarrow> Undef)"

text \<open>\<^verbatim>\<open>close\<close> and \<^verbatim>\<open>ntm_close\<close> of the channel between monitor and proxy leave the freed handle behind.\<close>

definition shm_ctx4_close :: "bool \<Rightarrow> 'm shm_ctx4 \<Rightarrow> (int \<times> 'm shm_ctx4 \<times> mr_res os_call list) outcome" where
  "shm_ctx4_close unlink ctx =
     bind_out (live_ring (sc_handle ctx)) (\<lambda>r.
     bind_out (msg_ring_free r unlink) (\<lambda>cs.
       Ret (0, ctx\<lparr>sc_handle := Dangling, sc_stat := (if unlink then SHM_UNLINK else SHM_CLOSE)\<rparr>, cs)))"

definition shm_ctx4_destroy :: "'m shm_ctx4 \<Rightarrow> mr_res os_call list outcome" where
  "shm_ctx4_destroy ctx =
     (case sc_addr ctx of
        Live a \<Rightarrow> Ret [Release M_addr, Release M_ctx] | Null \<Rightarrow> Ret [Release M_ctx] | _ \<Rightarrow> Undef)"

section \<open>The rings are queues\<close>

definition msg_ring_inv :: "('m \<Rightarrow> bool) \<Rightarrow> 'm msg_ring \<Rightarrow> bool" where
  "msg_ring_inv shape s \<longleftrightarrow>
     (\<exists>k < 64. mr_max s = 2 ^ k \<and> mr_MASK s = mask k \<and> 2 ^ k \<le> length (mb_buf (mr_shm s)) \<and>
        unat (mb_write (mr_shm s)) < 2 ^ k \<and> unat (mb_read (mr_shm s)) < 2 ^ k) \<and>
     (\<forall>m \<in> set (mb_buf (mr_shm s)). shape m)"

definition msg_ring_contents :: "('m \<Rightarrow> 'v) \<Rightarrow> 'm msg_ring \<Rightarrow> 'v list" where
  "msg_ring_contents view s =
     ring_list (unat (mr_max s)) (unat (mb_read (mr_shm s))) (unat (mb_write (mr_shm s)))
       (\<lambda>i. view (mb_buf (mr_shm s) ! i))"

text \<open>Every cell that is occupied holds a message that can be copied out.\<close>

definition msg_ring_good :: "('m \<Rightarrow> bool) \<Rightarrow> 'm msg_ring \<Rightarrow> bool" where
  "msg_ring_good good s \<longleftrightarrow>
     (\<forall>b \<in> set (ring_list (unat (mr_max s)) (unat (mb_read (mr_shm s))) (unat (mb_write (mr_shm s)))
        (\<lambda>i. good (mb_buf (mr_shm s) ! i))). b)"

definition msg_ring_ok :: "('m \<Rightarrow> bool) \<Rightarrow> ('m \<Rightarrow> bool) \<Rightarrow> 'm msg_ring \<Rightarrow> bool" where
  "msg_ring_ok good shape s \<longleftrightarrow> msg_ring_inv shape s \<and> msg_ring_good good s"

definition msg_put :: "('m \<Rightarrow> 'm \<Rightarrow> 'm outcome) \<Rightarrow> 'm msg_ring \<Rightarrow> 'm \<Rightarrow> (bool \<times> 'm msg_ring) outcome" where
  "msg_put copy s m = msg_ring_push copy s m"

text \<open>A pop into a buffer of the caller.\<close>

definition msg_take ::
  "('m \<Rightarrow> 'm \<Rightarrow> 'm outcome) \<Rightarrow> ('m \<Rightarrow> 'v) \<Rightarrow> 'm \<Rightarrow> 'm msg_ring \<Rightarrow> ('v option \<times> 'm msg_ring) outcome"
where
  "msg_take copy view buf s =
     bind_out (msg_ring_pop copy s buf) (\<lambda>(ok, m, s'). Ret (if ok then Some (view m) else None, s'))"

lemma unat_pow2: "k < 64 \<Longrightarrow> unat (2 ^ k :: u64) = 2 ^ k"
proof -
  assume k: "k < 64"
  then have "(2 :: nat) ^ k < 2 ^ 64" by (rule power_strict_increasing) simp
  with k have "unat (of_nat (2 ^ k) :: u64) = 2 ^ k" by (simp add: unsigned_of_nat take_bit_nat_eq_self del: of_nat_power)
  then show ?thesis by simp
qed

text \<open>The indices as natural numbers.\<close>

lemma msg_ring_indices:
  assumes "msg_ring_inv shape s"
  shows "unat (mb_write (mr_shm s)) < unat (mr_max s)" "unat (mb_read (mr_shm s)) < unat (mr_max s)"
    "unat (mr_max s) \<le> length (mb_buf (mr_shm s))"
    "unat (mask_increment (mb_write (mr_shm s)) (mr_MASK s)) = Suc (unat (mb_write (mr_shm s))) mod unat (mr_max s)"
    "unat (mask_increment (mb_read (mr_shm s)) (mr_MASK s)) = Suc (unat (mb_read (mr_shm s))) mod unat (mr_max s)"
  using assms by (auto simp: msg_ring_inv_def unat_pow2 unat_mask_increment)

lemma msg_ring_inv_update:
  assumes "msg_ring_inv shape s" "\<forall>m \<in> set buf. shape m" "length buf = length (mb_buf (mr_shm s))"
    "unat w < unat (mr_max s)" "unat r < unat (mr_max s)"
  shows "msg_ring_inv shape (s\<lparr>mr_shm := \<lparr>mb_buf = buf, mb_write = w, mb_read = r\<rparr>\<rparr>)"
  using assms by (auto simp: msg_ring_inv_def unat_pow2)

locale msg_copy =
  fixes copy :: "'m \<Rightarrow> 'm \<Rightarrow> 'm outcome"
    and good :: "'m \<Rightarrow> bool"
    and shape :: "'m \<Rightarrow> bool"
    and view :: "'m \<Rightarrow> 'v"
    and target :: 'm
  assumes copy_ok: "good m \<Longrightarrow> shape cell \<Longrightarrow>
      \<exists>m'. copy m cell = Ret m' \<and> view m' = view m \<and> good m' \<and> shape m'"
    and target_shape: "shape target"
begin

lemma put_room:
  assumes inv: "msg_ring_ok good shape s" and m: "good m" and room: "length (msg_ring_contents view s) < unat (mr_max s) - 1"
  shows "\<exists>s'. msg_put copy s m = Ret (True, s') \<and> msg_ring_ok good shape s' \<and>
     msg_ring_contents view s' = msg_ring_contents view s @ [view m] \<and> mr_max s' = mr_max s"
proof -
  let ?b = "mr_shm s" and ?c = "unat (mr_max s)"
  let ?w = "unat (mb_write ?b)" and ?r = "unat (mb_read ?b)" and ?wn = "mask_increment (mb_write (mr_shm s)) (mr_MASK s)"
  have i: "msg_ring_inv shape s" "msg_ring_good good s" using inv by (auto simp: msg_ring_ok_def)
  note ix = msg_ring_indices [OF i(1)]
  from ix(1,3) have len: "?w < length (mb_buf ?b)" by linarith
  then have "shape (mb_buf ?b ! ?w)" using i(1) by (auto simp: msg_ring_inv_def)
  from copy_ok [OF m this] obtain m' where m': "copy m (mb_buf ?b ! ?w) = Ret m'" "view m' = view m" "good m'" "shape m'"
    by blast
  have nf: "Suc ?w mod ?c \<noteq> ?r"
    using room ring_count_full [OF ix(2,1)] by (auto simp: msg_ring_contents_def)
  then have "?wn \<noteq> mb_read ?b" using ix(4) by (metis)
  then have psh: "msg_put copy s m = Ret (True, s\<lparr>mr_shm := ?b\<lparr>mb_buf := (mb_buf ?b)[?w := m'], mb_write := ?wn\<rparr>\<rparr>)"
    using m'(1) len by (simp add: msg_put_def msg_ring_push_def Let_def)
  let ?s = "s\<lparr>mr_shm := ?b\<lparr>mb_buf := (mb_buf ?b)[?w := m'], mb_write := ?wn\<rparr>\<rparr>"
  have upd: "ring_list ?c ?r (Suc ?w mod ?c) (\<lambda>j. g ((mb_buf ?b)[?w := m'] ! j)) =
      ring_list ?c ?r ?w (\<lambda>j. g (mb_buf ?b ! j)) @ [g m']" for g :: "'m \<Rightarrow> 'x"
  proof -
    have "ring_list ?c ?r (Suc ?w mod ?c) (\<lambda>j. g ((mb_buf ?b)[?w := m'] ! j)) =
        ring_list ?c ?r (Suc ?w mod ?c) ((\<lambda>j. g (mb_buf ?b ! j))(?w := g m'))"
      using ix len by (intro ring_list_cong) auto
    then show ?thesis by (simp only: ring_list_push [OF ix(2,1) nf])
  qed
  have "msg_ring_inv shape (s\<lparr>mr_shm := \<lparr>mb_buf = (mb_buf ?b)[?w := m'], mb_write = ?wn, mb_read = mb_read ?b\<rparr>\<rparr>)"
    by (rule msg_ring_inv_update [OF i(1)])
      (use ix i(1) m' in \<open>auto simp: msg_ring_inv_def dest!: set_update_subset_insert [THEN subsetD]\<close>)
  then have "msg_ring_inv shape ?s" by (cases ?b) simp
  moreover have "msg_ring_good good ?s"
    using i(2) m'(3) by (simp add: msg_ring_good_def ix(4) upd)
  moreover have "msg_ring_contents view ?s = msg_ring_contents view s @ [view m]"
    by (simp add: msg_ring_contents_def ix(4) upd m'(2))
  ultimately show ?thesis using psh by (auto simp: msg_ring_ok_def)
qed

lemma put_full:
  assumes "msg_ring_ok good shape s" "length (msg_ring_contents view s) = unat (mr_max s) - 1"
  shows "msg_put copy s m = Ret (False, s)"
proof -
  have i: "msg_ring_inv shape s" using assms by (simp add: msg_ring_ok_def)
  note ix = msg_ring_indices [OF i]
  from assms(2) have "Suc (unat (mb_write (mr_shm s))) mod unat (mr_max s) = unat (mb_read (mr_shm s))"
    using ring_count_full [OF ix(2,1)] by (simp add: msg_ring_contents_def)
  then have "mask_increment (mb_write (mr_shm s)) (mr_MASK s) = mb_read (mr_shm s)"
    using ix(4) by (simp add: word_eq_iff_unat)
  then show ?thesis by (simp add: msg_put_def msg_ring_push_def Let_def)
qed

lemma take_some:
  assumes inv: "msg_ring_ok good shape s" and c: "msg_ring_contents view s = v # vs"
  shows "\<exists>s'. msg_take copy view target s = Ret (Some v, s') \<and> msg_ring_ok good shape s' \<and> msg_ring_contents view s' = vs \<and>
     mr_max s' = mr_max s"
proof -
  let ?b = "mr_shm s" and ?c = "unat (mr_max s)"
  let ?w = "unat (mb_write ?b)" and ?r = "unat (mb_read ?b)" and ?rn = "mask_increment (mb_read (mr_shm s)) (mr_MASK s)"
  have i: "msg_ring_inv shape s" "msg_ring_good good s" using inv by (auto simp: msg_ring_ok_def)
  note ix = msg_ring_indices [OF i(1)]
  have ne: "?w \<noteq> ?r" using c ix(2) by (auto simp: msg_ring_contents_def)
  have split: "ring_list ?c ?r ?w (\<lambda>j. g (mb_buf ?b ! j)) =
      g (mb_buf ?b ! ?r) # ring_list ?c (Suc ?r mod ?c) ?w (\<lambda>j. g (mb_buf ?b ! j))" for g :: "'m \<Rightarrow> 'x"
    by (simp only: ring_list_pop [OF ix(2,1) ne])
  have "good (mb_buf ?b ! ?r)" using i(2) split [of good] by (simp add: msg_ring_good_def)
  from copy_ok [OF this target_shape] obtain m' where m': "copy (mb_buf ?b ! ?r) target = Ret m'"
    "view m' = view (mb_buf ?b ! ?r)" by blast
  let ?s = "s\<lparr>mr_shm := ?b\<lparr>mb_read := ?rn\<rparr>\<rparr>"
  from ix(2,3) have len: "?r < length (mb_buf ?b)" by linarith
  have v: "v = view (mb_buf ?b ! ?r)" "vs = ring_list ?c (Suc ?r mod ?c) ?w (\<lambda>j. view (mb_buf ?b ! j))"
    using c split [of view] by (simp_all add: msg_ring_contents_def)
  have "mb_write ?b \<noteq> mb_read ?b" using ne by auto
  then have "msg_take copy view target s = Ret (Some v, ?s)"
    using m' len v(1) by (simp add: msg_take_def msg_ring_pop_def ring_empty_def Let_def)
  moreover have "msg_ring_inv shape (s\<lparr>mr_shm := \<lparr>mb_buf = mb_buf ?b, mb_write = mb_write ?b, mb_read = ?rn\<rparr>\<rparr>)"
    by (rule msg_ring_inv_update [OF i(1)]) (use ix i(1) in \<open>auto simp: msg_ring_inv_def\<close>)
  then have "msg_ring_inv shape ?s" by (cases ?b) simp
  moreover have "msg_ring_good good ?s"
    using i(2) split [of good] by (auto simp: msg_ring_good_def ix(5))
  moreover have "msg_ring_contents view ?s = vs" by (simp add: msg_ring_contents_def ix(5) v(2))
  ultimately show ?thesis by (auto simp: msg_ring_ok_def)
qed

lemma take_empty:
  assumes "msg_ring_ok good shape s" "msg_ring_contents view s = []"
  shows "msg_take copy view target s = Ret (None, s)"
proof -
  have i: "msg_ring_inv shape s" using assms by (simp add: msg_ring_ok_def)
  note ix = msg_ring_indices [OF i]
  have "unat (mb_write (mr_shm s)) = unat (mb_read (mr_shm s))"
    using assms(2) by (simp add: msg_ring_contents_def ring_list_empty [OF ix(2,1)])
  then show ?thesis by (simp add: msg_take_def msg_ring_pop_def ring_empty_def word_eq_iff_unat)
qed

lemma contents_len:
  assumes "msg_ring_ok good shape s"
  shows "length (msg_ring_contents view s) \<le> unat (mr_max s) - 1"
proof -
  have i: "msg_ring_inv shape s" using assms by (simp add: msg_ring_ok_def)
  note ix = msg_ring_indices [OF i]
  show ?thesis using ring_count_less [OF ix(2,1)] by (simp add: msg_ring_contents_def)
qed

sublocale q: viewed_fifo "msg_put copy" "msg_take copy view target" "msg_ring_contents view" "msg_ring_ok good shape"
    "\<lambda>s. unat (mr_max s) - 1" "\<lambda>s. good" view
proof unfold_locales
  fix s m
  assume "msg_ring_ok good shape s" "good m" "length (msg_ring_contents view s) < unat (mr_max s) - 1"
  from put_room [OF this] show "\<exists>s'. msg_put copy s m = Ret (True, s') \<and> msg_ring_ok good shape s' \<and>
      msg_ring_contents view s' = msg_ring_contents view s @ [view m] \<and>
      unat (mr_max s') - 1 = unat (mr_max s) - 1 \<and> good = good" by auto
next
  fix s v vs
  assume "msg_ring_ok good shape s" "msg_ring_contents view s = v # vs"
  from take_some [OF this] show "\<exists>s'. msg_take copy view target s = Ret (Some v, s') \<and> msg_ring_ok good shape s' \<and>
      msg_ring_contents view s' = vs \<and> unat (mr_max s') - 1 = unat (mr_max s) - 1 \<and> good = good" by auto
qed (auto simp: put_full take_empty dest: contents_len)

end

end
