(* ===== verification/Nt_Msg.thy ===== *)
theory Nt_Msg
  imports Msg_Ring
begin

unbundle bit_operations_syntax

text \<open>
  The control messages and the functions that copy them: \<^verbatim>\<open>monitor/src/ntm_msg.c\<close> (\<^verbatim>\<open>ntm_msg\<close> from an application
  to the monitor, \<^verbatim>\<open>nts_msg\<close> back) and \<^verbatim>\<open>ntb-proxy/src/ntm_msg.c\<close> (between monitor and proxy). A copy
  transfers the fields that belong to the type of the message and leaves the others of the
  target as they were. An \<^verbatim>\<open>int\<close> is kept as an integer.
\<close>

section \<open>Between monitor and proxy\<close>

text \<open>\<^verbatim>\<open>ntp_ntm_msg\<close> and \<^verbatim>\<open>ntm_ntp_msg\<close> have the same fields.\<close>

record ntm_ntp_msg =
  cm_src_ip :: u64
  cm_dst_ip :: u64
  cm_src_port :: u64
  cm_dst_port :: u64
  cm_msg_type :: byte
  cm_partition_id :: byte
  cm_msg_len :: u16
  cm_msg :: "byte list"

type_synonym ntp_ntm_msg = ntm_ntp_msg

definition ntm_ntp_msgcopy :: "ntm_ntp_msg \<Rightarrow> ntm_ntp_msg \<Rightarrow> ntm_ntp_msg outcome" where
  "ntm_ntp_msgcopy src target =
     (if 0 < cm_msg_len src
      then bind_out (memcpy (cm_msg target) (cm_msg src) (unat (cm_msg_len src))) (\<lambda>b. Ret (src\<lparr>cm_msg := b\<rparr>))
      else Ret (src\<lparr>cm_msg := cm_msg target\<rparr>))"

definition ntp_ntm_msgcopy :: "ntp_ntm_msg \<Rightarrow> ntp_ntm_msg \<Rightarrow> ntp_ntm_msg outcome" where
  "ntp_ntm_msgcopy src target =
     (if 0 < cm_msg_len src
      then bind_out (memcpy (cm_msg target) (cm_msg src) (unat (cm_msg_len src))) (\<lambda>b. Ret (src\<lparr>cm_msg := b\<rparr>))
      else Ret (src\<lparr>cm_msg := cm_msg target\<rparr>))"

section \<open>From an application to the monitor\<close>

record ntm_msg =
  nm_msg_id :: u64
  nm_msg_type :: u32
  nm_sockid :: int
  nm_howto :: int
  nm_backlog :: int
  nm_req_client_sockaddr :: int
  nm_domain :: int
  nm_sock_type :: int
  nm_io_queue_size :: int
  nm_protocol :: int
  nm_nts_shm_addrlen :: int
  nm_addrlen :: int
  nm_port :: int
  nm_epid :: int
  nm_epoll_op :: int
  nm_events :: u32
  nm_ep_data :: u64
  nm_address :: "byte list"
  nm_nts_shm_name :: "byte list"

abbreviation NTS_EPOLL_CTL_DEL :: int where "NTS_EPOLL_CTL_DEL \<equiv> 2"

text \<open>The types are single bits; these are their positions.\<close>

abbreviation (input) NTM_MSG_INIT :: nat where "NTM_MSG_INIT \<equiv> 0"

abbreviation (input) NTM_MSG_NEW_SOCK :: nat where "NTM_MSG_NEW_SOCK \<equiv> 1"

abbreviation (input) NTM_MSG_BIND :: nat where "NTM_MSG_BIND \<equiv> 2"

abbreviation (input) NTM_MSG_LISTEN :: nat where "NTM_MSG_LISTEN \<equiv> 3"

abbreviation (input) NTM_MSG_ACCEPT :: nat where "NTM_MSG_ACCEPT \<equiv> 4"

abbreviation (input) NTM_MSG_ACCEPT_ACK :: nat where "NTM_MSG_ACCEPT_ACK \<equiv> 5"

abbreviation (input) NTM_MSG_CONNECT :: nat where "NTM_MSG_CONNECT \<equiv> 6"

abbreviation (input) NTM_MSG_CLOSE :: nat where "NTM_MSG_CLOSE \<equiv> 8"

abbreviation (input) NTM_MSG_FIN :: nat where "NTM_MSG_FIN \<equiv> 9"

abbreviation (input) NTM_MSG_SHUTDOWN :: nat where "NTM_MSG_SHUTDOWN \<equiv> 10"

abbreviation (input) NTM_MSG_EPOLL_CREATE :: nat where "NTM_MSG_EPOLL_CREATE \<equiv> 13"

abbreviation (input) NTM_MSG_EPOLL_CTL :: nat where "NTM_MSG_EPOLL_CTL \<equiv> 14"

abbreviation (input) NTM_MSG_EPOLL_CLOSE :: nat where "NTM_MSG_EPOLL_CLOSE \<equiv> 15"

text \<open>The bit of the type on which the chain of tests stops.\<close>

fun first_bit :: "nat list \<Rightarrow> u32 \<Rightarrow> nat option" where
  "first_bit [] t = None"
| "first_bit (i # is) t = (if bit t i then Some i else first_bit is t)"

definition ntm_kind :: "u32 \<Rightarrow> nat option" where
  "ntm_kind = first_bit [NTM_MSG_INIT, NTM_MSG_NEW_SOCK, NTM_MSG_BIND, NTM_MSG_LISTEN, NTM_MSG_ACCEPT,
     NTM_MSG_ACCEPT_ACK, NTM_MSG_CONNECT, NTM_MSG_CLOSE, NTM_MSG_SHUTDOWN, NTM_MSG_FIN, NTM_MSG_EPOLL_CREATE,
     NTM_MSG_EPOLL_CTL, NTM_MSG_EPOLL_CLOSE]"

text \<open>\<^verbatim>\<open>memcpy\<close> with an \<^verbatim>\<open>int\<close> as length: a negative one becomes a huge \<^verbatim>\<open>size_t\<close>.\<close>

definition memcpy_int :: "byte list \<Rightarrow> byte list \<Rightarrow> int \<Rightarrow> byte list outcome" where
  "memcpy_int dst src n = (if n < 0 then Undef else memcpy dst src (nat n))"

definition ntm_msgcopy :: "ntm_msg \<Rightarrow> ntm_msg \<Rightarrow> ntm_msg outcome" where
  "ntm_msgcopy src target =
     (let t1 = target\<lparr>nm_msg_id := nm_msg_id src, nm_msg_type := nm_msg_type src\<rparr>;
          t2 = (if 0 < nm_sockid src then t1\<lparr>nm_sockid := nm_sockid src\<rparr> else t1);
          sock = t2\<lparr>nm_sockid := nm_sockid src\<rparr> in
      case ntm_kind (nm_msg_type src) of
        None \<Rightarrow> Ret t2
      | Some k \<Rightarrow>
          if k = NTM_MSG_NEW_SOCK then
            bind_out (memcpy_int (nm_nts_shm_name t2) (nm_nts_shm_name src) (nm_nts_shm_addrlen src)) (\<lambda>b.
              Ret (t2\<lparr>nm_nts_shm_addrlen := nm_nts_shm_addrlen src, nm_nts_shm_name := b, nm_domain := nm_domain src,
                      nm_protocol := nm_protocol src, nm_sock_type := nm_sock_type src\<rparr>))
          else if k = NTM_MSG_BIND \<or> k = NTM_MSG_CONNECT then
            bind_out (memcpy_int (nm_address t2) (nm_address src) (nm_addrlen src)) (\<lambda>b.
              Ret (sock\<lparr>nm_address := b, nm_addrlen := nm_addrlen src, nm_port := nm_port src\<rparr>))
          else if k = NTM_MSG_LISTEN then Ret (sock\<lparr>nm_backlog := nm_backlog src\<rparr>)
          else if k = NTM_MSG_ACCEPT then Ret (sock\<lparr>nm_req_client_sockaddr := nm_req_client_sockaddr src\<rparr>)
          else if k = NTM_MSG_ACCEPT_ACK then
            bind_out (memcpy_int (nm_nts_shm_name t2) (nm_nts_shm_name src) (nm_nts_shm_addrlen src)) (\<lambda>b.
              Ret (sock\<lparr>nm_nts_shm_addrlen := nm_nts_shm_addrlen src, nm_nts_shm_name := b\<rparr>))
          else if k = NTM_MSG_CLOSE \<or> k = NTM_MSG_FIN then Ret sock
          else if k = NTM_MSG_SHUTDOWN then Ret (sock\<lparr>nm_howto := nm_howto src\<rparr>)
          else if k = NTM_MSG_EPOLL_CREATE then
            bind_out (memcpy_int (nm_nts_shm_name t2) (nm_nts_shm_name src) (nm_nts_shm_addrlen src)) (\<lambda>b.
              Ret (t2\<lparr>nm_nts_shm_addrlen := nm_nts_shm_addrlen src, nm_nts_shm_name := b,
                      nm_sock_type := nm_sock_type src, nm_io_queue_size := nm_io_queue_size src\<rparr>))
          else if k = NTM_MSG_EPOLL_CTL then
            (let e = sock\<lparr>nm_sock_type := nm_sock_type src, nm_epid := nm_epid src, nm_epoll_op := nm_epoll_op src\<rparr> in
             Ret (if nm_epoll_op src \<noteq> NTS_EPOLL_CTL_DEL
                  then e\<lparr>nm_events := nm_events src, nm_ep_data := nm_ep_data src\<rparr> else e))
          else if k = NTM_MSG_EPOLL_CLOSE then Ret (t2\<lparr>nm_epid := nm_epid src, nm_sock_type := nm_sock_type src\<rparr>)
          else Ret t2)"

section \<open>From the monitor to an application\<close>

record nts_msg =
  ns_msg_id :: u64
  ns_msg_type :: u32
  ns_sockid :: int
  ns_retval :: int
  ns_nt_errno :: int
  ns_conn_status :: int
  ns_addrlen :: int
  ns_port :: int
  ns_address :: "byte list"

abbreviation (input) NTS_MSG_INIT :: nat where "NTS_MSG_INIT \<equiv> 0"

abbreviation (input) NTS_MSG_NEW_SOCK :: nat where "NTS_MSG_NEW_SOCK \<equiv> 1"

abbreviation (input) NTS_MSG_BIND :: nat where "NTS_MSG_BIND \<equiv> 2"

abbreviation (input) NTS_MSG_LISTEN :: nat where "NTS_MSG_LISTEN \<equiv> 3"

abbreviation (input) NTS_MSG_ACCEPT :: nat where "NTS_MSG_ACCEPT \<equiv> 4"

abbreviation (input) NTS_MSG_CONNECT :: nat where "NTS_MSG_CONNECT \<equiv> 5"

abbreviation (input) NTS_MSG_DISPATCHED :: nat where "NTS_MSG_DISPATCHED \<equiv> 6"

abbreviation (input) NTS_MSG_ESTABLISH :: nat where "NTS_MSG_ESTABLISH \<equiv> 7"

abbreviation (input) NTS_MSG_CLOSE :: nat where "NTS_MSG_CLOSE \<equiv> 8"

abbreviation (input) NTS_MSG_DISCONNECT :: nat where "NTS_MSG_DISCONNECT \<equiv> 11"

abbreviation (input) NTS_MSG_SHUTDOWN :: nat where "NTS_MSG_SHUTDOWN \<equiv> 12"

abbreviation (input) NTS_MSG_ERR :: nat where "NTS_MSG_ERR \<equiv> 13"

abbreviation (input) NTS_MSG_CLIENT_SYN_ACK :: nat where "NTS_MSG_CLIENT_SYN_ACK \<equiv> 14"

definition nts_kind :: "u32 \<Rightarrow> nat option" where
  "nts_kind = first_bit [NTS_MSG_INIT, NTS_MSG_NEW_SOCK, NTS_MSG_BIND, NTS_MSG_LISTEN, NTS_MSG_ACCEPT,
     NTS_MSG_DISPATCHED, NTS_MSG_CONNECT, NTS_MSG_CLIENT_SYN_ACK, NTS_MSG_ESTABLISH, NTS_MSG_CLOSE,
     NTS_MSG_SHUTDOWN, NTS_MSG_DISCONNECT, NTS_MSG_ERR]"

definition nts_msgcopy :: "nts_msg \<Rightarrow> nts_msg \<Rightarrow> nts_msg outcome" where
  "nts_msgcopy src target =
     (let t1 = target\<lparr>ns_msg_id := ns_msg_id src, ns_msg_type := ns_msg_type src\<rparr>;
          t2 = (if 0 < ns_sockid src then t1\<lparr>ns_sockid := ns_sockid src\<rparr> else t1);
          sock = t2\<lparr>ns_sockid := ns_sockid src\<rparr> in
      case nts_kind (ns_msg_type src) of
        None \<Rightarrow> Ret t2
      | Some k \<Rightarrow>
          if k = NTS_MSG_NEW_SOCK then Ret (t2\<lparr>ns_retval := ns_retval src, ns_nt_errno := ns_nt_errno src\<rparr>)
          else if k = NTS_MSG_BIND \<or> k = NTS_MSG_ERR then Ret (sock\<lparr>ns_retval := ns_retval src, ns_nt_errno := ns_nt_errno src\<rparr>)
          else if k = NTS_MSG_LISTEN \<or> k = NTS_MSG_CLIENT_SYN_ACK \<or> k = NTS_MSG_ESTABLISH \<or> k = NTS_MSG_SHUTDOWN then Ret (sock\<lparr>ns_retval := ns_retval src\<rparr>)
          else if k = NTS_MSG_ACCEPT then
            bind_out (memcpy_int (ns_address t2) (ns_address src) (ns_addrlen src)) (\<lambda>b.
              Ret (sock\<lparr>ns_address := b, ns_addrlen := ns_addrlen src, ns_port := ns_port src\<rparr>))
          else if k = NTS_MSG_DISPATCHED then
            Ret (sock\<lparr>ns_retval := ns_retval src, ns_nt_errno := ns_nt_errno src, ns_port := ns_port src\<rparr>)
          else if k = NTS_MSG_CONNECT then
            Ret (sock\<lparr>ns_conn_status := ns_conn_status src, ns_retval := ns_retval src, ns_nt_errno := ns_nt_errno src\<rparr>)
          else if k = NTS_MSG_CLOSE \<or> k = NTS_MSG_DISCONNECT then Ret sock
          else Ret t2)"

section \<open>What a copy preserves\<close>

text \<open>A target whose arrays have the size of the source's declarations.\<close>

definition cm_shape :: "ntm_ntp_msg \<Rightarrow> bool" where
  "cm_shape m \<longleftrightarrow> length (cm_msg m) = 16"

definition cm_good :: "ntm_ntp_msg \<Rightarrow> bool" where
  "cm_good m \<longleftrightarrow> cm_shape m \<and> unat (cm_msg_len m) \<le> 16"

definition cm_view :: "ntm_ntp_msg \<Rightarrow> ntm_ntp_msg" where
  "cm_view m = m\<lparr>cm_msg := take (unat (cm_msg_len m)) (cm_msg m)\<rparr>"

lemma ntm_ntp_msgcopy_ok:
  assumes "cm_good m" "cm_shape cell"
  shows "\<exists>m'. ntm_ntp_msgcopy m cell = Ret m' \<and> cm_view m' = cm_view m \<and> cm_good m' \<and> cm_shape m'"
  using assms
  by (cases "cm_msg_len m = 0") (auto simp: ntm_ntp_msgcopy_def cm_good_def cm_shape_def cm_view_def word_gt_0)

lemma ntp_ntm_msgcopy_eq: "ntp_ntm_msgcopy = ntm_ntp_msgcopy"
  by (simp add: fun_eq_iff ntp_ntm_msgcopy_def ntm_ntp_msgcopy_def)

text \<open>The fields that belong to each type of a message to the monitor, and those of an answer.\<close>

definition ntm_shape :: "ntm_msg \<Rightarrow> bool" where
  "ntm_shape m \<longleftrightarrow> length (nm_address m) = 16 \<and> length (nm_nts_shm_name m) = 64"

definition belongs :: "nat list \<Rightarrow> nat option \<Rightarrow> bool" where
  "belongs ks k \<longleftrightarrow> (case k of None \<Rightarrow> False | Some i \<Rightarrow> i \<in> set ks)"

definition ntm_view :: "ntm_msg \<Rightarrow> ntm_msg" where
  "ntm_view m =
     (let k = ntm_kind (nm_msg_type m);
          pick = (\<lambda>ks v. if belongs ks k then v else 0) in
      \<lparr>nm_msg_id = nm_msg_id m, nm_msg_type = nm_msg_type m,
       nm_sockid = pick [NTM_MSG_BIND, NTM_MSG_LISTEN, NTM_MSG_ACCEPT, NTM_MSG_ACCEPT_ACK, NTM_MSG_CONNECT,
         NTM_MSG_CLOSE, NTM_MSG_SHUTDOWN, NTM_MSG_FIN, NTM_MSG_EPOLL_CTL] (nm_sockid m),
       nm_howto = pick [NTM_MSG_SHUTDOWN] (nm_howto m),
       nm_backlog = pick [NTM_MSG_LISTEN] (nm_backlog m),
       nm_req_client_sockaddr = pick [NTM_MSG_ACCEPT] (nm_req_client_sockaddr m),
       nm_domain = pick [NTM_MSG_NEW_SOCK] (nm_domain m),
       nm_sock_type = pick [NTM_MSG_NEW_SOCK, NTM_MSG_EPOLL_CREATE, NTM_MSG_EPOLL_CTL, NTM_MSG_EPOLL_CLOSE]
         (nm_sock_type m),
       nm_io_queue_size = pick [NTM_MSG_EPOLL_CREATE] (nm_io_queue_size m),
       nm_protocol = pick [NTM_MSG_NEW_SOCK] (nm_protocol m),
       nm_nts_shm_addrlen = pick [NTM_MSG_NEW_SOCK, NTM_MSG_ACCEPT_ACK, NTM_MSG_EPOLL_CREATE] (nm_nts_shm_addrlen m),
       nm_addrlen = pick [NTM_MSG_BIND, NTM_MSG_CONNECT] (nm_addrlen m),
       nm_port = pick [NTM_MSG_BIND, NTM_MSG_CONNECT] (nm_port m),
       nm_epid = pick [NTM_MSG_EPOLL_CTL, NTM_MSG_EPOLL_CLOSE] (nm_epid m),
       nm_epoll_op = pick [NTM_MSG_EPOLL_CTL] (nm_epoll_op m),
       nm_events = (if belongs [NTM_MSG_EPOLL_CTL] k \<and> nm_epoll_op m \<noteq> NTS_EPOLL_CTL_DEL then nm_events m else 0),
       nm_ep_data = (if belongs [NTM_MSG_EPOLL_CTL] k \<and> nm_epoll_op m \<noteq> NTS_EPOLL_CTL_DEL then nm_ep_data m else 0),
       nm_address = (if belongs [NTM_MSG_BIND, NTM_MSG_CONNECT] k then take (nat (nm_addrlen m)) (nm_address m) else []),
       nm_nts_shm_name = (if belongs [NTM_MSG_NEW_SOCK, NTM_MSG_ACCEPT_ACK, NTM_MSG_EPOLL_CREATE] k
         then take (nat (nm_nts_shm_addrlen m)) (nm_nts_shm_name m) else [])\<rparr>)"

definition ntm_good :: "ntm_msg \<Rightarrow> bool" where
  "ntm_good m \<longleftrightarrow>
     (let k = ntm_kind (nm_msg_type m) in
      ntm_shape m \<and>
      (belongs [NTM_MSG_BIND, NTM_MSG_CONNECT] k \<longrightarrow> 0 \<le> nm_addrlen m \<and> nm_addrlen m \<le> 16) \<and>
      (belongs [NTM_MSG_NEW_SOCK, NTM_MSG_ACCEPT_ACK, NTM_MSG_EPOLL_CREATE] k \<longrightarrow>
         0 \<le> nm_nts_shm_addrlen m \<and> nm_nts_shm_addrlen m \<le> 64))"

definition nts_shape :: "nts_msg \<Rightarrow> bool" where
  "nts_shape m \<longleftrightarrow> length (ns_address m) = 16"

definition nts_view :: "nts_msg \<Rightarrow> nts_msg" where
  "nts_view m =
     (let k = nts_kind (ns_msg_type m);
          pick = (\<lambda>ks v. if belongs ks k then v else 0) in
      \<lparr>ns_msg_id = ns_msg_id m, ns_msg_type = ns_msg_type m,
       ns_sockid = (if belongs [NTS_MSG_NEW_SOCK] k \<and> ns_retval m \<noteq> 0 then 0
         else pick [NTS_MSG_NEW_SOCK, NTS_MSG_BIND, NTS_MSG_LISTEN, NTS_MSG_ACCEPT, NTS_MSG_DISPATCHED, NTS_MSG_CONNECT,
           NTS_MSG_CLIENT_SYN_ACK, NTS_MSG_ESTABLISH, NTS_MSG_CLOSE, NTS_MSG_SHUTDOWN, NTS_MSG_DISCONNECT, NTS_MSG_ERR]
           (ns_sockid m)),
       ns_retval = pick [NTS_MSG_NEW_SOCK, NTS_MSG_BIND, NTS_MSG_LISTEN, NTS_MSG_DISPATCHED, NTS_MSG_CONNECT,
         NTS_MSG_CLIENT_SYN_ACK, NTS_MSG_ESTABLISH, NTS_MSG_SHUTDOWN, NTS_MSG_ERR] (ns_retval m),
       ns_nt_errno = pick [NTS_MSG_NEW_SOCK, NTS_MSG_BIND, NTS_MSG_DISPATCHED, NTS_MSG_CONNECT, NTS_MSG_ERR]
         (ns_nt_errno m),
       ns_conn_status = pick [NTS_MSG_CONNECT] (ns_conn_status m),
       ns_addrlen = pick [NTS_MSG_ACCEPT] (ns_addrlen m),
       ns_port = pick [NTS_MSG_ACCEPT, NTS_MSG_DISPATCHED] (ns_port m),
       ns_address = (if belongs [NTS_MSG_ACCEPT] k then take (nat (ns_addrlen m)) (ns_address m) else [])\<rparr>)"

text \<open>The number of a new socket is only transferred when it is positive.\<close>

definition nts_good :: "nts_msg \<Rightarrow> bool" where
  "nts_good m \<longleftrightarrow>
     (let k = nts_kind (ns_msg_type m) in
      nts_shape m \<and> (belongs [NTS_MSG_ACCEPT] k \<longrightarrow> 0 \<le> ns_addrlen m \<and> ns_addrlen m \<le> 16) \<and>
      (belongs [NTS_MSG_NEW_SOCK] k \<longrightarrow> ns_retval m = 0 \<longrightarrow> 0 < ns_sockid m))"

lemma first_bit_mem: "first_bit is t = Some i \<Longrightarrow> i \<in> set is"
  by (induction "is") (auto split: if_splits)

lemmas ntm_kind_mem = first_bit_mem [of "[NTM_MSG_INIT, NTM_MSG_NEW_SOCK, NTM_MSG_BIND, NTM_MSG_LISTEN, NTM_MSG_ACCEPT,
  NTM_MSG_ACCEPT_ACK, NTM_MSG_CONNECT, NTM_MSG_CLOSE, NTM_MSG_SHUTDOWN, NTM_MSG_FIN, NTM_MSG_EPOLL_CREATE,
  NTM_MSG_EPOLL_CTL, NTM_MSG_EPOLL_CLOSE]", folded ntm_kind_def, unfolded set_simps insert_iff empty_iff]

lemmas nts_kind_mem = first_bit_mem [of "[NTS_MSG_INIT, NTS_MSG_NEW_SOCK, NTS_MSG_BIND, NTS_MSG_LISTEN, NTS_MSG_ACCEPT,
  NTS_MSG_DISPATCHED, NTS_MSG_CONNECT, NTS_MSG_CLIENT_SYN_ACK, NTS_MSG_ESTABLISH, NTS_MSG_CLOSE, NTS_MSG_SHUTDOWN,
  NTS_MSG_DISCONNECT, NTS_MSG_ERR]", folded nts_kind_def, unfolded set_simps insert_iff empty_iff]

lemmas msg_copy_simps = belongs_def memcpy_int_def Let_def nat_le_iff

lemmas ntm_copy_simps = ntm_msgcopy_def ntm_view_def ntm_good_def ntm_shape_def msg_copy_simps

lemmas nts_copy_simps = nts_msgcopy_def nts_view_def nts_good_def nts_shape_def msg_copy_simps

lemma ntm_msgcopy_ok:
  assumes "ntm_good m" "ntm_shape cell"
  shows "\<exists>m'. ntm_msgcopy m cell = Ret m' \<and> ntm_view m' = ntm_view m \<and> ntm_good m' \<and> ntm_shape m'"
proof (cases "ntm_kind (nm_msg_type m)")
  case None
  then show ?thesis using assms by (simp add: ntm_copy_simps)
next
  case (Some i)
  from ntm_kind_mem [OF Some] show ?thesis
    by (elim disjE; use Some assms in \<open>simp add: ntm_copy_simps\<close>)
qed

lemma nts_msgcopy_ok:
  assumes "nts_good m" "nts_shape cell"
  shows "\<exists>m'. nts_msgcopy m cell = Ret m' \<and> nts_view m' = nts_view m \<and> nts_good m' \<and> nts_shape m'"
proof (cases "nts_kind (ns_msg_type m)")
  case None
  then show ?thesis using assms by (simp add: nts_copy_simps)
next
  case (Some i)
  from nts_kind_mem [OF Some] show ?thesis
    by (elim disjE; use Some assms in \<open>simp add: nts_copy_simps\<close>)
qed

end
