(* ===== verification/Ctl_Shm.thy ===== *)
theory Ctl_Shm
  imports Nt_Msg
begin

text \<open>
  The three control channels over the message rings: monitor to proxy (\<^verbatim>\<open>ntm_ntp\<close>) and proxy to monitor
  (\<^verbatim>\<open>ntp_ntm\<close>), as \<^verbatim>\<open>ntb-proxy/src\<close> has them, and monitor to application (\<^verbatim>\<open>nts\<close>), as \<^verbatim>\<open>monitor/src\<close> has it. The
  first two are created under a name that is copied without its terminator.
\<close>

abbreviation NTP_MAX_BUFS :: u64 where "NTP_MAX_BUFS \<equiv> 1024"

abbreviation NTS_MAX_BUFS :: u64 where "NTS_MAX_BUFS \<equiv> 16"

section \<open>Monitor to proxy\<close>

definition ntm_ntp_shmring_init ::
  "ntm_ntp_msg mr_os \<Rightarrow> string \<Rightarrow> u64 \<Rightarrow> (ntm_ntp_msg msg_ring option \<times> mr_res os_call list) outcome"
where
  "ntm_ntp_shmring_init os addr len = msg_ring_init NTP_MAX_BUFS os addr len"

definition ntm_ntp_get_shmring ::
  "ntm_ntp_msg mr_os \<Rightarrow> string \<Rightarrow> u64 \<Rightarrow> (ntm_ntp_msg msg_ring option \<times> mr_res os_call list) outcome"
where
  "ntm_ntp_get_shmring os addr len = msg_ring_get NTP_MAX_BUFS os addr len"

definition ntm_ntp_shmring_push :: "ntm_ntp_msg msg_ring \<Rightarrow> ntm_ntp_msg \<Rightarrow> (bool \<times> ntm_ntp_msg msg_ring) outcome" where
  "ntm_ntp_shmring_push self element = msg_ring_push ntm_ntp_msgcopy self element"

definition ntm_ntp_shmring_pop :: "ntm_ntp_msg msg_ring \<Rightarrow> ntm_ntp_msg \<Rightarrow> (bool \<times> ntm_ntp_msg \<times> ntm_ntp_msg msg_ring) outcome" where
  "ntm_ntp_shmring_pop self element = msg_ring_pop ntm_ntp_msgcopy self element"

definition ntm_ntp_shmring_free :: "ntm_ntp_msg msg_ring \<Rightarrow> bool \<Rightarrow> mr_res os_call list outcome" where
  "ntm_ntp_shmring_free self unlink = msg_ring_free self unlink"

definition ntm_ntp_shm :: "bool \<Rightarrow> ntm_ntp_msg shm_ctx4 outcome" where
  "ntm_ntp_shm malloc_ok = shm_ctx4_new malloc_ok"

definition ntm_ntp_shm_accept ::
  "bool \<Rightarrow> ntm_ntp_msg mr_os \<Rightarrow> ntm_ntp_msg shm_ctx4 \<Rightarrow> string \<Rightarrow> u64 \<Rightarrow> (int \<times> ntm_ntp_msg shm_ctx4 \<times> mr_res os_call list) outcome"
where
  "ntm_ntp_shm_accept malloc_ok os ctx addr len =
     shm_ctx4_attach (ntm_ntp_shmring_init os) malloc_ok len ctx addr len"

definition ntm_ntp_shm_connect ::
  "bool \<Rightarrow> ntm_ntp_msg mr_os \<Rightarrow> ntm_ntp_msg shm_ctx4 \<Rightarrow> string \<Rightarrow> u64 \<Rightarrow> (int \<times> ntm_ntp_msg shm_ctx4 \<times> mr_res os_call list) outcome"
where
  "ntm_ntp_shm_connect malloc_ok os ctx addr len =
     shm_ctx4_attach (ntm_ntp_get_shmring os) malloc_ok len ctx addr len"

definition ntm_ntp_shm_send :: "ntm_ntp_msg shm_ctx4 \<Rightarrow> ntm_ntp_msg \<Rightarrow> (int \<times> ntm_ntp_msg shm_ctx4) outcome" where
  "ntm_ntp_shm_send ctx buf =
     bind_out (live_ring (sc_handle ctx)) (\<lambda>r.
     bind_out (ntm_ntp_shmring_push r buf) (\<lambda>(ret, r').
       Ret (if ret then 0 else - 1, ctx\<lparr>sc_handle := Live r'\<rparr>)))"

definition ntm_ntp_shm_recv :: "ntm_ntp_msg shm_ctx4 \<Rightarrow> ntm_ntp_msg \<Rightarrow> (int \<times> ntm_ntp_msg \<times> ntm_ntp_msg shm_ctx4) outcome" where
  "ntm_ntp_shm_recv ctx buf =
     bind_out (live_ring (sc_handle ctx)) (\<lambda>r.
     bind_out (ntm_ntp_shmring_pop r buf) (\<lambda>(ret, buf', r').
       Ret (if ret then 0 else - 1, buf', ctx\<lparr>sc_handle := Live r'\<rparr>)))"

definition ntm_ntp_shm_close :: "ntm_ntp_msg shm_ctx4 \<Rightarrow> (int \<times> ntm_ntp_msg shm_ctx4 \<times> mr_res os_call list) outcome" where
  "ntm_ntp_shm_close ctx = shm_ctx4_close True ctx"

definition ntm_ntp_shm_ntm_close :: "ntm_ntp_msg shm_ctx4 \<Rightarrow> (int \<times> ntm_ntp_msg shm_ctx4 \<times> mr_res os_call list) outcome" where
  "ntm_ntp_shm_ntm_close ctx = shm_ctx4_close False ctx"

definition ntm_ntp_shm_destroy :: "ntm_ntp_msg shm_ctx4 \<Rightarrow> mr_res os_call list outcome" where
  "ntm_ntp_shm_destroy ctx = shm_ctx4_destroy ctx"

section \<open>Proxy to monitor\<close>

definition ntp_ntm_shmring_init ::
  "ntp_ntm_msg mr_os \<Rightarrow> string \<Rightarrow> u64 \<Rightarrow> (ntp_ntm_msg msg_ring option \<times> mr_res os_call list) outcome"
where
  "ntp_ntm_shmring_init os addr len = msg_ring_init NTP_MAX_BUFS os addr len"

definition ntp_ntm_get_shmring ::
  "ntp_ntm_msg mr_os \<Rightarrow> string \<Rightarrow> u64 \<Rightarrow> (ntp_ntm_msg msg_ring option \<times> mr_res os_call list) outcome"
where
  "ntp_ntm_get_shmring os addr len = msg_ring_get NTP_MAX_BUFS os addr len"

definition ntp_ntm_shmring_push :: "ntp_ntm_msg msg_ring \<Rightarrow> ntp_ntm_msg \<Rightarrow> (bool \<times> ntp_ntm_msg msg_ring) outcome" where
  "ntp_ntm_shmring_push self element = msg_ring_push ntp_ntm_msgcopy self element"

definition ntp_ntm_shmring_pop :: "ntp_ntm_msg msg_ring \<Rightarrow> ntp_ntm_msg \<Rightarrow> (bool \<times> ntp_ntm_msg \<times> ntp_ntm_msg msg_ring) outcome" where
  "ntp_ntm_shmring_pop self element = msg_ring_pop ntp_ntm_msgcopy self element"

definition ntp_ntm_shmring_free :: "ntp_ntm_msg msg_ring \<Rightarrow> bool \<Rightarrow> mr_res os_call list outcome" where
  "ntp_ntm_shmring_free self unlink = msg_ring_free self unlink"

definition ntp_ntm_shm :: "bool \<Rightarrow> ntp_ntm_msg shm_ctx4 outcome" where
  "ntp_ntm_shm malloc_ok = shm_ctx4_new malloc_ok"

definition ntp_ntm_shm_accept ::
  "bool \<Rightarrow> ntp_ntm_msg mr_os \<Rightarrow> ntp_ntm_msg shm_ctx4 \<Rightarrow> string \<Rightarrow> u64 \<Rightarrow> (int \<times> ntp_ntm_msg shm_ctx4 \<times> mr_res os_call list) outcome"
where
  "ntp_ntm_shm_accept malloc_ok os ctx addr len =
     shm_ctx4_attach (ntp_ntm_shmring_init os) malloc_ok len ctx addr len"

definition ntp_ntm_shm_connect ::
  "bool \<Rightarrow> ntp_ntm_msg mr_os \<Rightarrow> ntp_ntm_msg shm_ctx4 \<Rightarrow> string \<Rightarrow> u64 \<Rightarrow> (int \<times> ntp_ntm_msg shm_ctx4 \<times> mr_res os_call list) outcome"
where
  "ntp_ntm_shm_connect malloc_ok os ctx addr len =
     shm_ctx4_attach (ntp_ntm_get_shmring os) malloc_ok len ctx addr len"

definition ntp_ntm_shm_send :: "ntp_ntm_msg shm_ctx4 \<Rightarrow> ntp_ntm_msg \<Rightarrow> (int \<times> ntp_ntm_msg shm_ctx4) outcome" where
  "ntp_ntm_shm_send ctx buf =
     bind_out (live_ring (sc_handle ctx)) (\<lambda>r.
     bind_out (ntp_ntm_shmring_push r buf) (\<lambda>(ret, r').
       Ret (if ret then 0 else - 1, ctx\<lparr>sc_handle := Live r'\<rparr>)))"

definition ntp_ntm_shm_recv :: "ntp_ntm_msg shm_ctx4 \<Rightarrow> ntp_ntm_msg \<Rightarrow> (int \<times> ntp_ntm_msg \<times> ntp_ntm_msg shm_ctx4) outcome" where
  "ntp_ntm_shm_recv ctx buf =
     bind_out (live_ring (sc_handle ctx)) (\<lambda>r.
     bind_out (ntp_ntm_shmring_pop r buf) (\<lambda>(ret, buf', r').
       Ret (if ret then 0 else - 1, buf', ctx\<lparr>sc_handle := Live r'\<rparr>)))"

definition ntp_ntm_shm_close :: "ntp_ntm_msg shm_ctx4 \<Rightarrow> (int \<times> ntp_ntm_msg shm_ctx4 \<times> mr_res os_call list) outcome" where
  "ntp_ntm_shm_close ctx = shm_ctx4_close True ctx"

definition ntp_ntm_shm_ntm_close :: "ntp_ntm_msg shm_ctx4 \<Rightarrow> (int \<times> ntp_ntm_msg shm_ctx4 \<times> mr_res os_call list) outcome" where
  "ntp_ntm_shm_ntm_close ctx = shm_ctx4_close False ctx"

definition ntp_ntm_shm_destroy :: "ntp_ntm_msg shm_ctx4 \<Rightarrow> mr_res os_call list outcome" where
  "ntp_ntm_shm_destroy ctx = shm_ctx4_destroy ctx"

section \<open>Monitor to application\<close>

definition nts_shmring_init ::
  "nts_msg mr_os \<Rightarrow> string \<Rightarrow> u64 \<Rightarrow> (nts_msg msg_ring option \<times> mr_res os_call list) outcome"
where
  "nts_shmring_init os addr len = msg_ring_init NTS_MAX_BUFS os addr len"

definition nts_get_shmring ::
  "nts_msg mr_os \<Rightarrow> string \<Rightarrow> u64 \<Rightarrow> (nts_msg msg_ring option \<times> mr_res os_call list) outcome"
where
  "nts_get_shmring os addr len = msg_ring_get NTS_MAX_BUFS os addr len"

definition nts_shmring_push :: "nts_msg msg_ring \<Rightarrow> nts_msg \<Rightarrow> (bool \<times> nts_msg msg_ring) outcome" where
  "nts_shmring_push self element = msg_ring_push nts_msgcopy self element"

definition nts_shmring_pop :: "nts_msg msg_ring \<Rightarrow> nts_msg \<Rightarrow> (bool \<times> nts_msg \<times> nts_msg msg_ring) outcome" where
  "nts_shmring_pop self element = msg_ring_pop nts_msgcopy self element"

definition nts_shmring_free :: "nts_msg msg_ring \<Rightarrow> bool \<Rightarrow> mr_res os_call list outcome" where
  "nts_shmring_free self unlink = msg_ring_free self unlink"

definition nts_shm :: "bool \<Rightarrow> nts_msg shm_ctx4 outcome" where
  "nts_shm malloc_ok = shm_ctx4_new malloc_ok"

definition nts_shm_accept ::
  "bool \<Rightarrow> nts_msg mr_os \<Rightarrow> nts_msg shm_ctx4 \<Rightarrow> string \<Rightarrow> u64 \<Rightarrow> (int \<times> nts_msg shm_ctx4 \<times> mr_res os_call list) outcome"
where
  "nts_shm_accept malloc_ok os ctx addr len =
     shm_ctx4_attach (nts_shmring_init os) malloc_ok (len + 1) ctx addr len"

definition nts_shm_connect ::
  "bool \<Rightarrow> nts_msg mr_os \<Rightarrow> nts_msg shm_ctx4 \<Rightarrow> string \<Rightarrow> u64 \<Rightarrow> (int \<times> nts_msg shm_ctx4 \<times> mr_res os_call list) outcome"
where
  "nts_shm_connect malloc_ok os ctx addr len =
     shm_ctx4_attach (nts_get_shmring os) malloc_ok (len + 1) ctx addr len"

definition nts_shm_send :: "nts_msg shm_ctx4 \<Rightarrow> nts_msg \<Rightarrow> (int \<times> nts_msg shm_ctx4) outcome" where
  "nts_shm_send ctx buf =
     bind_out (live_ring (sc_handle ctx)) (\<lambda>r.
     bind_out (nts_shmring_push r buf) (\<lambda>(ret, r').
       Ret (if ret then 0 else - 1, ctx\<lparr>sc_handle := Live r'\<rparr>)))"

definition nts_shm_recv :: "nts_msg shm_ctx4 \<Rightarrow> nts_msg \<Rightarrow> (int \<times> nts_msg \<times> nts_msg shm_ctx4) outcome" where
  "nts_shm_recv ctx buf =
     bind_out (live_ring (sc_handle ctx)) (\<lambda>r.
     bind_out (nts_shmring_pop r buf) (\<lambda>(ret, buf', r').
       Ret (if ret then 0 else - 1, buf', ctx\<lparr>sc_handle := Live r'\<rparr>)))"

text \<open>\<^verbatim>\<open>nts_shm_close\<close> and \<^verbatim>\<open>nts_shm_ntm_close\<close> test both pointers and reset only the name.\<close>

definition nts_shm_shut :: "bool \<Rightarrow> nts_msg shm_ctx4 \<Rightarrow> (int \<times> nts_msg shm_ctx4 \<times> mr_res os_call list) outcome" where
  "nts_shm_shut unlink ctx =
     bind_out (case sc_handle ctx of
         Null \<Rightarrow> Ret (Null, []) | Live r \<Rightarrow> bind_out (nts_shmring_free r unlink) (\<lambda>cs. Ret (Dangling, cs)) | _ \<Rightarrow> Undef)
       (\<lambda>(h, cs).
     bind_out (case sc_addr ctx of Null \<Rightarrow> Ret [] | Live a \<Rightarrow> Ret [Release M_addr] | _ \<Rightarrow> Undef) (\<lambda>ds.
       Ret (0, ctx\<lparr>sc_handle := h, sc_addr := Null, sc_stat := (if unlink then SHM_UNLINK else SHM_CLOSE)\<rparr>, cs @ ds)))"

definition nts_shm_close :: "nts_msg shm_ctx4 \<Rightarrow> (int \<times> nts_msg shm_ctx4 \<times> mr_res os_call list) outcome" where
  "nts_shm_close ctx = nts_shm_shut True ctx"

definition nts_shm_ntm_close :: "nts_msg shm_ctx4 \<Rightarrow> (int \<times> nts_msg shm_ctx4 \<times> mr_res os_call list) outcome" where
  "nts_shm_ntm_close ctx = nts_shm_shut False ctx"

definition nts_shm_destroy :: "nts_msg shm_ctx4 \<Rightarrow> mr_res os_call list" where
  "nts_shm_destroy ctx = [Release M_ctx]"

section \<open>The channels are queues\<close>

definition cm_blank :: ntm_ntp_msg where
  "cm_blank = \<lparr>cm_src_ip = 0, cm_dst_ip = 0, cm_src_port = 0, cm_dst_port = 0, cm_msg_type = 0, cm_partition_id = 0,
     cm_msg_len = 0, cm_msg = replicate 16 0\<rparr>"

definition nts_blank :: nts_msg where
  "nts_blank = \<lparr>ns_msg_id = 0, ns_msg_type = 0, ns_sockid = 0, ns_retval = 0, ns_nt_errno = 0, ns_conn_status = 0,
     ns_addrlen = 0, ns_port = 0, ns_address = replicate 16 0\<rparr>"

lemma blank_shapes [simp]: "cm_shape cm_blank" "nts_shape nts_blank"
  by (simp_all add: cm_blank_def cm_shape_def nts_blank_def nts_shape_def)

interpretation mp: msg_copy ntm_ntp_msgcopy cm_good cm_shape cm_view cm_blank
  by unfold_locales (auto simp: ntm_ntp_msgcopy_ok)

interpretation pm: msg_copy ntp_ntm_msgcopy cm_good cm_shape cm_view cm_blank
  by unfold_locales (auto simp: ntp_ntm_msgcopy_eq ntm_ntp_msgcopy_ok)

interpretation ma: msg_copy nts_msgcopy nts_good nts_shape nts_view nts_blank
  by unfold_locales (auto simp: nts_msgcopy_ok)

text \<open>A pop as the receiver of an answer sees it.\<close>

definition nts_take :: "nts_msg msg_ring \<Rightarrow> (nts_msg option \<times> nts_msg msg_ring) outcome" where
  "nts_take s = bind_out (nts_shmring_pop s nts_blank) (\<lambda>(ok, m, s'). Ret (if ok then Some (nts_view m) else None, s'))"

lemma nts_ring_ops: "nts_shmring_push = msg_put nts_msgcopy" "nts_take = msg_take nts_msgcopy nts_view nts_blank"
  by (simp_all add: fun_eq_iff nts_shmring_push_def msg_put_def nts_take_def nts_shmring_pop_def msg_take_def)

section \<open>Properties\<close>

definition demo_nts :: "nts_msg msg_ring" where
  "demo_nts = \<lparr>mr_fd = - 1, mr_MASK = 15, mr_addrlen = 1, mr_addr = [CHR 0x00],
     mr_shm = \<lparr>mb_buf = replicate 17 nts_blank, mb_write = 0, mb_read = 0\<rparr>, mr_max = 16\<rparr>"

definition demo_nts_msg :: "u64 \<Rightarrow> nts_msg" where
  "demo_nts_msg i = nts_blank\<lparr>ns_msg_id := i, ns_msg_type := 4, ns_sockid := 3, ns_retval := - 1, ns_nt_errno := 7\<rparr>"

lemma demo_nts_ok: "msg_ring_ok nts_good nts_shape demo_nts"
proof -
  have "(15 :: u64) = mask 4" by (simp add: mask_eq_exp_minus_1)
  then show ?thesis
    by (auto simp: msg_ring_ok_def msg_ring_inv_def msg_ring_good_def demo_nts_def ring_list_def ring_count_def
        intro!: exI [of _ 4])
qed



definition demo_os :: "ntm_ntp_msg mr_os" where
  "demo_os = \<lparr>mo_malloc = True, mo_shm_open = 3, mo_errno_retry = False, mo_shm_reopen = - 1, mo_ftruncate = True,
     mo_mmap = None\<rparr>"

definition demo_nts_os :: "nts_msg mr_os" where
  "demo_nts_os = \<lparr>mo_malloc = True, mo_shm_open = 3, mo_errno_retry = False, mo_shm_reopen = - 1, mo_ftruncate = True,
     mo_mmap = Some (mr_shm demo_nts)\<rparr>"

definition demo_ctl :: "ntm_ntp_msg shm_ctx4" where
  "demo_ctl = \<lparr>sc_stat = SHM_UNREADY, sc_handle = Wild, sc_addr = Wild, sc_addrlen = 0\<rparr>"

definition demo_nts_ctl :: "nts_msg shm_ctx4" where
  "demo_nts_ctl = \<lparr>sc_stat = SHM_UNREADY, sc_handle = Wild, sc_addr = Wild, sc_addrlen = 0\<rparr>"

lemma msg_ring_init_ret:
  assumes "mo_malloc os" "0 < len" "c_name a = Ret name"
  shows "\<exists>r cs. msg_ring_init n os a len = Ret (r, cs)"
  using assms by (auto simp: msg_ring_init_def Let_def split: option.splits)

lemma shm_ctx4_attach_ret:
  assumes "0 < len" "unat n = Suc (unat len)" "length addr = unat len" "open_ring (addr @ [CHR 0x00]) n = Ret (r, cs)"
  shows "\<exists>ctx' cs'. shm_ctx4_attach open_ring True n ctx addr len = Ret (0, ctx', cs')"
proof -
  have "drop (unat len) (replicate (unat n) (CHR 0x00)) = [CHR 0x00]" using assms(2) by (simp del: replicate_Suc) simp
  then show ?thesis using assms by (simp add: shm_ctx4_attach_def)
qed

text \<open>
  The channels between monitor and proxy copy their name without its terminator, and hand it to
  \<^verbatim>\<open>shm_open\<close>; the channel to the applications allocates one byte more and is created.
\<close>

theorem ctl_name_unterminated:
  assumes "name \<noteq> []" "CHR 0x00 \<notin> set name" "length name < 2 ^ 63" "mo_malloc os" "mo_malloc os'"
  shows "ntm_ntp_shm_accept True os ctx name (of_nat (length name)) = Undef \<and>
    ntp_ntm_shm_accept True os ctx name (of_nat (length name)) = Undef \<and>
    (\<exists>ctx' cs. nts_shm_accept True os' ctx'' name (of_nat (length name)) = Ret (0, ctx', cs))"
proof -
  have len: "unat (of_nat (length name) :: u64) = length name" "0 < (of_nat (length name) :: u64)"
    "unat (of_nat (length name) + 1 :: u64) = length name + 1" "0 < (of_nat (length name) + 1 :: u64)"
    using assms(1,3) by (simp_all add: unsigned_of_nat take_bit_nat_eq_self word_less_nat_alt unat_word_ariths)
  have "c_name name = Undef" using assms(2) by (simp add: c_name_def)
  then have "shm_ctx4_attach (\<lambda>a n. msg_ring_init NTP_MAX_BUFS os a n) True (of_nat (length name)) ctx name (of_nat (length name)) = Undef"
    using assms(4) len by (simp add: shm_ctx4_attach_def msg_ring_init_def)
  then have "ntm_ntp_shm_accept True os ctx name (of_nat (length name)) = Undef"
    "ntp_ntm_shm_accept True os ctx name (of_nat (length name)) = Undef"
    by (simp_all add: ntm_ntp_shm_accept_def ntp_ntm_shm_accept_def ntm_ntp_shmring_init_def [abs_def]
        ntp_ntm_shmring_init_def [abs_def])
  moreover have "c_name (name @ [CHR 0x00]) = Ret name"
    using assms(2) by (simp add: c_name_def takeWhile_append)
  from msg_ring_init_ret [OF assms(5) len(4) this] obtain r cs where
    "nts_shmring_init os' (name @ [CHR 0x00]) (of_nat (length name) + 1) = Ret (r, cs)"
    unfolding nts_shmring_init_def by blast
  then have "\<exists>ctx' cs. nts_shm_accept True os' ctx'' name (of_nat (length name)) = Ret (0, ctx', cs)"
    unfolding nts_shm_accept_def using len by (intro shm_ctx4_attach_ret) simp_all
  ultimately show ?thesis by blast
qed

theorem ctl_name_unterminated_witness:
  "ntm_ntp_shm_accept True demo_os demo_ctl ''/ntm-ntp'' 8 = Undef \<and>
   ntp_ntm_shm_accept True demo_os demo_ctl ''/ntm-ntp'' 8 = Undef \<and>
   (\<exists>ctx' cs. nts_shm_accept True demo_nts_os demo_nts_ctl ''/ntm-ntp'' 8 = Ret (0, ctx', cs))"
  using ctl_name_unterminated [of "''/ntm-ntp''" demo_os demo_nts_os demo_ctl demo_nts_ctl]
  by (simp add: demo_os_def demo_nts_os_def)

end
