(* ===== verification/Shm_Mempool.thy ===== *)
theory Shm_Mempool
  imports Os_Resource
begin

text \<open>
  \<^verbatim>\<open>libfdu-utils/shm_mempool.c\<close>: the pool of fixed-size blocks in shared memory from which message
  payloads are taken. A node pointer is the index of the node in \<^verbatim>\<open>shm_mp_nodes\<close> (NULL is \<open>None\<close>) and a
  pointer into the data region is its offset from \<^verbatim>\<open>shm_mem\<close>.
\<close>

section \<open>Data\<close>

record shm_mempool_node =
  mn_column :: int
  node_idx :: int
  shm_offset :: u64
  next_node_idx :: int

record shm_mempool =
  mp_column :: int
  total_count :: int
  used_count :: int
  block_len :: int
  free_header_idx :: int
  free_tail_idx :: int
  used_header_idx :: int

record shm_mp_handler =
  shm_mp_name :: string
  sem_mutex_name :: string
  shm_mem_name :: string
  shm_mp :: shm_mempool
  shm_mp_nodes :: "shm_mempool_node list"
  shm_mem :: "byte list"

abbreviation SMP_OK :: int where "SMP_OK \<equiv> 0"

abbreviation SMP_NOT_INIT :: int where "SMP_NOT_INIT \<equiv> - 2"

text \<open>\<^verbatim>\<open>shm_mp_nodes[i]\<close> with a C \<^verbatim>\<open>int\<close> as index.\<close>

definition node_at :: "shm_mp_handler \<Rightarrow> int \<Rightarrow> shm_mempool_node outcome" where
  "node_at h i = (if 0 \<le> i then array_get (shm_mp_nodes h) (nat i) else Undef)"

definition set_node :: "shm_mp_handler \<Rightarrow> int \<Rightarrow> shm_mempool_node \<Rightarrow> shm_mp_handler outcome" where
  "set_node h i n =
     (if 0 \<le> i then bind_out (array_set (shm_mp_nodes h) (nat i) n) (\<lambda>ns. Ret (h\<lparr>shm_mp_nodes := ns\<rparr>))
      else Undef)"

section \<open>Allocation\<close>

definition shm_mp_runtime_print :: "shm_mp_handler \<Rightarrow> int" where
  "shm_mp_runtime_print h = SMP_OK"

definition shm_mp_malloc :: "shm_mp_handler \<Rightarrow> (int option \<times> shm_mp_handler) outcome" where
  "shm_mp_malloc h =
     (let idx = free_header_idx (shm_mp h) in
      if idx = - 1 then Ret (None, h)
      else bind_out (node_at h idx) (\<lambda>node.
             Ret (Some idx, h\<lparr>shm_mp := (shm_mp h)\<lparr>free_header_idx := next_node_idx node\<rparr>\<rparr>)))"

definition shm_mp_node :: "shm_mp_handler \<Rightarrow> nat \<Rightarrow> int option" where
  "shm_mp_node h i = (if int i < total_count (shm_mp h) then Some (int i) else None)"

definition shm_mp_node_by_shmaddr :: "shm_mp_handler \<Rightarrow> u64 \<Rightarrow> int outcome" where
  "shm_mp_node_by_shmaddr h addr =
     (let bl = (word_of_int (block_len (shm_mp h)) :: u64) in
      if bl = 0 then Undef
      else let idx = sint (ucast (addr div bl) :: u32) in
           bind_out (c_assert (0 \<le> idx)) (\<lambda>_. Ret idx))"

definition shm_offset_mem :: "shm_mp_handler \<Rightarrow> nat \<Rightarrow> u64 outcome" where
  "shm_offset_mem h i =
     bind_out (c_assert (int i < total_count (shm_mp h))) (\<lambda>_.
     bind_out (node_at h (int i)) (\<lambda>node. Ret (shm_offset node)))"

definition shm_mp_free :: "shm_mp_handler \<Rightarrow> int \<Rightarrow> (int \<times> shm_mp_handler) outcome" where
  "shm_mp_free h ptr =
     bind_out (node_at h ptr) (\<lambda>node.
     bind_out (c_assert (0 \<le> node_idx node)) (\<lambda>_.
     let tail = free_tail_idx (shm_mp h) in
     if tail \<noteq> - 1 then
       bind_out (node_at h tail) (\<lambda>last_node.
       bind_out (set_node h tail (last_node\<lparr>next_node_idx := node_idx node\<rparr>)) (\<lambda>h'.
         Ret (SMP_OK, h'\<lparr>shm_mp := (shm_mp h')\<lparr>free_tail_idx := node_idx node\<rparr>\<rparr>)))
     else
       bind_out (set_node h ptr (node\<lparr>next_node_idx := - 1\<rparr>)) (\<lambda>h'.
         Ret (SMP_OK, h'\<lparr>shm_mp := (shm_mp h')\<lparr>free_tail_idx := node_idx node,
                                              free_header_idx := node_idx node\<rparr>\<rparr>))))"

section \<open>Construction\<close>

text \<open>The loop that chains the nodes of a fresh pool.\<close>

fun mp_init_loop :: "nat \<Rightarrow> nat \<Rightarrow> nat \<Rightarrow> u64 \<Rightarrow> shm_mp_handler \<Rightarrow> shm_mp_handler outcome" where
  "mp_init_loop 0 i cur off h = Ret h"
| "mp_init_loop (Suc n) i cur off h =
     bind_out (node_at h (int i)) (\<lambda>node.
     bind_out (set_node h (int i) (node\<lparr>mn_column := 1, shm_offset := off, next_node_idx := - 1,
                                       node_idx := int i\<rparr>)) (\<lambda>h1.
     bind_out
       (if i = 0 then Ret (h1\<lparr>shm_mp := (shm_mp h1)\<lparr>free_header_idx := int i, free_tail_idx := int i\<rparr>\<rparr>)
        else
          bind_out (node_at h1 (int cur)) (\<lambda>c.
          bind_out (set_node h1 (int cur) (c\<lparr>next_node_idx := int i\<rparr>)) (\<lambda>h2.
            Ret (h2\<lparr>shm_mp := (shm_mp h2)\<lparr>free_tail_idx := int i\<rparr>\<rparr>))))
       (\<lambda>h3. mp_init_loop n (Suc i) i (off + word_of_int (block_len (shm_mp h))) h3)))"

definition zero_node :: shm_mempool_node where
  "zero_node = \<lparr>mn_column = 0, node_idx = 0, shm_offset = 0, next_node_idx = 0\<rparr>"

definition mp_fresh :: "shm_mp_handler \<Rightarrow> nat \<Rightarrow> nat \<Rightarrow> shm_mp_handler outcome" where
  "mp_fresh h len count =
     mp_init_loop count 0 0 0
       (h\<lparr>shm_mp := \<lparr>mp_column = 1, total_count = int count, used_count = 0, block_len = int len,
                    free_header_idx = - 1, free_tail_idx = - 1, used_header_idx = - 1\<rparr>,
          shm_mp_nodes := replicate count zero_node\<rparr>)"

datatype mp_res =
    MP_handler
  | MP_str string
  | MP_fd int
  | MP_map string
  | MP_name string
  | MP_sem string

text \<open>
  What the system answers: the four allocations, for each of the two regions whether it exists, its
  descriptor, whether it can be sized and what the mapping holds, and whether the semaphore opens.
\<close>

record mp_os =
  os_handler :: bool
  os_mem_name :: bool
  os_mp_name :: bool
  os_sem_name :: bool
  os_mem_exists :: bool
  os_mem_fd :: int
  os_mem_trunc :: bool
  os_mem_map :: "byte list option"
  os_mp_exists :: bool
  os_mp_fd :: int
  os_mp_trunc :: bool
  os_mp_map :: "(shm_mempool \<times> shm_mempool_node list) option"
  os_sem :: bool

text \<open>The code at \<^verbatim>\<open>FAIL\<close>: \<open>strs\<close> are the name buffers that exist.\<close>

definition mp_fail :: "string list \<Rightarrow> int \<Rightarrow> int \<Rightarrow> mp_res os_call list" where
  "mp_fail strs mp_fd mem_fd =
     map (\<lambda>s. Release (MP_str s)) strs @
     (if 0 < mp_fd then [Release (MP_fd mp_fd)] else []) @
     (if mem_fd \<noteq> 0 then [Release (MP_fd mem_fd)] else []) @ [Release MP_handler]"

definition mp_sem_step ::
  "mp_os \<Rightarrow> shm_mp_handler \<Rightarrow> nat \<Rightarrow> nat \<Rightarrow> mp_res os_call list \<Rightarrow> string list
     \<Rightarrow> (shm_mp_handler option \<times> mp_res os_call list) outcome"
where
  "mp_sem_step os h len count cs strs =
     (if \<not> os_sem os then Ret (None, cs @ mp_fail strs (os_mp_fd os) (os_mem_fd os))
      else
        let cs' = cs @ [Acquire (MP_sem (sem_mutex_name h))] in
        if os_mp_exists os then Ret (Some h, cs')
        else bind_out (mp_fresh h len count) (\<lambda>h'. Ret (Some h', cs')))"

definition mp_map_pool ::
  "mp_os \<Rightarrow> shm_mp_handler \<Rightarrow> nat \<Rightarrow> nat \<Rightarrow> mp_res os_call list \<Rightarrow> string list
     \<Rightarrow> (shm_mp_handler option \<times> mp_res os_call list) outcome"
where
  "mp_map_pool os h len count cs strs =
     (let fd = os_mp_fd os; nm = shm_mp_name h;
          cs1 = cs @ [Acquire (MP_name nm), Acquire (MP_fd fd)] in
      if 49 < 8 + length nm then Undef
      else if fd = - 1 then Ret (None, cs @ mp_fail strs fd (os_mem_fd os))
      else if \<not> os_mp_exists os \<and> \<not> os_mp_trunc os then Ret (None, cs1 @ mp_fail strs fd (os_mem_fd os))
      else case os_mp_map os of
        None \<Rightarrow> Ret (None, cs1 @ mp_fail strs fd (os_mem_fd os))
      | Some (pool, nodes) \<Rightarrow>
          mp_sem_step os (h\<lparr>shm_mp := pool, shm_mp_nodes := nodes\<rparr>) len count
            (cs1 @ [Acquire (MP_map nm), Release (MP_fd fd)]) strs)"

definition mp_map_mem ::
  "mp_os \<Rightarrow> shm_mp_handler \<Rightarrow> nat \<Rightarrow> nat \<Rightarrow> mp_res os_call list \<Rightarrow> string list
     \<Rightarrow> (shm_mp_handler option \<times> mp_res os_call list) outcome"
where
  "mp_map_mem os h len count cs strs =
     (let fd = os_mem_fd os; nm = shm_mem_name h;
          cs1 = cs @ [Acquire (MP_name nm), Acquire (MP_fd fd)] in
      if 49 < 8 + length nm then Undef
      else if fd = - 1 then Ret (None, cs @ mp_fail strs 0 fd)
      else if \<not> os_mem_exists os \<and> \<not> os_mem_trunc os then Ret (None, cs1 @ mp_fail strs 0 fd)
      else case os_mem_map os of
        None \<Rightarrow> Ret (None, cs1 @ mp_fail strs 0 fd)
      | Some mem \<Rightarrow>
          mp_map_pool os (h\<lparr>shm_mem := mem\<rparr>) len count
            (cs1 @ [Acquire (MP_map nm), Release (MP_fd fd)]) strs)"

definition shm_mp_init ::
  "mp_os \<Rightarrow> nat \<Rightarrow> nat \<Rightarrow> string \<Rightarrow> nat \<Rightarrow> (shm_mp_handler option \<times> mp_res os_call list) outcome"
where
  "shm_mp_init os len count name name_len =
     (let mem = name; mp = name @ ''-mp''; sem = name @ ''-mutex'';
          h = [Acquire MP_handler]; h1 = h @ [Acquire (MP_str mem)]; h2 = h1 @ [Acquire (MP_str mp)];
          h3 = h2 @ [Acquire (MP_str sem)] in
      if \<not> os_handler os then Ret (None, [])
      else if \<not> os_mem_name os then Ret (None, h @ mp_fail [] 0 0)
      else if name_len \<noteq> length name \<and> name_len \<noteq> Suc (length name) then Undef
      else if \<not> os_mp_name os then Ret (None, h1 @ mp_fail [mem] 0 0)
      else if \<not> os_sem_name os then Ret (None, h2 @ mp_fail [mp, mem] 0 0)
      else
        mp_map_mem os \<lparr>shm_mp_name = mp, sem_mutex_name = sem, shm_mem_name = mem,
             shm_mp = \<lparr>mp_column = 0, total_count = 0, used_count = 0, block_len = 0, free_header_idx = 0,
                       free_tail_idx = 0, used_header_idx = 0\<rparr>, shm_mp_nodes = [], shm_mem = []\<rparr>
          len count h3 [mp, mem, sem])"

definition shm_mp_destroy :: "shm_mp_handler \<Rightarrow> bool \<Rightarrow> int \<times> mp_res os_call list" where
  "shm_mp_destroy h is_unlink =
     (SMP_OK,
      [Release (MP_map (shm_mp_name h)), Release (MP_map (shm_mem_name h)), Release (MP_sem (sem_mutex_name h))] @
      (if is_unlink then [Release (MP_name (shm_mp_name h)), Release (MP_name (shm_mem_name h)),
                          Release (MP_name (sem_mutex_name h))] else []) @
      [Release (MP_str (shm_mp_name h)), Release (MP_str (shm_mem_name h)),
       Release (MP_str (sem_mutex_name h)), Release MP_handler])"

section \<open>The free list\<close>

text \<open>
  \<open>mp_ok h fq\<close>: the nodes are the blocks of the region in order, and the free blocks are chained in the
  order \<open>fq\<close> from the header to the tail. Nothing is said of the link of the tail, which the code
  leaves stale.
\<close>

definition mp_ok :: "shm_mp_handler \<Rightarrow> nat list \<Rightarrow> bool" where
  "mp_ok h fq \<longleftrightarrow>
     int (length (shm_mp_nodes h)) = total_count (shm_mp h) \<and>
     (\<forall>i < length (shm_mp_nodes h). node_idx (shm_mp_nodes h ! i) = int i \<and>
        shm_offset (shm_mp_nodes h ! i) = of_nat i * word_of_int (block_len (shm_mp h))) \<and>
     fq \<noteq> [] \<and> distinct fq \<and> set fq \<subseteq> {..<length (shm_mp_nodes h)} \<and>
     free_header_idx (shm_mp h) = int (hd fq) \<and> free_tail_idx (shm_mp h) = int (last fq) \<and>
     (\<forall>k. Suc k < length fq \<longrightarrow> next_node_idx (shm_mp_nodes h ! (fq ! k)) = int (fq ! Suc k))"

lemma mp_ok_bound: "mp_ok h fq \<Longrightarrow> x \<in> set fq \<Longrightarrow> x < length (shm_mp_nodes h)"
  by (auto simp: mp_ok_def)

text \<open>With at least two free blocks an allocation takes the first one.\<close>

lemma mp_malloc_ok:
  assumes "mp_ok h (x # y # fq)"
  shows "\<exists>h'. shm_mp_malloc h = Ret (Some (int x), h') \<and> mp_ok h' (y # fq) \<and>
           length (shm_mp_nodes h') = length (shm_mp_nodes h) \<and> block_len (shm_mp h') = block_len (shm_mp h)"
proof -
  have x: "x < length (shm_mp_nodes h)" using mp_ok_bound [OF assms] by simp
  have "next_node_idx (shm_mp_nodes h ! x) = int y"
    using assms by (auto simp: mp_ok_def dest!: spec [of _ "0::nat"])
  moreover have "\<forall>k. Suc k < length (y # fq) \<longrightarrow>
      next_node_idx (shm_mp_nodes h ! ((y # fq) ! k)) = int ((y # fq) ! Suc k)"
    using assms unfolding mp_ok_def by (metis Suc_less_eq length_Cons nth_Cons_Suc)
  moreover have "free_header_idx (shm_mp h) = int x" using assms by (simp add: mp_ok_def)
  ultimately show ?thesis using assms x
    by (auto simp: shm_mp_malloc_def node_at_def Let_def mp_ok_def)
qed

text \<open>Freeing a block in use puts it behind the last free one.\<close>

lemma mp_free_ok:
  assumes "mp_ok h fq" "x < length (shm_mp_nodes h)" "x \<notin> set fq"
  shows "\<exists>h'. shm_mp_free h (int x) = Ret (SMP_OK, h') \<and> mp_ok h' (fq @ [x]) \<and>
           length (shm_mp_nodes h') = length (shm_mp_nodes h) \<and> block_len (shm_mp h') = block_len (shm_mp h)"
proof -
  let ?ns = "shm_mp_nodes h" and ?t = "last fq"
  have t: "?t < length ?ns" "free_tail_idx (shm_mp h) = int ?t" "fq \<noteq> []" "distinct fq"
    using assms(1) mp_ok_bound [OF assms(1), of ?t] by (auto simp: mp_ok_def)
  define ns' where "ns' = ?ns[?t := (?ns ! ?t)\<lparr>next_node_idx := int x\<rparr>]"
  define h' where "h' = h\<lparr>shm_mp_nodes := ns', shm_mp := (shm_mp h)\<lparr>free_tail_idx := int x\<rparr>\<rparr>"
  have idx: "node_idx (?ns ! x) = int x" using assms(1,2) by (auto simp: mp_ok_def)
  have "shm_mp_free h (int x) = Ret (SMP_OK, h')"
    using t idx assms(2) by (simp add: shm_mp_free_def node_at_def set_node_def Let_def h'_def ns'_def)
  moreover have "mp_ok h' (fq @ [x])"
  proof -
    have "next_node_idx (ns' ! ((fq @ [x]) ! k)) = int ((fq @ [x]) ! Suc k)"
      if "Suc k < length (fq @ [x])" for k
    proof (cases "Suc k < length fq")
      case True
      then have "fq ! k \<noteq> ?t"
        using t by (simp add: last_conv_nth nth_eq_iff_index_eq)
      moreover have "next_node_idx (?ns ! (fq ! k)) = int (fq ! Suc k)"
        using assms(1) True by (auto simp: mp_ok_def)
      ultimately show ?thesis using True by (simp add: ns'_def nth_append)
    next
      case False
      with that have k: "k < length fq" "\<not> Suc k < length fq" "k = length fq - 1" by simp_all
      with t have "fq ! k = ?t" by (simp add: last_conv_nth)
      with t k(1,2) show ?thesis by (simp add: ns'_def nth_append)
    qed
    then show ?thesis using assms t unfolding mp_ok_def h'_def
      by (auto simp: ns'_def nth_list_update)
  qed
  ultimately show ?thesis by (auto simp: h'_def ns'_def)
qed

section \<open>Construction chains every block\<close>

definition mp_partial :: "shm_mp_handler \<Rightarrow> nat \<Rightarrow> bool" where
  "mp_partial h i \<longleftrightarrow>
     int (length (shm_mp_nodes h)) = total_count (shm_mp h) \<and> i \<le> length (shm_mp_nodes h) \<and>
     (\<forall>j < i. node_idx (shm_mp_nodes h ! j) = int j \<and>
        shm_offset (shm_mp_nodes h ! j) = of_nat j * word_of_int (block_len (shm_mp h))) \<and>
     (\<forall>j. Suc j < i \<longrightarrow> next_node_idx (shm_mp_nodes h ! j) = int (Suc j)) \<and>
     (0 < i \<longrightarrow> free_header_idx (shm_mp h) = 0 \<and> free_tail_idx (shm_mp h) = int (i - 1))"

lemma mp_init_loop_ok:
  assumes "mp_partial h i" "i + n = length (shm_mp_nodes h)" "0 < i \<longrightarrow> cur = i - 1"
    and "off = of_nat i * word_of_int (block_len (shm_mp h))"
  shows "\<exists>h'. mp_init_loop n i cur off h = Ret h' \<and> mp_partial h' (i + n) \<and>
           length (shm_mp_nodes h') = length (shm_mp_nodes h) \<and> block_len (shm_mp h') = block_len (shm_mp h)
           \<and> shm_mem h' = shm_mem h \<and> total_count (shm_mp h') = total_count (shm_mp h)"
  using assms
proof (induction n arbitrary: i cur off h)
  case (Suc n)
  let ?ns = "shm_mp_nodes h"
  define node where "node = (?ns ! i)\<lparr>mn_column := 1, shm_offset := off, next_node_idx := - 1, node_idx := int i\<rparr>"
  define ns1 where "ns1 = ?ns[i := node]"
  define h3 where "h3 =
    (if i = 0 then h\<lparr>shm_mp_nodes := ns1, shm_mp := (shm_mp h)\<lparr>free_header_idx := 0, free_tail_idx := 0\<rparr>\<rparr>
     else h\<lparr>shm_mp_nodes := ns1[cur := (ns1 ! cur)\<lparr>next_node_idx := int i\<rparr>],
            shm_mp := (shm_mp h)\<lparr>free_tail_idx := int i\<rparr>\<rparr>)"
  have i: "i < length ?ns" using Suc.prems by simp
  have step: "mp_init_loop (Suc n) i cur off h =
      mp_init_loop n (Suc i) i (off + word_of_int (block_len (shm_mp h))) h3"
  proof (cases "i = 0")
    case True
    then show ?thesis using i by (simp add: node_at_def set_node_def node_def ns1_def h3_def)
  next
    case False
    then have "cur < length ?ns" using i Suc.prems(3) by simp
    with False i show ?thesis by (simp add: node_at_def set_node_def node_def ns1_def h3_def)
  qed
  have len: "length (shm_mp_nodes h3) = length ?ns" "block_len (shm_mp h3) = block_len (shm_mp h)"
    "shm_mem h3 = shm_mem h" "total_count (shm_mp h3) = total_count (shm_mp h)"
    by (simp_all add: h3_def ns1_def)
  have "mp_partial h3 (Suc i)"
  proof (cases "i = 0")
    case True
    then show ?thesis using Suc.prems i by (auto simp: mp_partial_def h3_def ns1_def node_def)
  next
    case False
    then show ?thesis using Suc.prems i
      by (auto simp: mp_partial_def h3_def ns1_def node_def nth_list_update less_Suc_eq)
  qed
  with Suc.IH [of h3 "Suc i" i "off + word_of_int (block_len (shm_mp h))"] Suc.prems len step
  show ?case by (auto simp: algebra_simps)
qed simp

lemma mp_partial_full:
  assumes "mp_partial h n" "n = length (shm_mp_nodes h)" "0 < n"
  shows "mp_ok h [0..<n]"
  using assms by (auto simp: mp_partial_def mp_ok_def hd_upt last_upt of_nat_diff Suc_le_eq)

lemma mp_fresh_ok:
  assumes "0 < count"
  shows "\<exists>h'. mp_fresh h len count = Ret h' \<and> mp_ok h' [0..<count] \<and>
           length (shm_mp_nodes h') = count \<and> block_len (shm_mp h') = int len \<and> shm_mem h' = shm_mem h
           \<and> total_count (shm_mp h') = int count"
proof -
  let ?h = "h\<lparr>shm_mp := \<lparr>mp_column = 1, total_count = int count, used_count = 0, block_len = int len,
                    free_header_idx = - 1, free_tail_idx = - 1, used_header_idx = - 1\<rparr>,
          shm_mp_nodes := replicate count zero_node\<rparr>"
  have "mp_partial ?h 0" by (simp add: mp_partial_def)
  from mp_init_loop_ok [OF this, of count 0 0] assms show ?thesis
    unfolding mp_fresh_def using mp_partial_full by fastforce
qed

section \<open>Use of the pool\<close>

text \<open>
  A user takes blocks while at least one other block stays free, and gives back blocks it holds.
  The second component lists the blocks in use.
\<close>

inductive pool_step :: "shm_mp_handler \<times> int list \<Rightarrow> shm_mp_handler \<times> int list \<Rightarrow> bool" where
  take_block: "shm_mp_malloc h = Ret (Some x, h') \<Longrightarrow> int (length used) + 2 \<le> total_count (shm_mp h) \<Longrightarrow>
     pool_step (h, used) (h', x # used)"
| give_block: "x \<in> set used \<Longrightarrow> shm_mp_free h x = Ret (SMP_OK, h') \<Longrightarrow>
     pool_step (h, used) (h', remove1 x used)"

definition pool_inv :: "nat \<Rightarrow> shm_mp_handler \<times> int list \<Rightarrow> bool" where
  "pool_inv n st \<longleftrightarrow> (\<exists>fq. mp_ok (fst st) fq \<and> length (shm_mp_nodes (fst st)) = n \<and>
     distinct (snd st) \<and> set (snd st) \<inter> int ` set fq = {} \<and> set (snd st) \<union> int ` set fq = int ` {..<n})"

lemma pool_count:
  assumes "distinct fq" "distinct used" "set used \<inter> int ` set fq = {}"
    and "set used \<union> int ` set fq = int ` {..<n}"
  shows "length fq + length used = n"
proof -
  have "card (set used \<union> int ` set fq) = card (set used) + card (int ` set fq)"
    using assms(3) by (intro card_Un_disjoint) auto
  then show ?thesis using assms by (simp add: distinct_card card_image)
qed

lemma pool_malloc:
  assumes "pool_inv n (h, used)" "int (length used) + 2 \<le> total_count (shm_mp h)"
  shows "\<exists>x h'. shm_mp_malloc h = Ret (Some x, h') \<and> x \<notin> set used \<and> 0 \<le> x \<and> x < int n \<and>
           pool_inv n (h', x # used) \<and> block_len (shm_mp h') = block_len (shm_mp h)"
proof -
  from assms(1) obtain fq where fq: "mp_ok h fq" "length (shm_mp_nodes h) = n" "distinct used"
    "set used \<inter> int ` set fq = {}" "set used \<union> int ` set fq = int ` {..<n}" by (auto simp: pool_inv_def)
  have "length fq + length used = n" using fq by (intro pool_count) (auto simp: mp_ok_def)
  moreover have "int n = total_count (shm_mp h)" using fq by (auto simp: mp_ok_def)
  ultimately have "2 \<le> length fq" using assms(2) by linarith
  then obtain x y fq' where f: "fq = x # y # fq'" by (cases fq; cases "tl fq") auto
  from mp_malloc_ok [OF fq(1) [unfolded f]] obtain h' where
    h': "shm_mp_malloc h = Ret (Some (int x), h')" "mp_ok h' (y # fq')"
      "length (shm_mp_nodes h') = length (shm_mp_nodes h)" "block_len (shm_mp h') = block_len (shm_mp h)" by blast
  have "x \<notin> set (y # fq')" using fq(1) f by (auto simp: mp_ok_def)
  have "int x \<in> int ` {..<n}" using fq(5) f by auto
  then have x: "int x \<notin> set used" "x < n" using fq(4) f by auto
  have "pool_inv n (h', int x # used)"
    unfolding pool_inv_def
  proof (intro exI [of _ "y # fq'"] conjI)
    show "set (snd (h', int x # used)) \<inter> int ` set (y # fq') = {}"
      using fq(4) f \<open>x \<notin> _\<close> by auto
    show "set (snd (h', int x # used)) \<union> int ` set (y # fq') = int ` {..<n}"
      using fq(5) f by auto
  qed (use h' fq x in auto)
  then show ?thesis using h'(1,4) x by auto
qed

lemma pool_free:
  assumes "pool_inv n (h, used)" "x \<in> set used"
  shows "\<exists>h'. shm_mp_free h x = Ret (SMP_OK, h') \<and> pool_inv n (h', remove1 x used) \<and>
           block_len (shm_mp h') = block_len (shm_mp h)"
proof -
  from assms(1) obtain fq where fq: "mp_ok h fq" "length (shm_mp_nodes h) = n" "distinct used"
    "set used \<inter> int ` set fq = {}" "set used \<union> int ` set fq = int ` {..<n}" by (auto simp: pool_inv_def)
  from assms(2) fq(5) obtain y where y: "x = int y" "y < n" by auto
  have "y \<notin> set fq" using fq(4) y assms(2) by auto
  from mp_free_ok [OF fq(1) _ this] y fq(2) obtain h' where
    h': "shm_mp_free h x = Ret (SMP_OK, h')" "mp_ok h' (fq @ [y])"
      "length (shm_mp_nodes h') = length (shm_mp_nodes h)" "block_len (shm_mp h') = block_len (shm_mp h)" by auto
  have "pool_inv n (h', remove1 x used)"
    unfolding pool_inv_def
  proof (intro exI [of _ "fq @ [y]"] conjI)
    show "set (snd (h', remove1 x used)) \<inter> int ` set (fq @ [y]) = {}"
      using fq(3,4) y by auto
    show "set (snd (h', remove1 x used)) \<union> int ` set (fq @ [y]) = int ` {..<n}"
      using fq(3,5) y assms(2) by auto
  qed (use h' fq in auto)
  with h'(1,4) show ?thesis by blast
qed

text \<open>The order in which the blocks in use are listed does not matter.\<close>

lemma pool_inv_set:
  "pool_inv n (h, used) \<Longrightarrow> distinct used' \<Longrightarrow> set used' = set used \<Longrightarrow> pool_inv n (h, used')"
  by (auto simp: pool_inv_def)

lemma pool_step_inv: "pool_step st st' \<Longrightarrow> pool_inv n st \<Longrightarrow> pool_inv n st'"
proof (induction rule: pool_step.induct)
  case (take_block h x h' used)
  then show ?case using pool_malloc [of n h used] by auto
next
  case (give_block x used h h')
  then show ?case using pool_free [of n h used x] by auto
qed

lemma pool_reachable: "pool_step\<^sup>*\<^sup>* st st' \<Longrightarrow> pool_inv n st \<Longrightarrow> pool_inv n st'"
  by (induction rule: rtranclp_induct) (auto intro: pool_step_inv)

lemma pool_inv_fresh:
  assumes "mp_fresh h len count = Ret h'" "0 < count"
  shows "pool_inv count (h', [])" "total_count (shm_mp h') = int count"
  using mp_fresh_ok [OF assms(2), of h len] assms(1)
  by (auto simp: pool_inv_def intro!: exI [of _ "[0..<count]"])

section \<open>Addresses and nodes\<close>

lemma addr_inverse:
  assumes "mp_ok h fq" "i < length (shm_mp_nodes h)" "length (shm_mp_nodes h) < 2 ^ 31"
    and "0 < block_len (shm_mp h)" "block_len (shm_mp h) < 2 ^ 31" "int d < block_len (shm_mp h)"
  shows "\<exists>off. shm_offset_mem h i = Ret off \<and> shm_mp_node_by_shmaddr h (off + of_nat d) = Ret (int i)"
proof -
  define b where "b = nat (block_len (shm_mp h))"
  have b: "0 < b" "b < 2 ^ 31" "d < b" "block_len (shm_mp h) = int b" using assms by (auto simp: b_def)
  have off: "shm_offset_mem h i = Ret (of_nat i * of_nat b)"
    using assms(1,2) by (auto simp: shm_offset_mem_def node_at_def mp_ok_def b(4))
  have "i * b + d < 2 ^ 64"
  proof -
    have "i * b + d \<le> i * b + b" using b by simp
    also have "\<dots> = Suc i * b" by simp
    also have "\<dots> \<le> 2 ^ 31 * 2 ^ 31" using assms(2,3) b by (intro mult_le_mono) auto
    finally show ?thesis by simp
  qed
  then have "unat (of_nat (i * b + d) :: u64) = i * b + d" by (subst unat_of_nat) simp
  then have u: "unat (of_nat i * of_nat b + of_nat d :: u64) = i * b + d" by simp
  have ub: "unat (of_nat b :: u64) = b" using b by (simp add: unat_of_nat)
  have "(i * b + d) div b = i" using b by simp
  then have "unat ((of_nat i * of_nat b + of_nat d) div of_nat b :: u64) = i"
    by (simp add: unat_div u ub)
  then have dv: "(of_nat i * of_nat b + of_nat d) div of_nat b = (of_nat i :: u64)"
    using assms(2,3) by (simp add: word_eq_iff_unat unat_of_nat)
  have s: "sint (ucast (of_nat i :: u64) :: u32) = int i"
  proof -
    have "ucast (of_nat i :: u64) = (of_nat i :: u32)"
      using assms(2,3) by (simp add: word_eq_iff_unat unsigned_ucast_eq unat_of_nat take_bit_eq_mod)
    then show ?thesis using assms(2,3) by (simp add: signed_of_nat signed_take_bit_int_eq_self)
  qed
  have "(of_nat b :: u64) \<noteq> 0" using ub b(1) by (metis unat_0 less_numeral_extra(3))
  then show ?thesis using off dv s by (simp add: shm_mp_node_by_shmaddr_def Let_def b(4))
qed

section \<open>Properties\<close>

definition demo_pool :: "nat \<Rightarrow> shm_mp_handler outcome" where
  "demo_pool n = mp_fresh \<lparr>shm_mp_name = ''p-mp'', sem_mutex_name = ''p-mutex'', shm_mem_name = ''p'',
     shm_mp = \<lparr>mp_column = 0, total_count = 0, used_count = 0, block_len = 0, free_header_idx = 0,
               free_tail_idx = 0, used_header_idx = 0\<rparr>, shm_mp_nodes = [], shm_mem = []\<rparr> 16 n"

lemmas mp_eval = demo_pool_def mp_fresh_def node_at_def set_node_def zero_node_def shm_mp_malloc_def
  shm_mp_free_def Let_def numeral_2_eq_2 numeral_3_eq_3



text \<open>
  An address inside a block leads back to the block's node: the division in
  \<^verbatim>\<open>shm_mp_node_by_shmaddr\<close> inverts \<^verbatim>\<open>shm_offset_mem\<close> for every offset into the block.
\<close>

theorem shm_addr_roundtrip:
  assumes "mp_ok h fq" "i < length (shm_mp_nodes h)" "length (shm_mp_nodes h) < 2 ^ 31"
    and "0 < block_len (shm_mp h)" "block_len (shm_mp h) < 2 ^ 31" "int d < block_len (shm_mp h)"
  shows "\<exists>off. shm_offset_mem h i = Ret off \<and> shm_mp_node_by_shmaddr h (off + of_nat d) = Ret (int i)"
  using assms by (rule addr_inverse)

theorem shm_addr_roundtrip_witness:
  "\<exists>h. demo_pool 3 = Ret h \<and>
     (\<exists>off. shm_offset_mem h 2 = Ret off \<and> shm_mp_node_by_shmaddr h (off + of_nat 5) = Ret (int 2))"
proof -
  obtain h where h: "demo_pool 3 = Ret h" by (simp add: mp_eval)
  moreover obtain h' where h': "demo_pool 3 = Ret h'" "mp_ok h' [0..<3]" "length (shm_mp_nodes h') = 3"
      "block_len (shm_mp h') = int 16"
    unfolding demo_pool_def by (metis mp_fresh_ok zero_less_numeral)
  ultimately have "mp_ok h [0..<3]" "length (shm_mp_nodes h) = 3" "block_len (shm_mp h) = int 16" by auto
  with shm_addr_roundtrip [of h "[0..<3]" 2 5] h show ?thesis by simp
qed


text \<open>
  A constructor call that fails after the data region was mapped leaves the mapping and
  the shared-memory name behind, and closes the descriptor of the data region a second time.
\<close>

theorem shm_mp_init_leak:
  assumes "os_handler os" "os_mem_name os" "os_mp_name os" "os_sem_name os" "length name \<le> 38"
    and "0 < os_mem_fd os" "os_mem_exists os \<or> os_mem_trunc os" "os_mem_map os = Some mem" "os_mp_fd os = - 1"
  shows "\<exists>cs. shm_mp_init os len count name (length name) = Ret (None, cs) \<and>
     held [] cs = [MP_map name, MP_name name] \<and>
     filter (\<lambda>c. c = Release (MP_fd (os_mem_fd os))) cs = replicate 2 (Release (MP_fd (os_mem_fd os)))"
  using assms
  by (auto simp: shm_mp_init_def mp_map_mem_def mp_map_pool_def mp_fail_def Let_def numeral_2_eq_2)

theorem shm_mp_init_leak_witness:
  "\<exists>cs. shm_mp_init \<lparr>os_handler = True, os_mem_name = True, os_mp_name = True, os_sem_name = True,
        os_mem_exists = False, os_mem_fd = 7, os_mem_trunc = True, os_mem_map = Some [], os_mp_exists = False,
        os_mp_fd = - 1, os_mp_trunc = True, os_mp_map = None, os_sem = True\<rparr> 256 64 ''nts'' (length ''nts'')
       = Ret (None, cs) \<and> held [] cs = [MP_map ''nts'', MP_name ''nts''] \<and>
     filter (\<lambda>c. c = Release (MP_fd 7)) cs = replicate 2 (Release (MP_fd 7))"
  using shm_mp_init_leak [of "\<lparr>os_handler = True, os_mem_name = True, os_mp_name = True, os_sem_name = True,
        os_mem_exists = False, os_mem_fd = 7, os_mem_trunc = True, os_mem_map = Some [], os_mp_exists = False,
        os_mp_fd = - 1, os_mp_trunc = True, os_mp_map = None, os_sem = True\<rparr>" "''nts''" "[]" 256 64]
  by simp

end
