(* ===== verification/Ntp2nts_Shm.thy ===== *)
theory Ntp2nts_Shm
  imports Shmring Shm_Mempool
begin

text \<open>
  \<^verbatim>\<open>libfdu-utils/ntp2nts_shm.c\<close>: the channel between the socket library and the proxy. Payload
  blocks come from a shared pool; what travels through the ring is the index of a block. A message
  pointer is the offset of its block in the data region of the pool. The calls that retry until the ring
  has room take the progress of the other process as an argument: before each further
  attempt it has removed (or added) the given elements, and a retry loop whose other side
  never moves again does not return. \<open>node_idxs_cache\<close> holds the indices its pointers refer to: a context
  serves one direction, so the pointers into the pool that \<^verbatim>\<open>ntp_shm_send_bulk\<close> leaves there are only read.
\<close>

section \<open>Data\<close>

datatype ntp_shm_stat = NTP_SHM_UNREADY | NTP_SHM_READY | NTP_SHM_CLOSE | NTP_SHM_UNLINK

record ntp_shm_context =
  shm_stat :: ntp_shm_stat
  ntsring_handle :: "shmring option"
  ctx_addr :: string
  slot_size :: nat
  node_idxs_cache :: "byte list list"
  max_lens :: "u64 list"
  mp_handler :: "shm_mp_handler option"

abbreviation NTP_MSG_IDX_SIZE :: u64 where "NTP_MSG_IDX_SIZE \<equiv> 4"

abbreviation NODE_IDX_SIZE :: u64 where "NODE_IDX_SIZE \<equiv> 4"

abbreviation DEFAULT_MAX_NUM_NTP_MSG :: nat where "DEFAULT_MAX_NUM_NTP_MSG \<equiv> 1024"

abbreviation RETRY_TIMES :: nat where "RETRY_TIMES \<equiv> 1000"

text \<open>An \<^verbatim>\<open>int\<close> in memory.\<close>

definition int_bytes :: "int \<Rightarrow> byte list" where
  "int_bytes i = le_enc 4 (unat (word_of_int i :: u32))"

definition bytes_int :: "byte list \<Rightarrow> int" where
  "bytes_int bs = sint (of_nat (le_dec bs) :: u32)"

definition get_ring :: "ntp_shm_context \<Rightarrow> shmring outcome" where
  "get_ring ctx = (case ntsring_handle ctx of None \<Rightarrow> Undef | Some s \<Rightarrow> Ret s)"

definition get_mp :: "ntp_shm_context \<Rightarrow> shm_mp_handler outcome" where
  "get_mp ctx = (case mp_handler ctx of None \<Rightarrow> Undef | Some h \<Rightarrow> Ret h)"

section \<open>Construction and destruction\<close>

definition ntp_shm :: "bool \<Rightarrow> nat \<Rightarrow> ntp_shm_context option" where
  "ntp_shm malloc_ok size0 =
     (if \<not> malloc_ok then None
      else Some \<lparr>shm_stat = NTP_SHM_UNREADY, ntsring_handle = None, ctx_addr = [], slot_size = size0,
                 node_idxs_cache = [], max_lens = [], mp_handler = None\<rparr>)"

datatype chan_res = R_ring shm_res | R_pool mp_res | R_idxs | R_values | R_lens | R_ctx

text \<open>The answers of the system to the ring, the three arrays and the pool.\<close>

record chan_os =
  os_ring :: shm_os
  os_idxs :: bool
  os_values :: bool
  os_lens :: bool
  os_pool :: mp_os

text \<open>
  The common text of \<^verbatim>\<open>ntp_shm_accept\<close> and \<^verbatim>\<open>ntp_shm_connect\<close>. The context comes from \<^verbatim>\<open>malloc\<close>:
  before they are assigned, the pointers the failure path tests are indeterminate, and freeing the array
  member \<^verbatim>\<open>shm_addr\<close> is undefined.
\<close>

definition ntp_shm_open ::
  "chan_os \<Rightarrow> bool \<Rightarrow> ntp_shm_context \<Rightarrow> string \<Rightarrow> u64 \<Rightarrow> (int \<times> ntp_shm_context \<times> chan_res os_call list) outcome"
where
  "ntp_shm_open os owner ctx addr len =
     bind_out (c_assert (0 < len)) (\<lambda>_.
     bind_out (memcpy (replicate 16 (CHR 0x00)) (addr @ [CHR 0x00]) (unat len)) (\<lambda>a.
     bind_out (shmring_init0 (os_ring os) a len NTP_MSG_IDX_SIZE (of_nat DEFAULT_MAX_NUM_NTP_MSG) owner)
       (\<lambda>(ring, cs).
     case ring of
       None \<Rightarrow> Undef
     | Some s \<Rightarrow>
         if \<not> os_idxs os \<or> \<not> os_values os \<or> \<not> os_lens os then Undef
         else if 29 < length addr + 3 then Undef
         else
           let acq = map (map_call R_ring) cs @ [Acquire R_idxs, Acquire R_values, Acquire R_lens];
               mp_name = addr @ ''-mp'' in
           bind_out (shm_mp_init (os_pool os) (slot_size ctx) (DEFAULT_MAX_NUM_NTP_MSG + 32) mp_name (length mp_name))
             (\<lambda>(mp, ds).
           case mp of
             None \<Rightarrow>
               Ret (- 1, ctx\<lparr>ctx_addr := a, ntsring_handle := None, node_idxs_cache := [], max_lens := [],
                              mp_handler := None\<rparr>,
                    acq @ map (map_call R_pool) ds @ [Release R_idxs, Release R_values, Release R_lens] @
                    map (map_call R_ring) (shmring_free s owner))
           | Some h \<Rightarrow>
               Ret (0, ctx\<lparr>ctx_addr := a, ntsring_handle := Some s,
                            node_idxs_cache := replicate (unat DEFAULT_MAX_BUFS) (int_bytes 0),
                            max_lens := replicate (unat DEFAULT_MAX_BUFS) 4, mp_handler := Some h,
                            shm_stat := NTP_SHM_READY\<rparr>,
                    acq @ map (map_call R_pool) ds)))))"

definition ntp_shm_accept ::
  "chan_os \<Rightarrow> ntp_shm_context \<Rightarrow> string \<Rightarrow> u64 \<Rightarrow> (int \<times> ntp_shm_context \<times> chan_res os_call list) outcome"
where
  "ntp_shm_accept os ctx addr len = ntp_shm_open os True ctx addr len"

definition ntp_shm_connect ::
  "chan_os \<Rightarrow> ntp_shm_context \<Rightarrow> string \<Rightarrow> u64 \<Rightarrow> (int \<times> ntp_shm_context \<times> chan_res os_call list) outcome"
where
  "ntp_shm_connect os ctx addr len = ntp_shm_open os False ctx addr len"

text \<open>The common text of \<^verbatim>\<open>ntp_shm_close\<close> and \<^verbatim>\<open>ntp_shm_nts_close\<close>.\<close>

definition ntp_shm_shut :: "bool \<Rightarrow> ntp_shm_context \<Rightarrow> ntp_shm_context \<times> chan_res os_call list" where
  "ntp_shm_shut unlink ctx =
     (ctx\<lparr>ntsring_handle := None, mp_handler := None\<rparr>,
      (case ntsring_handle ctx of None \<Rightarrow> [] | Some s \<Rightarrow> map (map_call R_ring) (shmring_free s unlink)) @
      (case mp_handler ctx of None \<Rightarrow> [] | Some h \<Rightarrow> map (map_call R_pool) (snd (shm_mp_destroy h unlink))))"

definition ntp_shm_close :: "ntp_shm_context \<Rightarrow> int \<times> ntp_shm_context \<times> chan_res os_call list" where
  "ntp_shm_close ctx = (case ntp_shm_shut True ctx of (c, cs) \<Rightarrow> (0, c\<lparr>shm_stat := NTP_SHM_UNLINK\<rparr>, cs))"

definition ntp_shm_nts_close :: "ntp_shm_context \<Rightarrow> int \<times> ntp_shm_context \<times> chan_res os_call list" where
  "ntp_shm_nts_close ctx = (case ntp_shm_shut False ctx of (c, cs) \<Rightarrow> (0, c\<lparr>shm_stat := NTP_SHM_CLOSE\<rparr>, cs))"

definition ntp_shm_destroy :: "ntp_shm_context \<Rightarrow> chan_res os_call list" where
  "ntp_shm_destroy ctx =
     (if node_idxs_cache ctx \<noteq> [] then [Release R_idxs, Release R_values] else []) @
     (if max_lens ctx \<noteq> [] then [Release R_lens] else []) @ [Release R_ctx]"

section \<open>Buffers\<close>

definition ntp_shm_ntpacket_alloc :: "ntp_shm_context \<Rightarrow> nat \<Rightarrow> (int \<times> u64 \<times> ntp_shm_context) outcome" where
  "ntp_shm_ntpacket_alloc ctx mtu_size =
     bind_out (c_assert (0 < mtu_size)) (\<lambda>_.
     bind_out (get_mp ctx) (\<lambda>mp.
     bind_out (shm_mp_malloc mp) (\<lambda>(node, mp').
     case node of
       None \<Rightarrow> Abort
     | Some ptr \<Rightarrow>
         bind_out (node_at mp' ptr) (\<lambda>n.
         bind_out (c_assert (0 \<le> node_idx n)) (\<lambda>_.
         bind_out (shm_offset_mem mp' (nat (node_idx n))) (\<lambda>off.
           Ret (SUCCESS, off, ctx\<lparr>mp_handler := Some mp'\<rparr>)))))))"

definition ntp_shm_ntpacket_free :: "ntp_shm_context \<Rightarrow> u64 \<Rightarrow> ntp_shm_context outcome" where
  "ntp_shm_ntpacket_free ctx buf =
     bind_out (get_mp ctx) (\<lambda>mp.
     bind_out (shm_mp_node_by_shmaddr mp buf) (\<lambda>ptr.
     bind_out (shm_mp_free mp ptr) (\<lambda>(_, mp'). Ret (ctx\<lparr>mp_handler := Some mp'\<rparr>))))"

section \<open>Single messages\<close>

text \<open>The other process removes \<open>n\<close> elements.\<close>

fun peer_pops :: "nat \<Rightarrow> shmring \<Rightarrow> shmring outcome" where
  "peer_pops 0 s = Ret s"
| "peer_pops (Suc n) s = bind_out (shmring_plain_pop s) (\<lambda>(_, s'). peer_pops n s')"

fun push_retry :: "nat list \<Rightarrow> shmring \<Rightarrow> byte list \<Rightarrow> (int \<times> shmring) outcome" where
  "push_retry [] s e =
     bind_out (shmring_push s e NODE_IDX_SIZE) (\<lambda>(ret, s'). if ret = SUCCESS then Ret (ret, s') else Spin)"
| "push_retry (k # env) s e =
     bind_out (shmring_push s e NODE_IDX_SIZE) (\<lambda>(ret, s').
     if ret = SUCCESS then Ret (ret, s')
     else bind_out (peer_pops k s') (\<lambda>s''. push_retry env s'' e))"

definition ntp_shm_send :: "nat list \<Rightarrow> ntp_shm_context \<Rightarrow> u64 \<Rightarrow> (int \<times> ntp_shm_context) outcome" where
  "ntp_shm_send env ctx buf =
     bind_out (get_mp ctx) (\<lambda>mp.
     bind_out (shm_mp_node_by_shmaddr mp buf) (\<lambda>ptr.
     bind_out (node_at mp ptr) (\<lambda>n.
     bind_out (get_ring ctx) (\<lambda>s.
     bind_out (push_retry env s (int_bytes (node_idx n))) (\<lambda>(ret, s').
       Ret (ret, ctx\<lparr>ntsring_handle := Some s'\<rparr>))))))"

text \<open>The other process adds the given elements, as far as they fit.\<close>

fun peer_pushes :: "byte list list \<Rightarrow> shmring \<Rightarrow> shmring outcome" where
  "peer_pushes [] s = Ret s"
| "peer_pushes (e # es) s = bind_out (shmring_push s e NODE_IDX_SIZE) (\<lambda>(_, s'). peer_pushes es s')"

text \<open>
  The loop of \<^verbatim>\<open>ntp_shm_recv\<close>: \<open>n\<close> more attempts are allowed after the current one. \<open>env\<close>
  is what the other side adds before each of them; it may stop.
\<close>

fun pop_retry :: "nat \<Rightarrow> byte list list list \<Rightarrow> shmring \<Rightarrow> byte list \<Rightarrow> (int \<times> byte list \<times> shmring) outcome" where
  "pop_retry 0 env s e = shmring_pop s e NODE_IDX_SIZE"
| "pop_retry (Suc n) env s e =
     bind_out (shmring_pop s e NODE_IDX_SIZE) (\<lambda>(ret, e', s').
     if ret = SUCCESS then Ret (ret, e', s')
     else bind_out (peer_pushes (if env = [] then [] else hd env) s') (\<lambda>s''. pop_retry n (tl env) s'' e'))"

text \<open>\<^verbatim>\<open>shm_offset_mem\<close> with the \<^verbatim>\<open>int\<close> read from the ring: a negative one becomes a huge \<^verbatim>\<open>size_t\<close>.\<close>

definition msg_at :: "shm_mp_handler \<Rightarrow> int \<Rightarrow> u64 outcome" where
  "msg_at mp i = (if i < 0 then Abort else shm_offset_mem mp (nat i))"

definition ntp_shm_recv ::
  "byte list list list \<Rightarrow> ntp_shm_context \<Rightarrow> (int \<times> u64 option \<times> ntp_shm_context) outcome"
where
  "ntp_shm_recv env ctx =
     bind_out (get_ring ctx) (\<lambda>s.
     bind_out (pop_retry (RETRY_TIMES + 1) env s (int_bytes (- 1))) (\<lambda>(ret, e, s').
     if ret \<noteq> SUCCESS then Ret (FAILED, None, ctx\<lparr>ntsring_handle := Some s'\<rparr>)
     else
       bind_out (get_mp ctx) (\<lambda>mp.
       bind_out (msg_at mp (bytes_int e)) (\<lambda>off.
         Ret (SUCCESS, Some off, ctx\<lparr>ntsring_handle := Some s'\<rparr>)))))"

definition ntp_shm_front :: "ntp_shm_context \<Rightarrow> (int \<times> u64 option) outcome" where
  "ntp_shm_front ctx =
     bind_out (get_ring ctx) (\<lambda>s.
     bind_out (shmring_front s (int_bytes (- 1)) NODE_IDX_SIZE) (\<lambda>(ret, e).
     if ret = SUCCESS then
       bind_out (get_mp ctx) (\<lambda>mp. bind_out (msg_at mp (bytes_int e)) (\<lambda>off. Ret (SUCCESS, Some off)))
     else Ret (FAILED, None)))"

definition ntp_shm_pop :: "ntp_shm_context \<Rightarrow> (int \<times> ntp_shm_context) outcome" where
  "ntp_shm_pop ctx =
     bind_out (get_ring ctx) (\<lambda>s.
     bind_out (shmring_plain_pop s) (\<lambda>(ret, s'). Ret (ret, ctx\<lparr>ntsring_handle := Some s'\<rparr>)))"

section \<open>Bulk messages\<close>

fun push_bulk_retry ::
  "nat list \<Rightarrow> shmring \<Rightarrow> byte list list \<Rightarrow> u64 list \<Rightarrow> u64 \<Rightarrow> (int \<times> shmring) outcome"
where
  "push_bulk_retry [] s es lens n =
     bind_out (shmring_push_bulk s es lens n) (\<lambda>(rc, s'). if rc = SUCCESS then Ret (rc, s') else Spin)"
| "push_bulk_retry (k # env) s es lens n =
     bind_out (shmring_push_bulk s es lens n) (\<lambda>(rc, s').
     if rc = SUCCESS then Ret (rc, s')
     else bind_out (peer_pops k s') (\<lambda>s''. push_bulk_retry env s'' es lens n))"

text \<open>The loop that looks up the node of every message and enters it into the cache.\<close>

fun cache_nodes :: "shm_mp_handler \<Rightarrow> byte list list \<Rightarrow> nat \<Rightarrow> u64 list \<Rightarrow> byte list list outcome" where
  "cache_nodes mp cache i [] = Ret cache"
| "cache_nodes mp cache i (buf # bulk) =
     bind_out (shm_mp_node_by_shmaddr mp buf) (\<lambda>ptr.
     bind_out (node_at mp ptr) (\<lambda>n.
     bind_out (array_set cache i (int_bytes (node_idx n))) (\<lambda>cache'. cache_nodes mp cache' (Suc i) bulk)))"

definition ntp_shm_send_bulk ::
  "nat list \<Rightarrow> ntp_shm_context \<Rightarrow> u64 list \<Rightarrow> (int \<times> ntp_shm_context) outcome"
where
  "ntp_shm_send_bulk env ctx bulk =
     bind_out (c_assert (bulk \<noteq> [])) (\<lambda>_.
     bind_out (get_mp ctx) (\<lambda>mp.
     bind_out (cache_nodes mp (node_idxs_cache ctx) 0 bulk) (\<lambda>cache.
     bind_out (get_ring ctx) (\<lambda>s.
     bind_out (push_bulk_retry env s cache (max_lens ctx) (of_nat (length bulk))) (\<lambda>(rc, s').
       Ret (rc, ctx\<lparr>ntsring_handle := Some s', node_idxs_cache := cache\<rparr>))))))"

fun msgs_at :: "shm_mp_handler \<Rightarrow> byte list list \<Rightarrow> u64 list outcome" where
  "msgs_at mp [] = Ret []"
| "msgs_at mp (e # es) =
     bind_out (msg_at mp (bytes_int e)) (\<lambda>off. bind_out (msgs_at mp es) (\<lambda>offs. Ret (off # offs)))"

definition ntp_shm_recv_bulk ::
  "ntp_shm_context \<Rightarrow> u64 \<Rightarrow> (u64 \<times> u64 list \<times> ntp_shm_context) outcome"
where
  "ntp_shm_recv_bulk ctx bulk_size =
     bind_out (c_assert (0 < bulk_size)) (\<lambda>_.
     bind_out (get_ring ctx) (\<lambda>s.
     bind_out (shmring_pop_bulk s (node_idxs_cache ctx) (max_lens ctx) bulk_size) (\<lambda>(recv_cnt, cache, s').
     let ctx' = ctx\<lparr>ntsring_handle := Some s', node_idxs_cache := cache\<rparr> in
     if recv_cnt \<noteq> - 1 then
       bind_out (get_mp ctx) (\<lambda>mp.
       bind_out (msgs_at mp (take (unat recv_cnt) cache)) (\<lambda>bulk. Ret (recv_cnt, bulk, ctx')))
     else Ret (recv_cnt, [], ctx'))))"

definition ntp_shm_send_bulk_idx ::
  "nat list \<Rightarrow> ntp_shm_context \<Rightarrow> byte list list \<Rightarrow> u64 list \<Rightarrow> u64 \<Rightarrow> (int \<times> ntp_shm_context) outcome"
where
  "ntp_shm_send_bulk_idx env ctx node_idxs idx_lens bulk_size =
     bind_out (c_assert (0 < bulk_size)) (\<lambda>_.
     bind_out (get_ring ctx) (\<lambda>s.
     bind_out (push_bulk_retry env s node_idxs idx_lens bulk_size) (\<lambda>(rc, s').
       Ret (rc, ctx\<lparr>ntsring_handle := Some s'\<rparr>))))"

definition ntp_shm_recv_bulk_idx ::
  "ntp_shm_context \<Rightarrow> byte list list \<Rightarrow> u64 list \<Rightarrow> u64 \<Rightarrow> (u64 \<times> byte list list \<times> ntp_shm_context) outcome"
where
  "ntp_shm_recv_bulk_idx ctx node_idxs lens bulk_size =
     bind_out (c_assert (0 < bulk_size)) (\<lambda>_.
     bind_out (get_ring ctx) (\<lambda>s.
     bind_out (shmring_pop_bulk s node_idxs lens bulk_size) (\<lambda>(recv_cnt, node_idxs', s').
       Ret (recv_cnt, node_idxs', ctx\<lparr>ntsring_handle := Some s'\<rparr>))))"

section \<open>Sending waits for the other side\<close>

lemma int_bytes_length [simp]: "length (int_bytes i) = 4"
  by (simp add: int_bytes_def)

lemma bytes_int_bytes: "- (2 ^ 31) \<le> i \<Longrightarrow> i < 2 ^ 31 \<Longrightarrow> bytes_int (int_bytes i) = i"
proof -
  assume i: "- (2 ^ 31) \<le> i" "i < 2 ^ 31"
  have "unat (word_of_int i :: u32) < 256 ^ 4" using unsigned_less [of "word_of_int i :: u32"] by simp
  then have "bytes_int (int_bytes i) = sint (word_of_int i :: u32)"
    by (simp add: bytes_int_def int_bytes_def)
  also have "\<dots> = i" using i by (simp add: signed_of_int signed_take_bit_int_eq_self)
  finally show ?thesis .
qed

text \<open>A ring that carries block indices.\<close>

definition idx_ring :: "shmring \<Rightarrow> bool" where
  "idx_ring s \<longleftrightarrow> shmring_inv s \<and> ele_size s = 4"

lemma clamp_4 [simp]: "clamp_len 4 4 = 4"
  by (simp add: clamp_len_def)

lemma peer_pops_ok:
  "idx_ring s \<Longrightarrow> \<exists>s'. peer_pops n s = Ret s' \<and> idx_ring s' \<and>
     shmring_contents s' = drop n (shmring_contents s) \<and> capacity s' = capacity s"
proof (induction n arbitrary: s)
  case (Suc n)
  show ?case
  proof (cases "shmring_contents s")
    case Nil
    then have "shmring_plain_pop s = Ret (- 1, s)"
      using Suc.prems shmring_pop_none(2) [of s] by (simp add: idx_ring_def)
    with Suc Nil show ?thesis by force
  next
    case (Cons x xs)
    with Suc.prems shmring_pop_some [of s x xs "ele_size s" "replicate (unat (ele_size s)) 0"] obtain s1 where
      "shmring_plain_pop s = Ret (0, s1)" "idx_ring s1" "shmring_contents s1 = xs" "capacity s1 = capacity s"
      by (auto simp: idx_ring_def)
    with Suc.IH [of s1] Cons show ?thesis by auto
  qed
qed simp

lemma idx_push_room:
  assumes "idx_ring s" "length e = 4" "length (shmring_contents s) < unat (capacity s) - 1"
  shows "\<exists>s'. shmring_push s e 4 = Ret (SUCCESS, s') \<and> idx_ring s' \<and>
     shmring_contents s' = shmring_contents s @ [e] \<and> capacity s' = capacity s"
proof -
  have "length (data_area (queue s) ! unat (write_idx (queue s))) = 4"
    using assms(1) by (auto simp: idx_ring_def shmring_inv_def)
  with assms show ?thesis
    by (auto simp: idx_ring_def elim!: shmring_push_room [of s 4 e])
qed

lemma push_retry_room:
  assumes "idx_ring s" "length e = 4" "length (shmring_contents s) < unat (capacity s) - 1"
  shows "\<exists>s'. push_retry env s e = Ret (SUCCESS, s') \<and> idx_ring s' \<and>
     shmring_contents s' = shmring_contents s @ [e] \<and> capacity s' = capacity s"
  using idx_push_room [OF assms] by (cases env) auto

lemma push_retry_full:
  assumes "idx_ring s" "length e = 4" "length (shmring_contents s) = unat (capacity s) - 1"
  shows "if \<forall>k \<in> set env. k = 0 then push_retry env s e = Spin
         else 1 < unat (capacity s) \<longrightarrow>
           (\<exists>k s'. 0 < k \<and> k \<in> set env \<and> push_retry env s e = Ret (SUCCESS, s') \<and> idx_ring s' \<and>
              shmring_contents s' = drop k (shmring_contents s) @ [e] \<and> capacity s' = capacity s)"
  using assms
proof (induction env arbitrary: s)
  case Nil
  then show ?case by (simp add: shmring_push_full idx_ring_def)
next
  case (Cons k env)
  have full: "shmring_push s e 4 = Ret (FAILED, s)"
    using Cons.prems by (simp add: shmring_push_full idx_ring_def)
  from peer_pops_ok [OF Cons.prems(1), of k] obtain s1 where s1: "peer_pops k s = Ret s1" "idx_ring s1"
    "shmring_contents s1 = drop k (shmring_contents s)" "capacity s1 = capacity s" by blast
  then have step: "push_retry (k # env) s e = push_retry env s1 e" using full by simp
  show ?case
  proof (cases "k = 0")
    case True
    then have "s1 = s" using s1(1) by simp
    show ?thesis
    proof (cases "\<forall>k \<in> set env. k = 0")
      case True
      then show ?thesis using Cons.IH [OF Cons.prems] \<open>k = 0\<close> step \<open>s1 = s\<close> by (simp del: push_retry.simps)
    next
      case False
      then have "1 < unat (capacity s) \<longrightarrow>
           (\<exists>k s'. 0 < k \<and> k \<in> set env \<and> push_retry env s e = Ret (SUCCESS, s') \<and> idx_ring s' \<and>
              shmring_contents s' = drop k (shmring_contents s) @ [e] \<and> capacity s' = capacity s)"
        using Cons.IH [OF Cons.prems] by meson
      then show ?thesis unfolding step \<open>s1 = s\<close> using False by (metis insert_iff list.simps(15))
    qed
  next
    case False
    show ?thesis
    proof (cases "1 < unat (capacity s)")
      case True
      with False Cons.prems s1 have "length (shmring_contents s1) < unat (capacity s1) - 1" by simp
      with push_retry_room [OF s1(2) Cons.prems(2) this, of env] s1 step False show ?thesis by auto
    qed (use False in auto)
  qed
qed

section \<open>Ownership of the payload blocks\<close>

text \<open>
  The blocks of the pool move from the free list to the sender, through the ring to the receiver and
  back to the free list. \<open>ch_sent\<close> and \<open>ch_recv\<close> record the messages handed over and delivered.
\<close>

record chan =
  ch_ctx :: ntp_shm_context
  ch_sender :: "u64 list"
  ch_receiver :: "u64 list"
  ch_sent :: "u64 list"
  ch_recv :: "u64 list"

definition ring_load :: "ntp_shm_context \<Rightarrow> nat" where
  "ring_load ctx = (case ntsring_handle ctx of None \<Rightarrow> 0 | Some s \<Rightarrow> length (shmring_contents s))"

definition pool_size :: "ntp_shm_context \<Rightarrow> int" where
  "pool_size ctx = (case mp_handler ctx of None \<Rightarrow> 0 | Some h \<Rightarrow> total_count (shm_mp h))"

inductive chan_step :: "chan \<Rightarrow> chan \<Rightarrow> bool" where
  alloc: "ntp_shm_ntpacket_alloc (ch_ctx c) mtu = Ret (SUCCESS, off, ctx') \<Longrightarrow>
     int (length (ch_sender c) + ring_load (ch_ctx c) + length (ch_receiver c)) + 2 \<le> pool_size (ch_ctx c) \<Longrightarrow>
     chan_step c (c\<lparr>ch_ctx := ctx', ch_sender := off # ch_sender c\<rparr>)"
| send: "off \<in> set (ch_sender c) \<Longrightarrow> ntp_shm_send [] (ch_ctx c) off = Ret (SUCCESS, ctx') \<Longrightarrow>
     chan_step c (c\<lparr>ch_ctx := ctx', ch_sender := remove1 off (ch_sender c), ch_sent := ch_sent c @ [off]\<rparr>)"
| recv: "ntp_shm_recv [] (ch_ctx c) = Ret (SUCCESS, Some off, ctx') \<Longrightarrow>
     chan_step c (c\<lparr>ch_ctx := ctx', ch_receiver := off # ch_receiver c, ch_recv := ch_recv c @ [off]\<rparr>)"
| free: "off \<in> set (ch_receiver c) \<Longrightarrow> ntp_shm_ntpacket_free (ch_ctx c) off = Ret ctx' \<Longrightarrow>
     chan_step c (c\<lparr>ch_ctx := ctx', ch_receiver := remove1 off (ch_receiver c)\<rparr>)"

text \<open>The address of block \<open>i\<close> and the indices in the ring.\<close>

definition blk :: "shm_mp_handler \<Rightarrow> int \<Rightarrow> u64" where
  "blk h i = word_of_int i * word_of_int (block_len (shm_mp h))"

definition ring_idx :: "shmring \<Rightarrow> int list" where
  "ring_idx s = map bytes_int (shmring_contents s)"

definition chan_inv :: "nat \<Rightarrow> shmring \<Rightarrow> shm_mp_handler \<Rightarrow> int list \<Rightarrow> int list \<Rightarrow> chan \<Rightarrow> bool" where
  "chan_inv n s h xs ys c \<longleftrightarrow>
     ntsring_handle (ch_ctx c) = Some s \<and> mp_handler (ch_ctx c) = Some h \<and> idx_ring s \<and>
     n < 2 ^ 31 \<and> 0 < block_len (shm_mp h) \<and> block_len (shm_mp h) < 2 ^ 31 \<and>
     pool_inv n (h, xs @ ring_idx s @ ys) \<and> ch_sender c = map (blk h) xs \<and> ch_receiver c = map (blk h) ys \<and>
     (\<forall>e \<in> set (shmring_contents s). int_bytes (bytes_int e) = e) \<and>
     ch_sent c = ch_recv c @ map (blk h) (ring_idx s)"

text \<open>Blocks in use lie in the pool; addresses lead back to them.\<close>

lemma pool_inv_distinct: "pool_inv n (h, used) \<Longrightarrow> distinct used"
  by (auto simp: pool_inv_def)

lemma pool_used_bound:
  assumes "pool_inv n (h, used)" "x \<in> set used"
  shows "0 \<le> x \<and> x < int n"
proof -
  from assms(1) obtain fq where "set used \<union> int ` set fq = int ` {..<n}" by (auto simp: pool_inv_def)
  with assms(2) have "x \<in> int ` {..<n}" by blast
  then show ?thesis by auto
qed

lemma pool_addr:
  assumes "pool_inv n (h, used)" "0 \<le> x" "x < int n" "n < 2 ^ 31"
    and "0 < block_len (shm_mp h)" "block_len (shm_mp h) < 2 ^ 31"
  shows "msg_at h x = Ret (blk h x)" "shm_mp_node_by_shmaddr h (blk h x) = Ret x"
    "\<exists>node. node_at h x = Ret node \<and> node_idx node = x"
proof -
  from assms(1) obtain fq where mp: "mp_ok h fq" "length (shm_mp_nodes h) = n" by (auto simp: pool_inv_def)
  from assms(2,3) obtain i where i: "x = int i" "i < n" by (metis int_nat_eq nat_less_iff)
  have off: "shm_offset_mem h i = Ret (blk h x)"
    using mp i by (auto simp: shm_offset_mem_def node_at_def mp_ok_def blk_def)
  then show "msg_at h x = Ret (blk h x)" using i by (simp add: msg_at_def)
  from addr_inverse [OF mp(1), of i 0] off i mp assms show "shm_mp_node_by_shmaddr h (blk h x) = Ret x" by simp
  show "\<exists>node. node_at h x = Ret node \<and> node_idx node = x"
    using mp i by (auto simp: node_at_def mp_ok_def)
qed

lemma blk_inj:
  assumes "pool_inv n (h, used)" "n < 2 ^ 31" "0 < block_len (shm_mp h)" "block_len (shm_mp h) < 2 ^ 31"
  shows "inj_on (blk h) {0..<int n}"
proof (rule inj_onI)
  fix x y assume "x \<in> {0..<int n}" "y \<in> {0..<int n}" "blk h x = blk h y"
  then show "x = y" using pool_addr(2) [OF assms(1) _ _ assms(2-4)] by (metis atLeastLessThan_iff outcome.inject)
qed

lemma remove1_map_inj:
  assumes "inj_on f A" "x \<in> A" "set xs \<subseteq> A"
  shows "remove1 (f x) (map f xs) = map f (remove1 x xs)"
  using assms by (induction xs) (auto simp: inj_on_eq_iff)

text \<open>Receiving from a quiet ring: the first attempt decides.\<close>

lemma pop_retry_some:
  assumes "idx_ring s" "shmring_contents s = x # xs" "length e = 4"
  shows "\<exists>s'. pop_retry n env s e = Ret (SUCCESS, x, s') \<and> idx_ring s' \<and> shmring_contents s' = xs
    \<and> capacity s' = capacity s"
proof -
  have inv: "shmring_inv s" and es: "ele_size s = 4" using assms(1) by (auto simp: idx_ring_def)
  have "length x = 4" using shmring_nonempty(2) [OF inv assms(2)] inv es by (auto simp: shmring_inv_def)
  with shmring_pop_some [OF inv assms(2), of 4 e] assms(3) es obtain s' where
    "shmring_pop s e 4 = Ret (SUCCESS, x, s')" "shmring_inv s'" "shmring_contents s' = xs"
    "capacity s' = capacity s" "ele_size s' = 4" by auto
  then show ?thesis by (cases n) (auto simp: idx_ring_def)
qed

lemma pop_retry_quiet:
  assumes "idx_ring s" "shmring_contents s = []"
  shows "pop_retry n [] s e = Ret (FAILED, e, s)"
proof -
  have "shmring_pop s e 4 = Ret (FAILED, e, s)"
    using assms by (simp add: idx_ring_def shmring_pop_none)
  then show ?thesis by (induction n) simp_all
qed

lemma chan_alloc:
  assumes inv: "chan_inv n s h xs ys c" and al: "ntp_shm_ntpacket_alloc (ch_ctx c) mtu = Ret (SUCCESS, off, ctx')"
    and g: "int (length (ch_sender c) + ring_load (ch_ctx c) + length (ch_receiver c)) + 2 \<le> pool_size (ch_ctx c)"
  shows "\<exists>h' x. chan_inv n s h' (x # xs) ys (c\<lparr>ch_ctx := ctx', ch_sender := off # ch_sender c\<rparr>)"
proof -
  have i: "ntsring_handle (ch_ctx c) = Some s" "mp_handler (ch_ctx c) = Some h" "n < 2 ^ 31"
    "0 < block_len (shm_mp h)" "block_len (shm_mp h) < 2 ^ 31" "pool_inv n (h, xs @ ring_idx s @ ys)"
    using inv by (auto simp: chan_inv_def)
  have "int (length (xs @ ring_idx s @ ys)) + 2 \<le> total_count (shm_mp h)"
    using g inv by (simp add: chan_inv_def ring_load_def pool_size_def ring_idx_def)
  from pool_malloc [OF i(6) this] obtain x h' where h': "shm_mp_malloc h = Ret (Some x, h')" "0 \<le> x" "x < int n"
    "pool_inv n (h', x # xs @ ring_idx s @ ys)" "block_len (shm_mp h') = block_len (shm_mp h)" by blast
  note ad = pool_addr [OF h'(4) h'(2,3) i(3), unfolded h'(5), OF i(4,5)]
  then obtain node where "node_at h' x = Ret node" "node_idx node = x" by blast
  with h' ad(1) al i(2) have "off = blk h' x" "ctx' = (ch_ctx c)\<lparr>mp_handler := Some h'\<rparr>"
    by (auto simp: ntp_shm_ntpacket_alloc_def get_mp_def msg_at_def)
  moreover have "blk h' = blk h" using h'(5) by (auto simp: blk_def)
  ultimately have "chan_inv n s h' (x # xs) ys (c\<lparr>ch_ctx := ctx', ch_sender := off # ch_sender c\<rparr>)"
    using inv h' by (auto simp: chan_inv_def)
  then show ?thesis by blast
qed

lemma chan_send:
  assumes inv: "chan_inv n s h xs ys c" and m: "off \<in> set (ch_sender c)"
    and sd: "ntp_shm_send [] (ch_ctx c) off = Ret (SUCCESS, ctx')"
  shows "\<exists>s' xs'. chan_inv n s' h xs' ys
    (c\<lparr>ch_ctx := ctx', ch_sender := remove1 off (ch_sender c), ch_sent := ch_sent c @ [off]\<rparr>)"
proof -
  have i: "ntsring_handle (ch_ctx c) = Some s" "mp_handler (ch_ctx c) = Some h" "n < 2 ^ 31"
    "0 < block_len (shm_mp h)" "block_len (shm_mp h) < 2 ^ 31" "pool_inv n (h, xs @ ring_idx s @ ys)"
    "idx_ring s" "ch_sender c = map (blk h) xs"
    using inv by (auto simp: chan_inv_def)
  from m i(8) obtain x where x: "x \<in> set xs" "off = blk h x" by auto
  have xb: "0 \<le> x" "x < int n" using pool_used_bound [OF i(6), of x] x by auto
  note ad = pool_addr [OF i(6) xb i(3-5)]
  then obtain node where node: "node_at h x = Ret node" "node_idx node = x" by blast
  from sd x(2) ad(2) node i(1,2) obtain s' where s': "push_retry [] s (int_bytes x) = Ret (SUCCESS, s')"
    "ctx' = (ch_ctx c)\<lparr>ntsring_handle := Some s'\<rparr>"
    by (auto simp: ntp_shm_send_def get_mp_def get_ring_def simp del: push_retry.simps)
  have room: "length (shmring_contents s) < unat (capacity s) - 1"
    using push_retry_full [OF i(7), of "int_bytes x" "[]"] s'(1) shmring_contents_length [of s] i(7)
    by (fastforce simp: idx_ring_def simp del: push_retry.simps)
  with push_retry_room [OF i(7), of "int_bytes x" "[]"] s'(1)
  have c': "idx_ring s'" "shmring_contents s' = shmring_contents s @ [int_bytes x]"
    by (auto simp del: push_retry.simps)
  have bx: "bytes_int (int_bytes x) = x" using xb i(3) by (intro bytes_int_bytes) auto
  then have rx: "ring_idx s' = ring_idx s @ [x]" by (simp add: ring_idx_def c')
  have d: "distinct (xs @ ring_idx s @ ys)" using i(6) by (rule pool_inv_distinct)
  have "pool_inv n (h, remove1 x xs @ ring_idx s' @ ys)"
    by (rule pool_inv_set [OF i(6)]) (use d x(1) rx in \<open>auto simp: set_remove1_eq\<close>)
  moreover have "remove1 off (map (blk h) xs) = map (blk h) (remove1 x xs)"
    unfolding x(2) by (rule remove1_map_inj [OF blk_inj [OF i(6) i(3-5)]])
      (use pool_used_bound [OF i(6)] xb in auto)
  ultimately have "chan_inv n s' h (remove1 x xs) ys
    (c\<lparr>ch_ctx := ctx', ch_sender := remove1 off (ch_sender c), ch_sent := ch_sent c @ [off]\<rparr>)"
    using inv c' s'(2) rx x(2) bx by (auto simp: chan_inv_def)
  then show ?thesis by blast
qed

lemma chan_recv:
  assumes inv: "chan_inv n s h xs ys c" and rc: "ntp_shm_recv [] (ch_ctx c) = Ret (SUCCESS, Some off, ctx')"
  shows "\<exists>s' y. chan_inv n s' h xs (y # ys)
    (c\<lparr>ch_ctx := ctx', ch_receiver := off # ch_receiver c, ch_recv := ch_recv c @ [off]\<rparr>)"
proof -
  have i: "ntsring_handle (ch_ctx c) = Some s" "mp_handler (ch_ctx c) = Some h" "n < 2 ^ 31"
    "0 < block_len (shm_mp h)" "block_len (shm_mp h) < 2 ^ 31" "pool_inv n (h, xs @ ring_idx s @ ys)"
    "idx_ring s" using inv by (auto simp: chan_inv_def)
  obtain e es where e: "shmring_contents s = e # es"
  proof (cases "shmring_contents s")
    case Nil
    from pop_retry_quiet [OF i(7) this] rc i(1) show thesis
      by (simp add: ntp_shm_recv_def get_ring_def)
  qed (use that in blast)
  from pop_retry_some [OF i(7) e] obtain s' where s': "pop_retry (RETRY_TIMES + 1) [] s (int_bytes (- 1)) = Ret (SUCCESS, e, s')"
    "idx_ring s'" "shmring_contents s' = es" by (metis int_bytes_length)
  let ?y = "bytes_int e"
  have rx: "ring_idx s = ?y # ring_idx s'" by (simp add: ring_idx_def e s')
  have yb: "0 \<le> ?y" "?y < int n" using pool_used_bound [OF i(6), of ?y] rx by auto
  note ad = pool_addr(1) [OF i(6) yb i(3-5)]
  have o: "off = blk h ?y" "ctx' = (ch_ctx c)\<lparr>ntsring_handle := Some s'\<rparr>"
    using rc s'(1) ad i(1,2) by (auto simp: ntp_shm_recv_def get_ring_def get_mp_def)
  have d: "distinct (xs @ ring_idx s @ ys)" using i(6) by (rule pool_inv_distinct)
  have "pool_inv n (h, xs @ ring_idx s' @ ?y # ys)"
    by (rule pool_inv_set [OF i(6)]) (use d rx in auto)
  then have "chan_inv n s' h xs (?y # ys)
    (c\<lparr>ch_ctx := ctx', ch_receiver := off # ch_receiver c, ch_recv := ch_recv c @ [off]\<rparr>)"
    using inv s' o rx e by (auto simp: chan_inv_def)
  then show ?thesis by blast
qed

lemma chan_free:
  assumes inv: "chan_inv n s h xs ys c" and m: "off \<in> set (ch_receiver c)"
    and fr: "ntp_shm_ntpacket_free (ch_ctx c) off = Ret ctx'"
  shows "\<exists>h' ys'. chan_inv n s h' xs ys' (c\<lparr>ch_ctx := ctx', ch_receiver := remove1 off (ch_receiver c)\<rparr>)"
proof -
  have i: "mp_handler (ch_ctx c) = Some h" "n < 2 ^ 31"
    "0 < block_len (shm_mp h)" "block_len (shm_mp h) < 2 ^ 31" "pool_inv n (h, xs @ ring_idx s @ ys)"
    "ch_receiver c = map (blk h) ys" using inv by (auto simp: chan_inv_def)
  from m i(6) obtain y where y: "y \<in> set ys" "off = blk h y" by auto
  have yb: "0 \<le> y" "y < int n" using pool_used_bound [OF i(5), of y] y by auto
  note ad = pool_addr(2) [OF i(5) yb i(2-4)]
  from pool_free [OF i(5), of y] y(1) obtain h' where h': "shm_mp_free h y = Ret (SMP_OK, h')"
    "pool_inv n (h', remove1 y (xs @ ring_idx s @ ys))" "block_len (shm_mp h') = block_len (shm_mp h)" by auto
  have c': "ctx' = (ch_ctx c)\<lparr>mp_handler := Some h'\<rparr>"
    using fr i(1) ad y(2) h'(1) by (simp add: ntp_shm_ntpacket_free_def get_mp_def)
  have d: "distinct (xs @ ring_idx s @ ys)" using i(5) by (rule pool_inv_distinct)
  have "pool_inv n (h', xs @ ring_idx s @ remove1 y ys)"
    by (rule pool_inv_set [OF h'(2)]) (use d y(1) in \<open>auto simp: set_remove1_eq\<close>)
  moreover have "remove1 off (map (blk h) ys) = map (blk h) (remove1 y ys)"
    unfolding y(2) by (rule remove1_map_inj [OF blk_inj [OF i(5) i(2-4)]])
      (use pool_used_bound [OF i(5)] yb in auto)
  moreover have "blk h' = blk h" using h'(3) by (auto simp: blk_def)
  ultimately have "chan_inv n s h' xs (remove1 y ys) (c\<lparr>ch_ctx := ctx', ch_receiver := remove1 off (ch_receiver c)\<rparr>)"
    using inv c' h'(3) by (auto simp: chan_inv_def)
  then show ?thesis by blast
qed

lemma chan_step_inv:
  "chan_step c c' \<Longrightarrow> \<exists>s h xs ys. chan_inv n s h xs ys c \<Longrightarrow> \<exists>s h xs ys. chan_inv n s h xs ys c'"
proof (induction rule: chan_step.induct)
  case alloc then show ?case using chan_alloc by blast
next
  case send then show ?case using chan_send by blast
next
  case recv then show ?case using chan_recv by blast
next
  case free then show ?case using chan_free by blast
qed

lemma chan_reachable:
  "chan_step\<^sup>*\<^sup>* c c' \<Longrightarrow> \<exists>s h xs ys. chan_inv n s h xs ys c \<Longrightarrow> \<exists>s h xs ys. chan_inv n s h xs ys c'"
  by (induction rule: rtranclp_induct) (blast, metis chan_step_inv)

section \<open>Properties\<close>

definition in_flight :: "ntp_shm_context \<Rightarrow> u64 list" where
  "in_flight ctx = (case (ntsring_handle ctx, mp_handler ctx) of
      (Some s, Some h) \<Rightarrow> map (blk h) (ring_idx s) | _ \<Rightarrow> [])"

definition chan_start :: "ntp_shm_context \<Rightarrow> chan" where
  "chan_start ctx = \<lparr>ch_ctx = ctx, ch_sender = [], ch_receiver = [], ch_sent = [], ch_recv = []\<rparr>"


definition demo_idx_ring :: "u64 \<Rightarrow> shmring" where
  "demo_idx_ring w = \<lparr>shm_fd = - 1, addrlen = 2, ele_size = 4, capacity = 2, queue_size = 28, peer_read_idx = 0,
     shm_addr = ''c'', queue = \<lparr>write_idx = w, read_idx = 0, data_area = [[1, 0, 0, 0], [0, 0, 0, 0]]\<rparr>\<rparr>"

definition demo_ctx :: "shm_mp_handler \<Rightarrow> ntp_shm_context" where
  "demo_ctx h = \<lparr>shm_stat = NTP_SHM_READY, ntsring_handle = Some (demo_idx_ring 0), ctx_addr = ''c'', slot_size = 16,
     node_idxs_cache = [], max_lens = [], mp_handler = Some h\<rparr>"


text \<open>
  C18: a send returns as soon as the receiver takes anything. With room in the ring the message is
  appended at once; a send into a full ring succeeds, in order, whenever the receiver removes
  at least one element before some retry, and spins forever exactly when it never does.
\<close>

theorem ntp_send_progress:
  assumes "shmring_inv s" "ele_size s = 4" "1 < unat (capacity s)" "length e = 4"
  shows "if length (shmring_contents s) = unat (capacity s) - 1 \<and> (\<forall>k \<in> set env. k = 0)
         then push_retry env s e = Spin
         else \<exists>k s'. push_retry env s e = Ret (SUCCESS, s') \<and> shmring_inv s' \<and>
                shmring_contents s' = drop k (shmring_contents s) @ [e]"
proof (cases "length (shmring_contents s) = unat (capacity s) - 1")
  case True
  then show ?thesis using push_retry_full [of s e env] assms by (auto simp: idx_ring_def split: if_splits)
next
  case False
  then have "length (shmring_contents s) < unat (capacity s) - 1"
    using shmring_contents_length [OF assms(1)] by simp
  with push_retry_room [of s e env] assms False show ?thesis
    by (auto simp: idx_ring_def intro!: exI [of _ 0])
qed

theorem ntp_send_progress_witness:
  "if length (shmring_contents (demo_idx_ring 1)) = unat (capacity (demo_idx_ring 1)) - 1 \<and> (\<forall>k \<in> set [0, 2 :: nat]. k = 0)
   then push_retry [0, 2] (demo_idx_ring 1) [7, 0, 0, 0] = Spin
   else \<exists>k s'. push_retry [0, 2] (demo_idx_ring 1) [7, 0, 0, 0] = Ret (SUCCESS, s') \<and> shmring_inv s' \<and>
          shmring_contents s' = drop k (shmring_contents (demo_idx_ring 1)) @ [[7, 0, 0, 0]]"
  by (rule ntp_send_progress) (simp_all add: demo_idx_ring_def shmring_inv_def)

end
