(* ===== verification/Sem_Shmring.thy ===== *)
theory Sem_Shmring
  imports Shmring
begin

text \<open>
  \<^verbatim>\<open>libfdu-utils/sem_shmring.c\<close>: the ring guarded by three semaphores that carries epoll
  requests between the processes, and \<^verbatim>\<open>libfdu-utils/epoll_sem_shm.c\<close> on top of it. A wait on a semaphore
  at zero does not return (\<open>Spin\<close>) when nobody else moves; a wait may also be interrupted by a
  signal, which the boolean arguments of the calls say. Posting a semaphore succeeds.
\<close>

section \<open>Data\<close>

text \<open>The handle, the shared part and the values of the three semaphores.\<close>

record sem_ring =
  sr_write :: u64
  sr_read :: u64
  sr_is_full :: byte
  sr_data :: "byte list list"
  sr_ele_size :: u64
  sr_capacity :: u64
  sr_mutex :: nat
  sr_buf_count :: nat
  sr_spool :: nat
  sr_addr :: string
  sr_fd :: int

datatype wait_result = Woken | Interrupted

definition sem_wait :: "bool \<Rightarrow> nat \<Rightarrow> (wait_result \<times> nat) outcome" where
  "sem_wait intr v =
     (if intr then Ret (Interrupted, v) else if v = 0 then Spin else Ret (Woken, v - 1))"

section \<open>Operations\<close>

definition sem_shmring_push ::
  "bool \<Rightarrow> bool \<Rightarrow> sem_ring \<Rightarrow> byte list \<Rightarrow> u64 \<Rightarrow> (int \<times> sem_ring) outcome"
where
  "sem_shmring_push intr1 intr2 h element ele_len0 =
     (let ele_len = (if sr_ele_size h < ele_len0 then sr_ele_size h else ele_len0) in
      bind_out (sem_wait intr1 (sr_buf_count h)) (\<lambda>(r1, bc).
      let h1 = h\<lparr>sr_buf_count := bc\<rparr> in
      if r1 = Interrupted then Ret (- 1, h1)
      else
        bind_out (sem_wait intr2 (sr_mutex h1)) (\<lambda>(r2, mx).
        let h2 = h1\<lparr>sr_mutex := mx\<rparr> in
        if r2 = Interrupted then Ret (- 1, h2)
        else
          bind_out (array_get (sr_data h2) (unat (sr_write h2))) (\<lambda>slot.
          bind_out (memcpy slot element (unat ele_len)) (\<lambda>slot'.
          bind_out (array_set (sr_data h2) (unat (sr_write h2)) slot') (\<lambda>area.
          bind_out (next_index (sr_write h2) (sr_capacity h2)) (\<lambda>w.
          let h3 = h2\<lparr>sr_data := area, sr_write := w\<rparr>;
              h4 = (if sr_write h3 = sr_read h3 then h3\<lparr>sr_is_full := 1\<rparr> else h3) in
          Ret (0, h4\<lparr>sr_mutex := sr_mutex h4 + 1, sr_spool := sr_spool h4 + 1\<rparr>))))))))"

definition sem_shmring_pop ::
  "bool \<Rightarrow> sem_ring \<Rightarrow> byte list \<Rightarrow> u64 \<Rightarrow> (int \<times> byte list \<times> sem_ring) outcome"
where
  "sem_shmring_pop intr h element ele_len0 =
     (let ele_len = (if sr_ele_size h < ele_len0 then sr_ele_size h else ele_len0) in
      bind_out (sem_wait intr (sr_spool h)) (\<lambda>(r, sp).
      let h1 = h\<lparr>sr_spool := sp\<rparr> in
      if r = Interrupted then Ret (- 1, element, h1)
      else
        bind_out (array_get (sr_data h1) (unat (sr_read h1))) (\<lambda>slot.
        bind_out (memcpy element slot (unat ele_len)) (\<lambda>element'.
        bind_out (next_index (sr_read h1) (sr_capacity h1)) (\<lambda>rd.
          Ret (0, element', h1\<lparr>sr_is_full := 0, sr_read := rd, sr_buf_count := sr_buf_count h1 + 1\<rparr>))))))"

definition sem_shmring_front :: "sem_ring \<Rightarrow> byte list \<Rightarrow> u64 \<Rightarrow> (int \<times> byte list) outcome" where
  "sem_shmring_front h element ele_len0 =
     (let ele_len = (if sr_ele_size h < ele_len0 then sr_ele_size h else ele_len0) in
      if ring_empty (sr_write h) (sr_read h) then Ret (- 1, element)
      else
        bind_out (array_get (sr_data h) (unat (sr_read h))) (\<lambda>slot.
        bind_out (memcpy element slot (unat ele_len)) (\<lambda>element'. Ret (0, element'))))"

definition sem_shmring_reset :: "sem_ring \<Rightarrow> int \<times> sem_ring" where
  "sem_shmring_reset h = (0, h\<lparr>sr_write := 0, sr_read := 0, sr_is_full := 0\<rparr>)"

definition sem_shmring_empty :: "sem_ring \<Rightarrow> bool" where
  "sem_shmring_empty h \<longleftrightarrow> sr_is_full h = 0 \<and> ring_empty (sr_write h) (sr_read h)"

definition sem_shmring_full :: "sem_ring \<Rightarrow> bool" where
  "sem_shmring_full h \<longleftrightarrow> sr_is_full h = 1"

definition sem_shmring_capacity :: "sem_ring \<Rightarrow> u64" where
  "sem_shmring_capacity h = sr_capacity h"

definition sem_shmring_size :: "sem_ring \<Rightarrow> u64" where
  "sem_shmring_size h =
     (if sr_is_full h = 0 then
        (if sr_read h \<le> sr_write h then sr_write h - sr_read h
         else sr_capacity h + sr_write h - sr_read h)
      else sr_capacity h)"

section \<open>Construction and destruction\<close>

datatype sem_res = S_handle | S_data | S_fd int | S_map | S_name string | S_sem string | S_sem_name string

text \<open>
  The answers of the system. A semaphore that opens has the value given: the initial one when it is
  created, whatever it had when it exists.
\<close>

record 'q sem_os =
  so_handle :: bool
  so_data :: bool
  so_open :: int
  so_errno_retry :: bool
  so_reopen :: int
  so_ftruncate :: bool
  so_mmap :: "'q option"
  so_mutex :: "nat option"
  so_buf_count :: "nat option"
  so_spool :: "nat option"
  so_post :: bool

text \<open>
  The code at \<^verbatim>\<open>FAIL\<close>: \<open>sems\<close> are the open semaphores in the order they are closed. \<^verbatim>\<open>SEM_FAILED\<close> is the
  null pointer, so those not opened are skipped. The descriptor is only compared with zero.
\<close>

definition sem_fail :: "bool \<Rightarrow> string list \<Rightarrow> bool \<Rightarrow> int \<Rightarrow> string \<Rightarrow> bool \<Rightarrow> sem_res os_call list" where
  "sem_fail is_owner sems mapped fd addr data =
     concat (map (\<lambda>n. Release (S_sem n) # (if is_owner then [Release (S_sem_name n)] else [])) sems) @
     (if mapped then [Release S_map] else []) @
     (if fd \<noteq> 0 then Release (S_fd fd) # (if is_owner then [Release (S_name addr)] else []) else []) @
     (if data then [Release S_data] else []) @ [Release S_handle]"

text \<open>Opening, sizing and mapping the region: the mapped part, or the trace of the failure.\<close>

definition sem_map ::
  "'q sem_os \<Rightarrow> bool \<Rightarrow> string \<Rightarrow> bool \<Rightarrow> sem_res os_call list \<Rightarrow> sem_res os_call list + (int \<times> 'q \<times> sem_res os_call list)"
where
  "sem_map os is_owner addr data cs =
     (let fd = (if so_open os = - 1
                then (if is_owner \<and> so_errno_retry os then so_reopen os else - 1)
                else so_open os);
          cs1 = cs @ (if is_owner then [Acquire (S_name addr)] else []) @ [Acquire (S_fd fd)] in
      if fd = - 1 then Inl (cs @ sem_fail is_owner [] False fd addr data)
      else if is_owner \<and> \<not> so_ftruncate os then Inl (cs1 @ sem_fail is_owner [] False fd addr data)
      else case so_mmap os of
        None \<Rightarrow> Inl (cs1 @ sem_fail is_owner [] True fd addr data)
      | Some q \<Rightarrow> Inr (fd, q, cs1 @ [Acquire S_map, Release (S_fd fd)]))"

text \<open>Opening the semaphores: their values, or the trace of the failure.\<close>

definition sem_sems ::
  "'q sem_os \<Rightarrow> bool \<Rightarrow> string \<Rightarrow> string \<Rightarrow> string \<Rightarrow> int \<Rightarrow> string \<Rightarrow> bool \<Rightarrow> sem_res os_call list
     \<Rightarrow> sem_res os_call list + ((nat \<times> nat \<times> nat) \<times> sem_res os_call list)"
where
  "sem_sems os is_owner n_mutex n_count n_spool fd addr data cs =
     (case so_mutex os of
        None \<Rightarrow> Inl (cs @ sem_fail is_owner [] True fd addr data)
      | Some m \<Rightarrow>
          let c1 = cs @ [Acquire (S_sem n_mutex)] in
          (case so_buf_count os of
             None \<Rightarrow> Inl (c1 @ sem_fail is_owner [n_mutex] True fd addr data)
           | Some b \<Rightarrow>
               let c2 = c1 @ [Acquire (S_sem n_count)] in
               (case so_spool os of
                  None \<Rightarrow> Inl (c2 @ sem_fail is_owner [n_count, n_mutex] True fd addr data)
                | Some sp \<Rightarrow>
                    let c3 = c2 @ [Acquire (S_sem n_spool)] in
                    if is_owner \<and> \<not> so_post os
                    then Inl (c3 @ sem_fail is_owner [n_spool, n_count, n_mutex] True fd addr data)
                    else Inr ((if is_owner then m + 1 else m, b, sp), c3))))"

abbreviation SEM_MAX_NAME :: nat where "SEM_MAX_NAME \<equiv> 64"

abbreviation DEFAULT_SHMRING_MAX_BUFS :: u64 where "DEFAULT_SHMRING_MAX_BUFS \<equiv> 8"

text \<open>The mapped region of this ring: its indices, the flag and the slots.\<close>

type_synonym sem_region = "u64 \<times> u64 \<times> byte \<times> byte list list"

definition sem_shmring_init0 ::
  "sem_region sem_os \<Rightarrow> string \<Rightarrow> u64 \<Rightarrow> u64 \<Rightarrow> u64 \<Rightarrow> bool \<Rightarrow> (sem_ring option \<times> sem_res os_call list) outcome"
where
  "sem_shmring_init0 os addr len esz ele_num is_owner =
     bind_out (c_assert (0 < len)) (\<lambda>_.
     bind_out (c_assert (0 < esz)) (\<lambda>_.
     let num = (if 0 < ele_num then ele_num else DEFAULT_SHMRING_MAX_BUFS);
         n1 = ''/mutex-'' @ addr; n2 = ''/buf-count-'' @ addr; n3 = ''/spool-signal-'' @ addr in
     if \<not> so_handle os then Ret (None, [])
     else
       bind_out (memcpy (replicate SEM_MAX_NAME (CHR 0x00)) (addr @ [CHR 0x00]) (unat len)) (\<lambda>_.
       if SEM_MAX_NAME \<le> length n1 \<or> SEM_MAX_NAME \<le> length n2 \<or> SEM_MAX_NAME \<le> length n3 then Undef
       else if \<not> so_data os then Ret (None, [Acquire S_handle, Release S_handle])
       else
         (case sem_map os is_owner addr True [Acquire S_handle, Acquire S_data] of
            Inl cs \<Rightarrow> Ret (None, cs)
          | Inr (fd, (w, r, fl, area), cs) \<Rightarrow>
              (case sem_sems os is_owner n1 n2 n3 fd addr True cs of
                 Inl cs' \<Rightarrow> Ret (None, cs')
               | Inr ((m, b, sp), cs') \<Rightarrow>
                   Ret (Some \<lparr>sr_write = (if is_owner then 0 else w), sr_read = (if is_owner then 0 else r),
                              sr_is_full = (if is_owner then 0 else fl), sr_data = area, sr_ele_size = esz,
                              sr_capacity = num, sr_mutex = m, sr_buf_count = b, sr_spool = sp, sr_addr = addr, sr_fd = fd\<rparr>,
                        cs'))))))"

definition sem_shmring_create ::
  "sem_region sem_os \<Rightarrow> string \<Rightarrow> u64 \<Rightarrow> u64 \<Rightarrow> u64 \<Rightarrow> (sem_ring option \<times> sem_res os_call list) outcome"
where
  "sem_shmring_create os addr len esz num = sem_shmring_init0 os addr len esz num True"

definition sem_shmring_init ::
  "sem_region sem_os \<Rightarrow> string \<Rightarrow> u64 \<Rightarrow> u64 \<Rightarrow> u64 \<Rightarrow> (sem_ring option \<times> sem_res os_call list) outcome"
where
  "sem_shmring_init os addr len esz num = sem_shmring_init0 os addr len esz num False"

definition sem_shmring_free :: "sem_ring \<Rightarrow> bool \<Rightarrow> int \<times> sem_res os_call list" where
  "sem_shmring_free h is_unlink =
     (0, concat (map (\<lambda>n. Release (S_sem n) # (if is_unlink then [Release (S_sem_name n)] else []))
           [''/spool-signal-'' @ sr_addr h, ''/buf-count-'' @ sr_addr h, ''/mutex-'' @ sr_addr h]) @
         [Release S_map] @ (if sr_fd h \<noteq> 0 \<and> is_unlink then [Release (S_name (sr_addr h))] else []) @
         [Release S_data, Release S_handle])"

section \<open>Invariant and contents\<close>

definition sem_inv :: "sem_ring \<Rightarrow> bool" where
  "sem_inv h \<longleftrightarrow>
     0 < sr_capacity h \<and> unat (sr_capacity h) < 2 ^ 31 \<and> length (sr_data h) = unat (sr_capacity h) \<and>
     (\<forall>slot \<in> set (sr_data h). length slot = unat (sr_ele_size h)) \<and>
     unat (sr_read h) < unat (sr_capacity h) \<and> sr_spool h \<le> unat (sr_capacity h) \<and>
     unat (sr_write h) = (unat (sr_read h) + sr_spool h) mod unat (sr_capacity h) \<and>
     sr_buf_count h = unat (sr_capacity h) - sr_spool h \<and> sr_mutex h = 1 \<and>
     sr_is_full h = (if sr_spool h = unat (sr_capacity h) then 1 else 0)"

definition sem_contents :: "sem_ring \<Rightarrow> byte list list" where
  "sem_contents h = ring_cells (unat (sr_capacity h)) (unat (sr_read h)) (sr_spool h) ((!) (sr_data h))"

lemma sem_index:
  fixes i :: u64
  assumes "unat i < unat c" "0 < c"
  shows "next_index i c = Ret ((i + 1) mod c)" "unat ((i + 1) mod c) = Suc (unat i) mod unat c"
  using assms by (auto simp: next_index_eq unat_succ_mod)

lemma sem_push_room:
  assumes inv: "sem_inv h" and e: "length e = unat (sr_ele_size h)" and room: "sr_spool h < unat (sr_capacity h)"
  shows "\<exists>h'. sem_shmring_push False False h e (sr_ele_size h) = Ret (0, h') \<and> sem_inv h' \<and>
     sem_contents h' = sem_contents h @ [e] \<and> sr_capacity h' = sr_capacity h \<and> sr_ele_size h' = sr_ele_size h"
proof -
  let ?c = "unat (sr_capacity h)" and ?w = "unat (sr_write h)" and ?r = "unat (sr_read h)" and ?n = "sr_spool h"
  have i: "?w < ?c" "?r < ?c" "length (sr_data h) = ?c" "?w = (?r + ?n) mod ?c" "0 < sr_capacity h"
    "sr_buf_count h = ?c - ?n" "sr_mutex h = 1" "length (sr_data h ! ?w) = unat (sr_ele_size h)"
    using inv by (auto simp: sem_inv_def)
  note ix = sem_index [OF i(1,5)]
  define w where "w = (sr_write h + 1) mod sr_capacity h"
  define h' where "h' = h\<lparr>sr_buf_count := ?c - ?n - 1, sr_data := (sr_data h)[?w := e], sr_write := w,
     sr_is_full := (if w = sr_read h then 1 else sr_is_full h), sr_spool := Suc ?n\<rparr>"
  have uw: "unat w = (?r + Suc ?n) mod ?c" unfolding w_def ix(2) i(4) by (simp add: mod_simps)
  have full: "w = sr_read h \<longleftrightarrow> Suc ?n = ?c"
    unfolding word_eq_iff_unat uw add_mod_alt [OF i(2) Suc_leI [OF room]] using i(2) room by auto
  have "sem_shmring_push False False h e (sr_ele_size h) = Ret (0, h')"
    using i e room ix by (simp add: sem_shmring_push_def sem_wait_def Let_def h'_def w_def)
  moreover have "sem_inv h'"
    using inv i e room uw full
    by (auto simp: sem_inv_def h'_def dest!: subsetD [OF set_update_subset_insert])
  moreover have "sem_contents h' = sem_contents h @ [e]"
  proof -
    have "sem_contents h' = ring_cells ?c ?r (Suc ?n) (((!) (sr_data h))(?w := e))"
      using i by (simp add: sem_contents_def h'_def) (rule ring_cells_cong, auto simp: nth_list_update)
    also have "\<dots> = sem_contents h @ [e]"
      unfolding sem_contents_def by (rule ring_cells_push) (use i room in auto)
    finally show ?thesis .
  qed
  ultimately show ?thesis by (auto simp: h'_def)
qed

lemma sem_pop_some:
  assumes inv: "sem_inv h" and c: "sem_contents h = x # xs"
    and b: "length buf = unat (sr_ele_size h)"
  shows "\<exists>h'. sem_shmring_pop False h buf (sr_ele_size h) = Ret (0, x, h') \<and> sem_inv h' \<and>
     sem_contents h' = xs \<and> sr_capacity h' = sr_capacity h \<and> sr_ele_size h' = sr_ele_size h"
proof -
  let ?c = "unat (sr_capacity h)" and ?r = "unat (sr_read h)" and ?n = "sr_spool h"
  from c have "?n = Suc (length xs)" by (metis length_Cons length_ring_cells sem_contents_def)
  then obtain n where n: "?n = Suc n" by simp
  have i: "?r < ?c" "length (sr_data h) = ?c" "0 < sr_capacity h" "length (sr_data h ! ?r) = unat (sr_ele_size h)"
    "sr_buf_count h = ?c - ?n" "?n \<le> ?c"
    using inv by (auto simp: sem_inv_def)
  note ix = sem_index [OF i(1,3)]
  define r where "r = (sr_read h + 1) mod sr_capacity h"
  define h' where "h' = h\<lparr>sr_spool := n, sr_is_full := 0, sr_read := r, sr_buf_count := Suc (sr_buf_count h)\<rparr>"
  have ur: "unat r = Suc ?r mod ?c" using ix(2) by (simp add: r_def)
  have cells: "sem_contents h = sr_data h ! ?r # sem_contents h'"
    using ring_cells_pop [OF i(1), of n "(!) (sr_data h)"] by (simp add: sem_contents_def n h'_def ur)
  with c have x: "sr_data h ! ?r = x" "sem_contents h' = xs" by simp_all
  have "sem_shmring_pop False h buf (sr_ele_size h) = Ret (0, x, h')"
    using i n b x(1) ix by (simp add: sem_shmring_pop_def sem_wait_def Let_def h'_def r_def)
  moreover have "sem_inv h'"
    using inv i n ur by (auto simp: sem_inv_def h'_def mod_simps)
  ultimately show ?thesis using x by (auto simp: h'_def)
qed

text \<open>A blocked attempt, seen from outside, is one that has not taken effect.\<close>

definition sem_put :: "sem_ring \<Rightarrow> byte list \<Rightarrow> (bool \<times> sem_ring) outcome" where
  "sem_put h e =
     (case sem_shmring_push False False h e (sr_ele_size h) of
        Spin \<Rightarrow> Ret (False, h)
      | m \<Rightarrow> bind_out m (\<lambda>(rc, h'). Ret (rc = 0, h')))"

definition sem_take :: "sem_ring \<Rightarrow> (byte list option \<times> sem_ring) outcome" where
  "sem_take h =
     (case sem_shmring_pop False h (replicate (unat (sr_ele_size h)) 0) (sr_ele_size h) of
        Spin \<Rightarrow> Ret (None, h)
      | m \<Rightarrow> bind_out m (\<lambda>(rc, e, h'). Ret (if rc = 0 then Some e else None, h')))"

interpretation sf: bounded_fifo sem_put sem_take sem_contents sem_inv
  "\<lambda>h. unat (sr_capacity h)" "\<lambda>h e. length e = unat (sr_ele_size h)"
proof unfold_locales
  fix h :: sem_ring and e :: "byte list"
  assume *: "sem_inv h" "length e = unat (sr_ele_size h)" "length (sem_contents h) < unat (sr_capacity h)"
  then have "sr_spool h < unat (sr_capacity h)" by (simp add: sem_contents_def)
  from sem_push_room [OF *(1,2) this] show "\<exists>h'. sem_put h e = Ret (True, h') \<and> sem_inv h' \<and>
      sem_contents h' = sem_contents h @ [e] \<and> unat (sr_capacity h') = unat (sr_capacity h) \<and>
      (\<lambda>e. length e = unat (sr_ele_size h')) = (\<lambda>e. length e = unat (sr_ele_size h))"
    by (auto simp: sem_put_def)
next
  fix h :: sem_ring and e :: "byte list"
  assume "sem_inv h" "length (sem_contents h) = unat (sr_capacity h)"
  then have "sr_buf_count h = 0" by (simp add: sem_inv_def sem_contents_def)
  then show "sem_put h e = Ret (False, h)" by (simp add: sem_put_def sem_shmring_push_def sem_wait_def)
next
  fix h :: sem_ring and x and xs
  assume *: "sem_inv h" "sem_contents h = x # xs"
  from sem_pop_some [OF *, of "replicate (unat (sr_ele_size h)) 0"]
  show "\<exists>h'. sem_take h = Ret (Some x, h') \<and> sem_inv h' \<and> sem_contents h' = xs \<and>
      unat (sr_capacity h') = unat (sr_capacity h) \<and>
      (\<lambda>e. length e = unat (sr_ele_size h')) = (\<lambda>e. length e = unat (sr_ele_size h))"
    by (auto simp: sem_take_def)
next
  fix h :: sem_ring
  assume "sem_inv h" "sem_contents h = []"
  then have "sr_spool h = 0" by (metis length_0_conv length_ring_cells sem_contents_def)
  then show "sem_take h = Ret (None, h)" by (simp add: sem_take_def sem_shmring_pop_def sem_wait_def)
qed (simp add: sem_inv_def sem_contents_def)

text \<open>The observers agree with the contents.\<close>

lemma sem_observers:
  assumes "sem_inv h"
  shows "unat (sem_shmring_size h) = length (sem_contents h)"
    and "sem_shmring_empty h \<longleftrightarrow> sem_contents h = []"
    and "sem_shmring_full h \<longleftrightarrow> length (sem_contents h) = unat (sem_shmring_capacity h)"
proof -
  let ?c = "unat (sr_capacity h)" and ?w = "unat (sr_write h)" and ?r = "unat (sr_read h)" and ?n = "sr_spool h"
  have i: "?w = (?r + ?n) mod ?c" "?r < ?c" "?n \<le> ?c" "?c < 2 ^ 31" "0 < sr_capacity h"
    "sr_is_full h = (if ?n = ?c then 1 else 0)"
    using assms by (auto simp: sem_inv_def)
  have w: "?w = (if ?r + ?n < ?c then ?r + ?n else ?r + ?n - ?c)" using i by (simp add: add_mod_alt)
  have l: "length (sem_contents h) = ?n" by (simp add: sem_contents_def)
  show "unat (sem_shmring_size h) = length (sem_contents h)"
  proof (cases "?n = ?c")
    case True
    then show ?thesis using i l by (simp add: sem_shmring_size_def)
  next
    case False
    show ?thesis
    proof (cases "sr_read h \<le> sr_write h")
      case True
      then have "?r \<le> ?w" by (simp add: word_le_nat_alt)
      then have "?w = ?r + ?n" using w False i(2,3) by (simp split: if_splits)
      then show ?thesis using True False i(6) l by (simp add: sem_shmring_size_def unat_sub)
    next
      case wrapped: False
      then have "?w < ?r" by (simp add: word_le_nat_alt)
      then have w': "?w + ?c = ?r + ?n" using w i(2,3) by (simp split: if_splits)
      have s: "unat (sr_capacity h + sr_write h) = ?c + ?w"
        using i(2,4) \<open>?w < ?r\<close> by (simp add: unat_word_ariths)
      have "unat (sr_capacity h + sr_write h - sr_read h) = ?c + ?w - ?r"
        using s i(2) by (simp add: unat_sub word_le_nat_alt)
      then show ?thesis using wrapped False i(6) l w' by (simp add: sem_shmring_size_def)
    qed
  qed
  show "sem_shmring_empty h \<longleftrightarrow> sem_contents h = []"
    unfolding length_0_conv [symmetric] l using i w
    by (auto simp: sem_shmring_empty_def ring_empty_def word_eq_iff_unat split: if_splits)
  show "sem_shmring_full h \<longleftrightarrow> length (sem_contents h) = unat (sem_shmring_capacity h)"
    using i l by (simp add: sem_shmring_full_def sem_shmring_capacity_def)
qed

section \<open>Properties\<close>

definition demo_sem :: "u64 \<Rightarrow> sem_ring" where
  "demo_sem i = \<lparr>sr_write = i, sr_read = i, sr_is_full = 0, sr_data = [[0], [0], [0]], sr_ele_size = 1,
     sr_capacity = 3, sr_mutex = 1, sr_buf_count = 3, sr_spool = 0, sr_addr = ''s'', sr_fd = 3\<rparr>"



text \<open>
  The observers tell the truth about a ring that satisfies the invariant: the size is the number
  of elements, also when the indices have wrapped around or the ring is full, and the tests for
  empty and full are exact.
\<close>

theorem sem_shmring_observers:
  assumes "sem_inv h"
  shows "unat (sem_shmring_size h) = length (sem_contents h) \<and>
     sem_shmring_empty h = (sem_contents h = []) \<and>
     sem_shmring_full h = (length (sem_contents h) = unat (sem_shmring_capacity h))"
  using sem_observers [OF assms] by blast

theorem sem_shmring_observers_witness:
  "unat (sem_shmring_size (demo_sem 2)) = length (sem_contents (demo_sem 2)) \<and>
     sem_shmring_empty (demo_sem 2) = (sem_contents (demo_sem 2) = []) \<and>
     sem_shmring_full (demo_sem 2) = (length (sem_contents (demo_sem 2)) = unat (sem_shmring_capacity (demo_sem 2)))"
  by (rule sem_shmring_observers) (simp add: sem_inv_def demo_sem_def)

fun interrupted_pushes :: "nat \<Rightarrow> sem_ring \<Rightarrow> byte list \<Rightarrow> sem_ring outcome" where
  "interrupted_pushes 0 h e = Ret h"
| "interrupted_pushes (Suc n) h e =
     bind_out (sem_shmring_push False True h e (sr_ele_size h)) (\<lambda>(_, h'). interrupted_pushes n h' e)"

lemma interrupted_pushes_count:
  "n \<le> sr_buf_count h \<Longrightarrow> interrupted_pushes n h e = Ret (h\<lparr>sr_buf_count := sr_buf_count h - n\<rparr>)"
  by (induction n arbitrary: h) (auto simp: sem_shmring_push_def sem_wait_def Let_def)

text \<open>
  A push that a signal interrupts between its two waits fails without giving back the slot it
  has reserved. After as many of them as there were free slots, every push blocks forever although
  the ring holds what it held before.
\<close>

theorem sem_shmring_interrupt_leak:
  assumes "sem_inv h"
  shows "\<exists>h'. interrupted_pushes (unat (sr_capacity h) - length (sem_contents h)) h e = Ret h' \<and>
     sem_contents h' = sem_contents h \<and> (\<forall>x n. sem_shmring_push False False h' x n = Spin)"
  using interrupted_pushes_count [of "unat (sr_capacity h) - sr_spool h" h e] assms
  by (simp add: sem_inv_def sem_contents_def sem_shmring_push_def sem_wait_def)

theorem sem_shmring_interrupt_leak_witness:
  "\<exists>h'. interrupted_pushes (unat (sr_capacity (demo_sem 0)) - length (sem_contents (demo_sem 0))) (demo_sem 0) [7] = Ret h' \<and>
     sem_contents h' = sem_contents (demo_sem 0) \<and> (\<forall>x n. sem_shmring_push False False h' x n = Spin)"
  by (rule sem_shmring_interrupt_leak) (simp add: sem_inv_def demo_sem_def)

end
