(* ===== verification/Epoll_Shm.thy ===== *)
theory Epoll_Shm
  imports Ntp2nts_Shm Sem_Shmring
begin

text \<open>
  \<^verbatim>\<open>libfdu-utils/epoll_shm.c\<close> and \<^verbatim>\<open>libfdu-utils/epoll_sem_shm.c\<close>: the two channels for epoll requests,
  one over the plain ring and one over the semaphore ring. A request is its 128 bytes in memory. The
  pointers of a context are kept with what they point at, so that freeing one twice or following one
  that was never assigned is visible as \<open>Undef\<close>.
\<close>

section \<open>Data\<close>

datatype ep_stat = EP_UNREADY | EP_READY | EP_CLOSE | EP_UNLINK

record 'h ep_ctx =
  ep_stat :: ep_stat
  ep_handle :: "'h cptr"
  ep_addr :: "string cptr"
  ep_addrlen :: u64

datatype 'r ep_res = E_ring 'r | E_addr | E_ctx

abbreviation EPOLL_MSG_SIZE :: u64 where "EPOLL_MSG_SIZE \<equiv> 128"

abbreviation DEFAULT_MAX_NUM_MSG :: u64 where "DEFAULT_MAX_NUM_MSG \<equiv> 16"

abbreviation EPOLL_RETRY_TIMES :: nat where "EPOLL_RETRY_TIMES \<equiv> 5"

abbreviation EPOLL_MSG_CLOSE :: nat where "EPOLL_MSG_CLOSE \<equiv> 4"

section \<open>The common text of the two channels\<close>

text \<open>\<^verbatim>\<open>accept\<close> and \<^verbatim>\<open>connect\<close>: \<open>open_ring\<close> is the constructor of the ring that the function calls.\<close>

definition ep_attach ::
  "bool \<Rightarrow> (string \<Rightarrow> u64 \<Rightarrow> ('h option \<times> 'r os_call list) outcome) \<Rightarrow> 'h ep_ctx \<Rightarrow> string \<Rightarrow> u64
     \<Rightarrow> (int \<times> 'h ep_ctx \<times> 'r ep_res os_call list) outcome"
where
  "ep_attach malloc_ok open_ring ctx addr len =
     bind_out (c_assert (0 < len)) (\<lambda>_.
     if \<not> malloc_ok then Ret (- 1, ctx\<lparr>ep_addr := Null\<rparr>, [])
     else
       bind_out (memcpy (replicate (unat len) (CHR 0x00)) (addr @ [CHR 0x00]) (unat len)) (\<lambda>a.
       bind_out (open_ring a len) (\<lambda>(ring, cs).
       let ctx1 = ctx\<lparr>ep_addr := Live a, ep_addrlen := len\<rparr>;
           cs1 = Acquire E_addr # map (map_call E_ring) cs in
       case ring of
         None \<Rightarrow> Ret (- 1, ctx1\<lparr>ep_handle := Null, ep_addr := Dangling\<rparr>, cs1 @ [Release E_addr])
       | Some h \<Rightarrow> Ret (0, ctx1\<lparr>ep_handle := Live h, ep_stat := EP_READY\<rparr>, cs1))))"

text \<open>\<^verbatim>\<open>close\<close>: \<open>free_ring\<close> is the destructor of the ring.\<close>

definition ep_shut ::
  "('h \<Rightarrow> bool \<Rightarrow> 'r os_call list) \<Rightarrow> 'h ep_ctx \<Rightarrow> bool \<Rightarrow> (int \<times> 'h ep_ctx \<times> 'r ep_res os_call list) outcome"
where
  "ep_shut free_ring ctx is_slave =
     bind_out (case ep_handle ctx of
         Null \<Rightarrow> Ret [] | Live h \<Rightarrow> Ret (free_ring h (\<not> is_slave)) | _ \<Rightarrow> Undef) (\<lambda>cs.
     bind_out (case ep_addr ctx of
         Null \<Rightarrow> Ret [] | Live a \<Rightarrow> Ret [Release E_addr] | _ \<Rightarrow> Undef) (\<lambda>ds.
       Ret (0, ctx\<lparr>ep_handle := Null, ep_addr := Null, ep_stat := (if is_slave then EP_CLOSE else EP_UNLINK)\<rparr>,
            map (map_call E_ring) cs @ ds)))"

section \<open>Over the plain ring\<close>

text \<open>The context comes from \<^verbatim>\<open>malloc\<close> and only its status is assigned.\<close>

definition epoll_shm :: "bool \<Rightarrow> shmring ep_ctx option" where
  "epoll_shm malloc_ok =
     (if malloc_ok then Some \<lparr>ep_stat = EP_UNREADY, ep_handle = Wild, ep_addr = Wild, ep_addrlen = 0\<rparr> else None)"

definition epoll_shm_accept ::
  "bool \<Rightarrow> shm_os \<Rightarrow> shmring ep_ctx \<Rightarrow> string \<Rightarrow> u64 \<Rightarrow> (int \<times> shmring ep_ctx \<times> shm_res ep_res os_call list) outcome"
where
  "epoll_shm_accept malloc_ok os ctx addr len =
     ep_attach malloc_ok (\<lambda>a n. shmring_create os a n EPOLL_MSG_SIZE DEFAULT_MAX_NUM_MSG) ctx addr len"

definition epoll_shm_connect ::
  "bool \<Rightarrow> shm_os \<Rightarrow> shmring ep_ctx \<Rightarrow> string \<Rightarrow> u64 \<Rightarrow> (int \<times> shmring ep_ctx \<times> shm_res ep_res os_call list) outcome"
where
  "epoll_shm_connect malloc_ok os ctx addr len =
     ep_attach malloc_ok (\<lambda>a n. shmring_init os a n EPOLL_MSG_SIZE DEFAULT_MAX_NUM_MSG) ctx addr len"

text \<open>
  \<^verbatim>\<open>bool retval = shmring_push(...)\<close> is true exactly when the push did not return 0. Before each further
  attempt the other process removes the given number of requests; a loop that outlives the list
  is \<open>Spin\<close>.
\<close>

fun epoll_push_loop :: "nat list \<Rightarrow> shmring \<Rightarrow> byte list \<Rightarrow> (int \<times> shmring) outcome" where
  "epoll_push_loop [] s msg =
     bind_out (shmring_push s msg EPOLL_MSG_SIZE) (\<lambda>(rc, s'). if rc \<noteq> 0 then Ret (0, s') else Spin)"
| "epoll_push_loop (k # env) s msg =
     bind_out (shmring_push s msg EPOLL_MSG_SIZE) (\<lambda>(rc, s').
     if rc \<noteq> 0 then Ret (0, s')
     else bind_out (peer_pops k s') (\<lambda>s''. epoll_push_loop env s'' msg))"

definition epoll_shm_send :: "nat list \<Rightarrow> shmring ep_ctx \<Rightarrow> byte list \<Rightarrow> (int \<times> shmring ep_ctx) outcome" where
  "epoll_shm_send env ctx msg =
     bind_out (deref (ep_handle ctx)) (\<lambda>s.
     bind_out (epoll_push_loop env s msg) (\<lambda>(rc, s'). Ret (rc, ctx\<lparr>ep_handle := Live s'\<rparr>)))"

text \<open>The other process adds requests.\<close>

fun peer_requests :: "byte list list \<Rightarrow> shmring \<Rightarrow> shmring outcome" where
  "peer_requests [] s = Ret s"
| "peer_requests (e # es) s = bind_out (shmring_push s e EPOLL_MSG_SIZE) (\<lambda>(_, s'). peer_requests es s')"

text \<open>The loop of \<^verbatim>\<open>epoll_shm_recv\<close> with \<open>n\<close> retries left; the other side adds \<open>env\<close> before them.\<close>

fun epoll_pop_loop ::
  "nat \<Rightarrow> byte list list list \<Rightarrow> shmring \<Rightarrow> byte list \<Rightarrow> (int \<times> byte list \<times> shmring) outcome"
where
  "epoll_pop_loop 0 env s msg =
     bind_out (shmring_pop s msg EPOLL_MSG_SIZE) (\<lambda>(rc, msg', s').
     if rc \<noteq> 0 then Ret (0, msg', s') else Ret (- 1, msg', s'))"
| "epoll_pop_loop (Suc n) env s msg =
     bind_out (shmring_pop s msg EPOLL_MSG_SIZE) (\<lambda>(rc, msg', s').
     if rc \<noteq> 0 then Ret (0, msg', s')
     else bind_out (peer_requests (if env = [] then [] else hd env) s') (\<lambda>s''. epoll_pop_loop n (tl env) s'' msg'))"

definition epoll_shm_recv ::
  "byte list list list \<Rightarrow> shmring ep_ctx \<Rightarrow> byte list \<Rightarrow> (int \<times> byte list \<times> shmring ep_ctx) outcome"
where
  "epoll_shm_recv env ctx msg =
     bind_out (deref (ep_handle ctx)) (\<lambda>s.
     bind_out (epoll_pop_loop EPOLL_RETRY_TIMES env s msg) (\<lambda>(rc, msg', s').
       Ret (rc, msg', ctx\<lparr>ep_handle := Live s'\<rparr>)))"

definition epoll_shm_close ::
  "shmring ep_ctx \<Rightarrow> bool \<Rightarrow> (int \<times> shmring ep_ctx \<times> shm_res ep_res os_call list) outcome"
where
  "epoll_shm_close ctx is_slave = ep_shut shmring_free ctx is_slave"

definition epoll_shm_master_close ::
  "shmring ep_ctx \<Rightarrow> (int \<times> shmring ep_ctx \<times> shm_res ep_res os_call list) outcome"
where
  "epoll_shm_master_close ctx = epoll_shm_close ctx False"

definition epoll_shm_slave_close ::
  "shmring ep_ctx \<Rightarrow> (int \<times> shmring ep_ctx \<times> shm_res ep_res os_call list) outcome"
where
  "epoll_shm_slave_close ctx = epoll_shm_close ctx True"

definition epoll_shm_destroy :: "shmring ep_ctx \<Rightarrow> shm_res ep_res os_call list" where
  "epoll_shm_destroy ctx = [Release E_ctx]"

section \<open>Over the semaphore ring\<close>

text \<open>Here the context comes from \<^verbatim>\<open>calloc\<close>.\<close>

definition epoll_sem_shm :: "bool \<Rightarrow> sem_ring ep_ctx option" where
  "epoll_sem_shm calloc_ok =
     (if calloc_ok then Some \<lparr>ep_stat = EP_UNREADY, ep_handle = Null, ep_addr = Null, ep_addrlen = 0\<rparr> else None)"

definition epoll_sem_shm_accept ::
  "bool \<Rightarrow> sem_region sem_os \<Rightarrow> sem_ring ep_ctx \<Rightarrow> string \<Rightarrow> u64
     \<Rightarrow> (int \<times> sem_ring ep_ctx \<times> sem_res ep_res os_call list) outcome"
where
  "epoll_sem_shm_accept malloc_ok os ctx addr len =
     ep_attach malloc_ok (\<lambda>a n. sem_shmring_create os a n EPOLL_MSG_SIZE DEFAULT_MAX_NUM_MSG) ctx addr len"

definition epoll_sem_shm_connect ::
  "bool \<Rightarrow> sem_region sem_os \<Rightarrow> sem_ring ep_ctx \<Rightarrow> string \<Rightarrow> u64
     \<Rightarrow> (int \<times> sem_ring ep_ctx \<times> sem_res ep_res os_call list) outcome"
where
  "epoll_sem_shm_connect malloc_ok os ctx addr len =
     ep_attach malloc_ok (\<lambda>a n. sem_shmring_init os a n EPOLL_MSG_SIZE DEFAULT_MAX_NUM_MSG) ctx addr len"

definition epoll_sem_shm_send ::
  "bool \<Rightarrow> bool \<Rightarrow> sem_ring ep_ctx \<Rightarrow> byte list \<Rightarrow> (int \<times> sem_ring ep_ctx) outcome"
where
  "epoll_sem_shm_send intr1 intr2 ctx msg =
     bind_out (deref (ep_handle ctx)) (\<lambda>h.
     bind_out (sem_shmring_push intr1 intr2 h msg EPOLL_MSG_SIZE) (\<lambda>(rc, h').
       Ret (if rc = - 1 then - 1 else 0, ctx\<lparr>ep_handle := Live h'\<rparr>)))"

definition epoll_sem_shm_recv ::
  "bool \<Rightarrow> sem_ring ep_ctx \<Rightarrow> byte list \<Rightarrow> (int \<times> byte list \<times> sem_ring ep_ctx) outcome"
where
  "epoll_sem_shm_recv intr ctx msg =
     bind_out (deref (ep_handle ctx)) (\<lambda>h.
     bind_out (sem_shmring_pop intr h msg EPOLL_MSG_SIZE) (\<lambda>(rc, msg', h').
       Ret (if rc = - 1 then - 1 else 0, msg', ctx\<lparr>ep_handle := Live h'\<rparr>)))"

text \<open>The request to close: its identifier and type; the rest of the structure is not assigned.\<close>

definition epoll_sem_try_exit ::
  "bool \<Rightarrow> bool \<Rightarrow> byte list \<Rightarrow> sem_ring ep_ctx \<Rightarrow> (int \<times> sem_ring ep_ctx) outcome"
where
  "epoll_sem_try_exit intr1 intr2 rest ctx =
     epoll_sem_shm_send intr1 intr2 ctx (le_enc 8 1 @ le_enc 4 EPOLL_MSG_CLOSE @ rest)"

definition epoll_sem_shm_close ::
  "sem_ring ep_ctx \<Rightarrow> bool \<Rightarrow> (int \<times> sem_ring ep_ctx \<times> sem_res ep_res os_call list) outcome"
where
  "epoll_sem_shm_close ctx is_slave = ep_shut (\<lambda>h u. snd (sem_shmring_free h u)) ctx is_slave"

definition epoll_sem_shm_master_close ::
  "sem_ring ep_ctx \<Rightarrow> (int \<times> sem_ring ep_ctx \<times> sem_res ep_res os_call list) outcome"
where
  "epoll_sem_shm_master_close ctx = epoll_sem_shm_close ctx False"

definition epoll_sem_shm_slave_close ::
  "sem_ring ep_ctx \<Rightarrow> (int \<times> sem_ring ep_ctx \<times> sem_res ep_res os_call list) outcome"
where
  "epoll_sem_shm_slave_close ctx = epoll_sem_shm_close ctx True"

definition epoll_sem_shm_destroy :: "sem_ring ep_ctx \<Rightarrow> sem_res ep_res os_call list" where
  "epoll_sem_shm_destroy ctx = [Release E_ctx]"

section \<open>The plain channel repeats what succeeds\<close>

definition req_ring :: "shmring \<Rightarrow> bool" where
  "req_ring s \<longleftrightarrow> shmring_inv s \<and> ele_size s = EPOLL_MSG_SIZE"

lemma req_push:
  assumes "req_ring s" "length msg = 128" "length (shmring_contents s) < unat (capacity s) - 1"
  obtains s' where "shmring_push s msg EPOLL_MSG_SIZE = Ret (0, s')" "req_ring s'"
    "shmring_contents s' = shmring_contents s @ [msg]" "capacity s' = capacity s"
proof -
  have s: "shmring_inv s" "ele_size s = EPOLL_MSG_SIZE" using assms(1) by (auto simp: req_ring_def)
  have "length (data_area (queue s) ! unat (write_idx (queue s))) = 128"
    using s by (simp add: shmring_inv_def)
  with s assms(2,3) that show ?thesis
    by (auto simp: req_ring_def elim!: shmring_push_room [of s EPOLL_MSG_SIZE msg])
qed

lemma epoll_push_loop_fills:
  assumes "req_ring s" "length msg = 128" "unat (capacity s) - 1 - length (shmring_contents s) \<le> length env"
    and "set env \<subseteq> {0}"
  shows "\<exists>s'. epoll_push_loop env s msg = Ret (0, s') \<and> req_ring s' \<and> capacity s' = capacity s \<and>
     shmring_contents s' =
       shmring_contents s @ replicate (unat (capacity s) - 1 - length (shmring_contents s)) msg"
  using assms
proof (induction env arbitrary: s)
  case Nil
  then have "length (shmring_contents s) = unat (capacity s) - 1"
    using shmring_contents_length [of s] by (simp add: req_ring_def)
  with Nil show ?case by (simp add: req_ring_def shmring_push_full)
next
  case (Cons k env)
  show ?case
  proof (cases "length (shmring_contents s) < unat (capacity s) - 1")
    case True
    obtain s' where s': "shmring_push s msg EPOLL_MSG_SIZE = Ret (0, s')" "req_ring s'"
      "shmring_contents s' = shmring_contents s @ [msg]" "capacity s' = capacity s"
      using req_push [OF Cons.prems(1,2) True] by blast
    from Cons.prems True s' have "unat (capacity s') - 1 - length (shmring_contents s') \<le> length env" by simp
    from Cons.IH [OF s'(2) Cons.prems(2) this] Cons.prems(4) s' obtain s'' where
      s'': "epoll_push_loop env s' msg = Ret (0, s'')" "req_ring s''" "capacity s'' = capacity s"
      "shmring_contents s'' = shmring_contents s @ msg #
         replicate (unat (capacity s) - 1 - Suc (length (shmring_contents s))) msg" by auto
    have "Suc (unat (capacity s) - 1 - Suc (length (shmring_contents s))) =
        unat (capacity s) - 1 - length (shmring_contents s)" using True by simp
    then have "shmring_contents s'' = shmring_contents s @
        replicate (unat (capacity s) - 1 - length (shmring_contents s)) msg"
      using s''(4) by (metis replicate_Suc)
    with s' s'' Cons.prems(4) show ?thesis by simp
  next
    case False
    then have "length (shmring_contents s) = unat (capacity s) - 1"
      using Cons.prems shmring_contents_length [of s] by (simp add: req_ring_def)
    with Cons.prems show ?thesis by (simp add: req_ring_def shmring_push_full)
  qed
qed

lemma req_pop:
  assumes "req_ring s" "shmring_contents s = x # xs" "length msg = 128"
  shows "\<exists>s'. shmring_pop s msg EPOLL_MSG_SIZE = Ret (0, x, s') \<and> req_ring s' \<and> shmring_contents s' = xs \<and>
     length x = 128"
proof -
  have s: "shmring_inv s" "ele_size s = EPOLL_MSG_SIZE" using assms(1) by (auto simp: req_ring_def)
  have "length x = 128"
    using shmring_nonempty(2) [OF s(1) assms(2)] s by (auto simp: shmring_inv_def)
  with s shmring_pop_some [OF s(1) assms(2), of EPOLL_MSG_SIZE msg] assms(3) show ?thesis
    by (auto simp: req_ring_def)
qed

lemma epoll_pop_loop_drains:
  assumes "req_ring s" "length msg = 128"
  shows "\<exists>s'. epoll_pop_loop n [] s msg =
       Ret (if length (shmring_contents s) \<le> n then 0 else - 1,
            last (msg # take (Suc n) (shmring_contents s)), s') \<and>
     req_ring s' \<and> shmring_contents s' = drop (Suc n) (shmring_contents s)"
  using assms
proof (induction n arbitrary: s msg)
  case 0
  show ?case
  proof (cases "shmring_contents s")
    case Nil
    with 0 show ?thesis by (simp add: req_ring_def shmring_pop_none)
  next
    case (Cons x xs)
    from req_pop [OF "0.prems"(1) Cons "0.prems"(2)] Cons show ?thesis by auto
  qed
next
  case (Suc n)
  show ?case
  proof (cases "shmring_contents s")
    case Nil
    with Suc.prems show ?thesis by (simp add: req_ring_def shmring_pop_none)
  next
    case (Cons x xs)
    from req_pop [OF Suc.prems(1) Cons Suc.prems(2)] obtain s' where
      s': "shmring_pop s msg EPOLL_MSG_SIZE = Ret (0, x, s')" "req_ring s'" "shmring_contents s' = xs"
        "length x = 128" by auto
    with Suc.IH [OF s'(2,4)] Cons show ?thesis by auto
  qed
qed

section \<open>Properties\<close>

definition demo_req :: "nat \<Rightarrow> byte list" where
  "demo_req k = replicate 128 (of_nat k)"

definition demo_req_ring :: "u64 \<Rightarrow> shmring" where
  "demo_req_ring w = \<lparr>shm_fd = - 1, addrlen = 2, ele_size = 128, capacity = 4, queue_size = 528,
     peer_read_idx = 0, shm_addr = ''q'',
     queue = \<lparr>write_idx = w, read_idx = 0, data_area = map demo_req [0..<4]\<rparr>\<rparr>"

definition demo_req_ctx :: "u64 \<Rightarrow> shmring ep_ctx" where
  "demo_req_ctx w = \<lparr>ep_stat = EP_READY, ep_handle = Live (demo_req_ring w), ep_addr = Live ''q'', ep_addrlen = 2\<rparr>"

lemma demo_req_ring_ok: "w < 4 \<Longrightarrow> req_ring (demo_req_ring w)"
  by (auto simp: req_ring_def shmring_inv_def demo_req_ring_def demo_req_def word_less_nat_alt)

text \<open>
  The loop of \<^verbatim>\<open>epoll_shm_send\<close> repeats the push as long as it succeeds. While nobody takes requests
  out, one call to send enters as many copies of the request as the ring has room for, that is
  none at all when the ring is full, and it returns success in every case.
\<close>

theorem epoll_shm_send_floods:
  assumes "ep_handle ctx = Live s" "req_ring s" "length msg = 128"
    and "unat (capacity s) - 1 - length (shmring_contents s) \<le> n"
  shows "\<exists>s'. epoll_shm_send (replicate n 0) ctx msg = Ret (0, ctx\<lparr>ep_handle := Live s'\<rparr>) \<and>
     shmring_contents s' =
       shmring_contents s @ replicate (unat (capacity s) - 1 - length (shmring_contents s)) msg"
proof -
  have "set (replicate n (0::nat)) \<subseteq> {0}" by auto
  from epoll_push_loop_fills [OF assms(2,3) _ this] assms(4) obtain s' where
    "epoll_push_loop (replicate n 0) s msg = Ret (0, s')"
    "shmring_contents s' =
       shmring_contents s @ replicate (unat (capacity s) - 1 - length (shmring_contents s)) msg" by auto
  with assms(1) show ?thesis by (intro exI [of _ s']) (simp add: epoll_shm_send_def deref_def)
qed

theorem epoll_shm_send_floods_witness:
  "\<exists>s'. epoll_shm_send (replicate 3 0) (demo_req_ctx 1) (demo_req 7) = Ret (0, (demo_req_ctx 1)\<lparr>ep_handle := Live s'\<rparr>) \<and>
     shmring_contents s' = shmring_contents (demo_req_ring 1) @
       replicate (unat (capacity (demo_req_ring 1)) - 1 - length (shmring_contents (demo_req_ring 1))) (demo_req 7)"
  by (rule epoll_shm_send_floods)
     (simp add: demo_req_ctx_def, rule demo_req_ring_ok, simp_all add: demo_req_def demo_req_ring_def)

text \<open>
  \<^verbatim>\<open>epoll_shm_recv\<close> keeps popping while there is something to pop. It
  returns success only when it found the ring empty, having discarded all but the last of
  up to five requests; with six or more it discards six and returns the error code.
\<close>

theorem epoll_shm_recv_discards:
  assumes "ep_handle ctx = Live s" "req_ring s" "length msg = 128"
  shows "\<exists>s'. epoll_shm_recv [] ctx msg =
       Ret (if length (shmring_contents s) \<le> 5 then 0 else - 1, last (msg # take 6 (shmring_contents s)),
            ctx\<lparr>ep_handle := Live s'\<rparr>) \<and>
     shmring_contents s' = drop 6 (shmring_contents s)"
proof -
  have six: "Suc EPOLL_RETRY_TIMES = 6" by simp
  show ?thesis
    using epoll_pop_loop_drains [OF assms(2,3), of EPOLL_RETRY_TIMES] unfolding six
    by (auto simp: epoll_shm_recv_def deref_def assms(1) simp del: epoll_pop_loop.simps last.simps)
qed

theorem epoll_shm_recv_discards_witness:
  "\<exists>s'. epoll_shm_recv [] (demo_req_ctx 2) (demo_req 9) =
       Ret (if length (shmring_contents (demo_req_ring 2)) \<le> 5 then 0 else - 1,
            last (demo_req 9 # take 6 (shmring_contents (demo_req_ring 2))), (demo_req_ctx 2)\<lparr>ep_handle := Live s'\<rparr>) \<and>
     shmring_contents s' = drop 6 (shmring_contents (demo_req_ring 2))"
  by (rule epoll_shm_recv_discards)
     (simp add: demo_req_ctx_def, rule demo_req_ring_ok, simp_all add: demo_req_def)

definition demo_sem_ctx :: "sem_ring ep_ctx" where
  "demo_sem_ctx = \<lparr>ep_stat = EP_READY, ep_handle =
     Live \<lparr>sr_write = 1, sr_read = 1, sr_is_full = 0, sr_data = map demo_req [0..<2], sr_ele_size = 128, sr_capacity = 2,
       sr_mutex = 1, sr_buf_count = 2, sr_spool = 0, sr_addr = ''q'', sr_fd = 3\<rparr>,
     ep_addr = Live ''q'', ep_addrlen = 2\<rparr>"

text \<open>
  Over the semaphore ring a request that finds room is delivered once: sending it and then receiving
  gives the oldest request present, which is the sent one when the ring was empty, both calls
  succeed, and the ring again holds as many requests as before.
\<close>

theorem epoll_sem_send_recv:
  assumes "ep_handle ctx = Live h" "sem_inv h" "sr_ele_size h = EPOLL_MSG_SIZE" "length msg = 128" "length buf = 128"
    and "length (sem_contents h) < unat (sr_capacity h)"
  shows "\<exists>ctx1 h2. epoll_sem_shm_send False False ctx msg = Ret (0, ctx1) \<and>
     epoll_sem_shm_recv False ctx1 buf =
       Ret (0, hd (sem_contents h @ [msg]), ctx1\<lparr>ep_handle := Live h2\<rparr>) \<and>
     sem_inv h2 \<and> sem_contents h2 = tl (sem_contents h @ [msg])"
proof -
  have e: "length msg = unat (sr_ele_size h)" and r: "sr_spool h < unat (sr_capacity h)"
    using assms by (simp_all add: sem_contents_def)
  from sem_push_room [OF assms(2) e r] assms(3) obtain h1 where
    h1: "sem_shmring_push False False h msg EPOLL_MSG_SIZE = Ret (0, h1)" "sem_inv h1"
      "sem_contents h1 = sem_contents h @ [msg]" "sr_ele_size h1 = EPOLL_MSG_SIZE" by auto
  have "sem_contents h1 = hd (sem_contents h @ [msg]) # tl (sem_contents h @ [msg])" using h1(3) by simp
  from sem_pop_some [OF h1(2) this, of buf] h1(4) assms(5) obtain h2 where
    "sem_shmring_pop False h1 buf EPOLL_MSG_SIZE = Ret (0, hd (sem_contents h @ [msg]), h2)" "sem_inv h2"
      "sem_contents h2 = tl (sem_contents h @ [msg])" by auto
  with h1 assms(1) show ?thesis
    by (intro exI [of _ "ctx\<lparr>ep_handle := Live h1\<rparr>"] exI [of _ h2])
       (simp add: epoll_sem_shm_send_def epoll_sem_shm_recv_def deref_def)
qed

theorem epoll_sem_send_recv_witness:
  "\<exists>h ctx1 h2. ep_handle demo_sem_ctx = Live h \<and> epoll_sem_shm_send False False demo_sem_ctx (demo_req 5) = Ret (0, ctx1) \<and>
     epoll_sem_shm_recv False ctx1 (demo_req 0) =
       Ret (0, hd (sem_contents h @ [demo_req 5]), ctx1\<lparr>ep_handle := Live h2\<rparr>) \<and>
     sem_inv h2 \<and> sem_contents h2 = tl (sem_contents h @ [demo_req 5])"
proof -
  obtain h where h: "ep_handle demo_sem_ctx = Live h" by (simp add: demo_sem_ctx_def)
  then have "sem_inv h" "sr_ele_size h = EPOLL_MSG_SIZE" "length (sem_contents h) < unat (sr_capacity h)"
    by (auto simp: demo_sem_ctx_def sem_inv_def sem_contents_def demo_req_def)
  from epoll_sem_send_recv [OF h this(1,2) _ _ this(3), of "demo_req 5" "demo_req 0"] h show ?thesis
    by (auto simp: demo_req_def)
qed

text \<open>
  When the ring cannot be opened, \<^verbatim>\<open>epoll_shm_accept\<close> and \<^verbatim>\<open>epoll_sem_shm_accept\<close> free the copy of the
  address and keep the pointer: closing the context afterwards frees it a second time, which is undefined.
\<close>

theorem epoll_accept_double_free:
  assumes "epoll_shm_accept True os ctx addr len = Ret (- 1, ctx', cs)"
    and "epoll_sem_shm_accept True os2 ctx2 addr len = Ret (- 1, ctx2', cs2)"
  shows "epoll_shm_close ctx' b = Undef \<and> epoll_sem_shm_close ctx2' b = Undef"
  using assms
  by (auto simp: epoll_shm_accept_def epoll_sem_shm_accept_def ep_attach_def Let_def epoll_shm_close_def
      epoll_sem_shm_close_def ep_shut_def split: option.splits)

theorem epoll_accept_double_free_witness:
  "\<exists>os os2 ctx2 c1 c2 cs cs2.
     epoll_shm_accept True os (demo_req_ctx 0) ''q'' 2 = Ret (- 1, c1, cs) \<and>
     epoll_sem_shm_accept True os2 ctx2 ''q'' 2 = Ret (- 1, c2, cs2) \<and>
     epoll_shm_close c1 False = Undef \<and> epoll_sem_shm_close c2 False = Undef"
proof -
  define os where "os = \<lparr>os_calloc_handle = False, os_calloc_data = True, os_shm_open = 4, os_errno_retry = False,
     os_shm_reopen = - 1, os_ftruncate = True, os_mmap = None\<rparr>"
  define os2 :: "sem_region sem_os" where "os2 = \<lparr>so_handle = False, so_data = True, so_open = 3, so_errno_retry = False,
     so_reopen = - 1, so_ftruncate = True, so_mmap = None, so_mutex = None, so_buf_count = None, so_spool = None, so_post = True\<rparr>"
  have 1: "\<exists>c cs. epoll_shm_accept True os (demo_req_ctx 0) ''q'' 2 = Ret (- 1, c, cs)"
    by (simp add: epoll_shm_accept_def ep_attach_def shmring_create_def shmring_init0_def os_def Let_def memcpy_def)
  have 2: "\<exists>c cs. epoll_sem_shm_accept True os2 demo_sem_ctx ''q'' 2 = Ret (- 1, c, cs)"
    by (simp add: epoll_sem_shm_accept_def ep_attach_def sem_shmring_create_def sem_shmring_init0_def os2_def Let_def memcpy_def)
  from 1 2 show ?thesis using epoll_accept_double_free by metis
qed

end
