(* ===== verification/Epoll_Event_Queue.thy ===== *)
theory Epoll_Event_Queue
  imports Sem_Shmring
begin

text \<open>
  \<^verbatim>\<open>libfdu-utils/epoll_event_queue.c\<close>: the queue of ready events in shared memory from which
  \<^verbatim>\<open>nts_epoll_wait\<close> takes them. It follows the semaphore ring, with the slots as an array of events and
  a counter of the events present; the helpers that open the region and the semaphores are the same.
\<close>

section \<open>Data\<close>

record nts_epoll_event =
  ev_data :: u64
  ev_events :: u32

record nts_epoll_event_int =
  ei_sockid :: int
  ei_ev :: nts_epoll_event

record epoll_event_queue =
  eq_start :: u64
  eq_end :: u64
  eq_size :: u64
  eq_num_events :: u64
  eq_events :: "nts_epoll_event_int list"
  eq_capacity :: u64
  eq_mutex :: nat
  eq_empty_sem :: nat
  eq_full_sem :: nat
  eq_addr :: string
  eq_fd :: int

section \<open>Operations\<close>

definition ep_event_queue_push ::
  "bool \<Rightarrow> bool \<Rightarrow> epoll_event_queue \<Rightarrow> nts_epoll_event_int \<Rightarrow> (int \<times> epoll_event_queue) outcome"
where
  "ep_event_queue_push intr1 intr2 q ev =
     bind_out (sem_wait intr1 (eq_empty_sem q)) (\<lambda>(r1, es).
     let q1 = q\<lparr>eq_empty_sem := es\<rparr> in
     if r1 = Interrupted then Ret (- 1, q1)
     else
       bind_out (sem_wait intr2 (eq_mutex q1)) (\<lambda>(r2, mx).
       let q2 = q1\<lparr>eq_mutex := mx\<rparr> in
       if r2 = Interrupted then Ret (- 1, q2)
       else
         bind_out (array_set (eq_events q2) (unat (eq_end q2)) ev) (\<lambda>evs.
         bind_out (next_index (eq_end q2) (eq_size q2)) (\<lambda>e.
           Ret (0, q2\<lparr>eq_events := evs, eq_end := e, eq_num_events := eq_num_events q2 + 1,
                      eq_mutex := mx + 1, eq_full_sem := eq_full_sem q2 + 1\<rparr>)))))"

definition ep_event_queue_pop ::
  "bool \<Rightarrow> epoll_event_queue \<Rightarrow> (nts_epoll_event_int option \<times> epoll_event_queue) outcome"
where
  "ep_event_queue_pop intr q =
     bind_out (sem_wait intr (eq_full_sem q)) (\<lambda>(r, fs).
     let q1 = q\<lparr>eq_full_sem := fs\<rparr> in
     if r = Interrupted then Ret (None, q1)
     else
       bind_out (array_get (eq_events q1) (unat (eq_start q1))) (\<lambda>ev.
       bind_out (next_index (eq_start q1) (eq_size q1)) (\<lambda>s.
         Ret (Some ev, q1\<lparr>eq_start := s, eq_num_events := eq_num_events q1 - 1,
                          eq_empty_sem := eq_empty_sem q1 + 1\<rparr>))))"

definition ep_event_queue_front :: "epoll_event_queue \<Rightarrow> nts_epoll_event_int option outcome" where
  "ep_event_queue_front q =
     (if ring_empty (eq_end q) (eq_start q) then Ret None
      else bind_out (array_get (eq_events q) (unat (eq_start q))) (\<lambda>ev. Ret (Some ev)))"

section \<open>Construction and destruction\<close>

type_synonym ep_region = "u64 \<times> u64 \<times> u64 \<times> nts_epoll_event_int list"

abbreviation DEFAULT_EP_EVENT_QUEUE_SIZE :: u64 where "DEFAULT_EP_EVENT_QUEUE_SIZE \<equiv> 16"

definition ep_event_queue_init0 ::
  "ep_region sem_os \<Rightarrow> string \<Rightarrow> u64 \<Rightarrow> u64 \<Rightarrow> bool \<Rightarrow> (epoll_event_queue option \<times> sem_res os_call list) outcome"
where
  "ep_event_queue_init0 os addr len cap0 is_owner =
     bind_out (c_assert (0 < len)) (\<lambda>_.
     let cap = (if 0 < cap0 then cap0 else DEFAULT_EP_EVENT_QUEUE_SIZE);
         n1 = ''/ep-mutex-'' @ addr; n2 = ''/ep-empty-'' @ addr; n3 = ''/ep-full-'' @ addr in
     if \<not> so_handle os then Ret (None, [])
     else
       bind_out (memcpy (replicate 64 (CHR 0x00)) (addr @ [CHR 0x00]) (unat len)) (\<lambda>_.
       if 64 \<le> length n1 \<or> 64 \<le> length n2 \<or> 64 \<le> length n3 then Undef
       else
         (case sem_map os is_owner addr False [Acquire S_handle] of
            Inl cs \<Rightarrow> Ret (None, cs)
          | Inr (fd, (s, e, n, evs), cs) \<Rightarrow>
              (case sem_sems os is_owner n1 n2 n3 fd addr False cs of
                 Inl cs' \<Rightarrow> Ret (None, cs')
               | Inr ((m, b, sp), cs') \<Rightarrow>
                   Ret (Some \<lparr>eq_start = (if is_owner then 0 else s), eq_end = (if is_owner then 0 else e),
                              eq_size = cap, eq_num_events = (if is_owner then 0 else n), eq_events = evs,
                              eq_capacity = cap, eq_mutex = m, eq_empty_sem = b, eq_full_sem = sp,
                              eq_addr = addr, eq_fd = fd\<rparr>,
                        cs')))))"

definition ep_event_queue_create ::
  "ep_region sem_os \<Rightarrow> string \<Rightarrow> u64 \<Rightarrow> u64 \<Rightarrow> (epoll_event_queue option \<times> sem_res os_call list) outcome"
where
  "ep_event_queue_create os addr len cap = ep_event_queue_init0 os addr len cap True"

definition ep_event_queue_init ::
  "ep_region sem_os \<Rightarrow> string \<Rightarrow> u64 \<Rightarrow> u64 \<Rightarrow> (epoll_event_queue option \<times> sem_res os_call list) outcome"
where
  "ep_event_queue_init os addr len cap = ep_event_queue_init0 os addr len cap False"

definition ep_event_queue_free :: "epoll_event_queue \<Rightarrow> bool \<Rightarrow> int \<times> sem_res os_call list" where
  "ep_event_queue_free q is_unlink =
     (0, concat (map (\<lambda>n. Release (S_sem n) # (if is_unlink then [Release (S_sem_name n)] else []))
           [''/ep-full-'' @ eq_addr q, ''/ep-empty-'' @ eq_addr q, ''/ep-mutex-'' @ eq_addr q]) @
         [Release S_map] @ (if eq_fd q \<noteq> 0 \<and> is_unlink then [Release (S_name (eq_addr q))] else []) @
         [Release S_handle])"

section \<open>Invariant and contents\<close>

definition eq_inv :: "epoll_event_queue \<Rightarrow> bool" where
  "eq_inv q \<longleftrightarrow>
     0 < eq_size q \<and> unat (eq_size q) < 2 ^ 31 \<and> length (eq_events q) = unat (eq_size q) \<and>
     unat (eq_start q) < unat (eq_size q) \<and> eq_full_sem q \<le> unat (eq_size q) \<and>
     unat (eq_end q) = (unat (eq_start q) + eq_full_sem q) mod unat (eq_size q) \<and>
     eq_empty_sem q = unat (eq_size q) - eq_full_sem q \<and> eq_mutex q = 1 \<and>
     unat (eq_num_events q) = eq_full_sem q"

definition eq_contents :: "epoll_event_queue \<Rightarrow> nts_epoll_event_int list" where
  "eq_contents q = ring_cells (unat (eq_size q)) (unat (eq_start q)) (eq_full_sem q) ((!) (eq_events q))"

lemma eq_push_room:
  assumes inv: "eq_inv q" and room: "eq_full_sem q < unat (eq_size q)"
  shows "\<exists>q'. ep_event_queue_push False False q ev = Ret (0, q') \<and> eq_inv q' \<and>
     eq_contents q' = eq_contents q @ [ev] \<and> eq_size q' = eq_size q"
proof -
  let ?c = "unat (eq_size q)" and ?w = "unat (eq_end q)" and ?r = "unat (eq_start q)" and ?n = "eq_full_sem q"
  have i: "?w < ?c" "?r < ?c" "length (eq_events q) = ?c" "?w = (?r + ?n) mod ?c" "0 < eq_size q"
    "eq_empty_sem q = ?c - ?n" "eq_mutex q = 1" "unat (eq_num_events q) = ?n" "?c < 2 ^ 31"
    using inv by (auto simp: eq_inv_def)
  note ix = sem_index [OF i(1,5)]
  define w where "w = (eq_end q + 1) mod eq_size q"
  define q' where "q' = q\<lparr>eq_empty_sem := ?c - ?n - 1, eq_events := (eq_events q)[?w := ev], eq_end := w,
     eq_num_events := eq_num_events q + 1, eq_full_sem := Suc ?n\<rparr>"
  have uw: "unat w = (?r + Suc ?n) mod ?c" unfolding w_def ix(2) i(4) by (simp add: mod_simps)
  have un: "unat (eq_num_events q + 1) = Suc ?n"
    using i(8,9) room by (simp add: unat_word_ariths)
  have "ep_event_queue_push False False q ev = Ret (0, q')"
    using i room ix by (simp add: ep_event_queue_push_def sem_wait_def Let_def q'_def w_def)
  moreover have "eq_inv q'" using inv i room uw un by (auto simp: eq_inv_def q'_def)
  moreover have "eq_contents q' = eq_contents q @ [ev]"
  proof -
    have "eq_contents q' = ring_cells ?c ?r (Suc ?n) (((!) (eq_events q))(?w := ev))"
      using i by (simp add: eq_contents_def q'_def) (rule ring_cells_cong, auto simp: nth_list_update)
    also have "\<dots> = eq_contents q @ [ev]"
      unfolding eq_contents_def by (rule ring_cells_push) (use i room in auto)
    finally show ?thesis .
  qed
  ultimately show ?thesis by (auto simp: q'_def)
qed

lemma eq_pop_some:
  assumes inv: "eq_inv q" and c: "eq_contents q = x # xs"
  shows "\<exists>q'. ep_event_queue_pop False q = Ret (Some x, q') \<and> eq_inv q' \<and> eq_contents q' = xs \<and>
     eq_size q' = eq_size q"
proof -
  let ?c = "unat (eq_size q)" and ?r = "unat (eq_start q)" and ?n = "eq_full_sem q"
  from c have "?n = Suc (length xs)" by (metis length_Cons length_ring_cells eq_contents_def)
  then obtain n where n: "?n = Suc n" by simp
  have i: "?r < ?c" "length (eq_events q) = ?c" "0 < eq_size q" "unat (eq_num_events q) = ?n" "?n \<le> ?c"
    using inv by (auto simp: eq_inv_def)
  note ix = sem_index [OF i(1,3)]
  define r where "r = (eq_start q + 1) mod eq_size q"
  define q' where "q' = q\<lparr>eq_full_sem := n, eq_start := r, eq_num_events := eq_num_events q - 1,
     eq_empty_sem := Suc (eq_empty_sem q)\<rparr>"
  have ur: "unat r = Suc ?r mod ?c" using ix(2) by (simp add: r_def)
  have un: "unat (eq_num_events q - 1) = n"
    using i(4) n by (simp add: unat_sub word_le_nat_alt)
  have cells: "eq_contents q = eq_events q ! ?r # eq_contents q'"
    using ring_cells_pop [OF i(1), of n "(!) (eq_events q)"] by (simp add: eq_contents_def n q'_def ur)
  with c have x: "eq_events q ! ?r = x" "eq_contents q' = xs" by simp_all
  have "ep_event_queue_pop False q = Ret (Some x, q')"
    using i n x(1) ix by (simp add: ep_event_queue_pop_def sem_wait_def Let_def q'_def r_def)
  moreover have "eq_inv q'" using inv i n ur un by (auto simp: eq_inv_def q'_def mod_simps)
  ultimately show ?thesis using x by (auto simp: q'_def)
qed

definition eq_put :: "epoll_event_queue \<Rightarrow> nts_epoll_event_int \<Rightarrow> (bool \<times> epoll_event_queue) outcome" where
  "eq_put q ev =
     (case ep_event_queue_push False False q ev of
        Spin \<Rightarrow> Ret (False, q)
      | m \<Rightarrow> bind_out m (\<lambda>(rc, q'). Ret (rc = 0, q')))"

definition eq_take :: "epoll_event_queue \<Rightarrow> (nts_epoll_event_int option \<times> epoll_event_queue) outcome" where
  "eq_take q = (case ep_event_queue_pop False q of Spin \<Rightarrow> Ret (None, q) | m \<Rightarrow> m)"

interpretation ef: bounded_fifo eq_put eq_take eq_contents eq_inv "\<lambda>q. unat (eq_size q)" "\<lambda>q e. True"
proof unfold_locales
  fix q e
  assume *: "eq_inv q" "length (eq_contents q) < unat (eq_size q)"
  then have "eq_full_sem q < unat (eq_size q)" by (simp add: eq_contents_def)
  from eq_push_room [OF *(1) this, of e] show "\<exists>q'. eq_put q e = Ret (True, q') \<and> eq_inv q' \<and>
      eq_contents q' = eq_contents q @ [e] \<and> unat (eq_size q') = unat (eq_size q) \<and> (\<lambda>_. True) = (\<lambda>_. True)"
    by (auto simp: eq_put_def)
next
  fix q e
  assume "eq_inv q" "length (eq_contents q) = unat (eq_size q)"
  then have "eq_empty_sem q = 0" by (simp add: eq_inv_def eq_contents_def)
  then show "eq_put q e = Ret (False, q)" by (simp add: eq_put_def ep_event_queue_push_def sem_wait_def)
next
  fix q x xs
  assume *: "eq_inv q" "eq_contents q = x # xs"
  from eq_pop_some [OF *] show "\<exists>q'. eq_take q = Ret (Some x, q') \<and> eq_inv q' \<and> eq_contents q' = xs \<and>
      unat (eq_size q') = unat (eq_size q) \<and> (\<lambda>_. True) = (\<lambda>_. True)"
    by (auto simp: eq_take_def)
next
  fix q
  assume "eq_inv q" "eq_contents q = []"
  then have "eq_full_sem q = 0" by (metis length_0_conv length_ring_cells eq_contents_def)
  then show "eq_take q = Ret (None, q)" by (simp add: eq_take_def ep_event_queue_pop_def sem_wait_def)
qed (simp add: eq_inv_def eq_contents_def)

section \<open>Properties\<close>

definition demo_events :: epoll_event_queue where
  "demo_events = \<lparr>eq_start = 1, eq_end = 1, eq_size = 2, eq_num_events = 2,
     eq_events = [\<lparr>ei_sockid = 4, ei_ev = \<lparr>ev_data = 9, ev_events = 1\<rparr>\<rparr>, \<lparr>ei_sockid = 3, ei_ev = \<lparr>ev_data = 8, ev_events = 4\<rparr>\<rparr>],
     eq_capacity = 2, eq_mutex = 1, eq_empty_sem = 0, eq_full_sem = 2, eq_addr = ''e'', eq_fd = 5\<rparr>"

text \<open>
  C30: the event queue delivers the events in the order in which they were pushed, whatever the
  sequence of attempts, its counter is the number of events present, and a look at the front shows the oldest
  event unless the queue is full, when the look reports an empty queue.
\<close>

theorem ep_event_queue_fifo:
  assumes "eq_inv q"
  shows "\<exists>acc out q'. fifo_run eq_put eq_take q ops = Ret (acc, out, q') \<and> eq_inv q' \<and>
     eq_contents q @ acc = out @ eq_contents q' \<and> unat (eq_num_events q') = length (eq_contents q') \<and>
     ep_event_queue_front q' =
       Ret (if eq_contents q' = [] \<or> length (eq_contents q') = unat (eq_size q') then None
            else Some (hd (eq_contents q')))"
proof -
  from ef.fifo_order [OF assms, of ops] obtain acc out q' where
    q': "fifo_run eq_put eq_take q ops = Ret (acc, out, q')" "eq_inv q'"
      "eq_contents q @ acc = out @ eq_contents q'" by auto
  let ?c = "unat (eq_size q')" and ?r = "unat (eq_start q')" and ?n = "eq_full_sem q'"
  have i: "?r < ?c" "?n \<le> ?c" "unat (eq_end q') = (?r + ?n) mod ?c" "length (eq_events q') = ?c"
    "unat (eq_num_events q') = ?n" using q'(2) by (auto simp: eq_inv_def)
  have l: "length (eq_contents q') = ?n" by (simp add: eq_contents_def)
  have e: "eq_end q' = eq_start q' \<longleftrightarrow> ?n = 0 \<or> ?n = ?c"
    unfolding word_eq_iff_unat i(3) add_mod_alt [OF i(1,2)] using i(1,2) by auto
  have "eq_contents q' = eq_events q' ! ?r # ring_cells ?c (Suc ?r mod ?c) (?n - 1) ((!) (eq_events q'))" if "0 < ?n"
    using ring_cells_pop [OF i(1), of "?n - 1" "(!) (eq_events q')"] that by (simp add: eq_contents_def)
  then have "ep_event_queue_front q' =
       Ret (if eq_contents q' = [] \<or> length (eq_contents q') = ?c then None else Some (hd (eq_contents q')))"
    using i e l by (auto simp: ep_event_queue_front_def ring_empty_def simp flip: length_0_conv)
  with q' i l show ?thesis by auto
qed

theorem ep_event_queue_fifo_witness:
  "\<exists>acc out q'. fifo_run eq_put eq_take demo_events [Pop, Push \<lparr>ei_sockid = 7, ei_ev = \<lparr>ev_data = 1, ev_events = 1\<rparr>\<rparr>]
       = Ret (acc, out, q') \<and> eq_inv q' \<and>
     eq_contents demo_events @ acc = out @ eq_contents q' \<and> unat (eq_num_events q') = length (eq_contents q') \<and>
     ep_event_queue_front q' =
       Ret (if eq_contents q' = [] \<or> length (eq_contents q') = unat (eq_size q') then None
            else Some (hd (eq_contents q')))"
  by (rule ep_event_queue_fifo) (simp add: eq_inv_def demo_events_def)

end
