(* ===== verification/Hash_Map.thy ===== *)
theory Hash_Map
  imports Prelude
begin

unbundle bit_operations_syntax

text \<open>
  \<^verbatim>\<open>libfdu-utils/hash_map.c\<close>: the chained hash table in which the proxy and the monitor keep their
  connections, sockets and epoll contexts. The function pointers \<^verbatim>\<open>hashCode\<close> and
  \<^verbatim>\<open>equal\<close> of the structure are the arguments \<open>hc\<close> (before the reduction modulo \<^verbatim>\<open>listSize\<close>) and \<open>eq\<close>. A
  bucket is the list of the pairs from the slot in the array along its chain; the empty list is a slot
  whose key is NULL. Allocation is taken to succeed.
\<close>

section \<open>Hash functions and key comparison\<close>

text \<open>A key is the memory it points to; as a C string it ends before the first zero byte.\<close>

type_synonym key = "byte list"

definition cstr :: "key \<Rightarrow> byte list" where
  "cstr k = takeWhile (\<lambda>b. b \<noteq> 0) k"

text \<open>\<^verbatim>\<open>char\<close> is signed on the platforms of the repository.\<close>

fun hash_loop :: "byte list \<Rightarrow> u64 \<Rightarrow> u64" where
  "hash_loop [] h = h"
| "hash_loop (c # cs) h =
     (let h1 = push_bit 4 h + scast c;
          g = h1 AND 0xF0000000;
          h2 = (if g \<noteq> 0 then h1 XOR drop_bit 24 g else h1)
      in hash_loop cs (h2 AND NOT g))"

definition defaultHashCode :: "key \<Rightarrow> u64" where
  "defaultHashCode k = hash_loop (cstr k) 0"

definition intHashCode :: "u64 \<Rightarrow> u64" where
  "intHashCode x0 =
     (let x1 = (x0 XOR drop_bit 30 x0) * 0xbf58476d1ce4e5b9;
          x2 = (x1 XOR drop_bit 27 x1) * 0x94d049bb133111eb
      in x2 XOR drop_bit 31 x2)"

definition defaultEqual :: "key \<Rightarrow> key \<Rightarrow> bool" where
  "defaultEqual k1 k2 \<longleftrightarrow> cstr k1 = cstr k2"

section \<open>The table\<close>

type_synonym ('k, 'v) bucket = "('k \<times> 'v) list"

record ('k, 'v) hashMap =
  hm_size :: int
  listSize :: nat
  hm_list :: "('k, 'v) bucket list"
  autoAssign :: bool

definition DEFAULT_HASHMAP_SIZE :: nat where "DEFAULT_HASHMAP_SIZE = 4096"

definition createHashMap :: "('k, 'v) hashMap" where
  "createHashMap = \<lparr>hm_size = 0, listSize = DEFAULT_HASHMAP_SIZE,
     hm_list = replicate DEFAULT_HASHMAP_SIZE [], autoAssign = True\<rparr>"

text \<open>The slot a key belongs to; \<^verbatim>\<open>%\<close> with a zero divisor is undefined.\<close>

definition slot_of :: "('k \<Rightarrow> u64) \<Rightarrow> ('k, 'v) hashMap \<Rightarrow> 'k \<Rightarrow> nat outcome" where
  "slot_of hc m k = (if listSize m = 0 then Undef else Ret (unat (hc k) mod listSize m))"

subsection \<open>Iteration\<close>

text \<open>\<^verbatim>\<open>entry\<close> is the bucket and the position in its chain.\<close>

record hashMapIterator =
  it_entry :: "(nat \<times> nat) option"
  it_count :: int
  it_hashCode :: int

definition createHashMapIterator :: hashMapIterator where
  "createHashMapIterator = \<lparr>it_entry = None, it_count = 0, it_hashCode = - 1\<rparr>"

definition hasNextHashMapIterator :: "('k, 'v) hashMap \<Rightarrow> hashMapIterator \<Rightarrow> bool" where
  "hasNextHashMapIterator m it \<longleftrightarrow> it_count it < hm_size m"

text \<open>The loop \<^verbatim>\<open>while (++hashCode < listSize)\<close> over the remaining slots.\<close>

fun next_slot :: "('k, 'v) bucket list \<Rightarrow> nat \<Rightarrow> nat \<times> bool" where
  "next_slot [] i = (i, False)"
| "next_slot (b # bs) i = (if b \<noteq> [] then (i, True) else next_slot bs (Suc i))"

definition nextHashMapIterator :: "('k, 'v) hashMap \<Rightarrow> hashMapIterator \<Rightarrow> hashMapIterator" where
  "nextHashMapIterator m it =
     (if hasNextHashMapIterator m it then
        (case it_entry it of
           Some (b, i) \<Rightarrow>
             if Suc i < length (hm_list m ! b)
             then it\<lparr>it_count := it_count it + 1, it_entry := Some (b, Suc i)\<rparr>
             else (case next_slot (drop (nat (it_hashCode it + 1)) (take (listSize m) (hm_list m)))
                          (nat (it_hashCode it + 1)) of
                     (j, True) \<Rightarrow> it\<lparr>it_hashCode := int j, it_count := it_count it + 1, it_entry := Some (j, 0)\<rparr>
                   | (j, False) \<Rightarrow> it\<lparr>it_hashCode := int j\<rparr>)
         | None \<Rightarrow>
             (case next_slot (drop (nat (it_hashCode it + 1)) (take (listSize m) (hm_list m)))
                     (nat (it_hashCode it + 1)) of
                (j, True) \<Rightarrow> it\<lparr>it_hashCode := int j, it_count := it_count it + 1, it_entry := Some (j, 0)\<rparr>
              | (j, False) \<Rightarrow> it\<lparr>it_hashCode := int j\<rparr>))
      else it)"

text \<open>
  The loop of \<^verbatim>\<open>resetHashMap\<close> that copies the pairs into \<^verbatim>\<open>tempList\<close>, which holds \<^verbatim>\<open>size\<close> of them;
  \<open>n\<close> bounds the remaining steps. A step in which the iterator does not advance runs on past the
  end of the temporary array.
\<close>

fun collect :: "nat \<Rightarrow> ('k, 'v) hashMap \<Rightarrow> hashMapIterator \<Rightarrow> ('k \<times> 'v) list outcome" where
  "collect 0 m it = Ret []"
| "collect (Suc n) m it =
     (if \<not> hasNextHashMapIterator m it then Ret []
      else
        let it' = nextHashMapIterator m it in
        (case it_entry it' of
           None \<Rightarrow> Undef
         | Some (b, i) \<Rightarrow>
             if it_count it' = it_count it then Undef
             else bind_out (collect n m it') (\<lambda>es. Ret (hm_list m ! b ! i # es))))"

text \<open>The pairs in the order in which an iteration meets them.\<close>

definition hm_entries :: "('k, 'v) hashMap \<Rightarrow> ('k \<times> 'v) list" where
  "hm_entries m = concat (hm_list m)"

subsection \<open>Lookup\<close>

definition defaultExists :: "('k \<Rightarrow> u64) \<Rightarrow> ('k \<Rightarrow> 'k \<Rightarrow> bool) \<Rightarrow> ('k, 'v) hashMap \<Rightarrow> 'k \<Rightarrow> bool outcome" where
  "defaultExists hc eq m k =
     bind_out (slot_of hc m k) (\<lambda>index.
     bind_out (array_get (hm_list m) index) (\<lambda>b. Ret (\<exists>e \<in> set b. eq (fst e) k)))"

fun chain_find :: "('k \<Rightarrow> 'k \<Rightarrow> bool) \<Rightarrow> 'k \<Rightarrow> ('k, 'v) bucket \<Rightarrow> 'v option" where
  "chain_find eq k [] = None"
| "chain_find eq k ((k', v) # es) = (if eq k' k then Some v else chain_find eq k es)"

definition defaultGet ::
  "('k \<Rightarrow> u64) \<Rightarrow> ('k \<Rightarrow> 'k \<Rightarrow> bool) \<Rightarrow> ('k, 'v) hashMap \<Rightarrow> 'k \<Rightarrow> 'v option outcome"
where
  "defaultGet hc eq m k =
     bind_out (defaultExists hc eq m k) (\<lambda>ex.
     if ex then
       bind_out (slot_of hc m k) (\<lambda>index.
       bind_out (array_get (hm_list m) index) (\<lambda>b. Ret (chain_find eq k b)))
     else Ret None)"

subsection \<open>Insertion, resizing and removal\<close>

text \<open>The bucket after storing a pair, and whether an entry was added.\<close>

fun put_bucket :: "('k \<Rightarrow> 'k \<Rightarrow> bool) \<Rightarrow> 'k \<Rightarrow> 'v \<Rightarrow> ('k, 'v) bucket \<Rightarrow> ('k, 'v) bucket \<times> bool" where
  "put_bucket eq k v [] = ([(k, v)], True)"
| "put_bucket eq k v ((k0, v0) # es) =
     (if \<exists>e \<in> set ((k0, v0) # es). eq k (fst e) then ((k0, v) # es, False)
      else ((k0, v0) # (k, v) # es, True))"

definition put_slot ::
  "('k \<Rightarrow> u64) \<Rightarrow> ('k \<Rightarrow> 'k \<Rightarrow> bool) \<Rightarrow> ('k, 'v) hashMap \<Rightarrow> 'k \<Rightarrow> 'v \<Rightarrow> (bool \<times> ('k, 'v) hashMap) outcome"
where
  "put_slot hc eq m k v =
     bind_out (slot_of hc m k) (\<lambda>index.
     bind_out (array_get (hm_list m) index) (\<lambda>b.
       case put_bucket eq k v b of (b', new) \<Rightarrow>
         Ret (new, m\<lparr>hm_list := (hm_list m)[index := b'],
                     hm_size := (if new then hm_size m + 1 else hm_size m)\<rparr>)))"

text \<open>
  \<^verbatim>\<open>defaultPut\<close> may call \<^verbatim>\<open>resetHashMap\<close>, which stores every pair again with
  \<^verbatim>\<open>defaultPut\<close>. The first argument bounds the depth of this recursion; \<open>hm_fuel\<close> below is shown to be enough.
\<close>

fun put_n :: "nat \<Rightarrow> ('k \<Rightarrow> u64) \<Rightarrow> ('k \<Rightarrow> 'k \<Rightarrow> bool) \<Rightarrow> ('k, 'v) hashMap \<Rightarrow> 'k \<Rightarrow> 'v \<Rightarrow> ('k, 'v) hashMap outcome"
  and reset_n :: "nat \<Rightarrow> ('k \<Rightarrow> u64) \<Rightarrow> ('k \<Rightarrow> 'k \<Rightarrow> bool) \<Rightarrow> ('k, 'v) hashMap \<Rightarrow> nat \<Rightarrow> ('k, 'v) hashMap outcome"
  and put_all_n :: "nat \<Rightarrow> ('k \<Rightarrow> u64) \<Rightarrow> ('k \<Rightarrow> 'k \<Rightarrow> bool) \<Rightarrow> ('k, 'v) hashMap \<Rightarrow> ('k \<times> 'v) list \<Rightarrow> ('k, 'v) hashMap outcome"
where
  "put_n 0 hc eq m k v = Spin"
| "put_n (Suc f) hc eq m k v =
     bind_out (put_slot hc eq m k v) (\<lambda>(new, m').
     if \<not> new then Ret m'
     else if autoAssign m' \<and> int (listSize m') \<le> hm_size m' then reset_n f hc eq m' (listSize m' * 2)
     else Ret m')"
| "reset_n f hc eq m n =
     (if n < 8 then Ret m
      else bind_out (collect (nat (hm_size m)) m createHashMapIterator) (\<lambda>tempList.
             put_all_n f hc eq (m\<lparr>hm_size := 0, listSize := n, hm_list := replicate n []\<rparr>) tempList))"
| "put_all_n f hc eq m [] = Ret m"
| "put_all_n f hc eq m (e # es) = bind_out (put_n f hc eq m (fst e) (snd e)) (\<lambda>m'. put_all_n f hc eq m' es)"

definition hm_fuel :: nat where "hm_fuel = 2"

definition defaultPut ::
  "('k \<Rightarrow> u64) \<Rightarrow> ('k \<Rightarrow> 'k \<Rightarrow> bool) \<Rightarrow> ('k, 'v) hashMap \<Rightarrow> 'k \<Rightarrow> 'v \<Rightarrow> ('k, 'v) hashMap outcome"
where
  "defaultPut hc eq m k v = put_n hm_fuel hc eq m k v"

definition resetHashMap ::
  "('k \<Rightarrow> u64) \<Rightarrow> ('k \<Rightarrow> 'k \<Rightarrow> bool) \<Rightarrow> ('k, 'v) hashMap \<Rightarrow> nat \<Rightarrow> ('k, 'v) hashMap outcome"
where
  "resetHashMap hc eq m n = reset_n hm_fuel hc eq m n"

text \<open>The chain behind the first entry without its first match.\<close>

fun chain_remove :: "('k \<Rightarrow> 'k \<Rightarrow> bool) \<Rightarrow> 'k \<Rightarrow> ('k, 'v) bucket \<Rightarrow> ('k, 'v) bucket \<times> bool" where
  "chain_remove eq k [] = ([], False)"
| "chain_remove eq k ((k', v) # es) =
     (if eq k' k then (es, True)
      else (case chain_remove eq k es of (es', r) \<Rightarrow> ((k', v) # es', r)))"

definition defaultRemove ::
  "('k \<Rightarrow> u64) \<Rightarrow> ('k \<Rightarrow> 'k \<Rightarrow> bool) \<Rightarrow> ('k, 'v) hashMap \<Rightarrow> 'k \<Rightarrow> ('k option \<times> ('k, 'v) hashMap) outcome"
where
  "defaultRemove hc eq m k =
     bind_out (slot_of hc m k) (\<lambda>index.
     bind_out (array_get (hm_list m) index) (\<lambda>b.
     case b of
       [] \<Rightarrow> Ret (None, m)
     | (entryKey, _) # _ \<Rightarrow>
         (case chain_remove eq k b of (b', result) \<Rightarrow>
            let m' = m\<lparr>hm_list := (hm_list m)[index := b'],
                       hm_size := (if result then hm_size m - 1 else hm_size m)\<rparr> in
            if result \<and> autoAssign m' \<and> hm_size m' < int (listSize m' div 2)
            then bind_out (resetHashMap hc eq m' (listSize m' div 2)) (\<lambda>m''. Ret (Some entryKey, m''))
            else Ret (Some entryKey, m'))))"

definition defaultClear :: "('k, 'v) hashMap \<Rightarrow> ('k, 'v) hashMap" where
  "defaultClear m = m\<lparr>hm_list := [], hm_size := - 1, listSize := 0\<rparr>"

section \<open>Iteration meets every pair once\<close>

text \<open>What is left to visit from a position on.\<close>

definition it_rest :: "('k, 'v) hashMap \<Rightarrow> hashMapIterator \<Rightarrow> ('k \<times> 'v) list" where
  "it_rest m it = (case it_entry it of
       None \<Rightarrow> concat (drop (nat (it_hashCode it + 1)) (hm_list m))
     | Some (b, i) \<Rightarrow> drop (Suc i) (hm_list m ! b) @ concat (drop (nat (it_hashCode it + 1)) (hm_list m)))"

lemma next_slot_spec:
  "case next_slot bs i of
     (j, True) \<Rightarrow> i \<le> j \<and> j - i < length bs \<and> bs ! (j - i) \<noteq> [] \<and> concat bs = concat (drop (j - i) bs)
   | (j, False) \<Rightarrow> concat bs = []"
proof (induction bs i rule: next_slot.induct)
  case (2 b bs i)
  show ?case
  proof (cases "b = []")
    case True
    then show ?thesis
      using "2" by (auto simp: Suc_diff_le Suc_le_eq split: prod.splits bool.splits)
         (metis Suc_diff_Suc Suc_le_lessD nth_Cons_Suc drop_Suc_Cons Suc_less_eq)+
  qed simp
qed simp

lemma next_step:
  assumes "length (hm_list m) = listSize m" "hasNextHashMapIterator m it" "it_rest m it = e # es"
    and "- 1 \<le> it_hashCode it"
  shows "\<exists>b i. it_entry (nextHashMapIterator m it) = Some (b, i) \<and> hm_list m ! b ! i = e \<and>
     it_count (nextHashMapIterator m it) = it_count it + 1 \<and> it_rest m (nextHashMapIterator m it) = es \<and>
     - 1 \<le> it_hashCode (nextHashMapIterator m it)"
proof -
  define n where "n = nat (it_hashCode it + 1)"
  have jump: "\<exists>j. next_slot (drop n (hm_list m)) n = (j, True) \<and> n \<le> j \<and> hm_list m ! j \<noteq> [] \<and>
      concat (drop n (hm_list m)) = hm_list m ! j @ concat (drop (Suc j) (hm_list m))"
    if "concat (drop n (hm_list m)) \<noteq> []"
  proof -
    obtain j r where jr: "next_slot (drop n (hm_list m)) n = (j, r)" by fastforce
    with next_slot_spec [where bs = "drop n (hm_list m)" and i = n] that have "r" by (cases r) auto
    with next_slot_spec [where bs = "drop n (hm_list m)" and i = n] jr
    have *: "n \<le> j" "j - n < length (drop n (hm_list m))" "drop n (hm_list m) ! (j - n) \<noteq> []"
      "concat (drop n (hm_list m)) = concat (drop (j - n) (drop n (hm_list m)))" by auto
    have "drop (j - n) (drop n (hm_list m)) = hm_list m ! j # drop (Suc j) (hm_list m)"
      using * by (simp add: Cons_nth_drop_Suc)
    with * jr \<open>r\<close> show ?thesis by auto
  qed
  show ?thesis
  proof (cases "\<exists>b i. it_entry it = Some (b, i) \<and> Suc i < length (hm_list m ! b)")
    case True
    then obtain b i where "it_entry it = Some (b, i)" "Suc i < length (hm_list m ! b)" by blast
    with assms show ?thesis
      by (auto simp: nextHashMapIterator_def it_rest_def Cons_nth_drop_Suc [symmetric])
  next
    case False
    then have rest: "concat (drop n (hm_list m)) = e # es"
      using assms(3) by (auto simp: it_rest_def n_def split: option.splits)
    with jump obtain j where j: "next_slot (drop n (hm_list m)) n = (j, True)"
      "hm_list m ! j \<noteq> []" "concat (drop n (hm_list m)) = hm_list m ! j @ concat (drop (Suc j) (hm_list m))"
      by auto
    have "nextHashMapIterator m it = it\<lparr>it_hashCode := int j, it_count := it_count it + 1, it_entry := Some (j, 0)\<rparr>"
      using False assms(1,2) j(1) by (auto simp: nextHashMapIterator_def n_def split: option.splits)
    moreover have "hm_list m ! j = e # tl (hm_list m ! j)"
      using rest j(2,3) by (cases "hm_list m ! j") auto
    moreover have "drop (Suc 0) (hm_list m ! j) @ concat (drop (Suc j) (hm_list m)) = es"
      using rest j(2,3) by (cases "hm_list m ! j") auto
    ultimately show ?thesis
      using nth_Cons_0 [of e "tl (hm_list m ! j)"] by (simp add: it_rest_def nat_add_distrib)
  qed
qed

lemma collect_rest:
  assumes "length (hm_list m) = listSize m" "- 1 \<le> it_hashCode it"
    and "hm_size m = it_count it + int (length (it_rest m it))" "n = length (it_rest m it)"
  shows "collect n m it = Ret (it_rest m it)"
  using assms
proof (induction n arbitrary: it)
  case (Suc n)
  then obtain e es where e: "it_rest m it = e # es" by (cases "it_rest m it") auto
  have nx: "hasNextHashMapIterator m it" using Suc.prems e by (simp add: hasNextHashMapIterator_def)
  from next_step [OF Suc.prems(1) nx e Suc.prems(2)] obtain b i where bi:
    "it_entry (nextHashMapIterator m it) = Some (b, i)" "hm_list m ! b ! i = e"
    "it_count (nextHashMapIterator m it) = it_count it + 1" "it_rest m (nextHashMapIterator m it) = es"
    "- 1 \<le> it_hashCode (nextHashMapIterator m it)" by blast
  have "collect n m (nextHashMapIterator m it) = Ret es"
    using Suc.IH [of "nextHashMapIterator m it"] Suc.prems e bi by simp
  with bi nx e show ?case by (simp add: Let_def)
qed simp

lemma collect_all:
  assumes "length (hm_list m) = listSize m" "hm_size m = int (length (hm_entries m))"
  shows "collect (nat (hm_size m)) m createHashMapIterator = Ret (hm_entries m)"
  using collect_rest [of m createHashMapIterator] assms
  by (simp add: it_rest_def createHashMapIterator_def hm_entries_def)

section \<open>Well-formed tables\<close>

text \<open>
  Keys are compared and hashed through a canonical form \<open>canon\<close>. In a well-formed table every pair
  sits in the slot of its key and no two keys have the same canonical form.
\<close>

definition hm_wf :: "('k \<Rightarrow> u64) \<Rightarrow> ('k \<Rightarrow> 'c) \<Rightarrow> ('k, 'v) hashMap \<Rightarrow> bool" where
  "hm_wf hc canon m \<longleftrightarrow>
     0 < listSize m \<and> length (hm_list m) = listSize m \<and> hm_size m = int (length (hm_entries m)) \<and>
     distinct (map (\<lambda>e. canon (fst e)) (hm_entries m)) \<and>
     (\<forall>i < listSize m. \<forall>e \<in> set (hm_list m ! i). unat (hc (fst e)) mod listSize m = i)"

definition hm_map :: "('k \<Rightarrow> 'c) \<Rightarrow> ('k, 'v) hashMap \<Rightarrow> 'c \<Rightarrow> 'v option" where
  "hm_map canon m = map_of (map (map_prod canon id) (hm_entries m))"

lemma entries_split:
  assumes "i < length (hm_list m)"
  obtains A C where "hm_entries m = A @ hm_list m ! i @ C"
    "\<forall>b. concat ((hm_list m)[i := b]) = A @ b @ C"
proof
  show "hm_entries m = concat (take i (hm_list m)) @ hm_list m ! i @ concat (drop (Suc i) (hm_list m))"
    unfolding hm_entries_def using id_take_nth_drop [OF assms] by (metis concat.simps(2) concat_append)
  show "\<forall>b. concat ((hm_list m)[i := b]) = concat (take i (hm_list m)) @ b @ concat (drop (Suc i) (hm_list m))"
    using assms by (simp add: upd_conv_take_nth_drop)
qed

lemma map_of_canon:
  assumes "distinct (map (\<lambda>e. canon (fst e)) es)"
  shows "map_of (map (map_prod canon id) es) c = Some v \<longleftrightarrow> (\<exists>k. (k, v) \<in> set es \<and> canon k = c)"
proof -
  have "distinct (map fst (map (map_prod canon id) es))" using assms by (simp add: comp_def)
  then show ?thesis by (subst map_of_eq_Some_iff) (auto simp: map_prod_def)
qed

lemma map_of_canon_None:
  "map_of (map (map_prod canon id) es) c = None \<longleftrightarrow> (\<forall>e \<in> set es. canon (fst e) \<noteq> c)"
  by (force simp: map_of_eq_None_iff image_iff)

lemma hm_map_eqI:
  assumes "distinct (map (\<lambda>e. canon (fst e)) (hm_entries m))" "distinct (map (\<lambda>e. canon (fst e)) (hm_entries m'))"
    and "set (hm_entries m) = set (hm_entries m')"
  shows "hm_map canon m = hm_map canon m'"
proof
  fix c
  have "hm_map canon m c = Some v \<longleftrightarrow> hm_map canon m' c = Some v" for v
    using assms by (simp add: hm_map_def map_of_canon)
  then show "hm_map canon m c = hm_map canon m' c" by (metis option.exhaust)
qed

text \<open>The tables the code works with also resize themselves and are never full.\<close>

definition hm_inv :: "('k \<Rightarrow> u64) \<Rightarrow> ('k \<Rightarrow> 'c) \<Rightarrow> ('k, 'v) hashMap \<Rightarrow> bool" where
  "hm_inv hc canon m \<longleftrightarrow>
     hm_wf hc canon m \<and> 8 \<le> listSize m \<and> hm_size m < int (listSize m) \<and> autoAssign m"

lemma hm_inv_create: "hm_inv hc canon createHashMap" "hm_map canon createHashMap = Map.empty"
  by (simp_all add: hm_inv_def hm_wf_def createHashMap_def hm_entries_def hm_map_def DEFAULT_HASHMAP_SIZE_def)

lemma length_filter_one:
  assumes "distinct (map f xs)"
  shows "length (filter (\<lambda>e. f e \<noteq> c) xs) = (if \<exists>e \<in> set xs. f e = c then length xs - 1 else length xs)"
  using assms
proof (induction xs)
  case (Cons x xs)
  show ?case
  proof (cases "f x = c")
    case True
    with Cons.prems have "\<forall>e \<in> set xs. f e \<noteq> c" by (auto simp: image_iff)
    with True show ?thesis by (simp add: filter_True)
  next
    case False
    with Cons show ?thesis by auto (metis Suc_pred length_pos_if_in_set One_nat_def)
  qed
qed simp

text \<open>Key functions that factor through a canonical form.\<close>

locale key_ops =
  fixes hc :: "'k \<Rightarrow> u64" and eq :: "'k \<Rightarrow> 'k \<Rightarrow> bool" and canon :: "'k \<Rightarrow> 'c"
  assumes eq_canon: "eq k k' \<longleftrightarrow> canon k = canon k'"
    and hc_canon: "canon k = canon k' \<Longrightarrow> hc k = hc k'"
begin

lemma slot_lookup:
  fixes k :: 'k
  assumes "hm_wf hc canon m"
  defines "i \<equiv> unat (hc k) mod listSize m"
  shows "slot_of hc m k = Ret i" "i < length (hm_list m)" "array_get (hm_list m) i = Ret (hm_list m ! i)"
  using assms by (auto simp: hm_wf_def slot_of_def)

text \<open>An entry with the key's canonical form can only be in the key's bucket.\<close>

lemma entry_in_slot:
  assumes "hm_wf hc canon m" "e \<in> set (hm_entries m)" "canon (fst e) = canon k"
  shows "e \<in> set (hm_list m ! (unat (hc k) mod listSize m))"
proof -
  from assms(2) obtain b where "b \<in> set (hm_list m)" "e \<in> set b" by (auto simp: hm_entries_def)
  then obtain j where j: "j < length (hm_list m)" "e \<in> set (hm_list m ! j)" by (metis in_set_conv_nth)
  with assms(1) have "unat (hc (fst e)) mod listSize m = j" by (auto simp: hm_wf_def)
  with hc_canon [OF assms(3)] j show ?thesis by auto
qed

lemma slot_entries:
  assumes "i < length (hm_list m)" "e \<in> set (hm_list m ! i)"
  shows "e \<in> set (hm_entries m)"
  using assms by (auto simp: hm_entries_def)

lemma chain_find_spec:
  assumes "distinct (map (\<lambda>e. canon (fst e)) b)"
  shows "chain_find eq k b = Some v \<longleftrightarrow> (\<exists>k'. (k', v) \<in> set b \<and> canon k' = canon k)"
  using assms
proof (induction b)
  case (Cons e b)
  obtain k0 v0 where "e = (k0, v0)" by (cases e)
  with Cons show ?case by (auto simp: eq_canon image_iff)
qed simp

lemma bucket_distinct:
  assumes "hm_wf hc canon m" "i < length (hm_list m)"
  shows "distinct (map (\<lambda>e. canon (fst e)) (hm_list m ! i))"
  using assms entries_split [OF assms(2)] by (metis distinct_append hm_wf_def map_append)

lemma exists_ok:
  assumes "hm_wf hc canon m"
  shows "defaultExists hc eq m k = Ret (hm_map canon m (canon k) \<noteq> None)"
proof -
  let ?b = "hm_list m ! (unat (hc k) mod listSize m)"
  have "(\<exists>e \<in> set ?b. eq (fst e) k) \<longleftrightarrow> (\<exists>e \<in> set (hm_entries m). canon (fst e) = canon k)"
    using entry_in_slot [OF assms, of _ k] slot_entries [OF slot_lookup(2) [OF assms, of k]] eq_canon by blast
  then show ?thesis
    using slot_lookup [OF assms, of k]
    by (auto simp: defaultExists_def hm_map_def map_of_canon_None simp del: not_None_eq)
qed

lemma get_ok:
  assumes "hm_wf hc canon m"
  shows "defaultGet hc eq m k = Ret (hm_map canon m (canon k))"
proof -
  let ?b = "hm_list m ! (unat (hc k) mod listSize m)"
  note sl = slot_lookup [OF assms, of k]
  have d: "distinct (map (\<lambda>e. canon (fst e)) (hm_entries m))" using assms by (simp add: hm_wf_def)
  have "chain_find eq k ?b = Some v \<longleftrightarrow> hm_map canon m (canon k) = Some v" for v
    unfolding chain_find_spec [OF bucket_distinct [OF assms sl(2)]] hm_map_def map_of_canon [OF d]
    using entry_in_slot [OF assms, of _ k] slot_entries [OF sl(2)] by fastforce
  then have "chain_find eq k ?b = hm_map canon m (canon k)" by (metis option.exhaust)
  then show ?thesis using sl exists_ok [OF assms, of k] by (auto simp: defaultGet_def)
qed

lemma put_slot_new:
  assumes "hm_wf hc canon m" "\<forall>e \<in> set (hm_entries m). canon (fst e) \<noteq> canon k"
  shows "\<exists>m'. put_slot hc eq m k v = Ret (True, m') \<and> hm_wf hc canon m' \<and>
     set (hm_entries m') = insert (k, v) (set (hm_entries m)) \<and> hm_size m' = hm_size m + 1 \<and>
     listSize m' = listSize m \<and> autoAssign m' = autoAssign m"
proof -
  define i where "i = unat (hc k) mod listSize m"
  note sl = slot_lookup [OF assms(1), of k, folded i_def]
  obtain A C where AC: "hm_entries m = A @ hm_list m ! i @ C" "\<forall>b. concat ((hm_list m)[i := b]) = A @ b @ C"
    by (rule entries_split [OF sl(2)])
  have no: "\<forall>e \<in> set (hm_list m ! i). \<not> eq k (fst e)"
    using assms(2) slot_entries [OF sl(2)] eq_canon by metis
  define X Y where "X = take 1 (hm_list m ! i)" and "Y = drop 1 (hm_list m ! i)"
  have XY: "hm_list m ! i = X @ Y" by (simp add: X_def Y_def)
  define b' where "b' = X @ (k, v) # Y"
  have b': "put_bucket eq k v (hm_list m ! i) = (b', True)"
    using no by (cases "hm_list m ! i") (auto simp: b'_def X_def Y_def)
  define m' where "m' = m\<lparr>hm_list := (hm_list m)[i := b'], hm_size := hm_size m + 1\<rparr>"
  have en: "hm_entries m' = A @ b' @ C" using AC by (simp add: m'_def hm_entries_def)
  have ent: "hm_entries m = A @ X @ Y @ C" using AC(1) XY by simp
  have "distinct (map (\<lambda>e. canon (fst e)) (A @ X @ Y @ C))"
    using assms(1) unfolding hm_wf_def ent by blast
  moreover have "\<forall>e \<in> set (A @ X @ Y @ C). canon k \<noteq> canon (fst e)"
    using assms(2) unfolding ent by metis
  ultimately have "distinct (map (\<lambda>e. canon (fst e)) (hm_entries m'))"
    unfolding en b'_def by auto
  moreover have "\<forall>j < listSize m. \<forall>e \<in> set (hm_list m' ! j). unat (hc (fst e)) mod listSize m = j"
    using assms(1) sl(2) XY by (auto simp: hm_wf_def m'_def b'_def nth_list_update i_def)
  ultimately have "hm_wf hc canon m'"
    using assms(1) AC(1) XY en by (simp add: hm_wf_def m'_def b'_def)
  moreover have "put_slot hc eq m k v = Ret (True, m')" using sl b' by (simp add: put_slot_def m'_def)
  moreover have "set (hm_entries m') = insert (k, v) (set (hm_entries m))" using en AC XY by (auto simp: b'_def)
  ultimately show ?thesis by (auto simp: m'_def)
qed

lemma put_all_ok:
  assumes "hm_wf hc canon m" "distinct (map (\<lambda>e. canon (fst e)) (es @ hm_entries m))"
    and "hm_size m + int (length es) < int (listSize m)"
  shows "\<exists>m'. put_all_n (Suc f) hc eq m es = Ret m' \<and> hm_wf hc canon m' \<and>
     set (hm_entries m') = set es \<union> set (hm_entries m) \<and> hm_size m' = hm_size m + int (length es) \<and>
     listSize m' = listSize m \<and> autoAssign m' = autoAssign m"
  using assms
proof (induction es arbitrary: m)
  case (Cons e es)
  obtain k v where e: "e = (k, v)" by (cases e)
  have "\<forall>x \<in> set (hm_entries m). canon (fst x) \<noteq> canon k"
    using Cons.prems(2) e by (auto simp: image_iff)
  from put_slot_new [OF Cons.prems(1) this, of v] obtain m1 where m1:
    "put_slot hc eq m k v = Ret (True, m1)" "hm_wf hc canon m1"
    "set (hm_entries m1) = insert (k, v) (set (hm_entries m))" "hm_size m1 = hm_size m + 1"
    "listSize m1 = listSize m" "autoAssign m1 = autoAssign m" by blast
  have put: "put_n (Suc f) hc eq m k v = Ret m1" using m1 Cons.prems(3) by simp
  have "distinct (map (\<lambda>e. canon (fst e)) (hm_entries m1))" using m1(2) by (simp add: hm_wf_def)
  then have "distinct (map (\<lambda>e. canon (fst e)) (es @ hm_entries m1))"
    using Cons.prems(2) e m1(3) by (auto simp: image_iff)
  with Cons.IH [OF m1(2)] m1 Cons.prems(3) obtain m' where
    "put_all_n (Suc f) hc eq m1 es = Ret m'" "hm_wf hc canon m'"
    "set (hm_entries m') = set es \<union> set (hm_entries m1)" "hm_size m' = hm_size m1 + int (length es)"
    "listSize m' = listSize m1" "autoAssign m' = autoAssign m1" by auto
  with put m1 e show ?case by auto
qed simp

lemma reset_ok:
  assumes "hm_wf hc canon m" "8 \<le> n" "hm_size m < int n"
  shows "\<exists>m'. reset_n (Suc f) hc eq m n = Ret m' \<and> hm_wf hc canon m' \<and>
     set (hm_entries m') = set (hm_entries m) \<and> hm_size m' = hm_size m \<and> listSize m' = n \<and>
     autoAssign m' = autoAssign m"
proof -
  let ?m0 = "m\<lparr>hm_size := 0, listSize := n, hm_list := replicate n []\<rparr>"
  have e0: "hm_entries ?m0 = []" by (simp add: hm_entries_def)
  then have "hm_wf hc canon ?m0" using assms(2) by (simp add: hm_wf_def)
  moreover have "distinct (map (\<lambda>e. canon (fst e)) (hm_entries m @ hm_entries ?m0))"
      "hm_size ?m0 + int (length (hm_entries m)) < int (listSize ?m0)"
    using assms e0 by (auto simp: hm_wf_def)
  moreover have "collect (nat (hm_size m)) m createHashMapIterator = Ret (hm_entries m)"
      "hm_size m = int (length (hm_entries m))"
    using assms(1) collect_all [of m] by (simp_all add: hm_wf_def)
  ultimately show ?thesis using put_all_ok [of ?m0 "hm_entries m" f] assms(2) e0 by auto
qed

lemma put_new:
  assumes "hm_inv hc canon m" "hm_map canon m (canon k) = None"
  shows "\<exists>m'. defaultPut hc eq m k v = Ret m' \<and> hm_inv hc canon m' \<and>
     hm_map canon m' = (hm_map canon m)(canon k \<mapsto> v)"
proof -
  have wf: "hm_wf hc canon m" using assms(1) by (simp add: hm_inv_def)
  have "\<forall>e \<in> set (hm_entries m). canon (fst e) \<noteq> canon k"
    using assms(2) by (simp add: hm_map_def map_of_canon_None)
  from put_slot_new [OF wf this, of v] obtain m1 where m1:
    "put_slot hc eq m k v = Ret (True, m1)" "hm_wf hc canon m1"
    "set (hm_entries m1) = insert (k, v) (set (hm_entries m))" "hm_size m1 = hm_size m + 1"
    "listSize m1 = listSize m" "autoAssign m1 = autoAssign m" by blast
  obtain m2 where m2: "defaultPut hc eq m k v = Ret m2" "hm_inv hc canon m2"
    "set (hm_entries m2) = set (hm_entries m1)"
  proof (cases "int (listSize m1) \<le> hm_size m1")
    case True
    from reset_ok [OF m1(2), of "listSize m1 * 2" 0] assms(1) m1 obtain m2 where
      "reset_n (Suc 0) hc eq m1 (listSize m1 * 2) = Ret m2" "hm_wf hc canon m2"
      "set (hm_entries m2) = set (hm_entries m1)" "hm_size m2 = hm_size m1" "listSize m2 = listSize m1 * 2"
      "autoAssign m2 = autoAssign m1" by (auto simp: hm_inv_def)
    with that [of m2] True m1 assms(1) show thesis
      by (auto simp: defaultPut_def hm_fuel_def numeral_2_eq_2 hm_inv_def)
  next
    case False
    with that [of m1] m1 assms(1) show thesis
      by (auto simp: defaultPut_def hm_fuel_def numeral_2_eq_2 hm_inv_def)
  qed
  have "hm_map canon m2 c = Some x \<longleftrightarrow> ((hm_map canon m)(canon k \<mapsto> v)) c = Some x" for c x
  proof -
    have "hm_map canon m2 c = Some x \<longleftrightarrow> (\<exists>k'. (k', x) \<in> insert (k, v) (set (hm_entries m)) \<and> canon k' = c)"
      using m2 m1 by (simp add: hm_map_def map_of_canon hm_inv_def hm_wf_def)
    also have "\<dots> \<longleftrightarrow> ((hm_map canon m)(canon k \<mapsto> v)) c = Some x"
      using \<open>\<forall>e \<in> set (hm_entries m). _\<close> wf by (force simp: hm_map_def map_of_canon hm_wf_def)
    finally show ?thesis .
  qed
  then have "hm_map canon m2 = (hm_map canon m)(canon k \<mapsto> v)"
    by (intro ext) (metis option.exhaust)
  with m2 show ?thesis by blast
qed

lemma chain_remove_spec:
  assumes "distinct (map (\<lambda>e. canon (fst e)) b)"
  shows "chain_remove eq k b = (filter (\<lambda>e. canon (fst e) \<noteq> canon k) b, \<exists>e \<in> set b. canon (fst e) = canon k)"
  using assms
proof (induction b)
  case (Cons e b)
  obtain k0 v0 where e: "e = (k0, v0)" by (cases e)
  show ?case
  proof (cases "canon k0 = canon k")
    case True
    with Cons.prems e have "\<forall>x \<in> set b. canon (fst x) \<noteq> canon k" by (auto simp: image_iff)
    then have "filter (\<lambda>e. canon (fst e) \<noteq> canon k) b = b" by (simp add: filter_True)
    with True e show ?thesis by (simp add: eq_canon)
  next
    case False
    with Cons e show ?thesis by (auto simp: eq_canon)
  qed
qed simp

lemma remove_slot:
  fixes k :: 'k
  assumes "hm_wf hc canon m"
  defines "i \<equiv> unat (hc k) mod listSize m"
  defines "b' \<equiv> filter (\<lambda>e. canon (fst e) \<noteq> canon k) (hm_list m ! i)"
  shows "concat ((hm_list m)[i := b']) = filter (\<lambda>e. canon (fst e) \<noteq> canon k) (hm_entries m)"
proof -
  note sl = slot_lookup [OF assms(1), of k, folded i_def]
  obtain A C where AC: "hm_entries m = A @ hm_list m ! i @ C" "\<forall>b. concat ((hm_list m)[i := b]) = A @ b @ C"
    by (rule entries_split [OF sl(2)])
  have out: "canon (fst e) \<noteq> canon k" if "e \<in> set A \<union> set C" for e
  proof
    assume "canon (fst e) = canon k"
    with that AC(1) entry_in_slot [OF assms(1), of e k] have "e \<in> set (hm_list m ! i)"
      by (auto simp: i_def)
    with that AC(1) assms(1) show False
      by (auto simp: hm_wf_def)
  qed
  then have "filter (\<lambda>e. canon (fst e) \<noteq> canon k) A = A" "filter (\<lambda>e. canon (fst e) \<noteq> canon k) C = C"
    by (auto simp: filter_id_conv)
  with AC show ?thesis by (simp add: b'_def)
qed

lemma remove_ok:
  assumes "hm_inv hc canon m"
  shows "\<exists>r m'. defaultRemove hc eq m k = Ret (r, m') \<and> hm_inv hc canon m' \<and>
     hm_map canon m' = (hm_map canon m)(canon k := None)"
proof -
  have wf: "hm_wf hc canon m" using assms by (simp add: hm_inv_def)
  define i where "i = unat (hc k) mod listSize m"
  note sl = slot_lookup [OF wf, of k, folded i_def]
  let ?b = "hm_list m ! i" and ?P = "\<lambda>e. canon (fst e) \<noteq> canon k"
  define found where "found \<longleftrightarrow> (\<exists>e \<in> set ?b. canon (fst e) = canon k)"
  define m1 where "m1 = m\<lparr>hm_list := (hm_list m)[i := filter ?P ?b], hm_size := (if found then hm_size m - 1 else hm_size m)\<rparr>"
  have en: "hm_entries m1 = filter ?P (hm_entries m)"
    using remove_slot [OF wf, of k] by (simp add: m1_def hm_entries_def i_def)
  have dm: "distinct (map (\<lambda>e. canon (fst e)) (hm_entries m))" using wf by (simp add: hm_wf_def)
  then have dm1: "distinct (map (\<lambda>e. canon (fst e)) (hm_entries m1))" unfolding en by (rule distinct_map_filter)
  have "hm_map canon m1 c = Some x \<longleftrightarrow> ((hm_map canon m)(canon k := None)) c = Some x" for c x
    using dm dm1 by (auto simp: hm_map_def map_of_canon en)
  then have map1: "hm_map canon m1 = (hm_map canon m)(canon k := None)"
    by (intro ext) (metis option.exhaust)
  have found_iff: "found \<longleftrightarrow> (\<exists>e \<in> set (hm_entries m). canon (fst e) = canon k)"
    using entry_in_slot [OF wf, of _ k] slot_entries [OF sl(2)] unfolding found_def i_def by blast
  have "found \<Longrightarrow> Suc 0 \<le> length (hm_entries m)"
    using found_iff by (auto simp: Suc_le_eq intro: length_pos_if_in_set)
  then have size1: "hm_size m1 = int (length (hm_entries m1))"
    unfolding en length_filter_one [OF dm, of "canon k"] found_iff [symmetric] using wf
    by (simp add: m1_def hm_wf_def of_nat_diff)
  have "\<forall>j < listSize m. \<forall>e \<in> set (hm_list m1 ! j). unat (hc (fst e)) mod listSize m = j"
    using wf sl(2) by (auto simp: hm_wf_def m1_def nth_list_update)
  then have wf1: "hm_wf hc canon m1" using wf dm1 size1 by (simp add: hm_wf_def m1_def)
  then have inv1: "hm_inv hc canon m1" using assms by (auto simp: hm_inv_def m1_def)
  show ?thesis
  proof (cases "?b = []")
    case True
    then have "hm_entries m1 = hm_entries m" unfolding en using found_iff by (auto simp: found_def filter_id_conv)
    then have "hm_map canon m = (hm_map canon m)(canon k := None)" using map1 by (simp add: hm_map_def)
    with True sl assms show ?thesis by (auto simp: defaultRemove_def)
  next
    case False
    then obtain k0 v0 es where b: "?b = (k0, v0) # es" by (cases ?b) auto
    have rm: "chain_remove eq k ?b = (filter ?P ?b, found)"
      using chain_remove_spec [OF bucket_distinct [OF wf sl(2)]] by (simp add: found_def)
    have step: "defaultRemove hc eq m k =
        (if found \<and> autoAssign m1 \<and> hm_size m1 < int (listSize m1 div 2)
         then bind_out (resetHashMap hc eq m1 (listSize m1 div 2)) (\<lambda>m''. Ret (Some k0, m''))
         else Ret (Some k0, m1))"
      using sl rm unfolding defaultRemove_def by (simp add: b m1_def Let_def) blast
    show ?thesis
    proof (cases "found \<and> hm_size m1 < int (listSize m1 div 2) \<and> 8 \<le> listSize m1 div 2")
      case True
      with reset_ok [OF wf1, of "listSize m1 div 2" 1] obtain m2 where
        "reset_n (Suc 1) hc eq m1 (listSize m1 div 2) = Ret m2" "hm_wf hc canon m2"
        "set (hm_entries m2) = set (hm_entries m1)" "hm_size m2 = hm_size m1"
        "listSize m2 = listSize m1 div 2" "autoAssign m2 = autoAssign m1" by auto
      moreover from this have "hm_map canon m2 = hm_map canon m1"
        using dm1 by (intro hm_map_eqI) (auto simp: hm_wf_def)
      ultimately show ?thesis using True step inv1 map1
        by (auto simp: resetHashMap_def hm_fuel_def numeral_2_eq_2 hm_inv_def)
    next
      case False
      then show ?thesis using step inv1 map1
        by (auto simp: resetHashMap_def hm_fuel_def not_le)
    qed
  qed
qed

end

section \<open>The table as a finite map\<close>

text \<open>
  What the clients rely on: lookups read an abstract map, new keys are added, keys are removed.
\<close>

datatype ('k, 'v) map_op = Ins 'k 'v | Del 'k

fun map_run ::
  "('m \<Rightarrow> 'k \<Rightarrow> 'v \<Rightarrow> 'm outcome) \<Rightarrow> ('m \<Rightarrow> 'k \<Rightarrow> ('r \<times> 'm) outcome) \<Rightarrow> 'm \<Rightarrow> ('k, 'v) map_op list \<Rightarrow> 'm outcome"
where
  "map_run ins del m [] = Ret m"
| "map_run ins del m (Ins k v # ops) = bind_out (ins m k v) (\<lambda>m'. map_run ins del m' ops)"
| "map_run ins del m (Del k # ops) = bind_out (del m k) (\<lambda>(_, m'). map_run ins del m' ops)"

fun map_spec :: "('k \<Rightarrow> 'c) \<Rightarrow> ('c \<Rightarrow> 'v option) \<Rightarrow> ('k, 'v) map_op list \<Rightarrow> 'c \<Rightarrow> 'v option" where
  "map_spec canon f [] = f"
| "map_spec canon f (Ins k v # ops) = map_spec canon (f(canon k \<mapsto> v)) ops"
| "map_spec canon f (Del k # ops) = map_spec canon (f(canon k := None)) ops"

text \<open>Every insertion is of a key that is not there.\<close>

fun fresh_ops :: "('k \<Rightarrow> 'c) \<Rightarrow> ('c \<Rightarrow> 'v option) \<Rightarrow> ('k, 'v) map_op list \<Rightarrow> bool" where
  "fresh_ops canon f [] \<longleftrightarrow> True"
| "fresh_ops canon f (Ins k v # ops) \<longleftrightarrow> f (canon k) = None \<and> fresh_ops canon (f(canon k \<mapsto> v)) ops"
| "fresh_ops canon f (Del k # ops) \<longleftrightarrow> fresh_ops canon (f(canon k := None)) ops"

locale map_contract =
  fixes lookup :: "'m \<Rightarrow> 'k \<Rightarrow> 'v option outcome"
    and ins :: "'m \<Rightarrow> 'k \<Rightarrow> 'v \<Rightarrow> 'm outcome"
    and del :: "'m \<Rightarrow> 'k \<Rightarrow> ('r \<times> 'm) outcome"
    and abst :: "'m \<Rightarrow> 'c \<Rightarrow> 'v option"
    and invar :: "'m \<Rightarrow> bool"
    and canon :: "'k \<Rightarrow> 'c"
  assumes lookup_law: "invar m \<Longrightarrow> lookup m k = Ret (abst m (canon k))"
    and ins_law: "invar m \<Longrightarrow> abst m (canon k) = None \<Longrightarrow>
      \<exists>m'. ins m k v = Ret m' \<and> invar m' \<and> abst m' = (abst m)(canon k \<mapsto> v)"
    and del_law: "invar m \<Longrightarrow>
      \<exists>r m'. del m k = Ret (r, m') \<and> invar m' \<and> abst m' = (abst m)(canon k := None)"
begin

lemma run_refines:
  assumes "invar m" "fresh_ops canon (abst m) ops"
  shows "\<exists>m'. map_run ins del m ops = Ret m' \<and> invar m' \<and> abst m' = map_spec canon (abst m) ops
           \<and> (\<forall>k. lookup m' k = Ret (map_spec canon (abst m) ops (canon k)))"
  using assms
proof (induction ops arbitrary: m)
  case Nil
  then show ?case by (simp add: lookup_law)
next
  case (Cons c ops)
  show ?case
  proof (cases c)
    case (Ins k v)
    with Cons.prems ins_law [of m k v] obtain m' where
      m': "ins m k v = Ret m'" "invar m'" "abst m' = (abst m)(canon k \<mapsto> v)" by auto
    have "fresh_ops canon (abst m') ops" using Cons.prems(2) Ins m'(3) by simp
    from Cons.IH [OF m'(2) this] show ?thesis
      by (simp only: Ins m' map_run.simps map_spec.simps bind_out.simps)
  next
    case (Del k)
    with Cons.prems del_law [of m k] obtain r m' where
      m': "del m k = Ret (r, m')" "invar m'" "abst m' = (abst m)(canon k := None)" by auto
    have "fresh_ops canon (abst m') ops" using Cons.prems(2) Del m'(3) by simp
    from Cons.IH [OF m'(2) this] show ?thesis
      by (simp only: Del m' map_run.simps map_spec.simps bind_out.simps prod.case)
  qed
qed

end

interpretation dk: key_ops defaultHashCode defaultEqual cstr
  by unfold_locales (simp_all add: defaultEqual_def defaultHashCode_def)

interpretation dm: map_contract "defaultGet defaultHashCode defaultEqual" "defaultPut defaultHashCode defaultEqual"
  "defaultRemove defaultHashCode defaultEqual" "hm_map cstr" "hm_inv defaultHashCode cstr" cstr
proof unfold_locales
  fix m :: "(key, 'v) hashMap" and k v
  assume inv: "hm_inv defaultHashCode cstr m"
  show "defaultGet defaultHashCode defaultEqual m k = Ret (hm_map cstr m (cstr k))"
    using inv by (simp add: hm_inv_def dk.get_ok)
  show "\<exists>m'. defaultPut defaultHashCode defaultEqual m k v = Ret m' \<and> hm_inv defaultHashCode cstr m' \<and>
      hm_map cstr m' = (hm_map cstr m)(cstr k \<mapsto> v)" if "hm_map cstr m (cstr k) = None"
    using inv that by (rule dk.put_new)
  show "\<exists>r m'. defaultRemove defaultHashCode defaultEqual m k = Ret (r, m') \<and> hm_inv defaultHashCode cstr m' \<and>
      hm_map cstr m' = (hm_map cstr m)(cstr k := None)"
    using inv by (rule dk.remove_ok)
qed

section \<open>Properties\<close>

text \<open>
  C11: from a new table, any sequence of insertions of absent keys and removals, with all the
  resizing it causes, ends with a table whose lookups agree with a finite map on C strings, and no
  call leaves defined behaviour or recurses further than the fuel allows.
\<close>

theorem hash_map_refines:
  assumes "fresh_ops cstr Map.empty ops"
  shows "\<exists>m. map_run (defaultPut defaultHashCode defaultEqual) (defaultRemove defaultHashCode defaultEqual)
             createHashMap ops = Ret m \<and>
           (\<forall>k. defaultGet defaultHashCode defaultEqual m k = Ret (map_spec cstr Map.empty ops (cstr k)))"
  using dm.run_refines [of createHashMap ops] assms by (auto simp: hm_inv_create)

theorem hash_map_refines_witness:
  "\<exists>m. map_run (defaultPut defaultHashCode defaultEqual) (defaultRemove defaultHashCode defaultEqual)
         createHashMap [Ins [97, 98, 0] (1 :: nat), Ins [98, 0] 2, Del [97, 98, 0], Ins [97, 98, 0] 3] = Ret m \<and>
     (\<forall>k. defaultGet defaultHashCode defaultEqual m k =
        Ret (map_spec cstr Map.empty [Ins [97, 98, 0] 1, Ins [98, 0] 2, Del [97, 98, 0], Ins [97, 98, 0] 3] (cstr k)))"
  by (rule hash_map_refines) (simp add: cstr_def)

lemma put_existing_slot:
  fixes v :: 'v
  assumes wf: "hm_wf defaultHashCode cstr m" and k: "hm_map cstr m (cstr k) \<noteq> None"
    and b: "hm_list m ! (unat (defaultHashCode k) mod listSize m) = (k0, v0) # es"
  defines "i \<equiv> unat (defaultHashCode k) mod listSize m"
  defines "m' \<equiv> m\<lparr>hm_list := (hm_list m)[i := (k0, v) # es]\<rparr>"
  shows "put_slot defaultHashCode defaultEqual m k v = Ret (False, m')"
    and "hm_map cstr m' = (hm_map cstr m)(cstr k0 \<mapsto> v)"
proof -
  note sl = dk.slot_lookup [OF wf, of k, folded i_def]
  have b': "hm_list m ! i = (k0, v0) # es" using b by (simp add: i_def)
  from k obtain e where "e \<in> set (hm_entries m)" "cstr (fst e) = cstr k"
    by (auto simp: hm_map_def map_of_canon_None simp del: not_None_eq not_Some_eq)
  then have "e \<in> set (hm_list m ! i)" using dk.entry_in_slot [OF wf] by (simp add: i_def)
  with \<open>cstr (fst e) = cstr k\<close> have "\<exists>e \<in> set (hm_list m ! i). defaultEqual k (fst e)"
    by (auto simp: defaultEqual_def intro!: bexI [of _ e])
  then show "put_slot defaultHashCode defaultEqual m k v = Ret (False, m')"
    using sl by (simp add: put_slot_def m'_def b')
  obtain A C where AC: "hm_entries m = A @ hm_list m ! i @ C" "\<forall>b. concat ((hm_list m)[i := b]) = A @ b @ C"
    by (rule entries_split [OF sl(2)])
  have "hm_entries m' = A @ (k0, v) # es @ C" using AC(2) by (simp add: m'_def hm_entries_def)
  moreover have "hm_entries m = A @ (k0, v0) # es @ C" using AC(1) b' by simp
  moreover have "map_of (map (map_prod cstr id) A) (cstr k0) = None"
    unfolding map_of_canon_None using wf \<open>hm_entries m = A @ (k0, v0) # es @ C\<close>
    by (auto simp: hm_wf_def image_iff)
  ultimately show "hm_map cstr m' = (hm_map cstr m)(cstr k0 \<mapsto> v)"
    by (intro ext) (auto simp: hm_map_def map_add_def split: option.splits)
qed

text \<open>
  C33: storing a value under a key that is already in the table writes the first entry of the bucket,
  whatever key that entry has: a key further down the chain keeps its old value and the first key of
  the bucket gets the new one.
\<close>

theorem hash_map_overwrite:
  assumes "hm_inv defaultHashCode cstr m" "hm_map cstr m (cstr k) \<noteq> None"
    and "hm_list m ! (unat (defaultHashCode k) mod listSize m) = (k0, v0) # es"
  shows "\<exists>m'. defaultPut defaultHashCode defaultEqual m k v = Ret m' \<and>
     hm_map cstr m' = (hm_map cstr m)(cstr k0 \<mapsto> v)"
  using put_existing_slot [OF _ assms(2,3), of v] assms(1)
  by (simp add: defaultPut_def hm_fuel_def numeral_2_eq_2 hm_inv_def)

definition demo_chain :: "(key, nat) hashMap" where
  "demo_chain = \<lparr>hm_size = 2, listSize = 8, hm_list = [] # [([97, 0], 1), ([105, 0], 2)] # replicate 6 [],
     autoAssign = True\<rparr>"

theorem hash_map_overwrite_witness:
  "\<exists>m'. defaultPut defaultHashCode defaultEqual demo_chain [105, 0] 7 = Ret m' \<and>
     hm_map cstr m' = (hm_map cstr demo_chain)(cstr [97, 0] \<mapsto> 7) \<and> hm_map cstr m' [105] = Some 2"
proof -
  have h: "defaultHashCode [97, 0] = 97" "defaultHashCode [105, 0] = 105"
    by (simp_all add: defaultHashCode_def cstr_def)
  have "hm_inv defaultHashCode cstr demo_chain"
    by (auto simp: hm_inv_def hm_wf_def demo_chain_def hm_entries_def cstr_def h nth_Cons')
  then have "\<exists>m'. defaultPut defaultHashCode defaultEqual demo_chain [105, 0] 7 = Ret m' \<and>
     hm_map cstr m' = (hm_map cstr demo_chain)(cstr [97, 0] \<mapsto> 7)"
    using hash_map_overwrite [of demo_chain "[105, 0]" "[97, 0]" 1 "[([105, 0], 2)]" 7]
    by (simp add: demo_chain_def hm_map_def hm_entries_def cstr_def h)
  moreover have "hm_map cstr demo_chain [105] = Some 2" "cstr [97, 0] = [97]"
    by (simp_all add: demo_chain_def hm_map_def hm_entries_def cstr_def)
  ultimately show ?thesis by auto
qed

text \<open>
  Numeric identifiers used as keys are read as C strings. All four-byte identifiers whose low byte
  is zero are the same key: after one of them is stored, a lookup of any other one finds it.
\<close>

theorem hash_map_ids_alias:
  fixes id1 id2 :: u32
  assumes "hm_inv defaultHashCode cstr m" "unat id1 mod 256 = 0" "unat id2 mod 256 = 0"
    and "hm_map cstr m (cstr (le_enc 4 (unat id1))) = None"
  shows "\<exists>m'. defaultPut defaultHashCode defaultEqual m (le_enc 4 (unat id1)) v = Ret m' \<and>
     defaultGet defaultHashCode defaultEqual m' (le_enc 4 (unat id2)) = Ret (Some v)"
proof -
  have "cstr (le_enc 4 (unat i)) = []" if "unat (i :: u32) mod 256 = 0" for i
  proof -
    have "(of_nat (unat i) :: byte) = 0" using that by (simp add: word_eq_iff_unat unsigned_ucast_eq take_bit_eq_mod)
    moreover have "le_enc 4 (unat i) = of_nat (unat i) # le_enc 3 (unat i div 256)"
      using le_enc.simps(2) [of 3 "unat i"] by simp
    ultimately show ?thesis by (simp add: cstr_def)
  qed
  then have "cstr (le_enc 4 (unat id1)) = []" "cstr (le_enc 4 (unat id2)) = []" using assms(2,3) by simp_all
  moreover obtain m' where "defaultPut defaultHashCode defaultEqual m (le_enc 4 (unat id1)) v = Ret m'"
    "hm_inv defaultHashCode cstr m'" "hm_map cstr m' = (hm_map cstr m)(cstr (le_enc 4 (unat id1)) \<mapsto> v)"
    using dk.put_new [OF assms(1,4)] by blast
  ultimately show ?thesis using dm.lookup_law [of m' "le_enc 4 (unat id2)"] by simp
qed

theorem hash_map_ids_alias_witness:
  "\<exists>m'. defaultPut defaultHashCode defaultEqual createHashMap (le_enc 4 (unat (0x1F900100 :: u32))) (7 :: nat) = Ret m' \<and>
     defaultGet defaultHashCode defaultEqual m' (le_enc 4 (unat (0x1F901F00 :: u32))) = Ret (Some 7)"
  by (rule hash_map_ids_alias) (simp_all add: hm_inv_create)

end
