(* ===== verification/Byte_Mem.thy ===== *)
theory Byte_Mem
  imports Prelude
begin

text \<open>
  Flat byte memory: a region is a list of bytes and an address in it is an offset. Reading and writing a
  range are undefined when the range leaves the region. Integers are stored least significant byte
  first.
\<close>

section \<open>Ranges\<close>

definition seg :: "'a list \<Rightarrow> nat \<Rightarrow> nat \<Rightarrow> 'a list" where
  "seg m off n = take n (drop off m)"

definition patch :: "'a list \<Rightarrow> nat \<Rightarrow> 'a list \<Rightarrow> 'a list" where
  "patch m off bs = take off m @ bs @ drop (off + length bs) m"

definition mem_read :: "'a list \<Rightarrow> nat \<Rightarrow> nat \<Rightarrow> 'a list outcome" where
  "mem_read m off n = (if off + n \<le> length m then Ret (seg m off n) else Undef)"

definition mem_write :: "'a list \<Rightarrow> nat \<Rightarrow> 'a list \<Rightarrow> 'a list outcome" where
  "mem_write m off bs = (if off + length bs \<le> length m then Ret (patch m off bs) else Undef)"

named_theorems mem_simps \<open>ranges of a memory after a write\<close>

lemma length_seg [simp]: "off + n \<le> length m \<Longrightarrow> length (seg m off n) = n"
  by (simp add: seg_def)

lemma length_patch [simp]: "off + length bs \<le> length m \<Longrightarrow> length (patch m off bs) = length m"
  by (simp add: patch_def)

lemma mem_read_ok [simp]: "off + n \<le> length m \<Longrightarrow> mem_read m off n = Ret (seg m off n)"
  by (simp add: mem_read_def)

lemma mem_write_ok [simp]: "off + length bs \<le> length m \<Longrightarrow> mem_write m off bs = Ret (patch m off bs)"
  by (simp add: mem_write_def)

lemma seg_patch_sub [mem_simps]:
  assumes "off + length bs \<le> length m" "off \<le> a" "a + n \<le> off + length bs"
  shows "seg (patch m off bs) a n = seg bs (a - off) n"
proof -
  have "drop a (patch m off bs) = drop (a - off) bs @ drop (off + length bs) m"
    using assms by (simp add: patch_def min_def)
  then show ?thesis using assms by (simp add: seg_def)
qed

lemma seg_patch_before [mem_simps]:
  assumes "off + length bs \<le> length m" "a + n \<le> off"
  shows "seg (patch m off bs) a n = seg m a n"
proof -
  have "take n (drop a (take off m @ bs @ drop (off + length bs) m)) = take n (drop a (take off m))"
    using assms by (simp add: take_append drop_append)
  also have "\<dots> = take n (drop a m)" using assms by (simp add: drop_take)
  finally show ?thesis by (simp add: seg_def patch_def)
qed

lemma seg_patch_after [mem_simps]:
  assumes "off + length bs \<le> length m" "off + length bs \<le> a"
  shows "seg (patch m off bs) a n = seg m a n"
proof -
  have "drop a (patch m off bs) = drop a m"
    using assms by (simp add: patch_def min_def)
  then show ?thesis by (simp add: seg_def)
qed

lemma seg_patch_same [mem_simps]:
  "off + length bs \<le> length m \<Longrightarrow> n = length bs \<Longrightarrow> seg (patch m off bs) off n = bs"
  by (simp add: seg_patch_sub) (simp add: seg_def)

lemma seg_all: "n = length bs \<Longrightarrow> seg bs 0 n = bs"
  by (simp add: seg_def)

lemma seg_seg: "a + n \<le> k \<Longrightarrow> seg (seg m off k) a n = seg m (off + a) n"
  by (simp add: seg_def drop_take add.commute)

lemma seg_append_left: "off + n \<le> length xs \<Longrightarrow> seg (xs @ ys) off n = seg xs off n"
  by (simp add: seg_def)

lemma seg_append_right: "length xs \<le> off \<Longrightarrow> seg (xs @ ys) off n = seg ys (off - length xs) n"
  by (simp add: seg_def)

text \<open>Two adjacent ranges, read one after the other.\<close>

lemma seg_join: "seg m off (n + k) = seg m off n @ seg m (off + n) k"
  by (simp add: seg_def take_add) (simp add: add.commute)

section \<open>Slots\<close>

text \<open>Slots of the same size: two different ones do not meet.\<close>

lemma slot_disjoint:
  fixes i j sz :: nat
  assumes "i \<noteq> j"
  shows "i * sz + sz \<le> j * sz \<or> j * sz + sz \<le> i * sz"
proof -
  from assms have "Suc i \<le> j \<or> Suc j \<le> i" by auto
  then show ?thesis
    using mult_le_mono1 [of "Suc i" j sz] mult_le_mono1 [of "Suc j" i sz] by auto
qed

lemma slot_inside:
  fixes i c sz :: nat
  assumes "i < c" "c * sz \<le> len"
  shows "i * sz + sz \<le> len"
proof -
  have "Suc i * sz \<le> c * sz" using assms(1) by (intro mult_le_mono1) simp
  with assms(2) show ?thesis by simp
qed

lemma seg_patch_slot:
  assumes "j \<noteq> i" "i * sz + sz \<le> length m" "a + length bs \<le> sz" "b + n \<le> sz"
  shows "seg (patch m (i * sz + a) bs) (j * sz + b) n = seg m (j * sz + b) n"
proof (cases "j * sz + sz \<le> i * sz")
  case True
  then show ?thesis using assms(2-4) by (intro seg_patch_before) simp_all
next
  case False
  then have "i * sz + sz \<le> j * sz" using slot_disjoint [OF assms(1), of sz] by blast
  then show ?thesis using assms(2-4) by (intro seg_patch_after) simp_all
qed

section \<open>Integers in memory\<close>

definition get16 :: "byte list \<Rightarrow> nat \<Rightarrow> u16" where
  "get16 m off = of_nat (le_dec (seg m off 2))"

definition get64 :: "byte list \<Rightarrow> nat \<Rightarrow> u64" where
  "get64 m off = of_nat (le_dec (seg m off 8))"

definition put16 :: "u16 \<Rightarrow> byte list" where
  "put16 x = le_enc 2 (unat x)"

definition put64 :: "u64 \<Rightarrow> byte list" where
  "put64 x = le_enc 8 (unat x)"

lemma length_put [simp]: "length (put16 x) = 2" "length (put64 y) = 8"
  by (simp_all add: put16_def put64_def)

lemma get16_put16: "seg m off 2 = put16 x \<Longrightarrow> get16 m off = x"
proof -
  have "unat x < 256 ^ 2" using unsigned_less [of x] by simp
  then show "seg m off 2 = put16 x \<Longrightarrow> get16 m off = x" by (simp add: get16_def put16_def)
qed

lemma get64_put64: "seg m off 8 = put64 x \<Longrightarrow> get64 m off = x"
proof -
  have "unat x < 256 ^ 8" using unsigned_less [of x] by simp
  then show "seg m off 8 = put64 x \<Longrightarrow> get64 m off = x" by (simp add: get64_def put64_def)
qed

lemma get16_cong: "seg m off 2 = seg m' off' 2 \<Longrightarrow> get16 m off = get16 m' off'"
  by (simp add: get16_def)

end
