(* ===== verification/Ntb_Mw.thy ===== *)
theory Ntb_Mw
  imports Byte_Mem
begin

unbundle bit_operations_syntax

text \<open>
  \<^verbatim>\<open>ntb-proxy/src/ntb_mw.c\<close>: the rings that the two proxies keep in each other's memory through the
  non-transparent bridge. A packet is written into a slot of the ring of the peer and is noticed there
  because the length in its header is not zero. The writer knows how far the peer has read
  from a shadow of its read index, which the peer writes back from time to time. A ring is its bytes, from
  \<^verbatim>\<open>start_addr\<close> to \<^verbatim>\<open>end_addr\<close>; a cell that a link points to is kept as its value.
\<close>

section \<open>Data\<close>

record ntp_config =
  bulk_size :: int
  num_partition :: u16
  ntb_packetbits_size :: u16
  data_ringbuffer_size :: u64
  ctrl_ringbuffer_size :: u64
  data_packet_size :: u16
  datapacket_payload_size :: u16

record ntpacket_header =
  h_src_port :: u16
  h_dst_port :: u16
  h_msg_len :: u16
  h_msg_type :: u16

record ntpacket =
  header :: ntpacket_header
  payload :: "byte list"

record ntb_ring_buffer =
  rb_cur_index :: u64
  rb_area :: "byte list"
  rb_capacity :: u64

text \<open>\<^verbatim>\<open>ntb_data_link\<close> and \<^verbatim>\<open>ntb_ctrl_link\<close> have the same fields.\<close>

record ntb_data_link =
  local_cum :: u64
  remote_cum :: u64
  local_ring :: ntb_ring_buffer
  remote_ring :: ntb_ring_buffer

abbreviation NTPACKET_HEADER_LEN :: nat where "NTPACKET_HEADER_LEN \<equiv> 8"

abbreviation CTRL_NTPACKET_SIZE :: nat where "CTRL_NTPACKET_SIZE \<equiv> 16"

abbreviation DETECT_PKG :: int where "DETECT_PKG \<equiv> 0"

abbreviation SINGLE_PKG :: int where "SINGLE_PKG \<equiv> 1"

abbreviation MULTI_PKG :: int where "MULTI_PKG \<equiv> 2"

abbreviation ENF_MULTI :: int where "ENF_MULTI \<equiv> 3"

abbreviation FIN_PKG :: int where "FIN_PKG \<equiv> 4"

abbreviation PSH :: u16 where "PSH \<equiv> 0x8000"

definition hdr_bytes :: "ntpacket_header \<Rightarrow> byte list" where
  "hdr_bytes h = put16 (h_src_port h) @ put16 (h_dst_port h) @ put16 (h_msg_len h) @ put16 (h_msg_type h)"

text \<open>\<^verbatim>\<open>parse_ntpacket\<close>: the header of the packet at an address.\<close>

definition hdr_at :: "byte list \<Rightarrow> nat \<Rightarrow> ntpacket_header" where
  "hdr_at m p = \<lparr>h_src_port = get16 m p, h_dst_port = get16 m (p + 2), h_msg_len = get16 m (p + 4),
     h_msg_type = get16 m (p + 6)\<rparr>"

section \<open>Read indices\<close>

definition trans_data_link_cur_index :: "ntb_data_link \<Rightarrow> int \<times> ntb_data_link" where
  "trans_data_link_cur_index dl = (0, dl\<lparr>remote_cum := rb_cur_index (local_ring dl)\<rparr>)"

definition trans_ctrl_link_cur_index :: "ntb_data_link \<Rightarrow> int \<times> ntb_data_link" where
  "trans_ctrl_link_cur_index cl = (0, cl\<lparr>remote_cum := rb_cur_index (local_ring cl)\<rparr>)"

text \<open>The expression \<^verbatim>\<open>cur_index + 1 < capacity ? cur_index + 1 : 0\<close>.\<close>

definition ring_next :: "u64 \<Rightarrow> u64 \<Rightarrow> u64" where
  "ring_next i cap = (if i + 1 < cap then i + 1 else 0)"

text \<open>
  The loop \<^verbatim>\<open>while (next_index == *local_cum_ptr)\<close>. The list holds the values that the peer writes to the
  shadow while the loop runs; the loop does not end when the peer writes nothing more.
\<close>

fun wait_room :: "u64 list \<Rightarrow> u64 \<Rightarrow> u64 \<Rightarrow> (u64 \<times> u64 list) outcome" where
  "wait_room [] next_idx cum = (if next_idx = cum then Spin else Ret (cum, []))"
| "wait_room (c # env) next_idx cum =
     (if next_idx = cum then wait_room env next_idx c else Ret (cum, c # env))"

text \<open>
  \<^verbatim>\<open>start_addr + (cur_index << ntb_packetbits_size)\<close>. \<^verbatim>\<open>ntb_mem_formatting\<close> computes \<^verbatim>\<open>1 << ntb_packetbits_size\<close>
  as an \<^verbatim>\<open>int\<close>, so a link only exists with fewer than 31 bits.
\<close>

definition slot_addr :: "u16 \<Rightarrow> u64 \<Rightarrow> nat outcome" where
  "slot_addr bits i = (if unat bits < 31 then Ret (unat (push_bit (unat bits) i)) else Undef)"

text \<open>The writes of one packet, in the order in which they are made.\<close>

fun write_all :: "byte list \<Rightarrow> (nat \<times> byte list) list \<Rightarrow> byte list outcome" where
  "write_all m [] = Ret m"
| "write_all m ((p, bs) # ws) = bind_out (mem_write m p bs) (\<lambda>m'. write_all m' ws)"

section \<open>Headers\<close>

text \<open>The tests on the packet type that three functions repeat: the bits that the header gets.\<close>

definition type_bits :: "int \<Rightarrow> u16 option" where
  "type_bits t =
     (if t = SINGLE_PKG then Some 0x1000
      else if t = MULTI_PKG then Some 0x2000
      else if t = ENF_MULTI then Some 0x3000
      else if t = DETECT_PKG then Some 0
      else if t = FIN_PKG then Some 0x4000
      else None)"

definition ntb_data_msg_add_header :: "ntpacket \<Rightarrow> u16 \<Rightarrow> u16 \<Rightarrow> int \<Rightarrow> int \<Rightarrow> int \<times> ntpacket" where
  "ntb_data_msg_add_header msg src_port dst_port payload_len t =
     (let h = (header msg)\<lparr>h_src_port := src_port, h_dst_port := dst_port,
                          h_msg_len := word_of_int (int NTPACKET_HEADER_LEN + payload_len)\<rparr> in
      case type_bits t of
        None \<Rightarrow> (- 1, msg\<lparr>header := h\<rparr>)
      | Some b \<Rightarrow> (0, msg\<lparr>header := h\<lparr>h_msg_type := h_msg_type h OR b\<rparr>\<rparr>))"

definition pack_ntpacket_header :: "ntpacket_header \<Rightarrow> u16 \<Rightarrow> u16 \<Rightarrow> int \<Rightarrow> int \<Rightarrow> int \<times> ntpacket_header" where
  "pack_ntpacket_header packet_header src_port dst_port payload_len t =
     (let h = packet_header\<lparr>h_src_port := src_port, h_dst_port := dst_port,
                            h_msg_len := word_of_int (int NTPACKET_HEADER_LEN + payload_len), h_msg_type := 0\<rparr> in
      case type_bits t of
        None \<Rightarrow> (- 1, h)
      | Some b \<Rightarrow> (0, h\<lparr>h_msg_type := h_msg_type h OR b\<rparr>))"

definition parser_data_len_get_type :: "ntb_data_link \<Rightarrow> u16 \<Rightarrow> int \<times> ntb_data_link" where
  "parser_data_len_get_type dl t =
     (uint (drop_bit 12 t AND 7), if bit t 15 then snd (trans_data_link_cur_index dl) else dl)"

definition parser_ctrl_msg_header :: "ntb_data_link \<Rightarrow> u16 \<Rightarrow> int \<times> ntb_data_link" where
  "parser_ctrl_msg_header cl len = (0, if bit len 15 then snd (trans_ctrl_link_cur_index cl) else cl)"

section \<open>Sending\<close>

text \<open>
  The comparison binds stronger than the mask: \<^verbatim>\<open>x & 0x3ff == 0\<close> is \<^verbatim>\<open>x & (0x3ff == 0)\<close>.
\<close>

definition ntb_ctrl_msg_enqueue ::
  "u64 list \<Rightarrow> ntb_data_link \<Rightarrow> ntpacket \<Rightarrow> (int \<times> ntpacket \<times> ntb_data_link \<times> u64 list) outcome"
where
  "ntb_ctrl_msg_enqueue env cl msg =
     (let r = remote_ring cl; next_idx = ring_next (rb_cur_index r) (rb_capacity r) in
      bind_out (wait_room env next_idx (local_cum cl)) (\<lambda>(cum, env').
      let gap = next_idx - cum;
          h = (if gap AND (if (0x3ff :: u64) = 0 then 1 else 0) \<noteq> 0
               then (header msg)\<lparr>h_msg_len := h_msg_len (header msg) OR PSH\<rparr> else header msg) in
      bind_out (mem_read (payload msg) 0 8) (\<lambda>body.
      bind_out (mem_write (rb_area r) (unat (push_bit 4 (rb_cur_index r))) (hdr_bytes h @ body)) (\<lambda>area.
        Ret (0, msg\<lparr>header := h\<rparr>, cl\<lparr>local_cum := cum, remote_ring := r\<lparr>rb_area := area, rb_cur_index := next_idx\<rparr>\<rparr>,
             env')))))"

definition ntb_pure_data_msg_enqueue ::
  "ntp_config \<Rightarrow> u64 list \<Rightarrow> ntb_data_link \<Rightarrow> byte list \<Rightarrow> int \<Rightarrow> (int \<times> ntb_data_link \<times> u64 list) outcome"
where
  "ntb_pure_data_msg_enqueue cfg env dl msg data_len =
     (let r = remote_ring dl; next_idx = ring_next (rb_cur_index r) (rb_capacity r) in
      bind_out (wait_room env next_idx (local_cum dl)) (\<lambda>(cum, env').
      bind_out (slot_addr (ntb_packetbits_size cfg) (rb_cur_index r)) (\<lambda>p.
      if data_len < 0 then Undef
      else
        bind_out (mem_read msg 0 (nat data_len)) (\<lambda>bs.
        bind_out (mem_write (rb_area r) p bs) (\<lambda>area.
          Ret (0, dl\<lparr>local_cum := cum, remote_ring := r\<lparr>rb_area := area, rb_cur_index := next_idx\<rparr>\<rparr>, env'))))))"

text \<open>The first packet of a message that needs several: the type is entered into the source message only.\<close>

definition ntb_data_msg_enqueue2 ::
  "ntp_config \<Rightarrow> u64 list \<Rightarrow> ntb_data_link \<Rightarrow> ntpacket \<Rightarrow> u16 \<Rightarrow> u16 \<Rightarrow> u16 \<Rightarrow> int
     \<Rightarrow> (int \<times> ntpacket \<times> ntb_data_link \<times> u64 list) outcome"
where
  "ntb_data_msg_enqueue2 cfg env dl msg src_port dst_port payload_len t =
     (let len = word_of_int (int NTPACKET_HEADER_LEN + uint payload_len) :: u16 in
      case type_bits t of
        None \<Rightarrow> Ret (- 1, msg, dl, env)
      | Some b \<Rightarrow>
          let r = remote_ring dl; next_idx = ring_next (rb_cur_index r) (rb_capacity r);
              msg' = msg\<lparr>header := (header msg)\<lparr>h_msg_type := h_msg_type (header msg) OR b\<rparr>\<rparr> in
          bind_out (wait_room env next_idx (local_cum dl)) (\<lambda>(cum, env').
          bind_out (slot_addr (ntb_packetbits_size cfg) (rb_cur_index r)) (\<lambda>p.
          let n = (if len \<le> data_packet_size cfg then int (unat payload_len)
                   else uint (data_packet_size cfg) - int NTPACKET_HEADER_LEN) in
          if n < 0 then Undef
          else
            bind_out (mem_read (payload msg) 0 (nat n)) (\<lambda>bs.
            bind_out (write_all (rb_area r)
                [(p, put16 src_port), (p + 2, put16 dst_port), (p + 8, bs), (p + 4, put16 len)]) (\<lambda>area.
              Ret (0, msg', dl\<lparr>local_cum := cum, remote_ring := r\<lparr>rb_area := area, rb_cur_index := next_idx\<rparr>\<rparr>,
                   env'))))))"

text \<open>
  The request for the read index of the peer in \<^verbatim>\<open>ntb_data_msg_enqueue\<close> and \<^verbatim>\<open>ntpacket_enqueue\<close> when the message
  needs several slots.
\<close>

definition long_psh :: "ntp_config \<Rightarrow> u64 \<Rightarrow> u64 \<Rightarrow> u16 \<Rightarrow> bool" where
  "long_psh cfg next_idx cur_idx len \<longleftrightarrow>
     (next_idx + ucast (drop_bit (unat (ntb_packetbits_size cfg)) len)) AND 0xfc00 \<noteq> cur_idx AND 0xfc00"

definition ntb_data_msg_enqueue ::
  "ntp_config \<Rightarrow> u64 list \<Rightarrow> ntb_data_link \<Rightarrow> ntpacket \<Rightarrow> (int \<times> ntpacket \<times> ntb_data_link \<times> u64 list) outcome"
where
  "ntb_data_msg_enqueue cfg env dl msg =
     (let r = remote_ring dl; len = h_msg_len (header msg); next_idx = ring_next (rb_cur_index r) (rb_capacity r) in
      bind_out (wait_room env next_idx (local_cum dl)) (\<lambda>(cum, env').
      bind_out (slot_addr (ntb_packetbits_size cfg) (rb_cur_index r)) (\<lambda>p.
      let short = len \<le> data_packet_size cfg;
          wr_gap = (if cum \<le> next_idx then next_idx - cum else next_idx - cum + rb_capacity r);
          psh = (if short then wr_gap AND 0x3ff = 0 else long_psh cfg next_idx (rb_cur_index r) len);
          h = (if psh then (header msg)\<lparr>h_msg_type := h_msg_type (header msg) OR PSH\<rparr> else header msg);
          n = uint (if short then len else data_packet_size cfg) - int NTPACKET_HEADER_LEN in
      if n < 0 then Undef
      else
        bind_out (mem_read (payload msg) 0 (nat n)) (\<lambda>bs.
        bind_out (write_all (rb_area r) [(p + 8, bs), (p, hdr_bytes h)]) (\<lambda>area.
          Ret (0, msg\<lparr>header := h\<rparr>, dl\<lparr>local_cum := cum, remote_ring := r\<lparr>rb_area := area, rb_cur_index := next_idx\<rparr>\<rparr>,
               env'))))))"

text \<open>
  \<^verbatim>\<open>ntpacket_enqueue\<close>; both callers pass the header of the message as \<^verbatim>\<open>packet_header\<close>. A message of one slot
  is written header first.
\<close>

definition ntpacket_writes ::
  "ntp_config \<Rightarrow> u64 \<Rightarrow> u64 \<Rightarrow> u64 \<Rightarrow> nat \<Rightarrow> ntpacket \<Rightarrow> (ntpacket_header \<times> (nat \<times> byte list) list) outcome"
where
  "ntpacket_writes cfg next_idx cur_idx cum p msg =
     (let len = h_msg_len (header msg);
          short = len \<le> data_packet_size cfg;
          psh = (if short then (next_idx - cum) AND 0x3ff = 0 else long_psh cfg next_idx cur_idx len);
          h = (if psh then (header msg)\<lparr>h_msg_type := h_msg_type (header msg) OR PSH\<rparr> else header msg);
          n = uint (if short then len else data_packet_size cfg) - int NTPACKET_HEADER_LEN in
      if n < 0 then Undef
      else
        bind_out (mem_read (payload msg) 0 (nat n)) (\<lambda>bs.
          Ret (h, if short then [(p, hdr_bytes h), (p + 8, bs)] else [(p + 8, bs), (p, hdr_bytes h)])))"

definition ntpacket_enqueue ::
  "ntp_config \<Rightarrow> u64 list \<Rightarrow> ntb_data_link \<Rightarrow> ntpacket \<Rightarrow> (int \<times> ntpacket \<times> ntb_data_link \<times> u64 list) outcome"
where
  "ntpacket_enqueue cfg env dl msg =
     (let r = remote_ring dl; next_idx = ring_next (rb_cur_index r) (rb_capacity r) in
      bind_out (wait_room env next_idx (local_cum dl)) (\<lambda>(cum, env').
      bind_out (slot_addr (ntb_packetbits_size cfg) (rb_cur_index r)) (\<lambda>p.
      bind_out (ntpacket_writes cfg next_idx (rb_cur_index r) cum p msg) (\<lambda>(h, ws).
      bind_out (write_all (rb_area r) ws) (\<lambda>area.
        Ret (0, msg\<lparr>header := h\<rparr>, dl\<lparr>local_cum := cum, remote_ring := r\<lparr>rb_area := area, rb_cur_index := next_idx\<rparr>\<rparr>,
             env'))))))"

section \<open>Layout of the memory windows\<close>

record ring_layout =
  ly_start :: nat
  ly_end :: nat
  ly_capacity :: u64

record link_layout =
  ll_local_cum :: nat
  ll_remote_cum :: nat
  ll_local :: "ring_layout option"
  ll_remote :: "ring_layout option"

definition ntb_ring_create :: "bool \<Rightarrow> nat \<Rightarrow> u64 \<Rightarrow> u64 \<Rightarrow> ring_layout option outcome" where
  "ntb_ring_create malloc_ok ptr ring_size len =
     (if \<not> malloc_ok then Ret None
      else if len = 0 then Undef
      else Ret (Some \<lparr>ly_start = ptr, ly_end = ptr + unat ring_size, ly_capacity = ring_size div len\<rparr>))"

text \<open>
  One link: the cell of the shadow and the two rings, at the same offset in both windows. \<open>ok\<close> says which
  allocations succeed. The cell in the local window is set to zero.
\<close>

definition format_link ::
  "bool \<Rightarrow> bool \<Rightarrow> byte list \<Rightarrow> nat \<Rightarrow> u64 \<Rightarrow> u64 \<Rightarrow> (byte list \<times> link_layout) outcome"
where
  "format_link ok1 ok2 win p ring_size len =
     bind_out (mem_write win p (put64 0)) (\<lambda>win'.
     bind_out (ntb_ring_create ok1 (p + 8) ring_size len) (\<lambda>l.
     bind_out (ntb_ring_create ok2 (p + 8) ring_size len) (\<lambda>r.
       Ret (win', \<lparr>ll_local_cum = p, ll_remote_cum = p, ll_local = l, ll_remote = r\<rparr>))))"

fun format_partitions ::
  "(nat \<Rightarrow> bool) \<Rightarrow> ntp_config \<Rightarrow> byte list \<Rightarrow> nat \<Rightarrow> nat \<Rightarrow> nat \<Rightarrow> (byte list \<times> link_layout list) outcome"
where
  "format_partitions ok cfg win p i 0 = Ret (win, [])"
| "format_partitions ok cfg win p i (Suc n) =
     (if 31 \<le> unat (ntb_packetbits_size cfg) then Undef
      else
        bind_out (format_link (ok (2 * i)) (ok (2 * i + 1)) win p (data_ringbuffer_size cfg)
            (push_bit (unat (ntb_packetbits_size cfg)) 1)) (\<lambda>(win', l).
        bind_out (format_partitions ok cfg win' (p + unat (data_ringbuffer_size cfg) + 8) (Suc i) n) (\<lambda>(win'', ls).
          Ret (win'', l # ls))))"

text \<open>The control link first, then the data links of the partitions.\<close>

definition ntb_mem_formatting ::
  "(nat \<Rightarrow> bool) \<Rightarrow> ntp_config \<Rightarrow> byte list \<Rightarrow> (byte list \<times> link_layout list) outcome"
where
  "ntb_mem_formatting ok cfg win =
     bind_out (format_link (ok 0) (ok 1) win 0 (ctrl_ringbuffer_size cfg) (of_nat CTRL_NTPACKET_SIZE)) (\<lambda>(win', l).
     bind_out (format_partitions ok cfg win' (unat (ctrl_ringbuffer_size cfg) + 8) 1 (unat (num_partition cfg)))
       (\<lambda>(win'', ls). Ret (win'', l # ls)))"

end
