(* ===== verification/Ntp_Conn.thy ===== *)
theory Ntp_Conn
  imports Ctl_Shm Epoll_Shm Epoll_Event_Queue Hash_Map Ntb_Mw
begin

text \<open>
  The connections of the proxy: \<^verbatim>\<open>ntb-proxy/src/ntp_func.c\<close> as far as it creates them, and the part of
  \<^verbatim>\<open>ntb_send_thread\<close> in \<^verbatim>\<open>main.c\<close> that removes them. Connections and epoll contexts are objects of a heap: what
  \<^verbatim>\<open>malloc\<close> returned is a number, and a number without an object is a freed (or never valid) pointer. An
  object has the contents of its memory until its fields are assigned.
\<close>

section \<open>Data\<close>

abbreviation READY_CONN :: byte where "READY_CONN \<equiv> 1"

abbreviation ACTIVE_CLOSE :: byte where "ACTIVE_CLOSE \<equiv> 2"

abbreviation PASSIVE_CLOSE :: byte where "PASSIVE_CLOSE \<equiv> 3"

record ntb_conn =
  nc_partition :: "nat cptr"
  nc_partition_id :: int
  nc_detect_time :: u64
  nc_conn_id :: u32
  nc_state :: byte
  nc_send_ring :: ntp_shm_context
  nc_recv_ring :: ntp_shm_context
  nc_ep_data :: u64
  nc_epoll :: u32
  nc_sockid :: u32
  nc_epoll_ctx :: "nat cptr"

record epoll_context =
  ec_epoll_fd :: u32
  ec_shmaddr :: string
  ec_shmlen :: int
  ec_queue_size :: int
  ec_queue :: epoll_event_queue
  ec_conn_map :: "(key, nat) hashMap"

text \<open>The circular list of a partition is the list of its connections after the head node.\<close>

record ntb_partition =
  pt_id :: int
  pt_num_conns :: u32
  pt_recv_packet_counter :: u64
  pt_send_list :: "nat list"
  pt_data_link :: ntb_data_link

record ntb_link_custom =
  lk_conns :: "nat \<Rightarrow> ntb_conn option"
  lk_epolls :: "nat \<Rightarrow> epoll_context option"
  lk_port2conn :: "(key, nat) hashMap"
  lk_ntp_ntm :: "ntp_ntm_msg shm_ctx4"
  lk_ep_send :: "sem_ring ep_ctx"
  lk_epoll_ctx_map :: "(key, nat) hashMap"
  lk_num_partition :: u16
  lk_partitions :: "ntb_partition list"
  lk_round_robin_idx :: u16
  lk_ctrl_link :: ntb_data_link

definition conn_at :: "ntb_link_custom \<Rightarrow> nat \<Rightarrow> ntb_conn outcome" where
  "conn_at lk r = (case lk_conns lk r of None \<Rightarrow> Undef | Some c \<Rightarrow> Ret c)"

abbreviation set_conn :: "ntb_link_custom \<Rightarrow> nat \<Rightarrow> ntb_conn \<Rightarrow> ntb_link_custom" where
  "set_conn lk r c \<equiv> lk\<lparr>lk_conns := (lk_conns lk)(r := Some c)\<rparr>"

section \<open>Identifiers\<close>

text \<open>The shift of a promoted \<^verbatim>\<open>uint16_t\<close> is taken as the compiler takes it: it wraps to 32 bits.\<close>

definition create_conn_id :: "u16 \<Rightarrow> u16 \<Rightarrow> u32" where
  "create_conn_id src_port dst_port = push_bit 16 (ucast src_port) + ucast dst_port"

definition ntohs :: "u64 \<Rightarrow> u16" where
  "ntohs x = push_bit 8 (ucast (take_bit 8 x)) + ucast (drop_bit 8 (take_bit 16 x))"

text \<open>
  The hash map takes its keys for strings. An identifier is four bytes; one without a zero byte is read
  beyond its end.
\<close>

definition id_key :: "u32 \<Rightarrow> key outcome" where
  "id_key i = (if 0 \<in> set (le_enc 4 (unat i)) then Ret (le_enc 4 (unat i)) else Undef)"

definition map_get :: "(key, nat) hashMap \<Rightarrow> u32 \<Rightarrow> nat option outcome" where
  "map_get m i = bind_out (id_key i) (\<lambda>k. defaultGet defaultHashCode defaultEqual m k)"

definition map_put :: "(key, nat) hashMap \<Rightarrow> u32 \<Rightarrow> nat \<Rightarrow> (key, nat) hashMap outcome" where
  "map_put m i r = bind_out (id_key i) (\<lambda>k. defaultPut defaultHashCode defaultEqual m k r)"

definition map_remove :: "(key, nat) hashMap \<Rightarrow> u32 \<Rightarrow> (key, nat) hashMap outcome" where
  "map_remove m i =
     bind_out (id_key i) (\<lambda>k. bind_out (defaultRemove defaultHashCode defaultEqual m k) (\<lambda>(_, m'). Ret m'))"

text \<open>\<^verbatim>\<open>sprintf(name, "%d-%d-s", src_port, dst_port)\<close>.\<close>

fun dec_string :: "nat \<Rightarrow> string" where
  "dec_string n = (if n < 10 then [char_of (48 + n)] else dec_string (n div 10) @ [char_of (48 + n mod 10)])"

declare dec_string.simps [simp del]

definition shm_name :: "u16 \<Rightarrow> u16 \<Rightarrow> char \<Rightarrow> string" where
  "shm_name src_port dst_port c = dec_string (unat src_port) @ ''-'' @ dec_string (unat dst_port) @ ''-'' @ [c]"

section \<open>Creating a connection\<close>

definition ntp_allocate_partition :: "ntb_link_custom \<Rightarrow> (u16 \<times> ntb_link_custom) outcome" where
  "ntp_allocate_partition lk =
     (if lk_num_partition lk = 0 then Undef
      else
        let target = lk_round_robin_idx lk; idx = target + 1 in
        Ret (target, lk\<lparr>lk_round_robin_idx := (if idx mod lk_num_partition lk = 0 then 0 else idx)\<rparr>))"

definition add_conn_to_ntb_send_list :: "bool \<Rightarrow> ntb_partition \<Rightarrow> nat \<Rightarrow> (int \<times> ntb_partition) outcome" where
  "add_conn_to_ntb_send_list malloc_ok p r =
     (if malloc_ok then Ret (0, p\<lparr>pt_send_list := pt_send_list p @ [r]\<rparr>) else Undef)"

text \<open>
  \<open>junk\<close> is the memory of \<^verbatim>\<open>reply_msg\<close> before it is filled: the connecting side leaves \<^verbatim>\<open>partition_id\<close> as it is. The
  result of the send is ignored.
\<close>

definition ntp_create_conn_ack ::
  "ntp_ntm_msg \<Rightarrow> ntb_link_custom \<Rightarrow> ntb_partition \<Rightarrow> ntm_ntp_msg \<Rightarrow> (int \<times> ntb_link_custom) outcome"
where
  "ntp_create_conn_ack junk lk p msg =
     bind_out (memcpy (cm_msg junk) [0x74, 0x65, 0x73, 0x74] 4) (\<lambda>body.
     let reply = junk\<lparr>cm_src_ip := cm_src_ip msg, cm_dst_ip := cm_dst_ip msg, cm_src_port := cm_src_port msg,
                      cm_dst_port := cm_dst_port msg, cm_msg_type := 1, cm_msg_len := 4, cm_msg := body,
                      cm_partition_id := (if sint (cm_partition_id msg) < 0 then word_of_int (pt_id p)
                                          else cm_partition_id junk)\<rparr> in
     bind_out (ntp_ntm_shm_send (lk_ntp_ntm lk) reply) (\<lambda>(_, ctx). Ret (0, lk\<lparr>lk_ntp_ntm := ctx\<rparr>)))"

text \<open>The answers of the system: the new object with its memory, the two channels, the list node.\<close>

record conn_os =
  co_conn :: "(nat \<times> ntb_conn) option"
  co_send :: bool
  co_recv :: bool
  co_send_os :: chan_os
  co_recv_os :: chan_os
  co_node :: bool
  co_junk :: ntp_ntm_msg

text \<open>Opening one of the two channels of a connection.\<close>

definition open_channel :: "ntp_config \<Rightarrow> bool \<Rightarrow> chan_os \<Rightarrow> string \<Rightarrow> (int \<times> ntp_shm_context) outcome" where
  "open_channel cfg malloc_ok os name =
     (case ntp_shm malloc_ok (unat (data_packet_size cfg)) of
        None \<Rightarrow> Abort
      | Some ctx \<Rightarrow>
          bind_out (ntp_shm_accept os ctx name (of_nat (length name))) (\<lambda>(rc, ctx', _). Ret (rc, ctx')))"

text \<open>
  The partition of a new connection, named by the peer or the next one: its number as an \<^verbatim>\<open>int16_t\<close> and its index.
\<close>

definition choose_partition :: "ntb_link_custom \<Rightarrow> int \<Rightarrow> (int \<times> nat \<times> ntb_link_custom) outcome" where
  "choose_partition lk pid =
     (if 0 \<le> pid then Ret (pid, nat pid, lk)
      else bind_out (ntp_allocate_partition lk) (\<lambda>(idx, lk'). Ret (sint idx, unat idx, lk')))"

definition ntp_create_conn_handler ::
  "ntp_config \<Rightarrow> conn_os \<Rightarrow> ntb_link_custom \<Rightarrow> ntm_ntp_msg \<Rightarrow> (int \<times> ntb_link_custom) outcome"
where
  "ntp_create_conn_handler cfg os lk msg =
     (case co_conn os of
        None \<Rightarrow> Undef
      | Some (r, mem) \<Rightarrow>
          let src_port = ntohs (cm_src_port msg); dst_port = ntohs (cm_dst_port msg);
              c1 = mem\<lparr>nc_state := READY_CONN, nc_conn_id := create_conn_id src_port dst_port\<rparr> in
          bind_out (open_channel cfg (co_send os) (co_send_os os) (shm_name src_port dst_port (CHR ''s''))) (\<lambda>(rc, s).
          if rc \<noteq> 0 then Ret (FAILED, set_conn lk r c1)
          else
            bind_out (open_channel cfg (co_recv os) (co_recv_os os) (shm_name src_port dst_port (CHR ''r''))) (\<lambda>(rc', v).
            if rc' \<noteq> 0 then Ret (FAILED, set_conn lk r c1)
            else
              bind_out (map_put (lk_port2conn lk) (nc_conn_id c1) r) (\<lambda>m.
              bind_out (choose_partition (lk\<lparr>lk_port2conn := m\<rparr>) (sint (cm_partition_id msg))) (\<lambda>(pid, idx, lk1).
              let c2 = c1\<lparr>nc_send_ring := s, nc_recv_ring := v, nc_partition_id := pid, nc_partition := Live idx\<rparr> in
              bind_out (array_get (lk_partitions lk1) idx) (\<lambda>p.
              bind_out (add_conn_to_ntb_send_list (co_node os) (p\<lparr>pt_num_conns := pt_num_conns p + 1\<rparr>) r) (\<lambda>(_, p').
              bind_out (array_set (lk_partitions lk1) idx p') (\<lambda>ps.
              bind_out (ntp_create_conn_ack (co_junk os) ((set_conn lk1 r c2)\<lparr>lk_partitions := ps\<rparr>) p' msg) (\<lambda>(_, lk2).
                Ret (0, lk2))))))))))"

section \<open>Removing a connection\<close>

text \<open>
  The branch of \<^verbatim>\<open>ntb_send_thread\<close> for a closed connection: it leaves the map and the list and is freed; the
  counter of the partition stays.
\<close>

definition ntb_conn_remove :: "ntb_link_custom \<Rightarrow> nat \<Rightarrow> nat \<Rightarrow> (ntb_link_custom \<times> chan_res os_call list) outcome" where
  "ntb_conn_remove lk pidx i =
     bind_out (array_get (lk_partitions lk) pidx) (\<lambda>p.
     bind_out (array_get (pt_send_list p) i) (\<lambda>r.
     bind_out (conn_at lk r) (\<lambda>c.
     bind_out (map_remove (lk_port2conn lk) (nc_conn_id c)) (\<lambda>m.
     let (_, recv', cs1) = ntp_shm_nts_close (nc_recv_ring c); (_, send', cs2) = ntp_shm_nts_close (nc_send_ring c) in
       Ret (lk\<lparr>lk_port2conn := m, lk_conns := (lk_conns lk)(r := None),
               lk_partitions := (lk_partitions lk)[pidx :=
                 p\<lparr>pt_send_list := take i (pt_send_list p) @ drop (Suc i) (pt_send_list p)\<rparr>]\<rparr>,
            cs1 @ ntp_shm_destroy recv' @ cs2 @ ntp_shm_destroy send')))))"

end
