(* ===== verification/Ntp_Send.thy ===== *)
theory Ntp_Send
  imports Ntp_Conn
begin

text \<open>
  The sending half of the data plane: \<^verbatim>\<open>ntp_send_buff_data\<close> of \<^verbatim>\<open>ntp_func.c\<close> and the loop of \<^verbatim>\<open>ntb_send_thread\<close> in
  \<^verbatim>\<open>main.c\<close>. A message is a block of the pool of the connection; its header is rewritten in place before the
  packet is copied into the ring of the peer.
\<close>

abbreviation NTP_DATA :: u16 where "NTP_DATA \<equiv> 1"

abbreviation NTP_FIN :: u16 where "NTP_FIN \<equiv> 2"

section \<open>Blocks\<close>

text \<open>The message at an address of the pool, with everything behind its header.\<close>

definition read_block :: "ntp_shm_context \<Rightarrow> u64 \<Rightarrow> ntpacket outcome" where
  "read_block ctx off =
     bind_out (get_mp ctx) (\<lambda>mp.
     if unat off + NTPACKET_HEADER_LEN \<le> length (shm_mem mp)
     then Ret \<lparr>header = hdr_at (shm_mem mp) (unat off), payload = drop (unat off + NTPACKET_HEADER_LEN) (shm_mem mp)\<rparr>
     else Undef)"

definition write_block :: "ntp_shm_context \<Rightarrow> u64 \<Rightarrow> nat \<Rightarrow> byte list \<Rightarrow> ntp_shm_context outcome" where
  "write_block ctx off k bs =
     bind_out (get_mp ctx) (\<lambda>mp.
     bind_out (mem_write (shm_mem mp) (unat off + k) bs) (\<lambda>mem. Ret (ctx\<lparr>mp_handler := Some (mp\<lparr>shm_mem := mem\<rparr>)\<rparr>)))"

text \<open>Type and length of a message that is being made: the ports are left as they are.\<close>

definition fill_block :: "ntp_shm_context \<Rightarrow> u64 \<Rightarrow> u16 \<Rightarrow> u16 \<Rightarrow> ntp_shm_context outcome" where
  "fill_block ctx off t len =
     bind_out (write_block ctx off 6 (put16 t)) (\<lambda>ctx1. write_block ctx1 off 4 (put16 len))"

section \<open>Sending one message\<close>

text \<open>
  The state of the loop: the channel, the link, the packet on the stack (its \<^verbatim>\<open>msg_type\<close> is only ever
  added to), the values that the peer will write to the shadow of its read index, and the
  count.
\<close>

record send_st =
  ss_ring :: ntp_shm_context
  ss_link :: ntb_data_link
  ss_pkt :: ntpacket
  ss_shadow :: "u64 list"
  ss_cnt :: u64

lemma sent_grows:
  fixes d l s :: u16
  assumes "uint d < uint l - uint s" "d \<noteq> 0"
  shows "unat l - unat (s + d) < unat l - unat s"
proof -
  have "int (unat d) < int (unat l) - int (unat s)" using assms(1) by (simp only: uint_nat)
  then have le: "unat s + unat d < unat l" by linarith
  moreover have "unat l < 2 ^ 16" using unsigned_less [of l, where ?'a = nat] by simp
  ultimately have "unat s + unat d < 2 ^ 16" by linarith
  then have "unat (s + d) = unat s + unat d" by (simp add: unat_word_ariths)
  moreover have "0 < unat d" using assms(2) by (simp add: unat_gt_0)
  ultimately show ?thesis using le by linarith
qed

text \<open>The loop over the packets without header; with packets of size zero it never ends.\<close>

function send_pure ::
  "ntp_config \<Rightarrow> u64 list \<Rightarrow> ntb_data_link \<Rightarrow> byte list \<Rightarrow> u16 \<Rightarrow> u16 \<Rightarrow> (u16 \<times> ntb_data_link \<times> u64 list) outcome"
where
  "send_pure cfg env dl pl data_len sent =
     (if uint (data_packet_size cfg) < uint data_len - uint sent then
        (if data_packet_size cfg = 0 then Spin
         else
           bind_out (ntb_pure_data_msg_enqueue cfg env dl (drop (unat sent) pl) (uint (data_packet_size cfg)))
             (\<lambda>(_, dl', env'). send_pure cfg env' dl' pl data_len (sent + data_packet_size cfg)))
      else Ret (sent, dl, env))"
  by pat_completeness auto
termination
  by (relation "measure (\<lambda>(cfg, env, dl, pl, data_len, sent). unat data_len - unat sent)") (auto intro: sent_grows)

declare send_pure.simps [simp del]

text \<open>A message that needs several packets.\<close>

definition send_long ::
  "ntp_config \<Rightarrow> u16 \<Rightarrow> u16 \<Rightarrow> ntpacket \<Rightarrow> send_st \<Rightarrow> (ntpacket \<times> send_st) outcome"
where
  "send_long cfg src_port dst_port msg st =
     (let data_len = h_msg_len (header msg) in
      bind_out (ntb_data_msg_enqueue2 cfg (ss_shadow st) (ss_link st) msg src_port dst_port data_len MULTI_PKG)
        (\<lambda>(_, msg', dl1, sh1).
      bind_out (send_pure cfg sh1 dl1 (payload msg) data_len (datapacket_payload_size cfg)) (\<lambda>(sent, dl2, sh2).
      bind_out (ntb_pure_data_msg_enqueue cfg sh2 dl2 (drop (unat sent) (payload msg)) (uint data_len - uint sent))
        (\<lambda>(_, dl3, sh3).
      let (_, pkt1) = ntb_data_msg_add_header (ss_pkt st) src_port dst_port 0 ENF_MULTI in
      bind_out (ntb_data_msg_enqueue cfg sh3 dl3 pkt1) (\<lambda>(_, pkt2, dl4, sh4).
        Ret (msg', st\<lparr>ss_link := dl4, ss_pkt := pkt2, ss_shadow := sh4\<rparr>))))))"

text \<open>A message of one packet: its header is rewritten in the block.\<close>

definition send_short ::
  "ntp_config \<Rightarrow> u16 \<Rightarrow> u16 \<Rightarrow> u64 \<Rightarrow> ntpacket \<Rightarrow> int \<Rightarrow> int \<Rightarrow> send_st \<Rightarrow> send_st outcome"
where
  "send_short cfg src_port dst_port off msg len t st =
     (let h = snd (pack_ntpacket_header (header msg) src_port dst_port len t) in
      bind_out (ntpacket_enqueue cfg (ss_shadow st) (ss_link st) (msg\<lparr>header := h\<rparr>)) (\<lambda>(_, msg', dl, sh).
      bind_out (write_block (ss_ring st) off 0 (hdr_bytes (header msg'))) (\<lambda>ring.
        Ret (st\<lparr>ss_ring := ring, ss_link := dl, ss_shadow := sh\<rparr>))))"

definition free_block :: "u64 \<Rightarrow> send_st \<Rightarrow> send_st outcome" where
  "free_block off st = bind_out (ntp_shm_ntpacket_free (ss_ring st) off) (\<lambda>ring. Ret (st\<lparr>ss_ring := ring\<rparr>))"

text \<open>The body of the loop; true when the message was the last one of the application.\<close>

definition send_msg :: "ntp_config \<Rightarrow> u16 \<Rightarrow> u16 \<Rightarrow> u64 \<Rightarrow> send_st \<Rightarrow> (bool \<times> send_st) outcome" where
  "send_msg cfg src_port dst_port off st =
     bind_out (read_block (ss_ring st) off) (\<lambda>msg.
     let data_len = h_msg_len (header msg) in
     if h_msg_type (header msg) = NTP_FIN then
       bind_out (send_short cfg src_port dst_port off msg 0 FIN_PKG st) (\<lambda>st'. Ret (True, st'))
     else if data_len \<le> datapacket_payload_size cfg then
       bind_out (send_short cfg src_port dst_port off msg (uint data_len) SINGLE_PKG st) (\<lambda>st1.
       bind_out (free_block off st1) (\<lambda>st2. Ret (False, st2)))
     else
       bind_out (send_long cfg src_port dst_port msg st) (\<lambda>(msg', st1).
       bind_out (write_block (ss_ring st1) off 0 (hdr_bytes (header msg'))) (\<lambda>ring.
       bind_out (free_block off (st1\<lparr>ss_ring := ring\<rparr>)) (\<lambda>st2. Ret (False, st2)))))"

text \<open>\<open>arr\<close> is what the application adds while each of the receives waits.\<close>

fun send_loop ::
  "ntp_config \<Rightarrow> u16 \<Rightarrow> u16 \<Rightarrow> nat \<Rightarrow> byte list list list list \<Rightarrow> send_st \<Rightarrow> (bool \<times> send_st) outcome"
where
  "send_loop cfg src_port dst_port 0 arr st = Ret (False, st)"
| "send_loop cfg src_port dst_port (Suc n) arr st =
     bind_out (ntp_shm_recv (if arr = [] then [] else hd arr) (ss_ring st)) (\<lambda>(rc, buf, ring).
     case buf of
       None \<Rightarrow> Ret (False, st\<lparr>ss_ring := ring\<rparr>)
     | Some off \<Rightarrow>
         bind_out (send_msg cfg src_port dst_port off (st\<lparr>ss_ring := ring, ss_cnt := ss_cnt st + 1\<rparr>)) (\<lambda>(fin, st').
         if fin then Ret (True, st') else send_loop cfg src_port dst_port n (tl arr) st'))"

section \<open>One call\<close>

text \<open>What happens around a call: the shadow, the application, the clock, and the stack memory of the packet.\<close>

record send_env =
  se_shadow :: "u64 list"
  se_arrivals :: "byte list list list list"
  se_time :: u64
  se_pkt :: ntpacket

definition detect_interval_time :: u64 where "detect_interval_time = 4 * 25000"

definition send_window :: "shmring \<Rightarrow> u64" where
  "send_window s =
     (let gap = ntp_get_peer_read_index s - ntp_get_read_index s in
      if 0 < gap then gap - 1 else gap + 1024 - 1)"

text \<open>The probe that is sent at the end when the window is small and the last one is old.\<close>

definition send_detect ::
  "ntp_config \<Rightarrow> u64 \<Rightarrow> u64 \<Rightarrow> ntb_conn \<Rightarrow> send_st \<Rightarrow> (ntb_conn \<times> send_st) outcome"
where
  "send_detect cfg window time c st =
     (let src_port = ucast (drop_bit 16 (nc_conn_id c)); dst_port = ucast (nc_conn_id c) in
      if window < 512 \<and> detect_interval_time < time - nc_detect_time c then
        (let (_, pkt1) = ntb_data_msg_add_header (ss_pkt st) src_port dst_port 0 DETECT_PKG in
         bind_out (ntb_data_msg_enqueue cfg (ss_shadow st) (ss_link st) pkt1) (\<lambda>(_, pkt2, dl, sh).
           Ret (c\<lparr>nc_detect_time := time\<rparr>, st\<lparr>ss_link := dl, ss_pkt := pkt2, ss_shadow := sh\<rparr>)))
      else Ret (c, st))"

definition ntp_send_buff_data ::
  "ntp_config \<Rightarrow> send_env \<Rightarrow> ntb_data_link \<Rightarrow> ntb_conn \<Rightarrow> (int \<times> ntb_data_link \<times> ntb_conn) outcome"
where
  "ntp_send_buff_data cfg env dl c =
     (let src_port = ucast (drop_bit 16 (nc_conn_id c)); dst_port = ucast (nc_conn_id c) in
      bind_out (get_ring (nc_send_ring c)) (\<lambda>s.
      let st = \<lparr>ss_ring = nc_send_ring c, ss_link = dl, ss_pkt = se_pkt env, ss_shadow = se_shadow env, ss_cnt = 0\<rparr> in
      bind_out (send_loop cfg src_port dst_port (nat (bulk_size cfg)) (se_arrivals env) st) (\<lambda>(fin, st1).
      if fin then Ret (0, ss_link st1, c\<lparr>nc_send_ring := ss_ring st1, nc_state := ACTIVE_CLOSE\<rparr>)
      else
        bind_out (send_detect cfg (send_window s) (se_time env) (c\<lparr>nc_send_ring := ss_ring st1\<rparr>) st1) (\<lambda>(c', st2).
          Ret (sint (ucast (ss_cnt st2) :: u32), ss_link st2, c')))))"

section \<open>The send thread\<close>

text \<open>
  One turn of the loop of \<^verbatim>\<open>ntb_send_thread\<close>: \<open>pre\<close> is the position of \<^verbatim>\<open>pre_node\<close> in the list, zero for the head.
\<close>

definition ntb_send_turn ::
  "ntp_config \<Rightarrow> send_env \<Rightarrow> nat \<Rightarrow> ntb_link_custom \<times> nat \<Rightarrow> (ntb_link_custom \<times> nat) outcome"
where
  "ntb_send_turn cfg env pidx = (\<lambda>(lk, pre).
     bind_out (array_get (lk_partitions lk) pidx) (\<lambda>p.
     if length (pt_send_list p) \<le> pre then Ret (lk, 0)
     else
       let r = pt_send_list p ! pre in
       bind_out (conn_at lk r) (\<lambda>c.
       if nc_state c = PASSIVE_CLOSE \<or> nc_state c = ACTIVE_CLOSE then
         bind_out (ntb_conn_remove lk pidx pre) (\<lambda>(lk', _). Ret (lk', pre))
       else
         bind_out (ntp_send_buff_data cfg env (pt_data_link p) c) (\<lambda>(_, dl, c').
           Ret ((set_conn lk r c')\<lparr>lk_partitions := (lk_partitions lk)[pidx := p\<lparr>pt_data_link := dl\<rparr>]\<rparr>, Suc pre)))))"

end
