(* ===== verification/Ntp_Blocks.thy ===== *)
theory Ntp_Blocks
  imports Ntp_Send
begin

text \<open>
  The payload blocks of a channel as its users see them. \<open>chan_ok\<close> is the invariant of a channel whose pool is
  larger than its ring; under it every operation on blocks and indices succeeds, and the messages in
  the ring are the contents of the blocks it names.
\<close>

section \<open>Invariant and messages\<close>

definition chan_ok :: "nat \<Rightarrow> nat \<Rightarrow> ntp_shm_context \<Rightarrow> int list \<Rightarrow> bool" where
  "chan_ok n b ctx used \<longleftrightarrow>
     (case (ntsring_handle ctx, mp_handler ctx) of
        (Some s, Some h) \<Rightarrow>
          idx_ring s \<and> unat (capacity s) < n \<and> n < 2 ^ 31 \<and> block_len (shm_mp h) = int b \<and> 8 \<le> b \<and> b < 2 ^ 31 \<and>
          pool_inv n (h, ring_idx s @ used) \<and> (\<forall>e \<in> set (shmring_contents s). int_bytes (bytes_int e) = e) \<and>
          length (shm_mem h) = n * b
      | _ \<Rightarrow> False)"

definition pending :: "ntp_shm_context \<Rightarrow> nat list" where
  "pending ctx = (case ntsring_handle ctx of None \<Rightarrow> [] | Some s \<Rightarrow> map nat (ring_idx s))"

definition pool_mem :: "ntp_shm_context \<Rightarrow> byte list" where
  "pool_mem ctx = (case mp_handler ctx of None \<Rightarrow> [] | Some h \<Rightarrow> shm_mem h)"

definition ring_room :: "ntp_shm_context \<Rightarrow> bool" where
  "ring_room ctx \<longleftrightarrow>
     (case ntsring_handle ctx of None \<Rightarrow> False | Some s \<Rightarrow> length (shmring_contents s) < unat (capacity s) - 1)"

text \<open>Type, length and payload of the message in block \<open>x\<close>.\<close>

definition blk_len :: "byte list \<Rightarrow> nat \<Rightarrow> nat \<Rightarrow> nat" where
  "blk_len m b x = unat (get16 m (x * b + 4))"

definition blk_msg :: "byte list \<Rightarrow> nat \<Rightarrow> nat \<Rightarrow> u16 \<times> byte list" where
  "blk_msg m b x = (get16 m (x * b + 6), seg m (x * b + 8) (blk_len m b x))"

definition blk_ok :: "byte list \<Rightarrow> nat \<Rightarrow> nat \<Rightarrow> bool" where
  "blk_ok m b x \<longleftrightarrow> 8 + blk_len m b x \<le> b"

definition ctx_msgs :: "nat \<Rightarrow> ntp_shm_context \<Rightarrow> (u16 \<times> byte list) list" where
  "ctx_msgs b ctx = map (blk_msg (pool_mem ctx) b) (pending ctx)"

definition ctx_ok :: "nat \<Rightarrow> ntp_shm_context \<Rightarrow> bool" where
  "ctx_ok b ctx \<longleftrightarrow> (\<forall>x \<in> set (pending ctx). blk_ok (pool_mem ctx) b x)"

abbreviation blk_addr :: "nat \<Rightarrow> nat \<Rightarrow> u64" where
  "blk_addr b x \<equiv> of_nat (x * b)"

section \<open>A write leaves the other blocks alone\<close>

lemma blk_frame:
  assumes "x \<noteq> y" "y * b + b \<le> length m" "a + length bs \<le> b" "blk_ok m b x" "8 \<le> b"
  shows "blk_msg (patch m (y * b + a) bs) b x = blk_msg m b x" "blk_ok (patch m (y * b + a) bs) b x"
proof -
  have f: "seg (patch m (y * b + a) bs) (x * b + c) k = seg m (x * b + c) k" if "c + k \<le> b" for c k
    using seg_patch_slot [OF assms(1-3) that] .
  have l: "blk_len (patch m (y * b + a) bs) b x = blk_len m b x"
    unfolding blk_len_def get16_def using f [of 4 2] assms(5) by simp
  then show "blk_ok (patch m (y * b + a) bs) b x" using assms(4) by (simp add: blk_ok_def)
  show "blk_msg (patch m (y * b + a) bs) b x = blk_msg m b x"
    unfolding blk_msg_def l get16_def using f [of 6 2] f [of 8 "blk_len m b x"] assms(4,5) by (simp add: blk_ok_def)
qed

section \<open>Addresses\<close>

lemma chan_okE:
  assumes "chan_ok n b ctx used"
  obtains s h where "ntsring_handle ctx = Some s" "mp_handler ctx = Some h" "idx_ring s" "unat (capacity s) < n"
    "n < 2 ^ 31" "block_len (shm_mp h) = int b" "8 \<le> b" "b < 2 ^ 31" "pool_inv n (h, ring_idx s @ used)"
    "\<forall>e \<in> set (shmring_contents s). int_bytes (bytes_int e) = e" "length (shm_mem h) = n * b"
  using assms by (auto simp: chan_ok_def split: option.splits)

lemma blk_of_nat: "block_len (shm_mp h) = int b \<Longrightarrow> 0 \<le> x \<Longrightarrow> blk h x = blk_addr b (nat x)"
  by (simp add: blk_def)

lemma unat_blk_addr:
  assumes "x < n" "n < 2 ^ 31" "b < 2 ^ 31"
  shows "unat (blk_addr b x) = x * b"
proof -
  have "x * b < 2 ^ 31 * 2 ^ 31" using assms by (intro mult_strict_mono') auto
  then show ?thesis by (simp add: unsigned_of_nat take_bit_nat_eq_self del: of_nat_mult)
qed

lemma blk_inside: "x < n \<Longrightarrow> x * b + b \<le> n * (b :: nat)"
  by (rule slot_inside) auto

text \<open>The region is not part of the bookkeeping.\<close>

lemma pool_inv_mem [simp]: "pool_inv n (h\<lparr>shm_mem := m\<rparr>, used) = pool_inv n (h, used)"
  by (simp add: pool_inv_def mp_ok_def)

lemma mp_malloc_mem: "shm_mp_malloc h = Ret (x, h') \<Longrightarrow> shm_mem h' = shm_mem h"
  by (auto simp: shm_mp_malloc_def Let_def split: if_splits)

lemma mp_free_mem: "shm_mp_free h x = Ret (rc, h') \<Longrightarrow> shm_mem h' = shm_mem h"
  by (auto simp: shm_mp_free_def set_node_def Let_def split: if_splits)

lemma used_bound:
  assumes "chan_ok n b ctx used"
  shows "x \<in> set used \<Longrightarrow> 0 \<le> x \<and> x < int n" "y \<in> set (pending ctx) \<Longrightarrow> y < n"
proof -
  obtain s h where c: "ntsring_handle ctx = Some s" "pool_inv n (h, ring_idx s @ used)"
    using assms by (elim chan_okE)
  note u = pool_used_bound [OF c(2)]
  show "x \<in> set used \<Longrightarrow> 0 \<le> x \<and> x < int n" using u [of x] by simp
  show "y \<in> set (pending ctx) \<Longrightarrow> y < n" using u c(1) by (force simp: pending_def)
qed

text \<open>A block in use is none of those in the ring.\<close>

lemma used_not_pending:
  assumes "chan_ok n b ctx (int x # used)" "y \<in> set (pending ctx)"
  shows "y \<noteq> x"
proof -
  obtain s h where c: "ntsring_handle ctx = Some s" "pool_inv n (h, ring_idx s @ int x # used)"
    using assms by (elim chan_okE)
  have "int x \<notin> set (ring_idx s)" using pool_inv_distinct [OF c(2)] by auto
  moreover have "0 \<le> i" if "i \<in> set (ring_idx s)" for i using pool_used_bound [OF c(2), of i] that by simp
  ultimately show ?thesis using assms(2) c(1) by (force simp: pending_def)
qed

section \<open>Operations\<close>

lemma ring_count_bound:
  assumes "idx_ring s"
  shows "length (ring_idx s) \<le> unat (capacity s) - 1" "0 < unat (capacity s)"
  using assms shmring_contents_length [of s]
  by (auto simp: idx_ring_def ring_idx_def shmring_inv_def word_gt_0 unat_gt_0)

text \<open>The pool is larger than the ring: while the ring and one more block are in use, there is another one.\<close>

lemma chan_alloc_ok:
  assumes ok: "chan_ok n b ctx []" and mtu: "0 < mtu"
  shows "\<exists>x ctx'. ntp_shm_ntpacket_alloc ctx mtu = Ret (SUCCESS, blk_addr b x, ctx') \<and> x < n \<and>
     chan_ok n b ctx' [int x] \<and> pending ctx' = pending ctx \<and> pool_mem ctx' = pool_mem ctx \<and>
     ring_room ctx' = ring_room ctx"
proof -
  obtain s h where c: "ntsring_handle ctx = Some s" "mp_handler ctx = Some h" "idx_ring s" "unat (capacity s) < n"
    "n < 2 ^ 31" "block_len (shm_mp h) = int b" "8 \<le> b" "b < 2 ^ 31" "pool_inv n (h, ring_idx s @ [])"
    "\<forall>e \<in> set (shmring_contents s). int_bytes (bytes_int e) = e" "length (shm_mem h) = n * b"
    using ok by (elim chan_okE)
  have "int n = total_count (shm_mp h)" using c(9) by (auto simp: pool_inv_def mp_ok_def)
  then have "int (length (ring_idx s @ [])) + 2 \<le> total_count (shm_mp h)"
    using ring_count_bound [OF c(3)] c(4) by simp
  from pool_malloc [OF c(9) this] obtain x h' where h': "shm_mp_malloc h = Ret (Some x, h')" "0 \<le> x" "x < int n"
    "pool_inv n (h', x # ring_idx s @ [])" "block_len (shm_mp h') = block_len (shm_mp h)" by blast
  have bl: "0 < block_len (shm_mp h')" "block_len (shm_mp h') < 2 ^ 31" using h'(5) c(6-8) by auto
  note ad = pool_addr [OF h'(4) h'(2,3) c(5) bl]
  then obtain node where node: "node_at h' x = Ret node" "node_idx node = x" by blast
  have "blk h' x = blk_addr b (nat x)" using blk_of_nat [of h' b x] h'(2,5) c(6) by simp
  with ad(1) h'(2) have off: "shm_offset_mem h' (nat x) = Ret (blk_addr b (nat x))" by (simp add: msg_at_def)
  let ?ctx = "ctx\<lparr>mp_handler := Some h'\<rparr>"
  have "ntp_shm_ntpacket_alloc ctx mtu = Ret (SUCCESS, blk_addr b (nat x), ?ctx)"
    using mtu c(2) h'(1,2) node off by (simp add: ntp_shm_ntpacket_alloc_def get_mp_def)
  moreover have "pool_inv n (h', ring_idx s @ [x])"
    by (rule pool_inv_set [OF h'(4)]) (use pool_inv_distinct [OF h'(4)] in auto)
  then have "chan_ok n b ?ctx [int (nat x)]"
    using c h' mp_malloc_mem [OF h'(1)] by (simp add: chan_ok_def)
  moreover have "pending ?ctx = pending ctx" "pool_mem ?ctx = pool_mem ctx" "ring_room ?ctx = ring_room ctx"
    using c(2) mp_malloc_mem [OF h'(1)] by (simp_all add: pending_def pool_mem_def ring_room_def)
  moreover have "nat x < n" using h'(2,3) by linarith
  ultimately show ?thesis by blast
qed

lemma chan_send_ok:
  assumes ok: "chan_ok n b ctx [int x]" and room: "ring_room ctx"
  shows "\<exists>ctx'. ntp_shm_send env ctx (blk_addr b x) = Ret (SUCCESS, ctx') \<and> chan_ok n b ctx' [] \<and>
     pending ctx' = pending ctx @ [x] \<and> pool_mem ctx' = pool_mem ctx"
proof -
  obtain s h where c: "ntsring_handle ctx = Some s" "mp_handler ctx = Some h" "idx_ring s" "unat (capacity s) < n"
    "n < 2 ^ 31" "block_len (shm_mp h) = int b" "8 \<le> b" "b < 2 ^ 31" "pool_inv n (h, ring_idx s @ [int x])"
    "\<forall>e \<in> set (shmring_contents s). int_bytes (bytes_int e) = e" "length (shm_mem h) = n * b"
    using ok by (elim chan_okE)
  have x: "0 \<le> int x" "int x < int n" using used_bound(1) [OF ok, of "int x"] by auto
  have bl: "0 < block_len (shm_mp h)" "block_len (shm_mp h) < 2 ^ 31" using c(6-8) by auto
  note ad = pool_addr [OF c(9) x c(5) bl]
  then obtain node where node: "node_at h (int x) = Ret node" "node_idx node = int x" by blast
  have bk: "blk h (int x) = blk_addr b x" using blk_of_nat [of h b "int x"] c(6) by simp
  have "length (shmring_contents s) < unat (capacity s) - 1" using room c(1) by (simp add: ring_room_def)
  from push_retry_room [OF c(3), of "int_bytes (int x)" env] this obtain s' where
    s': "push_retry env s (int_bytes (int x)) = Ret (SUCCESS, s')" "idx_ring s'"
      "shmring_contents s' = shmring_contents s @ [int_bytes (int x)]" "capacity s' = capacity s" by auto
  have bx: "bytes_int (int_bytes (int x)) = int x" using x c(5) by (intro bytes_int_bytes) auto
  then have rx: "ring_idx s' = ring_idx s @ [int x]" by (simp add: ring_idx_def s')
  let ?ctx = "ctx\<lparr>ntsring_handle := Some s'\<rparr>"
  have "ntp_shm_send env ctx (blk_addr b x) = Ret (SUCCESS, ?ctx)"
    using c(1,2) ad(2) node s'(1) bk by (simp add: ntp_shm_send_def get_mp_def get_ring_def del: push_retry.simps)
  moreover have "chan_ok n b ?ctx []" using c s' rx bx by (auto simp: chan_ok_def)
  moreover have "pending ?ctx = pending ctx @ [x]" "pool_mem ?ctx = pool_mem ctx"
    using c(1) rx by (simp_all add: pending_def pool_mem_def)
  ultimately show ?thesis by blast
qed

lemma chan_recv_ok:
  assumes ok: "chan_ok n b ctx []" and p: "pending ctx = x # xs"
  shows "\<exists>ctx'. ntp_shm_recv env ctx = Ret (SUCCESS, Some (blk_addr b x), ctx') \<and> chan_ok n b ctx' [int x] \<and>
     pending ctx' = xs \<and> pool_mem ctx' = pool_mem ctx"
proof -
  obtain s h where c: "ntsring_handle ctx = Some s" "mp_handler ctx = Some h" "idx_ring s" "unat (capacity s) < n"
    "n < 2 ^ 31" "block_len (shm_mp h) = int b" "8 \<le> b" "b < 2 ^ 31" "pool_inv n (h, ring_idx s @ [])"
    "\<forall>e \<in> set (shmring_contents s). int_bytes (bytes_int e) = e" "length (shm_mem h) = n * b"
    using ok by (elim chan_okE)
  obtain e es where e: "shmring_contents s = e # es" "nat (bytes_int e) = x" "map nat (map bytes_int es) = xs"
    using p c(1) by (auto simp: pending_def ring_idx_def)
  have len: "length (int_bytes (- 1)) = 4" by simp
  from pop_retry_some [OF c(3) e(1) len, of "RETRY_TIMES + 1" env] obtain s' where
    s': "pop_retry (RETRY_TIMES + 1) env s (int_bytes (- 1)) = Ret (SUCCESS, e, s')" "idx_ring s'"
      "shmring_contents s' = es" "capacity s' = capacity s" by blast
  have rx: "ring_idx s = bytes_int e # ring_idx s'" by (simp add: ring_idx_def e s')
  have eb: "0 \<le> bytes_int e" "bytes_int e < int n" using pool_used_bound [OF c(9), of "bytes_int e"] rx by auto
  then have ex: "bytes_int e = int x" using e(2) by simp
  have bl: "0 < block_len (shm_mp h)" "block_len (shm_mp h) < 2 ^ 31" using c(6-8) by auto
  have "blk h (int x) = blk_addr b x" using blk_of_nat [of h b "int x"] c(6) by simp
  then have ma: "msg_at h (bytes_int e) = Ret (blk_addr b x)" using pool_addr(1) [OF c(9) eb c(5) bl] ex by simp
  let ?ctx = "ctx\<lparr>ntsring_handle := Some s'\<rparr>"
  have "ntp_shm_recv env ctx = Ret (SUCCESS, Some (blk_addr b x), ?ctx)"
    using c(1,2) s'(1) ma by (simp add: ntp_shm_recv_def get_ring_def get_mp_def)
  moreover have "pool_inv n (h, ring_idx s' @ [int x])"
    by (rule pool_inv_set [OF c(9)]) (use pool_inv_distinct [OF c(9)] rx ex in auto)
  then have "chan_ok n b ?ctx [int x]" using c s' e(1) by (auto simp: chan_ok_def)
  moreover have "pending ?ctx = xs" "pool_mem ?ctx = pool_mem ctx"
    using e(3) s'(3) by (simp_all add: pending_def pool_mem_def ring_idx_def)
  ultimately show ?thesis by blast
qed

lemma chan_recv_none:
  assumes ok: "chan_ok n b ctx used" and p: "pending ctx = []"
  shows "ntp_shm_recv [] ctx = Ret (FAILED, None, ctx)"
proof -
  obtain s where c: "ntsring_handle ctx = Some s" "idx_ring s" using ok by (elim chan_okE)
  then have "shmring_contents s = []" using p by (simp add: pending_def ring_idx_def)
  from pop_retry_quiet [OF c(2) this] c(1) show ?thesis by (simp add: ntp_shm_recv_def get_ring_def)
qed

lemma chan_free_ok:
  assumes ok: "chan_ok n b ctx [int x]"
  shows "\<exists>ctx'. ntp_shm_ntpacket_free ctx (blk_addr b x) = Ret ctx' \<and> chan_ok n b ctx' [] \<and>
     pending ctx' = pending ctx \<and> pool_mem ctx' = pool_mem ctx"
proof -
  obtain s h where c: "ntsring_handle ctx = Some s" "mp_handler ctx = Some h" "idx_ring s" "unat (capacity s) < n"
    "n < 2 ^ 31" "block_len (shm_mp h) = int b" "8 \<le> b" "b < 2 ^ 31" "pool_inv n (h, ring_idx s @ [int x])"
    "\<forall>e \<in> set (shmring_contents s). int_bytes (bytes_int e) = e" "length (shm_mem h) = n * b"
    using ok by (elim chan_okE)
  have x: "0 \<le> int x" "int x < int n" using used_bound(1) [OF ok, of "int x"] by auto
  have bl: "0 < block_len (shm_mp h)" "block_len (shm_mp h) < 2 ^ 31" using c(6-8) by auto
  note ad = pool_addr(2) [OF c(9) x c(5) bl]
  have bk: "blk h (int x) = blk_addr b x" using blk_of_nat [of h b "int x"] c(6) by simp
  from pool_free [OF c(9), of "int x"] obtain h' where h': "shm_mp_free h (int x) = Ret (SMP_OK, h')"
    "pool_inv n (h', remove1 (int x) (ring_idx s @ [int x]))" "block_len (shm_mp h') = block_len (shm_mp h)" by auto
  let ?ctx = "ctx\<lparr>mp_handler := Some h'\<rparr>"
  have "ntp_shm_ntpacket_free ctx (blk_addr b x) = Ret ?ctx"
    using c(2) ad bk h'(1) by (simp add: ntp_shm_ntpacket_free_def get_mp_def)
  moreover have "int x \<notin> set (ring_idx s)" using pool_inv_distinct [OF c(9)] by simp
  then have "remove1 (int x) (ring_idx s @ [int x]) = ring_idx s" by (simp add: remove1_append)
  then have "chan_ok n b ?ctx []" using c h' mp_free_mem [OF h'(1)] by (simp add: chan_ok_def)
  moreover have "pending ?ctx = pending ctx" "pool_mem ?ctx = pool_mem ctx"
    using c(2) mp_free_mem [OF h'(1)] by (simp_all add: pending_def pool_mem_def)
  ultimately show ?thesis by blast
qed

text \<open>Reading and writing a block.\<close>

lemma chan_read_ok:
  assumes ok: "chan_ok n b ctx used" and x: "x < n"
  shows "read_block ctx (blk_addr b x) =
     Ret \<lparr>header = hdr_at (pool_mem ctx) (x * b), payload = drop (x * b + 8) (pool_mem ctx)\<rparr>"
proof -
  obtain h where c: "mp_handler ctx = Some h" "n < 2 ^ 31" "8 \<le> b" "b < 2 ^ 31" "length (shm_mem h) = n * b"
    using ok by (elim chan_okE)
  show ?thesis
    using c blk_inside [OF x, of b] unat_blk_addr [OF x c(2,4)] by (simp add: read_block_def get_mp_def pool_mem_def)
qed

lemma chan_write_ok:
  assumes ok: "chan_ok n b ctx used" and x: "x < n" and a: "a + length bs \<le> b"
  shows "\<exists>ctx'. write_block ctx (blk_addr b x) a bs = Ret ctx' \<and> chan_ok n b ctx' used \<and> pending ctx' = pending ctx \<and>
     pool_mem ctx' = patch (pool_mem ctx) (x * b + a) bs \<and> ring_room ctx' = ring_room ctx"
proof -
  obtain s h where c: "ntsring_handle ctx = Some s" "mp_handler ctx = Some h" "idx_ring s" "unat (capacity s) < n"
    "n < 2 ^ 31" "block_len (shm_mp h) = int b" "8 \<le> b" "b < 2 ^ 31" "pool_inv n (h, ring_idx s @ used)"
    "\<forall>e \<in> set (shmring_contents s). int_bytes (bytes_int e) = e" "length (shm_mem h) = n * b"
    using ok by (elim chan_okE)
  let ?m = "patch (shm_mem h) (x * b + a) bs" and ?ctx = "ctx\<lparr>mp_handler := Some (h\<lparr>shm_mem := patch (shm_mem h) (x * b + a) bs\<rparr>)\<rparr>"
  have i: "x * b + a + length bs \<le> length (shm_mem h)" using blk_inside [OF x, of b] a c(11) by simp
  then have "write_block ctx (blk_addr b x) a bs = Ret ?ctx"
    using c(2) unat_blk_addr [OF x c(5,8)] by (simp add: write_block_def get_mp_def)
  moreover have "chan_ok n b ?ctx used" using c i by (simp add: chan_ok_def)
  moreover have "pending ?ctx = pending ctx" "pool_mem ?ctx = patch (pool_mem ctx) (x * b + a) bs"
    "ring_room ?ctx = ring_room ctx"
    using c(2) by (simp_all add: pending_def pool_mem_def ring_room_def)
  ultimately show ?thesis by blast
qed

lemma pool_mem_length: "chan_ok n b ctx used \<Longrightarrow> length (pool_mem ctx) = n * b"
  by (auto simp: chan_ok_def pool_mem_def split: option.splits)

end
