(* ===== verification/Chan_View.thy ===== *)
theory Chan_View
  imports Ntp_Blocks
begin

text \<open>
  A channel seen as a bounded queue of messages. \<open>chan_view\<close> relates a context to the capacity of its ring and to the
  messages waiting in it; the lemmas give the effect of every operation on that view, so that the
  users of a channel reason about lists of messages only.
\<close>

section \<open>What no operation changes\<close>

definition chan_sig :: "ntp_shm_context \<Rightarrow> nat \<times> u64" where
  "chan_sig ctx = (case ntsring_handle ctx of None \<Rightarrow> (0, 0) | Some s \<Rightarrow> (unat (capacity s), peer_read_idx s))"

definition ring_sig :: "shmring \<Rightarrow> u64 \<times> u64" where
  "ring_sig s = (capacity s, peer_read_idx s)"

lemma shmring_push_sig: "shmring_push s e l = Ret (rc, s') \<Longrightarrow> ring_sig s' = ring_sig s"
  by (auto simp: shmring_push_def Let_def ring_sig_def split: if_splits)

lemma shmring_plain_pop_sig: "shmring_plain_pop s = Ret (rc, s') \<Longrightarrow> ring_sig s' = ring_sig s"
  by (auto simp: shmring_plain_pop_def Let_def ring_sig_def split: if_splits)

lemma shmring_pop_sig: "shmring_pop s e l = Ret (rc, e', s') \<Longrightarrow> ring_sig s' = ring_sig s"
  by (auto simp: shmring_pop_def Let_def ring_sig_def split: if_splits)

lemma peer_pops_sig: "peer_pops n s = Ret s' \<Longrightarrow> ring_sig s' = ring_sig s"
  by (induction n arbitrary: s) (auto dest!: shmring_plain_pop_sig)

lemma peer_pushes_sig: "peer_pushes es s = Ret s' \<Longrightarrow> ring_sig s' = ring_sig s"
  by (induction es arbitrary: s) (auto dest!: shmring_push_sig)

lemma push_retry_sig: "push_retry env s e = Ret (rc, s') \<Longrightarrow> ring_sig s' = ring_sig s"
  by (induction env arbitrary: s) (force dest!: shmring_push_sig peer_pops_sig split: if_splits)+

lemma pop_retry_sig: "pop_retry n env s e = Ret (rc, e', s') \<Longrightarrow> ring_sig s' = ring_sig s"
  by (induction n arbitrary: env s e) (force dest!: shmring_pop_sig peer_pushes_sig split: if_splits)+

lemma chan_sig_ring:
  "ntsring_handle ctx = Some s \<Longrightarrow> ring_sig s' = ring_sig s \<Longrightarrow> chan_sig (ctx\<lparr>ntsring_handle := Some s'\<rparr>) = chan_sig ctx"
  by (simp add: chan_sig_def ring_sig_def)

lemma alloc_sig: "ntp_shm_ntpacket_alloc ctx k = Ret (rc, off, ctx') \<Longrightarrow> chan_sig ctx' = chan_sig ctx"
  by (auto simp: ntp_shm_ntpacket_alloc_def chan_sig_def split: option.splits)

lemma free_sig: "ntp_shm_ntpacket_free ctx off = Ret ctx' \<Longrightarrow> chan_sig ctx' = chan_sig ctx"
  by (auto simp: ntp_shm_ntpacket_free_def chan_sig_def)

lemma write_block_sig: "write_block ctx off k bs = Ret ctx' \<Longrightarrow> chan_sig ctx' = chan_sig ctx"
  by (auto simp: write_block_def chan_sig_def)

lemma send_sig: "ntp_shm_send env ctx off = Ret (rc, ctx') \<Longrightarrow> chan_sig ctx' = chan_sig ctx"
  by (auto simp: ntp_shm_send_def get_ring_def dest!: push_retry_sig intro!: chan_sig_ring split: option.splits)

lemma recv_sig: "ntp_shm_recv env ctx = Ret (rc, m, ctx') \<Longrightarrow> chan_sig ctx' = chan_sig ctx"
  by (auto simp: ntp_shm_recv_def get_ring_def dest!: pop_retry_sig intro!: chan_sig_ring split: option.splits if_splits)

lemma pop_sig: "ntp_shm_pop ctx = Ret (rc, ctx') \<Longrightarrow> chan_sig ctx' = chan_sig ctx"
  by (auto simp: ntp_shm_pop_def get_ring_def dest!: shmring_plain_pop_sig intro!: chan_sig_ring split: option.splits)

section \<open>The view\<close>

definition chan_view ::
  "nat \<Rightarrow> nat \<Rightarrow> nat \<times> u64 \<Rightarrow> ntp_shm_context \<Rightarrow> int list \<Rightarrow> (u16 \<times> byte list) list \<Rightarrow> bool"
where
  "chan_view n b sig ctx used msgs \<longleftrightarrow>
     chan_ok n b ctx used \<and> ctx_ok b ctx \<and> ctx_msgs b ctx = msgs \<and> chan_sig ctx = sig"

lemma chan_view_room: "chan_view n b (c, p) ctx used msgs \<Longrightarrow> ring_room ctx \<longleftrightarrow> length msgs < c - 1"
  by (auto simp: chan_view_def chan_ok_def ring_room_def ctx_msgs_def pending_def ring_idx_def chan_sig_def split: option.splits)

lemma chan_view_length:
  assumes "chan_view n b (c, p) ctx used msgs"
  shows "length msgs \<le> c - 1" "0 < c"
proof -
  obtain s where s: "ntsring_handle ctx = Some s" "idx_ring s" using assms by (auto simp: chan_view_def elim: chan_okE)
  show "length msgs \<le> c - 1" "0 < c" using ring_count_bound [OF s(2)] assms s(1)
    by (auto simp: chan_view_def ctx_msgs_def pending_def chan_sig_def)
qed

lemma view_alloc:
  assumes v: "chan_view n b sig ctx [] msgs" and "0 < mtu"
  obtains x ctx' where "ntp_shm_ntpacket_alloc ctx mtu = Ret (SUCCESS, blk_addr b x, ctx')" "x < n"
    "chan_view n b sig ctx' [int x] msgs"
proof -
  from chan_alloc_ok [of n b ctx mtu] assms obtain x ctx' where
    a: "ntp_shm_ntpacket_alloc ctx mtu = Ret (SUCCESS, blk_addr b x, ctx')" "x < n" "chan_ok n b ctx' [int x]"
      "pending ctx' = pending ctx" "pool_mem ctx' = pool_mem ctx" by (auto simp: chan_view_def)
  moreover have "chan_view n b sig ctx' [int x] msgs"
    using a v alloc_sig [OF a(1)] by (simp add: chan_view_def ctx_ok_def ctx_msgs_def)
  ultimately show ?thesis using that by blast
qed

lemma view_write:
  assumes v: "chan_view n b sig ctx [int x] msgs" and a: "a + length bs \<le> b"
  obtains ctx' where "write_block ctx (blk_addr b x) a bs = Ret ctx'" "chan_view n b sig ctx' [int x] msgs"
    "pool_mem ctx' = patch (pool_mem ctx) (x * b + a) bs"
proof -
  have ok: "chan_ok n b ctx [int x]" using v by (simp add: chan_view_def)
  have x: "x < n" using used_bound(1) [OF ok, of "int x"] by simp
  from chan_write_ok [OF ok x a] obtain ctx' where
    w: "write_block ctx (blk_addr b x) a bs = Ret ctx'" "chan_ok n b ctx' [int x]" "pending ctx' = pending ctx"
      "pool_mem ctx' = patch (pool_mem ctx) (x * b + a) bs" by blast
  have "8 \<le> b" using ok by (elim chan_okE)
  have f: "blk_msg (pool_mem ctx') b y = blk_msg (pool_mem ctx) b y" "blk_ok (pool_mem ctx') b y" if "y \<in> set (pending ctx)" for y
    unfolding w(4) using blk_frame [of y x b "pool_mem ctx" a bs] used_not_pending [OF ok that] that v a \<open>8 \<le> b\<close>
      pool_mem_length [OF ok] blk_inside [OF x, of b] by (simp_all add: chan_view_def ctx_ok_def)
  have "chan_view n b sig ctx' [int x] msgs"
    using w f v write_block_sig [OF w(1)] by (auto simp: chan_view_def ctx_ok_def ctx_msgs_def)
  with w that show ?thesis by blast
qed

text \<open>The three writes that make a message of a block.\<close>

lemma view_fill:
  assumes v: "chan_view n b sig ctx [int x] msgs" and bs: "8 + length bs \<le> b" "length bs < 2 ^ 16"
  obtains ctx1 ctx2 where "fill_block ctx (blk_addr b x) t (of_nat (length bs)) = Ret ctx1"
    "write_block ctx1 (blk_addr b x) 8 bs = Ret ctx2" "chan_view n b sig ctx2 [int x] msgs"
    "blk_msg (pool_mem ctx2) b x = (t, bs)" "blk_ok (pool_mem ctx2) b x"
proof -
  let ?l = "of_nat (length bs) :: u16"
  obtain c0 where c0: "write_block ctx (blk_addr b x) 6 (put16 t) = Ret c0" "chan_view n b sig c0 [int x] msgs"
    "pool_mem c0 = patch (pool_mem ctx) (x * b + 6) (put16 t)" by (rule view_write [OF v, of 6 "put16 t"]) (use bs in auto)
  obtain c1 where c1: "write_block c0 (blk_addr b x) 4 (put16 ?l) = Ret c1" "chan_view n b sig c1 [int x] msgs"
    "pool_mem c1 = patch (pool_mem c0) (x * b + 4) (put16 ?l)" by (rule view_write [OF c0(2), of 4 "put16 ?l"]) (use bs in auto)
  obtain c2 where c2: "write_block c1 (blk_addr b x) 8 bs = Ret c2" "chan_view n b sig c2 [int x] msgs"
    "pool_mem c2 = patch (pool_mem c1) (x * b + 8) bs" by (rule view_write [OF c1(2), of 8 bs]) (use bs in auto)
  have ok: "chan_ok n b ctx [int x]" "chan_ok n b c0 [int x]" "chan_ok n b c1 [int x]"
    using v c0 c1 by (simp_all add: chan_view_def)
  have x: "x < n" using used_bound(1) [OF ok(1), of "int x"] by simp
  note i = blk_inside [OF x, of b]
  note l = pool_mem_length [OF ok(1)] pool_mem_length [OF ok(2)] pool_mem_length [OF ok(3)]
  have "seg (pool_mem c2) (x * b + 4) 2 = put16 ?l"
    unfolding c2(3) using i l bs seg_patch_before [of "x * b + 8" bs "pool_mem c1" "x * b + 4" 2]
    by (simp add: c1(3) seg_patch_same l)
  from get16_put16 [OF this] have len: "blk_len (pool_mem c2) b x = length bs"
    using bs(2) by (simp add: blk_len_def unsigned_of_nat take_bit_nat_eq_self)
  have "seg (pool_mem c2) (x * b + 6) 2 = seg (pool_mem c1) (x * b + 6) 2"
    unfolding c2(3) using i l bs by (intro seg_patch_before) auto
  also have "\<dots> = seg (pool_mem c0) (x * b + 6) 2"
    unfolding c1(3) using i l bs by (intro seg_patch_after) auto
  also have "\<dots> = put16 t" unfolding c0(3) using i l bs by (intro seg_patch_same) auto
  finally have ty: "get16 (pool_mem c2) (x * b + 6) = t" by (rule get16_put16)
  have pl: "seg (pool_mem c2) (x * b + 8) (length bs) = bs"
    unfolding c2(3) using i l bs by (intro seg_patch_same) auto
  have "blk_msg (pool_mem c2) b x = (t, bs)" "blk_ok (pool_mem c2) b x"
    using len ty pl bs(1) by (simp_all add: blk_msg_def blk_ok_def)
  with c0(1) c1(1) c2(1,2) that show ?thesis by (simp add: fill_block_def)
qed

lemma view_send:
  assumes v: "chan_view n b (c, p) ctx [int x] msgs" and room: "length msgs < c - 1" and ok: "blk_ok (pool_mem ctx) b x"
  obtains ctx' where "ntp_shm_send env ctx (blk_addr b x) = Ret (SUCCESS, ctx')"
    "chan_view n b (c, p) ctx' [] (msgs @ [blk_msg (pool_mem ctx) b x])"
proof -
  have "chan_ok n b ctx [int x]" "ring_room ctx" using v room chan_view_room [OF v] by (simp_all add: chan_view_def)
  from chan_send_ok [OF this, of env] obtain ctx' where
    s: "ntp_shm_send env ctx (blk_addr b x) = Ret (SUCCESS, ctx')" "chan_ok n b ctx' []" "pending ctx' = pending ctx @ [x]"
      "pool_mem ctx' = pool_mem ctx" by blast
  moreover have "chan_view n b (c, p) ctx' [] (msgs @ [blk_msg (pool_mem ctx) b x])"
    using s v ok send_sig [OF s(1)] by (auto simp: chan_view_def ctx_ok_def ctx_msgs_def)
  ultimately show ?thesis using that by blast
qed

lemma view_recv:
  assumes v: "chan_view n b sig ctx [] (m # msgs)"
  obtains x ctx' where "ntp_shm_recv env ctx = Ret (SUCCESS, Some (blk_addr b x), ctx')" "x < n"
    "chan_view n b sig ctx' [int x] msgs" "blk_msg (pool_mem ctx') b x = m" "blk_ok (pool_mem ctx') b x"
proof -
  obtain x xs where p: "pending ctx = x # xs" "blk_msg (pool_mem ctx) b x = m" "map (blk_msg (pool_mem ctx) b) xs = msgs"
    using v by (auto simp: chan_view_def ctx_msgs_def)
  have ok: "chan_ok n b ctx []" using v by (simp add: chan_view_def)
  from chan_recv_ok [OF ok p(1), of env] obtain ctx' where
    r: "ntp_shm_recv env ctx = Ret (SUCCESS, Some (blk_addr b x), ctx')" "chan_ok n b ctx' [int x]" "pending ctx' = xs"
      "pool_mem ctx' = pool_mem ctx" by blast
  have "chan_view n b sig ctx' [int x] msgs" "blk_ok (pool_mem ctx') b x"
    using r v p recv_sig [OF r(1)] by (auto simp: chan_view_def ctx_ok_def ctx_msgs_def)
  moreover have "x < n" using used_bound(2) [OF ok, of x] p(1) by simp
  ultimately show ?thesis using that r(1,4) p(2) by simp
qed

lemma view_free:
  assumes v: "chan_view n b sig ctx [int x] msgs"
  obtains ctx' where "ntp_shm_ntpacket_free ctx (blk_addr b x) = Ret ctx'" "chan_view n b sig ctx' [] msgs"
proof -
  have "chan_ok n b ctx [int x]" using v by (simp add: chan_view_def)
  from chan_free_ok [OF this] obtain ctx' where
    f: "ntp_shm_ntpacket_free ctx (blk_addr b x) = Ret ctx'" "chan_ok n b ctx' []" "pending ctx' = pending ctx"
      "pool_mem ctx' = pool_mem ctx" by blast
  moreover have "chan_view n b sig ctx' [] msgs"
    using f v free_sig [OF f(1)] by (auto simp: chan_view_def ctx_ok_def ctx_msgs_def)
  ultimately show ?thesis using that by blast
qed

lemma view_recv_none: "chan_view n b sig ctx [] [] \<Longrightarrow> ntp_shm_recv [] ctx = Ret (FAILED, None, ctx)"
  by (rule chan_recv_none [of n b ctx "[]"]) (auto simp: chan_view_def ctx_msgs_def)

text \<open>Looking at the front and removing it is receiving it.\<close>

lemma front_pop_recv:
  assumes s: "ntsring_handle ctx = Some s" "idx_ring s" "shmring_contents s = e # es"
    and r: "ntp_shm_recv env ctx = Ret (SUCCESS, Some off, ctx')"
  shows "ntp_shm_front ctx = Ret (SUCCESS, Some off)" "ntp_shm_pop ctx = Ret (0, ctx')"
proof -
  have inv: "shmring_inv s" and es: "ele_size s = 4" using s(2) by (auto simp: idx_ring_def)
  have len: "length e = 4" using shmring_nonempty(2) [OF inv s(3)] inv es by (auto simp: shmring_inv_def)
  from shmring_pop_some [OF inv s(3), of 4 "int_bytes (- 1)"] es len obtain s' where
    p: "shmring_pop s (int_bytes (- 1)) 4 = Ret (SUCCESS, e, s')" "shmring_plain_pop s = Ret (0, s')"
      "shmring_front s (int_bytes (- 1)) 4 = Ret (SUCCESS, e)" by auto
  then have "pop_retry k env s (int_bytes (- 1)) = Ret (SUCCESS, e, s')" for k by (cases k) simp_all
  with r s(1) p show "ntp_shm_front ctx = Ret (SUCCESS, Some off)" "ntp_shm_pop ctx = Ret (0, ctx')"
    by (auto simp: ntp_shm_recv_def ntp_shm_front_def ntp_shm_pop_def get_ring_def)
qed

lemma view_front:
  assumes v: "chan_view n b sig ctx [] (m # msgs)"
  obtains x ctx' where "ntp_shm_front ctx = Ret (SUCCESS, Some (blk_addr b x))" "ntp_shm_pop ctx = Ret (0, ctx')" "x < n"
    "chan_view n b sig ctx' [int x] msgs" "blk_msg (pool_mem ctx) b x = m" "blk_msg (pool_mem ctx') b x = m"
    "blk_ok (pool_mem ctx') b x"
proof -
  obtain s where s: "ntsring_handle ctx = Some s" "idx_ring s" using v by (auto simp: chan_view_def elim: chan_okE)
  obtain e es where "shmring_contents s = e # es"
    using v s(1) by (auto simp: chan_view_def ctx_msgs_def pending_def ring_idx_def)
  note fp = front_pop_recv [OF s this]
  obtain x ctx' where r: "ntp_shm_recv [] ctx = Ret (SUCCESS, Some (blk_addr b x), ctx')" "x < n"
    "chan_view n b sig ctx' [int x] msgs" "blk_msg (pool_mem ctx') b x = m" "blk_ok (pool_mem ctx') b x"
    by (rule view_recv [OF v, of "[]"])
  have "pool_mem ctx' = pool_mem ctx"
    using fp(2) [OF r(1)] by (auto simp: ntp_shm_pop_def pool_mem_def)
  with fp [OF r(1)] r that show ?thesis by auto
qed

lemma view_front_none:
  assumes "chan_view n b sig ctx used []"
  shows "ntp_shm_front ctx = Ret (FAILED, None)"
proof -
  obtain s where s: "ntsring_handle ctx = Some s" "idx_ring s" using assms by (auto simp: chan_view_def elim: chan_okE)
  then have "shmring_inv s" "shmring_contents s = []"
    using assms by (auto simp: chan_view_def ctx_msgs_def pending_def ring_idx_def idx_ring_def)
  from shmring_pop_none(3) [OF this] s(1) show ?thesis by (simp add: ntp_shm_front_def get_ring_def)
qed

text \<open>A message in a block, as it is read.\<close>

lemma view_read:
  assumes v: "chan_view n b sig ctx used msgs" and x: "x < n"
  obtains m where "read_block ctx (blk_addr b x) = Ret m" "h_msg_type (header m) = fst (blk_msg (pool_mem ctx) b x)"
    "unat (h_msg_len (header m)) = blk_len (pool_mem ctx) b x" "blk_ok (pool_mem ctx) b x \<Longrightarrow>
       blk_len (pool_mem ctx) b x \<le> length (payload m) \<and>
       take (blk_len (pool_mem ctx) b x) (payload m) = snd (blk_msg (pool_mem ctx) b x)"
proof -
  have ok: "chan_ok n b ctx used" using v by (simp add: chan_view_def)
  note r = chan_read_ok [OF ok x]
  have "blk_len (pool_mem ctx) b x \<le> length (drop (x * b + 8) (pool_mem ctx))" if "blk_ok (pool_mem ctx) b x"
    using that blk_inside [OF x, of b] pool_mem_length [OF ok] by (simp add: blk_ok_def)
  with r show ?thesis by (intro that [OF r]) (simp_all add: hdr_at_def blk_msg_def blk_len_def seg_def)
qed

text \<open>Without room, and with nobody taking anything out, the send waits for ever.\<close>

lemma view_send_full:
  assumes v: "chan_view n b (c, p) ctx [int x] msgs" and full: "\<not> length msgs < c - 1"
  shows "ntp_shm_send [] ctx (blk_addr b x) = Spin"
proof -
  have ok: "chan_ok n b ctx [int x]" using v by (simp add: chan_view_def)
  obtain s h where c: "ntsring_handle ctx = Some s" "mp_handler ctx = Some h" "idx_ring s" "n < 2 ^ 31"
    "block_len (shm_mp h) = int b" "8 \<le> b" "b < 2 ^ 31" "pool_inv n (h, ring_idx s @ [int x])"
    using ok by (elim chan_okE)
  have x: "0 \<le> int x" "int x < int n" using used_bound(1) [OF ok, of "int x"] by auto
  have bl: "0 < block_len (shm_mp h)" "block_len (shm_mp h) < 2 ^ 31" using c(5-7) by auto
  note ad = pool_addr [OF c(8) x c(4) bl]
  then obtain node where node: "node_at h (int x) = Ret node" by blast
  have bk: "blk h (int x) = blk_addr b x" using blk_of_nat [of h b "int x"] c(5) by simp
  have "length (shmring_contents s) = unat (capacity s) - 1"
    using full chan_view_length(1) [OF v] v c(1) ring_count_bound(1) [OF c(3)]
    by (auto simp: chan_view_def ctx_msgs_def pending_def ring_idx_def chan_sig_def)
  from push_retry_full [OF c(3) _ this, of "int_bytes (node_idx node)" "[]"]
  show ?thesis using c(1,2) ad(2) node bk by (simp add: ntp_shm_send_def get_mp_def get_ring_def del: push_retry.simps)
qed

end
