(* ===== verification/Ntb_Wire.thy ===== *)
theory Ntb_Wire
  imports Ntb_Mw
begin

text \<open>
  The protocol of one data ring between the two proxies. The ring of the sender's \<^verbatim>\<open>remote_ring\<close> and of the
  receiver's \<^verbatim>\<open>local_ring\<close> is the same memory, and so are the cell behind the sender's \<^verbatim>\<open>local_cum_ptr\<close> and the
  one behind the receiver's \<^verbatim>\<open>remote_cum_ptr\<close>. The receiving side is the access to the ring in the loop of
  \<^verbatim>\<open>ntp_recv_data_to_buf\<close>, for packets of one slot.
\<close>

section \<open>The receiver's access to the ring\<close>

text \<open>The packet at the read index.\<close>

definition recv_peek :: "ntp_config \<Rightarrow> ntb_ring_buffer \<Rightarrow> (nat \<times> ntpacket_header) outcome" where
  "recv_peek cfg r =
     bind_out (slot_addr (ntb_packetbits_size cfg) (rb_cur_index r)) (\<lambda>p.
     if p + NTPACKET_HEADER_LEN \<le> length (rb_area r) then Ret (p, hdr_at (rb_area r) p) else Undef)"

text \<open>\<^verbatim>\<open>msg->header.msg_len = 0\<close>, for a single packet also \<^verbatim>\<open>msg->header.msg_type = 0\<close>, and the next slot.\<close>

definition recv_done :: "bool \<Rightarrow> nat \<Rightarrow> ntb_ring_buffer \<Rightarrow> ntb_ring_buffer outcome" where
  "recv_done clear_type p r =
     bind_out (write_all (rb_area r) ((p + 4, put16 0) # (if clear_type then [(p + 6, put16 0)] else []))) (\<lambda>area.
       Ret (r\<lparr>rb_area := area, rb_cur_index := ring_next (rb_cur_index r) (rb_capacity r)\<rparr>))"

text \<open>One packet: look, request for the read index, copy, clear. Nothing when the slot is empty.\<close>

definition recv_slot ::
  "ntp_config \<Rightarrow> ntb_data_link \<Rightarrow> ((ntpacket_header \<times> int \<times> byte list) option \<times> ntb_data_link) outcome"
where
  "recv_slot cfg dl =
     bind_out (recv_peek cfg (local_ring dl)) (\<lambda>(p, h).
     if h_msg_len h = 0 then Ret (None, dl)
     else
       let (t, dl1) = parser_data_len_get_type dl (h_msg_type h) in
       bind_out (mem_read (rb_area (local_ring dl)) (p + 8) (unat (h_msg_len h - of_nat NTPACKET_HEADER_LEN))) (\<lambda>bs.
       bind_out (recv_done (t = SINGLE_PKG) p (local_ring dl1)) (\<lambda>r.
         Ret (Some (h, t, bs), dl1\<lparr>local_ring := r\<rparr>))))"

section \<open>Types of packets\<close>

lemma type_bits_cases:
  assumes "type_bits t = Some b"
  shows "(t = SINGLE_PKG \<and> b = 0x1000) \<or> (t = MULTI_PKG \<and> b = 0x2000) \<or> (t = ENF_MULTI \<and> b = 0x3000) \<or>
     (t = DETECT_PKG \<and> b = 0) \<or> (t = FIN_PKG \<and> b = 0x4000)"
  using assms by (auto simp: type_bits_def split: if_splits)

definition type_code :: "u16 \<Rightarrow> int" where
  "type_code w = uint (drop_bit 12 w AND 7)"

lemma type_code_bits:
  assumes "type_bits t = Some b"
  shows "type_code b = t" "type_code (b OR PSH) = t" "\<not> bit b 15" "bit (b OR PSH) 15"
  using type_bits_cases [OF assms] by (auto simp: type_code_def)

lemma parser_type: "fst (parser_data_len_get_type dl w) = type_code w"
  by (simp add: parser_data_len_get_type_def type_code_def)

section \<open>Slots of the ring\<close>

definition slot_len :: "byte list \<Rightarrow> nat \<Rightarrow> nat \<Rightarrow> u16" where
  "slot_len m sz i = get16 m (i * sz + 4)"

type_synonym packet_view = "u16 \<times> u16 \<times> int \<times> byte list"

definition slot_pkt :: "byte list \<Rightarrow> nat \<Rightarrow> nat \<Rightarrow> packet_view" where
  "slot_pkt m sz i =
     (get16 m (i * sz), get16 m (i * sz + 2), type_code (get16 m (i * sz + 6)),
      seg m (i * sz + 8) (min (unat (slot_len m sz i) - 8) (sz - 8)))"

text \<open>A write into one slot leaves the others alone.\<close>

lemma slot_frame:
  assumes "j \<noteq> i" "i * sz + sz \<le> length m" "a + length bs \<le> sz" "8 \<le> sz"
  shows "slot_len (patch m (i * sz + a) bs) sz j = slot_len m sz j"
    and "slot_pkt (patch m (i * sz + a) bs) sz j = slot_pkt m sz j"
proof -
  have f: "seg (patch m (i * sz + a) bs) (j * sz + b) n = seg m (j * sz + b) n" if "b + n \<le> sz" for b n
    using seg_patch_slot [OF assms(1-3) that] .
  have g: "get16 (patch m (i * sz + a) bs) (j * sz + b) = get16 m (j * sz + b)" if "b + 2 \<le> sz" for b
    unfolding get16_def f [OF that] ..
  show l: "slot_len (patch m (i * sz + a) bs) sz j = slot_len m sz j"
    unfolding slot_len_def by (rule g) (use assms(4) in simp)
  have "8 + min k (sz - 8) \<le> sz" for k using assms(4) by simp
  then show "slot_pkt (patch m (i * sz + a) bs) sz j = slot_pkt m sz j"
    unfolding slot_pkt_def l using f g [of 0] g [of 2] g [of 6] assms(4) by simp
qed

lemma slot_frame0:
  assumes "j \<noteq> i" "i * sz + sz \<le> length m" "length bs \<le> sz" "8 \<le> sz"
  shows "slot_len (patch m (i * sz) bs) sz j = slot_len m sz j"
    and "slot_pkt (patch m (i * sz) bs) sz j = slot_pkt m sz j"
  using slot_frame [OF assms(1,2), of 0 bs] assms(3,4) by simp_all

lemma length_hdr_bytes [simp]: "length (hdr_bytes h) = 8"
  by (simp add: hdr_bytes_def)

lemma hdr_fields:
  assumes "seg m p 8 = hdr_bytes h"
  shows "get16 m p = h_src_port h" "get16 m (p + 2) = h_dst_port h" "get16 m (p + 4) = h_msg_len h"
    "get16 m (p + 6) = h_msg_type h"
proof -
  have s: "seg m (p + a) 2 = seg (hdr_bytes h) a 2" if "a + 2 \<le> 8" for a
    unfolding assms [symmetric] seg_seg [OF that] ..
  show "get16 m p = h_src_port h"
    using s [of 0] by (intro get16_put16) (simp add: hdr_bytes_def seg_def)
  show "get16 m (p + 2) = h_dst_port h"
    using s [of 2] by (intro get16_put16) (simp add: hdr_bytes_def seg_def)
  show "get16 m (p + 4) = h_msg_len h"
    using s [of 4] by (intro get16_put16) (simp add: hdr_bytes_def seg_def)
  show "get16 m (p + 6) = h_msg_type h"
    using s [of 6] by (intro get16_put16) (simp add: hdr_bytes_def seg_def)
qed

lemma hdr_at_bytes: "seg m p 8 = hdr_bytes h \<Longrightarrow> hdr_at m p = h"
  unfolding hdr_at_def by (simp only: hdr_fields) simp

section \<open>Positions in the ring\<close>

lemma pos_push:
  assumes "r < c" "w < c" "i < c" "Suc w mod c \<noteq> r"
  shows "ring_count c r i < ring_count c r (Suc w mod c) \<longleftrightarrow> ring_count c r i < ring_count c r w \<or> i = w"
  using assms by (auto simp: ring_count_alt Suc_mod_alt split: if_splits)

lemma pos_pop:
  assumes "r < c" "w < c" "i < c" "w \<noteq> r"
  shows "ring_count c (Suc r mod c) i < ring_count c (Suc r mod c) w \<longleftrightarrow>
     ring_count c r i < ring_count c r w \<and> i \<noteq> r"
  using assms by (auto simp: ring_count_alt Suc_mod_alt split: if_splits)

lemma shadow_room:
  assumes "r < c" "w < c" "s < c" "ring_count c r w \<le> ring_count c s w" "Suc w mod c \<noteq> s"
  shows "Suc w mod c \<noteq> r"
proof
  assume "Suc w mod c = r"
  then have "ring_count c r w = c - 1" using ring_count_full [OF assms(1,2)] by simp
  then have "ring_count c s w = c - 1"
    using assms(4) ring_count_less [OF assms(3,2)] by simp
  then show False using assms(5) ring_count_full [OF assms(3,2)] by simp
qed

lemma ring_next_nat:
  fixes i c :: u64
  assumes "unat i < unat c"
  shows "unat (ring_next i c) = Suc (unat i) mod unat c"
  using assms unat_plus_one_small [OF assms]
  by (simp add: ring_next_def word_less_nat_alt Suc_mod_alt)

section \<open>One packet\<close>

definition wire_cfg :: "ntp_config \<Rightarrow> bool" where
  "wire_cfg cfg \<longleftrightarrow> 3 \<le> unat (ntb_packetbits_size cfg) \<and> unat (ntb_packetbits_size cfg) < 31 \<and>
     unat (data_packet_size cfg) = 2 ^ unat (ntb_packetbits_size cfg)"

abbreviation pkt_size :: "ntp_config \<Rightarrow> nat" where
  "pkt_size cfg \<equiv> unat (data_packet_size cfg)"

definition ring_ok :: "ntp_config \<Rightarrow> ntb_ring_buffer \<Rightarrow> bool" where
  "ring_ok cfg r \<longleftrightarrow> unat (rb_cur_index r) < unat (rb_capacity r) \<and>
     unat (rb_capacity r) * pkt_size cfg \<le> length (rb_area r) \<and> length (rb_area r) < 2 ^ 64"

lemma wire_cfg_size: "wire_cfg cfg \<Longrightarrow> 8 \<le> pkt_size cfg"
proof -
  assume "wire_cfg cfg"
  then have "3 \<le> unat (ntb_packetbits_size cfg)" and sz: "pkt_size cfg = 2 ^ unat (ntb_packetbits_size cfg)"
    by (simp_all add: wire_cfg_def)
  from power_increasing [OF this(1), of "2::nat"] show ?thesis unfolding sz by simp
qed

lemma slot_addr_ok:
  assumes "wire_cfg cfg" "ring_ok cfg r"
  shows "slot_addr (ntb_packetbits_size cfg) (rb_cur_index r) = Ret (unat (rb_cur_index r) * pkt_size cfg)"
    and "unat (rb_cur_index r) * pkt_size cfg + pkt_size cfg \<le> length (rb_area r)"
proof -
  show i: "unat (rb_cur_index r) * pkt_size cfg + pkt_size cfg \<le> length (rb_area r)"
    using assms(2) by (auto simp: ring_ok_def intro: slot_inside)
  have "unat (rb_cur_index r) * pkt_size cfg < 2 ^ 64" using i assms(2) by (simp add: ring_ok_def)
  then have "unat (push_bit (unat (ntb_packetbits_size cfg)) (rb_cur_index r)) = unat (rb_cur_index r) * pkt_size cfg"
    unfolding unsigned_push_bit_eq using assms(1) by (simp add: push_bit_eq_mult take_bit_eq_mod wire_cfg_def)
  then show "slot_addr (ntb_packetbits_size cfg) (rb_cur_index r) = Ret (unat (rb_cur_index r) * pkt_size cfg)"
    using assms(1) by (simp add: slot_addr_def wire_cfg_def)
qed

lemma wait_room_now: "next_idx \<noteq> cum \<Longrightarrow> wait_room env next_idx cum = Ret (cum, env)"
  by (cases env) auto

text \<open>The slot after the two writes of a packet of one slot.\<close>

lemma slot_written:
  assumes p: "i * sz + sz \<le> length m" and n: "8 + length bs \<le> sz" and l: "unat (h_msg_len h) = 8 + length bs"
  defines "m' \<equiv> patch (patch m (i * sz) (hdr_bytes h)) (i * sz + 8) bs"
  shows "length m' = length m" "slot_len m' sz i = h_msg_len h"
    "slot_pkt m' sz i = (h_src_port h, h_dst_port h, type_code (h_msg_type h), bs)"
    and "j \<noteq> i \<Longrightarrow> slot_len m' sz j = slot_len m sz j" "j \<noteq> i \<Longrightarrow> slot_pkt m' sz j = slot_pkt m sz j"
proof -
  let ?m = "patch m (i * sz) (hdr_bytes h)"
  have lm: "length ?m = length m" using p n by simp
  show "length m' = length m" unfolding m'_def using p n lm by simp
  have "seg m' (i * sz) 8 = seg ?m (i * sz) 8" unfolding m'_def using p n lm by (intro seg_patch_before) simp_all
  also have "\<dots> = hdr_bytes h" using p n by (intro seg_patch_same) simp_all
  finally have hd: "seg m' (i * sz) 8 = hdr_bytes h" .
  show sl: "slot_len m' sz i = h_msg_len h" unfolding slot_len_def using hdr_fields(3) [OF hd] .
  have pl: "seg m' (i * sz + 8) (length bs) = bs"
    unfolding m'_def using p n lm by (intro seg_patch_same) simp_all
  have mn: "min (unat (h_msg_len h) - 8) (sz - 8) = length bs" using l n by simp
  show "slot_pkt m' sz i = (h_src_port h, h_dst_port h, type_code (h_msg_type h), bs)"
    unfolding slot_pkt_def sl mn pl hdr_fields [OF hd] ..
  show "j \<noteq> i \<Longrightarrow> slot_len m' sz j = slot_len m sz j"
    unfolding m'_def using p n lm slot_frame(1) [of j i sz ?m 8 bs] slot_frame0(1) [of j i sz m "hdr_bytes h"] by simp
  show "j \<noteq> i \<Longrightarrow> slot_pkt m' sz j = slot_pkt m sz j"
    unfolding m'_def using p n lm slot_frame(2) [of j i sz ?m 8 bs] slot_frame0(2) [of j i sz m "hdr_bytes h"] by simp
qed

lemma pack_header:
  assumes "type_bits t = Some b"
  shows "pack_ntpacket_header h0 sp dp (int n) t =
    (0, \<lparr>h_src_port = sp, h_dst_port = dp, h_msg_len = word_of_int (8 + int n), h_msg_type = b\<rparr>)"
  using assms by (simp add: pack_ntpacket_header_def Let_def)

lemma ntpacket_enqueue_ok:
  assumes cfg: "wire_cfg cfg" and r: "ring_ok cfg (remote_ring dl)" and t: "type_bits t = Some b"
    and room: "ring_next (rb_cur_index (remote_ring dl)) (rb_capacity (remote_ring dl)) \<noteq> local_cum dl"
    and h: "h_msg_type (header msg) = b" "unat (h_msg_len (header msg)) = 8 + n"
    and n: "n \<le> length (payload msg)" "8 + n \<le> pkt_size cfg"
  defines "i \<equiv> unat (rb_cur_index (remote_ring dl))" and "sz \<equiv> pkt_size cfg" and "m \<equiv> rb_area (remote_ring dl)"
  shows "\<exists>msg' m'. ntpacket_enqueue cfg env dl msg = Ret (0, msg', dl\<lparr>remote_ring := (remote_ring dl)\<lparr>rb_area := m',
       rb_cur_index := ring_next (rb_cur_index (remote_ring dl)) (rb_capacity (remote_ring dl))\<rparr>\<rparr>, env) \<and>
     length m' = length m \<and> slot_len m' sz i = h_msg_len (header msg) \<and>
     slot_pkt m' sz i = (h_src_port (header msg), h_dst_port (header msg), t, take n (payload msg)) \<and>
     (\<forall>j. j \<noteq> i \<longrightarrow> slot_len m' sz j = slot_len m sz j \<and> slot_pkt m' sz j = slot_pkt m sz j)"
proof -
  let ?nx = "ring_next (rb_cur_index (remote_ring dl)) (rb_capacity (remote_ring dl))"
  define h' where "h' = (if (?nx - local_cum dl) AND 0x3ff = 0
     then (header msg)\<lparr>h_msg_type := h_msg_type (header msg) OR PSH\<rparr> else header msg)"
  let ?bs = "take n (payload msg)"
  define m' where "m' = patch (patch m (i * sz) (hdr_bytes h')) (i * sz + 8) ?bs"
  have h'f: "h_src_port h' = h_src_port (header msg)" "h_dst_port h' = h_dst_port (header msg)"
    "h_msg_len h' = h_msg_len (header msg)" "type_code (h_msg_type h') = t"
    using type_code_bits(1,2) [OF t] h(1) by (auto simp: h'_def)
  have len: "h_msg_len (header msg) \<le> data_packet_size cfg" using h(2) n(2) by (simp add: word_le_nat_alt)
  have p: "slot_addr (ntb_packetbits_size cfg) (rb_cur_index (remote_ring dl)) = Ret (i * sz)" "i * sz + sz \<le> length m"
    using slot_addr_ok [OF cfg r] by (simp_all add: i_def sz_def m_def)
  have u: "uint (h_msg_len (header msg)) - 8 = int n" using h(2) by (simp add: uint_nat)
  have "ntpacket_writes cfg ?nx (rb_cur_index (remote_ring dl)) (local_cum dl) (i * sz) msg =
     Ret (h', [(i * sz, hdr_bytes h'), (i * sz + 8, ?bs)])"
    using len u n(1) by (simp add: ntpacket_writes_def Let_def h'_def seg_def)
  moreover have "write_all m [(i * sz, hdr_bytes h'), (i * sz + 8, ?bs)] = Ret m'"
    using p(2) n by (simp add: m'_def sz_def)
  ultimately have "ntpacket_enqueue cfg env dl msg = Ret (0, msg\<lparr>header := h'\<rparr>,
     dl\<lparr>remote_ring := (remote_ring dl)\<lparr>rb_area := m', rb_cur_index := ?nx\<rparr>\<rparr>, env)"
    using p(1) by (simp add: ntpacket_enqueue_def Let_def wait_room_now [OF room] m_def del: write_all.simps)
  moreover note sw = slot_written [OF p(2), of ?bs h', folded m'_def]
  moreover have "8 + length ?bs \<le> sz" "unat (h_msg_len h') = 8 + length ?bs"
    using n h(2) h'f(3) by (simp_all add: sz_def)
  ultimately show ?thesis using h'f by (intro exI [of _ "msg\<lparr>header := h'\<rparr>"] exI [of _ m']) simp
qed

lemma recv_peek_ok:
  assumes "wire_cfg cfg" "ring_ok cfg r"
  shows "recv_peek cfg r =
     Ret (unat (rb_cur_index r) * pkt_size cfg, hdr_at (rb_area r) (unat (rb_cur_index r) * pkt_size cfg))"
  using slot_addr_ok [OF assms] wire_cfg_size [OF assms(1)] by (simp add: recv_peek_def)

lemma recv_slot_none:
  assumes "wire_cfg cfg" "ring_ok cfg (local_ring dl)"
    and "slot_len (rb_area (local_ring dl)) (pkt_size cfg) (unat (rb_cur_index (local_ring dl))) = 0"
  shows "recv_slot cfg dl = Ret (None, dl)"
  using assms(3) by (simp add: recv_slot_def recv_peek_ok [OF assms(1,2)] slot_len_def hdr_at_def)

text \<open>The slot after the length, and perhaps the type, have been cleared.\<close>

lemma slot_cleared:
  assumes p: "i * sz + sz \<le> length m" "8 \<le> sz"
  shows "\<exists>m'. write_all m ((i * sz + 4, put16 0) # (if c then [(i * sz + 6, put16 0)] else [])) = Ret m' \<and>
     length m' = length m \<and> slot_len m' sz i = 0 \<and>
     (\<forall>j. j \<noteq> i \<longrightarrow> slot_len m' sz j = slot_len m sz j \<and> slot_pkt m' sz j = slot_pkt m sz j)"
proof -
  define m1 where "m1 = patch m (i * sz + 4) (put16 0)"
  define m2 where "m2 = patch m1 (i * sz + 6) (put16 0)"
  have l: "length m1 = length m" using p by (simp add: m1_def)
  have "seg m1 (i * sz + 4) 2 = put16 0" unfolding m1_def using p by (intro seg_patch_same) simp_all
  then have z1: "slot_len m1 sz i = 0" unfolding slot_len_def by (rule get16_put16)
  have "seg m2 (i * sz + 4) 2 = seg m1 (i * sz + 4) 2" unfolding m2_def using p l by (intro seg_patch_before) simp_all
  then have z2: "slot_len m2 sz i = 0" using z1 unfolding slot_len_def by (metis get16_cong)
  have f1: "slot_len m1 sz j = slot_len m sz j" "slot_pkt m1 sz j = slot_pkt m sz j" if "j \<noteq> i" for j
    unfolding m1_def using slot_frame [OF that p(1), of 4 "put16 0"] p(2) by simp_all
  have f2: "slot_len m2 sz j = slot_len m1 sz j" "slot_pkt m2 sz j = slot_pkt m1 sz j" if "j \<noteq> i" for j
    unfolding m2_def using slot_frame [OF that, of sz m1 6 "put16 0"] p l by simp_all
  show ?thesis
  proof (cases c)
    case True
    have "write_all m ((i * sz + 4, put16 0) # (if c then [(i * sz + 6, put16 0)] else [])) = Ret m2"
      using True p l by (simp add: m2_def) (simp add: m1_def)
    with z2 f1 f2 l p show ?thesis by (intro exI [of _ m2]) (simp add: m2_def)
  next
    case False
    have "write_all m ((i * sz + 4, put16 0) # (if c then [(i * sz + 6, put16 0)] else [])) = Ret m1"
      using False p by (simp add: m1_def)
    with z1 f1 l show ?thesis by (intro exI [of _ m1]) simp
  qed
qed

lemma recv_slot_some:
  assumes cfg: "wire_cfg cfg" and r: "ring_ok cfg (local_ring dl)"
  defines "i \<equiv> unat (rb_cur_index (local_ring dl))" and "sz \<equiv> pkt_size cfg" and "m \<equiv> rb_area (local_ring dl)"
  assumes len: "8 \<le> unat (slot_len m sz i)" "unat (slot_len m sz i) \<le> sz"
  shows "\<exists>h t bs m' cum. recv_slot cfg dl = Ret (Some (h, t, bs),
       dl\<lparr>remote_cum := cum, local_ring := (local_ring dl)\<lparr>rb_area := m',
          rb_cur_index := ring_next (rb_cur_index (local_ring dl)) (rb_capacity (local_ring dl))\<rparr>\<rparr>) \<and>
     (cum = remote_cum dl \<or> cum = rb_cur_index (local_ring dl)) \<and>
     (h_src_port h, h_dst_port h, t, bs) = slot_pkt m sz i \<and>
     length m' = length m \<and> slot_len m' sz i = 0 \<and>
     (\<forall>j. j \<noteq> i \<longrightarrow> slot_len m' sz j = slot_len m sz j \<and> slot_pkt m' sz j = slot_pkt m sz j)"
proof -
  define h where "h = hdr_at m (i * sz)"
  have p: "i * sz + sz \<le> length m" using slot_addr_ok(2) [OF cfg r] by (simp add: i_def sz_def m_def)
  have pk: "recv_peek cfg (local_ring dl) = Ret (i * sz, h)"
    using recv_peek_ok [OF cfg r] by (simp add: i_def sz_def m_def h_def)
  have hl: "h_msg_len h = slot_len m sz i" by (simp add: h_def hdr_at_def slot_len_def)
  define t dl1 where "t = type_code (h_msg_type h)"
    and "dl1 = (if bit (h_msg_type h) 15 then snd (trans_data_link_cur_index dl) else dl)"
  have pt: "parser_data_len_get_type dl (h_msg_type h) = (t, dl1)"
    by (simp add: parser_data_len_get_type_def t_def dl1_def type_code_def)
  have n: "unat (h_msg_len h - 8) = unat (slot_len m sz i) - 8"
    using len(1) by (simp add: hl unat_sub word_le_nat_alt)
  define bs where "bs = seg m (i * sz + 8) (unat (slot_len m sz i) - 8)"
  obtain m' where m': "write_all m ((i * sz + 4, put16 0) # (if t = SINGLE_PKG then [(i * sz + 6, put16 0)] else [])) = Ret m'"
    "length m' = length m" "slot_len m' sz i = 0"
    "\<forall>j. j \<noteq> i \<longrightarrow> slot_len m' sz j = slot_len m sz j \<and> slot_pkt m' sz j = slot_pkt m sz j"
    using slot_cleared [OF p] wire_cfg_size [OF cfg] unfolding sz_def by blast
  have lr: "local_ring dl1 = local_ring dl" by (simp add: dl1_def trans_data_link_cur_index_def)
  have rd: "recv_done (t = SINGLE_PKG) (i * sz) (local_ring dl) = Ret ((local_ring dl)\<lparr>rb_area := m',
      rb_cur_index := ring_next (rb_cur_index (local_ring dl)) (rb_capacity (local_ring dl))\<rparr>)"
    unfolding recv_done_def m'(1) [unfolded m_def] by simp
  have nz: "h_msg_len h \<noteq> 0" using len(1) hl by auto
  have mr: "mem_read m (i * sz + 8) (unat (h_msg_len h - 8)) = Ret bs" using len p n by (simp add: bs_def)
  define cum where "cum = remote_cum dl1"
  have "recv_slot cfg dl = Ret (Some (h, t, bs),
       dl\<lparr>remote_cum := cum, local_ring := (local_ring dl)\<lparr>rb_area := m',
          rb_cur_index := ring_next (rb_cur_index (local_ring dl)) (rb_capacity (local_ring dl))\<rparr>\<rparr>)"
    unfolding recv_slot_def pk using nz pt mr rd lr
    by (simp add: m_def cum_def) (auto simp: dl1_def trans_data_link_cur_index_def)
  moreover have "cum = remote_cum dl \<or> cum = rb_cur_index (local_ring dl)"
    by (auto simp: cum_def dl1_def trans_data_link_cur_index_def)
  moreover have "min (unat (slot_len m sz i) - 8) (sz - 8) = unat (slot_len m sz i) - 8" using len(2) by simp
  then have "(h_src_port h, h_dst_port h, t, bs) = slot_pkt m sz i"
    unfolding slot_pkt_def bs_def t_def by (simp add: h_def hdr_at_def)
  ultimately show ?thesis using m' by blast
qed

section \<open>The protocol\<close>

type_synonym wire = "ntb_data_link \<times> ntb_data_link \<times> packet_view list \<times> packet_view list"

text \<open>
  The state: the link of the sender, the link of the receiver, the packets sent and the packets received. A packet
  is sent with the header from \<^verbatim>\<open>pack_ntpacket_header\<close>, by the call that does not have to wait. The
  receiver may write its read index back at any time.
\<close>

inductive wire_step :: "ntp_config \<Rightarrow> wire \<Rightarrow> wire \<Rightarrow> bool" for cfg where
  send: "pack_ntpacket_header h0 sp dp (int n) t = (0, h) \<Longrightarrow> n \<le> length pl \<Longrightarrow> 8 + n \<le> pkt_size cfg \<Longrightarrow>
     ntpacket_enqueue cfg [] s \<lparr>header = h, payload = pl\<rparr> = Ret (0, msg', s', []) \<Longrightarrow>
     wire_step cfg (s, r, sent, got)
       (s', r\<lparr>local_ring := (local_ring r)\<lparr>rb_area := rb_area (remote_ring s')\<rparr>\<rparr>, sent @ [(sp, dp, t, take n pl)], got)"
| recv: "recv_slot cfg r = Ret (Some (h, t, bs), r') \<Longrightarrow>
     wire_step cfg (s, r, sent, got)
       (s\<lparr>local_cum := remote_cum r', remote_ring := (remote_ring s)\<lparr>rb_area := rb_area (local_ring r')\<rparr>\<rparr>, r',
        sent, got @ [(h_src_port h, h_dst_port h, t, bs)])"
| sync: "trans_data_link_cur_index r = (0, r') \<Longrightarrow>
     wire_step cfg (s, r, sent, got) (s\<lparr>local_cum := remote_cum r'\<rparr>, r', sent, got)"

definition slots_ok :: "ntp_config \<Rightarrow> byte list \<Rightarrow> nat \<Rightarrow> nat \<Rightarrow> nat \<Rightarrow> bool" where
  "slots_ok cfg m c rd wr \<longleftrightarrow>
     (\<forall>i < c. if ring_count c rd i < ring_count c rd wr
              then 8 \<le> unat (slot_len m (pkt_size cfg) i) \<and> unat (slot_len m (pkt_size cfg) i) \<le> pkt_size cfg
              else slot_len m (pkt_size cfg) i = 0)"

fun wire_inv :: "ntp_config \<Rightarrow> wire \<Rightarrow> bool" where
  "wire_inv cfg (s, r, sent, got) \<longleftrightarrow>
     ring_ok cfg (remote_ring s) \<and> ring_ok cfg (local_ring r) \<and>
     rb_area (remote_ring s) = rb_area (local_ring r) \<and> rb_capacity (remote_ring s) = rb_capacity (local_ring r) \<and>
     local_cum s = remote_cum r \<and> unat (local_cum s) < unat (rb_capacity (remote_ring s)) \<and>
     (let c = unat (rb_capacity (remote_ring s)); rd = unat (rb_cur_index (local_ring r));
          wr = unat (rb_cur_index (remote_ring s)) in
      ring_count c rd wr \<le> ring_count c (unat (local_cum s)) wr \<and>
      slots_ok cfg (rb_area (remote_ring s)) c rd wr \<and>
      sent = got @ ring_list c rd wr (slot_pkt (rb_area (remote_ring s)) (pkt_size cfg)))"

lemma packet_len: "8 + n < 2 ^ 16 \<Longrightarrow> unat (word_of_int (8 + int n) :: u16) = 8 + n"
proof -
  assume "8 + n < 2 ^ 16"
  then have "unat (of_nat (8 + n) :: u16) = 8 + n" unfolding unat_of_nat by (intro mod_less) simp
  then show ?thesis by simp
qed

lemma enqueue_needs_room:
  "ntpacket_enqueue cfg [] s msg = Ret x \<Longrightarrow>
     ring_next (rb_cur_index (remote_ring s)) (rb_capacity (remote_ring s)) \<noteq> local_cum s"
  by (auto simp: ntpacket_enqueue_def Let_def)

lemma pack_type: "pack_ntpacket_header h0 sp dp pl t = (0, h) \<Longrightarrow> \<exists>b. type_bits t = Some b"
  by (auto simp: pack_ntpacket_header_def Let_def split: option.splits)

lemma slots_ok_push:
  assumes ok: "slots_ok cfg m c rd wr" and i: "rd < c" "wr < c" "Suc wr mod c \<noteq> rd"
    and w: "8 \<le> unat (slot_len m' (pkt_size cfg) wr)" "unat (slot_len m' (pkt_size cfg) wr) \<le> pkt_size cfg"
    and f: "\<And>j. j \<noteq> wr \<Longrightarrow> slot_len m' (pkt_size cfg) j = slot_len m (pkt_size cfg) j"
  shows "slots_ok cfg m' c rd (Suc wr mod c)"
  unfolding slots_ok_def
proof (intro allI impI)
  fix k assume k: "k < c"
  show "if ring_count c rd k < ring_count c rd (Suc wr mod c)
        then 8 \<le> unat (slot_len m' (pkt_size cfg) k) \<and> unat (slot_len m' (pkt_size cfg) k) \<le> pkt_size cfg
        else slot_len m' (pkt_size cfg) k = 0"
    using pos_push [OF i(1,2) k i(3)] ok k w f [of k] by (cases "k = wr") (auto simp: slots_ok_def split: if_splits)
qed

lemma slots_ok_pop:
  assumes ok: "slots_ok cfg m c rd wr" and i: "rd < c" "wr < c" "wr \<noteq> rd"
    and z: "slot_len m' (pkt_size cfg) rd = 0"
    and f: "\<And>j. j \<noteq> rd \<Longrightarrow> slot_len m' (pkt_size cfg) j = slot_len m (pkt_size cfg) j"
  shows "slots_ok cfg m' c (Suc rd mod c) wr"
  unfolding slots_ok_def
proof (intro allI impI)
  fix k assume k: "k < c"
  show "if ring_count c (Suc rd mod c) k < ring_count c (Suc rd mod c) wr
        then 8 \<le> unat (slot_len m' (pkt_size cfg) k) \<and> unat (slot_len m' (pkt_size cfg) k) \<le> pkt_size cfg
        else slot_len m' (pkt_size cfg) k = 0"
    using pos_pop [OF i(1,2) k i(3)] ok k z f [of k] by (cases "k = rd") (auto simp: slots_ok_def split: if_splits)
qed

lemma wire_inv_send:
  assumes cfg: "wire_cfg cfg" and inv: "wire_inv cfg (s, r, sent, got)"
    and pk: "pack_ntpacket_header h0 sp dp (int n) t = (0, h)" and n: "n \<le> length pl" "8 + n \<le> pkt_size cfg"
    and enq: "ntpacket_enqueue cfg [] s \<lparr>header = h, payload = pl\<rparr> = Ret (0, msg', s', [])"
  shows "wire_inv cfg (s', r\<lparr>local_ring := (local_ring r)\<lparr>rb_area := rb_area (remote_ring s')\<rparr>\<rparr>,
     sent @ [(sp, dp, t, take n pl)], got)"
proof -
  let ?c = "unat (rb_capacity (remote_ring s))" and ?w = "unat (rb_cur_index (remote_ring s))"
    and ?rd = "unat (rb_cur_index (local_ring r))" and ?sh = "unat (local_cum s)" and ?sz = "pkt_size cfg"
  let ?m = "rb_area (remote_ring s)"
  have i: "?w < ?c" "?rd < ?c" "?sh < ?c" "ring_count ?c ?rd ?w \<le> ring_count ?c ?sh ?w" "slots_ok cfg ?m ?c ?rd ?w"
    "sent = got @ ring_list ?c ?rd ?w (slot_pkt ?m ?sz)" "ring_ok cfg (remote_ring s)" "ring_ok cfg (local_ring r)"
    "rb_capacity (remote_ring s) = rb_capacity (local_ring r)" "?m = rb_area (local_ring r)" "local_cum s = remote_cum r"
    using inv by (auto simp: Let_def ring_ok_def)
  obtain b where b: "type_bits t = Some b" using pack_type [OF pk] by blast
  then have h: "h = \<lparr>h_src_port = sp, h_dst_port = dp, h_msg_len = word_of_int (8 + int n), h_msg_type = b\<rparr>"
    using pk pack_header by simp
  have "8 + n < 2 ^ 16" using n(2) unsigned_less [of "data_packet_size cfg", where ?'a = nat] by simp
  then have l: "unat (h_msg_len h) = 8 + n"
    unfolding h ntpacket_header.simps by (rule packet_len)
  note room = enqueue_needs_room [OF enq]
  from ntpacket_enqueue_ok [OF cfg i(7) b room, of "\<lparr>header = h, payload = pl\<rparr>" n "[]"] enq h l n
  obtain m' where m': "s' = s\<lparr>remote_ring := (remote_ring s)\<lparr>rb_area := m',
       rb_cur_index := ring_next (rb_cur_index (remote_ring s)) (rb_capacity (remote_ring s))\<rparr>\<rparr>"
    "length m' = length ?m" "slot_len m' ?sz ?w = h_msg_len h" "slot_pkt m' ?sz ?w = (sp, dp, t, take n pl)"
    "\<forall>j. j \<noteq> ?w \<longrightarrow> slot_len m' ?sz j = slot_len ?m ?sz j \<and> slot_pkt m' ?sz j = slot_pkt ?m ?sz j"
    by auto
  have nx: "unat (ring_next (rb_cur_index (remote_ring s)) (rb_capacity (remote_ring s))) = Suc ?w mod ?c"
    by (rule ring_next_nat) (rule i)
  have ns: "Suc ?w mod ?c \<noteq> ?sh" using room nx by (metis word_eq_iff_unat)
  note nr = shadow_room [OF i(2,1,3,4) ns]
  have "slots_ok cfg m' ?c ?rd (Suc ?w mod ?c)"
    using slots_ok_push [OF i(5) i(2,1) nr, of m'] m'(3,5) l n by simp
  moreover have "ring_list ?c ?rd (Suc ?w mod ?c) (slot_pkt m' ?sz) = ring_list ?c ?rd ?w (slot_pkt ?m ?sz) @ [(sp, dp, t, take n pl)]"
  proof -
    have "slot_pkt m' ?sz = (slot_pkt ?m ?sz)(?w := (sp, dp, t, take n pl))" using m'(4,5) by auto
    then show ?thesis using ring_list_push [OF i(2,1) nr] by simp
  qed
  moreover have "ring_count ?c ?rd (Suc ?w mod ?c) \<le> ring_count ?c ?sh (Suc ?w mod ?c)"
    using ring_count_push [OF i(2,1) nr] ring_count_push [OF i(3,1) ns] i(4) by simp
  ultimately show ?thesis
    using i m'(1,2) nx by (simp add: ring_ok_def Let_def)
qed

lemma wire_recv:
  assumes cfg: "wire_cfg cfg" and inv: "wire_inv cfg (s, r, sent, got)"
  defines "pending \<equiv> ring_list (unat (rb_capacity (remote_ring s))) (unat (rb_cur_index (local_ring r)))
      (unat (rb_cur_index (remote_ring s))) (slot_pkt (rb_area (remote_ring s)) (pkt_size cfg))"
  shows "pending = [] \<Longrightarrow> recv_slot cfg r = Ret (None, r)"
    and "pending = x # xs \<Longrightarrow> \<exists>h t bs r'. recv_slot cfg r = Ret (Some (h, t, bs), r') \<and>
       (h_src_port h, h_dst_port h, t, bs) = x \<and>
       wire_inv cfg (s\<lparr>local_cum := remote_cum r', remote_ring := (remote_ring s)\<lparr>rb_area := rb_area (local_ring r')\<rparr>\<rparr>, r',
         sent, got @ [x])"
proof -
  let ?c = "unat (rb_capacity (remote_ring s))" and ?w = "unat (rb_cur_index (remote_ring s))"
    and ?rd = "unat (rb_cur_index (local_ring r))" and ?sh = "unat (local_cum s)" and ?sz = "pkt_size cfg"
  let ?m = "rb_area (local_ring r)"
  have i: "?w < ?c" "?rd < ?c" "?sh < ?c" "ring_count ?c ?rd ?w \<le> ring_count ?c ?sh ?w" "slots_ok cfg ?m ?c ?rd ?w"
    "sent = got @ ring_list ?c ?rd ?w (slot_pkt ?m ?sz)" "ring_ok cfg (remote_ring s)" "ring_ok cfg (local_ring r)"
    "rb_capacity (remote_ring s) = rb_capacity (local_ring r)" "rb_area (remote_ring s) = ?m" "local_cum s = remote_cum r"
    using inv by (auto simp: Let_def ring_ok_def)
  have z: "ring_count ?c ?rd ?rd = 0" using i(2) by (simp add: ring_count_eq_0)
  have so: "if 0 < ring_count ?c ?rd ?w then 8 \<le> unat (slot_len ?m ?sz ?rd) \<and> unat (slot_len ?m ?sz ?rd) \<le> ?sz
      else slot_len ?m ?sz ?rd = 0" using i(2,5) z unfolding slots_ok_def by metis
  show "recv_slot cfg r = Ret (None, r)" if "pending = []"
  proof -
    have "ring_count ?c ?rd ?w = 0" using that length_ring_list unfolding pending_def by (metis length_0_conv)
    then show ?thesis using so by (intro recv_slot_none [OF cfg i(8)]) simp
  qed
  assume p: "pending = x # xs"
  then have ne: "?w \<noteq> ?rd" using i(1,2) ring_list_empty [OF i(2,1)] unfolding pending_def by (metis list.discI)
  then have "0 < ring_count ?c ?rd ?w" using ring_count_eq_0 [OF i(2,1)] by simp
  with so have len: "8 \<le> unat (slot_len ?m ?sz ?rd)" "unat (slot_len ?m ?sz ?rd) \<le> ?sz" by simp_all
  note pp = ring_list_pop [OF i(2,1) ne, of "slot_pkt ?m ?sz"]
  have x: "slot_pkt ?m ?sz ?rd = x" "ring_list ?c (Suc ?rd mod ?c) ?w (slot_pkt ?m ?sz) = xs"
    using p pp i(10) unfolding pending_def by simp_all
  obtain h t bs m' cum where rs: "recv_slot cfg r = Ret (Some (h, t, bs),
       r\<lparr>remote_cum := cum, local_ring := (local_ring r)\<lparr>rb_area := m',
          rb_cur_index := ring_next (rb_cur_index (local_ring r)) (rb_capacity (local_ring r))\<rparr>\<rparr>)"
     "cum = remote_cum r \<or> cum = rb_cur_index (local_ring r)" "(h_src_port h, h_dst_port h, t, bs) = slot_pkt ?m ?sz ?rd"
     "length m' = length ?m" "slot_len m' ?sz ?rd = 0"
     "\<forall>j. j \<noteq> ?rd \<longrightarrow> slot_len m' ?sz j = slot_len ?m ?sz j \<and> slot_pkt m' ?sz j = slot_pkt ?m ?sz j"
    using recv_slot_some [OF cfg i(8) len] by blast
  have nx: "unat (ring_next (rb_cur_index (local_ring r)) (rb_capacity (local_ring r))) = Suc ?rd mod ?c"
    using ring_next_nat i(2,9) by metis
  have so': "slots_ok cfg m' ?c (Suc ?rd mod ?c) ?w"
    by (rule slots_ok_pop [OF i(5) i(2,1) ne rs(5)]) (use rs(6) in blast)
  have cu: "unat cum < ?c" "ring_count ?c (Suc ?rd mod ?c) ?w \<le> ring_count ?c (unat cum) ?w"
    using rs(2) i(2,3,4,11) ring_count_pop [OF i(2,1) ne] by auto
  have xs': "ring_list ?c (Suc ?rd mod ?c) ?w (slot_pkt m' ?sz) = xs"
  proof -
    have "slot_pkt m' ?sz ((Suc ?rd mod ?c + k) mod ?c) = slot_pkt ?m ?sz ((Suc ?rd mod ?c + k) mod ?c)"
      if "k < ring_count ?c (Suc ?rd mod ?c) ?w" for k
    proof -
      have k: "Suc k < ?c" using that ring_count_pop [OF i(2,1) ne] ring_count_less [OF i(2,1)] by simp
      have "(?rd + Suc k) mod ?c \<noteq> ?rd"
        using add_mod_alt [OF i(2), of "Suc k"] k by (auto split: if_splits)
      then show ?thesis using rs(6) by (simp add: mod_simps)
    qed
    then show ?thesis using x(2) by (auto simp: ring_list_def)
  qed
  have cy: "sent = got @ x # xs" using i(6) pp x by simp
  define r' where "r' = r\<lparr>remote_cum := cum, local_ring := (local_ring r)\<lparr>rb_area := m',
      rb_cur_index := ring_next (rb_cur_index (local_ring r)) (rb_capacity (local_ring r))\<rparr>\<rparr>"
  have "wire_inv cfg (s\<lparr>local_cum := remote_cum r', remote_ring := (remote_ring s)\<lparr>rb_area := rb_area (local_ring r')\<rparr>\<rparr>, r',
         sent, got @ [x])"
    using rs(4) so' cu xs' i(1,2,7,8,9,10) nx by (simp add: r'_def ring_ok_def Let_def cy)
  moreover have "recv_slot cfg r = Ret (Some (h, t, bs), r')" using rs(1) by (simp add: r'_def)
  moreover have "(h_src_port h, h_dst_port h, t, bs) = x" using rs(3) x(1) by simp
  ultimately show "\<exists>h t bs r'. recv_slot cfg r = Ret (Some (h, t, bs), r') \<and> (h_src_port h, h_dst_port h, t, bs) = x \<and>
       wire_inv cfg (s\<lparr>local_cum := remote_cum r', remote_ring := (remote_ring s)\<lparr>rb_area := rb_area (local_ring r')\<rparr>\<rparr>, r',
         sent, got @ [x])" by blast
qed

lemma wire_inv_sync:
  assumes "wire_inv cfg (s, r, sent, got)" "trans_data_link_cur_index r = (0, r')"
  shows "wire_inv cfg (s\<lparr>local_cum := remote_cum r'\<rparr>, r', sent, got)"
  using assms by (auto simp: trans_data_link_cur_index_def Let_def ring_ok_def)

lemma wire_inv_step:
  assumes cfg: "wire_cfg cfg" and st: "wire_step cfg a b" and inv: "wire_inv cfg a"
  shows "wire_inv cfg b"
  using st
proof cases
  case (send h0 sp dp n t h pl s msg' s' r sent got)
  show ?thesis unfolding send(2) by (rule wire_inv_send [OF cfg inv [unfolded send(1)] send(3-6)])
next
  case (recv r h t bs r' s sent got)
  define pending where "pending = ring_list (unat (rb_capacity (remote_ring s))) (unat (rb_cur_index (local_ring r)))
      (unat (rb_cur_index (remote_ring s))) (slot_pkt (rb_area (remote_ring s)) (pkt_size cfg))"
  note w = wire_recv [OF cfg inv [unfolded recv(1)], folded pending_def]
  have "pending \<noteq> []" using w(1) recv(3) by auto
  then obtain x xs where "pending = x # xs" by (cases pending) auto
  from w(2) [OF this] recv(3) show ?thesis unfolding recv(2) by (auto simp del: wire_inv.simps)
next
  case (sync r r' s sent got)
  show ?thesis unfolding sync(2) by (rule wire_inv_sync [OF inv [unfolded sync(1)] sync(3)])
qed

lemma wire_inv_reachable:
  assumes "wire_cfg cfg" "(wire_step cfg)\<^sup>*\<^sup>* a b" "wire_inv cfg a"
  shows "wire_inv cfg b"
  using assms(2,3) by (induction rule: rtranclp_induct) (auto dest: wire_inv_step [OF assms(1)])

text \<open>Both ends as they are after the rings have been laid out and cleared.\<close>

definition fresh_wire :: "ntp_config \<Rightarrow> ntb_data_link \<Rightarrow> ntb_data_link \<Rightarrow> bool" where
  "fresh_wire cfg s r \<longleftrightarrow> ring_ok cfg (remote_ring s) \<and> remote_ring s = local_ring r \<and>
     rb_cur_index (remote_ring s) = 0 \<and> local_cum s = 0 \<and> remote_cum r = 0 \<and>
     set (rb_area (remote_ring s)) \<subseteq> {0}"

lemma get16_zeros: "set m \<subseteq> {0} \<Longrightarrow> get16 m p = 0"
proof -
  assume "set m \<subseteq> {0}"
  then have z: "set (seg m p 2) \<subseteq> {0}" by (auto simp: seg_def dest!: in_set_takeD in_set_dropD)
  have "le_dec bs = 0" if "set bs \<subseteq> {0}" for bs using that by (induction bs) auto
  with z show ?thesis by (simp add: get16_def)
qed

lemma fresh_wire_inv: "wire_cfg cfg \<Longrightarrow> fresh_wire cfg s r \<Longrightarrow> wire_inv cfg (s, r, [], [])"
  by (auto simp: fresh_wire_def ring_ok_def Let_def slots_ok_def slot_len_def get16_zeros ring_count_def)

section \<open>Bytes that a packet does not write\<close>

lemma write_all_frame:
  assumes "write_all m ws = Ret m'" "\<And>a bs. (a, bs) \<in> set ws \<Longrightarrow> q + n \<le> a \<or> a + length bs \<le> q"
  shows "seg m' q n = seg m q n"
  using assms
proof (induction ws arbitrary: m)
  case (Cons w ws)
  obtain a bs where w: "w = (a, bs)" by force
  from Cons.prems(1) obtain m1 where m1: "mem_write m a bs = Ret m1" "write_all m1 ws = Ret m'" by (auto simp: w)
  have "seg m1 q n = seg m q n"
    using m1(1) Cons.prems(2) [of a bs] by (auto simp: w mem_write_def split: if_splits intro: seg_patch_before seg_patch_after)
  with Cons.IH [OF m1(2)] Cons.prems(2) show ?case by auto
qed simp

lemma write_all_last:
  "write_all m (ws @ [(a, bs)]) = Ret m' \<Longrightarrow> seg m' a (length bs) = bs"
  by (induction ws arbitrary: m) (auto simp: mem_write_def seg_patch_same split: if_splits)

section \<open>Properties\<close>

definition demo_cfg :: ntp_config where
  "demo_cfg = \<lparr>bulk_size = 1, num_partition = 2, ntb_packetbits_size = 4, data_ringbuffer_size = 64,
     ctrl_ringbuffer_size = 48, data_packet_size = 16, datapacket_payload_size = 8\<rparr>"

definition demo_link :: ntb_data_link where
  "demo_link = (let r = \<lparr>rb_cur_index = 0, rb_area = replicate 64 0, rb_capacity = 4\<rparr> in
     \<lparr>local_cum = 0, remote_cum = 0, local_ring = r, remote_ring = r\<rparr>)"

definition demo_hdr :: ntpacket_header where
  "demo_hdr = \<lparr>h_src_port = 0, h_dst_port = 0, h_msg_len = 3, h_msg_type = 1\<rparr>"

lemma demo_wire: "wire_cfg demo_cfg" "fresh_wire demo_cfg demo_link demo_link"
  by (simp_all add: wire_cfg_def demo_cfg_def fresh_wire_def ring_ok_def demo_link_def Let_def set_replicate_conv_if)





text \<open>
  C20: a header that \<^verbatim>\<open>pack_ntpacket_header\<close> makes for one of the five types survives its bytes: read
  back from memory it has the ports and the length it was made with, and \<^verbatim>\<open>parser_data_len_get_type\<close> returns the
  type, with and without the bit that requests the read index. Every other type is refused.
\<close>

theorem packet_header_roundtrip:
  "case pack_ntpacket_header h0 sp dp len t of (rc, h) \<Rightarrow>
     if t \<in> {DETECT_PKG, SINGLE_PKG, MULTI_PKG, ENF_MULTI, FIN_PKG}
     then rc = 0 \<and> hdr_at (hdr_bytes h) 0 = h \<and> h_src_port h = sp \<and> h_dst_port h = dp \<and>
          h_msg_len h = word_of_int (8 + len) \<and>
          parser_data_len_get_type dl (h_msg_type h) = (t, dl) \<and>
          parser_data_len_get_type dl (h_msg_type h OR PSH) = (t, snd (trans_data_link_cur_index dl))
     else rc = - 1"
proof -
  have b: "hdr_at (hdr_bytes h) 0 = h" for h
    by (rule hdr_at_bytes) (simp add: seg_all)
  show ?thesis
  proof (cases "type_bits t")
    case None
    then show ?thesis by (auto simp: pack_ntpacket_header_def Let_def type_bits_def split: if_splits)
  next
    case (Some w)
    then have t: "t \<in> {DETECT_PKG, SINGLE_PKG, MULTI_PKG, ENF_MULTI, FIN_PKG}" using type_bits_cases by blast
    show ?thesis
      using Some t type_code_bits [OF Some] b
      by (simp add: pack_ntpacket_header_def Let_def parser_data_len_get_type_def type_code_def)
  qed
qed

text \<open>
  C34: \<^verbatim>\<open>ntpacket_enqueue\<close> writes the header of a packet of one slot before its payload. A receiver that
  looks between the two writes takes the packet with the right header and with the bytes that the slot held before
  in place of the payload.
\<close>

theorem packet_tearing:
  assumes cfg: "wire_cfg cfg" and r: "ring_ok cfg (local_ring dl)"
    and idx: "rb_cur_index (local_ring dl) = cur_idx"
    and ws: "ntpacket_writes cfg next_idx cur_idx cum (unat cur_idx * pkt_size cfg) msg = Ret (h, ws)"
    and len: "8 + n = unat (h_msg_len (header msg))" "8 + n \<le> pkt_size cfg"
    and half: "write_all (rb_area (local_ring dl)) (take 1 ws) = Ret area"
  shows "\<exists>t dl'. recv_slot cfg (dl\<lparr>local_ring := (local_ring dl)\<lparr>rb_area := area\<rparr>\<rparr>) =
     Ret (Some (h, t, seg (rb_area (local_ring dl)) (unat cur_idx * pkt_size cfg + 8) n), dl')"
proof -
  let ?sz = "pkt_size cfg" and ?i = "unat cur_idx" and ?m = "rb_area (local_ring dl)"
  define dl1 where "dl1 = dl\<lparr>local_ring := (local_ring dl)\<lparr>rb_area := area\<rparr>\<rparr>"
  have short: "h_msg_len (header msg) \<le> data_packet_size cfg" using len by (simp add: word_le_nat_alt)
  then have w: "take 1 ws = [(?i * ?sz, hdr_bytes h)]" "h_msg_len h = h_msg_len (header msg)"
    using ws by (auto simp: ntpacket_writes_def Let_def split: if_splits)
  have p: "?i * ?sz + ?sz \<le> length ?m" using slot_addr_ok(2) [OF cfg r] idx by simp
  have sz: "8 \<le> ?sz" by (rule wire_cfg_size [OF cfg])
  have area: "area = patch ?m (?i * ?sz) (hdr_bytes h)" using half p sz unfolding w(1) by simp
  have la: "length area = length ?m" unfolding area using p sz by simp
  have hb: "seg area (?i * ?sz) 8 = hdr_bytes h" unfolding area using p sz by (intro seg_patch_same) simp_all
  have hd: "hdr_at area (?i * ?sz) = h" by (rule hdr_at_bytes [OF hb])
  have sl: "slot_len area ?sz ?i = h_msg_len h" unfolding slot_len_def by (rule hdr_fields(3) [OF hb])
  have ok: "ring_ok cfg (local_ring dl1)" using r la by (simp add: dl1_def ring_ok_def)
  have l8: "8 \<le> unat (slot_len area ?sz ?i)" "unat (slot_len area ?sz ?i) \<le> ?sz" using len w(2) sl by simp_all
  have cur1: "unat (rb_cur_index (local_ring dl1)) = ?i" "rb_area (local_ring dl1) = area" using idx by (simp_all add: dl1_def)
  from recv_slot_some [OF cfg ok] l8 cur1 obtain h1 t bs dl' where
    rs: "recv_slot cfg dl1 = Ret (Some (h1, t, bs), dl')" "(h_src_port h1, h_dst_port h1, t, bs) = slot_pkt area ?sz ?i"
    by metis
  have "h1 = h"
    using rs(1) recv_peek_ok [OF cfg ok] hd cur1
    by (auto simp: recv_slot_def Let_def split: if_splits prod.splits)
  moreover have "min (unat (h_msg_len h) - 8) (?sz - 8) = n" using len w(2) by simp
  then have "bs = seg area (?i * ?sz + 8) n" using rs(2) by (simp add: slot_pkt_def sl)
  moreover have "seg area (?i * ?sz + 8) n = seg ?m (?i * ?sz + 8) n"
    unfolding area using p sz by (intro seg_patch_after) simp_all
  ultimately show ?thesis using rs(1) unfolding dl1_def by auto
qed

theorem packet_tearing_witness:
  "\<exists>h ws area t dl'. ntpacket_writes demo_cfg 1 0 0 (unat (0 :: u64) * pkt_size demo_cfg) \<lparr>header = demo_hdr\<lparr>h_msg_len := 11\<rparr>, payload = [1, 2, 3]\<rparr> = Ret (h, ws) \<and>
     write_all (rb_area (local_ring demo_link)) (take 1 ws) = Ret area \<and>
     recv_slot demo_cfg (demo_link\<lparr>local_ring := (local_ring demo_link)\<lparr>rb_area := area\<rparr>\<rparr>) =
       Ret (Some (h, t, seg (rb_area (local_ring demo_link)) (unat (0 :: u64) * pkt_size demo_cfg + 8) 3), dl')"
proof -
  let ?m = "\<lparr>header = demo_hdr\<lparr>h_msg_len := 11\<rparr>, payload = [1, 2, 3 :: byte]\<rparr>"
  have ok: "ring_ok demo_cfg (local_ring demo_link)" "rb_cur_index (local_ring demo_link) = 0"
    using demo_wire(2) unfolding fresh_wire_def by metis+
  obtain h ws where w: "ntpacket_writes demo_cfg 1 0 0 (unat (0 :: u64) * pkt_size demo_cfg) ?m = Ret (h, ws)"
    "take 1 ws = [(0, hdr_bytes h)]"
    by (auto simp: ntpacket_writes_def demo_cfg_def demo_hdr_def Let_def)
  have "64 = length (rb_area (local_ring demo_link))" by (simp add: demo_link_def Let_def)
  then obtain area where "write_all (rb_area (local_ring demo_link)) (take 1 ws) = Ret area" unfolding w(2) by simp
  with packet_tearing [OF demo_wire(1) ok w(1) _ _ this, of 3] w(1) show ?thesis
    by (auto simp: demo_hdr_def demo_cfg_def)
qed

text \<open>
  C35: \<^verbatim>\<open>ntb_data_msg_enqueue2\<close> never writes the type of the packet into the ring. The receiver reads the type that
  was left in the slot by an earlier packet; in a slot not used before, the first packet of a long
  message is taken for a detection packet.
\<close>

theorem long_message_type_lost:
  assumes "wire_cfg cfg" "ring_ok cfg (remote_ring dl)"
    and "ntb_data_msg_enqueue2 cfg env dl msg src_port dst_port payload_len MULTI_PKG = Ret (0, msg', dl', env')"
  shows "(let p = unat (rb_cur_index (remote_ring dl)) * pkt_size cfg in
     h_msg_type (hdr_at (rb_area (remote_ring dl')) p) = h_msg_type (hdr_at (rb_area (remote_ring dl)) p) \<and>
     h_msg_len (hdr_at (rb_area (remote_ring dl')) p) = payload_len + 8 \<and>
     (set (rb_area (remote_ring dl)) \<subseteq> {0} \<longrightarrow>
        fst (parser_data_len_get_type dl0 (h_msg_type (hdr_at (rb_area (remote_ring dl')) p))) = DETECT_PKG))"
proof -
  let ?m = "rb_area (remote_ring dl)" and ?p = "unat (rb_cur_index (remote_ring dl)) * pkt_size cfg"
  let ?len = "word_of_int (8 + uint payload_len) :: u16"
  from assms(3) slot_addr_ok(1) [OF assms(1,2)] obtain bs where
    w: "write_all ?m [(?p, put16 src_port), (?p + 2, put16 dst_port), (?p + 8, bs), (?p + 4, put16 ?len)] =
      Ret (rb_area (remote_ring dl'))"
    by (auto simp: ntb_data_msg_enqueue2_def type_bits_def Let_def split: if_splits simp del: write_all.simps)
  have "seg (rb_area (remote_ring dl')) (?p + 6) 2 = seg ?m (?p + 6) 2" by (rule write_all_frame [OF w]) auto
  then have t: "h_msg_type (hdr_at (rb_area (remote_ring dl')) ?p) = h_msg_type (hdr_at ?m ?p)"
    by (simp add: hdr_at_def get16_def)
  have "seg (rb_area (remote_ring dl')) (?p + 4) 2 = put16 ?len" using write_all_last [of ?m "[(?p, put16 src_port), (?p + 2, put16 dst_port), (?p + 8, bs)]" "?p + 4" "put16 ?len"] w by simp
  then have "get16 (rb_area (remote_ring dl')) (?p + 4) = ?len" by (rule get16_put16)
  then have l: "h_msg_len (hdr_at (rb_area (remote_ring dl')) ?p) = payload_len + 8"
    by (simp add: hdr_at_def)
  have "h_msg_type (hdr_at ?m ?p) = 0" if "set ?m \<subseteq> {0}"
    using get16_zeros [OF that] by (simp add: hdr_at_def)
  with t l show ?thesis by (simp add: Let_def parser_data_len_get_type_def)
qed

theorem long_message_type_lost_witness:
  "\<exists>msg' dl' env'. ntb_data_msg_enqueue2 demo_cfg [] demo_link \<lparr>header = demo_hdr, payload = replicate 20 7\<rparr> 80 8080 20 MULTI_PKG =
       Ret (0, msg', dl', env') \<and>
     (let p = unat (rb_cur_index (remote_ring demo_link)) * pkt_size demo_cfg in
     h_msg_type (hdr_at (rb_area (remote_ring dl')) p) = h_msg_type (hdr_at (rb_area (remote_ring demo_link)) p) \<and>
     h_msg_len (hdr_at (rb_area (remote_ring dl')) p) = 20 + 8 \<and>
     (set (rb_area (remote_ring demo_link)) \<subseteq> {0} \<longrightarrow>
        fst (parser_data_len_get_type demo_link (h_msg_type (hdr_at (rb_area (remote_ring dl')) p))) = DETECT_PKG))"
proof -
  have ok: "ring_ok demo_cfg (remote_ring demo_link)" using demo_wire(2) unfolding fresh_wire_def by blast
  have "\<exists>msg' dl' env'. ntb_data_msg_enqueue2 demo_cfg [] demo_link \<lparr>header = demo_hdr, payload = replicate 20 7\<rparr> 80 8080 20 MULTI_PKG =
       Ret (0, msg', dl', env')"
    by (simp add: ntb_data_msg_enqueue2_def type_bits_def demo_link_def demo_cfg_def Let_def ring_next_def slot_addr_def)
  with long_message_type_lost [OF demo_wire(1) ok] show ?thesis by blast
qed

text \<open>Where the region of a link starts in the windows: the control link, then the data links.\<close>

fun link_base :: "ntp_config \<Rightarrow> nat \<Rightarrow> nat" where
  "link_base cfg 0 = 0"
| "link_base cfg (Suc i) = unat (ctrl_ringbuffer_size cfg) + 8 + i * (unat (data_ringbuffer_size cfg) + 8)"

text \<open>A link whose shadow cell is at \<open>a\<close>, zero, and whose rings fill the region from there to \<open>b\<close>.\<close>

definition link_at :: "byte list \<Rightarrow> nat \<Rightarrow> nat \<Rightarrow> nat \<Rightarrow> link_layout \<Rightarrow> bool" where
  "link_at win sz a b l \<longleftrightarrow> ll_local_cum l = a \<and> ll_remote_cum l = a \<and> get64 win a = 0 \<and>
     (\<forall>y \<in> set_option (ll_local l) \<union> set_option (ll_remote l).
        ly_start y = a + 8 \<and> ly_end y = b \<and> ly_start y + unat (ly_capacity y) * sz \<le> ly_end y)"

lemma format_link_at:
  assumes "format_link ok1 ok2 win p ring_size len = Ret (win', l)"
  shows "length win' = length win" "link_at win' (unat len) p (p + 8 + unat ring_size) l" "p + 8 \<le> length win"
    "\<And>q n. q + n \<le> p \<or> p + 8 \<le> q \<Longrightarrow> seg win' q n = seg win q n"
proof -
  from assms have w: "win' = patch win p (put64 0)" "p + 8 \<le> length win" by (auto simp: format_link_def mem_write_def split: if_splits)
  then show "length win' = length win" "p + 8 \<le> length win" by simp_all
  show "seg win' q n = seg win q n" if "q + n \<le> p \<or> p + 8 \<le> q" for q n
    using w that by (auto intro: seg_patch_before seg_patch_after)
  have "get64 win' p = 0" unfolding w(1) by (rule get64_put64, rule seg_patch_same) (use w(2) in simp_all)
  moreover have "unat (ring_size div len) * unat len \<le> unat ring_size"
    by (simp add: unat_div)
  ultimately show "link_at win' (unat len) p (p + 8 + unat ring_size) l"
    using assms by (auto simp: format_link_def link_at_def ntb_ring_create_def split: if_splits)
qed

lemma link_at_cong: "seg win' a 8 = seg win a 8 \<Longrightarrow> link_at win' sz a b l = link_at win sz a b l"
  by (simp add: link_at_def get64_def)

lemma format_partitions_at:
  fixes p :: nat
  assumes "format_partitions ok cfg win p i n = Ret (win', ls)"
  defines "d \<equiv> unat (data_ringbuffer_size cfg) + 8"
  shows "length ls = n \<and> (\<forall>q k. q + k \<le> p \<longrightarrow> seg win' q k = seg win q k) \<and>
    (\<forall>k < n. link_at win' (2 ^ unat (ntb_packetbits_size cfg)) (p + k * d) (p + Suc k * d) (ls ! k))"
  using assms(1)
proof (induction n arbitrary: win p i ls)
  case (Suc n)
  let ?len = "push_bit (unat (ntb_packetbits_size cfg)) (1 :: u64)"
  from Suc.prems obtain win1 l ls1 where
    s: "unat (ntb_packetbits_size cfg) < 31"
      "format_link (ok (2 * i)) (ok (2 * i + 1)) win p (data_ringbuffer_size cfg) ?len = Ret (win1, l)"
      "format_partitions ok cfg win1 (p + d) (Suc i) n = Ret (win', ls1)" "ls = l # ls1"
    by (auto simp: d_def add.assoc split: if_splits)
  note f = format_link_at [OF s(2)] and ih = Suc.IH [OF s(3)]
  have len: "unat ?len = 2 ^ unat (ntb_packetbits_size cfg)"
    unfolding unsigned_push_bit_eq using s(1) by (simp add: push_bit_eq_mult take_bit_eq_mod power_strict_increasing_iff [of "2::nat" _ 64, simplified])
  have fr: "seg win' q k = seg win1 q k" if "q + k \<le> p + d" for q k using ih that by blast
  have fr0: "seg win' q k = seg win q k" if "q + k \<le> p" for q k using fr [of q k] f(4) [of q k] that by simp
  have "link_at win' (2 ^ unat (ntb_packetbits_size cfg)) p (p + d) l"
  proof -
    have "seg win' p 8 = seg win1 p 8" by (rule fr) (simp add: d_def)
    moreover have "p + 8 + unat (data_ringbuffer_size cfg) = p + d" by (simp add: d_def)
    ultimately show ?thesis using f(2) unfolding len by (simp only: link_at_cong [of win' p win1])
  qed
  moreover have "link_at win' (2 ^ unat (ntb_packetbits_size cfg)) (p + k * d) (p + Suc k * d) (ls ! k)" if "k < Suc n" "k \<noteq> 0" for k
  proof -
    from that obtain j where j: "k = Suc j" "j < n" by (cases k) auto
    have "p + d + j * d = p + k * d" "p + d + Suc j * d = p + Suc k * d" using j(1) by simp_all
    moreover have "link_at win' (2 ^ unat (ntb_packetbits_size cfg)) (p + d + j * d) (p + d + Suc j * d) (ls1 ! j)"
      using ih j(2) by blast
    ultimately show ?thesis by (simp only: s(4) j(1) nth_Cons_Suc)
  qed
  ultimately have "link_at win' (2 ^ unat (ntb_packetbits_size cfg)) (p + k * d) (p + Suc k * d) (ls ! k)" if "k < Suc n" for k
    using that s(4) by (cases "k = 0") simp_all
  with fr0 ih s(4) show ?case by simp
qed simp

text \<open>
  C25: \<^verbatim>\<open>ntb_mem_formatting\<close> lays out one control link and one data link per partition so that each region
  ends where the next begins: no two links share memory, the shadow cell of every link is zero at the end, and all slots of a
  ring, its capacity times the slot size, lie inside its region.
\<close>

theorem mem_formatting_layout:
  assumes "ntb_mem_formatting ok cfg win = Ret (win', ls)"
  shows "length ls = Suc (unat (num_partition cfg)) \<and>
    (\<forall>k < length ls. link_at win' (if k = 0 then 16 else 2 ^ unat (ntb_packetbits_size cfg))
       (link_base cfg k) (link_base cfg (Suc k)) (ls ! k))"
proof -
  from assms obtain win1 l ls1 where
    s: "format_link (ok 0) (ok 1) win 0 (ctrl_ringbuffer_size cfg) 16 = Ret (win1, l)"
      "format_partitions ok cfg win1 (unat (ctrl_ringbuffer_size cfg) + 8) 1 (unat (num_partition cfg)) = Ret (win', ls1)"
      "ls = l # ls1"
    by (auto simp: ntb_mem_formatting_def)
  note f = format_link_at [OF s(1)] and g = format_partitions_at [OF s(2)]
  have "seg win' 0 8 = seg win1 0 8" using g by simp
  then have c: "link_at win' 16 0 (unat (ctrl_ringbuffer_size cfg) + 8) l"
    using f(2) by (simp only: link_at_cong [of win' 0 win1] add.commute add_0_left add_0_right unat_numeral) simp
  show ?thesis
  proof (intro conjI allI impI)
    show "length ls = Suc (unat (num_partition cfg))" using g s(3) by simp
    fix k assume k: "k < length ls"
    show "link_at win' (if k = 0 then 16 else 2 ^ unat (ntb_packetbits_size cfg))
       (link_base cfg k) (link_base cfg (Suc k)) (ls ! k)"
      using k c g s(3) by (cases k) (simp_all add: add.assoc)
  qed
qed

theorem mem_formatting_layout_witness:
  "\<exists>win' ls. ntb_mem_formatting (\<lambda>_. True) demo_cfg (replicate 200 7) = Ret (win', ls) \<and>
    length ls = Suc (unat (num_partition demo_cfg)) \<and>
    (\<forall>k < length ls. link_at win' (if k = 0 then 16 else 2 ^ unat (ntb_packetbits_size demo_cfg))
       (link_base demo_cfg k) (link_base demo_cfg (Suc k)) (ls ! k))"
proof -
  have two: "unat (num_partition demo_cfg) = Suc (Suc 0)" by (simp add: demo_cfg_def)
  have "\<exists>win' ls. ntb_mem_formatting (\<lambda>_. True) demo_cfg (replicate 200 7) = Ret (win', ls)"
    unfolding ntb_mem_formatting_def two
    by (simp add: format_link_def ntb_ring_create_def demo_cfg_def)
  with mem_formatting_layout show ?thesis by blast
qed

end
