(* ===== verification/Ntp_Recv.thy ===== *)
theory Ntp_Recv
  imports Ntp_Send Ntb_Wire
begin

unbundle bit_operations_syntax

text \<open>
  The receiving half of the data plane in \<^verbatim>\<open>ntp_func.c\<close>: one turn of the loop of \<^verbatim>\<open>ntp_recv_data_to_buf\<close>, which
  takes packets out of the ring that the peer writes, and of \<^verbatim>\<open>ntp_ctrl_msg_receive\<close>. The connection found for a
  packet is kept in a local variable as long as the ports do not change; it is an address, and the object
  may be gone when it is used again.
\<close>

abbreviation NTS_EPOLLIN :: u32 where "NTS_EPOLLIN \<equiv> 1"

section \<open>State of the loop\<close>

record recv_local =
  rl_src_port :: u16
  rl_dst_port :: u16
  rl_conn :: "nat cptr"

definition recv_start :: recv_local where
  "recv_start = \<lparr>rl_src_port = 0, rl_dst_port = 0, rl_conn = Wild\<rparr>"

text \<open>
  What happens around a turn: how the application empties the ring while a block is handed over, what the
  ring of the link holds when a long message is complete, whether the waits for the event queue
  are interrupted, and what the peer writes to the shadow of the control ring.
\<close>

record recv_env =
  re_pops :: "nat list"
  re_fin_area :: "byte list option"
  re_intr1 :: bool
  re_intr2 :: bool
  re_ctrl_shadow :: "u64 list"

datatype turn = Go ntb_link_custom recv_local | Return int ntb_link_custom

definition part_at :: "ntb_link_custom \<Rightarrow> nat \<Rightarrow> ntb_partition outcome" where
  "part_at lk pidx = array_get (lk_partitions lk) pidx"

definition set_link :: "ntb_link_custom \<Rightarrow> nat \<Rightarrow> ntb_data_link \<Rightarrow> ntb_link_custom" where
  "set_link lk pidx dl =
     lk\<lparr>lk_partitions := (lk_partitions lk)[pidx := (lk_partitions lk ! pidx)\<lparr>pt_data_link := dl\<rparr>]\<rparr>"

section \<open>Steps of a turn\<close>

text \<open>The connection of the packet.\<close>

definition recv_lookup :: "ntb_link_custom \<Rightarrow> ntpacket_header \<Rightarrow> recv_local \<Rightarrow> recv_local outcome" where
  "recv_lookup lk h loc =
     (if rl_src_port loc \<noteq> h_dst_port h \<or> rl_dst_port loc \<noteq> h_src_port h then
        bind_out (map_get (lk_port2conn lk) (create_conn_id (h_dst_port h) (h_src_port h))) (\<lambda>r.
          Ret \<lparr>rl_src_port = h_dst_port h, rl_dst_port = h_src_port h,
               rl_conn = (case r of None \<Rightarrow> Null | Some x \<Rightarrow> Live x)\<rparr>)
      else Ret loc)"

text \<open>\<^verbatim>\<open>conn == NULL || conn->state == ACTIVE_CLOSE || conn->state == PASSIVE_CLOSE\<close>: the open connection, if it is one.\<close>

definition open_conn :: "ntb_link_custom \<Rightarrow> nat cptr \<Rightarrow> (nat \<times> ntb_conn) option outcome" where
  "open_conn lk p =
     (case p of
        Null \<Rightarrow> Ret None
      | Live r \<Rightarrow> bind_out (conn_at lk r) (\<lambda>c.
          Ret (if nc_state c = ACTIVE_CLOSE \<or> nc_state c = PASSIVE_CLOSE then None else Some (r, c)))
      | _ \<Rightarrow> Undef)"

text \<open>The slots that a message of this length takes: \<^verbatim>\<open>(msg_len + data_packet_size - 1) >> ntb_packetbits_size\<close>.\<close>

definition slot_count :: "ntp_config \<Rightarrow> u16 \<Rightarrow> nat" where
  "slot_count cfg len = nat (drop_bit (unat (ntb_packetbits_size cfg)) (uint len + uint (data_packet_size cfg) - 1))"

definition clear_len :: "ntp_config \<Rightarrow> byte list \<Rightarrow> u64 \<Rightarrow> byte list outcome" where
  "clear_len cfg area i =
     bind_out (slot_addr (ntb_packetbits_size cfg) i) (\<lambda>p. mem_write area (p + 4) (put16 0))"

text \<open>The loop that drops a packet: it advances before it clears.\<close>

fun drop_slots :: "ntp_config \<Rightarrow> u64 \<Rightarrow> nat \<Rightarrow> byte list \<Rightarrow> u64 \<Rightarrow> (byte list \<times> u64) outcome" where
  "drop_slots cfg cap 0 area i = Ret (area, i)"
| "drop_slots cfg cap (Suc n) area i =
     bind_out (clear_len cfg area (ring_next i cap)) (\<lambda>area'. drop_slots cfg cap n area' (ring_next i cap))"

definition recv_drop :: "ntp_config \<Rightarrow> u16 \<Rightarrow> ntb_ring_buffer \<Rightarrow> ntb_ring_buffer outcome" where
  "recv_drop cfg len r =
     (let n = slot_count cfg len; count = (if 1 < n then n + 1 else n) in
      bind_out (drop_slots cfg (rb_capacity r) count (rb_area r) (rb_cur_index r)) (\<lambda>(area, i).
        Ret (r\<lparr>rb_area := area, rb_cur_index := ring_next i (rb_capacity r)\<rparr>)))"

text \<open>The loop that clears a message of several packets: it clears before it advances.\<close>

fun clear_slots :: "ntp_config \<Rightarrow> u64 \<Rightarrow> nat \<Rightarrow> byte list \<Rightarrow> u64 \<Rightarrow> byte list outcome" where
  "clear_slots cfg cap 0 area i = Ret area"
| "clear_slots cfg cap (Suc n) area i =
     bind_out (clear_len cfg area i) (\<lambda>area'. clear_slots cfg cap n area' (ring_next i cap))"

text \<open>Handing a block to the application; \<^verbatim>\<open>assert(rc == 0)\<close> or a return with -1.\<close>

definition hand_over :: "recv_env \<Rightarrow> ntp_shm_context \<Rightarrow> u64 \<Rightarrow> (int \<times> ntp_shm_context) outcome" where
  "hand_over env ctx off = ntp_shm_send (re_pops env) ctx off"

text \<open>The event for a connection that is watched.\<close>

definition notify :: "recv_env \<Rightarrow> ntb_link_custom \<Rightarrow> ntb_conn \<Rightarrow> (int \<times> ntb_link_custom) outcome" where
  "notify env lk c =
     (if nc_epoll c \<noteq> 0 \<and> nc_epoll c AND NTS_EPOLLIN \<noteq> 0 then
        (let ev = \<lparr>ei_sockid = sint (nc_sockid c), ei_ev = \<lparr>ev_data = ucast (nc_sockid c), ev_events = NTS_EPOLLIN\<rparr>\<rparr> in
         bind_out (deref (nc_epoll_ctx c)) (\<lambda>e.
         case lk_epolls lk e of
           None \<Rightarrow> Undef
         | Some ec \<Rightarrow>
             bind_out (ep_event_queue_push (re_intr1 env) (re_intr2 env) (ec_queue ec) ev) (\<lambda>(rc, q).
               Ret (rc, lk\<lparr>lk_epolls := (lk_epolls lk)(e := Some (ec\<lparr>ec_queue := q\<rparr>))\<rparr>))))
      else Ret (0, lk))"

section \<open>The kinds of packets\<close>

text \<open>A packet of one slot.\<close>

definition recv_single ::
  "recv_env \<Rightarrow> nat \<Rightarrow> nat \<Rightarrow> u16 \<Rightarrow> ntb_link_custom \<Rightarrow> ntb_data_link \<Rightarrow> nat \<Rightarrow> ntb_conn \<Rightarrow> u64
     \<Rightarrow> (int \<times> ntb_link_custom) outcome"
where
  "recv_single env pidx p len lk dl r c off =
     (let n = len - of_nat NTPACKET_HEADER_LEN in
      bind_out (fill_block (nc_recv_ring c) off NTP_DATA n) (\<lambda>ctx1.
      bind_out (mem_read (rb_area (local_ring dl)) (p + 8) (unat n)) (\<lambda>bs.
      bind_out (write_block ctx1 off 8 bs) (\<lambda>ctx2.
      bind_out (hand_over env ctx2 off) (\<lambda>(rc, ctx3).
      bind_out (c_assert (rc = 0)) (\<lambda>_.
      bind_out (recv_done True p (local_ring dl)) (\<lambda>rb.
      let c' = c\<lparr>nc_recv_ring := ctx3\<rparr> in
        notify env (set_link (set_conn lk r c') pidx (dl\<lparr>local_ring := rb\<rparr>)) c')))))))"

text \<open>The copy of a message that spans slots: in one piece, or in two when the ring wraps.\<close>

definition copy_long ::
  "ntp_config \<Rightarrow> ntb_ring_buffer \<Rightarrow> nat \<Rightarrow> u64 \<Rightarrow> u16 \<Rightarrow> byte list outcome"
where
  "copy_long cfg r p next_idx n =
     (if next_idx \<le> rb_capacity r then mem_read (rb_area r) (p + 8) (unat n)
      else
        let first_len = (ucast (push_bit (unat (ntb_packetbits_size cfg)) (rb_capacity r - rb_cur_index r - 1))
              + datapacket_payload_size cfg :: u16) in
        bind_out (mem_read (rb_area r) (p + 8) (unat first_len)) (\<lambda>a.
        if n < first_len then Undef
        else bind_out (mem_read (rb_area r) 0 (unat (n - first_len))) (\<lambda>b. Ret (a @ b))))"

definition recv_multi ::
  "ntp_config \<Rightarrow> recv_env \<Rightarrow> nat \<Rightarrow> nat \<Rightarrow> u16 \<Rightarrow> ntb_link_custom \<Rightarrow> ntb_data_link \<Rightarrow> nat \<Rightarrow> ntb_conn \<Rightarrow> u64
     \<Rightarrow> (int \<times> ntb_link_custom) outcome"
where
  "recv_multi cfg env pidx p len lk dl r c off =
     (let n = len - of_nat NTPACKET_HEADER_LEN; rb0 = local_ring dl; cap = rb_capacity rb0;
          next_idx = rb_cur_index rb0 + of_nat (slot_count cfg len);
          fin_idx = (if next_idx < cap then next_idx else next_idx - cap) in
      bind_out (fill_block (nc_recv_ring c) off NTP_DATA n) (\<lambda>ctx1.
      bind_out (slot_addr (ntb_packetbits_size cfg) fin_idx) (\<lambda>q.
      bind_out (mem_read (rb_area rb0) (q + 4) 2) (\<lambda>fin_len.
      bind_out (if fin_len \<noteq> put16 0 then Ret (rb_area rb0)
                else case re_fin_area env of None \<Rightarrow> Spin | Some a \<Rightarrow> if get16 a (q + 4) = 0 then Spin else Ret a) (\<lambda>area.
      let rb = rb0\<lparr>rb_area := area\<rparr> in
      bind_out (copy_long cfg rb p next_idx n) (\<lambda>bs.
      bind_out (write_block ctx1 off 8 bs) (\<lambda>ctx2.
      bind_out (clear_slots cfg cap (slot_count cfg len + 1) area (rb_cur_index rb)) (\<lambda>area'.
      bind_out (hand_over env ctx2 off) (\<lambda>(rc, ctx3).
      let c' = c\<lparr>nc_recv_ring := ctx3\<rparr>;
          dl1 = dl\<lparr>local_ring := rb\<lparr>rb_area := area'\<rparr>\<rparr>;
          dl2 = dl\<lparr>local_ring := rb\<lparr>rb_area := area',
                  rb_cur_index := (if next_idx + 1 < cap then next_idx + 1 else next_idx - cap + 1)\<rparr>\<rparr> in
      if rc = - 1 then Ret (- 1, set_link (set_conn lk r c') pidx dl1)
      else notify env (set_link (set_conn lk r c') pidx dl2) c')))))))))"

text \<open>The probe: the read index of the application goes back over the control ring; the new block stays allocated.\<close>

definition detect_pkg_handler ::
  "u64 list \<Rightarrow> ntb_data_link \<Rightarrow> u16 \<Rightarrow> u16 \<Rightarrow> ntb_conn \<Rightarrow> (int \<times> ntb_data_link) outcome"
where
  "detect_pkg_handler env cl src_port dst_port c =
     bind_out (get_ring (nc_recv_ring c)) (\<lambda>s.
     let reply = \<lparr>header = \<lparr>h_src_port = src_port, h_dst_port = dst_port, h_msg_len = 6, h_msg_type = 0\<rparr>,
                  payload = put64 (ntp_get_read_index s)\<rparr> in
     bind_out (ntb_ctrl_msg_enqueue env cl reply) (\<lambda>(_, _, cl', _). Ret (0, cl')))"

definition recv_detect ::
  "recv_env \<Rightarrow> nat \<Rightarrow> nat \<Rightarrow> ntpacket_header \<Rightarrow> ntb_link_custom \<Rightarrow> ntb_data_link \<Rightarrow> nat \<Rightarrow> ntb_conn
     \<Rightarrow> (int \<times> ntb_link_custom) outcome"
where
  "recv_detect env pidx p h lk dl r c =
     bind_out (detect_pkg_handler (re_ctrl_shadow env) (lk_ctrl_link lk) (h_src_port h) (h_dst_port h) c) (\<lambda>(_, cl).
     bind_out (recv_done False p (local_ring dl)) (\<lambda>rb.
       Ret (0, set_link ((set_conn lk r c)\<lparr>lk_ctrl_link := cl\<rparr>) pidx (dl\<lparr>local_ring := rb\<rparr>))))"

definition recv_fin ::
  "recv_env \<Rightarrow> nat \<Rightarrow> nat \<Rightarrow> u16 \<Rightarrow> ntb_link_custom \<Rightarrow> ntb_data_link \<Rightarrow> nat \<Rightarrow> ntb_conn \<Rightarrow> u64
     \<Rightarrow> (int \<times> ntb_link_custom) outcome"
where
  "recv_fin env pidx p len lk dl r c off =
     bind_out (fill_block (nc_recv_ring c) off NTP_FIN (len - of_nat NTPACKET_HEADER_LEN)) (\<lambda>ctx1.
     bind_out (hand_over env ctx1 off) (\<lambda>(rc, ctx2).
     if rc = - 1 then Ret (- 1, set_link (set_conn lk r (c\<lparr>nc_recv_ring := ctx2\<rparr>)) pidx dl)
     else
       let c' = c\<lparr>nc_recv_ring := ctx2, nc_state := PASSIVE_CLOSE\<rparr> in
       bind_out (recv_done False p (local_ring dl)) (\<lambda>rb.
         notify env (set_link (set_conn lk r c') pidx (dl\<lparr>local_ring := rb\<rparr>)) c')))"

section \<open>One turn\<close>

text \<open>The packet of an open connection: a block is allocated first, whatever its type.\<close>

definition recv_packet ::
  "ntp_config \<Rightarrow> recv_env \<Rightarrow> nat \<Rightarrow> nat \<Rightarrow> ntpacket_header \<Rightarrow> int \<Rightarrow> ntb_link_custom \<Rightarrow> ntb_data_link \<Rightarrow> nat \<Rightarrow> ntb_conn
     \<Rightarrow> (int \<times> ntb_link_custom) outcome"
where
  "recv_packet cfg env pidx p h t lk dl r c =
     bind_out (ntp_shm_ntpacket_alloc (nc_recv_ring c) (unat (data_packet_size cfg))) (\<lambda>(rc, off, ctx).
     bind_out (c_assert (rc = 0)) (\<lambda>_.
     let c1 = c\<lparr>nc_recv_ring := ctx\<rparr> in
     if t = SINGLE_PKG then recv_single env pidx p (h_msg_len h) lk dl r c1 off
     else if t = MULTI_PKG then recv_multi cfg env pidx p (h_msg_len h) lk dl r c1 off
     else if t = DETECT_PKG then recv_detect env pidx p h lk dl r c1
     else if t = FIN_PKG then recv_fin env pidx p (h_msg_len h) lk dl r c1 off
     else
       bind_out (recv_done False p (local_ring dl)) (\<lambda>rb.
         Ret (0, set_link (set_conn lk r c1) pidx (dl\<lparr>local_ring := rb\<rparr>)))))"

abbreviation IDX_UPDATE_INTERVAL :: u64 where "IDX_UPDATE_INTERVAL \<equiv> 512"

definition ntp_recv_turn ::
  "ntp_config \<Rightarrow> recv_env \<Rightarrow> nat \<Rightarrow> ntb_link_custom \<Rightarrow> recv_local \<Rightarrow> turn outcome"
where
  "ntp_recv_turn cfg env pidx lk loc =
     bind_out (part_at lk pidx) (\<lambda>pt.
     bind_out (recv_peek cfg (local_ring (pt_data_link pt))) (\<lambda>(p, h).
     if h_msg_len h = 0 then Ret (Go lk loc)
     else
       let count = pt_recv_packet_counter pt + 1;
           (t, dl) = parser_data_len_get_type (pt_data_link pt) (h_msg_type h);
           lk1 = lk\<lparr>lk_partitions := (lk_partitions lk)[pidx := pt\<lparr>pt_recv_packet_counter := count, pt_data_link := dl\<rparr>]\<rparr> in
       bind_out (recv_lookup lk1 h loc) (\<lambda>loc'.
       bind_out (open_conn lk1 (rl_conn loc')) (\<lambda>oc.
       case oc of
         None \<Rightarrow>
           bind_out (recv_drop cfg (h_msg_len h) (local_ring dl)) (\<lambda>rb.
             Ret (Go (set_link lk1 pidx (dl\<lparr>local_ring := rb\<rparr>)) loc'))
       | Some (r, c) \<Rightarrow>
           bind_out (recv_packet cfg env pidx p h t lk1 dl r c) (\<lambda>(rc, lk2).
           if rc \<noteq> 0 then Ret (Return (- 1) lk2)
           else
             Ret (Go (if count mod IDX_UPDATE_INTERVAL = 0
                      then set_link lk2 pidx (snd (trans_data_link_cur_index (pt_data_link (lk_partitions lk2 ! pidx))))
                      else lk2) loc'))))))"

section \<open>The control ring\<close>

text \<open>
  One turn of \<^verbatim>\<open>ntp_ctrl_msg_receive\<close>: the connection is used without a test, and the index advances before the
  slot is cleared.
\<close>

definition ntp_ctrl_msg_turn :: "ntb_link_custom \<Rightarrow> ntb_link_custom outcome" where
  "ntp_ctrl_msg_turn lk =
     (let r = local_ring (lk_ctrl_link lk); p = unat (push_bit 4 (rb_cur_index r)) in
      bind_out (mem_read (rb_area r) p CTRL_NTPACKET_SIZE) (\<lambda>bs.
      let h = hdr_at bs 0 in
      if h_msg_len h = 0 then Ret lk
      else
        let (_, cl) = parser_ctrl_msg_header (lk_ctrl_link lk) (h_msg_len h) in
        bind_out (map_get (lk_port2conn lk) (create_conn_id (h_dst_port h) (h_src_port h))) (\<lambda>ref.
        case ref of
          None \<Rightarrow> Undef
        | Some x \<Rightarrow>
            bind_out (conn_at lk x) (\<lambda>c.
            bind_out (get_ring (nc_send_ring c)) (\<lambda>s.
            bind_out (mem_write (rb_area r) (p + 4) (put16 0)) (\<lambda>area.
            let s' = snd (ntp_set_peer_read_index s (get64 bs 8)) in
              Ret ((set_conn lk x (c\<lparr>nc_send_ring := (nc_send_ring c)\<lparr>ntsring_handle := Some s'\<rparr>\<rparr>))
                     \<lparr>lk_ctrl_link := cl\<lparr>local_ring := r\<lparr>rb_area := area,
                        rb_cur_index := ring_next (rb_cur_index r) (rb_capacity r)\<rparr>\<rparr>\<rparr>)))))))"

end
