(* ===== verification/Ntp_Flow.thy ===== *)
theory Ntp_Flow
  imports Chan_View Ntp_Recv
begin

text \<open>
  What the two halves of the data plane do to a connection, seen through the contents of the rings: the sender moves
  messages from the ring of the application to the ring over the bridge, the receiver moves packets from there to
  the ring of the other application.
\<close>

section \<open>Sending\<close>

abbreviation wire_pkt :: "u16 \<Rightarrow> u16 \<Rightarrow> byte list \<Rightarrow> packet_view" where
  "wire_pkt sp dp bs \<equiv> (sp, dp, SINGLE_PKG, bs)"

definition flow_cfg :: "ntp_config \<Rightarrow> bool" where
  "flow_cfg cfg \<longleftrightarrow> wire_cfg cfg \<and> 8 + unat (datapacket_payload_size cfg) \<le> pkt_size cfg"

abbreviation mirror :: "ntb_data_link \<Rightarrow> ntb_data_link \<Rightarrow> ntb_data_link" where
  "mirror s r \<equiv> r\<lparr>local_ring := (local_ring r)\<lparr>rb_area := rb_area (remote_ring s)\<rparr>\<rparr>"

lemma wire_inv_rings:
  assumes "wire_inv cfg (s, r, sent, got)"
  shows "ring_ok cfg (remote_ring s)" "ring_ok cfg (local_ring r)" "mirror s r = r" "local_cum s = remote_cum r"
  using assms by simp_all

lemma wire_inv_idx:
  assumes "wire_inv cfg (s, r, sent, got)"
  shows "unat (rb_cur_index (remote_ring s)) < unat (rb_capacity (remote_ring s))"
    "unat (local_cum s) < unat (rb_capacity (remote_ring s))" "unat (rb_cur_index (local_ring r)) < unat (rb_capacity (remote_ring s))"
  using assms by (auto simp: ring_ok_def)

declare wire_inv.simps [simp del] of_nat_mult [simp del]

lemma single_bits: "type_bits SINGLE_PKG = Some 0x1000"
  by (simp add: type_bits_def)

lemma enqueue_full:
  "ring_next (rb_cur_index (remote_ring dl)) (rb_capacity (remote_ring dl)) = local_cum dl \<Longrightarrow> ntpacket_enqueue cfg [] dl msg = Spin"
  by (simp add: ntpacket_enqueue_def Let_def)

text \<open>The slots that the sender takes for used: from its copy of the read index of the peer to its own index.\<close>

definition wire_used :: "ntb_data_link \<Rightarrow> nat" where
  "wire_used dl = ring_count (unat (rb_capacity (remote_ring dl))) (unat (local_cum dl)) (unat (rb_cur_index (remote_ring dl)))"

abbreviation wire_cap :: "ntb_data_link \<Rightarrow> nat" where
  "wire_cap dl \<equiv> unat (rb_capacity (remote_ring dl))"

lemma wire_room:
  assumes "wire_inv cfg (dl, r, sent, got)"
  shows "ring_next (rb_cur_index (remote_ring dl)) (rb_capacity (remote_ring dl)) \<noteq> local_cum dl \<longleftrightarrow> wire_used dl < wire_cap dl - 1"
    and "wire_used dl < wire_cap dl"
proof -
  note i = wire_inv_idx [OF assms]
  have "ring_next (rb_cur_index (remote_ring dl)) (rb_capacity (remote_ring dl)) \<noteq> local_cum dl \<longleftrightarrow>
      Suc (unat (rb_cur_index (remote_ring dl))) mod wire_cap dl \<noteq> unat (local_cum dl)"
    using ring_next_nat [OF i(1)] by (metis word_eq_iff_unat)
  then show "ring_next (rb_cur_index (remote_ring dl)) (rb_capacity (remote_ring dl)) \<noteq> local_cum dl \<longleftrightarrow> wire_used dl < wire_cap dl - 1"
    using ring_count_full [OF i(2,1)] ring_count_less [OF i(2,1)] by (auto simp: wire_used_def)
  show "wire_used dl < wire_cap dl" using ring_count_less [OF i(2,1)] by (simp add: wire_used_def)
qed

lemma send_short_view:
  assumes cfg: "wire_cfg cfg" and v: "chan_view n b sig (ss_ring st) [int x] msgs"
    and w: "wire_inv cfg (ss_link st, r, sent, got)" and sh: "ss_shadow st = []"
    and pl: "k \<le> length (payload msg)" "8 + k \<le> pkt_size cfg" and room: "wire_used (ss_link st) < wire_cap (ss_link st) - 1"
  obtains ring dl where "send_short cfg sp dp (blk_addr b x) msg (int k) SINGLE_PKG st = Ret (st\<lparr>ss_ring := ring, ss_link := dl\<rparr>)"
    "chan_view n b sig ring [int x] msgs" "wire_inv cfg (dl, mirror dl r, sent @ [wire_pkt sp dp (take k (payload msg))], got)"
    "wire_used dl = Suc (wire_used (ss_link st))" "wire_cap dl = wire_cap (ss_link st)"
proof -
  let ?dl = "ss_link st"
  define h where "h = snd (pack_ntpacket_header (header msg) sp dp (int k) SINGLE_PKG)"
  have pk: "pack_ntpacket_header (header msg) sp dp (int k) SINGLE_PKG = (0, h)"
    using pack_header [OF single_bits, of "header msg" sp dp k] by (simp add: h_def)
  have "8 + k < 2 ^ 16" using pl(2) unsigned_less [of "data_packet_size cfg", where ?'a = nat] by simp
  then have l: "unat (h_msg_len h) = 8 + k" "h_msg_type h = 0x1000"
    using packet_len [of k] pack_header [OF single_bits, of "header msg" sp dp k] by (simp_all add: h_def)
  have room': "ring_next (rb_cur_index (remote_ring ?dl)) (rb_capacity (remote_ring ?dl)) \<noteq> local_cum ?dl"
    using wire_room(1) [OF w] room by simp
  obtain msg' m' where e: "ntpacket_enqueue cfg [] ?dl \<lparr>header = h, payload = payload msg\<rparr> = Ret (0, msg',
      ?dl\<lparr>remote_ring := (remote_ring ?dl)\<lparr>rb_area := m',
        rb_cur_index := ring_next (rb_cur_index (remote_ring ?dl)) (rb_capacity (remote_ring ?dl))\<rparr>\<rparr>, [])"
    using ntpacket_enqueue_ok [OF cfg wire_inv_rings(1) [OF w] single_bits room', of "\<lparr>header = h, payload = payload msg\<rparr>" k "[]"]
      l pl by auto
  define dl where "dl = ?dl\<lparr>remote_ring := (remote_ring ?dl)\<lparr>rb_area := m',
        rb_cur_index := ring_next (rb_cur_index (remote_ring ?dl)) (rb_capacity (remote_ring ?dl))\<rparr>\<rparr>"
  have b: "8 \<le> b" using v by (auto simp: chan_view_def elim: chan_okE)
  obtain ring where ring: "write_block (ss_ring st) (blk_addr b x) 0 (hdr_bytes (header msg')) = Ret ring"
    "chan_view n b sig ring [int x] msgs" by (rule view_write [OF v, of 0 "hdr_bytes (header msg')"]) (use b in auto)
  have m: "msg\<lparr>header := h\<rparr> = \<lparr>header = h, payload = payload msg\<rparr>" by simp
  have "send_short cfg sp dp (blk_addr b x) msg (int k) SINGLE_PKG st = Ret (st\<lparr>ss_ring := ring, ss_link := dl\<rparr>)"
    using e ring(1) sh by (simp add: send_short_def pk m dl_def)
  moreover note i = wire_inv_idx [OF w]
  have "wire_used dl = Suc (wire_used ?dl)"
    using ring_count_push [OF i(2,1)] ring_next_nat [OF i(1)] room' by (auto simp: wire_used_def dl_def word_eq_iff_unat)
  moreover have "wire_cap dl = wire_cap ?dl" by (simp add: dl_def)
  ultimately show ?thesis using ring(2) wire_inv_send [OF cfg w pk pl e, folded dl_def] that by blast
qed

lemma send_msg_view:
  assumes cfg: "flow_cfg cfg" and v: "chan_view n b sig (ss_ring st) [int x] msgs" and x: "x < n"
    and m: "blk_msg (pool_mem (ss_ring st)) b x = (NTP_DATA, bs)" "blk_ok (pool_mem (ss_ring st)) b x"
    and len: "length bs \<le> unat (datapacket_payload_size cfg)"
    and w: "wire_inv cfg (ss_link st, r, sent, got)" and sh: "ss_shadow st = []"
  shows "if wire_used (ss_link st) < wire_cap (ss_link st) - 1
    then \<exists>ring dl. send_msg cfg sp dp (blk_addr b x) st = Ret (False, st\<lparr>ss_ring := ring, ss_link := dl\<rparr>) \<and>
      chan_view n b sig ring [] msgs \<and> wire_inv cfg (dl, mirror dl r, sent @ [wire_pkt sp dp bs], got) \<and>
      wire_used dl = Suc (wire_used (ss_link st)) \<and> wire_cap dl = wire_cap (ss_link st)
    else send_msg cfg sp dp (blk_addr b x) st = Spin"
proof -
  have wc: "wire_cfg cfg" "8 + unat (datapacket_payload_size cfg) \<le> pkt_size cfg" using cfg by (simp_all add: flow_cfg_def)
  obtain msg where rd: "read_block (ss_ring st) (blk_addr b x) = Ret msg" "h_msg_type (header msg) = NTP_DATA"
    "unat (h_msg_len (header msg)) = blk_len (pool_mem (ss_ring st)) b x"
    "blk_len (pool_mem (ss_ring st)) b x \<le> length (payload msg)"
    "take (blk_len (pool_mem (ss_ring st)) b x) (payload msg) = bs"
    using view_read [OF v x] m by (metis fst_conv snd_conv)
  define k where "k = length bs"
  have k: "unat (h_msg_len (header msg)) = k" "k \<le> length (payload msg)" "take k (payload msg) = bs"
    using rd(3-5) by (auto simp: k_def)
  have le: "h_msg_len (header msg) \<le> datapacket_payload_size cfg" using len k(1) by (simp add: word_le_nat_alt k_def)
  have u: "uint (h_msg_len (header msg)) = int k" using k(1) by (simp only: uint_nat)
  have sz: "8 + k \<le> pkt_size cfg" using len wc(2) by (simp add: k_def)
  have sm: "send_msg cfg sp dp (blk_addr b x) st =
      bind_out (send_short cfg sp dp (blk_addr b x) msg (int k) SINGLE_PKG st) (\<lambda>st1.
      bind_out (free_block (blk_addr b x) st1) (\<lambda>st2. Ret (False, st2)))"
    using rd(1,2) le by (simp add: send_msg_def Let_def u)
  show ?thesis
  proof (cases "wire_used (ss_link st) < wire_cap (ss_link st) - 1")
    case False
    then show ?thesis unfolding sm using wire_room(1) [OF w] by (simp add: send_short_def Let_def sh enqueue_full)
  next
    case True
    obtain ring dl where s: "send_short cfg sp dp (blk_addr b x) msg (int k) SINGLE_PKG st = Ret (st\<lparr>ss_ring := ring, ss_link := dl\<rparr>)"
      "chan_view n b sig ring [int x] msgs" "wire_inv cfg (dl, mirror dl r, sent @ [wire_pkt sp dp (take k (payload msg))], got)"
      "wire_used dl = Suc (wire_used (ss_link st))" "wire_cap dl = wire_cap (ss_link st)"
      by (rule send_short_view [OF wc(1) v w sh k(2) sz True])
    obtain ring' where f: "ntp_shm_ntpacket_free ring (blk_addr b x) = Ret ring'" "chan_view n b sig ring' [] msgs"
      by (rule view_free [OF s(2)])
    have "send_msg cfg sp dp (blk_addr b x) st = Ret (False, st\<lparr>ss_ring := ring', ss_link := dl\<rparr>)"
      unfolding sm s(1) by (simp add: free_block_def f(1))
    with f(2) s(3-5) True k(3) show ?thesis by auto
  qed
qed

text \<open>
  The loop moves messages until it has moved as many as it may or the ring is empty; it waits for ever when they do not fit
  and the peer does not move.
\<close>

lemma send_loop_view:
  assumes "flow_cfg cfg" "chan_view n b sig (ss_ring st) [] (map (Pair NTP_DATA) ms)"
    and "\<forall>m \<in> set ms. length m \<le> unat (datapacket_payload_size cfg)"
    and "wire_inv cfg (ss_link st, r, sent, got)" "ss_shadow st = []"
  shows "if wire_used (ss_link st) + min k (length ms) < wire_cap (ss_link st)
    then \<exists>st'. send_loop cfg sp dp k [] st = Ret (False, st') \<and>
      chan_view n b sig (ss_ring st') [] (map (Pair NTP_DATA) (drop k ms)) \<and>
      wire_inv cfg (ss_link st', mirror (ss_link st') r, sent @ map (wire_pkt sp dp) (take k ms), got)
    else send_loop cfg sp dp k [] st = Spin"
  using assms(2-)
proof (induction k arbitrary: st ms r sent)
  case 0
  then show ?case using wire_inv_rings(3) [OF "0.prems"(3)] wire_room(2) [OF "0.prems"(3)] by simp
next
  case (Suc k)
  note wi = wire_inv_rings(3) [OF Suc.prems(3)] wire_room(2) [OF Suc.prems(3)]
  show ?case
  proof (cases ms)
    case Nil
    then have "ntp_shm_recv [] (ss_ring st) = Ret (FAILED, None, ss_ring st)" using view_recv_none Suc.prems(1) by simp
    then have "send_loop cfg sp dp (Suc k) [] st = Ret (False, st)" by simp
    then show ?thesis using Suc.prems Nil wi by (simp del: send_loop.simps)
  next
    case (Cons m ms')
    obtain x ring where x: "ntp_shm_recv [] (ss_ring st) = Ret (SUCCESS, Some (blk_addr b x), ring)" "x < n"
      "chan_view n b sig ring [int x] (map (Pair NTP_DATA) ms')" "blk_msg (pool_mem ring) b x = (NTP_DATA, m)" "blk_ok (pool_mem ring) b x"
      by (rule view_recv [of n b sig "ss_ring st" "(NTP_DATA, m)" "map (Pair NTP_DATA) ms'" "[]"]) (use Suc.prems(1) Cons in simp_all)
    let ?st = "st\<lparr>ss_ring := ring, ss_cnt := ss_cnt st + 1\<rparr>"
    have run: "send_loop cfg sp dp (Suc k) [] st = bind_out (send_msg cfg sp dp (blk_addr b x) ?st) (\<lambda>(fin, st').
         if fin then Ret (True, st') else send_loop cfg sp dp k [] st')" using x(1) by (simp cong: if_cong)
    have sm: "if wire_used (ss_link st) < wire_cap (ss_link st) - 1
      then \<exists>ring dl. send_msg cfg sp dp (blk_addr b x) ?st = Ret (False, ?st\<lparr>ss_ring := ring, ss_link := dl\<rparr>) \<and>
        chan_view n b sig ring [] (map (Pair NTP_DATA) ms') \<and> wire_inv cfg (dl, mirror dl r, sent @ [wire_pkt sp dp m], got) \<and>
        wire_used dl = Suc (wire_used (ss_link st)) \<and> wire_cap dl = wire_cap (ss_link st)
      else send_msg cfg sp dp (blk_addr b x) ?st = Spin"
      using send_msg_view [OF assms(1), of n b sig ?st x "map (Pair NTP_DATA) ms'" m r sent got sp dp] x Suc.prems(2-4) Cons by (simp split: if_splits)
    show ?thesis
    proof (cases "wire_used (ss_link st) < wire_cap (ss_link st) - 1")
      case False
      then show ?thesis using sm run Cons wi(2) by (simp del: send_loop.simps)
    next
      case True
      with sm obtain ring' dl where s: "send_msg cfg sp dp (blk_addr b x) ?st = Ret (False, ?st\<lparr>ss_ring := ring', ss_link := dl\<rparr>)"
          "chan_view n b sig ring' [] (map (Pair NTP_DATA) ms')" "wire_inv cfg (dl, mirror dl r, sent @ [wire_pkt sp dp m], got)"
          "wire_used dl = Suc (wire_used (ss_link st))" "wire_cap dl = wire_cap (ss_link st)" by auto
      have "send_loop cfg sp dp (Suc k) [] st = send_loop cfg sp dp k [] (?st\<lparr>ss_ring := ring', ss_link := dl\<rparr>)"
        using run s(1) by simp
      moreover note Suc.IH [of "?st\<lparr>ss_ring := ring', ss_link := dl\<rparr>" ms' "mirror dl r" "sent @ [wire_pkt sp dp m]"]
      ultimately show ?thesis using s Suc.prems(2,4) Cons by (simp del: send_loop.simps split: if_splits)
    qed
  qed
qed

text \<open>No probe is sent while the recorded read index of the peer is zero, as it is from the start.\<close>

lemma window_open:
  assumes "peer_read_idx s = 0" "unat (read_idx (queue s)) < 2 ^ 31"
  shows "\<not> send_window s < 512"
proof (cases "read_idx (queue s) = 0")
  case True
  then show ?thesis using assms by (simp add: send_window_def ntp_get_peer_read_index_def ntp_get_read_index_def Let_def)
next
  case False
  define r where "r = read_idx (queue s)"
  have "\<not> - r - 1 < 512"
  proof
    define d where "d = - r - 1"
    assume "- r - 1 < 512"
    then have d: "unat d < 512" by (simp add: d_def word_less_nat_alt)
    have "(of_nat (unat r + unat d + 1) :: u64) = r + d + 1" by simp
    also have "\<dots> = 0" by (simp add: d_def)
    finally have "2 ^ 64 dvd unat r + unat d + 1" by (simp only: word_of_nat_eq_0_iff) simp
    then have "2 ^ 64 \<le> unat r + unat d + 1" by (intro dvd_imp_le) simp_all
    then show False using d assms(2) by (simp add: r_def)
  qed
  moreover have "0 < - r" using False by (simp add: r_def word_gt_0)
  ultimately show ?thesis using assms by (simp add: send_window_def ntp_get_peer_read_index_def ntp_get_read_index_def Let_def r_def)
qed

lemma ntp_send_view:
  assumes cfg: "flow_cfg cfg" and v: "chan_view n b (c, 0) (nc_send_ring conn) [] (map (Pair NTP_DATA) ms)"
    and len: "\<forall>m \<in> set ms. length m \<le> unat (datapacket_payload_size cfg)"
    and w: "wire_inv cfg (dl, r, sent, got)" and env: "se_shadow env = []" "se_arrivals env = []"
  defines "sp \<equiv> ucast (drop_bit 16 (nc_conn_id conn))" and "dp \<equiv> ucast (nc_conn_id conn)" and "k \<equiv> nat (bulk_size cfg)"
  shows "if wire_used dl + min k (length ms) < wire_cap dl
    then \<exists>rc dl' ring. ntp_send_buff_data cfg env dl conn = Ret (rc, dl', conn\<lparr>nc_send_ring := ring\<rparr>) \<and>
      chan_view n b (c, 0) ring [] (map (Pair NTP_DATA) (drop k ms)) \<and>
      wire_inv cfg (dl', mirror dl' r, sent @ map (wire_pkt sp dp) (take k ms), got)
    else ntp_send_buff_data cfg env dl conn = Spin"
proof -
  obtain s where s: "ntsring_handle (nc_send_ring conn) = Some s" "idx_ring s" "unat (capacity s) < n" "n < 2 ^ 31"
    using v by (auto simp: chan_view_def elim: chan_okE)
  have p: "peer_read_idx s = 0" using v s(1) by (simp add: chan_view_def chan_sig_def)
  have "unat (read_idx (queue s)) < unat (capacity s)" using s(2) by (simp add: idx_ring_def shmring_inv_def)
  then have nw: "\<not> send_window s < 512" using s(3,4) p by (intro window_open) auto
  let ?st = "\<lparr>ss_ring = nc_send_ring conn, ss_link = dl, ss_pkt = se_pkt env, ss_shadow = se_shadow env, ss_cnt = 0\<rparr>"
  have run: "ntp_send_buff_data cfg env dl conn = bind_out (send_loop cfg sp dp k [] ?st) (\<lambda>(fin, st1).
      if fin then Ret (0, ss_link st1, conn\<lparr>nc_send_ring := ss_ring st1, nc_state := ACTIVE_CLOSE\<rparr>)
      else Ret (sint (ucast (ss_cnt st1) :: u32), ss_link st1, conn\<lparr>nc_send_ring := ss_ring st1\<rparr>))"
    using env s(1) nw by (simp add: ntp_send_buff_data_def get_ring_def Let_def send_detect_def sp_def dp_def k_def cong: if_cong)
  note sl = send_loop_view [OF cfg, of n b "(c, 0)" ?st ms r sent got k sp dp, simplified, OF v len w env(1)]
  show ?thesis
  proof (cases "wire_used dl + min k (length ms) < wire_cap dl")
    case True
    with sl env obtain st1 where st1: "send_loop cfg sp dp k [] ?st = Ret (False, st1)"
      "chan_view n b (c, 0) (ss_ring st1) [] (map (Pair NTP_DATA) (drop k ms))"
      "wire_inv cfg (ss_link st1, mirror (ss_link st1) r, sent @ map (wire_pkt sp dp) (take k ms), got)" by auto
    then show ?thesis using True by (fastforce simp: run)
  next
    case False
    then show ?thesis using sl env by (simp add: run)
  qed
qed

section \<open>Receiving\<close>

abbreviation reflect :: "ntb_data_link \<Rightarrow> ntb_data_link \<Rightarrow> ntb_data_link" where
  "reflect r s \<equiv> s\<lparr>local_cum := remote_cum r, remote_ring := (remote_ring s)\<lparr>rb_area := rb_area (local_ring r)\<rparr>\<rparr>"

abbreviation link_of :: "ntb_link_custom \<Rightarrow> nat \<Rightarrow> ntb_data_link" where
  "link_of lk pidx \<equiv> pt_data_link (lk_partitions lk ! pidx)"

text \<open>Packets with the ports \<open>sp\<close> and \<open>dp\<close> reach the open connection \<open>r\<close>, which nobody watches.\<close>

definition recv_ready :: "ntb_link_custom \<Rightarrow> nat \<Rightarrow> u16 \<Rightarrow> u16 \<Rightarrow> nat \<Rightarrow> ntb_conn \<Rightarrow> recv_local \<Rightarrow> bool" where
  "recv_ready lk pidx sp dp r conn loc \<longleftrightarrow>
     pidx < length (lk_partitions lk) \<and> map_get (lk_port2conn lk) (create_conn_id dp sp) = Ret (Some r) \<and>
     lk_conns lk r = Some conn \<and> nc_state conn = READY_CONN \<and> nc_epoll conn = 0 \<and>
     (rl_src_port loc = dp \<and> rl_dst_port loc = sp \<longrightarrow> rl_conn loc = Live r)"

lemma recv_slot_SomeD:
  assumes "recv_slot cfg dl = Ret (Some (h, t, bs), dl')"
  obtains p dl1 rb where "recv_peek cfg (local_ring dl) = Ret (p, h)" "h_msg_len h \<noteq> 0"
    "parser_data_len_get_type dl (h_msg_type h) = (t, dl1)" "local_ring dl1 = local_ring dl"
    "mem_read (rb_area (local_ring dl)) (p + 8) (unat (h_msg_len h - 8)) = Ret bs"
    "recv_done (t = SINGLE_PKG) p (local_ring dl) = Ret rb" "dl' = dl1\<lparr>local_ring := rb\<rparr>"
proof -
  obtain p h' where p: "recv_peek cfg (local_ring dl) = Ret (p, h')" "h_msg_len h' \<noteq> 0"
    using assms by (auto simp: recv_slot_def bind_out_eq_Ret split: if_splits)
  obtain t' dl1 where q: "parser_data_len_get_type dl (h_msg_type h') = (t', dl1)" by force
  then have l: "local_ring dl1 = local_ring dl"
    by (auto simp: parser_data_len_get_type_def trans_data_link_cur_index_def split: if_splits)
  show ?thesis using assms p q l that by (auto simp: recv_slot_def bind_out_eq_Ret)
qed

lemma wire_pending:
  assumes "wire_inv cfg (s, r, sent, got)" "sent = got @ xs"
  shows "ring_list (unat (rb_capacity (remote_ring s))) (unat (rb_cur_index (local_ring r)))
      (unat (rb_cur_index (remote_ring s))) (slot_pkt (rb_area (remote_ring s)) (pkt_size cfg)) = xs"
  using assms by (simp add: wire_inv.simps Let_def)

lemma recv_turn_idle:
  assumes cfg: "wire_cfg cfg" and rdy: "pidx < length (lk_partitions lk)" and w: "wire_inv cfg (s, link_of lk pidx, sent, sent)"
  shows "ntp_recv_turn cfg env pidx lk loc = Ret (Go lk loc)"
proof -
  have r: "recv_slot cfg (link_of lk pidx) = Ret (None, link_of lk pidx)"
    by (rule wire_recv(1) [OF cfg w]) (use wire_pending [OF w] in simp)
  obtain p h where p: "recv_peek cfg (local_ring (link_of lk pidx)) = Ret (p, h)"
    using recv_peek_ok [OF cfg wire_inv_rings(2) [OF w]] by blast
  with r have "h_msg_len h = 0" by (auto simp: recv_slot_def bind_out_eq_Ret split: if_splits prod.splits)
  with p rdy show ?thesis by (simp add: ntp_recv_turn_def part_at_def array_get_def)
qed

text \<open>A packet of the connection at the front of the ring: it is handed over, or the turn waits for room.\<close>

lemma recv_single_view:
  assumes v: "chan_view n b (c, p) (nc_recv_ring conn) [int x] msgs" and n: "unat (len - 8) = length bs" "8 + length bs \<le> b"
    and rd: "mem_read (rb_area (local_ring dl)) (a + 8) (unat (len - 8)) = Ret bs"
    and dn: "recv_done True a (local_ring dl) = Ret rb" and env: "re_pops env = []" and ep: "nc_epoll conn = 0"
  shows "if length msgs < c - 1
    then \<exists>ring. recv_single env pidx a len lk dl r conn (blk_addr b x) =
        Ret (0, set_link (set_conn lk r (conn\<lparr>nc_recv_ring := ring\<rparr>)) pidx (dl\<lparr>local_ring := rb\<rparr>)) \<and>
      chan_view n b (c, p) ring [] (msgs @ [(NTP_DATA, bs)])
    else recv_single env pidx a len lk dl r conn (blk_addr b x) = Spin"
proof -
  have l: "len - 8 = of_nat (length bs)" "length bs < 2 ^ 16"
    using n(1) [symmetric] unsigned_less [of "len - 8", where ?'a = nat] by simp_all
  obtain c1 c2 where f: "fill_block (nc_recv_ring conn) (blk_addr b x) NTP_DATA (of_nat (length bs)) = Ret c1"
    "write_block c1 (blk_addr b x) 8 bs = Ret c2" "chan_view n b (c, p) c2 [int x] msgs"
    "blk_msg (pool_mem c2) b x = (NTP_DATA, bs)" "blk_ok (pool_mem c2) b x" by (rule view_fill [OF v n(2) l(2)])
  have un: "recv_single env pidx a len lk dl r conn (blk_addr b x) =
      bind_out (ntp_shm_send [] c2 (blk_addr b x)) (\<lambda>(rc, ctx3).
      bind_out (c_assert (rc = 0)) (\<lambda>_.
        Ret (0, set_link (set_conn lk r (conn\<lparr>nc_recv_ring := ctx3\<rparr>)) pidx (dl\<lparr>local_ring := rb\<rparr>))))"
    using f(1,2) rd dn ep env l(1) by (simp add: recv_single_def hand_over_def notify_def Let_def cong: if_cong)
  show ?thesis
  proof (cases "length msgs < c - 1")
    case True
    obtain ring where "ntp_shm_send [] c2 (blk_addr b x) = Ret (SUCCESS, ring)"
      "chan_view n b (c, p) ring [] (msgs @ [blk_msg (pool_mem c2) b x])" by (rule view_send [OF f(3) True f(5)])
    with True f(4) show ?thesis unfolding un by auto
  next
    case False
    then show ?thesis unfolding un using view_send_full [OF f(3) False] by simp
  qed
qed

lemma link_of_set_link [simp]: "pidx < length (lk_partitions lk) \<Longrightarrow> link_of (set_link lk pidx dl) pidx = dl"
  by (simp add: set_link_def)

lemma set_link_other [simp]:
  "length (lk_partitions (set_link lk pidx dl)) = length (lk_partitions lk)"
  "lk_port2conn (set_link lk pidx dl) = lk_port2conn lk" "lk_conns (set_link lk pidx dl) = lk_conns lk"
  by (simp_all add: set_link_def)

lemma recv_lookup_ready:
  assumes "recv_ready lk pidx sp dp r conn loc" "lk_port2conn lk1 = lk_port2conn lk" "h_src_port h = sp" "h_dst_port h = dp"
  shows "recv_lookup lk1 h loc = Ret \<lparr>rl_src_port = dp, rl_dst_port = sp, rl_conn = Live r\<rparr>"
proof (cases "rl_src_port loc = dp \<and> rl_dst_port loc = sp")
  case True
  then have "loc = \<lparr>rl_src_port = dp, rl_dst_port = sp, rl_conn = Live r\<rparr>"
    using assms(1) by (cases loc) (simp add: recv_ready_def)
  then show ?thesis using assms(3,4) by (simp add: recv_lookup_def)
next
  case False
  then show ?thesis using assms by (auto simp: recv_lookup_def recv_ready_def)
qed

text \<open>A turn with a packet of an open connection: the packet, and perhaps the read index of the link.\<close>

abbreviation recv_counted :: "ntb_link_custom \<Rightarrow> nat \<Rightarrow> ntb_data_link \<Rightarrow> ntb_link_custom" where
  "recv_counted lk pidx dl \<equiv> lk\<lparr>lk_partitions := (lk_partitions lk)[pidx := (lk_partitions lk ! pidx)
     \<lparr>pt_recv_packet_counter := pt_recv_packet_counter (lk_partitions lk ! pidx) + 1, pt_data_link := dl\<rparr>]\<rparr>"

definition turn_end :: "nat \<Rightarrow> u64 \<Rightarrow> ntb_link_custom \<Rightarrow> ntb_link_custom" where
  "turn_end pidx count lk =
     (if count mod IDX_UPDATE_INTERVAL = 0
      then set_link lk pidx (snd (trans_data_link_cur_index (link_of lk pidx))) else lk)"

lemma recv_turn_open:
  assumes rdy: "recv_ready lk pidx sp dp r conn loc" and h: "h_src_port h = sp" "h_dst_port h = dp" "h_msg_len h \<noteq> 0"
    and pk: "recv_peek cfg (local_ring (link_of lk pidx)) = Ret (a, h)"
    and ty: "parser_data_len_get_type (link_of lk pidx) (h_msg_type h) = (t, dl1)"
  shows "ntp_recv_turn cfg env pidx lk loc =
     bind_out (recv_packet cfg env pidx a h t (recv_counted lk pidx dl1) dl1 r conn) (\<lambda>(rc, lk2).
       if rc \<noteq> 0 then Ret (Return (- 1) lk2)
       else Ret (Go (turn_end pidx (pt_recv_packet_counter (lk_partitions lk ! pidx) + 1) lk2)
                   \<lparr>rl_src_port = dp, rl_dst_port = sp, rl_conn = Live r\<rparr>))"
proof -
  have lu: "recv_lookup (recv_counted lk pidx dl1) h loc = Ret \<lparr>rl_src_port = dp, rl_dst_port = sp, rl_conn = Live r\<rparr>"
    by (rule recv_lookup_ready [OF rdy _ h(1,2)]) simp
  have "open_conn (recv_counted lk pidx dl1) (Live r) = Ret (Some (r, conn))" "part_at lk pidx = Ret (lk_partitions lk ! pidx)"
    using rdy by (simp_all add: open_conn_def conn_at_def part_at_def recv_ready_def)
  then show ?thesis using h(3) pk ty lu by (simp add: ntp_recv_turn_def turn_end_def Let_def cong: if_cong)
qed

text \<open>
  How far the copy of the read index at the sender is behind: never further than the counter of packets has gone since
  its last multiple of the interval, because the receiver then writes its index back.
\<close>

definition lag_ok :: "ntb_link_custom \<Rightarrow> nat \<Rightarrow> bool" where
  "lag_ok lk pidx \<longleftrightarrow>
     (let r = link_of lk pidx in
      ring_count (unat (rb_capacity (local_ring r))) (unat (remote_cum r)) (unat (rb_cur_index (local_ring r)))
        \<le> unat (pt_recv_packet_counter (lk_partitions lk ! pidx)) mod 512)"

lemma ring_count_succ_le: "s < c \<Longrightarrow> r < c \<Longrightarrow> ring_count c s (Suc r mod c) \<le> Suc (ring_count c s r)"
  by (auto simp: ring_count_alt Suc_mod_alt)

lemma counter_next:
  fixes c :: u64
  shows "unat (c + 1) mod 512 = (if (c + 1) mod 512 = 0 then 0 else Suc (unat c mod 512))" (is ?A)
proof -
  have "unat (c + 1) mod 512 = Suc (unat c) mod 2 ^ 64 mod 512" by (simp add: unat_word_ariths)
  also have "\<dots> = Suc (unat c) mod 512" by (rule mod_mod_cancel) simp
  also have "\<dots> = Suc (unat c mod 512) mod 512" by (simp add: mod_simps)
  finally have u: "unat (c + 1) mod 512 = Suc (unat c mod 512) mod 512" .
  have "unat ((c + 1) mod 512) = unat (c + 1) mod 512" by (simp add: unat_mod)
  then have "(c + 1) mod 512 = 0 \<longleftrightarrow> unat (c + 1) mod 512 = 0" by (metis unat_0 unat_eq_zero)
  then show ?A using u by (cases "Suc (unat c mod 512) = 512") (auto simp: Suc_lessI)
qed

lemma lag_step:
  assumes lag: "lag_ok lk pidx" and p: "pidx < length (lk_partitions lk)"
    and i: "unat (rb_cur_index (local_ring (link_of lk pidx))) < unat (rb_capacity (local_ring (link_of lk pidx)))"
      "unat (remote_cum (link_of lk pidx)) < unat (rb_capacity (local_ring (link_of lk pidx)))"
    and ty: "parser_data_len_get_type (link_of lk pidx) w = (t, dl1)"
    and dn: "recv_done cl a (local_ring (link_of lk pidx)) = Ret rb"
  shows "lag_ok (turn_end pidx (pt_recv_packet_counter (lk_partitions lk ! pidx) + 1)
      (set_link (set_conn (recv_counted lk pidx dl1) r c) pidx (dl1\<lparr>local_ring := rb\<rparr>))) pidx"
proof -
  let ?dl = "link_of lk pidx" and ?n = "pt_recv_packet_counter (lk_partitions lk ! pidx)"
  let ?c = "unat (rb_capacity (local_ring ?dl))" and ?rd = "unat (rb_cur_index (local_ring ?dl))"
  have rb: "rb_capacity rb = rb_capacity (local_ring ?dl)" "unat (rb_cur_index rb) = Suc ?rd mod ?c"
    using dn ring_next_nat [OF i(1)] by (auto simp: recv_done_def bind_out_eq_Ret)
  have cum: "remote_cum dl1 = remote_cum ?dl \<or> remote_cum dl1 = rb_cur_index (local_ring ?dl)"
    using ty by (auto simp: parser_data_len_get_type_def trans_data_link_cur_index_def split: if_splits)
  have "ring_count ?c ?rd ?rd = 0" using i(1) by (simp add: ring_count_eq_0)
  then have "ring_count ?c (unat (remote_cum dl1)) (Suc ?rd mod ?c) \<le> Suc (unat ?n mod 512)"
    using cum lag ring_count_succ_le [OF i(2,1)] ring_count_succ_le [OF i(1) i(1)] by (auto simp: lag_ok_def Let_def)
  moreover have "ring_count ?c (Suc ?rd mod ?c) (Suc ?rd mod ?c) = 0" using i(1) by (simp add: ring_count_eq_0)
  ultimately show ?thesis
    using p rb by (auto simp: lag_ok_def turn_end_def set_link_def Let_def trans_data_link_cur_index_def counter_next)
qed

lemma recv_turn_view:
  assumes cfg: "flow_cfg cfg" and rdy: "recv_ready lk pidx sp dp r conn loc"
    and w: "wire_inv cfg (s, link_of lk pidx, sent, got)" and x: "sent = got @ wire_pkt sp dp bs # xs"
    and bs: "8 + length bs \<le> b"
    and v: "chan_view n b (c, p) (nc_recv_ring conn) [] msgs" and env: "re_pops env = []"
  shows "if length msgs < c - 1
    then \<exists>lk' loc' ring. ntp_recv_turn cfg env pidx lk loc = Ret (Go lk' loc') \<and>
      recv_ready lk' pidx sp dp r (conn\<lparr>nc_recv_ring := ring\<rparr>) loc' \<and>
      chan_view n b (c, p) ring [] (msgs @ [(NTP_DATA, bs)]) \<and>
      wire_inv cfg (reflect (link_of lk' pidx) s, link_of lk' pidx, sent, got @ [wire_pkt sp dp bs]) \<and>
      (lag_ok lk pidx \<longrightarrow> lag_ok lk' pidx)
    else ntp_recv_turn cfg env pidx lk loc = Spin"
proof -
  have wc: "wire_cfg cfg" and pos: "0 < pkt_size cfg" using cfg wire_cfg_size [of cfg] by (auto simp: flow_cfg_def)
  let ?dl = "link_of lk pidx" and ?count = "pt_recv_packet_counter (lk_partitions lk ! pidx) + 1"
  note rd = rdy [unfolded recv_ready_def]
  from wire_recv(2) [OF wc w, of "wire_pkt sp dp bs" xs] wire_pending [OF w x]
  obtain h t bs' dl' where rs: "recv_slot cfg ?dl = Ret (Some (h, t, bs'), dl')" "(h_src_port h, h_dst_port h, t, bs') = wire_pkt sp dp bs"
    "wire_inv cfg (reflect dl' s, dl', sent, got @ [wire_pkt sp dp bs])" by blast
  then have h: "h_src_port h = sp" "h_dst_port h = dp" "t = SINGLE_PKG" "bs' = bs" by auto
  obtain a dl1 rb where q: "recv_peek cfg (local_ring ?dl) = Ret (a, h)" "h_msg_len h \<noteq> 0"
    "parser_data_len_get_type ?dl (h_msg_type h) = (SINGLE_PKG, dl1)" "local_ring dl1 = local_ring ?dl"
    "mem_read (rb_area (local_ring ?dl)) (a + 8) (unat (h_msg_len h - 8)) = Ret bs"
    "recv_done (SINGLE_PKG = SINGLE_PKG) a (local_ring ?dl) = Ret rb" "dl' = dl1\<lparr>local_ring := rb\<rparr>"
    by (rule recv_slot_SomeD [OF rs(1) [unfolded h(3,4)]])
  have n: "unat (h_msg_len h - 8) = length bs" using q(5) by (auto simp: mem_read_def seg_def split: if_splits)
  obtain y ctx where al: "ntp_shm_ntpacket_alloc (nc_recv_ring conn) (pkt_size cfg) = Ret (SUCCESS, blk_addr b y, ctx)" "y < n"
    "chan_view n b (c, p) ctx [int y] msgs" by (rule view_alloc [OF v pos])
  let ?lk1 = "recv_counted lk pidx dl1"
  have si: "if length msgs < c - 1
    then \<exists>ring. recv_packet cfg env pidx a h SINGLE_PKG ?lk1 dl1 r conn =
        Ret (0, set_link (set_conn ?lk1 r (conn\<lparr>nc_recv_ring := ring\<rparr>)) pidx dl') \<and>
      chan_view n b (c, p) ring [] (msgs @ [(NTP_DATA, bs)])
    else recv_packet cfg env pidx a h SINGLE_PKG ?lk1 dl1 r conn = Spin"
    using recv_single_view [of n b c p "conn\<lparr>nc_recv_ring := ctx\<rparr>" y msgs "h_msg_len h" bs dl1 a rb env pidx ?lk1 r]
      al n bs q(4-7) env rd by (simp add: recv_packet_def Let_def split: if_splits)
  note run = recv_turn_open [OF rdy h(1,2) q(2,1,3), of env]
  show ?thesis
  proof (cases "length msgs < c - 1")
    case True
    with si obtain ring where r1: "recv_packet cfg env pidx a h SINGLE_PKG ?lk1 dl1 r conn =
        Ret (0, set_link (set_conn ?lk1 r (conn\<lparr>nc_recv_ring := ring\<rparr>)) pidx dl')"
      "chan_view n b (c, p) ring [] (msgs @ [(NTP_DATA, bs)])" by auto
    define lk3 where "lk3 = turn_end pidx ?count (set_link (set_conn ?lk1 r (conn\<lparr>nc_recv_ring := ring\<rparr>)) pidx dl')"
    have "wire_inv cfg (reflect (link_of lk3 pidx) s, link_of lk3 pidx, sent, got @ [wire_pkt sp dp bs])"
      using rd rs(3) wire_inv_sync [OF rs(3), of "snd (trans_data_link_cur_index dl')"]
      by (auto simp: lk3_def turn_end_def trans_data_link_cur_index_def wire_inv.simps)
    moreover have "recv_ready lk3 pidx sp dp r (conn\<lparr>nc_recv_ring := ring\<rparr>) \<lparr>rl_src_port = dp, rl_dst_port = sp, rl_conn = Live r\<rparr>"
      using rd by (simp add: recv_ready_def lk3_def turn_end_def)
    moreover have "lag_ok lk3 pidx" if "lag_ok lk pidx"
      unfolding lk3_def q(7) by (rule lag_step [OF that _ _ _ q(3,6)]) (use rd wire_inv_idx [OF w] w in \<open>auto simp: wire_inv.simps\<close>)
    ultimately show ?thesis using True r1 unfolding run lk3_def by auto
  next
    case False
    with si run show ?thesis by simp
  qed
qed

end
