(* ===== verification/Ntm_Shmring.thy ===== *)
theory Ntm_Shmring
  imports Ctl_Shm Sem_Shmring
begin

unbundle bit_operations_syntax

text \<open>
  The queue through which the applications reach the monitor: \<^verbatim>\<open>ntm_shmring.c\<close> and \<^verbatim>\<open>ntm_shm.c\<close>, of which the
  library and the monitor have their own copies. The monitor creates the ring and takes messages out of it; the
  library opens it and puts messages in. Three semaphores guard it, as in the ring of the epoll
  requests; a wait may be interrupted by a signal, and a wait at zero does not return while nobody moves.
\<close>

section \<open>Data\<close>

abbreviation (input) NTM_MAX_BUFS :: nat where "NTM_MAX_BUFS \<equiv> 8"

record ntm_ring =
  nr_write :: u64
  nr_read :: u64
  nr_buf :: "ntm_msg list"
  nr_MASK :: u64
  nr_mutex :: nat
  nr_buf_count :: nat
  nr_spool :: nat
  nr_addr :: string

section \<open>Push and pop\<close>

text \<open>Both copies of the push, up to the new write index.\<close>

definition ntm_push_with ::
  "(u64 \<Rightarrow> u64) \<Rightarrow> bool \<Rightarrow> bool \<Rightarrow> ntm_ring \<Rightarrow> ntm_msg \<Rightarrow> (bool \<times> ntm_ring) outcome"
where
  "ntm_push_with next_write intr1 intr2 self element =
     bind_out (sem_wait intr1 (nr_buf_count self)) (\<lambda>(r1, bc).
     let s1 = self\<lparr>nr_buf_count := bc\<rparr> in
     if r1 = Interrupted then Ret (False, s1)
     else
       bind_out (sem_wait intr2 (nr_mutex s1)) (\<lambda>(r2, mx).
       let s2 = s1\<lparr>nr_mutex := mx\<rparr> in
       if r2 = Interrupted then Ret (False, s2)
       else
         bind_out (array_get (nr_buf s2) (unat (nr_write s2))) (\<lambda>cell.
         bind_out (ntm_msgcopy element cell) (\<lambda>m.
           Ret (True, s2\<lparr>nr_buf := (nr_buf s2)[unat (nr_write s2) := m], nr_write := next_write (nr_write s2),
                         nr_mutex := nr_mutex s2 + 1, nr_spool := nr_spool s2 + 1\<rparr>)))))"

text \<open>The copy of the library masks the index; the copy of the monitor compares it.\<close>

definition ntm_shmring_push :: "bool \<Rightarrow> bool \<Rightarrow> ntm_ring \<Rightarrow> ntm_msg \<Rightarrow> (bool \<times> ntm_ring) outcome" where
  "ntm_shmring_push intr1 intr2 self = ntm_push_with (\<lambda>w. (w + 1) AND nr_MASK self) intr1 intr2 self"

definition ntm_shmring_push_mon :: "bool \<Rightarrow> bool \<Rightarrow> ntm_ring \<Rightarrow> ntm_msg \<Rightarrow> (bool \<times> ntm_ring) outcome" where
  "ntm_shmring_push_mon =
     ntm_push_with (\<lambda>w. let i = w + 1 in if of_nat NTM_MAX_BUFS \<le> i then i - of_nat NTM_MAX_BUFS else i)"

text \<open>Both copies of the pop, up to the new indices.\<close>

definition ntm_pop_with ::
  "(ntm_ring \<Rightarrow> ntm_ring) \<Rightarrow> bool \<Rightarrow> ntm_ring \<Rightarrow> ntm_msg \<Rightarrow> (bool \<times> ntm_msg \<times> ntm_ring) outcome"
where
  "ntm_pop_with advance intr self element =
     bind_out (sem_wait intr (nr_spool self)) (\<lambda>(r, sp).
     let s1 = self\<lparr>nr_spool := sp\<rparr> in
     if r = Interrupted then Ret (False, element, s1)
     else
       bind_out (array_get (nr_buf s1) (unat (nr_read s1))) (\<lambda>cell.
       bind_out (ntm_msgcopy cell element) (\<lambda>m.
       let s2 = advance s1 in
         Ret (True, m, s2\<lparr>nr_buf_count := nr_buf_count s2 + 1\<rparr>))))"

definition ntm_shmring_pop :: "bool \<Rightarrow> ntm_ring \<Rightarrow> ntm_msg \<Rightarrow> (bool \<times> ntm_msg \<times> ntm_ring) outcome" where
  "ntm_shmring_pop = ntm_pop_with (\<lambda>s. s\<lparr>nr_read := (nr_read s + 1) AND nr_MASK s\<rparr>)"

text \<open>The copy of the library tests the write index where the read index is meant.\<close>

definition ntm_shmring_pop_lib :: "bool \<Rightarrow> ntm_ring \<Rightarrow> ntm_msg \<Rightarrow> (bool \<times> ntm_msg \<times> ntm_ring) outcome" where
  "ntm_shmring_pop_lib =
     ntm_pop_with (\<lambda>s. s\<lparr>nr_read := nr_read s + 1,
       nr_write := (if of_nat NTM_MAX_BUFS \<le> nr_write s then nr_write s - of_nat NTM_MAX_BUFS else nr_write s)\<rparr>)"

section \<open>Construction and destruction\<close>

abbreviation N_MUTEX :: string where "N_MUTEX \<equiv> ''/ntm-sem-mutex''"

abbreviation N_COUNT :: string where "N_COUNT \<equiv> ''/ntm-sem-buf-count''"

abbreviation N_SPOOL :: string where "N_SPOOL \<equiv> ''/ntm-sem-spool-signal''"

abbreviation NTM_SHM_NAME :: string where "NTM_SHM_NAME \<equiv> ''/ntm-shm-ring''"

text \<open>The mapped region: the indices and the messages.\<close>

type_synonym ntm_region = "u64 \<times> u64 \<times> ntm_msg list"

text \<open>
  Both constructors test the semaphore pointers at \<^verbatim>\<open>FAIL\<close>, and neither sets them before: until
  \<^verbatim>\<open>spool_signal_sem\<close> has been assigned, the failure path closes an indeterminate pointer. A
  failure of the last \<^verbatim>\<open>sem_open\<close> or of \<^verbatim>\<open>sem_post\<close> is handled. The mapping is never undone.
\<close>

definition ntm_shmring_init ::
  "ntm_region sem_os \<Rightarrow> string \<Rightarrow> u64 \<Rightarrow> (ntm_ring option \<times> sem_res os_call list) outcome"
where
  "ntm_shmring_init os addr len =
     bind_out (c_assert (0 < len)) (\<lambda>_.
     if \<not> so_handle os then Undef
     else
       let fd = (if so_open os = - 1 then (if so_errno_retry os then so_reopen os else - 1) else so_open os) in
       if fd = - 1 \<or> \<not> so_ftruncate os then Undef
       else
         (case (so_mmap os, so_mutex os, so_buf_count os) of
            (Some (_, _, buf), Some m, Some b) \<Rightarrow>
              let cs = [Acquire S_handle, Acquire (S_name addr), Acquire (S_fd fd), Acquire S_map, Release (S_fd fd),
                        Acquire (S_sem N_MUTEX), Acquire (S_sem N_COUNT)];
                  undo = [Release (S_sem N_COUNT), Release (S_sem_name N_COUNT), Release (S_sem N_MUTEX),
                          Release (S_sem_name N_MUTEX), Release S_handle] in
              (case so_spool os of
                 None \<Rightarrow> Ret (None, cs @ undo)
               | Some sp \<Rightarrow>
                   if \<not> so_post os
                   then Ret (None, cs @ [Acquire (S_sem N_SPOOL), Release (S_sem N_SPOOL), Release (S_sem_name N_SPOOL)] @ undo)
                   else
                     Ret (Some \<lparr>nr_write = 0, nr_read = 0, nr_buf = buf, nr_MASK = of_nat NTM_MAX_BUFS - 1,
                                nr_mutex = m + 1, nr_buf_count = b, nr_spool = sp, nr_addr = addr\<rparr>,
                          cs @ [Acquire (S_sem N_SPOOL)]))
          | _ \<Rightarrow> Undef))"

definition ntm_get_shmring ::
  "ntm_region sem_os \<Rightarrow> string \<Rightarrow> u64 \<Rightarrow> (ntm_ring option \<times> sem_res os_call list) outcome"
where
  "ntm_get_shmring os addr len =
     bind_out (c_assert (0 < len)) (\<lambda>_.
     if \<not> so_handle os \<or> so_open os = - 1 then Undef
     else
       (case (so_mmap os, so_mutex os, so_buf_count os) of
          (Some (w, r, buf), Some m, Some b) \<Rightarrow>
            let cs = [Acquire S_handle, Acquire (S_fd (so_open os)), Acquire S_map, Release (S_fd (so_open os)),
                      Acquire (S_sem N_MUTEX), Acquire (S_sem N_COUNT)] in
            (case so_spool os of
               None \<Rightarrow> Ret (None, cs @ [Release (S_sem N_COUNT), Release (S_sem N_MUTEX), Release S_handle])
             | Some sp \<Rightarrow>
                 Ret (Some \<lparr>nr_write = w, nr_read = r, nr_buf = buf, nr_MASK = of_nat NTM_MAX_BUFS - 1,
                            nr_mutex = m, nr_buf_count = b, nr_spool = sp, nr_addr = addr\<rparr>,
                      cs @ [Acquire (S_sem N_SPOOL)]))
        | _ \<Rightarrow> Undef))"

definition ntm_shmring_free :: "ntm_ring \<Rightarrow> bool \<Rightarrow> sem_res os_call list" where
  "ntm_shmring_free self unlink =
     [Release (S_sem N_MUTEX), Release S_map, Release (S_sem N_COUNT), Release (S_sem N_SPOOL)] @
     (if unlink then [Release (S_sem_name N_MUTEX), Release (S_name (nr_addr self)), Release (S_sem_name N_COUNT),
                      Release (S_sem_name N_SPOOL)] else []) @ [Release S_handle]"

section \<open>Contexts of the library\<close>

record ntm_shm_context =
  nx_stat :: shm_stat4
  nx_handle :: "ntm_ring cptr"
  nx_addr :: "string cptr"
  nx_addrlen :: u64

definition ntm_shm :: "bool \<Rightarrow> ntm_shm_context outcome" where
  "ntm_shm malloc_ok =
     (if malloc_ok then Ret \<lparr>nx_stat = SHM_UNREADY, nx_handle = Wild, nx_addr = Wild, nx_addrlen = 0\<rparr> else Undef)"

definition ntm_shm_attach ::
  "(string \<Rightarrow> u64 \<Rightarrow> (ntm_ring option \<times> sem_res os_call list) outcome) \<Rightarrow> bool \<Rightarrow> ntm_shm_context \<Rightarrow> string \<Rightarrow> u64
     \<Rightarrow> (int \<times> ntm_shm_context) outcome"
where
  "ntm_shm_attach open_ring malloc_ok ctx addr len =
     bind_out (c_assert (0 < len)) (\<lambda>_.
     if \<not> malloc_ok then Undef
     else
       bind_out (memcpy (replicate (unat len) (CHR 0x00)) (addr @ [CHR 0x00]) (unat len)) (\<lambda>a.
       bind_out (open_ring a len) (\<lambda>(ring, _).
         Ret (0, ctx\<lparr>nx_addr := Live a, nx_addrlen := len, nx_stat := SHM_READY,
                      nx_handle := (case ring of None \<Rightarrow> Null | Some r \<Rightarrow> Live r)\<rparr>))))"

definition ntm_shm_accept :: "bool \<Rightarrow> ntm_region sem_os \<Rightarrow> ntm_shm_context \<Rightarrow> string \<Rightarrow> u64 \<Rightarrow> (int \<times> ntm_shm_context) outcome"
where
  "ntm_shm_accept malloc_ok os = ntm_shm_attach (ntm_shmring_init os) malloc_ok"

definition ntm_shm_connect :: "bool \<Rightarrow> ntm_region sem_os \<Rightarrow> ntm_shm_context \<Rightarrow> string \<Rightarrow> u64 \<Rightarrow> (int \<times> ntm_shm_context) outcome"
where
  "ntm_shm_connect malloc_ok os = ntm_shm_attach (ntm_get_shmring os) malloc_ok"

text \<open>\<^verbatim>\<open>assert(self)\<close> in front of the ring operations.\<close>

definition ntm_handle :: "ntm_shm_context \<Rightarrow> ntm_ring outcome" where
  "ntm_handle ctx = (case nx_handle ctx of Live r \<Rightarrow> Ret r | Null \<Rightarrow> Abort | _ \<Rightarrow> Undef)"

definition ntm_shm_send :: "bool \<Rightarrow> bool \<Rightarrow> ntm_shm_context \<Rightarrow> ntm_msg \<Rightarrow> (int \<times> ntm_shm_context) outcome" where
  "ntm_shm_send intr1 intr2 ctx buf =
     bind_out (ntm_handle ctx) (\<lambda>r.
     bind_out (ntm_shmring_push intr1 intr2 r buf) (\<lambda>(ok, r').
       Ret (if ok then 0 else - 1, ctx\<lparr>nx_handle := Live r'\<rparr>)))"

definition ntm_shm_recv :: "bool \<Rightarrow> ntm_shm_context \<Rightarrow> ntm_msg \<Rightarrow> (int \<times> ntm_msg \<times> ntm_shm_context) outcome" where
  "ntm_shm_recv intr ctx buf =
     bind_out (ntm_handle ctx) (\<lambda>r.
     bind_out (ntm_shmring_pop_lib intr r buf) (\<lambda>(ok, m, r').
       Ret (if ok then 0 else - 1, m, ctx\<lparr>nx_handle := Live r'\<rparr>)))"

text \<open>
  \<^verbatim>\<open>ntm_shm_close\<close> and \<^verbatim>\<open>ntm_shm_nts_close\<close>: the handle stays behind freed, and after \<^verbatim>\<open>ntm_shm_close\<close> the
  name too.
\<close>

definition ntm_shm_shut :: "bool \<Rightarrow> ntm_shm_context \<Rightarrow> (int \<times> ntm_shm_context \<times> sem_res os_call list) outcome" where
  "ntm_shm_shut unlink ctx =
     bind_out
       (case nx_handle ctx of
          Live r \<Rightarrow> Ret (Dangling, ntm_shmring_free r unlink) | Null \<Rightarrow> Ret (Null, []) | _ \<Rightarrow> Undef) (\<lambda>(h, cs).
     bind_out
       (case nx_addr ctx of
          Live a \<Rightarrow> Ret (if unlink then Dangling else Null) | Null \<Rightarrow> Ret Null | _ \<Rightarrow> Undef) (\<lambda>a.
       Ret (0, ctx\<lparr>nx_handle := h, nx_addr := a, nx_stat := (if unlink then SHM_UNLINK else SHM_CLOSE)\<rparr>, cs)))"

definition ntm_shm_close :: "ntm_shm_context \<Rightarrow> (int \<times> ntm_shm_context \<times> sem_res os_call list) outcome" where
  "ntm_shm_close = ntm_shm_shut True"

definition ntm_shm_nts_close :: "ntm_shm_context \<Rightarrow> (int \<times> ntm_shm_context \<times> sem_res os_call list) outcome" where
  "ntm_shm_nts_close = ntm_shm_shut False"

definition ntm_shm_destroy :: "ntm_shm_context \<Rightarrow> mr_res os_call list" where
  "ntm_shm_destroy ctx = [Release M_ctx]"

section \<open>The ring is a queue\<close>

definition ntm_ring_inv :: "ntm_ring \<Rightarrow> bool" where
  "ntm_ring_inv s \<longleftrightarrow>
     nr_MASK s = mask 3 \<and> length (nr_buf s) = 8 \<and> (\<forall>m \<in> set (nr_buf s). ntm_shape m) \<and> unat (nr_read s) < 8 \<and>
     nr_spool s \<le> 8 \<and> unat (nr_write s) = (unat (nr_read s) + nr_spool s) mod 8 \<and> nr_buf_count s = 8 - nr_spool s \<and>
     nr_mutex s = 1 \<and> (\<forall>b \<in> set (ring_cells 8 (unat (nr_read s)) (nr_spool s) (\<lambda>i. ntm_good (nr_buf s ! i))). b)"

definition ntm_contents :: "ntm_ring \<Rightarrow> ntm_msg list" where
  "ntm_contents s = ring_cells 8 (unat (nr_read s)) (nr_spool s) (\<lambda>i. ntm_view (nr_buf s ! i))"

lemma mask_step:
  fixes i :: u64
  assumes "unat i < 8"
  shows "unat ((i + 1) AND mask 3) = Suc (unat i) mod 8"
  using unat_mask_increment [of i 3] assms by (simp add: mask_increment_def)

lemma ntm_push_room:
  assumes inv: "ntm_ring_inv s" and m: "ntm_good m" and room: "nr_spool s < 8"
  shows "\<exists>s'. ntm_shmring_push False False s m = Ret (True, s') \<and> ntm_ring_inv s' \<and>
     ntm_contents s' = ntm_contents s @ [ntm_view m]"
proof -
  let ?w = "unat (nr_write s)" and ?r = "unat (nr_read s)" and ?n = "nr_spool s"
  have i: "?w < 8" "?r < 8" "length (nr_buf s) = 8" "?w = (?r + ?n) mod 8" "nr_MASK s = mask 3" "nr_buf_count s = 8 - ?n"
    "nr_mutex s = 1" "ntm_shape (nr_buf s ! ?w)"
    using inv by (auto simp: ntm_ring_inv_def)
  from ntm_msgcopy_ok [OF m i(8)] obtain m' where m': "ntm_msgcopy m (nr_buf s ! ?w) = Ret m'" "ntm_view m' = ntm_view m"
    "ntm_good m'" "ntm_shape m'" by blast
  define s' where "s' = s\<lparr>nr_buf_count := 8 - ?n - 1, nr_buf := (nr_buf s)[?w := m'],
     nr_write := (nr_write s + 1) AND mask 3, nr_spool := Suc ?n\<rparr>"
  have uw: "unat ((nr_write s + 1) AND mask 3) = (?r + Suc ?n) mod 8"
    using mask_step [OF i(1)] i(4) by (simp add: mod_simps)
  have upd: "ring_cells 8 ?r (Suc ?n) (\<lambda>j. g ((nr_buf s)[?w := m'] ! j)) = ring_cells 8 ?r ?n (\<lambda>j. g (nr_buf s ! j)) @ [g m']"
    for g :: "ntm_msg \<Rightarrow> 'x"
  proof -
    have "ring_cells 8 ?r (Suc ?n) (\<lambda>j. g ((nr_buf s)[?w := m'] ! j)) =
        ring_cells 8 ?r (Suc ?n) ((\<lambda>j. g (nr_buf s ! j))(?w := g m'))"
      using i by (intro ring_cells_cong) (auto simp: nth_list_update)
    also have "\<dots> = ring_cells 8 ?r ?n (\<lambda>j. g (nr_buf s ! j)) @ [g m']" by (rule ring_cells_push) (use i room in auto)
    finally show ?thesis .
  qed
  have "ntm_shmring_push False False s m = Ret (True, s')"
    using i room m'(1) by (simp add: ntm_shmring_push_def ntm_push_with_def sem_wait_def Let_def s'_def)
  moreover have "ntm_ring_inv s'"
    using inv i room uw m'(3,4) upd [of ntm_good]
    by (auto simp: ntm_ring_inv_def s'_def dest!: subsetD [OF set_update_subset_insert])
  moreover have "ntm_contents s' = ntm_contents s @ [ntm_view m]"
    using upd [of ntm_view] m'(2) by (simp add: ntm_contents_def s'_def)
  ultimately show ?thesis by blast
qed

lemma ntm_pop_some:
  assumes inv: "ntm_ring_inv s" and c: "ntm_contents s = v # vs" and b: "ntm_shape buf"
  shows "\<exists>m s'. ntm_shmring_pop False s buf = Ret (True, m, s') \<and> ntm_view m = v \<and> ntm_ring_inv s' \<and> ntm_contents s' = vs"
proof -
  let ?r = "unat (nr_read s)"
  from c have "nr_spool s = Suc (length vs)" by (metis length_Cons length_ring_cells ntm_contents_def)
  then obtain n where n: "nr_spool s = Suc n" by simp
  have i: "?r < 8" "length (nr_buf s) = 8" "nr_MASK s = mask 3" "nr_buf_count s = 8 - Suc n" "Suc n \<le> 8"
    using inv n by (auto simp: ntm_ring_inv_def)
  note ur = mask_step [OF i(1)]
  have cells: "ring_cells 8 ?r (Suc n) (\<lambda>j. g (nr_buf s ! j)) =
      g (nr_buf s ! ?r) # ring_cells 8 (Suc ?r mod 8) n (\<lambda>j. g (nr_buf s ! j))" for g :: "ntm_msg \<Rightarrow> 'x"
    by (rule ring_cells_pop) (rule i)
  have g: "ntm_good (nr_buf s ! ?r)" using inv cells [of ntm_good] n by (auto simp: ntm_ring_inv_def)
  from ntm_msgcopy_ok [OF g b] obtain m where m: "ntm_msgcopy (nr_buf s ! ?r) buf = Ret m"
    "ntm_view m = ntm_view (nr_buf s ! ?r)" by blast
  define s' where "s' = s\<lparr>nr_spool := n, nr_read := (nr_read s + 1) AND mask 3, nr_buf_count := Suc (nr_buf_count s)\<rparr>"
  have "ntm_shmring_pop False s buf = Ret (True, m, s')"
    using i n m(1) by (simp add: ntm_shmring_pop_def ntm_pop_with_def sem_wait_def Let_def s'_def)
  moreover have "ntm_ring_inv s'"
    using inv i n ur cells [of ntm_good] by (auto simp: ntm_ring_inv_def s'_def mod_simps)
  moreover have "ntm_view m = v" "ntm_contents s' = vs"
    using c m(2) n ur cells [of ntm_view] by (simp_all add: ntm_contents_def s'_def)
  ultimately show ?thesis by blast
qed

text \<open>A blocked attempt, seen from outside, is one that has not taken effect.\<close>

definition ntm_put :: "ntm_ring \<Rightarrow> ntm_msg \<Rightarrow> (bool \<times> ntm_ring) outcome" where
  "ntm_put s m = (case ntm_shmring_push False False s m of Spin \<Rightarrow> Ret (False, s) | r \<Rightarrow> r)"

definition ntm_take :: "ntm_msg \<Rightarrow> ntm_ring \<Rightarrow> (ntm_msg option \<times> ntm_ring) outcome" where
  "ntm_take buf s =
     (case ntm_shmring_pop False s buf of
        Spin \<Rightarrow> Ret (None, s)
      | r \<Rightarrow> bind_out r (\<lambda>(ok, m, s'). Ret (if ok then Some (ntm_view m) else None, s')))"

definition ntm_blank :: ntm_msg where
  "ntm_blank = \<lparr>nm_msg_id = 0, nm_msg_type = 0, nm_sockid = 0, nm_howto = 0, nm_backlog = 0, nm_req_client_sockaddr = 0,
     nm_domain = 0, nm_sock_type = 0, nm_io_queue_size = 0, nm_protocol = 0, nm_nts_shm_addrlen = 0, nm_addrlen = 0,
     nm_port = 0, nm_epid = 0, nm_epoll_op = 0, nm_events = 0, nm_ep_data = 0, nm_address = replicate 16 0,
     nm_nts_shm_name = replicate 64 0\<rparr>"

lemma ntm_blank_shape [simp]: "ntm_shape ntm_blank"
  by (simp add: ntm_blank_def ntm_shape_def)

interpretation lm: viewed_fifo ntm_put "ntm_take ntm_blank" ntm_contents ntm_ring_inv "\<lambda>s. NTM_MAX_BUFS" "\<lambda>s. ntm_good" ntm_view
proof unfold_locales
  fix s m
  assume *: "ntm_ring_inv s" "ntm_good m" "length (ntm_contents s) < NTM_MAX_BUFS"
  then have "nr_spool s < 8" by (simp add: ntm_contents_def)
  from ntm_push_room [OF *(1,2) this] show "\<exists>s'. ntm_put s m = Ret (True, s') \<and> ntm_ring_inv s' \<and>
      ntm_contents s' = ntm_contents s @ [ntm_view m] \<and> NTM_MAX_BUFS = NTM_MAX_BUFS \<and> ntm_good = ntm_good"
    by (auto simp: ntm_put_def)
next
  fix s m
  assume "ntm_ring_inv s" "length (ntm_contents s) = NTM_MAX_BUFS"
  then have "nr_buf_count s = 0" by (simp add: ntm_ring_inv_def ntm_contents_def)
  then show "ntm_put s m = Ret (False, s)" by (simp add: ntm_put_def ntm_shmring_push_def ntm_push_with_def sem_wait_def)
next
  fix s v vs
  assume "ntm_ring_inv s" "ntm_contents s = v # vs"
  from ntm_pop_some [OF this ntm_blank_shape] show "\<exists>s'. ntm_take ntm_blank s = Ret (Some v, s') \<and> ntm_ring_inv s' \<and>
      ntm_contents s' = vs \<and> NTM_MAX_BUFS = NTM_MAX_BUFS \<and> ntm_good = ntm_good"
    by (auto simp: ntm_take_def)
next
  fix s
  assume "ntm_ring_inv s" "ntm_contents s = []"
  then have "nr_spool s = 0" by (metis length_ring_cells list.size(3) ntm_contents_def)
  then show "ntm_take ntm_blank s = Ret (None, s)" by (simp add: ntm_take_def ntm_shmring_pop_def ntm_pop_with_def sem_wait_def)
qed (simp add: ntm_ring_inv_def ntm_contents_def)

section \<open>Properties\<close>

definition demo_ntm :: ntm_ring where
  "demo_ntm = \<lparr>nr_write = 0, nr_read = 0, nr_buf = replicate 8 ntm_blank, nr_MASK = 7, nr_mutex = 1, nr_buf_count = 8,
     nr_spool = 0, nr_addr = []\<rparr>"

definition demo_fin :: "int \<Rightarrow> ntm_msg" where
  "demo_fin k = ntm_blank\<lparr>nm_msg_type := 512, nm_sockid := k\<rparr>"

lemma demo_ntm_ok: "ntm_ring_inv demo_ntm" "ntm_good (demo_fin k)"
  by (simp_all add: ntm_ring_inv_def demo_ntm_def mask_eq_exp_minus_1 demo_fin_def ntm_good_def ntm_kind_def belongs_def
      ntm_blank_def ntm_shape_def)

text \<open>
  C28: what the library pushes reaches the monitor in order, each message with the fields of its type, for
  every interleaving of attempts; all eight slots are used, and while no more than eight messages
  are waiting nothing is refused.
\<close>

theorem ntm_channel_fifo:
  assumes "ntm_ring_inv s" "\<forall>m \<in> set (pushes ops). ntm_good m"
  shows "\<exists>acc out s'. fifo_run ntm_put (ntm_take ntm_blank) s ops = Ret (acc, out, s') \<and> ntm_ring_inv s' \<and>
     ntm_contents s @ map ntm_view acc = out @ ntm_contents s' \<and>
     (length (ntm_contents s) + length (pushes ops) \<le> 8 \<longrightarrow> acc = pushes ops)"
  using lm.fifo_order [OF assms] lm.fifo_accepts [OF assms] by fastforce

theorem ntm_channel_fifo_witness:
  "\<exists>acc out s'. fifo_run ntm_put (ntm_take ntm_blank) demo_ntm [Push (demo_fin 3), Push (demo_fin 4), Pop] = Ret (acc, out, s') \<and>
     ntm_ring_inv s' \<and> ntm_contents demo_ntm @ map ntm_view acc = out @ ntm_contents s' \<and> acc = [demo_fin 3, demo_fin 4]"
proof -
  let ?ops = "[Push (demo_fin 3), Push (demo_fin 4), Pop]"
  have "\<forall>m \<in> set (pushes ?ops). ntm_good m" by (simp add: demo_ntm_ok)
  moreover have "length (ntm_contents demo_ntm) + length (pushes ?ops) \<le> 8" by (simp add: ntm_contents_def demo_ntm_def)
  ultimately show ?thesis using ntm_channel_fifo [OF demo_ntm_ok(1), of ?ops] by simp
qed

text \<open>
  The two copies of the push are the same function on a ring of the agreed size, although one masks the
  index and the other compares it.
\<close>

theorem ntm_push_copies_agree:
  assumes "ntm_ring_inv s"
  shows "ntm_shmring_push_mon intr1 intr2 s m = ntm_shmring_push intr1 intr2 s m"
proof -
  have w: "unat (nr_write s) < 8" "nr_MASK s = mask 3" using assms by (auto simp: ntm_ring_inv_def)
  have "(let i = nr_write s + 1 in if 8 \<le> i then i - 8 else i) = (nr_write s + 1) AND nr_MASK s" (is "?l = ?r")
  proof -
    have u: "unat (nr_write s + 1) = Suc (unat (nr_write s))" using w(1) by (simp add: unat_word_ariths)
    have "unat ?l = Suc (unat (nr_write s)) mod 8"
      using w(1) u by (auto simp: Let_def word_le_nat_alt unat_sub mod_Suc)
    also have "\<dots> = unat ?r" using mask_step [OF w(1)] w(2) by simp
    finally show ?thesis by (simp add: word_eq_iff_unat)
  qed
  then show ?thesis by (simp add: ntm_shmring_push_mon_def ntm_shmring_push_def ntm_push_with_def Let_def cong: if_cong)
qed

theorem ntm_push_copies_agree_witness:
  "ntm_shmring_push_mon False False demo_ntm (demo_fin 3) = ntm_shmring_push False False demo_ntm (demo_fin 3)"
  by (rule ntm_push_copies_agree [OF demo_ntm_ok(1)])

end
