(* ===== verification/Nts_Sock.thy ===== *)
theory Nts_Sock
  imports Chan_View Ntm_Shmring
begin

text \<open>
  The data path of the socket library, \<^verbatim>\<open>nts_write\<close> and \<^verbatim>\<open>nts_read\<close> of \<^verbatim>\<open>libnts/src/nts_api.c\<close>. A write cuts its buffer
  into messages and puts each into a block of the send channel; a read takes messages out of the receive
  channel and keeps what does not fit into the buffer of the caller in a cache of the socket. Sockets are
  objects of a heap, found by their number in a hash map.
\<close>

section \<open>Data\<close>

datatype socket_state =
  CLOSED | BOUND | LISTENING | WAIT_CLIENT | WAIT_DISPATCH | WAIT_SERVER | ESTABLISHED | WAIT_FIN

record nts_config =
  mtu_size :: u16
  max_payloadsize :: u16

text \<open>The fields of \<^verbatim>\<open>nt_sock_context\<close> that the data path uses.\<close>

record nt_sock_context =
  so_state :: socket_state
  sk_send :: "ntp_shm_context cptr"
  sk_recv :: "ntp_shm_context cptr"
  sk_buf :: "byte list"
  sk_buflen :: int

record 'a nts_context =
  nx_sock_map :: "(key, nat) hashMap"
  nx_socks :: "nat \<Rightarrow> 'a nt_sock_context_scheme option"
  nx_ntm :: ntm_shm_context

text \<open>\<^verbatim>\<open>Get(nts_ctx->nt_sock_map, &sockid)\<close> and the object behind the pointer.\<close>

definition find_sock :: "('a, 'b) nts_context_scheme \<Rightarrow> int \<Rightarrow> (nat \<times> 'a nt_sock_context_scheme) option outcome" where
  "find_sock nts sockid =
     bind_out (map_get (nx_sock_map nts) (word_of_int sockid)) (\<lambda>r.
     case r of
       None \<Rightarrow> Ret None
     | Some x \<Rightarrow> (case nx_socks nts x of None \<Rightarrow> Undef | Some sk \<Rightarrow> Ret (Some (x, sk))))"

abbreviation put_sock :: "('a, 'b) nts_context_scheme \<Rightarrow> nat \<Rightarrow> 'a nt_sock_context_scheme \<Rightarrow> ('a, 'b) nts_context_scheme" where
  "put_sock nts r sk \<equiv> nts\<lparr>nx_socks := (nx_socks nts)(r := Some sk)\<rparr>"

section \<open>Writing\<close>

text \<open>One message: a block, its header and payload, and its index in the ring.\<close>

definition nts_post :: "nts_config \<Rightarrow> nat list \<Rightarrow> ntp_shm_context \<Rightarrow> byte list \<Rightarrow> ntp_shm_context outcome" where
  "nts_post cfg env ctx bs =
     bind_out (ntp_shm_ntpacket_alloc ctx (unat (mtu_size cfg))) (\<lambda>(rc, off, ctx1).
     bind_out (c_assert (rc = 0)) (\<lambda>_.
     bind_out (fill_block ctx1 off NTP_DATA (of_nat (length bs))) (\<lambda>ctx2.
     bind_out (write_block ctx2 off 8 bs) (\<lambda>ctx3.
     bind_out (ntp_shm_send env ctx3 off) (\<lambda>(rc', ctx4).
     bind_out (c_assert (rc' = 0)) (\<lambda>_. Ret ctx4))))))"

text \<open>
  The loop over the messages after the first one. \<open>envs\<close> says for each message how the proxy empties the
  ring while the send waits. The bytes written never exceed \<open>n\<close>, so the difference does not wrap.
\<close>

function write_rest ::
  "nts_config \<Rightarrow> nat list list \<Rightarrow> ntp_shm_context \<Rightarrow> byte list \<Rightarrow> nat \<Rightarrow> nat \<Rightarrow> (nat \<times> ntp_shm_context) outcome"
where
  "write_rest cfg envs ctx buf n w =
     (let k = (if n - w \<le> unat (max_payloadsize cfg) then n - w else unat (max_payloadsize cfg)) in
      if k = 0 then Ret (w, ctx)
      else
        bind_out (mem_read buf w k) (\<lambda>bs.
        bind_out (nts_post cfg (if envs = [] then [] else hd envs) ctx bs) (\<lambda>ctx'.
          write_rest cfg (tl envs) ctx' buf n (w + k))))"
  by pat_completeness auto
termination
  by (relation "measure (\<lambda>(cfg, envs, ctx, buf, n, w). n - w)") (auto split: if_splits)

declare write_rest.simps [simp del]

definition sock_write ::
  "nts_config \<Rightarrow> nat list list \<Rightarrow> 'a nt_sock_context_scheme \<Rightarrow> byte list \<Rightarrow> nat \<Rightarrow> (nat \<times> 'a nt_sock_context_scheme) outcome"
where
  "sock_write cfg envs sk buf n =
     bind_out (deref (sk_send sk)) (\<lambda>ctx.
     let k = (if n < unat (max_payloadsize cfg) then n else unat (max_payloadsize cfg)) in
     bind_out (mem_read buf 0 k) (\<lambda>bs.
     bind_out (nts_post cfg (if envs = [] then [] else hd envs) ctx bs) (\<lambda>ctx1.
     bind_out (write_rest cfg (tl envs) ctx1 buf n k) (\<lambda>(w, ctx2). Ret (w, sk\<lparr>sk_send := Live ctx2\<rparr>)))))"

text \<open>
  A socket that is not established leads to \<^verbatim>\<open>FAIL\<close> before \<^verbatim>\<open>write_bytes\<close> has a value; \<open>junk\<close> is what it holds.
\<close>

definition nts_write ::
  "nts_config \<Rightarrow> nat list list \<Rightarrow> nat \<Rightarrow> ('a, 'b) nts_context_scheme \<Rightarrow> int \<Rightarrow> byte list \<Rightarrow> nat \<Rightarrow> (int \<times> ('a, 'b) nts_context_scheme) outcome"
where
  "nts_write cfg envs junk nts sockid buf n =
     bind_out (c_assert (0 \<le> sockid)) (\<lambda>_.
     bind_out (c_assert (0 < n)) (\<lambda>_.
     bind_out (find_sock nts sockid) (\<lambda>s.
     case s of
       None \<Rightarrow> Ret (- 1, nts)
     | Some (r, sk) \<Rightarrow>
         if so_state sk \<noteq> ESTABLISHED then Ret (if 0 < junk then int junk else - 1, nts)
         else bind_out (sock_write cfg envs sk buf n) (\<lambda>(w, sk'). Ret (int w, put_sock nts r sk')))))"

section \<open>Reading\<close>

text \<open>
  The loop around \<^verbatim>\<open>ntp_shm_front\<close>. \<open>env\<close> is the channel as the next looks find it after the proxy has worked
  on it.
\<close>

fun front_wait :: "ntp_shm_context list \<Rightarrow> ntp_shm_context \<Rightarrow> (u64 \<times> ntp_shm_context) outcome" where
  "front_wait [] ctx = bind_out (ntp_shm_front ctx) (\<lambda>(rc, m). case m of None \<Rightarrow> Spin | Some off \<Rightarrow> Ret (off, ctx))"
| "front_wait (c # env) ctx =
     bind_out (ntp_shm_front ctx) (\<lambda>(rc, m). case m of None \<Rightarrow> front_wait env c | Some off \<Rightarrow> Ret (off, ctx))"

text \<open>The message at the front, which stays in the ring; nothing when it is the last one of the peer.\<close>

definition peek_msg ::
  "ntp_shm_context list \<Rightarrow> ntp_shm_context \<Rightarrow> (u64 option \<times> ntp_shm_context) outcome"
where
  "peek_msg env ctx =
     bind_out (front_wait env ctx) (\<lambda>(off, ctx1).
     bind_out (read_block ctx1 off) (\<lambda>msg.
       Ret (if h_msg_type (header msg) = NTP_FIN then None else Some off, ctx1)))"

text \<open>The message is taken out; \<^verbatim>\<open>ntp_shm_recv\<close> is only called when that fails.\<close>

definition take_msg :: "u64 \<Rightarrow> ntp_shm_context \<Rightarrow> (u64 \<times> ntpacket \<times> ntp_shm_context) outcome" where
  "take_msg off ctx =
     bind_out (ntp_shm_pop ctx) (\<lambda>(rc, ctx1).
     bind_out (if rc = 0 then Ret (off, ctx1)
               else bind_out (ntp_shm_recv [] ctx1) (\<lambda>(_, m, ctx2). Ret (case m of None \<Rightarrow> off | Some x \<Rightarrow> x, ctx2)))
       (\<lambda>(off', ctx3).
     bind_out (read_block ctx3 off') (\<lambda>msg. Ret (off', msg, ctx3))))"

text \<open>A copy of \<open>k\<close> bytes; the count is an \<^verbatim>\<open>int\<close>.\<close>

definition copy_out :: "byte list \<Rightarrow> int \<Rightarrow> byte list outcome" where
  "copy_out pl k = (if 0 \<le> k then mem_read pl 0 (nat k) else Undef)"

text \<open>
  What remains of the payload goes to the front of the cache. From the cache itself that is a \<^verbatim>\<open>memcpy\<close> within
  one array, which is undefined when the two ranges meet.
\<close>

definition keep_rest :: "bool \<Rightarrow> byte list \<Rightarrow> int \<Rightarrow> int \<Rightarrow> 'a nt_sock_context_scheme \<Rightarrow> 'a nt_sock_context_scheme outcome" where
  "keep_rest cached pl k left sk =
     (if cached \<and> k < left then Undef
      else
        bind_out (mem_read pl (nat k) (nat left)) (\<lambda>rest.
        bind_out (memcpy (sk_buf sk) rest (nat left)) (\<lambda>buf. Ret (sk\<lparr>sk_buf := buf, sk_buflen := left\<rparr>))))"

definition drop_block :: "u64 option \<Rightarrow> ntp_shm_context \<Rightarrow> ntp_shm_context outcome" where
  "drop_block m ctx = (case m of None \<Rightarrow> Undef | Some off \<Rightarrow> ntp_shm_ntpacket_free ctx off)"

text \<open>
  The loop: \<open>m\<close> is \<^verbatim>\<open>incoming_data\<close>, without a value when the call started from the cache; \<open>pl\<close> are the bytes from
  \<^verbatim>\<open>payload\<close> on. The result is what was copied to the caller, or nothing when the
  message that closes the connection was met.
\<close>

function read_loop ::
  "nts_config \<Rightarrow> ntp_shm_context list list \<Rightarrow> 'a nt_sock_context_scheme \<Rightarrow> ntp_shm_context \<Rightarrow> int \<Rightarrow> int \<Rightarrow> bool \<Rightarrow> u64 option
     \<Rightarrow> byte list \<Rightarrow> byte list \<Rightarrow> (byte list option \<times> 'a nt_sock_context_scheme \<times> ntp_shm_context) outcome"
where
  "read_loop cfg envs sk ctx avail left cached m pl out =
     (if left \<le> 0 then Ret (Some out, sk, ctx)
      else if left < uint (max_payloadsize cfg) then
        (if left \<le> avail then
           bind_out (copy_out pl left) (\<lambda>bs.
           if cached then Ret (Some (out @ bs), sk\<lparr>sk_buflen := 0\<rparr>, ctx)
           else bind_out (drop_block m ctx) (\<lambda>ctx'. Ret (Some (out @ bs), sk, ctx')))
         else
           bind_out (copy_out pl avail) (\<lambda>bs.
           bind_out (keep_rest cached pl avail (left - avail) sk) (\<lambda>sk'.
           if cached then Ret (Some (out @ bs), sk', ctx)
           else bind_out (drop_block m ctx) (\<lambda>ctx'. Ret (Some (out @ bs), sk', ctx')))))
      else if avail \<le> left then
        bind_out (copy_out pl avail) (\<lambda>bs.
        bind_out (if avail = left then Ret (if cached then sk\<lparr>sk_buflen := 0\<rparr> else sk)
                  else keep_rest cached pl avail (left - avail) sk) (\<lambda>sk'.
        bind_out (drop_block m ctx) (\<lambda>ctx'. Ret (Some (out @ bs), sk', ctx'))))
      else
        bind_out (copy_out pl left) (\<lambda>bs.
        bind_out (drop_block m ctx) (\<lambda>ctx1.
        bind_out (peek_msg (if envs = [] then [] else hd envs) ctx1) (\<lambda>(nx, ctx2).
        case nx of
          None \<Rightarrow> Ret (None, sk, ctx2)
        | Some off \<Rightarrow>
            if sk_buflen sk \<le> 0 then
              bind_out (take_msg off ctx2) (\<lambda>(off', msg, ctx3).
                read_loop cfg (tl envs) sk ctx3 (avail - left) (uint (h_msg_len (header msg))) cached (Some off')
                  (payload msg) (out @ bs))
            else
              read_loop cfg (tl envs) sk ctx2 (avail - left) (sk_buflen sk) True (Some off) (sk_buf sk) (out @ bs)))))"
  by pat_completeness auto
termination
  by (relation "measure (\<lambda>(cfg, envs, sk, ctx, avail, left, cached, m, pl, out). nat avail)") auto

declare read_loop.simps [simp del]

section \<open>The end of a connection\<close>

text \<open>Closing and destroying one of the channels; the pointer stays.\<close>

definition end_channel :: "ntp_shm_context cptr \<Rightarrow> (ntp_shm_context cptr \<times> chan_res os_call list) outcome" where
  "end_channel p =
     (case p of
        Null \<Rightarrow> Ret (Null, [])
      | Live ctx \<Rightarrow> (case ntp_shm_close ctx of (_, ctx', cs) \<Rightarrow> Ret (Dangling, cs @ ntp_shm_destroy ctx'))
      | _ \<Rightarrow> Undef)"

text \<open>\<open>junk\<close> is the memory of the message on the stack, of which two fields are assigned.\<close>

definition handle_ntp_fin_msg ::
  "bool \<Rightarrow> bool \<Rightarrow> ntm_msg \<Rightarrow> 'a nt_sock_context_scheme \<Rightarrow> int \<Rightarrow> ntm_shm_context \<Rightarrow> (int \<times> 'a nt_sock_context_scheme \<times> ntm_shm_context) outcome"
where
  "handle_ntp_fin_msg intr1 intr2 junk sk sockid ntm =
     bind_out (ntm_shm_send intr1 intr2 ntm (junk\<lparr>nm_msg_type := 2 ^ NTM_MSG_FIN, nm_sockid := sockid\<rparr>)) (\<lambda>(rc, ntm').
     if rc = - 1 then Ret (- 1, sk\<lparr>so_state := WAIT_FIN\<rparr>, ntm')
     else
       bind_out (end_channel (sk_send sk)) (\<lambda>(s, _).
       bind_out (end_channel (sk_recv sk)) (\<lambda>(r, _).
         Ret (0, sk\<lparr>so_state := CLOSED, sk_send := s, sk_recv := r\<rparr>, ntm'))))"

section \<open>The call\<close>

text \<open>What happens around a read: the looks at the channel, and what the end of a connection needs.\<close>

record read_env =
  rv_front :: "ntp_shm_context list"
  rv_next :: "ntp_shm_context list list"
  rv_intr1 :: bool
  rv_intr2 :: bool
  rv_junk :: ntm_msg

text \<open>The part on the socket: what was copied, nothing when the connection has ended.\<close>

definition sock_read ::
  "nts_config \<Rightarrow> read_env \<Rightarrow> 'a nt_sock_context_scheme \<Rightarrow> nat \<Rightarrow> (byte list option \<times> 'a nt_sock_context_scheme) outcome"
where
  "sock_read cfg env sk n =
     bind_out (deref (sk_recv sk)) (\<lambda>ctx.
     let avail = sint (of_nat n :: u32) in
     bind_out
       (if sk_buflen sk \<le> 0 then
          bind_out (peek_msg (rv_front env) ctx) (\<lambda>(m, ctx1).
          case m of
            None \<Rightarrow> Ret (None, sk, ctx1)
          | Some off \<Rightarrow>
              bind_out (take_msg off ctx1) (\<lambda>(off', msg, ctx2).
                read_loop cfg (rv_next env) sk ctx2 avail (uint (h_msg_len (header msg))) False (Some off') (payload msg) []))
        else read_loop cfg (rv_next env) sk ctx avail (sk_buflen sk) True None (sk_buf sk) [])
       (\<lambda>(out, sk', ctx'). Ret (out, sk'\<lparr>sk_recv := Live ctx'\<rparr>)))"

definition nts_read ::
  "nts_config \<Rightarrow> read_env \<Rightarrow> ('a, 'b) nts_context_scheme \<Rightarrow> int \<Rightarrow> nat \<Rightarrow> (int \<times> byte list \<times> ('a, 'b) nts_context_scheme) outcome"
where
  "nts_read cfg env nts sockid n =
     bind_out (c_assert (0 \<le> sockid)) (\<lambda>_.
     bind_out (c_assert (0 < n)) (\<lambda>_.
     bind_out (find_sock nts sockid) (\<lambda>s.
     case s of
       None \<Rightarrow> Ret (- 1, [], nts)
     | Some (r, sk) \<Rightarrow>
         if so_state sk \<noteq> ESTABLISHED then Ret (- 1, [], nts)
         else
           bind_out (sock_read cfg env sk n) (\<lambda>(out, sk').
           case out of
             Some bs \<Rightarrow> Ret (int (length bs), bs, put_sock nts r sk')
           | None \<Rightarrow>
               bind_out (handle_ntp_fin_msg (rv_intr1 env) (rv_intr2 env) (rv_junk env) sk' sockid (nx_ntm nts))
                 (\<lambda>(_, sk'', ntm). Ret (- 1, [], (put_sock nts r sk'')\<lparr>nx_ntm := ntm\<rparr>))))))"

section \<open>Messages of a write\<close>

fun chunk :: "nat \<Rightarrow> 'a list \<Rightarrow> 'a list list" where
  "chunk k xs = (if k = 0 \<or> xs = [] then [] else take k xs # chunk k (drop k xs))"

declare chunk.simps [simp del]

lemma chunk_Nil [simp]: "chunk k [] = []"
  by (simp add: chunk.simps)

lemma concat_chunk: "0 < k \<Longrightarrow> concat (chunk k xs) = xs"
proof (induction k xs rule: chunk.induct)
  case (1 k xs)
  then show ?case by (subst chunk.simps) auto
qed

lemma chunk_length: "m \<in> set (chunk k xs) \<Longrightarrow> 0 < length m \<and> length m \<le> k"
proof (induction k xs rule: chunk.induct)
  case (1 k xs)
  then show ?case by (cases "k = 0 \<or> xs = []") (auto simp: chunk.simps [of k xs])
qed

text \<open>The library and the channel agree on the size of a block.\<close>

definition sock_cfg :: "nts_config \<Rightarrow> nat \<Rightarrow> bool" where
  "sock_cfg cfg b \<longleftrightarrow> 0 < mtu_size cfg \<and> 0 < max_payloadsize cfg \<and> 8 + unat (max_payloadsize cfg) \<le> b"

lemma sock_cfg_pos: "sock_cfg cfg b \<Longrightarrow> 0 < unat (max_payloadsize cfg)" "sock_cfg cfg b \<Longrightarrow> 0 < unat (mtu_size cfg)"
  by (auto simp: sock_cfg_def word_gt_0 unat_gt_0)

lemma max_payload_16: "unat (max_payloadsize cfg) < 2 ^ 16"
  using unsigned_less [of "max_payloadsize cfg", where ?'a = nat] by simp

lemma post_room:
  assumes cfg: "sock_cfg cfg b" and v: "chan_view n b (c, p) ctx [] msgs" and room: "length msgs < c - 1"
    and bs: "length bs \<le> unat (max_payloadsize cfg)"
  obtains ctx' where "nts_post cfg env ctx bs = Ret ctx'" "chan_view n b (c, p) ctx' [] (msgs @ [(NTP_DATA, bs)])"
proof -
  have l: "8 + length bs \<le> b" "length bs < 2 ^ 16" using bs cfg max_payload_16 [of cfg] by (auto simp: sock_cfg_def)
  obtain x c1 where c1: "ntp_shm_ntpacket_alloc ctx (unat (mtu_size cfg)) = Ret (SUCCESS, blk_addr b x, c1)" "x < n"
    "chan_view n b (c, p) c1 [int x] msgs" by (rule view_alloc [OF v sock_cfg_pos(2) [OF cfg]])
  obtain c2 c3 where c3: "fill_block c1 (blk_addr b x) NTP_DATA (of_nat (length bs)) = Ret c2"
    "write_block c2 (blk_addr b x) 8 bs = Ret c3" "chan_view n b (c, p) c3 [int x] msgs"
    "blk_msg (pool_mem c3) b x = (NTP_DATA, bs)" "blk_ok (pool_mem c3) b x" by (rule view_fill [OF c1(3) l])
  obtain c4 where c4: "ntp_shm_send env c3 (blk_addr b x) = Ret (SUCCESS, c4)"
    "chan_view n b (c, p) c4 [] (msgs @ [blk_msg (pool_mem c3) b x])" by (rule view_send [OF c3(3) room c3(5)])
  show ?thesis by (rule that [of c4]) (use c1 c3 c4 in \<open>simp_all add: nts_post_def\<close>)
qed

lemma post_full:
  assumes cfg: "sock_cfg cfg b" and v: "chan_view n b (c, p) ctx [] msgs" and full: "\<not> length msgs < c - 1"
    and bs: "length bs \<le> unat (max_payloadsize cfg)"
  shows "nts_post cfg [] ctx bs = Spin"
proof -
  have l: "8 + length bs \<le> b" "length bs < 2 ^ 16" using bs cfg max_payload_16 [of cfg] by (auto simp: sock_cfg_def)
  obtain x c1 where c1: "ntp_shm_ntpacket_alloc ctx (unat (mtu_size cfg)) = Ret (SUCCESS, blk_addr b x, c1)" "x < n"
    "chan_view n b (c, p) c1 [int x] msgs" by (rule view_alloc [OF v sock_cfg_pos(2) [OF cfg]])
  obtain c2 c3 where c3: "fill_block c1 (blk_addr b x) NTP_DATA (of_nat (length bs)) = Ret c2"
    "write_block c2 (blk_addr b x) 8 bs = Ret c3" "chan_view n b (c, p) c3 [int x] msgs" by (rule view_fill [OF c1(3) l])
  show ?thesis using c1(1) c3(1,2) view_send_full [OF c3(3) full] by (simp add: nts_post_def)
qed

text \<open>A call that returns has put the whole rest of the buffer into the ring.\<close>

lemma write_rest_view:
  assumes "sock_cfg cfg b" "chan_view n b (c, p) ctx [] msgs" "w \<le> k" "k \<le> length buf"
  shows "if length msgs + length (chunk (unat (max_payloadsize cfg)) (seg buf w (k - w))) \<le> c - 1
    then \<exists>ctx'. write_rest cfg [] ctx buf k w = Ret (k, ctx') \<and>
      chan_view n b (c, p) ctx' [] (msgs @ map (Pair NTP_DATA) (chunk (unat (max_payloadsize cfg)) (seg buf w (k - w))))
    else write_rest cfg [] ctx buf k w = Spin"
  using assms
proof (induction "k - w" arbitrary: ctx msgs w rule: less_induct)
  case less
  let ?mx = "unat (max_payloadsize cfg)" and ?l = "min (k - w) (unat (max_payloadsize cfg))"
  note cfg = less.prems(1) and v = less.prems(2) and mx = sock_cfg_pos(1) [OF less.prems(1)]
  have nf: "length msgs \<le> c - 1" "0 < c" using chan_view_length [OF v] by auto
  show ?case
  proof (cases "k = w")
    case True
    then have s: "seg buf w (k - w) = []" by (simp add: seg_def)
    have "write_rest cfg [] ctx buf k w = Ret (k, ctx)" using True by (subst write_rest.simps) simp
    then show ?thesis using v nf unfolding s by simp
  next
    case False
    then have l: "0 < ?l" "w + ?l \<le> k" using less.prems(3) mx by auto
    let ?bs = "seg buf w ?l"
    have ch: "chunk ?mx (seg buf w (k - w)) = ?bs # chunk ?mx (seg buf (w + ?l) (k - (w + ?l)))"
    proof -
      have "seg buf w (k - w) \<noteq> []" using False less.prems(3,4) by (simp add: seg_def)
      moreover have "take ?mx (seg buf w (k - w)) = ?bs" by (simp add: seg_def min.commute)
      moreover have "drop ?mx (seg buf w (k - w)) = seg buf (w + ?l) (k - (w + ?l))"
        by (auto simp: seg_def min_def drop_take add.commute)
      ultimately show ?thesis using mx by (subst chunk.simps) simp
    qed
    have rd: "mem_read buf w ?l = Ret ?bs" using l less.prems(4) by simp
    have len: "length ?bs \<le> ?mx" using l less.prems(4) by simp
    have un: "write_rest cfg [] ctx buf k w = bind_out (nts_post cfg [] ctx ?bs) (\<lambda>ctx'. write_rest cfg [] ctx' buf k (w + ?l))"
      using l(1) rd by (subst write_rest.simps) (simp add: Let_def min_def del: mem_read_ok split: if_splits)
    show ?thesis
    proof (cases "length msgs < c - 1")
      case True
      obtain ctx' where c': "nts_post cfg [] ctx ?bs = Ret ctx'" "chan_view n b (c, p) ctx' [] (msgs @ [(NTP_DATA, ?bs)])"
        by (rule post_room [OF cfg v True len])
      have "k - (w + ?l) < k - w" using l by linarith
      from less.hyps [OF this cfg c'(2) l(2) less.prems(4)] show ?thesis
        unfolding un c'(1) ch by (simp split: if_splits)
    next
      case False
      from post_full [OF cfg v False len] False show ?thesis unfolding un ch by simp
    qed
  qed
qed

lemma sock_write_rest:
  assumes "0 < k" "0 < unat (max_payloadsize cfg)"
  shows "sock_write cfg envs sk buf k =
     bind_out (deref (sk_send sk)) (\<lambda>ctx.
     bind_out (write_rest cfg envs ctx buf k 0) (\<lambda>(w, ctx'). Ret (w, sk\<lparr>sk_send := Live ctx'\<rparr>)))"
proof -
  let ?l = "min k (unat (max_payloadsize cfg))"
  have r: "write_rest cfg envs ctx buf k 0 =
      bind_out (mem_read buf 0 ?l) (\<lambda>bs. bind_out (nts_post cfg (if envs = [] then [] else hd envs) ctx bs)
        (\<lambda>ctx'. write_rest cfg (tl envs) ctx' buf k ?l))" for ctx
    using assms by (subst write_rest.simps) (simp add: Let_def min_def)
  have l: "(if k < unat (max_payloadsize cfg) then k else unat (max_payloadsize cfg)) = ?l" by simp
  show ?thesis unfolding sock_write_def r Let_def l by (simp add: bind_out_assoc)
qed

lemma sock_write_view:
  assumes "sock_cfg cfg b" "chan_view n b (c, p) ctx [] msgs" "sk_send sk = Live ctx" "0 < k" "k \<le> length buf"
  defines "ms \<equiv> map (Pair NTP_DATA) (chunk (unat (max_payloadsize cfg)) (take k buf))"
  shows "if length msgs + length ms \<le> c - 1
    then \<exists>ctx'. sock_write cfg [] sk buf k = Ret (k, sk\<lparr>sk_send := Live ctx'\<rparr>) \<and> chan_view n b (c, p) ctx' [] (msgs @ ms)
    else sock_write cfg [] sk buf k = Spin"
  using write_rest_view [OF assms(1,2), of 0 k buf] assms(3-5) sock_cfg_pos(1) [OF assms(1)]
  unfolding ms_def by (auto simp: sock_write_rest deref_def seg_def split: if_splits)

section \<open>Messages of a read\<close>

text \<open>What one call takes from the messages in the ring: the bytes, what is left of the last message, and the rest.\<close>

fun take_stream :: "nat \<Rightarrow> 'a list list \<Rightarrow> nat \<Rightarrow> ('a list \<times> 'a list \<times> 'a list list) option" where
  "take_stream mx [] k = None"
| "take_stream mx (m # ms) k =
     (if length m < mx \<or> k \<le> length m then Some (take k m, drop k m, ms)
      else map_option (\<lambda>(out, rest, ms'). (m @ out, rest, ms')) (take_stream mx ms (k - length m)))"

lemma take_stream_concat: "take_stream mx ms k = Some (out, rest, ms') \<Longrightarrow> concat ms = out @ rest @ concat ms'"
  by (induction mx ms k arbitrary: out rest ms' rule: take_stream.induct) (auto split: if_splits)

lemma take_stream_length: "take_stream mx ms k = Some (out, rest, ms') \<Longrightarrow> length out \<le> k \<and> (rest \<noteq> [] \<longrightarrow> length out = k)"
proof (induction mx ms k arbitrary: out rest ms' rule: take_stream.induct)
  case (2 mx m ms k)
  show ?case
  proof (cases "length m < mx \<or> k \<le> length m")
    case True
    with "2.prems" show ?thesis by auto
  next
    case False
    with "2.prems" obtain out' where o: "take_stream mx ms (k - length m) = Some (out', rest, ms')" "out = m @ out'" by auto
    from "2.IH" [OF False o(1)] False show ?thesis by (auto simp: o(2))
  qed
qed simp

definition sk_cache :: "'a nt_sock_context_scheme \<Rightarrow> byte list" where
  "sk_cache sk = take (nat (sk_buflen sk)) (sk_buf sk)"

lemma keep_rest_fresh:
  assumes "take l pl = bs" "l = length bs" "0 \<le> k" "nat k < l" "l \<le> length (sk_buf sk)"
  shows "\<exists>buf. keep_rest False pl k (int l - k) sk = Ret (sk\<lparr>sk_buf := buf, sk_buflen := int l - k\<rparr>) \<and>
     length buf = length (sk_buf sk) \<and> take (nat (int l - k)) buf = drop (nat k) bs"
proof -
  have pl: "l \<le> length pl" using assms(1,2) by (metis length_take min.absorb_iff1 min.commute)
  have n: "nat (int l - k) = l - nat k" using assms(3) by linarith
  have rd: "seg pl (nat k) (l - nat k) = drop (nat k) bs"
    unfolding assms(1) [symmetric] by (simp add: seg_def drop_take)
  have "mem_read pl (nat k) (l - nat k) = Ret (drop (nat k) bs)" using rd pl assms(4) by simp
  moreover have "length (drop (nat k) bs) = l - nat k" using assms(2) by simp
  ultimately show ?thesis using assms(5)
    by (intro exI [of _ "drop (nat k) bs @ drop (l - nat k) (sk_buf sk)"]) (simp add: keep_rest_def n)
qed

lemma copy_out_ok: "0 \<le> k \<Longrightarrow> nat k \<le> length pl \<Longrightarrow> copy_out pl k = Ret (take (nat k) pl)"
  by (simp add: copy_out_def seg_def)

lemma peek_take_view:
  assumes v: "chan_view n b sig ctx [] ((NTP_DATA, bs) # msgs)"
  obtains x ctx' m where "peek_msg [] ctx = Ret (Some (blk_addr b x), ctx)" "take_msg (blk_addr b x) ctx = Ret (blk_addr b x, m, ctx')"
    "x < n" "chan_view n b sig ctx' [int x] msgs" "unat (h_msg_len (header m)) = length bs" "take (length bs) (payload m) = bs"
proof -
  obtain x ctx' where f: "ntp_shm_front ctx = Ret (SUCCESS, Some (blk_addr b x))" "ntp_shm_pop ctx = Ret (0, ctx')" "x < n"
    "chan_view n b sig ctx' [int x] msgs" "blk_msg (pool_mem ctx) b x = (NTP_DATA, bs)"
    "blk_msg (pool_mem ctx') b x = (NTP_DATA, bs)" "blk_ok (pool_mem ctx') b x" by (rule view_front [OF v])
  obtain m0 where m0: "read_block ctx (blk_addr b x) = Ret m0" "h_msg_type (header m0) = fst (blk_msg (pool_mem ctx) b x)"
    by (rule view_read [OF v f(3)])
  obtain m where m: "read_block ctx' (blk_addr b x) = Ret m" "unat (h_msg_len (header m)) = blk_len (pool_mem ctx') b x"
    "blk_len (pool_mem ctx') b x \<le> length (payload m) \<and>
       take (blk_len (pool_mem ctx') b x) (payload m) = snd (blk_msg (pool_mem ctx') b x)"
    by (rule view_read [OF f(4,3)]) (use f(7) in blast)
  have "length bs = blk_len (pool_mem ctx') b x" using m(3) f(6) by (metis length_take min.absorb2 snd_conv)
  with f m0 m show ?thesis
    by (intro that [where x = x and ctx' = ctx' and m = m]) (simp_all add: peek_msg_def take_msg_def)
qed

lemma peek_none:
  assumes "chan_view n b sig ctx [] []"
  shows "peek_msg [] ctx = Spin"
  using view_front_none [OF assms] by (simp add: peek_msg_def)

definition read_ok ::
  "nat \<Rightarrow> nat \<Rightarrow> nat \<times> u64 \<Rightarrow> 'a nt_sock_context_scheme \<Rightarrow> byte list \<Rightarrow> byte list \<Rightarrow> byte list list
     \<Rightarrow> (byte list option \<times> 'a nt_sock_context_scheme \<times> ntp_shm_context) outcome \<Rightarrow> bool"
where
  "read_ok n b sig sk out rest ms res \<longleftrightarrow>
     (\<exists>buf l ctx'. res = Ret (Some out, sk\<lparr>sk_buf := buf, sk_buflen := l\<rparr>, ctx') \<and> length buf = length (sk_buf sk) \<and>
        l < int (length buf) \<and> take (nat l) buf = rest \<and> chan_view n b sig ctx' [] (map (Pair NTP_DATA) ms))"

lemma read_okI:
  assumes "res = Ret (Some out, sk\<lparr>sk_buf := buf, sk_buflen := l\<rparr>, ctx')" "length buf = length (sk_buf sk)"
    "l < int (length buf)" "take (nat l) buf = rest" "chan_view n b sig ctx' [] (map (Pair NTP_DATA) ms)"
  shows "read_ok n b sig sk out rest ms res"
  using assms unfolding read_ok_def by blast

text \<open>A message that ends the call: it is copied as far as the buffer goes, the rest is kept, the block is freed.\<close>

lemma read_loop_last:
  assumes v: "chan_view n b sig ctx [int x] (map (Pair NTP_DATA) ms)" and bs: "0 < length bs" "take (length bs) pl = bs"
    and sk: "length bs \<le> length (sk_buf sk)" "sk_buflen sk \<le> 0" and k: "0 < k"
    and last: "length bs < unat (max_payloadsize cfg) \<or> k \<le> length bs"
  shows "read_ok n b sig sk (out @ take k bs) (drop k bs) ms
     (read_loop cfg envs sk ctx (int k) (int (length bs)) False (Some (blk_addr b x)) pl out)"
proof -
  define mx where "mx = unat (max_payloadsize cfg)"
  have mx: "uint (max_payloadsize cfg) = int mx" unfolding mx_def by (simp only: uint_nat)
  have lst: "length bs < mx \<or> k \<le> length bs" using last by (simp add: mx_def)
  have pl: "length bs \<le> length pl" using bs(2) by (metis length_take min.absorb_iff1 min.commute)
  obtain ctx' where c': "ntp_shm_ntpacket_free ctx (blk_addr b x) = Ret ctx'" "chan_view n b sig ctx' [] (map (Pair NTP_DATA) ms)"
    by (rule view_free [OF v])
  have tk: "take k pl = take k bs" if "k \<le> length bs" using that bs(2) by (metis min.absorb1 take_take)
  have pos: "sk_buflen sk < int (length (sk_buf sk))" using sk bs(1) by linarith
  have un: "sk = sk\<lparr>sk_buf := sk_buf sk, sk_buflen := sk_buflen sk\<rparr>" by simp
  show ?thesis
  proof (cases "length bs \<le> k")
    case True
    have "read_loop cfg envs sk ctx (int k) (int (length bs)) False (Some (blk_addr b x)) pl out = Ret (Some (out @ bs), sk, ctx')"
      using True bs pl lst tk c'(1) by (subst read_loop.simps) (auto simp: copy_out_ok drop_block_def mx)
    with un show ?thesis using True sk pos c'(2) by (intro read_okI [where buf = "sk_buf sk" and l = "sk_buflen sk"]) auto
  next
    case False
    from keep_rest_fresh [OF bs(2) refl, of "int k" sk] False sk(1) obtain buf where
      kr: "keep_rest False pl (int k) (int (length bs) - int k) sk = Ret (sk\<lparr>sk_buf := buf, sk_buflen := int (length bs) - int k\<rparr>)"
        "length buf = length (sk_buf sk)" "take (nat (int (length bs) - int k)) buf = drop k bs" by auto
    have "read_loop cfg envs sk ctx (int k) (int (length bs)) False (Some (blk_addr b x)) pl out =
        Ret (Some (out @ take k bs), sk\<lparr>sk_buf := buf, sk_buflen := int (length bs) - int k\<rparr>, ctx')"
      using False pl tk c'(1) kr(1) by (subst read_loop.simps) (auto simp: copy_out_ok drop_block_def mx)
    then show ?thesis by (rule read_okI) (use kr False sk k c'(2) in auto)
  qed
qed

lemma read_loop_view:
  assumes "chan_view n b sig ctx [int x] (map (Pair NTP_DATA) ms)" "\<forall>m \<in> set ms. 0 < length m \<and> length m \<le> length (sk_buf sk)"
    "0 < length bs" "length bs \<le> length (sk_buf sk)" "take (length bs) pl = bs" "sk_buflen sk \<le> 0" "0 < k"
  shows "case take_stream (unat (max_payloadsize cfg)) (bs # ms) k of
       None \<Rightarrow> read_loop cfg [] sk ctx (int k) (int (length bs)) False (Some (blk_addr b x)) pl out = Spin
     | Some (o', rest, ms') \<Rightarrow> read_ok n b sig sk (out @ o') rest ms'
         (read_loop cfg [] sk ctx (int k) (int (length bs)) False (Some (blk_addr b x)) pl out)"
  using assms
proof (induction ms arbitrary: bs x ctx pl k out)
  let ?mx = "unat (max_payloadsize cfg)"
  case Nil
  then show ?case
  proof (cases "length bs < ?mx \<or> k \<le> length bs")
    case True
    from read_loop_last [OF Nil.prems(1,3,5,4,6,7) this, of out "[]"] True show ?thesis by simp
  next
    case False
    define mx where "mx = unat (max_payloadsize cfg)"
    have mx: "uint (max_payloadsize cfg) = int mx" unfolding mx_def by (simp only: uint_nat)
    have F: "\<not> (length bs < mx \<or> k \<le> length bs)" using False by (simp add: mx_def)
    obtain ctx' where c': "ntp_shm_ntpacket_free ctx (blk_addr b x) = Ret ctx'" "chan_view n b sig ctx' [] []"
      using view_free [OF Nil.prems(1)] by auto
    have "length bs \<le> length pl" using Nil.prems(5) by (metis length_take min.absorb_iff1 min.commute)
    then have "read_loop cfg [] sk ctx (int k) (int (length bs)) False (Some (blk_addr b x)) pl out = Spin"
      using F c'(1) peek_none [OF c'(2)] Nil.prems(3)
      by (subst read_loop.simps) (auto simp: copy_out_ok drop_block_def mx)
    with False show ?thesis by simp
  qed
next
  let ?mx = "unat (max_payloadsize cfg)"
  case (Cons m ms)
  show ?case
  proof (cases "length bs < ?mx \<or> k \<le> length bs")
    case True
    from read_loop_last [OF Cons.prems(1,3,5,4,6,7) this, of out "[]"] True show ?thesis by simp
  next
    case False
    define mx where "mx = unat (max_payloadsize cfg)"
    have mx: "uint (max_payloadsize cfg) = int mx" unfolding mx_def by (simp only: uint_nat)
    have F: "\<not> (length bs < mx \<or> k \<le> length bs)" using False by (simp add: mx_def)
    have pl: "length bs \<le> length pl" using Cons.prems(5) by (metis length_take min.absorb_iff1 min.commute)
    obtain ctx' where c': "ntp_shm_ntpacket_free ctx (blk_addr b x) = Ret ctx'"
      "chan_view n b sig ctx' [] ((NTP_DATA, m) # map (Pair NTP_DATA) ms)"
      using view_free [OF Cons.prems(1)] by auto
    obtain y ctx2 p where t: "peek_msg [] ctx' = Ret (Some (blk_addr b y), ctx')"
      "take_msg (blk_addr b y) ctx' = Ret (blk_addr b y, p, ctx2)" "chan_view n b sig ctx2 [int y] (map (Pair NTP_DATA) ms)"
      "unat (h_msg_len (header p)) = length m" "take (length m) (payload p) = m"
      by (rule peek_take_view [OF c'(2)])
    have len: "uint (h_msg_len (header p)) = int (length m)" unfolding t(4) [symmetric] by (simp only: uint_nat)
    have st: "read_loop cfg [] sk ctx (int k) (int (length bs)) False (Some (blk_addr b x)) pl out =
        read_loop cfg [] sk ctx2 (int (k - length bs)) (int (length m)) False (Some (blk_addr b y)) (payload p) (out @ bs)"
      using F pl c'(1) t(1,2) Cons.prems(3,5,6) len
      by (subst read_loop.simps) (auto simp: copy_out_ok drop_block_def mx of_nat_diff)
    have m: "\<forall>m \<in> set ms. 0 < length m \<and> length m \<le> length (sk_buf sk)" "0 < length m" "length m \<le> length (sk_buf sk)" "0 < k - length bs"
      using Cons.prems(2) False by auto
    from Cons.IH [OF t(3) m(1-3) t(5) Cons.prems(6) m(4), of "out @ bs"] show ?thesis
      unfolding st take_stream.simps(2) [of _ bs] using False by (auto split: option.splits)
  qed
qed

text \<open>A socket with the messages that wait for it.\<close>

definition sock_inv :: "nat \<Rightarrow> nat \<Rightarrow> nat \<times> u64 \<Rightarrow> nts_config \<Rightarrow> 'a nt_sock_context_scheme \<Rightarrow> byte list list \<Rightarrow> bool" where
  "sock_inv n b sig cfg sk ms \<longleftrightarrow>
     (\<exists>ctx. sk_recv sk = Live ctx \<and> chan_view n b sig ctx [] (map (Pair NTP_DATA) ms)) \<and>
     (\<forall>m \<in> set ms. 0 < length m \<and> length m \<le> unat (max_payloadsize cfg)) \<and>
     length (sk_buf sk) = unat (max_payloadsize cfg) \<and> sk_buflen sk < int (length (sk_buf sk))"

definition read_stream :: "nat \<Rightarrow> byte list \<Rightarrow> byte list list \<Rightarrow> nat \<Rightarrow> (byte list \<times> byte list \<times> byte list list) option" where
  "read_stream mx cache ms k = (if cache \<noteq> [] then Some (take k cache, drop k cache, ms) else take_stream mx ms k)"

lemma read_stream_concat:
  "read_stream mx cache ms k = Some (out, rest, ms') \<Longrightarrow> cache @ concat ms = out @ rest @ concat ms'"
  by (auto simp: read_stream_def take_stream_concat split: if_splits)

lemma take_stream_subset: "take_stream mx ms k = Some (out, rest, ms') \<Longrightarrow> set ms' \<subseteq> set ms"
proof (induction mx ms k arbitrary: out rest ms' rule: take_stream.induct)
  case (2 mx m ms k)
  then show ?case by (cases "length m < mx \<or> k \<le> length m") auto
qed simp

lemma sint_small: "k < 2 ^ 31 \<Longrightarrow> sint (of_nat k :: u32) = int k"
  by (simp add: sint_uint signed_take_bit_eq_if_positive unsigned_of_nat take_bit_nat_eq_self take_bit_int_eq_self bit_iff_odd)

lemma sk_cache_length: "sock_inv n b sig cfg sk ms \<Longrightarrow> length (sk_cache sk) = nat (sk_buflen sk)"
  unfolding sock_inv_def sk_cache_def length_take by linarith

lemma sock_inv_update:
  assumes "sock_inv n b sig cfg sk ms" "length buf = length (sk_buf sk)" "l < int (length buf)" "set ms' \<subseteq> set ms"
    "chan_view n b sig ctx [] (map (Pair NTP_DATA) ms')"
  shows "sock_inv n b sig cfg (sk\<lparr>sk_buf := buf, sk_buflen := l, sk_recv := Live ctx\<rparr>) ms'"
  using assms unfolding sock_inv_def by auto

text \<open>From the cache.\<close>

lemma sock_read_cached:
  assumes inv: "sock_inv n b sig cfg sk ms" and c: "sk_cache sk \<noteq> []" and k: "0 < k" "k < 2 ^ 31"
  shows "if length (sk_cache sk) \<le> 2 * k
     then \<exists>sk'. sock_read cfg env sk k = Ret (Some (take k (sk_cache sk)), sk') \<and> sock_inv n b sig cfg sk' ms \<and>
        sk_cache sk' = drop k (sk_cache sk) \<and> so_state sk' = so_state sk \<and> sk_send sk' = sk_send sk
     else sock_read cfg env sk k = Undef"
proof -
  define l mx where "l = nat (sk_buflen sk)" and "mx = unat (max_payloadsize cfg)"
  have i: "length (sk_buf sk) = mx" "sk_buflen sk < int mx" using inv unfolding sock_inv_def mx_def by linarith+
  obtain ctx where ctx: "sk_recv sk = Live ctx" "chan_view n b sig ctx [] (map (Pair NTP_DATA) ms)"
    using inv by (auto simp: sock_inv_def)
  have l: "0 < sk_buflen sk" "sk_buflen sk = int l" "l < mx" "length (sk_cache sk) = l"
    using c i sk_cache_length [OF inv] by (auto simp: sk_cache_def l_def)
  have mxu: "uint (max_payloadsize cfg) = int mx" unfolding mx_def by (simp only: uint_nat)
  have rd: "sock_read cfg env sk k = bind_out (read_loop cfg (rv_next env) sk ctx (int k) (int l) True None (sk_buf sk) [])
      (\<lambda>(out, sk', ctx'). Ret (out, sk'\<lparr>sk_recv := Live ctx'\<rparr>))"
    using l(1) by (simp add: sock_read_def deref_def ctx(1) sint_small [OF k(2)] l(2))
  show ?thesis
  proof (cases "l \<le> k")
    case True
    have "read_loop cfg (rv_next env) sk ctx (int k) (int l) True None (sk_buf sk) [] =
        Ret (Some (sk_cache sk), sk\<lparr>sk_buflen := 0\<rparr>, ctx)"
      using True l i by (subst read_loop.simps) (simp add: mxu copy_out_ok sk_cache_def l_def [symmetric])
    moreover have "sock_inv n b sig cfg (sk\<lparr>sk_buflen := 0, sk_recv := Live ctx\<rparr>) ms"
      using sock_inv_update [OF inv refl, of 0 ms ctx] ctx(2) l(3) i(1) by simp
    moreover have "sk_cache (sk\<lparr>sk_buflen := 0, sk_recv := Live ctx\<rparr>) = []" by (simp add: sk_cache_def)
    ultimately show ?thesis using True l(4) unfolding rd by simp
  next
    case False
    have rl: "read_loop cfg (rv_next env) sk ctx (int k) (int l) True None (sk_buf sk) [] =
        bind_out (keep_rest True (sk_buf sk) (int k) (int l - int k) sk) (\<lambda>sk'. Ret (Some (take k (sk_buf sk)), sk', ctx))"
      using False l i by (subst read_loop.simps) (simp add: mxu copy_out_ok)
    have n: "nat (int l - int k) = l - k" by linarith
    show ?thesis
    proof (cases "l \<le> 2 * k")
      case True
      let ?buf = "seg (sk_buf sk) k (l - k) @ drop (l - k) (sk_buf sk)"
      have sg: "seg (sk_buf sk) k (l - k) = drop k (sk_cache sk)" using False by (simp add: seg_def sk_cache_def l_def [symmetric] drop_take)
      have "keep_rest True (sk_buf sk) (int k) (int l - int k) sk = Ret (sk\<lparr>sk_buf := ?buf, sk_buflen := int l - int k\<rparr>)"
        using True False l i by (simp add: keep_rest_def n)
      moreover have "length (seg (sk_buf sk) k (l - k)) = l - k" using False l i by simp
      then have "sk_cache (sk\<lparr>sk_buf := ?buf, sk_buflen := int l - int k, sk_recv := Live ctx\<rparr>) = drop k (sk_cache sk)"
        unfolding sk_cache_def by (simp add: n sg [unfolded sk_cache_def])
      moreover have "sock_inv n b sig cfg (sk\<lparr>sk_buf := ?buf, sk_buflen := int l - int k, sk_recv := Live ctx\<rparr>) ms"
        by (rule sock_inv_update [OF inv _ _ _ ctx(2)]) (use l False k i in auto)
      moreover have "take k (sk_buf sk) = take k (sk_cache sk)" using False by (simp add: sk_cache_def l_def [symmetric] min_def)
      ultimately show ?thesis using True l(4) unfolding rd rl by (auto intro!: exI)
    next
      case False
      then show ?thesis unfolding rd rl using l(4) by (simp add: keep_rest_def)
    qed
  qed
qed

text \<open>From the ring.\<close>

lemma sock_read_fresh:
  assumes inv: "sock_inv n b sig cfg sk ms" and c: "sk_cache sk = []" and k: "0 < k" "k < 2 ^ 31"
    and env: "rv_front env = []" "rv_next env = []"
  shows "case take_stream (unat (max_payloadsize cfg)) ms k of
       None \<Rightarrow> sock_read cfg env sk k = Spin
     | Some (out, rest, ms') \<Rightarrow>
         \<exists>sk'. sock_read cfg env sk k = Ret (Some out, sk') \<and> sock_inv n b sig cfg sk' ms' \<and> sk_cache sk' = rest \<and>
           so_state sk' = so_state sk \<and> sk_send sk' = sk_send sk"
proof -
  obtain ctx where ctx: "sk_recv sk = Live ctx" "chan_view n b sig ctx [] (map (Pair NTP_DATA) ms)"
    using inv by (auto simp: sock_inv_def)
  have l: "sk_buflen sk \<le> 0" using sk_cache_length [OF inv] c by simp
  note sn = sint_small [OF k(2)]
  show ?thesis
  proof (cases ms)
    case Nil
    then have "peek_msg [] ctx = Spin" using ctx(2) peek_none by simp
    then show ?thesis using Nil l by (simp add: sock_read_def deref_def ctx(1) env)
  next
    case (Cons m ms0)
    then have "chan_view n b sig ctx [] ((NTP_DATA, m) # map (Pair NTP_DATA) ms0)" using ctx(2) by simp
    from peek_take_view [OF this] obtain x ctx' p where t: "peek_msg [] ctx = Ret (Some (blk_addr b x), ctx)"
      "take_msg (blk_addr b x) ctx = Ret (blk_addr b x, p, ctx')" "chan_view n b sig ctx' [int x] (map (Pair NTP_DATA) ms0)"
      "unat (h_msg_len (header p)) = length m" "take (length m) (payload p) = m" by blast
    have len: "uint (h_msg_len (header p)) = int (length m)" unfolding t(4) [symmetric] by (simp only: uint_nat)
    have rd: "sock_read cfg env sk k = bind_out (read_loop cfg [] sk ctx' (int k) (int (length m)) False (Some (blk_addr b x)) (payload p) [])
        (\<lambda>(out, sk', ctx'). Ret (out, sk'\<lparr>sk_recv := Live ctx'\<rparr>))"
      using l t(1,2) by (simp add: sock_read_def deref_def ctx(1) env sn len)
    have ms: "\<forall>m \<in> set ms0. 0 < length m \<and> length m \<le> length (sk_buf sk)" "0 < length m" "length m \<le> length (sk_buf sk)"
      using inv Cons by (auto simp: sock_inv_def)
    note rl = read_loop_view [OF t(3) ms t(5) l k(1), of cfg "[]"]
    show ?thesis
    proof (cases "take_stream (unat (max_payloadsize cfg)) (m # ms0) k")
      case None
      with rl show ?thesis unfolding Cons rd by simp
    next
      case (Some z)
      then obtain out rest ms' where z: "take_stream (unat (max_payloadsize cfg)) (m # ms0) k = Some (out, rest, ms')"
        by (cases z) auto
      with rl have "read_ok n b sig sk out rest ms' (read_loop cfg [] sk ctx' (int k) (int (length m)) False (Some (blk_addr b x)) (payload p) [])"
        by simp
      then obtain buf l' ctx2 where r: "read_loop cfg [] sk ctx' (int k) (int (length m)) False (Some (blk_addr b x)) (payload p) [] =
          Ret (Some out, sk\<lparr>sk_buf := buf, sk_buflen := l'\<rparr>, ctx2)" "length buf = length (sk_buf sk)" "l' < int (length buf)"
          "take (nat l') buf = rest" "chan_view n b sig ctx2 [] (map (Pair NTP_DATA) ms')"
        unfolding read_ok_def by blast
      have "set ms' \<subseteq> set ms" using take_stream_subset [OF z] Cons by simp
      from sock_inv_update [OF inv r(2,3) this r(5)] r(1,4) z show ?thesis
        unfolding Cons rd by (simp add: sk_cache_def)
    qed
  qed
qed

lemma sock_read_view:
  assumes inv: "sock_inv n b sig cfg sk ms" and k: "0 < k" "k < 2 ^ 31" and env: "rv_front env = []" "rv_next env = []"
    and small: "length (sk_cache sk) \<le> 2 * k"
  shows "case read_stream (unat (max_payloadsize cfg)) (sk_cache sk) ms k of
       None \<Rightarrow> sock_read cfg env sk k = Spin
     | Some (out, rest, ms') \<Rightarrow>
         \<exists>sk'. sock_read cfg env sk k = Ret (Some out, sk') \<and> sock_inv n b sig cfg sk' ms' \<and> sk_cache sk' = rest \<and>
           so_state sk' = so_state sk \<and> sk_send sk' = sk_send sk"
  using sock_read_fresh [OF inv _ k env] sock_read_cached [OF inv _ k, of env] small
  by (cases "sk_cache sk = []") (auto simp: read_stream_def)

section \<open>Sockets of an application\<close>

definition writer_ok :: "nat \<Rightarrow> nat \<Rightarrow> nat \<times> u64 \<Rightarrow> 'a nt_sock_context_scheme \<Rightarrow> (u16 \<times> byte list) list \<Rightarrow> bool" where
  "writer_ok n b sig sk msgs \<longleftrightarrow> so_state sk = ESTABLISHED \<and> (\<exists>ctx. sk_send sk = Live ctx \<and> chan_view n b sig ctx [] msgs)"

lemma nts_write_sock:
  assumes "0 \<le> sockid" "find_sock nts sockid = Ret (Some (r, sk))" "so_state sk = ESTABLISHED" "0 < k"
  shows "nts_write cfg envs junk nts sockid buf k =
     bind_out (sock_write cfg envs sk buf k) (\<lambda>(w, sk'). Ret (int w, put_sock nts r sk'))"
  using assms by (simp add: nts_write_def)

lemma nts_read_sock:
  assumes "0 \<le> sockid" "find_sock nts sockid = Ret (Some (r, sk))" "so_state sk = ESTABLISHED" "0 < k"
  shows "sock_read cfg env sk k = Spin \<Longrightarrow> nts_read cfg env nts sockid k = Spin"
    and "sock_read cfg env sk k = Undef \<Longrightarrow> nts_read cfg env nts sockid k = Undef"
    and "sock_read cfg env sk k = Ret (Some out, sk') \<Longrightarrow>
      nts_read cfg env nts sockid k = Ret (int (length out), out, put_sock nts r sk')"
  using assms by (simp_all add: nts_read_def)

lemma find_put_sock: "find_sock nts s = Ret (Some (r, sk)) \<Longrightarrow> find_sock (put_sock nts r sk') s = Ret (Some (r, sk'))"
  by (auto simp: find_sock_def split: option.splits)

text \<open>
  C4: \<^verbatim>\<open>nts_write\<close> on an established socket cuts the buffer into messages of at most \<^verbatim>\<open>max_payloadsize\<close> bytes, puts
  them behind the messages in the ring, in order and without losing a byte, and returns the number of bytes.
  When the ring has no room for all of them and the proxy does not move, it never returns.
\<close>

theorem nts_write_chunks:
  assumes "sock_cfg cfg b" "0 \<le> sockid" "find_sock nts sockid = Ret (Some (r, sk))" "writer_ok n b (c, p) sk msgs"
    and "0 < k" "k \<le> length buf"
  defines "ms \<equiv> chunk (unat (max_payloadsize cfg)) (take k buf)"
  shows "concat ms = take k buf \<and> (\<forall>m \<in> set ms. 0 < length m \<and> length m \<le> unat (max_payloadsize cfg)) \<and>
     (if length msgs + length ms \<le> c - 1
      then \<exists>sk'. nts_write cfg [] junk nts sockid buf k = Ret (int k, put_sock nts r sk') \<and>
             writer_ok n b (c, p) sk' (msgs @ map (Pair NTP_DATA) ms)
      else nts_write cfg [] junk nts sockid buf k = Spin)"
proof -
  obtain ctx where w: "so_state sk = ESTABLISHED" "sk_send sk = Live ctx" "chan_view n b (c, p) ctx [] msgs"
    using assms(4) by (auto simp: writer_ok_def)
  have "concat ms = take k buf" "\<forall>m \<in> set ms. 0 < length m \<and> length m \<le> unat (max_payloadsize cfg)"
    unfolding ms_def using concat_chunk sock_cfg_pos(1) [OF assms(1)] chunk_length by blast+
  moreover have "nts_write cfg [] junk nts sockid buf k =
      bind_out (sock_write cfg [] sk buf k) (\<lambda>(w, sk'). Ret (int w, put_sock nts r sk'))"
    by (rule nts_write_sock [OF assms(2,3) w(1) assms(5)])
  moreover note sock_write_view [OF assms(1) w(3,2) assms(5,6), folded ms_def]
  ultimately show ?thesis using w(1) by (auto simp: writer_ok_def split: if_splits)
qed


section \<open>A concrete connection\<close>

text \<open>A channel of four slots over five blocks of sixteen bytes, as it is after its creation.\<close>

definition demo_ring4 :: shmring where
  "demo_ring4 = \<lparr>shm_fd = - 1, addrlen = 2, ele_size = 4, capacity = 4, queue_size = 36, peer_read_idx = 0,
     shm_addr = ''c'', queue = \<lparr>write_idx = 0, read_idx = 0, data_area = replicate 4 (replicate 4 0)\<rparr>\<rparr>"

definition demo_handler :: shm_mp_handler where
  "demo_handler = \<lparr>shm_mp_name = ''p-mp'', sem_mutex_name = ''p-mutex'', shm_mem_name = ''p'',
     shm_mp = \<lparr>mp_column = 0, total_count = 0, used_count = 0, block_len = 0, free_header_idx = 0,
               free_tail_idx = 0, used_header_idx = 0\<rparr>, shm_mp_nodes = [], shm_mem = replicate 80 0\<rparr>"

definition demo_chan :: "ntp_shm_context outcome" where
  "demo_chan =
     bind_out (mp_fresh demo_handler 16 5) (\<lambda>h.
     Ret \<lparr>shm_stat = NTP_SHM_READY, ntsring_handle = Some demo_ring4, ctx_addr = ''c'', slot_size = 16,
       node_idxs_cache = [], max_lens = [], mp_handler = Some h\<rparr>)"

lemma demo_ring4_empty: "idx_ring demo_ring4" "shmring_contents demo_ring4 = []" "capacity demo_ring4 = 4" "peer_read_idx demo_ring4 = 0"
  by (simp_all add: demo_ring4_def idx_ring_def shmring_inv_def shmring_contents_def)

lemma demo_chan_view: obtains ctx where "demo_chan = Ret ctx" "chan_view 5 16 (4, 0) ctx [] []"
proof -
  obtain h where h: "mp_fresh demo_handler 16 5 = Ret h" "block_len (shm_mp h) = 16" "shm_mem h = replicate 80 0"
    using mp_fresh_ok [of 5 demo_handler 16] by (auto simp: demo_handler_def)
  have p: "pool_inv 5 (h, [])" using pool_inv_fresh(1) [OF h(1)] by simp
  let ?ctx = "\<lparr>shm_stat = NTP_SHM_READY, ntsring_handle = Some demo_ring4, ctx_addr = ''c'', slot_size = 16,
       node_idxs_cache = [], max_lens = [], mp_handler = Some h\<rparr> :: ntp_shm_context"
  have "demo_chan = Ret ?ctx" by (simp add: demo_chan_def h(1))
  moreover have "chan_view 5 16 (4, 0) ?ctx [] []"
    by (simp add: chan_view_def chan_ok_def ctx_ok_def ctx_msgs_def pending_def ring_idx_def chan_sig_def h p demo_ring4_empty)
  ultimately show ?thesis by (rule that)
qed

definition demo_nts_cfg :: nts_config where "demo_nts_cfg = \<lparr>mtu_size = 16, max_payloadsize = 8\<rparr>"

lemma demo_nts_cfg_ok: "sock_cfg demo_nts_cfg 16"
  by (simp add: sock_cfg_def demo_nts_cfg_def)

definition demo_sock :: "ntp_shm_context \<Rightarrow> ntp_shm_context \<Rightarrow> nt_sock_context" where
  "demo_sock tx rx = \<lparr>so_state = ESTABLISHED, sk_send = Live tx, sk_recv = Live rx, sk_buf = replicate 8 0, sk_buflen = 0\<rparr>"

definition demo_app :: "nt_sock_context \<Rightarrow> unit nts_context" where
  "demo_app sk =
     \<lparr>nx_sock_map = \<lparr>hm_size = 1, listSize = 1, hm_list = [[([1, 0, 0, 0], 0)]], autoAssign = True\<rparr>,
      nx_socks = (\<lambda>_. None)(0 := Some sk),
      nx_ntm = \<lparr>nx_stat = SHM_READY, nx_handle = Live demo_ntm, nx_addr = Null, nx_addrlen = 0\<rparr>\<rparr>"

lemma demo_app_sock: "find_sock (demo_app sk) 1 = Ret (Some (0, sk))"
proof -
  have k: "id_key 1 = Ret [1, 0, 0, 0]" by code_simp
  have "map_get (nx_sock_map (demo_app sk)) 1 = Ret (Some 0)"
    by (simp add: map_get_def k defaultGet_def defaultExists_def slot_of_def demo_app_def defaultEqual_def array_get_def)
  then show ?thesis by (simp add: find_sock_def) (simp add: demo_app_def)
qed

lemma demo_chunk: "chunk (unat (max_payloadsize demo_nts_cfg)) (take 10 [1, 2, 3, 4, 5, 6, 7, 8, 9, 10 :: byte]) =
    [[1, 2, 3, 4, 5, 6, 7, 8], [9, 10]]"
  by (simp add: demo_nts_cfg_def chunk.simps)

theorem nts_write_chunks_witness:
  "\<exists>ctx sk'. demo_chan = Ret ctx \<and>
     nts_write demo_nts_cfg [] 0 (demo_app (demo_sock ctx ctx)) 1 [1, 2, 3, 4, 5, 6, 7, 8, 9, 10] 10 =
       Ret (10, put_sock (demo_app (demo_sock ctx ctx)) 0 sk') \<and>
     writer_ok 5 16 (4, 0) sk' [(NTP_DATA, [1, 2, 3, 4, 5, 6, 7, 8]), (NTP_DATA, [9, 10])]"
proof -
  obtain ctx where c: "demo_chan = Ret ctx" "chan_view 5 16 (4, 0) ctx [] []" by (rule demo_chan_view)
  have "writer_ok 5 16 (4, 0) (demo_sock ctx ctx) []" using c(2) by (simp add: writer_ok_def demo_sock_def)
  from nts_write_chunks [OF demo_nts_cfg_ok _ demo_app_sock this, of 10 "[1, 2, 3, 4, 5, 6, 7, 8, 9, 10]" 0]
  have "\<exists>sk'. nts_write demo_nts_cfg [] 0 (demo_app (demo_sock ctx ctx)) 1 [1, 2, 3, 4, 5, 6, 7, 8, 9, 10] 10 =
       Ret (10, put_sock (demo_app (demo_sock ctx ctx)) 0 sk') \<and>
     writer_ok 5 16 (4, 0) sk' [(NTP_DATA, [1, 2, 3, 4, 5, 6, 7, 8]), (NTP_DATA, [9, 10])]"
    unfolding demo_chunk by simp
  with c(1) show ?thesis by blast
qed

lemma demo_loaded:
  obtains ctx where "\<exists>c0. demo_chan = Ret c0 \<and> sock_write demo_nts_cfg [] (demo_sock c0 c0) [1, 2, 3, 4, 5, 6, 7, 8, 9, 10] 10 =
      Ret (10, demo_sock ctx c0)"
    "chan_view 5 16 (4, 0) ctx [] (map (Pair NTP_DATA) [[1, 2, 3, 4, 5, 6, 7, 8], [9, 10]])"
proof -
  obtain c0 where c: "demo_chan = Ret c0" "chan_view 5 16 (4, 0) c0 [] []" by (rule demo_chan_view)
  from sock_write_view [OF demo_nts_cfg_ok c(2), of "demo_sock c0 c0" 10 "[1, 2, 3, 4, 5, 6, 7, 8, 9, 10]"]
  show ?thesis unfolding demo_chunk using c(1) that by (auto simp: demo_sock_def)
qed

definition demo_env :: read_env where
  "demo_env = \<lparr>rv_front = [], rv_next = [], rv_intr1 = False, rv_intr2 = False, rv_junk = ntm_blank\<rparr>"


end
