(* ===== verification/Ntp_Plane.thy ===== *)
theory Ntp_Plane
  imports Ntp_Flow Nts_Sock
begin

text \<open>
  One direction of a connection from end to end: an application writes, its proxy sends over the bridge, the other proxy
  receives, the other application reads. Each of the four is the function of the code that does it; they run in any
  order. An abstract pipeline of messages says what the whole is to do, and every step of the four implements a step
  of the pipeline.
\<close>

section \<open>The abstract pipeline\<close>

text \<open>
  Messages between the writer and its proxy, between the proxies, between the other proxy and the reader, and the bytes
  of a message that the reader has not taken yet.
\<close>

record pipe =
  p_send :: "byte list list"
  p_wire :: "byte list list"
  p_recv :: "byte list list"
  p_cache :: "byte list"

definition pipe_bytes :: "pipe \<Rightarrow> byte list" where
  "pipe_bytes A = p_cache A @ concat (p_recv A) @ concat (p_wire A) @ concat (p_send A)"

definition empty_pipe :: pipe where
  "empty_pipe = \<lparr>p_send = [], p_wire = [], p_recv = [], p_cache = []\<rparr>"

text \<open>A step, with the bytes that go in and the bytes that come out.\<close>

inductive pipe_step :: "nat \<Rightarrow> nat \<Rightarrow> pipe \<Rightarrow> byte list \<Rightarrow> byte list \<Rightarrow> pipe \<Rightarrow> bool" for mx bulk where
  put: "0 < mx \<Longrightarrow> pipe_step mx bulk A bs [] (A\<lparr>p_send := p_send A @ chunk mx bs\<rparr>)"
| forward: "pipe_step mx bulk A [] []
     (A\<lparr>p_send := drop bulk (p_send A), p_wire := p_wire A @ take bulk (p_send A)\<rparr>)"
| deliver: "p_wire A = m # ms \<Longrightarrow> pipe_step mx bulk A [] [] (A\<lparr>p_wire := ms, p_recv := p_recv A @ [m]\<rparr>)"
| idle: "p_wire A = [] \<Longrightarrow> pipe_step mx bulk A [] [] A"
| get: "read_stream mx (p_cache A) (p_recv A) k = Some (out, rest, ms) \<Longrightarrow>
     pipe_step mx bulk A [] out (A\<lparr>p_recv := ms, p_cache := rest\<rparr>)"

lemma pipe_step_bytes: "pipe_step mx bulk A ins outs A' \<Longrightarrow> pipe_bytes A @ ins = outs @ pipe_bytes A'"
proof (induction rule: pipe_step.induct)
  case (forward A)
  have "concat (p_send A) = concat (take bulk (p_send A)) @ concat (drop bulk (p_send A))"
    by (metis append_take_drop_id concat_append)
  then show ?case by (simp add: pipe_bytes_def)
next
  case (get A k out rest ms)
  then show ?case using read_stream_concat by (fastforce simp: pipe_bytes_def)
qed (auto simp: pipe_bytes_def concat_chunk)

section \<open>Shared memory\<close>

text \<open>
  Both processes of a channel have their own handle on the same ring and the same pool: what one of them has written
  is what the other one finds. The sizes, the names and the recorded read index of the peer belong to the handle.
\<close>

definition chan_sync :: "ntp_shm_context \<Rightarrow> ntp_shm_context \<Rightarrow> ntp_shm_context" where
  "chan_sync a d = d
     \<lparr>ntsring_handle := (case (ntsring_handle a, ntsring_handle d) of
        (Some s, Some t) \<Rightarrow> Some (t\<lparr>queue := queue s\<rparr>) | (_, t) \<Rightarrow> t),
      mp_handler := (case (mp_handler a, mp_handler d) of
        (Some h, Some k) \<Rightarrow> Some (k\<lparr>shm_mp := shm_mp h, shm_mp_nodes := shm_mp_nodes h, shm_mem := shm_mem h\<rparr>) | (_, k) \<Rightarrow> k)\<rparr>"

lemma view_sync:
  assumes a: "chan_view n b (c, p) a used msgs" and d: "chan_view n b (c, q) d used' msgs'"
  shows "chan_view n b (c, q) (chan_sync a d) used msgs"
proof -
  obtain s h where s: "ntsring_handle a = Some s" "mp_handler a = Some h" "idx_ring s"
    using a by (auto simp: chan_view_def elim: chan_okE)
  obtain t k where t: "ntsring_handle d = Some t" "mp_handler d = Some k" "idx_ring t"
    using d by (auto simp: chan_view_def elim: chan_okE)
  have c: "capacity s = capacity t" "ele_size s = ele_size t" "peer_read_idx t = q"
    using a d s t by (auto simp: chan_view_def chan_sig_def idx_ring_def word_eq_iff_unat)
  let ?t = "t\<lparr>queue := queue s\<rparr>" and ?k = "k\<lparr>shm_mp := shm_mp h, shm_mp_nodes := shm_mp_nodes h, shm_mem := shm_mem h\<rparr>"
  have cs: "ntsring_handle (chan_sync a d) = Some ?t" "mp_handler (chan_sync a d) = Some ?k"
    by (simp_all add: chan_sync_def s t)
  have r: "idx_ring ?t = idx_ring s" "shmring_contents ?t = shmring_contents s"
    using c by (simp_all add: idx_ring_def shmring_inv_def shmring_contents_def)
  then have i: "ring_idx ?t = ring_idx s" by (simp add: ring_idx_def)
  have "pool_inv n (?k, us) = pool_inv n (h, us)" for us by (simp add: pool_inv_def mp_ok_def)
  with a s c r i cs show ?thesis
    by (simp add: chan_view_def chan_ok_def ctx_ok_def ctx_msgs_def pending_def pool_mem_def chan_sig_def)
qed

section \<open>The four processes\<close>

text \<open>What does not change: the configurations, the two sockets, the partition and the connection of the receiver.\<close>

record plane_par =
  pp_nts :: nts_config
  pp_ntp :: ntp_config
  pp_wsock :: int
  pp_rsock :: int
  pp_part :: nat
  pp_conn :: nat

text \<open>The state, and as a record of the run the bytes that were written and the bytes that were read.\<close>

record plane =
  pn_writer :: "unit nts_context"
  pn_sconn :: ntb_conn
  pn_slink :: ntb_data_link
  pn_lk :: ntb_link_custom
  pn_loc :: recv_local
  pn_reader :: "unit nts_context"
  pn_wrote :: "byte list"
  pn_read :: "byte list"

definition sock_at :: "unit nts_context \<Rightarrow> int \<Rightarrow> (nat \<times> nt_sock_context) outcome" where
  "sock_at nts s = bind_out (find_sock nts s) (\<lambda>r. case r of None \<Rightarrow> Undef | Some xs \<Rightarrow> Ret xs)"

definition plane_write :: "plane_par \<Rightarrow> nat \<Rightarrow> byte list \<Rightarrow> nat \<Rightarrow> plane \<Rightarrow> plane outcome" where
  "plane_write pp junk buf k P =
     bind_out (nts_write (pp_nts pp) [] junk (pn_writer P) (pp_wsock pp) buf k) (\<lambda>(rc, w).
     bind_out (sock_at w (pp_wsock pp)) (\<lambda>(_, sk).
     bind_out (deref (sk_send sk)) (\<lambda>ctx.
       Ret (P\<lparr>pn_writer := w, pn_wrote := pn_wrote P @ take (nat rc) buf,
              pn_sconn := (pn_sconn P)\<lparr>nc_send_ring := chan_sync ctx (nc_send_ring (pn_sconn P))\<rparr>\<rparr>))))"

definition plane_forward :: "plane_par \<Rightarrow> send_env \<Rightarrow> plane \<Rightarrow> plane outcome" where
  "plane_forward pp env P =
     bind_out (ntp_send_buff_data (pp_ntp pp) env (pn_slink P) (pn_sconn P)) (\<lambda>(_, dl, conn).
     bind_out (sock_at (pn_writer P) (pp_wsock pp)) (\<lambda>(x, sk).
     bind_out (deref (sk_send sk)) (\<lambda>ctx.
       Ret (P\<lparr>pn_sconn := conn, pn_slink := dl,
              pn_writer := put_sock (pn_writer P) x (sk\<lparr>sk_send := Live (chan_sync (nc_send_ring conn) ctx)\<rparr>),
              pn_lk := set_link (pn_lk P) (pp_part pp) (mirror dl (link_of (pn_lk P) (pp_part pp)))\<rparr>))))"

text \<open>A turn that leaves the loop of the receiver ends the run.\<close>

definition plane_deliver :: "plane_par \<Rightarrow> recv_env \<Rightarrow> plane \<Rightarrow> plane outcome" where
  "plane_deliver pp env P =
     bind_out (ntp_recv_turn (pp_ntp pp) env (pp_part pp) (pn_lk P) (pn_loc P)) (\<lambda>t.
     case t of
       Return rc lk \<Rightarrow> Abort
     | Go lk loc \<Rightarrow>
         bind_out (conn_at lk (pp_conn pp)) (\<lambda>conn.
         bind_out (sock_at (pn_reader P) (pp_rsock pp)) (\<lambda>(y, sk).
         bind_out (deref (sk_recv sk)) (\<lambda>ctx.
           Ret (P\<lparr>pn_lk := lk, pn_loc := loc, pn_slink := reflect (link_of lk (pp_part pp)) (pn_slink P),
                  pn_reader := put_sock (pn_reader P) y (sk\<lparr>sk_recv := Live (chan_sync (nc_recv_ring conn) ctx)\<rparr>)\<rparr>)))))"

definition plane_read :: "plane_par \<Rightarrow> read_env \<Rightarrow> nat \<Rightarrow> plane \<Rightarrow> plane outcome" where
  "plane_read pp env k P =
     bind_out (nts_read (pp_nts pp) env (pn_reader P) (pp_rsock pp) k) (\<lambda>(rc, out, r).
     bind_out (sock_at r (pp_rsock pp)) (\<lambda>(_, sk).
     bind_out (deref (sk_recv sk)) (\<lambda>ctx.
     bind_out (conn_at (pn_lk P) (pp_conn pp)) (\<lambda>conn.
       Ret (P\<lparr>pn_reader := r, pn_read := pn_read P @ take (nat rc) out,
              pn_lk := set_conn (pn_lk P) (pp_conn pp) (conn\<lparr>nc_recv_ring := chan_sync ctx (nc_recv_ring conn)\<rparr>)\<rparr>)))))"

text \<open>Any of the four may be next, with any arguments; a call that would wait is not taken.\<close>

inductive plane_step :: "plane_par \<Rightarrow> plane \<Rightarrow> plane \<Rightarrow> bool" for pp where
  put: "0 < k \<Longrightarrow> k \<le> length buf \<Longrightarrow> plane_write pp junk buf k P = Ret P' \<Longrightarrow> plane_step pp P P'"
| forward: "se_shadow env = [] \<Longrightarrow> se_arrivals env = [] \<Longrightarrow> plane_forward pp env P = Ret P' \<Longrightarrow> plane_step pp P P'"
| deliver: "re_pops env = [] \<Longrightarrow> plane_deliver pp env P = Ret P' \<Longrightarrow> plane_step pp P P'"
| get: "0 < k \<Longrightarrow> k < 2 ^ 31 \<Longrightarrow> rv_front env = [] \<Longrightarrow> rv_next env = [] \<Longrightarrow> plane_read pp env k P = Ret P' \<Longrightarrow> plane_step pp P P'"

section \<open>The pipeline behind a state\<close>

definition plane_cfg :: "plane_par \<Rightarrow> nat \<Rightarrow> bool" where
  "plane_cfg pp b \<longleftrightarrow> sock_cfg (pp_nts pp) b \<and> flow_cfg (pp_ntp pp) \<and> 0 \<le> pp_wsock pp \<and> 0 \<le> pp_rsock pp \<and>
     unat (max_payloadsize (pp_nts pp)) \<le> unat (datapacket_payload_size (pp_ntp pp))"

abbreviation msgs_of :: "byte list list \<Rightarrow> (u16 \<times> byte list) list" where
  "msgs_of \<equiv> map (Pair NTP_DATA)"

definition writer_view :: "plane_par \<Rightarrow> nat \<Rightarrow> nat \<Rightarrow> nat \<Rightarrow> unit nts_context \<Rightarrow> byte list list \<Rightarrow> bool" where
  "writer_view pp n b c nts ms \<longleftrightarrow>
     (\<exists>x sk q. find_sock nts (pp_wsock pp) = Ret (Some (x, sk)) \<and> writer_ok n b (c, q) sk (msgs_of ms))"

definition reader_view :: "plane_par \<Rightarrow> nat \<Rightarrow> nat \<Rightarrow> nat \<Rightarrow> unit nts_context \<Rightarrow> byte list list \<Rightarrow> byte list \<Rightarrow> bool" where
  "reader_view pp n b c nts ms cache \<longleftrightarrow>
     (\<exists>y sk q. find_sock nts (pp_rsock pp) = Ret (Some (y, sk)) \<and> so_state sk = ESTABLISHED \<and>
        sock_inv n b (c, q) (pp_nts pp) sk ms \<and> sk_cache sk = cache)"

abbreviation src_port_of :: "ntb_conn \<Rightarrow> u16" where "src_port_of conn \<equiv> ucast (drop_bit 16 (nc_conn_id conn))"

abbreviation dst_port_of :: "ntb_conn \<Rightarrow> u16" where "dst_port_of conn \<equiv> ucast (nc_conn_id conn)"

definition wire_view :: "plane_par \<Rightarrow> nat \<Rightarrow> ntb_conn \<Rightarrow> ntb_data_link \<Rightarrow> ntb_link_custom \<Rightarrow> byte list list \<Rightarrow> bool" where
  "wire_view pp w conn dl lk ms \<longleftrightarrow>
     (\<exists>got. wire_inv (pp_ntp pp) (dl, link_of lk (pp_part pp),
        got @ map (wire_pkt (src_port_of conn) (dst_port_of conn)) ms, got)) \<and> lag_ok lk (pp_part pp) \<and> wire_cap dl = w"

definition recv_view ::
  "plane_par \<Rightarrow> nat \<Rightarrow> nat \<Rightarrow> nat \<Rightarrow> ntb_conn \<Rightarrow> ntb_link_custom \<Rightarrow> recv_local \<Rightarrow> byte list list \<Rightarrow> bool"
where
  "recv_view pp n b c sconn lk loc ms \<longleftrightarrow>
     (\<exists>conn q. recv_ready lk (pp_part pp) (src_port_of sconn) (dst_port_of sconn) (pp_conn pp) conn loc \<and>
        chan_view n b (c, q) (nc_recv_ring conn) [] (msgs_of ms))"

text \<open>\<open>n\<close> blocks of \<open>b\<close> bytes and a ring of \<open>c\<close> slots for each channel, and \<open>w\<close> slots in the ring over the bridge.\<close>

definition plane_view :: "plane_par \<Rightarrow> nat \<Rightarrow> nat \<Rightarrow> nat \<Rightarrow> nat \<Rightarrow> plane \<Rightarrow> pipe \<Rightarrow> bool" where
  "plane_view pp n b c w P A \<longleftrightarrow>
     writer_view pp n b c (pn_writer P) (p_send A) \<and>
     chan_view n b (c, 0) (nc_send_ring (pn_sconn P)) [] (msgs_of (p_send A)) \<and>
     wire_view pp w (pn_sconn P) (pn_slink P) (pn_lk P) (p_wire A) \<and>
     recv_view pp n b c (pn_sconn P) (pn_lk P) (pn_loc P) (p_recv A) \<and>
     reader_view pp n b c (pn_reader P) (p_recv A) (p_cache A) \<and>
     (\<forall>m \<in> set (p_send A) \<union> set (p_wire A) \<union> set (p_recv A). 0 < length m \<and> length m \<le> unat (max_payloadsize (pp_nts pp)))"

lemma plane_cfgD:
  fixes m :: "byte list"
  assumes "plane_cfg pp b"
  shows "sock_cfg (pp_nts pp) b" "flow_cfg (pp_ntp pp)" "0 \<le> pp_wsock pp" "0 \<le> pp_rsock pp"
    "length m \<le> unat (max_payloadsize (pp_nts pp)) \<Longrightarrow> length m \<le> unat (datapacket_payload_size (pp_ntp pp))"
    "length m \<le> unat (max_payloadsize (pp_nts pp)) \<Longrightarrow> 8 + length m \<le> b"
  using assms by (auto simp: plane_cfg_def sock_cfg_def)

text \<open>Each of the four calls returns exactly when there is room or something to read, and implements its step.\<close>

lemma write_view:
  assumes cfg: "plane_cfg pp b" and v: "plane_view pp n b c w P A" and k: "0 < k" "k \<le> length buf"
  defines "ms \<equiv> chunk (unat (max_payloadsize (pp_nts pp))) (take k buf)"
  shows "if length (p_send A) + length ms \<le> c - 1
    then \<exists>P'. plane_write pp junk buf k P = Ret P' \<and> plane_view pp n b c w P' (A\<lparr>p_send := p_send A @ ms\<rparr>) \<and>
      pn_wrote P' = pn_wrote P @ take k buf \<and> pn_read P' = pn_read P
    else plane_write pp junk buf k P = Spin"
proof -
  obtain x sk q where sk: "find_sock (pn_writer P) (pp_wsock pp) = Ret (Some (x, sk))" "writer_ok n b (c, q) sk (msgs_of (p_send A))"
    using v by (auto simp: plane_view_def writer_view_def)
  then obtain ctx where ctx: "so_state sk = ESTABLISHED" "sk_send sk = Live ctx" "chan_view n b (c, q) ctx [] (msgs_of (p_send A))"
    by (auto simp: writer_ok_def)
  note nw = nts_write_sock [OF plane_cfgD(3) [OF cfg] sk(1) ctx(1) k(1), of "pp_nts pp" "[]" junk buf]
  note sw = sock_write_view [OF plane_cfgD(1) [OF cfg] ctx(3,2) k, folded ms_def]
  have ml: "0 < length m \<and> length m \<le> unat (max_payloadsize (pp_nts pp))" if "m \<in> set ms" for m
    using that chunk_length unfolding ms_def by blast
  show ?thesis
  proof (cases "length (p_send A) + length ms \<le> c - 1")
    case True
    with sw obtain ctx' where c': "sock_write (pp_nts pp) [] sk buf k = Ret (k, sk\<lparr>sk_send := Live ctx'\<rparr>)"
      "chan_view n b (c, q) ctx' [] (msgs_of (p_send A @ ms))" by auto
    let ?nts = "put_sock (pn_writer P) x (sk\<lparr>sk_send := Live ctx'\<rparr>)"
    let ?conn = "(pn_sconn P)\<lparr>nc_send_ring := chan_sync ctx' (nc_send_ring (pn_sconn P))\<rparr>"
    have run: "plane_write pp junk buf k P = Ret (P\<lparr>pn_writer := ?nts, pn_wrote := pn_wrote P @ take k buf, pn_sconn := ?conn\<rparr>)"
      using find_put_sock [OF sk(1)] by (simp add: plane_write_def nw c'(1) sock_at_def deref_def)
    have "chan_view n b (c, 0) (nc_send_ring ?conn) [] (msgs_of (p_send A @ ms))"
      using view_sync [OF c'(2)] v by (auto simp: plane_view_def)
    moreover have "writer_view pp n b c ?nts (p_send A @ ms)"
      using find_put_sock [OF sk(1)] ctx(1) c'(2) by (auto simp: writer_view_def writer_ok_def)
    ultimately show ?thesis using True v ml unfolding run by (auto simp: plane_view_def wire_view_def recv_view_def)
  next
    case False
    with sw have "sock_write (pp_nts pp) [] sk buf k = Spin" by simp
    with False show ?thesis by (simp add: plane_write_def nw)
  qed
qed

lemma recv_viewI:
  assumes "recv_ready lk (pp_part pp) (src_port_of sconn) (dst_port_of sconn) (pp_conn pp) (conn\<lparr>nc_recv_ring := ring\<rparr>) loc"
    "chan_view n b (c, q) ring [] (msgs_of ms)"
  shows "recv_view pp n b c sconn lk loc ms"
  unfolding recv_view_def using assms by (intro exI [of _ "conn\<lparr>nc_recv_ring := ring\<rparr>"] exI [of _ q]) simp

lemma recv_ready_link: "recv_ready (set_link lk p dl) p sp dp r conn loc = recv_ready lk p sp dp r conn loc"
  by (simp add: recv_ready_def)

lemma lag_mirror: "p < length (lk_partitions lk) \<Longrightarrow> lag_ok (set_link lk p (mirror dl (link_of lk p))) p = lag_ok lk p"
  by (simp add: lag_ok_def set_link_def Let_def)

lemma forward_view:
  assumes cfg: "plane_cfg pp b" and v: "plane_view pp n b c w P A" and env: "se_shadow env = []" "se_arrivals env = []"
  defines "k \<equiv> nat (bulk_size (pp_ntp pp))"
  shows "if wire_used (pn_slink P) + min k (length (p_send A)) < w
    then \<exists>P'. plane_forward pp env P = Ret P' \<and>
      plane_view pp n b c w P' (A\<lparr>p_send := drop k (p_send A), p_wire := p_wire A @ take k (p_send A)\<rparr>) \<and>
      pn_wrote P' = pn_wrote P \<and> pn_read P' = pn_read P
    else plane_forward pp env P = Spin"
proof -
  let ?sp = "src_port_of (pn_sconn P)" and ?dp = "dst_port_of (pn_sconn P)" and ?r = "link_of (pn_lk P) (pp_part pp)"
  obtain got where g: "wire_inv (pp_ntp pp) (pn_slink P, ?r, got @ map (wire_pkt ?sp ?dp) (p_wire A), got)"
    "lag_ok (pn_lk P) (pp_part pp)" "wire_cap (pn_slink P) = w" using v by (auto simp: plane_view_def wire_view_def)
  obtain x sk q where sk: "find_sock (pn_writer P) (pp_wsock pp) = Ret (Some (x, sk))" "writer_ok n b (c, q) sk (msgs_of (p_send A))"
    using v by (auto simp: plane_view_def writer_view_def)
  then obtain ctx where ctx: "so_state sk = ESTABLISHED" "sk_send sk = Live ctx" "chan_view n b (c, q) ctx [] (msgs_of (p_send A))"
    by (auto simp: writer_ok_def)
  have sv: "chan_view n b (c, 0) (nc_send_ring (pn_sconn P)) [] (msgs_of (p_send A))"
    and len: "\<forall>m \<in> set (p_send A). length m \<le> unat (datapacket_payload_size (pp_ntp pp))"
    and p: "pp_part pp < length (lk_partitions (pn_lk P))"
    using v plane_cfgD(5) [OF cfg] by (auto simp: plane_view_def recv_view_def recv_ready_def)
  note ns = ntp_send_view [OF plane_cfgD(2) [OF cfg] sv len g(1) env, folded k_def]
  show ?thesis
  proof (cases "wire_used (pn_slink P) + min k (length (p_send A)) < w")
    case True
    with ns g(3) obtain rc dl ring where r: "ntp_send_buff_data (pp_ntp pp) env (pn_slink P) (pn_sconn P) =
        Ret (rc, dl, (pn_sconn P)\<lparr>nc_send_ring := ring\<rparr>)" "chan_view n b (c, 0) ring [] (msgs_of (drop k (p_send A)))"
      "wire_inv (pp_ntp pp) (dl, mirror dl ?r, got @ map (wire_pkt ?sp ?dp) (p_wire A @ take k (p_send A)), got)" by auto
    let ?nts = "put_sock (pn_writer P) x (sk\<lparr>sk_send := Live (chan_sync ring ctx)\<rparr>)"
    let ?lk = "set_link (pn_lk P) (pp_part pp) (mirror dl ?r)"
    have run: "plane_forward pp env P = Ret (P\<lparr>pn_sconn := (pn_sconn P)\<lparr>nc_send_ring := ring\<rparr>, pn_slink := dl,
        pn_writer := ?nts, pn_lk := ?lk\<rparr>)"
      using sk(1) ctx(2) by (simp add: plane_forward_def r(1) sock_at_def deref_def)
    have cap: "wire_cap dl = w" using g(1,3) r(3) by (auto simp: wire_inv.simps)
    have "writer_view pp n b c ?nts (drop k (p_send A))"
      using find_put_sock [OF sk(1)] ctx(1) view_sync [OF r(2) ctx(3)] by (auto simp: writer_view_def writer_ok_def)
    moreover have "wire_view pp w ((pn_sconn P)\<lparr>nc_send_ring := ring\<rparr>) dl ?lk (p_wire A @ take k (p_send A))"
      using r(3) p g(2) cap by (auto simp: wire_view_def lag_mirror)
    moreover have "recv_view pp n b c ((pn_sconn P)\<lparr>nc_send_ring := ring\<rparr>) ?lk (pn_loc P) (p_recv A)"
      using v by (auto simp: plane_view_def recv_view_def recv_ready_link)
    ultimately show ?thesis using True v r(2) unfolding run
      by (auto simp: plane_view_def dest: in_set_takeD in_set_dropD)
  next
    case False
    with ns g(3) show ?thesis by (simp add: plane_forward_def)
  qed
qed

lemma wire_empty:
  assumes "wire_inv cfg (s, r, got, got)"
  shows "rb_cur_index (local_ring r) = rb_cur_index (remote_ring s)"
proof -
  have "ring_list (unat (rb_capacity (remote_ring s))) (unat (rb_cur_index (local_ring r)))
      (unat (rb_cur_index (remote_ring s))) (slot_pkt (rb_area (remote_ring s)) (pkt_size cfg)) = []"
    using wire_pending [OF assms, of "[]"] by simp
  then show ?thesis using ring_list_empty [OF wire_inv_idx(3,1) [OF assms]] by (metis word_eq_iff_unat)
qed

lemma deliver_view:
  assumes cfg: "plane_cfg pp b" and v: "plane_view pp n b c w P A" and env: "re_pops env = []"
  shows "case p_wire A of
      [] \<Rightarrow> \<exists>P'. plane_deliver pp env P = Ret P' \<and> plane_view pp n b c w P' A \<and> pn_wrote P' = pn_wrote P \<and> pn_read P' = pn_read P
    | m # ms \<Rightarrow>
        if length (p_recv A) < c - 1
        then \<exists>P'. plane_deliver pp env P = Ret P' \<and> plane_view pp n b c w P' (A\<lparr>p_wire := ms, p_recv := p_recv A @ [m]\<rparr>) \<and>
          pn_wrote P' = pn_wrote P \<and> pn_read P' = pn_read P
        else plane_deliver pp env P = Spin"
proof -
  let ?sp = "src_port_of (pn_sconn P)" and ?dp = "dst_port_of (pn_sconn P)" and ?r = "link_of (pn_lk P) (pp_part pp)"
  have fc: "flow_cfg (pp_ntp pp)" "wire_cfg (pp_ntp pp)" using plane_cfgD(2) [OF cfg] by (simp_all add: flow_cfg_def)
  obtain got where g: "wire_inv (pp_ntp pp) (pn_slink P, ?r, got @ map (wire_pkt ?sp ?dp) (p_wire A), got)"
    "lag_ok (pn_lk P) (pp_part pp)" "wire_cap (pn_slink P) = w" using v by (auto simp: plane_view_def wire_view_def)
  obtain conn q where rr: "recv_ready (pn_lk P) (pp_part pp) ?sp ?dp (pp_conn pp) conn (pn_loc P)"
    "chan_view n b (c, q) (nc_recv_ring conn) [] (msgs_of (p_recv A))" using v by (auto simp: plane_view_def recv_view_def)
  obtain y sk q' where sk: "find_sock (pn_reader P) (pp_rsock pp) = Ret (Some (y, sk))" "so_state sk = ESTABLISHED"
    "sock_inv n b (c, q') (pp_nts pp) sk (p_recv A)" "sk_cache sk = p_cache A" using v by (auto simp: plane_view_def reader_view_def)
  then obtain ctx where ctx: "sk_recv sk = Live ctx" "chan_view n b (c, q') ctx [] (msgs_of (p_recv A))" by (auto simp: sock_inv_def)
  have rd: "reader_view pp n b c (put_sock (pn_reader P) y (sk\<lparr>sk_recv := Live (chan_sync ring ctx)\<rparr>)) ms (p_cache A)"
    if "chan_view n b (c, q) ring [] (msgs_of ms)"
      "\<forall>m \<in> set ms. 0 < length m \<and> length m \<le> unat (max_payloadsize (pp_nts pp))" for ring ms
    using find_put_sock [OF sk(1)] sk(2-4) that view_sync [OF that(1) ctx(2)]
    by (auto simp: reader_view_def sock_inv_def sk_cache_def)
  have ml: "\<forall>m \<in> set (p_wire A) \<union> set (p_recv A). 0 < length m \<and> length m \<le> unat (max_payloadsize (pp_nts pp))"
    using v by (simp add: plane_view_def)
  show ?thesis
  proof (cases "p_wire A")
    case Nil
    let ?P = "P\<lparr>pn_slink := reflect ?r (pn_slink P),
        pn_reader := put_sock (pn_reader P) y (sk\<lparr>sk_recv := Live (chan_sync (nc_recv_ring conn) ctx)\<rparr>)\<rparr>"
    have w: "wire_inv (pp_ntp pp) (pn_slink P, ?r, got, got)" using g(1) Nil by simp
    have "reflect ?r (pn_slink P) = pn_slink P" using wire_inv_rings(4) [OF w] w by (simp add: wire_inv.simps)
    moreover have "plane_deliver pp env P = Ret ?P"
      using recv_turn_idle [OF fc(2) _ w, of env "pn_loc P"] rr(1) sk(1) ctx(1)
      by (simp add: plane_deliver_def recv_ready_def conn_at_def sock_at_def deref_def)
    ultimately show ?thesis using Nil v rd [OF rr(2)] ml by (auto simp: plane_view_def)
  next
    case (Cons m ms)
    have bs: "8 + length m \<le> b" using plane_cfgD(6) [OF cfg] ml Cons by simp
    note rt = recv_turn_view [OF fc(1) rr(1) g(1) _ bs rr(2) env, of "map (wire_pkt ?sp ?dp) ms"]
    show ?thesis
    proof (cases "length (p_recv A) < c - 1")
      case True
      with rt Cons obtain lk loc ring where r: "ntp_recv_turn (pp_ntp pp) env (pp_part pp) (pn_lk P) (pn_loc P) = Ret (Go lk loc)"
        "recv_ready lk (pp_part pp) ?sp ?dp (pp_conn pp) (conn\<lparr>nc_recv_ring := ring\<rparr>) loc"
        "chan_view n b (c, q) ring [] (msgs_of (p_recv A @ [m]))"
        "wire_inv (pp_ntp pp) (reflect (link_of lk (pp_part pp)) (pn_slink P), link_of lk (pp_part pp),
          (got @ [wire_pkt ?sp ?dp m]) @ map (wire_pkt ?sp ?dp) ms, got @ [wire_pkt ?sp ?dp m])"
        "lag_ok lk (pp_part pp)" using g(2) by auto
      let ?P = "P\<lparr>pn_lk := lk, pn_loc := loc, pn_slink := reflect (link_of lk (pp_part pp)) (pn_slink P),
          pn_reader := put_sock (pn_reader P) y (sk\<lparr>sk_recv := Live (chan_sync ring ctx)\<rparr>)\<rparr>"
      have run: "plane_deliver pp env P = Ret ?P"
        using r(1,2) sk(1) ctx(1) by (simp add: plane_deliver_def recv_ready_def conn_at_def sock_at_def deref_def)
      have "wire_view pp w (pn_sconn P) (reflect (link_of lk (pp_part pp)) (pn_slink P)) lk ms"
        using r(4,5) g(3) unfolding wire_view_def by (intro conjI exI [of _ "got @ [wire_pkt ?sp ?dp m]"]) simp_all
      moreover have "recv_view pp n b c (pn_sconn P) lk loc (p_recv A @ [m])" by (rule recv_viewI [OF r(2,3)])
      moreover have "reader_view pp n b c (pn_reader ?P) (p_recv A @ [m]) (p_cache A)"
        using rd [OF r(3)] ml Cons by simp
      ultimately show ?thesis using True Cons v unfolding run by (auto simp: plane_view_def)
    next
      case False
      with rt Cons show ?thesis by (simp add: plane_deliver_def)
    qed
  qed
qed

lemma read_view:
  assumes cfg: "plane_cfg pp b" and v: "plane_view pp n b c w P A" and k: "0 < k" "k < 2 ^ 31"
    and env: "rv_front env = []" "rv_next env = []"
  shows "if length (p_cache A) > 2 * k then plane_read pp env k P = Undef
    else case read_stream (unat (max_payloadsize (pp_nts pp))) (p_cache A) (p_recv A) k of
      None \<Rightarrow> plane_read pp env k P = Spin
    | Some (out, rest, ms) \<Rightarrow>
        \<exists>P'. plane_read pp env k P = Ret P' \<and> plane_view pp n b c w P' (A\<lparr>p_recv := ms, p_cache := rest\<rparr>) \<and>
          pn_wrote P' = pn_wrote P \<and> pn_read P' = pn_read P @ out"
proof -
  obtain y sk q' where sk: "find_sock (pn_reader P) (pp_rsock pp) = Ret (Some (y, sk))" "so_state sk = ESTABLISHED"
    "sock_inv n b (c, q') (pp_nts pp) sk (p_recv A)" "sk_cache sk = p_cache A" using v by (auto simp: plane_view_def reader_view_def)
  note nr = nts_read_sock [OF plane_cfgD(4) [OF cfg] sk(1,2) k(1), of "pp_nts pp" env]
  note sr = sock_read_view [OF sk(3) k env, unfolded sk(4)]
  let ?rs = "read_stream (unat (max_payloadsize (pp_nts pp))) (p_cache A) (p_recv A) k"
  show ?thesis
  proof (cases "length (p_cache A) > 2 * k")
    case True
    then have "p_cache A \<noteq> []" by auto
    then have "sock_read (pp_nts pp) env sk k = Undef" using sock_read_cached [OF sk(3) _ k, of env] sk(4) True by auto
    with True nr(2) show ?thesis by (simp add: plane_read_def)
  next
    case False
    show ?thesis
    proof (cases ?rs)
      case None
      with sr False nr(1) show ?thesis by (simp add: plane_read_def)
    next
      case (Some z)
      then obtain out rest ms where z: "?rs = Some (out, rest, ms)" by (cases z) auto
      with sr False obtain sk' where sk': "sock_read (pp_nts pp) env sk k = Ret (Some out, sk')"
        "sock_inv n b (c, q') (pp_nts pp) sk' ms" "sk_cache sk' = rest" "so_state sk' = ESTABLISHED" using sk(2) by auto
      obtain ctx where ctx: "sk_recv sk' = Live ctx" "chan_view n b (c, q') ctx [] (msgs_of ms)" using sk'(2) by (auto simp: sock_inv_def)
      obtain conn q where rr: "recv_ready (pn_lk P) (pp_part pp) (src_port_of (pn_sconn P)) (dst_port_of (pn_sconn P)) (pp_conn pp) conn (pn_loc P)"
        "chan_view n b (c, q) (nc_recv_ring conn) [] (msgs_of (p_recv A))" using v by (auto simp: plane_view_def recv_view_def)
      let ?conn = "conn\<lparr>nc_recv_ring := chan_sync ctx (nc_recv_ring conn)\<rparr>"
      let ?P = "P\<lparr>pn_reader := put_sock (pn_reader P) y sk', pn_read := pn_read P @ out, pn_lk := set_conn (pn_lk P) (pp_conn pp) ?conn\<rparr>"
      have run: "plane_read pp env k P = Ret ?P"
        using nr(3) [OF sk'(1)] find_put_sock [OF sk(1)] ctx(1) rr(1)
        by (simp add: plane_read_def sock_at_def deref_def conn_at_def recv_ready_def)
      have sub: "set ms \<subseteq> set (p_recv A)"
        using z take_stream_subset by (fastforce simp: read_stream_def split: if_splits)
      have "recv_ready (pn_lk ?P) (pp_part pp) (src_port_of (pn_sconn P)) (dst_port_of (pn_sconn P)) (pp_conn pp) ?conn (pn_loc P)"
        using rr(1) by (simp add: recv_ready_def)
      then have "recv_view pp n b c (pn_sconn P) (pn_lk ?P) (pn_loc P) ms"
        by (rule recv_viewI [OF _ view_sync [OF ctx(2) rr(2)]])
      moreover have "reader_view pp n b c (put_sock (pn_reader P) y sk') ms rest"
        using find_put_sock [OF sk(1)] sk'(2-4) by (auto simp: reader_view_def)
      moreover have "wire_view pp w (pn_sconn P) (pn_slink P) (pn_lk ?P) (p_wire A)"
        using v by (simp add: plane_view_def wire_view_def lag_ok_def)
      ultimately show ?thesis using False v sub unfolding run z by (auto simp: plane_view_def)
    qed
  qed
qed

section \<open>Refinement\<close>

abbreviation pipe_run :: "plane_par \<Rightarrow> pipe \<Rightarrow> byte list \<Rightarrow> byte list \<Rightarrow> pipe \<Rightarrow> bool" where
  "pipe_run pp \<equiv> pipe_step (unat (max_payloadsize (pp_nts pp))) (nat (bulk_size (pp_ntp pp)))"

text \<open>Every step of the processes is a step of the pipeline.\<close>

lemma plane_simulates:
  assumes cfg: "plane_cfg pp b" and v: "plane_view pp n b c w P A" and st: "plane_step pp P P'"
  shows "\<exists>A' ins outs. pipe_run pp A ins outs A' \<and> plane_view pp n b c w P' A' \<and>
     pn_wrote P' = pn_wrote P @ ins \<and> pn_read P' = pn_read P @ outs"
  using st
proof cases
  case (put k buf junk)
  have mx: "0 < unat (max_payloadsize (pp_nts pp))" by (rule sock_cfg_pos(1) [OF plane_cfgD(1) [OF cfg]])
  have "\<exists>A'. plane_view pp n b c w P' A' \<and> A' = A\<lparr>p_send := p_send A @ chunk (unat (max_payloadsize (pp_nts pp))) (take k buf)\<rparr> \<and>
      pn_wrote P' = pn_wrote P @ take k buf \<and> pn_read P' = pn_read P"
    using write_view [OF cfg v put(1,2), of junk] put(3) by (auto split: if_splits)
  with pipe_step.put [OF mx, of "nat (bulk_size (pp_ntp pp))" A "take k buf"] show ?thesis by fastforce
next
  case (forward env)
  show ?thesis
    using forward_view [OF cfg v forward(1,2)] forward(3) pipe_step.forward [of _ "nat (bulk_size (pp_ntp pp))" A]
    by (fastforce split: if_splits)
next
  case (deliver env)
  show ?thesis
  proof (cases "p_wire A")
    case Nil
    then show ?thesis using deliver_view [OF cfg v deliver(1)] deliver(2) pipe_step.idle [OF Nil] by fastforce
  next
    case (Cons m ms)
    then show ?thesis using deliver_view [OF cfg v deliver(1)] deliver(2) pipe_step.deliver [OF Cons]
      by (fastforce split: if_splits)
  qed
next
  case (get k env)
  obtain out rest ms where z: "read_stream (unat (max_payloadsize (pp_nts pp))) (p_cache A) (p_recv A) k = Some (out, rest, ms)"
    using read_view [OF cfg v get(1-4)] get(5) by (auto split: if_splits option.splits)
  then show ?thesis using read_view [OF cfg v get(1-4)] get(5) pipe_step.get [OF z] by (fastforce split: if_splits)
qed

definition plane_inv :: "plane_par \<Rightarrow> nat \<Rightarrow> nat \<Rightarrow> nat \<Rightarrow> nat \<Rightarrow> plane \<Rightarrow> bool" where
  "plane_inv pp n b c w P \<longleftrightarrow> (\<exists>A. plane_view pp n b c w P A \<and> pn_wrote P = pn_read P @ pipe_bytes A)"

lemma plane_inv_step: "plane_cfg pp b \<Longrightarrow> plane_inv pp n b c w P \<Longrightarrow> plane_step pp P P' \<Longrightarrow> plane_inv pp n b c w P'"
proof -
  assume cfg: "plane_cfg pp b" and "plane_inv pp n b c w P" and st: "plane_step pp P P'"
  then obtain A where A: "plane_view pp n b c w P A" "pn_wrote P = pn_read P @ pipe_bytes A" by (auto simp: plane_inv_def)
  from plane_simulates [OF cfg A(1) st] obtain A' ins outs where "pipe_run pp A ins outs A'" "plane_view pp n b c w P' A'"
    "pn_wrote P' = pn_wrote P @ ins" "pn_read P' = pn_read P @ outs" by blast
  with pipe_step_bytes A(2) show "plane_inv pp n b c w P'" unfolding plane_inv_def by fastforce
qed

lemma plane_inv_reachable:
  assumes "plane_cfg pp b" "plane_inv pp n b c w P" "(plane_step pp)\<^sup>*\<^sup>* P P'"
  shows "plane_inv pp n b c w P'"
  using assms(3,2) by (induction rule: rtranclp_induct) (auto intro: plane_inv_step [OF assms(1)])

section \<open>What is under way\<close>

definition wire_packets :: "ntp_config \<Rightarrow> ntb_data_link \<Rightarrow> ntb_data_link \<Rightarrow> packet_view list" where
  "wire_packets cfg s r = ring_list (unat (rb_capacity (remote_ring s))) (unat (rb_cur_index (local_ring r)))
     (unat (rb_cur_index (remote_ring s))) (slot_pkt (rb_area (remote_ring s)) (pkt_size cfg))"

text \<open>The bytes in the cache of the reader, in the ring of the reader, in the ring over the bridge and in the ring of the writer.\<close>

definition in_transit :: "plane_par \<Rightarrow> nat \<Rightarrow> plane \<Rightarrow> byte list" where
  "in_transit pp b P =
     (case find_sock (pn_reader P) (pp_rsock pp) of Ret (Some (_, sk)) \<Rightarrow> sk_cache sk | _ \<Rightarrow> []) @
     (case lk_conns (pn_lk P) (pp_conn pp) of None \<Rightarrow> [] | Some conn \<Rightarrow> concat (map snd (ctx_msgs b (nc_recv_ring conn)))) @
     concat (map (\<lambda>(_, _, _, bs). bs) (wire_packets (pp_ntp pp) (pn_slink P) (link_of (pn_lk P) (pp_part pp)))) @
     concat (map snd (ctx_msgs b (nc_send_ring (pn_sconn P))))"

lemma snd_msgs [simp]: "snd \<circ> Pair t = (\<lambda>m. m)"
  by (simp add: comp_def)

lemma in_transit_view:
  assumes "plane_view pp n b c w P A"
  shows "in_transit pp b P = pipe_bytes A"
proof -
  obtain got where "wire_inv (pp_ntp pp) (pn_slink P, link_of (pn_lk P) (pp_part pp),
      got @ map (wire_pkt (src_port_of (pn_sconn P)) (dst_port_of (pn_sconn P))) (p_wire A), got)"
    using assms by (auto simp: plane_view_def wire_view_def)
  from wire_pending [OF this refl]
  have "map (\<lambda>(_, _, _, bs). bs) (wire_packets (pp_ntp pp) (pn_slink P) (link_of (pn_lk P) (pp_part pp))) = p_wire A"
    unfolding wire_packets_def by (simp add: comp_def)
  moreover have "\<exists>conn. lk_conns (pn_lk P) (pp_conn pp) = Some conn \<and> ctx_msgs b (nc_recv_ring conn) = msgs_of (p_recv A)"
    using assms by (auto simp: plane_view_def recv_view_def recv_ready_def chan_view_def)
  moreover have "ctx_msgs b (nc_send_ring (pn_sconn P)) = msgs_of (p_send A)" using assms by (simp add: plane_view_def chan_view_def)
  ultimately show ?thesis
    using assms by (auto simp: in_transit_def pipe_bytes_def plane_view_def reader_view_def)
qed

text \<open>A connection over which nothing has been sent.\<close>

definition plane_start :: "plane_par \<Rightarrow> nat \<Rightarrow> nat \<Rightarrow> nat \<Rightarrow> nat \<Rightarrow> plane \<Rightarrow> bool" where
  "plane_start pp n b c w P \<longleftrightarrow> plane_cfg pp b \<and> plane_view pp n b c w P empty_pipe \<and> pn_wrote P = [] \<and> pn_read P = []"

lemma plane_start_inv:
  assumes "plane_start pp n b c w P" "(plane_step pp)\<^sup>*\<^sup>* P P'"
  obtains A where "plane_cfg pp b" "plane_view pp n b c w P' A" "pn_wrote P' = pn_read P' @ pipe_bytes A"
proof -
  have cfg: "plane_cfg pp b" using assms(1) by (simp add: plane_start_def)
  moreover have "plane_inv pp n b c w P"
    using assms(1) by (auto simp: plane_start_def plane_inv_def pipe_bytes_def empty_pipe_def intro!: exI [of _ empty_pipe])
  ultimately show ?thesis using plane_inv_reachable [OF cfg _ assms(2)] that by (auto simp: plane_inv_def)
qed

section \<open>Nothing gets stuck\<close>

lemma wire_drained_room:
  assumes "wire_inv cfg (s, link_of lk p, got, got)" "lag_ok lk p"
  shows "wire_used s < 512"
proof -
  have "wire_used s = ring_count (unat (rb_capacity (local_ring (link_of lk p)))) (unat (remote_cum (link_of lk p)))
      (unat (rb_cur_index (local_ring (link_of lk p))))"
    using assms(1) wire_empty [OF assms(1)] by (simp add: wire_used_def wire_inv.simps)
  also have "\<dots> \<le> unat (pt_recv_packet_counter (lk_partitions lk ! p)) mod 512" using assms(2) by (simp add: lag_ok_def Let_def)
  finally show ?thesis using mod_less_divisor [of 512 "unat (pt_recv_packet_counter (lk_partitions lk ! p))"] by linarith
qed

definition pipe_load :: "pipe \<Rightarrow> nat" where
  "pipe_load A = 3 * length (p_send A) + 2 * length (p_wire A) + length (p_recv A) + (if p_cache A = [] then 0 else 1)"

text \<open>While there is something under way, one of the processes can move it on.\<close>

lemma plane_moves:
  assumes cfg: "plane_cfg pp b" and v: "plane_view pp n b c w P A" and sz: "2 \<le> c" "0 < bulk_size (pp_ntp pp)"
      "nat (bulk_size (pp_ntp pp)) + 512 \<le> w" and ne: "A \<noteq> empty_pipe"
  obtains P' A' where "plane_step pp P P'" "plane_view pp n b c w P' A'" "pipe_load A' < pipe_load A" "pn_wrote P' = pn_wrote P"
proof -
  note done1 = that
  let ?mx = "unat (max_payloadsize (pp_nts pp))"
  let ?renv = "\<lparr>rv_front = [], rv_next = [], rv_intr1 = False, rv_intr2 = False, rv_junk = ntm_blank\<rparr>"
  have mx: "?mx < 2 ^ 16" by (rule max_payload_16)
  have rd: thesis if "0 < k" "k < 2 ^ 16" "length (p_cache A) \<le> 2 * k" "read_stream ?mx (p_cache A) (p_recv A) k = Some (out, rest, ms)"
      "pipe_load (A\<lparr>p_recv := ms, p_cache := rest\<rparr>) < pipe_load A" for k out rest ms
  proof -
    have k: "k < 2 ^ 31" using that(2) by simp
    with read_view [OF cfg v that(1) k, of ?renv] that(3,4) obtain P' where "plane_read pp ?renv k P = Ret P'"
      "plane_view pp n b c w P' (A\<lparr>p_recv := ms, p_cache := rest\<rparr>)" "pn_wrote P' = pn_wrote P" by auto
    then show thesis using that(5) plane_step.get [OF that(1) k, of ?renv] by (intro done1 [of P' "A\<lparr>p_recv := ms, p_cache := rest\<rparr>"]) auto
  qed
  have full: "p_cache A \<noteq> [] \<or> p_recv A \<noteq> [] \<or> p_wire A \<noteq> [] \<or> p_send A \<noteq> []" using ne by (cases A) (auto simp: empty_pipe_def)
  consider "p_cache A \<noteq> []" | m ms where "p_cache A = []" "p_recv A = m # ms" | m ms where "p_cache A = []" "p_recv A = []" "p_wire A = m # ms"
    | "p_cache A = []" "p_recv A = []" "p_wire A = []" "p_send A \<noteq> []"
    using full by (cases "p_cache A"; cases "p_recv A"; cases "p_wire A") auto
  then show thesis
  proof cases
    case 1
    obtain sk :: nt_sock_context where "sk_cache sk = p_cache A" "length (sk_buf sk) = ?mx"
      using v by (auto simp: plane_view_def reader_view_def sock_inv_def)
    then have "length (p_cache A) \<le> ?mx" by (metis sk_cache_def length_take min.cobounded1)
    then have "length (p_cache A) < 2 ^ 16" using mx by linarith
    then show thesis using 1 by (intro rd [of "length (p_cache A)" "p_cache A" "[]" "p_recv A"])
        (auto simp: read_stream_def pipe_load_def)
  next
    case (2 m ms)
    have "0 < length m" "length m < 2 ^ 16" using v 2 mx by (auto simp: plane_view_def)
    then show thesis using 2 by (intro rd [of "length m" m "[]" ms]) (auto simp: read_stream_def pipe_load_def)
  next
    case (3 m ms)
    let ?e = "\<lparr>re_pops = [], re_fin_area = None, re_intr1 = False, re_intr2 = False, re_ctrl_shadow = []\<rparr>"
    obtain P' where "plane_deliver pp ?e P = Ret P'" "plane_view pp n b c w P' (A\<lparr>p_wire := ms, p_recv := p_recv A @ [m]\<rparr>)"
      "pn_wrote P' = pn_wrote P" using deliver_view [OF cfg v, of ?e] 3 sz(1) by auto
    then show thesis using plane_step.deliver [of ?e pp P P'] 3 by (intro that [of P']) (auto simp: pipe_load_def)
  next
    case 4
    let ?k = "nat (bulk_size (pp_ntp pp))"
    let ?e = "\<lparr>se_shadow = [], se_arrivals = [], se_time = 0,
        se_pkt = \<lparr>header = \<lparr>h_src_port = 0, h_dst_port = 0, h_msg_len = 0, h_msg_type = 0\<rparr>, payload = []\<rparr>\<rparr>"
    obtain got where "wire_inv (pp_ntp pp) (pn_slink P, link_of (pn_lk P) (pp_part pp), got, got)" "lag_ok (pn_lk P) (pp_part pp)"
      using v 4 by (auto simp: plane_view_def wire_view_def)
    from wire_drained_room [OF this] have "wire_used (pn_slink P) + min ?k (length (p_send A)) < w" using sz(3) by linarith
    with forward_view [OF cfg v, of ?e] obtain P' where "plane_forward pp ?e P = Ret P'"
      "plane_view pp n b c w P' (A\<lparr>p_send := drop ?k (p_send A), p_wire := p_wire A @ take ?k (p_send A)\<rparr>)"
      "pn_wrote P' = pn_wrote P" by auto
    moreover have "0 < length (p_send A)" "0 < ?k" using 4 sz(2) by simp_all
    then have "3 * (length (p_send A) - ?k) + 2 * min (length (p_send A)) ?k < 3 * length (p_send A)" by linarith
    ultimately show thesis using plane_step.forward [of ?e pp P P'] 4 by (intro that [of P']) (auto simp: pipe_load_def)
  qed
qed

lemma plane_drains:
  assumes cfg: "plane_cfg pp b" and v: "plane_view pp n b c w P A" and sz: "2 \<le> c" "0 < bulk_size (pp_ntp pp)"
      "nat (bulk_size (pp_ntp pp)) + 512 \<le> w"
  shows "\<exists>P'. (plane_step pp)\<^sup>*\<^sup>* P P' \<and> plane_view pp n b c w P' empty_pipe \<and> pn_wrote P' = pn_wrote P"
  using v
proof (induction "pipe_load A" arbitrary: P A rule: less_induct)
  case less
  show ?case
  proof (cases "A = empty_pipe")
    case False
    obtain P1 A1 where s: "plane_step pp P P1" "plane_view pp n b c w P1 A1" "pipe_load A1 < pipe_load A" "pn_wrote P1 = pn_wrote P"
      by (rule plane_moves [OF cfg less.prems sz False])
    from less.hyps [OF s(3,2)] s(1,4) show ?thesis by (metis converse_rtranclp_into_rtranclp)
  qed (use less.prems in auto)
qed

section \<open>Properties\<close>

text \<open>
  C1: an established connection is a byte stream. In whatever order the application writes, its proxy sends, the other
  proxy receives and the other application reads, the bytes that were written are the bytes that were read followed by the
  bytes that are under way: in the ring of the writer, in the ring over the bridge, in the ring of the reader and in its
  cache. None is lost, repeated, changed or overtaken.
\<close>

theorem stream_delivery:
  assumes "plane_start pp n b c w P" "(plane_step pp)\<^sup>*\<^sup>* P P'"
  shows "pn_wrote P' = pn_read P' @ in_transit pp b P'"
  by (rule plane_start_inv [OF assms]) (simp add: in_transit_view)

text \<open>
  C2: an established connection never blocks for good. From every state that it can reach, the two proxies and the reader can
  go on until every byte that was written has been read, provided that the channels have two slots, and that the ring over
  the bridge has 512 slots more than one call sends: the receiver writes its read index back every 512 packets only.
\<close>

theorem stream_drain:
  assumes "plane_start pp n b c w P" "(plane_step pp)\<^sup>*\<^sup>* P P'"
    and "2 \<le> c" "0 < bulk_size (pp_ntp pp)" "nat (bulk_size (pp_ntp pp)) + 512 \<le> w"
  shows "\<exists>P''. (plane_step pp)\<^sup>*\<^sup>* P' P'' \<and> pn_wrote P'' = pn_wrote P' \<and> pn_read P'' = pn_wrote P' \<and> in_transit pp b P'' = []"
proof -
  obtain A where A: "plane_cfg pp b" "plane_view pp n b c w P' A" by (rule plane_start_inv [OF assms(1,2)])
  obtain P'' where d: "(plane_step pp)\<^sup>*\<^sup>* P' P''" "plane_view pp n b c w P'' empty_pipe" "pn_wrote P'' = pn_wrote P'"
    using plane_drains [OF A assms(3-5)] by blast
  have run: "(plane_step pp)\<^sup>*\<^sup>* P P''" using assms(2) d(1) by (rule rtranclp_trans)
  have e: "in_transit pp b P'' = []" using in_transit_view [OF d(2)] by (simp add: pipe_bytes_def empty_pipe_def)
  obtain A' where "plane_view pp n b c w P'' A'" "pn_wrote P'' = pn_read P'' @ pipe_bytes A'" by (rule plane_start_inv [OF assms(1) run])
  then have "pn_wrote P'' = pn_read P''" using e in_transit_view by fastforce
  with d e show ?thesis by auto
qed

text \<open>A connection from port 2 to port 1 with channels as they are after their creation.\<close>

definition demo_pp :: plane_par where
  "demo_pp = \<lparr>pp_nts = demo_nts_cfg, pp_ntp = demo_cfg, pp_wsock = 1, pp_rsock = 1, pp_part = 0, pp_conn = 0\<rparr>"

definition demo_conn :: "u32 \<Rightarrow> ntp_shm_context \<Rightarrow> ntb_conn" where
  "demo_conn i ctx = \<lparr>nc_partition = Live 0, nc_partition_id = 0, nc_detect_time = 0, nc_conn_id = i, nc_state = READY_CONN,
     nc_send_ring = ctx, nc_recv_ring = ctx, nc_ep_data = 0, nc_epoll = 0, nc_sockid = 1, nc_epoll_ctx = Null\<rparr>"

definition demo_dl :: ntb_data_link where
  "demo_dl = (let r = \<lparr>rb_cur_index = 0, rb_area = replicate 16384 0, rb_capacity = 1024\<rparr> in
     \<lparr>local_cum = 0, remote_cum = 0, local_ring = r, remote_ring = r\<rparr>)"

definition demo_lk :: "ntp_shm_context \<Rightarrow> ntb_link_custom" where
  "demo_lk ctx = \<lparr>lk_conns = (\<lambda>_. None)(0 := Some (demo_conn 0x00010002 ctx)), lk_epolls = (\<lambda>_. None),
     lk_port2conn = \<lparr>hm_size = 1, listSize = 1, hm_list = [[([2, 0, 1, 0], 0)]], autoAssign = True\<rparr>,
     lk_ntp_ntm = \<lparr>sc_stat = SHM_UNREADY, sc_handle = Null, sc_addr = Null, sc_addrlen = 0\<rparr>,
     lk_ep_send = \<lparr>ep_stat = EP_UNREADY, ep_handle = Null, ep_addr = Null, ep_addrlen = 0\<rparr>,
     lk_epoll_ctx_map = createHashMap, lk_num_partition = 1,
     lk_partitions = [\<lparr>pt_id = 0, pt_num_conns = 1, pt_recv_packet_counter = 0, pt_send_list = [0], pt_data_link = demo_dl\<rparr>],
     lk_round_robin_idx = 0, lk_ctrl_link = demo_dl\<rparr>"

definition demo_plane :: "ntp_shm_context \<Rightarrow> plane" where
  "demo_plane ctx = \<lparr>pn_writer = demo_app (demo_sock ctx ctx), pn_sconn = demo_conn 0x00020001 ctx, pn_slink = demo_dl,
     pn_lk = demo_lk ctx, pn_loc = recv_start, pn_reader = demo_app (demo_sock ctx ctx), pn_wrote = [], pn_read = []\<rparr>"

lemma demo_ports: "create_conn_id 1 2 = 0x00010002" "ucast (drop_bit 16 (0x00020001 :: u32)) = (2 :: u16)" "ucast (0x00020001 :: u32) = (1 :: u16)"
  by (simp_all add: create_conn_id_def)

lemma demo_lk_get: "map_get (lk_port2conn (demo_lk ctx)) 0x00010002 = Ret (Some 0)"
proof -
  have four: "4 = Suc (Suc (Suc (Suc 0)))" by simp
  have "le_enc 4 (unat (0x00010002 :: u32)) = [2, 0, 1, 0]" unfolding four le_enc.simps by simp
  then have k: "id_key 0x00010002 = Ret [2, 0, 1, 0]" by (simp add: id_key_def)
  show ?thesis
    by (simp add: map_get_def k defaultGet_def defaultExists_def slot_of_def demo_lk_def defaultEqual_def array_get_def)
qed

lemma demo_plane_start:
  assumes v: "chan_view 5 16 (4, 0) ctx [] []"
  shows "plane_start demo_pp 5 16 4 1024 (demo_plane ctx)"
proof -
  have cfg: "plane_cfg demo_pp 16"
    using demo_nts_cfg_ok demo_wire(1) by (simp add: plane_cfg_def demo_pp_def flow_cfg_def) (simp add: demo_cfg_def demo_nts_cfg_def)
  have f: "fresh_wire demo_cfg demo_dl demo_dl"
    by (simp add: fresh_wire_def ring_ok_def demo_dl_def Let_def demo_cfg_def set_replicate_conv_if)
  have w: "wire_inv demo_cfg (demo_dl, demo_dl, [], [])" by (rule fresh_wire_inv [OF demo_wire(1) f])
  have wv: "wire_view demo_pp 1024 (demo_conn 0x00020001 ctx) demo_dl (demo_lk ctx) []"
    using w by (auto simp: wire_view_def demo_pp_def demo_lk_def lag_ok_def intro!: exI [of _ "[]"])
       (simp_all add: demo_dl_def Let_def ring_count_eq_0)
  have "recv_ready (demo_lk ctx) 0 2 1 0 (demo_conn 0x00010002 ctx) recv_start"
    using demo_lk_get [of ctx] by (simp add: recv_ready_def demo_ports(1)) (simp add: demo_lk_def demo_conn_def recv_start_def)
  moreover have p1: "(131073 :: u16) = 1" by simp
  ultimately have "recv_view demo_pp 5 16 4 (demo_conn 0x00020001 ctx) (demo_lk ctx) recv_start []"
    using v unfolding recv_view_def by (intro exI [of _ "demo_conn 0x00010002 ctx"] exI [of _ 0]) (simp add: demo_pp_def demo_conn_def p1)
  moreover have "writer_view demo_pp 5 16 4 (demo_app (demo_sock ctx ctx)) []"
    using v demo_app_sock by (auto simp: writer_view_def demo_pp_def writer_ok_def demo_sock_def)
  moreover have "reader_view demo_pp 5 16 4 (demo_app (demo_sock ctx ctx)) [] []"
    using v demo_app_sock by (auto simp: reader_view_def demo_pp_def sock_inv_def demo_sock_def sk_cache_def demo_nts_cfg_def)
  ultimately show ?thesis
    using cfg v wv by (simp add: plane_start_def plane_view_def empty_pipe_def demo_plane_def) (simp add: demo_conn_def)
qed

lemma demo_plane_put:
  assumes "chan_view 5 16 (4, 0) ctx [] []"
  obtains P where "(plane_step demo_pp)\<^sup>*\<^sup>* (demo_plane ctx) P" "pn_wrote P = [1, 2, 3, 4, 5, 6, 7, 8, 9, 10]" "pn_read P = []"
proof -
  let ?buf = "[1, 2, 3, 4, 5, 6, 7, 8, 9, 10] :: byte list"
  have s: "plane_cfg demo_pp 16" "plane_view demo_pp 5 16 4 1024 (demo_plane ctx) empty_pipe"
    using demo_plane_start [OF assms] by (simp_all add: plane_start_def)
  have ch: "chunk (unat (max_payloadsize (pp_nts demo_pp))) (take 10 ?buf) = [[1, 2, 3, 4, 5, 6, 7, 8], [9, 10]]"
    using demo_chunk by (simp add: demo_pp_def)
  obtain P where P: "plane_write demo_pp 0 ?buf 10 (demo_plane ctx) = Ret P" "pn_wrote P = ?buf" "pn_read P = []"
    using write_view [OF s, of 10 ?buf 0] unfolding ch by (auto simp: empty_pipe_def demo_plane_def)
  have "plane_step demo_pp (demo_plane ctx) P" by (rule plane_step.put [OF _ _ P(1)]) simp_all
  with P(2,3) that show ?thesis by blast
qed

theorem stream_delivery_witness:
  "\<exists>ctx P. demo_chan = Ret ctx \<and> (plane_step demo_pp)\<^sup>*\<^sup>* (demo_plane ctx) P \<and>
     [1, 2, 3, 4, 5, 6, 7, 8, 9, 10] = pn_read P @ in_transit demo_pp 16 P"
proof -
  obtain ctx where c: "demo_chan = Ret ctx" "chan_view 5 16 (4, 0) ctx [] []" by (rule demo_chan_view)
  obtain P where P: "(plane_step demo_pp)\<^sup>*\<^sup>* (demo_plane ctx) P" "pn_wrote P = [1, 2, 3, 4, 5, 6, 7, 8, 9, 10]"
    by (rule demo_plane_put [OF c(2)])
  from stream_delivery [OF demo_plane_start [OF c(2)] P(1)] P c(1) show ?thesis by metis
qed

theorem stream_drain_witness:
  "\<exists>ctx P. demo_chan = Ret ctx \<and> (plane_step demo_pp)\<^sup>*\<^sup>* (demo_plane ctx) P \<and>
     pn_read P = [1, 2, 3, 4, 5, 6, 7, 8, 9, 10] \<and> in_transit demo_pp 16 P = []"
proof -
  obtain ctx where c: "demo_chan = Ret ctx" "chan_view 5 16 (4, 0) ctx [] []" by (rule demo_chan_view)
  obtain P where P: "(plane_step demo_pp)\<^sup>*\<^sup>* (demo_plane ctx) P" "pn_wrote P = [1, 2, 3, 4, 5, 6, 7, 8, 9, 10]"
    by (rule demo_plane_put [OF c(2)])
  have "2 \<le> (4 :: nat)" "0 < bulk_size (pp_ntp demo_pp)" "nat (bulk_size (pp_ntp demo_pp)) + 512 \<le> 1024"
    by (simp_all add: demo_pp_def demo_cfg_def)
  from stream_drain [OF demo_plane_start [OF c(2)] P(1) this] P c(1) show ?thesis by (metis rtranclp_trans)
qed

end
