(* ===== verification/Tailq.thy ===== *)
theory Tailq
  imports Prelude
begin

text \<open>
  The tail queue of \<^verbatim>\<open>sys/queue.h\<close>, in which the monitor keeps its free ports and its free sockets. The
  elements are the indices of an array; each has the two links of \<^verbatim>\<open>TAILQ_ENTRY\<close>. The macros test nothing:
  an element inserted twice or removed twice is written over as the assignments say.
\<close>

section \<open>The structure and the macros\<close>

text \<open>The places that hold the address of an element: the head, or the link in an element.\<close>

datatype tq_loc = Head | Next nat

record tailq =
  tq_first :: "nat option"
  tq_last :: tq_loc
  tq_next :: "nat \<Rightarrow> nat option"
  tq_prev :: "nat \<Rightarrow> tq_loc option"

text \<open>Reading and writing through \<^verbatim>\<open>tqe_prev\<close> and \<^verbatim>\<open>tqh_last\<close>.\<close>

fun tq_at :: "tailq \<Rightarrow> tq_loc \<Rightarrow> nat option" where
  "tq_at q Head = tq_first q"
| "tq_at q (Next i) = tq_next q i"

fun tq_store :: "tailq \<Rightarrow> tq_loc \<Rightarrow> nat option \<Rightarrow> tailq" where
  "tq_store q Head v = q\<lparr>tq_first := v\<rparr>"
| "tq_store q (Next i) v = q\<lparr>tq_next := (tq_next q)(i := v)\<rparr>"

text \<open>\<^verbatim>\<open>TAILQ_INIT\<close> on a zeroed head over zeroed elements.\<close>

definition tailq_init :: tailq where
  "tailq_init = \<lparr>tq_first = None, tq_last = Head, tq_next = (\<lambda>_. None), tq_prev = (\<lambda>_. None)\<rparr>"

definition tailq_insert_tail :: "tailq \<Rightarrow> nat \<Rightarrow> tailq" where
  "tailq_insert_tail q x =
     (let q1 = q\<lparr>tq_next := (tq_next q)(x := None)\<rparr>;
          q2 = q1\<lparr>tq_prev := (tq_prev q1)(x := Some (tq_last q1))\<rparr>;
          q3 = tq_store q2 (tq_last q2) (Some x)
      in q3\<lparr>tq_last := Next x\<rparr>)"

text \<open>\<^verbatim>\<open>TAILQ_REMOVE\<close>; an element that was never inserted has a null \<^verbatim>\<open>tqe_prev\<close>.\<close>

definition tailq_remove :: "tailq \<Rightarrow> nat \<Rightarrow> tailq outcome" where
  "tailq_remove q x =
     (let q1 = (case tq_next q x of
                  Some y \<Rightarrow> q\<lparr>tq_prev := (tq_prev q)(y := tq_prev q x)\<rparr>
                | None \<Rightarrow> (case tq_prev q x of Some l \<Rightarrow> q\<lparr>tq_last := l\<rparr> | None \<Rightarrow> q))
      in case tq_prev q1 x of
           None \<Rightarrow> Undef
         | Some l \<Rightarrow> Ret (tq_store q1 l (tq_next q1 x)))"

section \<open>The list a tail queue stands for\<close>

fun tq_links :: "tailq \<Rightarrow> tq_loc \<Rightarrow> nat list \<Rightarrow> bool" where
  "tq_links q l [] \<longleftrightarrow> tq_at q l = None \<and> tq_last q = l"
| "tq_links q l (x # xs) \<longleftrightarrow> tq_at q l = Some x \<and> tq_prev q x = Some l \<and> tq_links q (Next x) xs"

definition tq_rep :: "tailq \<Rightarrow> nat list \<Rightarrow> bool" where
  "tq_rep q xs \<longleftrightarrow> distinct xs \<and> tq_links q Head xs"

named_theorems tq_defs \<open>the assignments of the macros\<close>

lemmas [tq_defs] = tailq_insert_tail_def tailq_remove_def Let_def

lemma tq_links_frame:
  assumes "tq_links q l xs" "tq_at q' l = tq_at q l" "tq_last q' = tq_last q"
    "\<And>x. x \<in> set xs \<Longrightarrow> tq_next q' x = tq_next q x \<and> tq_prev q' x = tq_prev q x"
  shows "tq_links q' l xs"
  using assms by (induction xs arbitrary: l) auto

lemma tq_rep_init [simp]: "tq_rep tailq_init []"
  by (simp add: tq_rep_def tailq_init_def)

lemma tq_rep_first: "tq_rep q xs \<Longrightarrow> tq_first q = (case xs of [] \<Rightarrow> None | x # _ \<Rightarrow> Some x)"
  by (cases xs) (auto simp: tq_rep_def)

lemma tq_links_last: "tq_links q l xs \<Longrightarrow> tq_last q = (if xs = [] then l else Next (last xs))"
  by (induction xs arbitrary: l) auto

lemma tq_links_insert:
  assumes "tq_links q l xs" "x \<notin> set xs" "distinct xs" "l \<noteq> Next x" "\<forall>i. l = Next i \<longrightarrow> i \<notin> set xs"
  shows "tq_links (tailq_insert_tail q x) l (xs @ [x])"
  using assms
proof (induction xs arbitrary: l)
  case Nil
  then show ?case by (cases l) (auto simp: tq_defs)
next
  case (Cons y ys)
  let ?q = "tailq_insert_tail q x"
  from Cons.prems have ys: "tq_links q (Next y) ys" by simp
  have "tq_last q \<noteq> l"
    using tq_links_last [OF ys] Cons.prems by (auto split: if_splits)
  moreover have "tq_prev ?q y = tq_prev q y" using Cons.prems by (cases "tq_last q") (auto simp: tq_defs)
  moreover have "tq_at ?q l = tq_at q l"
    using \<open>tq_last q \<noteq> l\<close> Cons.prems by (cases "tq_last q"; cases l) (auto simp: tq_defs)
  moreover have "tq_links ?q (Next y) (ys @ [x])" using Cons by auto
  ultimately show ?case using Cons.prems by simp
qed

lemma tq_rep_insert: "tq_rep q xs \<Longrightarrow> x \<notin> set xs \<Longrightarrow> tq_rep (tailq_insert_tail q x) (xs @ [x])"
  by (simp add: tq_rep_def tq_links_insert)

lemma tq_rep_remove_first:
  assumes "tq_rep q (x # xs)"
  shows "\<exists>q'. tailq_remove q x = Ret q' \<and> tq_rep q' xs"
proof (cases xs)
  case Nil
  with assms show ?thesis by (auto simp: tq_rep_def tq_defs)
next
  case (Cons y ys)
  let ?q = "q\<lparr>tq_prev := (tq_prev q)(y := Some Head), tq_first := Some y\<rparr>"
  have d: "x \<noteq> y" "y \<notin> set ys" "distinct ys" "tq_links q (Next y) ys" using assms Cons by (auto simp: tq_rep_def)
  then have "tq_links ?q (Next y) ys" by (auto intro: tq_links_frame)
  moreover have "tailq_remove q x = Ret ?q" using assms Cons d by (auto simp: tq_rep_def tq_defs)
  ultimately show ?thesis using d Cons by (auto simp: tq_rep_def)
qed

text \<open>
  An element inserted again while it is still in the queue becomes its last element: what stood behind it is no
  longer reached from the head. All links are those of the shortened queue but the one that leads back from it.
\<close>

definition tq_back :: "tq_loc \<Rightarrow> nat list \<Rightarrow> tq_loc" where
  "tq_back l xs = (if xs = [] then l else Next (last xs))"

definition tq_fix :: "tailq \<Rightarrow> nat \<Rightarrow> tq_loc \<Rightarrow> tailq" where
  "tq_fix q x l = q\<lparr>tq_prev := (tq_prev q)(x := Some l)\<rparr>"

definition tq_cut :: "tailq \<Rightarrow> nat list \<Rightarrow> nat \<Rightarrow> bool" where
  "tq_cut q xs x \<longleftrightarrow> distinct (xs @ [x]) \<and> tq_links (tq_fix q x (tq_back Head xs)) Head (xs @ [x])"

lemma tq_back_Cons [simp]: "tq_back l (y # xs) = tq_back (Next y) xs"
  by (simp add: tq_back_def)

lemma tq_fix_same [simp]: "tq_prev q x = Some l \<Longrightarrow> tq_fix q x l = q"
  by (simp add: tq_fix_def fun_upd_idem)

lemma tq_links_cut:
  assumes "tq_links q l (xs @ x # ys)" "distinct (xs @ x # ys)" "ys \<noteq> []"
    "\<forall>i. l = Next i \<longrightarrow> i \<notin> set (xs @ x # ys)"
  shows "tq_links (tq_fix (tailq_insert_tail q x) x (tq_back l xs)) l (xs @ [x])"
  using assms
proof (induction xs arbitrary: l)
  case Nil
  then have "tq_last q = Next (last ys)" using tq_links_last [of q "Next x" ys] by simp
  moreover have "last ys \<in> set ys" using Nil by simp
  ultimately show ?case using Nil by (cases l) (auto simp: tq_defs tq_fix_def tq_back_def)
next
  case (Cons y zs)
  let ?q = "tailq_insert_tail q x"
  have "tq_last q = Next (last ys)" using tq_links_last [OF Cons.prems(1)] Cons.prems(3) by simp
  moreover have ys: "last ys \<in> set ys" using Cons.prems(3) by simp
  ultimately have "tq_at ?q l = tq_at q l" "tq_prev ?q y = tq_prev q y"
    using Cons.prems by (cases l; force simp: tq_defs)+
  moreover have "tq_links (tq_fix ?q x (tq_back (Next y) zs)) (Next y) (zs @ [x])"
    using Cons by auto
  ultimately show ?case using Cons.prems by (cases l) (auto simp: tq_fix_def)
qed

lemma tq_rep_cut: "tq_rep q (xs @ x # ys) \<Longrightarrow> ys \<noteq> [] \<Longrightarrow> tq_cut (tailq_insert_tail q x) xs x"
  using tq_links_cut [of q Head xs x ys] by (auto simp: tq_rep_def tq_cut_def)

text \<open>The link is mended as soon as the element before it leaves.\<close>

lemma tq_cut_remove_first:
  assumes "tq_cut q (y # xs) x"
  shows "\<exists>q'. tailq_remove q y = Ret q' \<and> (if xs = [] then tq_rep q' [x] else tq_cut q' xs x)"
proof (cases xs)
  case Nil
  with assms have "tq_next q y = Some x" "tq_prev q y = Some Head" "y \<noteq> x" "tq_next q x = None" "tq_last q = Next x"
    by (auto simp: tq_cut_def tq_fix_def tq_back_def split: if_splits)
  with Nil show ?thesis by (auto simp: tq_rep_def tq_defs)
next
  case (Cons z zs)
  let ?q = "q\<lparr>tq_prev := (tq_prev q)(z := Some Head), tq_first := Some z\<rparr>"
  have d: "y \<noteq> z" "x \<noteq> y" "x \<noteq> z" "z \<notin> set zs" "x \<notin> set zs" "distinct zs"
    "tq_links (tq_fix q x (tq_back (Next z) zs)) (Next z) (zs @ [x])" "tq_next q y = Some z" "tq_prev q y = Some Head"
    using assms Cons by (auto simp: tq_cut_def tq_fix_def tq_back_def split: if_splits)
  then have "tq_links (tq_fix ?q x (tq_back (Next z) zs)) (Next z) (zs @ [x])"
    by (auto simp: tq_fix_def intro: tq_links_frame)
  moreover have "tailq_remove q y = Ret ?q" using d by (auto simp: tq_defs)
  ultimately show ?thesis using d Cons by (auto simp: tq_cut_def tq_back_def tq_fix_def)
qed

text \<open>An element that stands first when it is inserted again can no longer be removed.\<close>

definition tq_stuck :: "tailq \<Rightarrow> nat \<Rightarrow> bool" where
  "tq_stuck q x \<longleftrightarrow> tq_first q = Some x \<and> tq_next q x = None \<and> (\<exists>y. y \<noteq> x \<and> tq_prev q x = Some (Next y))"

lemma tq_rep_stuck: "tq_rep q (x # ys) \<Longrightarrow> ys \<noteq> [] \<Longrightarrow> tq_stuck (tailq_insert_tail q x) x"
  using tq_links_last [of q "Next x" ys]
  by (cases ys rule: rev_cases) (auto simp: tq_rep_def tq_stuck_def tq_defs)

lemma tq_stuck_remove: "tq_stuck q x \<Longrightarrow> \<exists>q'. tailq_remove q x = Ret q' \<and> tq_stuck q' x"
  by (auto simp: tq_stuck_def tq_defs)

end
