(* ===== verification/Nt_Port.thy ===== *)
theory Nt_Port
  imports Tailq
begin

text \<open>
  \<^verbatim>\<open>monitor/src/nt_port.c\<close>: the ports of the monitor. Every port has a status; the ports that may be handed out
  stand in a tail queue. A port asked for by number is marked but stays in the queue, and
  \<^verbatim>\<open>allocate_port\<close> discards such entries when it meets them. The operations run under the mutex of the context,
  so that they take effect one after the other. A port is named by its index in the array.
\<close>

section \<open>Data\<close>

datatype port_status = NT_PORT_UNUSED | NT_PORT_USED

record nt_port =
  port_id :: u16
  np_status :: port_status

record nt_port_context =
  ntport :: "nt_port list"
  num_ports :: int
  free_ntport :: tailq

section \<open>Operations\<close>

text \<open>The loop of \<^verbatim>\<open>init_port_context\<close> from index \<open>i\<close> on, with \<open>n\<close> rounds left; \<^verbatim>\<open>port_id\<close> has 16 bits.\<close>

fun init_port_loop :: "nat \<Rightarrow> nat \<Rightarrow> nt_port_context \<Rightarrow> nt_port_context" where
  "init_port_loop 0 i c = c"
| "init_port_loop (Suc n) i c =
     init_port_loop n (Suc i)
       (c\<lparr>ntport := (ntport c)[i := \<lparr>port_id = of_nat i, np_status = NT_PORT_UNUSED\<rparr>],
          free_ntport := tailq_insert_tail (free_ntport c) i\<rparr>)"

definition init_port_context :: "bool \<Rightarrow> nt_port_context \<Rightarrow> int \<Rightarrow> int \<times> nt_port_context" where
  "init_port_context calloc_ok c max_port =
     (if max_port \<le> 0 then (- 1, c)
      else
        let c1 = c\<lparr>num_ports := max_port\<rparr> in
        if \<not> calloc_ok then (- 1, c1\<lparr>ntport := []\<rparr>)
        else (0, init_port_loop (nat max_port) 0
                   (c1\<lparr>ntport := replicate (nat max_port) \<lparr>port_id = 0, np_status = NT_PORT_UNUSED\<rparr>,
                       free_ntport := tailq_init\<rparr>)))"

text \<open>
  The loop of \<^verbatim>\<open>allocate_port\<close>. When the queue is empty the message is printed and the null pointer is
  dereferenced all the same. A loop that never ends is \<^term>\<open>None\<close>.
\<close>

partial_function (option) allocate_loop :: "nt_port_context \<Rightarrow> (nat \<times> nt_port_context) outcome option" where
  "allocate_loop c =
     (case tq_first (free_ntport c) of
        None \<Rightarrow> Some Undef
      | Some i \<Rightarrow>
          (if length (ntport c) \<le> i then Some Undef
           else
             (case tailq_remove (free_ntport c) i of
                Ret q \<Rightarrow>
                  if np_status (ntport c ! i) \<noteq> NT_PORT_UNUSED then allocate_loop (c\<lparr>free_ntport := q\<rparr>)
                  else Some (Ret (i, c\<lparr>free_ntport := q, ntport := (ntport c)[i := (ntport c ! i)\<lparr>np_status := NT_PORT_USED\<rparr>]\<rparr>))
              | _ \<Rightarrow> Some Undef)))"

definition allocate_port :: "nt_port_context \<Rightarrow> (nat \<times> nt_port_context) outcome" where
  "allocate_port c = (case allocate_loop c of None \<Rightarrow> Spin | Some r \<Rightarrow> r)"

text \<open>The element \<^verbatim>\<open>ntport[portid]\<close> of an id that passed the test against \<^verbatim>\<open>num_ports\<close>.\<close>

definition port_ok :: "nt_port_context \<Rightarrow> int \<Rightarrow> bool" where
  "port_ok c portid \<longleftrightarrow> 0 \<le> portid \<and> portid < num_ports c"

definition allocate_specified_port :: "nt_port_context \<Rightarrow> int \<Rightarrow> (nat option \<times> nt_port_context) outcome" where
  "allocate_specified_port c portid =
     (if \<not> port_ok c portid then Ret (None, c)
      else
        bind_out (array_get (ntport c) (nat portid)) (\<lambda>p.
          if np_status p \<noteq> NT_PORT_UNUSED then Ret (None, c)
          else Ret (Some (nat portid), c\<lparr>ntport := (ntport c)[nat portid := p\<lparr>np_status := NT_PORT_USED\<rparr>]\<rparr>)))"

definition free_port :: "nt_port_context \<Rightarrow> int \<Rightarrow> nt_port_context outcome" where
  "free_port c portid =
     (if \<not> port_ok c portid then Ret c
      else
        bind_out (array_get (ntport c) (nat portid)) (\<lambda>p.
          if np_status p = NT_PORT_UNUSED then Ret c
          else Ret (c\<lparr>ntport := (ntport c)[nat portid := p\<lparr>np_status := NT_PORT_UNUSED\<rparr>],
                      free_ntport := tailq_insert_tail (free_ntport c) (nat portid)\<rparr>)))"

definition get_port :: "nt_port_context \<Rightarrow> int \<Rightarrow> nat option" where
  "get_port c portid = (if \<not> port_ok c portid then None else Some (nat portid))"

definition is_occupied :: "nt_port_context \<Rightarrow> int \<Rightarrow> int outcome" where
  "is_occupied c portid =
     (if \<not> port_ok c portid then Ret (- 1)
      else bind_out (array_get (ntport c) (nat portid)) (\<lambda>p.
        Ret (if np_status p = NT_PORT_UNUSED then 0 else - 1)))"

section \<open>The queue and the states of the ports\<close>

definition port_used :: "nt_port_context \<Rightarrow> nat \<Rightarrow> bool" where
  "port_used c i \<longleftrightarrow> np_status (ntport c ! i) \<noteq> NT_PORT_UNUSED"

text \<open>Every unused port stands in the queue; \<open>xs\<close> is the queue.\<close>

definition port_inv :: "nt_port_context \<Rightarrow> nat list \<Rightarrow> bool" where
  "port_inv c xs \<longleftrightarrow>
     num_ports c = int (length (ntport c)) \<and> tq_rep (free_ntport c) xs \<and> set xs \<subseteq> {..<length (ntport c)} \<and>
     (\<forall>i < length (ntport c). port_id (ntport c ! i) = of_nat i) \<and>
     (\<forall>i < length (ntport c). \<not> port_used c i \<longrightarrow> i \<in> set xs)"

lemma tq_rep_distinct: "tq_rep q xs \<Longrightarrow> distinct xs"
  by (simp add: tq_rep_def)

lemma allocate_loop_used:
  assumes "tq_rep (free_ntport c) xs" "\<forall>i \<in> set xs. i < length (ntport c) \<and> port_used c i"
  shows "allocate_loop c = Some Undef"
  using assms
proof (induction xs arbitrary: c)
  case Nil
  then show ?case using tq_rep_first [OF Nil(1)] by (subst allocate_loop.simps) simp
next
  case (Cons x xs)
  from tq_rep_remove_first [OF Cons.prems(1)] obtain q where q: "tailq_remove (free_ntport c) x = Ret q" "tq_rep q xs"
    by blast
  have "allocate_loop (c\<lparr>free_ntport := q\<rparr>) = Some Undef"
    by (rule Cons.IH) (use q Cons.prems in \<open>auto simp: port_used_def\<close>)
  then show ?case
    using tq_rep_first [OF Cons.prems(1)] q(1) Cons.prems(2) by (subst allocate_loop.simps) (simp add: port_used_def)
qed

lemma allocate_loop_unused:
  assumes "tq_rep (free_ntport c) xs" "\<forall>i \<in> set xs. i < length (ntport c)" "dropWhile (port_used c) xs = i # ys"
  shows "\<exists>q. allocate_loop c = Some (Ret (i, c\<lparr>free_ntport := q,
    ntport := (ntport c)[i := (ntport c ! i)\<lparr>np_status := NT_PORT_USED\<rparr>]\<rparr>)) \<and> tq_rep q ys"
  using assms
proof (induction xs arbitrary: c)
  case (Cons x xs)
  from tq_rep_remove_first [OF Cons.prems(1)] obtain q where q: "tailq_remove (free_ntport c) x = Ret q" "tq_rep q xs"
    by blast
  have same: "port_used (c\<lparr>free_ntport := q\<rparr>) = port_used c" by (auto simp: port_used_def)
  show ?case
  proof (cases "port_used c x")
    case True
    then have "allocate_loop c = allocate_loop (c\<lparr>free_ntport := q\<rparr>)"
      using tq_rep_first [OF Cons.prems(1)] q(1) Cons.prems(2) by (subst allocate_loop.simps) (simp add: port_used_def)
    with Cons.IH [of "c\<lparr>free_ntport := q\<rparr>"] q Cons.prems True show ?thesis by (simp add: same)
  next
    case False
    then show ?thesis
      using tq_rep_first [OF Cons.prems(1)] q Cons.prems(2,3) by (subst allocate_loop.simps) (auto simp: port_used_def)
  qed
qed simp

lemma port_used_update:
  "i < length (ntport c) \<Longrightarrow>
   port_used (c\<lparr>ntport := (ntport c)[i := (ntport c ! i)\<lparr>np_status := s\<rparr>]\<rparr>) j = (if j = i then s \<noteq> NT_PORT_UNUSED else port_used c j)"
  by (auto simp: port_used_def nth_list_update)

lemma port_used_queue [simp]: "port_used (c\<lparr>free_ntport := q\<rparr>) = port_used c"
  by (auto simp: port_used_def)

text \<open>A fresh context: every port is unused and in the queue, in ascending order.\<close>

definition fresh_ports :: "nt_port_context \<Rightarrow> nat \<Rightarrow> nt_port_context" where
  "fresh_ports c n = snd (init_port_context True c (int n))"

lemma init_port_loop_inv:
  assumes "length (ntport c) = i + n" "tq_rep (free_ntport c) [0..<i]"
    "\<forall>j < i. ntport c ! j = \<lparr>port_id = of_nat j, np_status = NT_PORT_UNUSED\<rparr>"
  shows "length (ntport (init_port_loop n i c)) = i + n \<and> num_ports (init_port_loop n i c) = num_ports c \<and>
    tq_rep (free_ntport (init_port_loop n i c)) [0..<i + n] \<and>
    (\<forall>j < i + n. ntport (init_port_loop n i c) ! j = \<lparr>port_id = of_nat j, np_status = NT_PORT_UNUSED\<rparr>)"
  using assms
proof (induction n arbitrary: i c)
  case (Suc n)
  let ?c = "c\<lparr>ntport := (ntport c)[i := \<lparr>port_id = of_nat i, np_status = NT_PORT_UNUSED\<rparr>],
     free_ntport := tailq_insert_tail (free_ntport c) i\<rparr>"
  have "tq_rep (free_ntport ?c) [0..<Suc i]" using tq_rep_insert [OF Suc.prems(2), of i] by simp
  moreover have "\<forall>j < Suc i. ntport ?c ! j = \<lparr>port_id = of_nat j, np_status = NT_PORT_UNUSED\<rparr>"
  proof -
    have "i < length (ntport c)" using Suc.prems(1) by simp
    with Suc.prems(3) show ?thesis by (auto simp: less_Suc_eq)
  qed
  ultimately show ?case using Suc.IH [of ?c "Suc i"] Suc.prems(1) by simp
qed simp

lemma fresh_ports_inv:
  assumes "0 < n"
  shows "port_inv (fresh_ports c n) [0..<n]" "length (ntport (fresh_ports c n)) = n" "\<And>i. i < n \<Longrightarrow> \<not> port_used (fresh_ports c n) i"
proof -
  let ?c = "c\<lparr>num_ports := int n, ntport := replicate n \<lparr>port_id = 0, np_status = NT_PORT_UNUSED\<rparr>, free_ntport := tailq_init\<rparr>"
  have "fresh_ports c n = init_port_loop n 0 ?c"
    using assms by (simp add: fresh_ports_def init_port_context_def Let_def)
  with init_port_loop_inv [of ?c 0 n] show "port_inv (fresh_ports c n) [0..<n]" "length (ntport (fresh_ports c n)) = n"
    "\<And>i. i < n \<Longrightarrow> \<not> port_used (fresh_ports c n) i"
    by (auto simp: port_inv_def port_used_def)
qed

lemma allocate_port_unused:
  assumes inv: "port_inv c xs" and i: "i < length (ntport c)" "\<not> port_used c i"
  obtains j c' ys where "allocate_port c = Ret (j, c')" "j < length (ntport c)" "\<not> port_used c j" "port_inv c' ys"
    "length (ntport c') = length (ntport c)" "set ys \<subseteq> set xs - {j}" "\<And>k. port_used c' k \<longleftrightarrow> k = j \<or> port_used c k"
proof -
  from inv i have "i \<in> set xs" by (auto simp: port_inv_def)
  with i(2) obtain j ys where d: "dropWhile (port_used c) xs = j # ys"
    by (metis dropWhile_eq_Nil_conv neq_Nil_conv)
  then have nj: "\<not> port_used c j" by (metis hd_dropWhile list.distinct(1) list.sel(1))
  have xs: "xs = takeWhile (port_used c) xs @ j # ys" using d by (metis takeWhile_dropWhile_id)
  then have dist: "distinct (takeWhile (port_used c) xs @ j # ys)"
    using inv by (metis port_inv_def tq_rep_distinct)
  have len: "j < length (ntport c)" using inv xs by (metis UnCI in_mono lessThan_iff list.set_intros(1) port_inv_def set_append)
  obtain q where q: "allocate_port c = Ret (j, c\<lparr>free_ntport := q,
      ntport := (ntport c)[j := (ntport c ! j)\<lparr>np_status := NT_PORT_USED\<rparr>]\<rparr>)" (is "_ = Ret (j, ?c)") "tq_rep q ys"
    using allocate_loop_unused [OF _ _ d] inv by (auto simp: port_inv_def allocate_port_def subset_iff)
  have used: "port_used ?c k \<longleftrightarrow> k = j \<or> port_used c k" for k
    using len by (auto simp: port_used_def nth_list_update)
  have "k \<in> set ys" if "k < length (ntport c)" "\<not> port_used ?c k" for k
  proof -
    from that used have k: "k \<in> set xs" "k \<noteq> j" "\<not> port_used c k" using inv by (auto simp: port_inv_def)
    then have "k \<notin> set (takeWhile (port_used c) xs)" by (auto dest: set_takeWhileD)
    with k xs show ?thesis by (metis UnE set_ConsD set_append)
  qed
  moreover have "set ys \<subseteq> set xs - {j}" using dist xs by (metis DiffI Un_iff distinct.simps(2) distinct_append insert_iff
    list.set(2) set_append singletonD subsetI)
  ultimately have "port_inv ?c ys" using inv q(2) len by (auto simp: port_inv_def nth_list_update)
  with that [OF q(1) len nj] used \<open>set ys \<subseteq> set xs - {j}\<close> show ?thesis by simp
qed

lemma allocate_port_exhausted:
  "port_inv c xs \<Longrightarrow> \<forall>i < length (ntport c). port_used c i \<Longrightarrow> allocate_port c = Undef"
  using allocate_loop_used [of c xs] by (auto simp: port_inv_def allocate_port_def subset_iff)

lemma allocate_specified_inv:
  assumes "port_inv c xs" "allocate_specified_port c p = Ret (Some i, c')"
  shows "port_inv c' xs" "p = int i" "i < length (ntport c)" "\<not> port_used c i" "length (ntport c') = length (ntport c)"
    "\<And>k. port_used c' k \<longleftrightarrow> k = i \<or> port_used c k"
  using assms
  by (auto simp: allocate_specified_port_def port_inv_def port_ok_def port_used_def array_get_Ret nth_list_update
      split: if_splits)

text \<open>A port that is no longer in the queue can be given back.\<close>

lemma free_port_inv:
  assumes "port_inv c xs" "i < length (ntport c)" "port_used c i" "i \<notin> set xs"
  shows "\<exists>c'. free_port c (int i) = Ret c' \<and> port_inv c' (xs @ [i]) \<and> length (ntport c') = length (ntport c) \<and>
    (\<forall>k. port_used c' k \<longleftrightarrow> k \<noteq> i \<and> port_used c k)"
  using assms tq_rep_insert [of "free_ntport c" xs i]
  by (auto simp: free_port_def port_inv_def port_ok_def port_used_def nth_list_update)

section \<open>Ownership\<close>

text \<open>
  Clients of the context: \<open>D\<close> are the ports handed out by \<^verbatim>\<open>allocate_port\<close>, which are given back at will, \<open>P\<close> those
  claimed by number.
\<close>

inductive port_run :: "nat \<Rightarrow> nt_port_context \<Rightarrow> nat set \<Rightarrow> nat set \<Rightarrow> bool" for n where
  fresh: "0 < n \<Longrightarrow> port_run n (fresh_ports c n) {} {}"
| dynamic: "port_run n c D P \<Longrightarrow> allocate_port c = Ret (i, c') \<Longrightarrow> port_run n c' (insert i D) P"
| specified: "port_run n c D P \<Longrightarrow> allocate_specified_port c p = Ret (Some i, c') \<Longrightarrow> port_run n c' D (insert i P)"
| freed: "port_run n c D P \<Longrightarrow> i \<in> D \<Longrightarrow> free_port c (int i) = Ret c' \<Longrightarrow> port_run n c' (D - {i}) P"

definition port_own :: "nat \<Rightarrow> nt_port_context \<Rightarrow> nat set \<Rightarrow> nat set \<Rightarrow> nat list \<Rightarrow> bool" where
  "port_own n c D P xs \<longleftrightarrow>
     port_inv c xs \<and> length (ntport c) = n \<and> D \<inter> P = {} \<and> D \<inter> set xs = {} \<and> D \<union> P \<subseteq> {..<n} \<and>
     (\<forall>i < n. port_used c i \<longleftrightarrow> i \<in> D \<union> P)"

lemma allocate_port_RetD:
  assumes "port_inv c xs" "allocate_port c = Ret (i, c')"
  obtains ys where "i < length (ntport c)" "\<not> port_used c i" "port_inv c' ys" "length (ntport c') = length (ntport c)"
    "set ys \<subseteq> set xs - {i}" "\<And>k. port_used c' k \<longleftrightarrow> k = i \<or> port_used c k"
proof (cases "\<forall>i < length (ntport c). port_used c i")
  case True
  with allocate_port_exhausted [OF assms(1)] assms(2) show ?thesis by simp
next
  case False
  then obtain k where "k < length (ntport c)" "\<not> port_used c k" by blast
  from allocate_port_unused [OF assms(1) this] obtain j c2 ys where
    "allocate_port c = Ret (j, c2)" "j < length (ntport c)" "\<not> port_used c j" "port_inv c2 ys"
    "length (ntport c2) = length (ntport c)" "set ys \<subseteq> set xs - {j}" "\<And>k. port_used c2 k \<longleftrightarrow> k = j \<or> port_used c k"
    by metis
  with assms(2) show ?thesis by (intro that [of ys]) auto
qed

lemma port_run_own: "port_run n c D P \<Longrightarrow> \<exists>xs. port_own n c D P xs"
proof (induction rule: port_run.induct)
  case (fresh c)
  then have "port_own n (fresh_ports c n) {} {} [0..<n]"
    using fresh_ports_inv [where n = n and c = c] by (auto simp: port_own_def)
  then show ?case by blast
next
  case (dynamic c D P i c')
  then obtain xs where xs: "port_own n c D P xs" by blast
  then have "port_inv c xs" by (simp add: port_own_def)
  from allocate_port_RetD [OF this dynamic.hyps(2)] obtain ys where ys: "i < length (ntport c)" "\<not> port_used c i" "port_inv c' ys"
    "length (ntport c') = length (ntport c)" "set ys \<subseteq> set xs - {i}" "\<And>k. port_used c' k \<longleftrightarrow> k = i \<or> port_used c k" by metis
  with xs have "port_own n c' (insert i D) P ys" by (auto simp: port_own_def)
  then show ?case by blast
next
  case (specified c D P p i c')
  then obtain xs where xs: "port_own n c D P xs" by blast
  then have "port_inv c xs" by (simp add: port_own_def)
  note s = allocate_specified_inv [OF this specified.hyps(2)]
  from xs s have "port_own n c' D (insert i P) xs" by (auto simp: port_own_def)
  then show ?case by blast
next
  case (freed c D P i c')
  then obtain xs where xs: "port_own n c D P xs" by blast
  with freed.hyps have "port_inv c xs" "i < length (ntport c)" "port_used c i" "i \<notin> set xs"
    by (auto simp: port_own_def)
  from free_port_inv [OF this] freed.hyps(2,3) xs have "port_own n c' (D - {i}) P (xs @ [i])"
    by (auto simp: port_own_def)
  then show ?case by blast
qed

text \<open>
  C14: A port that \<^verbatim>\<open>allocate_port\<close> hands out is in range and belongs to nobody, whatever ports were
  allocated, claimed by number and given back before, as long as only ports from \<^verbatim>\<open>allocate_port\<close> are given back.
\<close>

theorem port_exclusive:
  assumes "port_run n c D P" "allocate_port c = Ret (i, c')"
  shows "i < n \<and> i \<notin> D \<and> i \<notin> P \<and> port_id (ntport c' ! i) = of_nat i"
proof -
  from port_run_own [OF assms(1)] obtain xs where xs: "port_own n c D P xs" by blast
  then have "port_inv c xs" by (simp add: port_own_def)
  from allocate_port_RetD [OF this assms(2)] xs show ?thesis
    by (metis Un_iff port_inv_def port_own_def)
qed

text \<open>
  C21: The loop of \<^verbatim>\<open>allocate_port\<close> ends under the same conditions, although claimed ports are left in its
  queue, and it returns a port whenever fewer than all are in use.
\<close>

theorem allocate_port_terminates:
  assumes "port_run n c D P"
  shows "allocate_port c \<noteq> Spin \<and> ((\<exists>i c'. allocate_port c = Ret (i, c')) \<longleftrightarrow> card (D \<union> P) < n)"
proof -
  from port_run_own [OF assms] obtain xs where xs: "port_own n c D P xs" by blast
  then have inv: "port_inv c xs" by (simp add: port_own_def)
  show ?thesis
  proof (cases "\<exists>i < n. \<not> port_used c i")
    case True
    then obtain i where i: "i < length (ntport c)" "\<not> port_used c i" using xs by (auto simp: port_own_def)
    from i xs have "D \<union> P \<subset> {..<n}" by (auto simp: port_own_def)
    then have "card (D \<union> P) < n" using psubset_card_mono [of "{..<n}" "D \<union> P"] by simp
    with allocate_port_unused [OF inv i] show ?thesis by (metis outcome.distinct(5))
  next
    case False
    then have "allocate_port c = Undef" using allocate_port_exhausted [OF inv] xs by (auto simp: port_own_def)
    moreover from False xs have "D \<union> P = {..<n}" by (auto simp: port_own_def)
    ultimately show ?thesis by simp
  qed
qed

section \<open>Ports claimed by number and given back\<close>

text \<open>\<open>k\<close> allocations in a row.\<close>

fun allocate_ports :: "nat \<Rightarrow> nt_port_context \<Rightarrow> (nat list \<times> nt_port_context) outcome" where
  "allocate_ports 0 c = Ret ([], c)"
| "allocate_ports (Suc k) c =
     bind_out (allocate_port c) (\<lambda>(i, c').
     bind_out (allocate_ports k c') (\<lambda>(is, c''). Ret (i # is, c'')))"

lemma allocate_port_first:
  assumes "tq_first (free_ntport c) = Some i" "tailq_remove (free_ntport c) i = Ret q" "i < length (ntport c)" "\<not> port_used c i"
  shows "allocate_port c = Ret (i, c\<lparr>free_ntport := q, ntport := (ntport c)[i := (ntport c ! i)\<lparr>np_status := NT_PORT_USED\<rparr>]\<rparr>)"
  using assms unfolding allocate_port_def by (subst allocate_loop.simps) (simp add: port_used_def)

lemma allocate_ports_cut:
  assumes "if xs = [] then tq_rep (free_ntport c) [x] else tq_cut (free_ntport c) xs x"
    "\<forall>i \<in> set (xs @ [x]). i < length (ntport c) \<and> \<not> port_used c i" "distinct (xs @ [x])"
  shows "\<exists>c'. allocate_ports (length (xs @ [x])) c = Ret (xs @ [x], c') \<and> allocate_port c' = Undef \<and>
    (\<forall>k. k \<notin> set (xs @ [x]) \<longrightarrow> port_used c' k = port_used c k)"
  using assms
proof (induction xs arbitrary: c)
  case Nil
  from tq_rep_remove_first [of "free_ntport c" x "[]"] Nil obtain q where
    q: "tailq_remove (free_ntport c) x = Ret q" "tq_rep q []" by auto
  have "tq_first (free_ntport c) = Some x" using Nil by (auto simp: tq_rep_def)
  from allocate_port_first [OF this q(1)] Nil obtain c' where
    c': "allocate_port c = Ret (x, c')" "free_ntport c' = q" "\<forall>k. k \<noteq> x \<longrightarrow> port_used c' k = port_used c k"
    by (auto simp: port_used_def nth_list_update)
  moreover have "allocate_port c' = Undef"
    using allocate_loop_used [of c' "[]"] c'(2) q(2) by (simp add: allocate_port_def)
  ultimately show ?case by auto
next
  case (Cons y ys)
  then have cut: "tq_cut (free_ntport c) (y # ys) x" by simp
  from tq_cut_remove_first [OF this] obtain q where q: "tailq_remove (free_ntport c) y = Ret q"
    "if ys = [] then tq_rep q [x] else tq_cut q ys x" by blast
  have "tq_first (free_ntport c) = Some y" using cut by (auto simp: tq_cut_def tq_fix_def)
  from allocate_port_first [OF this q(1)] Cons.prems obtain c' where
    c': "allocate_port c = Ret (y, c')" "free_ntport c' = q" "\<forall>k. k \<noteq> y \<longrightarrow> port_used c' k = port_used c k"
      "length (ntport c') = length (ntport c)"
    by (auto simp: port_used_def nth_list_update)
  have "\<forall>i \<in> set (ys @ [x]). i < length (ntport c') \<and> \<not> port_used c' i" using Cons.prems c' by auto
  from Cons.IH [OF _ this] q(2) c'(2) Cons.prems(3) obtain c'' where
    "allocate_ports (length (ys @ [x])) c' = Ret (ys @ [x], c'')" "allocate_port c'' = Undef"
    "\<forall>k. k \<notin> set (ys @ [x]) \<longrightarrow> port_used c'' k = port_used c' k"
    by (metis append_Cons distinct.simps(2))
  with c' show ?case by (intro exI [of _ c'']) auto
qed

lemma claim_and_free:
  assumes "p < n"
  shows "\<exists>c1 c2. allocate_specified_port (fresh_ports c n) (int p) = Ret (Some p, c1) \<and> free_port c1 (int p) = Ret c2 \<and>
    free_ntport c2 = tailq_insert_tail (free_ntport (fresh_ports c n)) p \<and> length (ntport c2) = n \<and> (\<forall>i < n. \<not> port_used c2 i)"
proof -
  let ?c = "fresh_ports c n"
  have f: "port_inv ?c [0..<n]" "length (ntport ?c) = n" "\<And>i. i < n \<Longrightarrow> \<not> port_used ?c i"
    using fresh_ports_inv [where n = n and c = c] assms by auto
  then show ?thesis using assms
    by (auto simp: allocate_specified_port_def free_port_def port_ok_def port_inv_def port_used_def nth_list_update)
qed

text \<open>
  A port that was claimed by number, as \<^verbatim>\<open>bind\<close> does, is still in the queue when it is given back, and is
  inserted a second time. The ports behind it are cut off: after as many allocations as there are ports up to it the
  next one dereferences a null pointer, although the ports behind it are unused.
\<close>

theorem specified_port_loss:
  assumes "0 < p" "Suc p < n"
  shows "\<exists>c1 c2 c3. allocate_specified_port (fresh_ports c n) (int p) = Ret (Some p, c1) \<and> free_port c1 (int p) = Ret c2 \<and>
    allocate_ports (Suc p) c2 = Ret ([0..<Suc p], c3) \<and> allocate_port c3 = Undef \<and> (\<forall>i. p < i \<and> i < n \<longrightarrow> \<not> port_used c3 i)"
proof -
  have p: "p < n" using assms by simp
  from claim_and_free [OF this] obtain c1 c2 where c: "allocate_specified_port (fresh_ports c n) (int p) = Ret (Some p, c1)"
    "free_port c1 (int p) = Ret c2" "free_ntport c2 = tailq_insert_tail (free_ntport (fresh_ports c n)) p"
    "length (ntport c2) = n" "\<forall>i < n. \<not> port_used c2 i" by blast
  have "[0..<n] = [0..<p] @ p # [Suc p..<n]"
    using p by (metis less_imp_add_positive upt_add_eq_append upt_conv_Cons zero_le)
  then have "tq_cut (free_ntport c2) [0..<p] p"
    using tq_rep_cut [of "free_ntport (fresh_ports c n)" "[0..<p]" p "[Suc p..<n]"] fresh_ports_inv(1) [of n c] c(3) assms
    by (simp add: port_inv_def)
  with allocate_ports_cut [of "[0..<p]" c2 p] c(4,5) assms obtain c3 where
    "allocate_ports (Suc p) c2 = Ret ([0..<Suc p], c3)" "allocate_port c3 = Undef"
    "\<forall>k. k \<notin> set [0..<Suc p] \<longrightarrow> port_used c3 k = port_used c2 k" by auto
  with c show ?thesis by auto
qed

text \<open>The port at the head of the queue can no longer be taken out once it was inserted again.\<close>

lemma allocate_loop_stuck:
  assumes "tq_stuck (free_ntport c) x" "port_used c x" "x < length (ntport c)"
  shows "allocate_loop c = None"
proof -
  have "\<not> (tq_stuck (free_ntport c) x \<and> port_used c x \<and> x < length (ntport c))" if "allocate_loop c = Some r" for c r
    using that
  proof (rule allocate_loop.raw_induct [where P = "\<lambda>c r. \<not> (tq_stuck (free_ntport c) x \<and> port_used c x \<and> x < length (ntport c))", rotated])
    fix loop c r
    assume ih: "\<And>c r. loop c = Some r \<Longrightarrow> \<not> (tq_stuck (free_ntport c) x \<and> port_used c x \<and> x < length (ntport c))"
      and body: "(case tq_first (free_ntport c) of
        None \<Rightarrow> Some Undef
      | Some i \<Rightarrow>
          (if length (ntport c) \<le> i then Some Undef
           else
             (case tailq_remove (free_ntport c) i of
                Ret q \<Rightarrow>
                  if np_status (ntport c ! i) \<noteq> NT_PORT_UNUSED then loop (c\<lparr>free_ntport := q\<rparr>)
                  else Some (Ret (i, c\<lparr>free_ntport := q, ntport := (ntport c)[i := (ntport c ! i)\<lparr>np_status := NT_PORT_USED\<rparr>]\<rparr>))
              | _ \<Rightarrow> Some Undef))) = Some r"
    show "\<not> (tq_stuck (free_ntport c) x \<and> port_used c x \<and> x < length (ntport c))"
    proof
      assume st: "tq_stuck (free_ntport c) x \<and> port_used c x \<and> x < length (ntport c)"
      then obtain q where q: "tailq_remove (free_ntport c) x = Ret q" "tq_stuck q x" using tq_stuck_remove by blast
      with st body have "loop (c\<lparr>free_ntport := q\<rparr>) = Some r" by (auto simp: tq_stuck_def port_used_def)
      from ih [OF this] q st show False by simp
    qed
  qed
  with assms show ?thesis by (cases "allocate_loop c") auto
qed

lemma specified_port_spins:
  assumes "1 < n"
  shows "\<exists>c1 c2 c3. allocate_specified_port (fresh_ports c n) 0 = Ret (Some 0, c1) \<and> free_port c1 0 = Ret c2 \<and>
    allocate_port c2 = Ret (0, c3) \<and> allocate_port c3 = Spin"
proof -
  from claim_and_free [of 0 n c] assms obtain c1 c2 where c: "allocate_specified_port (fresh_ports c n) 0 = Ret (Some 0, c1)"
    "free_port c1 0 = Ret c2" "free_ntport c2 = tailq_insert_tail (free_ntport (fresh_ports c n)) 0"
    "length (ntport c2) = n" "\<forall>i < n. \<not> port_used c2 i" by auto
  have "[0..<n] = 0 # [Suc 0..<n]" using assms by (simp add: upt_conv_Cons)
  then have st: "tq_stuck (free_ntport c2) 0"
    using tq_rep_stuck [of "free_ntport (fresh_ports c n)" 0 "[Suc 0..<n]"] fresh_ports_inv(1) [of n c] c(3) assms
    by (simp add: port_inv_def)
  from tq_stuck_remove [OF this] obtain q where q: "tailq_remove (free_ntport c2) 0 = Ret q" "tq_stuck q 0" by blast
  define c3 where "c3 = c2\<lparr>free_ntport := q, ntport := (ntport c2)[0 := (ntport c2 ! 0)\<lparr>np_status := NT_PORT_USED\<rparr>]\<rparr>"
  have "allocate_port c2 = Ret (0, c3)"
    using allocate_port_first [OF _ q(1)] st c(4,5) assms by (auto simp: tq_stuck_def c3_def)
  moreover have "allocate_loop c3 = None"
    by (rule allocate_loop_stuck [of _ 0]) (use q c(4) assms in \<open>auto simp: c3_def port_used_def\<close>)
  ultimately show ?thesis using c by (auto simp: allocate_port_def)
qed

section \<open>A context with three ports\<close>

definition no_ports :: nt_port_context where
  "no_ports = \<lparr>ntport = [], num_ports = 0, free_ntport = tailq_init\<rparr>"

text \<open>The second allocation passes over the port claimed by number.\<close>

lemma three_ports:
  "\<exists>c1. allocate_port (fresh_ports no_ports 3) = Ret (0, c1) \<and>
    (\<exists>c2. allocate_specified_port c1 1 = Ret (Some 1, c2) \<and> (\<exists>c3. allocate_port c2 = Ret (2, c3)))"
  apply (simp add: fresh_ports_def init_port_context_def no_ports_def allocate_port_def tq_defs tailq_init_def numeral_eq_Suc)
  apply (subst allocate_loop.simps)
  apply (simp add: tq_defs allocate_specified_port_def port_ok_def numeral_eq_Suc)
  apply (subst allocate_loop.simps)
  apply (simp add: tq_defs)
  apply (subst allocate_loop.simps)
  apply (simp add: tq_defs)
  done

lemma three_ports_run: "\<exists>c c'. port_run 3 c {0} {1} \<and> allocate_port c = Ret (2, c')"
proof -
  from three_ports obtain c1 c2 c3 where c: "allocate_port (fresh_ports no_ports 3) = Ret (0, c1)"
    "allocate_specified_port c1 1 = Ret (Some 1, c2)" "allocate_port c2 = Ret (2, c3)" by blast
  have "port_run 3 (fresh_ports no_ports 3) {} {}" by (rule port_run.fresh) simp
  from port_run.specified [OF port_run.dynamic [OF this c(1)] c(2)] c(3) show ?thesis by auto
qed

theorem port_exclusive_witness:
  "\<exists>c c'. port_run 3 c {0} {1} \<and> allocate_port c = Ret (2, c') \<and> (2 :: nat) \<notin> {0} \<and> (2 :: nat) \<notin> {1} \<and> port_id (ntport c' ! 2) = 2"
proof -
  from three_ports_run obtain c c' where c: "port_run 3 c {0} {1}" "allocate_port c = Ret (2, c')" by blast
  from port_exclusive [OF this] c show ?thesis by (intro exI [of _ c] exI [of _ c']) simp
qed

theorem allocate_port_terminates_witness:
  "\<exists>c. port_run 3 c {0} {1} \<and> allocate_port c \<noteq> Spin \<and> (\<exists>i c'. allocate_port c = Ret (i, c'))"
proof -
  from three_ports_run obtain c c' where c: "port_run 3 c {0} {1}" "allocate_port c = Ret (2, c')" by blast
  from allocate_port_terminates [OF c(1)] have "allocate_port c \<noteq> Spin" "\<exists>i c'. allocate_port c = Ret (i, c')" by simp_all
  with c(1) show ?thesis by blast
qed

theorem specified_port_loss_witness:
  "\<exists>c1 c2 c3. allocate_specified_port (fresh_ports no_ports 4) 1 = Ret (Some 1, c1) \<and> free_port c1 1 = Ret c2 \<and>
    allocate_ports 2 c2 = Ret ([0, 1], c3) \<and> allocate_port c3 = Undef \<and> \<not> port_used c3 3"
  using specified_port_loss [of 1 4 no_ports] by (auto simp: numeral_2_eq_2)

end
