(* ===== verification/Nt_Spsc_Queue.thy ===== *)
theory Nt_Spsc_Queue
  imports Msg_Ring Byte_Mem
begin

unbundle bit_operations_syntax

text \<open>
  \<^verbatim>\<open>monitor/src/utils/nt_spsc_shm_queue.c\<close>: a ring of elements of one size in shared memory, behind the two indices.
  The indices are stepped with the mask \<^verbatim>\<open>element_num - 1\<close>, which is a remainder only when the number of
  elements is a power of two; nothing checks that it is.
\<close>

section \<open>Data\<close>

record spsc_shm =
  sp_read :: u64
  sp_write :: u64
  sp_data :: "byte list"

record nt_spsc_shmring =
  sq_shm :: spsc_shm
  sq_element_size :: u64
  sq_element_num :: int
  sq_total :: u64
  sq_fd :: int
  sq_MASK :: u64
  sq_addrlen :: u64
  sq_addr :: string

text \<open>The answers of the system, as for \<^verbatim>\<open>shmring.c\<close>.\<close>

record spsc_os =
  so_malloc :: bool
  so_shm_open :: int
  so_errno_retry :: bool
  so_shm_reopen :: int
  so_ftruncate :: bool
  so_mmap :: "spsc_shm option"

section \<open>Construction and destruction\<close>

definition spsc_open :: "spsc_os \<Rightarrow> bool \<Rightarrow> int" where
  "spsc_open os is_master =
     (if so_shm_open os = - 1 then (if is_master \<and> so_errno_retry os then so_shm_reopen os else - 1) else so_shm_open os)"

definition spsc_fail :: "bool \<Rightarrow> int \<Rightarrow> string \<Rightarrow> mr_res os_call list" where
  "spsc_fail is_master fd name =
     (if fd \<noteq> - 1 then Release (M_fd fd) # (if is_master then [Release (M_name name)] else []) else []) @ [Release M_handle]"

definition nt_spsc_shmring_init0 ::
  "spsc_os \<Rightarrow> string \<Rightarrow> u64 \<Rightarrow> int \<Rightarrow> u64 \<Rightarrow> bool \<Rightarrow> (nt_spsc_shmring option \<times> mr_res os_call list) outcome"
where
  "nt_spsc_shmring_init0 os addr len element_num element_size is_master =
     bind_out (c_assert (0 < len)) (\<lambda>_.
     bind_out (c_assert (0 < element_num)) (\<lambda>_.
     bind_out (c_assert (0 < element_size)) (\<lambda>_.
     if \<not> so_malloc os then Undef
     else
       bind_out (c_name addr) (\<lambda>name.
       let total = 16 + element_size * of_int element_num; fd = spsc_open os is_master;
           opened = [Acquire M_handle, Acquire (M_fd fd)] @ (if is_master then [Acquire (M_name name)] else []) in
       if fd = - 1 then Ret (None, Acquire M_handle # spsc_fail is_master fd name)
       else if is_master \<and> \<not> so_ftruncate os then Ret (None, opened @ spsc_fail is_master fd name)
       else case so_mmap os of
         None \<Rightarrow> Ret (None, opened @ spsc_fail is_master fd name)
       | Some m \<Rightarrow>
           Ret (Some \<lparr>sq_shm = (if is_master then m\<lparr>sp_read := 0, sp_write := 0\<rparr> else m), sq_element_size = element_size,
                      sq_element_num = element_num, sq_total = total, sq_fd = fd, sq_MASK = of_int (element_num - 1),
                      sq_addrlen = len, sq_addr = addr\<rparr>,
                opened @ [Acquire M_map, Release (M_fd fd)])))))"

definition nt_spsc_shmring_init ::
  "spsc_os \<Rightarrow> string \<Rightarrow> u64 \<Rightarrow> int \<Rightarrow> u64 \<Rightarrow> (nt_spsc_shmring option \<times> mr_res os_call list) outcome"
where
  "nt_spsc_shmring_init os addr len element_num element_size =
     nt_spsc_shmring_init0 os addr len element_num element_size True"

definition nt_get_spsc_shmring ::
  "spsc_os \<Rightarrow> string \<Rightarrow> u64 \<Rightarrow> int \<Rightarrow> u64 \<Rightarrow> (nt_spsc_shmring option \<times> mr_res os_call list) outcome"
where
  "nt_get_spsc_shmring os addr len element_num element_size =
     nt_spsc_shmring_init0 os addr len element_num element_size False"

definition nt_spsc_shmring_free :: "nt_spsc_shmring \<Rightarrow> bool \<Rightarrow> mr_res os_call list outcome" where
  "nt_spsc_shmring_free self unlink =
     bind_out (if unlink then bind_out (c_name (sq_addr self)) (\<lambda>name. Ret [Release (M_name name)]) else Ret [])
       (\<lambda>cs. Ret ([Release M_map] @ cs @ [Release M_handle]))"

section \<open>Push and pop\<close>

text \<open>\<^verbatim>\<open>push\<close> copies as many bytes as the caller says, \<^verbatim>\<open>pop\<close> at most the size of an element.\<close>

definition nt_spsc_shmring_push :: "nt_spsc_shmring \<Rightarrow> byte list \<Rightarrow> u64 \<Rightarrow> (bool \<times> nt_spsc_shmring) outcome" where
  "nt_spsc_shmring_push self element element_size =
     bind_out (c_assert (0 < element_size)) (\<lambda>_.
     let b = sq_shm self; w_idx = sp_write b; w_next_idx = mask_increment w_idx (sq_MASK self) in
     if w_next_idx = sp_read b then Ret (False, self)
     else
       bind_out (mem_read element 0 (unat element_size)) (\<lambda>bs.
       bind_out (mem_write (sp_data b) (unat (w_idx * sq_element_size self)) bs) (\<lambda>d.
         Ret (True, self\<lparr>sq_shm := b\<lparr>sp_data := d, sp_write := w_next_idx\<rparr>\<rparr>))))"

definition nt_spsc_shmring_pop :: "nt_spsc_shmring \<Rightarrow> byte list \<Rightarrow> u64 \<Rightarrow> (bool \<times> byte list \<times> nt_spsc_shmring) outcome" where
  "nt_spsc_shmring_pop self element element_size0 =
     bind_out (c_assert (0 < element_size0)) (\<lambda>_.
     let element_size = (if sq_element_size self < element_size0 then sq_element_size self else element_size0);
         b = sq_shm self; w_idx = sp_write b; r_idx = sp_read b in
     if ring_empty w_idx r_idx then Ret (False, element, self)
     else
       bind_out (mem_read (sp_data b) (unat (sp_read b * sq_element_size self)) (unat element_size)) (\<lambda>bs.
       bind_out (mem_write element 0 bs) (\<lambda>e.
         Ret (True, e, self\<lparr>sq_shm := b\<lparr>sp_read := mask_increment r_idx (sq_MASK self)\<rparr>\<rparr>))))"

definition nt_spsc_shmring_is_full :: "nt_spsc_shmring \<Rightarrow> bool" where
  "nt_spsc_shmring_is_full self =
     (mask_increment (sp_write (sq_shm self)) (sq_MASK self) = sp_read (sq_shm self))"

section \<open>A ring whose size is a power of two is a queue\<close>

abbreviation (input) spsc_cap :: "nt_spsc_shmring \<Rightarrow> nat" where
  "spsc_cap s \<equiv> nat (sq_element_num s)"

definition spsc_slot :: "nt_spsc_shmring \<Rightarrow> nat \<Rightarrow> byte list" where
  "spsc_slot s i = seg (sp_data (sq_shm s)) (i * unat (sq_element_size s)) (unat (sq_element_size s))"

definition spsc_inv :: "nt_spsc_shmring \<Rightarrow> bool" where
  "spsc_inv s \<longleftrightarrow>
     (\<exists>k < 31. sq_element_num s = 2 ^ k \<and> sq_MASK s = mask k) \<and> 0 < sq_element_size s \<and>
     spsc_cap s * unat (sq_element_size s) \<le> length (sp_data (sq_shm s)) \<and> length (sp_data (sq_shm s)) < 2 ^ 64 \<and>
     unat (sp_write (sq_shm s)) < spsc_cap s \<and> unat (sp_read (sq_shm s)) < spsc_cap s"

definition spsc_contents :: "nt_spsc_shmring \<Rightarrow> byte list list" where
  "spsc_contents s = ring_list (spsc_cap s) (unat (sp_read (sq_shm s))) (unat (sp_write (sq_shm s))) (spsc_slot s)"

definition spsc_put :: "nt_spsc_shmring \<Rightarrow> byte list \<Rightarrow> (bool \<times> nt_spsc_shmring) outcome" where
  "spsc_put s e = nt_spsc_shmring_push s e (sq_element_size s)"

definition spsc_take :: "nt_spsc_shmring \<Rightarrow> (byte list option \<times> nt_spsc_shmring) outcome" where
  "spsc_take s =
     bind_out (nt_spsc_shmring_pop s (replicate (unat (sq_element_size s)) 0) (sq_element_size s)) (\<lambda>(ok, e, s').
       Ret (if ok then Some e else None, s'))"

lemma spsc_indices:
  assumes "spsc_inv s"
  shows "unat (sp_write (sq_shm s)) < spsc_cap s" "unat (sp_read (sq_shm s)) < spsc_cap s" "0 < spsc_cap s"
    "unat (mask_increment (sp_write (sq_shm s)) (sq_MASK s)) = Suc (unat (sp_write (sq_shm s))) mod spsc_cap s"
    "unat (mask_increment (sp_read (sq_shm s)) (sq_MASK s)) = Suc (unat (sp_read (sq_shm s))) mod spsc_cap s"
  using assms by (auto simp: spsc_inv_def unat_mask_increment nat_power_eq)

text \<open>The byte offset of a slot does not overflow, and the slot lies in the ring.\<close>

lemma spsc_offset:
  fixes i :: u64
  assumes "spsc_inv s" "unat i < spsc_cap s"
  shows "unat (i * sq_element_size s) = unat i * unat (sq_element_size s)"
    "unat i * unat (sq_element_size s) + unat (sq_element_size s) \<le> length (sp_data (sq_shm s))"
proof -
  show le: "unat i * unat (sq_element_size s) + unat (sq_element_size s) \<le> length (sp_data (sq_shm s))"
    using assms by (intro slot_inside) (auto simp: spsc_inv_def)
  then have "unat i * unat (sq_element_size s) < 2 ^ 64" using assms(1) by (simp add: spsc_inv_def)
  then show "unat (i * sq_element_size s) = unat i * unat (sq_element_size s)"
    by (simp add: unat_word_ariths)
qed

lemma spsc_full_iff:
  assumes "spsc_inv s"
  shows "nt_spsc_shmring_is_full s \<longleftrightarrow> length (spsc_contents s) = spsc_cap s - 1"
  using spsc_indices [OF assms] ring_count_full [OF spsc_indices(2,1) [OF assms]]
  by (auto simp: nt_spsc_shmring_is_full_def spsc_contents_def word_eq_iff_unat)

lemma spsc_put_room:
  assumes inv: "spsc_inv s" and e: "length e = unat (sq_element_size s)" and room: "length (spsc_contents s) < spsc_cap s - 1"
  shows "\<exists>s'. spsc_put s e = Ret (True, s') \<and> spsc_inv s' \<and> spsc_contents s' = spsc_contents s @ [e] \<and>
    sq_element_num s' = sq_element_num s \<and> sq_element_size s' = sq_element_size s"
proof -
  let ?b = "sq_shm s" and ?c = "spsc_cap s" and ?es = "unat (sq_element_size s)"
  let ?w = "unat (sp_write ?b)" and ?r = "unat (sp_read ?b)" and ?wn = "mask_increment (sp_write ?b) (sq_MASK s)"
  note ix = spsc_indices [OF inv]
  note off = spsc_offset [OF inv ix(1)]
  have nf: "?wn \<noteq> sp_read ?b" using spsc_full_iff [OF inv] room by (simp add: nt_spsc_shmring_is_full_def)
  then have nf': "Suc ?w mod ?c \<noteq> ?r" using ix(4) by (metis word_unat_eq_iff)
  define s' where "s' = s\<lparr>sq_shm := ?b\<lparr>sp_data := patch (sp_data ?b) (?w * ?es) e, sp_write := ?wn\<rparr>\<rparr>"
  have "0 < sq_element_size s" using inv by (simp add: spsc_inv_def)
  then have "spsc_put s e = Ret (True, s')"
    using e nf off by (simp add: spsc_put_def nt_spsc_shmring_push_def Let_def seg_all s'_def)
  moreover have "spsc_inv s'" using inv e off(2) ix by (simp add: spsc_inv_def s'_def)
  moreover have slot: "spsc_slot s' = (spsc_slot s)(?w := e)"
  proof
    fix j
    show "spsc_slot s' j = ((spsc_slot s)(?w := e)) j"
      using off(2) e seg_patch_slot [of j ?w ?es "sp_data ?b" 0 e 0 ?es]
      by (simp add: spsc_slot_def s'_def seg_patch_same)
  qed
  have "spsc_contents s' = ring_list ?c ?r (Suc ?w mod ?c) ((spsc_slot s)(?w := e))"
    unfolding spsc_contents_def slot by (simp add: s'_def ix(4))
  then have "spsc_contents s' = spsc_contents s @ [e]"
    by (simp only: ring_list_push [OF ix(2,1) nf'] spsc_contents_def)
  ultimately show ?thesis by (simp add: s'_def)
qed

lemma spsc_put_full:
  "spsc_inv s \<Longrightarrow> length (spsc_contents s) = spsc_cap s - 1 \<Longrightarrow> spsc_put s e = Ret (False, s)"
  using spsc_full_iff [of s] by (simp add: spsc_put_def nt_spsc_shmring_push_def nt_spsc_shmring_is_full_def spsc_inv_def)

lemma spsc_take_some:
  assumes inv: "spsc_inv s" and c: "spsc_contents s = e # es"
  shows "\<exists>s'. spsc_take s = Ret (Some e, s') \<and> spsc_inv s' \<and> spsc_contents s' = es \<and>
    sq_element_num s' = sq_element_num s \<and> sq_element_size s' = sq_element_size s"
proof -
  let ?b = "sq_shm s" and ?c = "spsc_cap s" and ?es = "unat (sq_element_size s)"
  let ?w = "unat (sp_write ?b)" and ?r = "unat (sp_read ?b)"
  note ix = spsc_indices [OF inv]
  note off = spsc_offset [OF inv ix(2)]
  have ne: "?w \<noteq> ?r" using c ix(2) by (auto simp: spsc_contents_def)
  define s' where "s' = s\<lparr>sq_shm := ?b\<lparr>sp_read := mask_increment (sp_read ?b) (sq_MASK s)\<rparr>\<rparr>"
  have "0 < sq_element_size s" using inv by (simp add: spsc_inv_def)
  moreover have "patch (replicate ?es 0) 0 (seg (sp_data ?b) (?r * ?es) ?es) = spsc_slot s ?r"
    using off(2) by (simp add: patch_def spsc_slot_def)
  moreover have "sp_write ?b \<noteq> sp_read ?b" using ne by auto
  ultimately have "spsc_take s = Ret (Some (spsc_slot s ?r), s')"
    using off by (simp add: spsc_take_def nt_spsc_shmring_pop_def ring_empty_def Let_def s'_def)
  moreover have "spsc_inv s'" using inv ix by (simp add: spsc_inv_def s'_def)
  moreover have "spsc_slot s' = spsc_slot s" by (auto simp: spsc_slot_def s'_def)
  then have "spsc_contents s = spsc_slot s ?r # spsc_contents s'"
    using ring_list_pop [OF ix(2,1) ne, of "spsc_slot s"] ix(5) by (simp add: spsc_contents_def s'_def)
  ultimately show ?thesis using c by (simp add: s'_def)
qed

lemma spsc_take_empty:
  assumes "spsc_inv s" "spsc_contents s = []"
  shows "spsc_take s = Ret (None, s)"
proof -
  from assms(2) have "sp_write (sq_shm s) = sp_read (sq_shm s)"
    using ring_list_empty [OF spsc_indices(2,1) [OF assms(1)], of "spsc_slot s"] by (simp add: spsc_contents_def word_eq_iff_unat)
  moreover have "0 < sq_element_size s" using assms(1) by (simp add: spsc_inv_def)
  ultimately show ?thesis by (simp add: spsc_take_def nt_spsc_shmring_pop_def ring_empty_def)
qed

lemma spsc_contents_bound: "spsc_inv s \<Longrightarrow> length (spsc_contents s) \<le> spsc_cap s - 1"
  using ring_count_less [OF spsc_indices(2,1), of s] by (simp add: spsc_contents_def)

interpretation spsc: bounded_fifo spsc_put spsc_take spsc_contents spsc_inv "\<lambda>s. spsc_cap s - 1"
    "\<lambda>s e. length e = unat (sq_element_size s)"
proof unfold_locales
  fix q :: nt_spsc_shmring and x :: "byte list"
  assume "spsc_inv q" "length x = unat (sq_element_size q)" "length (spsc_contents q) < spsc_cap q - 1"
  from spsc_put_room [OF this] show "\<exists>q'. spsc_put q x = Ret (True, q') \<and> spsc_inv q' \<and> spsc_contents q' = spsc_contents q @ [x] \<and>
      spsc_cap q' - 1 = spsc_cap q - 1 \<and>
      (\<lambda>e :: byte list. length e = unat (sq_element_size q')) = (\<lambda>e. length e = unat (sq_element_size q))"
    by auto
next
  fix q x xs
  assume "spsc_inv q" "spsc_contents q = x # xs"
  from spsc_take_some [OF this] show "\<exists>q'. spsc_take q = Ret (Some x, q') \<and> spsc_inv q' \<and> spsc_contents q' = xs \<and>
      spsc_cap q' - 1 = spsc_cap q - 1 \<and>
      (\<lambda>e :: byte list. length e = unat (sq_element_size q')) = (\<lambda>e. length e = unat (sq_element_size q))"
    by auto
qed (use spsc_contents_bound in \<open>auto simp: spsc_put_full spsc_take_empty\<close>)

text \<open>A ring made by its owner is an empty queue if its size is a power of two.\<close>

lemma spsc_init_pow2:
  assumes "nt_spsc_shmring_init os addr len (2 ^ k) es = Ret (Some s, cs)" "k < 31" "0 < es"
    "so_mmap os = Some m" "length (sp_data m) = 2 ^ k * unat es" "length (sp_data m) < 2 ^ 64"
  shows "spsc_inv s" "spsc_contents s = []" "sq_element_num s = 2 ^ k" "sq_element_size s = es"
proof -
  have "of_int ((2 :: int) ^ k - 1) = (mask k :: u64)" by (simp add: mask_eq_exp_minus_1)
  then show "spsc_inv s" "spsc_contents s = []" "sq_element_num s = 2 ^ k" "sq_element_size s = es"
    using assms
    by (auto simp: nt_spsc_shmring_init_def nt_spsc_shmring_init0_def Let_def spsc_inv_def spsc_contents_def nat_power_eq
        split: if_splits)
qed

text \<open>An odd number of elements: bit 0 of the mask is clear, and the first index is its own successor.\<close>

lemma mask_increment_odd:
  fixes n :: int
  assumes "odd n"
  shows "mask_increment 0 (of_int (n - 1)) = 0"
proof -
  have "even (n - 1)" using assms by simp
  then obtain m where "n - 1 = 2 * m" by (elim evenE)
  then have "(1 :: u64) AND of_int (n - 1) = (2 * of_int m) mod 2" by (simp only: one_and_eq of_int_mult of_int_numeral)
  moreover have "even (2 * of_int m :: u64)" by (rule dvd_triv_left)
  ultimately have "(1 :: u64) AND of_int (n - 1) = 0" by (simp only: even_iff_mod_2_eq_zero)
  then show ?thesis by (simp add: mask_increment_def)
qed

end
