(* ===== verification/Nt_Socket.thy ===== *)
theory Nt_Socket
  imports Tailq
begin

text \<open>
  \<^verbatim>\<open>monitor/src/socket.c\<close>: the sockets of the monitor, an array whose unused entries stand in a tail queue. Sockets
  are numbered from 1, so that entry \<open>i\<close> has the id \<open>i + 1\<close>; the operations that take an id index the array with the id
  itself. The operations run under the mutex of the context. A socket is named by its index in the array.
\<close>

section \<open>Data\<close>

abbreviation (input) NT_SOCK_UNUSED :: u32 where "NT_SOCK_UNUSED \<equiv> 1"

abbreviation (input) NT_SOCK_STREAM :: u32 where "NT_SOCK_STREAM \<equiv> 2"

abbreviation (input) NT_SOCK_PROXY :: u32 where "NT_SOCK_PROXY \<equiv> 3"

abbreviation (input) NT_SOCK_LISTENER :: u32 where "NT_SOCK_LISTENER \<equiv> 4"

abbreviation (input) NT_SOCK_EPOLL :: u32 where "NT_SOCK_EPOLL \<equiv> 5"

abbreviation (input) NT_SOCK_PIPE :: u32 where "NT_SOCK_PIPE \<equiv> 6"

text \<open>\<^verbatim>\<open>enum socket_state\<close>; the value 0 is that of zeroed memory.\<close>

abbreviation (input) CLOSED :: u32 where "CLOSED \<equiv> 1"

abbreviation (input) BOUND :: u32 where "BOUND \<equiv> 2"

abbreviation (input) LISTENING :: u32 where "LISTENING \<equiv> 3"

abbreviation (input) WAIT_CLIENT :: u32 where "WAIT_CLIENT \<equiv> 4"

abbreviation (input) WAIT_DISPATCH :: u32 where "WAIT_DISPATCH \<equiv> 5"

abbreviation (input) WAIT_SERVER :: u32 where "WAIT_SERVER \<equiv> 6"

abbreviation (input) ESTABLISHED :: u32 where "ESTABLISHED \<equiv> 7"

abbreviation (input) WAIT_ESTABLISHED :: u32 where "WAIT_ESTABLISHED \<equiv> 8"

abbreviation (input) WAIT_CLOSE :: u32 where "WAIT_CLOSE \<equiv> 9"

text \<open>Port and address are in network order.\<close>

record sockaddr_in =
  sin_family :: u16
  sin_port :: u16
  sin_addr :: u32

text \<open>The pointer in the union is the address of the listener.\<close>

record nt_socket =
  sockid :: u32
  socktype :: u32
  opts :: u32
  sk_state :: u32
  saddr :: sockaddr_in
  sk_listener :: "nat option"
  sk_epoll :: u32
  sk_events :: u32
  ep_data :: u64

record nt_sock_context =
  ntsock :: "nt_socket list"
  free_ntsock :: tailq

definition zero_saddr :: sockaddr_in where
  "zero_saddr = \<lparr>sin_family = 0, sin_port = 0, sin_addr = 0\<rparr>"

definition zero_socket :: nt_socket where
  "zero_socket = \<lparr>sockid = 0, socktype = 0, opts = 0, sk_state = 0, saddr = zero_saddr, sk_listener = None,
     sk_epoll = 0, sk_events = 0, ep_data = 0\<rparr>"

section \<open>Operations\<close>

text \<open>The loop of \<^verbatim>\<open>init_socket_context\<close> from index \<open>i\<close> on, with \<open>n\<close> rounds left.\<close>

fun init_socket_loop :: "nat \<Rightarrow> nat \<Rightarrow> nt_sock_context \<Rightarrow> nt_sock_context" where
  "init_socket_loop 0 i c = c"
| "init_socket_loop (Suc n) i c =
     init_socket_loop n (Suc i)
       (c\<lparr>ntsock := (ntsock c)[i := (ntsock c ! i)\<lparr>sockid := of_nat (Suc i), socktype := NT_SOCK_UNUSED, saddr := zero_saddr\<rparr>],
          free_ntsock := tailq_insert_tail (free_ntsock c) i\<rparr>)"

definition init_socket_context :: "bool \<Rightarrow> nt_sock_context \<Rightarrow> int \<Rightarrow> nt_sock_context" where
  "init_socket_context calloc_ok c max_concurrency =
     (if max_concurrency \<le> 0 then c
      else if \<not> calloc_ok then c\<lparr>ntsock := []\<rparr>
      else init_socket_loop (nat max_concurrency) 0
             (c\<lparr>ntsock := replicate (nat max_concurrency) zero_socket, free_ntsock := tailq_init\<rparr>))"

text \<open>When the queue is empty, \<^verbatim>\<open>TAILQ_REMOVE\<close> is applied to the null pointer.\<close>

definition allocate_socket :: "nt_sock_context \<Rightarrow> u32 \<Rightarrow> (nat \<times> nt_sock_context) outcome" where
  "allocate_socket c type =
     (case tq_first (free_ntsock c) of
        None \<Rightarrow> Undef
      | Some i \<Rightarrow>
          bind_out (tailq_remove (free_ntsock c) i) (\<lambda>q.
          bind_out (array_get (ntsock c) i) (\<lambda>s.
            Ret (i, c\<lparr>free_ntsock := q,
                      ntsock := (ntsock c)[i := s\<lparr>socktype := type, sk_state := CLOSED, opts := 0, saddr := zero_saddr\<rparr>]\<rparr>))))"

text \<open>The array is indexed with the id; nothing is tested. A negative id is an access in front of the array.\<close>

definition free_socket :: "nt_sock_context \<Rightarrow> int \<Rightarrow> nt_sock_context outcome" where
  "free_socket c k =
     (if k < 0 then Undef
      else
        bind_out (array_get (ntsock c) (nat k)) (\<lambda>s.
          if socktype s = NT_SOCK_UNUSED then Ret c
          else Ret (c\<lparr>ntsock := (ntsock c)[nat k := s\<lparr>socktype := NT_SOCK_UNUSED\<rparr>],
                      free_ntsock := tailq_insert_tail (free_ntsock c) (nat k)\<rparr>)))"

definition get_socket :: "nt_sock_context \<Rightarrow> int \<Rightarrow> int \<Rightarrow> nat option outcome" where
  "get_socket c k max_concurrency =
     (if k < 0 \<or> max_concurrency \<le> k then Ret None
      else if nat k < length (ntsock c) then Ret (Some (nat k)) else Undef)"

section \<open>The queue holds exactly the unused sockets\<close>

definition sock_unused :: "nt_sock_context \<Rightarrow> nat \<Rightarrow> bool" where
  "sock_unused c i \<longleftrightarrow> socktype (ntsock c ! i) = NT_SOCK_UNUSED"

definition sock_inv :: "nt_sock_context \<Rightarrow> nat list \<Rightarrow> bool" where
  "sock_inv c xs \<longleftrightarrow>
     tq_rep (free_ntsock c) xs \<and> (\<forall>i. i \<in> set xs \<longleftrightarrow> i < length (ntsock c) \<and> sock_unused c i) \<and>
     (\<forall>i < length (ntsock c). sockid (ntsock c ! i) = of_nat (Suc i))"

definition fresh_socks :: "nt_sock_context \<Rightarrow> nat \<Rightarrow> nt_sock_context" where
  "fresh_socks c n = init_socket_context True c (int n)"

lemma init_socket_loop_inv:
  assumes "length (ntsock c) = i + n" "tq_rep (free_ntsock c) [0..<i]"
    "\<forall>j < i. socktype (ntsock c ! j) = NT_SOCK_UNUSED \<and> sockid (ntsock c ! j) = of_nat (Suc j)"
  shows "length (ntsock (init_socket_loop n i c)) = i + n \<and> tq_rep (free_ntsock (init_socket_loop n i c)) [0..<i + n] \<and>
    (\<forall>j < i + n. socktype (ntsock (init_socket_loop n i c) ! j) = NT_SOCK_UNUSED \<and>
       sockid (ntsock (init_socket_loop n i c) ! j) = of_nat (Suc j))"
  using assms
proof (induction n arbitrary: i c)
  case (Suc n)
  let ?c = "c\<lparr>ntsock := (ntsock c)[i := (ntsock c ! i)\<lparr>sockid := of_nat (Suc i), socktype := NT_SOCK_UNUSED, saddr := zero_saddr\<rparr>],
     free_ntsock := tailq_insert_tail (free_ntsock c) i\<rparr>"
  have len: "i < length (ntsock c)" using Suc.prems(1) by simp
  have "tq_rep (free_ntsock ?c) [0..<Suc i]" using tq_rep_insert [OF Suc.prems(2), of i] by simp
  moreover have "\<forall>j < Suc i. socktype (ntsock ?c ! j) = NT_SOCK_UNUSED \<and> sockid (ntsock ?c ! j) = of_nat (Suc j)"
    using Suc.prems(3) len by (auto simp: less_Suc_eq)
  ultimately show ?case using Suc.IH [of ?c "Suc i"] Suc.prems(1) by (simp del: of_nat_Suc)
qed simp

lemma fresh_socks_inv:
  assumes "0 < n"
  shows "sock_inv (fresh_socks c n) [0..<n]" "length (ntsock (fresh_socks c n)) = n"
  using init_socket_loop_inv [of "c\<lparr>ntsock := replicate n zero_socket, free_ntsock := tailq_init\<rparr>" 0 n] assms
  by (auto simp: fresh_socks_def init_socket_context_def sock_inv_def sock_unused_def)

lemma allocate_socket_inv:
  assumes "sock_inv c (i # xs)" "type \<noteq> NT_SOCK_UNUSED"
  shows "\<exists>c'. allocate_socket c type = Ret (i, c') \<and> sock_inv c' xs \<and> length (ntsock c') = length (ntsock c) \<and>
    ntsock c' ! i = (ntsock c ! i)\<lparr>socktype := type, sk_state := CLOSED, opts := 0, saddr := zero_saddr\<rparr> \<and>
    (\<forall>j. j \<noteq> i \<longrightarrow> ntsock c' ! j = ntsock c ! j)"
proof -
  have rep: "tq_rep (free_ntsock c) (i # xs)" and i: "i < length (ntsock c)" and d: "distinct (i # xs)"
    using assms(1) by (auto simp: sock_inv_def tq_rep_def)
  from tq_rep_remove_first [OF rep] obtain q where q: "tailq_remove (free_ntsock c) i = Ret q" "tq_rep q xs" by blast
  define c' where "c' = c\<lparr>free_ntsock := q,
     ntsock := (ntsock c)[i := (ntsock c ! i)\<lparr>socktype := type, sk_state := CLOSED, opts := 0, saddr := zero_saddr\<rparr>]\<rparr>"
  have "allocate_socket c type = Ret (i, c')"
    using tq_rep_first [OF rep] q(1) i by (simp add: allocate_socket_def c'_def)
  moreover have "j \<in> set xs \<longleftrightarrow> j < length (ntsock c') \<and> sock_unused c' j" for j
    using assms d i by (auto simp: sock_inv_def sock_unused_def c'_def nth_list_update)
  moreover have "\<forall>j < length (ntsock c'). sockid (ntsock c' ! j) = of_nat (Suc j)"
    using assms(1) i by (auto simp: sock_inv_def c'_def nth_list_update)
  ultimately show ?thesis using q(2) i by (auto simp: sock_inv_def c'_def)
qed

lemma allocate_socket_empty: "sock_inv c [] \<Longrightarrow> allocate_socket c type = Undef"
  using tq_rep_first [of "free_ntsock c" "[]"] by (simp add: sock_inv_def allocate_socket_def)

lemma free_socket_used:
  assumes "sock_inv c xs" "i < length (ntsock c)" "i \<notin> set xs"
  shows "\<exists>c'. free_socket c (int i) = Ret c' \<and> sock_inv c' (xs @ [i]) \<and> length (ntsock c') = length (ntsock c) \<and>
    ntsock c' ! i = (ntsock c ! i)\<lparr>socktype := NT_SOCK_UNUSED\<rparr> \<and> (\<forall>j. j \<noteq> i \<longrightarrow> ntsock c' ! j = ntsock c ! j)"
proof -
  have u: "\<not> sock_unused c i" using assms by (auto simp: sock_inv_def)
  define c' where "c' = c\<lparr>ntsock := (ntsock c)[i := (ntsock c ! i)\<lparr>socktype := NT_SOCK_UNUSED\<rparr>],
     free_ntsock := tailq_insert_tail (free_ntsock c) i\<rparr>"
  have "free_socket c (int i) = Ret c'" using assms(2) u by (simp add: free_socket_def c'_def sock_unused_def)
  moreover have "tq_rep (free_ntsock c') (xs @ [i])"
    using assms tq_rep_insert by (auto simp: sock_inv_def c'_def)
  moreover have "j \<in> set (xs @ [i]) \<longleftrightarrow> j < length (ntsock c') \<and> sock_unused c' j" for j
    using assms by (auto simp: sock_inv_def sock_unused_def c'_def nth_list_update)
  moreover have "\<forall>j < length (ntsock c'). sockid (ntsock c' ! j) = of_nat (Suc j)"
    using assms(1,2) by (auto simp: sock_inv_def c'_def nth_list_update)
  ultimately show ?thesis using assms(2) by (auto simp: sock_inv_def c'_def)
qed

lemma free_socket_unused: "sock_inv c xs \<Longrightarrow> i \<in> set xs \<Longrightarrow> free_socket c (int i) = Ret c"
  by (auto simp: sock_inv_def sock_unused_def free_socket_def)

lemma free_socket_outside: "k < 0 \<or> int (length (ntsock c)) \<le> k \<Longrightarrow> free_socket c k = Undef"
  by (auto simp: free_socket_def array_get_def)

section \<open>Sequences of operations\<close>

datatype sock_op = Open u32 | Close int

fun sock_run :: "sock_op list \<Rightarrow> nt_sock_context \<Rightarrow> nt_sock_context outcome" where
  "sock_run [] c = Ret c"
| "sock_run (Open t # ops) c = bind_out (allocate_socket c t) (\<lambda>(i, c'). sock_run ops c')"
| "sock_run (Close k # ops) c = bind_out (free_socket c k) (\<lambda>c'. sock_run ops c')"

lemma sock_run_append: "sock_run (ops @ ops') c = bind_out (sock_run ops c) (sock_run ops')"
  by (induction ops c rule: sock_run.induct) (auto simp: bind_out_assoc split: prod.splits intro!: arg_cong2 [where f = bind_out])

lemma allocate_socket_RetD:
  assumes "sock_inv c xs" "t \<noteq> NT_SOCK_UNUSED" "allocate_socket c t = Ret (i, c')"
  shows "\<exists>ys. xs = i # ys \<and> sock_inv c' ys \<and> length (ntsock c') = length (ntsock c)"
proof (cases xs)
  case Nil
  with assms show ?thesis by (simp add: allocate_socket_empty)
next
  case (Cons j ys)
  with allocate_socket_inv [of c j ys t] assms show ?thesis by auto
qed

lemma free_socket_RetD:
  assumes "sock_inv c xs" "free_socket c k = Ret c'"
  shows "0 \<le> k \<and> k < int (length (ntsock c)) \<and> (\<exists>ys. sock_inv c' ys \<and> length (ntsock c') = length (ntsock c))"
proof -
  from assms(2) have k: "0 \<le> k" "k < int (length (ntsock c))"
    using free_socket_outside [of k c] by (auto simp: not_le [symmetric])
  then obtain i where i: "k = int i" "i < length (ntsock c)" using nonneg_int_cases [of k] by auto
  show ?thesis
  proof (cases "i \<in> set xs")
    case True
    with free_socket_unused [OF assms(1)] assms i k show ?thesis by auto
  next
    case False
    with free_socket_used [OF assms(1) i(2)] assms(2) i k show ?thesis by auto
  qed
qed

text \<open>
  C22: Whatever sockets are opened and whatever ids are closed, the queue holds exactly the sockets marked
  unused, each once, and the sockets keep their ids, as long as the calls stay inside the array.
\<close>

theorem socket_queue_type:
  assumes "0 < n" "\<forall>t. Open t \<in> set ops \<longrightarrow> t \<noteq> NT_SOCK_UNUSED" "sock_run ops (fresh_socks c n) = Ret c'"
  shows "\<exists>xs. sock_inv c' xs \<and> length (ntsock c') = n"
proof -
  have "\<exists>ys. sock_inv c' ys \<and> length (ntsock c') = length (ntsock c)"
    if "sock_inv c xs" "\<forall>t. Open t \<in> set ops \<longrightarrow> t \<noteq> NT_SOCK_UNUSED" "sock_run ops c = Ret c'" for c xs
    using that
  proof (induction ops arbitrary: c xs)
    case (Cons op ops)
    show ?case
    proof (cases op)
      case (Open t)
      then obtain i c1 where c1: "allocate_socket c t = Ret (i, c1)" "sock_run ops c1 = Ret c'" using Cons.prems by auto
      from allocate_socket_RetD [OF Cons.prems(1) _ c1(1)] Cons.prems(2) Open obtain ys where
        ys: "sock_inv c1 ys" "length (ntsock c1) = length (ntsock c)" by auto
      from Cons.IH [OF ys(1) _ c1(2)] Cons.prems(2) ys(2) show ?thesis by simp
    next
      case (Close k)
      then obtain c1 where c1: "free_socket c k = Ret c1" "sock_run ops c1 = Ret c'" using Cons.prems by auto
      from free_socket_RetD [OF Cons.prems(1) c1(1)] obtain ys where
        ys: "sock_inv c1 ys" "length (ntsock c1) = length (ntsock c)" by auto
      from Cons.IH [OF ys(1) _ c1(2)] Cons.prems(2) ys(2) show ?thesis by simp
    qed
  qed auto
  from this [OF fresh_socks_inv(1) [OF assms(1)] assms(2,3)] show ?thesis
    using fresh_socks_inv(2) [OF assms(1)] by simp
qed

theorem socket_queue_type_witness:
  "\<exists>c' xs. sock_run [Open NT_SOCK_STREAM, Close 1] (fresh_socks \<lparr>ntsock = [], free_ntsock = tailq_init\<rparr> 2) = Ret c' \<and>
     sock_inv c' xs \<and> length (ntsock c') = 2"
proof -
  obtain c' where "sock_run [Open NT_SOCK_STREAM, Close 1] (fresh_socks \<lparr>ntsock = [], free_ntsock = tailq_init\<rparr> 2) = Ret c'"
    by (simp add: fresh_socks_def init_socket_context_def allocate_socket_def free_socket_def zero_socket_def tq_defs
        tailq_init_def array_get_def numeral_eq_Suc)
  with socket_queue_type [OF _ _ this] show ?thesis by fastforce
qed

section \<open>The id is not the index\<close>

text \<open>The id under which the application knows the socket at index \<open>i\<close>.\<close>

definition id_of :: "nt_sock_context \<Rightarrow> nat \<Rightarrow> int" where
  "id_of c i = uint (sockid (ntsock c ! i))"

lemma id_of_Suc: "sock_inv c xs \<Longrightarrow> i < length (ntsock c) \<Longrightarrow> length (ntsock c) < 2 ^ 32 \<Longrightarrow> id_of c i = int (Suc i)"
  by (simp add: id_of_def sock_inv_def unsigned_of_nat take_bit_nat_eq_self uint_nat del: of_nat_Suc)

text \<open>
  Closing a socket by its id releases the socket after it: if that one is in use, it is put into
  the queue and handed out again, while the closed socket stays in use for ever.
\<close>

theorem free_socket_neighbour:
  assumes "sock_inv c xs" "length (ntsock c) < 2 ^ 32" "Suc i < length (ntsock c)" "i \<notin> set xs" "Suc i \<notin> set xs"
  shows "\<exists>c'. free_socket c (id_of c i) = Ret c' \<and> sock_inv c' (xs @ [Suc i]) \<and> \<not> sock_unused c' i"
proof -
  from free_socket_used [OF assms(1,3,5)] id_of_Suc [OF assms(1) _ assms(2), of i] assms(3) obtain c' where
    c': "free_socket c (id_of c i) = Ret c'" "sock_inv c' (xs @ [Suc i])" "\<forall>j. j \<noteq> Suc i \<longrightarrow> ntsock c' ! j = ntsock c ! j"
    by auto
  moreover from c'(3) assms(1,3,4) have "\<not> sock_unused c' i" by (simp add: sock_inv_def sock_unused_def)
  ultimately show ?thesis by blast
qed

text \<open>Opening a socket and closing it by its id.\<close>

definition open_close :: "nt_sock_context \<Rightarrow> nt_sock_context outcome" where
  "open_close c = bind_out (allocate_socket c NT_SOCK_STREAM) (\<lambda>(i, c'). free_socket c' (id_of c' i))"

fun open_close_run :: "nat \<Rightarrow> nt_sock_context \<Rightarrow> nt_sock_context outcome" where
  "open_close_run 0 c = Ret c"
| "open_close_run (Suc k) c = bind_out (open_close_run k c) open_close"

lemma open_close_step:
  assumes "sock_inv c [k..<n]" "length (ntsock c) = n" "k < n" "n < 2 ^ 32"
  shows "if Suc k < n then \<exists>c'. open_close c = Ret c' \<and> sock_inv c' [Suc k..<n] \<and> length (ntsock c') = n else open_close c = Undef"
proof -
  from assms(1,3) have "sock_inv c (k # [Suc k..<n])" by (simp add: upt_conv_Cons)
  from allocate_socket_inv [OF this, of NT_SOCK_STREAM] obtain c' where c': "allocate_socket c NT_SOCK_STREAM = Ret (k, c')"
    "sock_inv c' [Suc k..<n]" "length (ntsock c') = n" using assms(2) by auto
  then have "open_close c = free_socket c' (int (Suc k))"
    using id_of_Suc [OF c'(2), of k] assms by (simp add: open_close_def)
  then show ?thesis
    using free_socket_unused [OF c'(2), of "Suc k"] free_socket_outside [of "int (Suc k)" c'] c' assms(3) by auto
qed

text \<open>
  C40: Sockets opened and closed one after the other are never reused: after \<open>k\<close> rounds the first \<open>k\<close> entries
  are lost, and the round that closes the last of the \<open>n\<close> sockets accesses the array behind its end.
\<close>

theorem socket_leak:
  assumes "0 < n" "n < 2 ^ 32"
  shows "(\<forall>k < n. \<exists>c'. open_close_run k (fresh_socks c n) = Ret c' \<and> sock_inv c' [k..<n]) \<and>
    open_close_run n (fresh_socks c n) = Undef"
proof -
  have run: "\<exists>c'. open_close_run k (fresh_socks c n) = Ret c' \<and> sock_inv c' [k..<n] \<and> length (ntsock c') = n" if "k < n" for k
    using that
  proof (induction k)
    case 0
    then show ?case using fresh_socks_inv [of n c] by simp
  next
    case (Suc k)
    then show ?case using open_close_step [of _ k n] assms(2) by fastforce
  qed
  obtain m where m: "n = Suc m" using assms(1) by (cases n) auto
  from run [of m] m obtain c' where "open_close_run m (fresh_socks c n) = Ret c'" "sock_inv c' [m..<n]" "length (ntsock c') = n"
    by auto
  with open_close_step [of c' m n] m assms(2) have "open_close_run n (fresh_socks c n) = Undef" by simp
  with run show ?thesis by blast
qed

theorem socket_leak_witness:
  "open_close_run 5 (fresh_socks \<lparr>ntsock = [], free_ntsock = tailq_init\<rparr> 5) = Undef \<and>
   (\<exists>c'. open_close_run 4 (fresh_socks \<lparr>ntsock = [], free_ntsock = tailq_init\<rparr> 5) = Ret c' \<and> sock_inv c' [4])"
  using socket_leak [of 5 "\<lparr>ntsock = [], free_ntsock = tailq_init\<rparr>"] by (auto simp: upt_conv_Cons dest: spec [of _ 4])

text \<open>Two sockets are open, the first is closed.\<close>

theorem free_socket_neighbour_witness:
  "\<exists>c c'. sock_run [Open NT_SOCK_STREAM, Open NT_SOCK_STREAM] (fresh_socks \<lparr>ntsock = [], free_ntsock = tailq_init\<rparr> 2) = Ret c \<and>
     free_socket c (id_of c 0) = Ret c' \<and> sock_inv c' [1] \<and> \<not> sock_unused c' 0"
proof -
  let ?c = "fresh_socks \<lparr>ntsock = [], free_ntsock = tailq_init\<rparr> 2"
  have f: "sock_inv ?c (0 # [1])" "length (ntsock ?c) = 2"
    using fresh_socks_inv [of 2 "\<lparr>ntsock = [], free_ntsock = tailq_init\<rparr>"] by (simp_all add: upt_conv_Cons numeral_2_eq_2)
  from allocate_socket_inv [OF f(1), of NT_SOCK_STREAM] f(2) obtain c1 where
    c1: "allocate_socket ?c NT_SOCK_STREAM = Ret (0, c1)" "sock_inv c1 [1]" "length (ntsock c1) = 2" by auto
  from allocate_socket_inv [OF c1(2), of NT_SOCK_STREAM] c1(3) obtain c2 where
    c2: "allocate_socket c1 NT_SOCK_STREAM = Ret (1, c2)" "sock_inv c2 []" "length (ntsock c2) = 2" by auto
  from free_socket_neighbour [OF c2(2), of 0] c1 c2 show ?thesis by (auto intro!: exI [of _ c2])
qed

end
