(* ===== verification/Nt_Backlog.thy ===== *)
theory Nt_Backlog
  imports Nt_Spsc_Queue Nt_Socket
begin

text \<open>
  \<^verbatim>\<open>monitor/src/nt_backlog.c\<close> and its copy in \<^verbatim>\<open>libnts/src\<close>: the queue of a listening socket. The monitor pushes a
  socket for every connection request, the application pops them in \<^verbatim>\<open>accept\<close>. A socket crosses the shared memory as
  the packed structure \<^verbatim>\<open>nt_backlog_sock\<close> of 24 bytes.
\<close>

section \<open>The carrier of a socket\<close>

record nt_backlog_sock =
  bs_sockid :: u32
  bs_socktype :: u32
  bs_opts :: u32
  bs_state :: u32
  bs_sin_port :: u16
  bs_sin_addr :: u32
  bs_sin_family :: u16

abbreviation (input) NT_SOCK_SIZE :: u64 where "NT_SOCK_SIZE \<equiv> 24"

abbreviation (input) BACKLOG_SIZE :: int where "BACKLOG_SIZE \<equiv> 128"

text \<open>The structure in memory, without padding.\<close>

definition enc_backlog_sock :: "nt_backlog_sock \<Rightarrow> byte list" where
  "enc_backlog_sock b =
     le_enc 4 (unat (bs_sockid b)) @ le_enc 4 (unat (bs_socktype b)) @ le_enc 4 (unat (bs_opts b)) @
     le_enc 4 (unat (bs_state b)) @ le_enc 2 (unat (bs_sin_port b)) @ le_enc 4 (unat (bs_sin_addr b)) @
     le_enc 2 (unat (bs_sin_family b))"

definition dec_backlog_sock :: "byte list \<Rightarrow> nt_backlog_sock" where
  "dec_backlog_sock m =
     \<lparr>bs_sockid = of_nat (le_dec (seg m 0 4)), bs_socktype = of_nat (le_dec (seg m 4 4)), bs_opts = of_nat (le_dec (seg m 8 4)),
      bs_state = of_nat (le_dec (seg m 12 4)), bs_sin_port = of_nat (le_dec (seg m 16 2)),
      bs_sin_addr = of_nat (le_dec (seg m 18 4)), bs_sin_family = of_nat (le_dec (seg m 22 2))\<rparr>"

text \<open>The assignments at the head of \<^verbatim>\<open>backlog_push\<close> and at the end of \<^verbatim>\<open>backlog_pop\<close>.\<close>

definition to_backlog_sock :: "nt_socket \<Rightarrow> nt_backlog_sock" where
  "to_backlog_sock s =
     \<lparr>bs_sockid = sockid s, bs_socktype = socktype s, bs_opts = opts s, bs_state = sk_state s,
      bs_sin_port = sin_port (saddr s), bs_sin_addr = sin_addr (saddr s), bs_sin_family = sin_family (saddr s)\<rparr>"

definition from_backlog_sock :: "nt_backlog_sock \<Rightarrow> nt_socket \<Rightarrow> nt_socket" where
  "from_backlog_sock b s =
     s\<lparr>sockid := bs_sockid b, socktype := bs_socktype b, sk_state := bs_state b, opts := bs_opts b,
       saddr := \<lparr>sin_family = bs_sin_family b, sin_port = bs_sin_port b, sin_addr = bs_sin_addr b\<rparr>\<rparr>"

section \<open>Contexts\<close>

datatype nt_backlog_stat = BACKLOG_UNREADY | BACKLOG_READY | BACKLOG_CLOSE | BACKLOG_UNLINK | BACKLOG_ERR

text \<open>\<open>'l\<close> is the type of the pointer to the listener.\<close>

record 'l nt_backlog_context =
  bl_stat :: nt_backlog_stat
  bl_handle :: "nt_spsc_shmring cptr"
  bl_addr :: "string cptr"
  bl_addrlen :: u64
  bl_size :: int
  bl_listener :: 'l

text \<open>
  \<^verbatim>\<open>_backlog_init\<close>. The name is copied into a block of \<^verbatim>\<open>addrlen\<close> bytes, and both callers pass the length without
  the terminator; \<^verbatim>\<open>shm_open\<close> then reads on behind the block. \<open>tail\<close> is what the heap holds there. The context is
  written before the result of \<^verbatim>\<open>calloc\<close> is tested.
\<close>

definition backlog_init ::
  "bool \<Rightarrow> bool \<Rightarrow> string \<Rightarrow> spsc_os \<Rightarrow> 'l \<Rightarrow> string \<Rightarrow> u64 \<Rightarrow> int \<Rightarrow> bool
     \<Rightarrow> ('l nt_backlog_context option \<times> mr_res os_call list) outcome"
where
  "backlog_init calloc_ok malloc_ok tail os listener addr len backlog_size is_owner =
     bind_out (c_assert (0 < len)) (\<lambda>_.
     if \<not> calloc_ok \<or> \<not> malloc_ok then Undef
     else
       let size = (if backlog_size \<le> 0 then BACKLOG_SIZE else backlog_size) in
       bind_out (memcpy (replicate (unat len) (CHR 0x00)) (addr @ [CHR 0x00]) (unat len)) (\<lambda>a.
       bind_out ((if is_owner then nt_spsc_shmring_init else nt_get_spsc_shmring) os (a @ tail) len size NT_SOCK_SIZE)
         (\<lambda>(ring, cs).
         case ring of
           None \<Rightarrow> Ret (None, [Acquire M_ctx, Acquire M_addr] @ cs)
         | Some r \<Rightarrow>
             Ret (Some \<lparr>bl_stat = BACKLOG_READY, bl_handle = Live r, bl_addr = Live a, bl_addrlen = len, bl_size = size,
                        bl_listener = listener\<rparr>,
                  [Acquire M_ctx, Acquire M_addr] @ cs))))"

definition backlog_nts ::
  "bool \<Rightarrow> bool \<Rightarrow> string \<Rightarrow> spsc_os \<Rightarrow> 'l \<Rightarrow> string \<Rightarrow> u64 \<Rightarrow> int
     \<Rightarrow> ('l nt_backlog_context option \<times> mr_res os_call list) outcome"
where
  "backlog_nts calloc_ok malloc_ok tail os listener addr len backlog_size =
     backlog_init calloc_ok malloc_ok tail os listener addr len backlog_size False"

definition backlog_ntm ::
  "bool \<Rightarrow> bool \<Rightarrow> string \<Rightarrow> spsc_os \<Rightarrow> 'l \<Rightarrow> string \<Rightarrow> u64 \<Rightarrow> int
     \<Rightarrow> ('l nt_backlog_context option \<times> mr_res os_call list) outcome"
where
  "backlog_ntm calloc_ok malloc_ok tail os listener addr len backlog_size =
     backlog_init calloc_ok malloc_ok tail os listener addr len backlog_size True"

definition live_backlog :: "nt_spsc_shmring cptr \<Rightarrow> nt_spsc_shmring outcome" where
  "live_backlog p = (case p of Live r \<Rightarrow> Ret r | Null \<Rightarrow> Abort | _ \<Rightarrow> Undef)"

definition backlog_push :: "'l nt_backlog_context \<Rightarrow> nt_socket \<Rightarrow> (int \<times> 'l nt_backlog_context) outcome" where
  "backlog_push ctx socket =
     bind_out (c_assert (bl_stat ctx = BACKLOG_READY)) (\<lambda>_.
     bind_out (live_backlog (bl_handle ctx)) (\<lambda>r.
     bind_out (nt_spsc_shmring_push r (enc_backlog_sock (to_backlog_sock socket)) NT_SOCK_SIZE) (\<lambda>(ret, r').
       Ret (if ret then 0 else - 1, ctx\<lparr>bl_handle := Live r'\<rparr>))))"

text \<open>\<open>buf\<close> is the uninitialised structure on the stack.\<close>

definition backlog_pop ::
  "byte list \<Rightarrow> 'l nt_backlog_context \<Rightarrow> nt_socket \<Rightarrow> (int \<times> nt_socket \<times> 'l nt_backlog_context) outcome"
where
  "backlog_pop buf ctx socket =
     bind_out (c_assert (bl_stat ctx = BACKLOG_READY)) (\<lambda>_.
     bind_out (live_backlog (bl_handle ctx)) (\<lambda>r.
     bind_out (nt_spsc_shmring_pop r buf NT_SOCK_SIZE) (\<lambda>(ret, e, r').
       Ret (if ret then (0, from_backlog_sock (dec_backlog_sock e) socket, ctx\<lparr>bl_handle := Live r'\<rparr>)
            else (- 1, socket, ctx\<lparr>bl_handle := Live r'\<rparr>)))))"

definition backlog_close :: "'l nt_backlog_context \<Rightarrow> bool \<Rightarrow> (int \<times> 'l nt_backlog_context \<times> mr_res os_call list) outcome" where
  "backlog_close ctx is_owner =
     bind_out (c_assert (bl_stat ctx = BACKLOG_READY)) (\<lambda>_.
     bind_out (live_backlog (bl_handle ctx)) (\<lambda>r.
     bind_out (nt_spsc_shmring_free r is_owner) (\<lambda>cs.
     bind_out (case bl_addr ctx of Null \<Rightarrow> Ret [] | Live a \<Rightarrow> Ret [Release M_addr] | _ \<Rightarrow> Undef) (\<lambda>ds.
       Ret (0, ctx\<lparr>bl_handle := Dangling, bl_stat := (if is_owner then BACKLOG_UNLINK else BACKLOG_CLOSE), bl_addr := Null\<rparr>,
            cs @ ds)))))"

definition backlog_nts_close :: "'l nt_backlog_context \<Rightarrow> (int \<times> 'l nt_backlog_context \<times> mr_res os_call list) outcome" where
  "backlog_nts_close ctx = backlog_close ctx False"

definition backlog_ntm_close :: "'l nt_backlog_context \<Rightarrow> (int \<times> 'l nt_backlog_context \<times> mr_res os_call list) outcome" where
  "backlog_ntm_close ctx = backlog_close ctx True"

definition backlog_destroy :: "'l nt_backlog_context \<Rightarrow> mr_res os_call list" where
  "backlog_destroy ctx = [Release M_ctx]"

definition backlog_is_full :: "'l nt_backlog_context \<Rightarrow> bool outcome" where
  "backlog_is_full ctx = bind_out (live_backlog (bl_handle ctx)) (\<lambda>r. Ret (nt_spsc_shmring_is_full r))"

section \<open>The backlog is a queue of sockets\<close>

lemma le_dec_enc_word:
  fixes x :: "'a::len word"
  assumes "256 ^ n = (2 :: nat) ^ LENGTH('a)"
  shows "of_nat (le_dec (le_enc n (unat x))) = x"
proof -
  have "unat x < 256 ^ n" using unsigned_less [of x] assms by simp
  then show ?thesis by simp
qed

lemma length_enc_backlog_sock [simp]: "length (enc_backlog_sock b) = 24"
  by (simp add: enc_backlog_sock_def)

lemma seg_head: "length xs = n \<Longrightarrow> seg (xs @ ys) 0 n = xs"
  by (simp add: seg_def)

lemma seg_skip: "length xs = k \<Longrightarrow> k \<le> off \<Longrightarrow> seg (xs @ ys) off n = seg ys (off - k) n"
  by (simp add: seg_def)

lemma dec_enc_backlog_sock: "dec_backlog_sock (enc_backlog_sock b) = b"
  by (simp add: dec_backlog_sock_def enc_backlog_sock_def seg_head seg_skip seg_all le_dec_enc_word del: le_enc.simps)

definition backlog_ok :: "'l nt_backlog_context \<Rightarrow> bool" where
  "backlog_ok ctx \<longleftrightarrow> bl_stat ctx = BACKLOG_READY \<and>
     (\<exists>r. bl_handle ctx = Live r \<and> spsc_inv r \<and> sq_element_size r = NT_SOCK_SIZE)"

definition backlog_waiting :: "'l nt_backlog_context \<Rightarrow> nt_backlog_sock list" where
  "backlog_waiting ctx = (case bl_handle ctx of Live r \<Rightarrow> map dec_backlog_sock (spsc_contents r) | _ \<Rightarrow> [])"

definition backlog_room :: "'l nt_backlog_context \<Rightarrow> nat" where
  "backlog_room ctx = (case bl_handle ctx of Live r \<Rightarrow> spsc_cap r - 1 | _ \<Rightarrow> 0)"

text \<open>The calls as the operations of a queue; the application pops into a zeroed socket.\<close>

definition backlog_put :: "'l nt_backlog_context \<Rightarrow> nt_socket \<Rightarrow> (bool \<times> 'l nt_backlog_context) outcome" where
  "backlog_put ctx socket = bind_out (backlog_push ctx socket) (\<lambda>(ret, ctx'). Ret (ret = 0, ctx'))"

definition backlog_take :: "'l nt_backlog_context \<Rightarrow> (nt_backlog_sock option \<times> 'l nt_backlog_context) outcome" where
  "backlog_take ctx =
     bind_out (backlog_pop (replicate 24 0) ctx zero_socket) (\<lambda>(ret, socket, ctx').
       Ret (if ret = 0 then Some (to_backlog_sock socket) else None, ctx'))"

lemma to_from_backlog_sock: "to_backlog_sock (from_backlog_sock b s) = b"
  by (simp add: to_backlog_sock_def from_backlog_sock_def)

lemma backlog_put_spsc:
  assumes "bl_stat ctx = BACKLOG_READY" "bl_handle ctx = Live r" "sq_element_size r = NT_SOCK_SIZE"
  shows "backlog_put ctx s = bind_out (spsc_put r (enc_backlog_sock (to_backlog_sock s))) (\<lambda>(ok, r'). Ret (ok, ctx\<lparr>bl_handle := Live r'\<rparr>))"
  using assms by (cases "spsc_put r (enc_backlog_sock (to_backlog_sock s))")
    (auto simp: backlog_put_def backlog_push_def live_backlog_def spsc_put_def bind_out_assoc split: prod.splits)

lemma backlog_take_spsc:
  assumes "bl_stat ctx = BACKLOG_READY" "bl_handle ctx = Live r" "sq_element_size r = NT_SOCK_SIZE"
  shows "backlog_take ctx = bind_out (spsc_take r) (\<lambda>(e, r'). Ret (map_option dec_backlog_sock e, ctx\<lparr>bl_handle := Live r'\<rparr>))"
  using assms by (cases "nt_spsc_shmring_pop r (replicate 24 0) 24")
    (auto simp: backlog_take_def backlog_pop_def live_backlog_def spsc_take_def to_from_backlog_sock split: prod.splits)

interpretation backlog: viewed_fifo backlog_put backlog_take backlog_waiting backlog_ok backlog_room "\<lambda>_ _. True" to_backlog_sock
proof unfold_locales
  fix ctx :: "'l nt_backlog_context" and s
  assume ok: "backlog_ok ctx" and room: "length (backlog_waiting ctx) < backlog_room ctx"
  then obtain r where r: "bl_stat ctx = BACKLOG_READY" "bl_handle ctx = Live r" "spsc_inv r" "sq_element_size r = NT_SOCK_SIZE"
    by (auto simp: backlog_ok_def)
  with room have "length (spsc_contents r) < spsc_cap r - 1" by (simp add: backlog_waiting_def backlog_room_def)
  from spsc_put_room [OF r(3) _ this, of "enc_backlog_sock (to_backlog_sock s)"] r(4) obtain r' where
    "spsc_put r (enc_backlog_sock (to_backlog_sock s)) = Ret (True, r')" "spsc_inv r'"
    "spsc_contents r' = spsc_contents r @ [enc_backlog_sock (to_backlog_sock s)]"
    "sq_element_num r' = sq_element_num r" "sq_element_size r' = sq_element_size r" by auto
  with r backlog_put_spsc [OF r(1,2,4), of s]
  show "\<exists>ctx'. backlog_put ctx s = Ret (True, ctx') \<and> backlog_ok ctx' \<and> backlog_waiting ctx' = backlog_waiting ctx @ [to_backlog_sock s] \<and>
      backlog_room ctx' = backlog_room ctx \<and> (\<lambda>_. True) = (\<lambda>_. True)"
    by (auto simp: backlog_ok_def backlog_waiting_def backlog_room_def dec_enc_backlog_sock)
next
  fix ctx :: "'l nt_backlog_context" and s
  assume ok: "backlog_ok ctx" and full: "length (backlog_waiting ctx) = backlog_room ctx"
  then obtain r where r: "bl_stat ctx = BACKLOG_READY" "bl_handle ctx = Live r" "spsc_inv r" "sq_element_size r = NT_SOCK_SIZE"
    by (auto simp: backlog_ok_def)
  with full show "backlog_put ctx s = Ret (False, ctx)"
    by (simp add: backlog_put_spsc [OF r(1,2,4)] spsc_put_full backlog_waiting_def backlog_room_def)
next
  fix ctx :: "'l nt_backlog_context" and v vs
  assume ok: "backlog_ok ctx" and c: "backlog_waiting ctx = v # vs"
  then obtain r where r: "bl_stat ctx = BACKLOG_READY" "bl_handle ctx = Live r" "spsc_inv r" "sq_element_size r = NT_SOCK_SIZE"
    by (auto simp: backlog_ok_def)
  with c obtain e es where e: "spsc_contents r = e # es" "v = dec_backlog_sock e" "vs = map dec_backlog_sock es"
    by (auto simp: backlog_waiting_def)
  from spsc_take_some [OF r(3) e(1)] obtain r' where
    "spsc_take r = Ret (Some e, r')" "spsc_inv r'" "spsc_contents r' = es" "sq_element_num r' = sq_element_num r"
    "sq_element_size r' = sq_element_size r" by blast
  with r e backlog_take_spsc [OF r(1,2,4)]
  show "\<exists>ctx'. backlog_take ctx = Ret (Some v, ctx') \<and> backlog_ok ctx' \<and> backlog_waiting ctx' = vs \<and>
      backlog_room ctx' = backlog_room ctx \<and> (\<lambda>_. True) = (\<lambda>_. True)"
    by (auto simp: backlog_ok_def backlog_waiting_def backlog_room_def)
next
  fix ctx :: "'l nt_backlog_context"
  assume ok: "backlog_ok ctx"
  then obtain r where r: "bl_stat ctx = BACKLOG_READY" "bl_handle ctx = Live r" "spsc_inv r" "sq_element_size r = NT_SOCK_SIZE"
    by (auto simp: backlog_ok_def)
  then show "backlog_take ctx = Ret (None, ctx)" if "backlog_waiting ctx = []"
    using that by (simp add: backlog_take_spsc [OF r(1,2,4)] spsc_take_empty backlog_waiting_def)
  show "length (backlog_waiting ctx) \<le> backlog_room ctx"
    using spsc_contents_bound [OF r(3)] r(2) by (simp add: backlog_waiting_def backlog_room_def)
qed

lemma backlog_is_full_iff:
  "backlog_ok ctx \<Longrightarrow> backlog_is_full ctx = Ret (length (backlog_waiting ctx) = backlog_room ctx)"
  using spsc_full_iff by (auto simp: backlog_ok_def backlog_is_full_def live_backlog_def backlog_waiting_def backlog_room_def)

lemma backlog_init_RetD:
  assumes "backlog_init True True tail os l addr len sz is_owner = Ret (Some ctx, cs)" "0 < sz"
  obtains r name ds where
    "(if is_owner then nt_spsc_shmring_init else nt_get_spsc_shmring) os name len sz NT_SOCK_SIZE = Ret (Some r, ds)"
    "bl_stat ctx = BACKLOG_READY" "bl_handle ctx = Live r"
  using assms by (auto simp: backlog_init_def Let_def memcpy_Ret split: option.splits)

lemma backlog_ntm_pow2:
  assumes "backlog_ntm True True tail os l addr len (2 ^ k) = Ret (Some ctx, cs)" "k < 31"
    "so_mmap os = Some m" "length (sp_data m) = 2 ^ k * 24"
  shows "backlog_ok ctx" "backlog_waiting ctx = []" "backlog_room ctx = 2 ^ k - 1"
proof -
  from assms(1) obtain r name ds where r: "nt_spsc_shmring_init os name len (2 ^ k) NT_SOCK_SIZE = Ret (Some r, ds)"
    "bl_stat ctx = BACKLOG_READY" "bl_handle ctx = Live r"
    by (auto simp: backlog_ntm_def elim: backlog_init_RetD)
  have "(2 :: nat) ^ k \<le> 2 ^ 30" using assms(2) by (intro power_increasing) simp_all
  then have "length (sp_data m) < 2 ^ 64" using assms(4) by simp
  note spsc = spsc_init_pow2 [OF r(1) assms(2) _ assms(3) _ this]
  from spsc assms(4) have "spsc_inv r" "spsc_contents r = []" "sq_element_num r = 2 ^ k" "sq_element_size r = NT_SOCK_SIZE" by simp_all
  with r show "backlog_ok ctx" "backlog_waiting ctx = []" "backlog_room ctx = 2 ^ k - 1"
    by (auto simp: backlog_ok_def backlog_waiting_def backlog_room_def nat_power_eq)
qed

text \<open>
  C23: A backlog whose size is a power of two is a queue: whatever the order in which the monitor pushes and
  the application pops, the application gets the accepted sockets, with id, type, options, state and address, in the
  order of the requests, and the backlog is reported full when one socket less than its size is waiting.
\<close>

theorem backlog_fifo:
  assumes "backlog_ntm True True tail os l addr len (2 ^ k) = Ret (Some ctx, cs)" "k < 31"
    "so_mmap os = Some m" "length (sp_data m) = 2 ^ k * 24"
  shows "\<exists>acc out ctx'. fifo_run backlog_put backlog_take ctx ops = Ret (acc, out, ctx') \<and>
    map to_backlog_sock acc = out @ backlog_waiting ctx' \<and>
    backlog_is_full ctx' = Ret (length (backlog_waiting ctx') = 2 ^ k - 1)"
proof -
  note ctx = backlog_ntm_pow2 [OF assms]
  from backlog.fifo_order [OF ctx(1), of ops] obtain acc out ctx' where
    "fifo_run backlog_put backlog_take ctx ops = Ret (acc, out, ctx')" "backlog_ok ctx'"
    "backlog_waiting ctx @ map to_backlog_sock acc = out @ backlog_waiting ctx'" "backlog_room ctx' = backlog_room ctx" by auto
  with ctx backlog_is_full_iff [of ctx'] show ?thesis by auto
qed

text \<open>
  A backlog of an odd size is full from the start: every connection request is refused, whatever the
  application does.
\<close>

theorem backlog_odd_full:
  assumes "backlog_ntm True True tail os l addr len sz = Ret (Some ctx, cs)" "0 < sz" "odd sz"
  shows "backlog_is_full ctx = Ret True \<and> backlog_push ctx s = Ret (- 1, ctx) \<and> backlog_pop buf ctx t = Ret (- 1, t, ctx)"
proof -
  from assms(1,2) obtain r name ds where r: "nt_spsc_shmring_init os name len sz NT_SOCK_SIZE = Ret (Some r, ds)"
    "bl_stat ctx = BACKLOG_READY" "bl_handle ctx = Live r"
    by (auto simp: backlog_ntm_def elim: backlog_init_RetD)
  from r(1) have z: "sp_write (sq_shm r) = 0" "sp_read (sq_shm r) = 0" "sq_MASK r = of_int (sz - 1)"
    by (auto simp: nt_spsc_shmring_init_def nt_spsc_shmring_init0_def Let_def split: if_splits option.splits)
  then have "mask_increment (sp_write (sq_shm r)) (sq_MASK r) = sp_read (sq_shm r)"
    using mask_increment_odd [OF assms(3)] by simp
  with r z show ?thesis
    by (simp add: backlog_is_full_def backlog_push_def backlog_pop_def live_backlog_def nt_spsc_shmring_is_full_def
        nt_spsc_shmring_push_def nt_spsc_shmring_pop_def ring_empty_def)
qed

section \<open>A listener with four places\<close>

definition demo_spsc_os :: "nat \<Rightarrow> spsc_os" where
  "demo_spsc_os n = \<lparr>so_malloc = True, so_shm_open = 5, so_errno_retry = False, so_shm_reopen = - 1, so_ftruncate = True,
     so_mmap = Some \<lparr>sp_read = 7, sp_write = 9, sp_data = replicate (n * 24) 0\<rparr>\<rparr>"

definition demo_client :: "u32 \<Rightarrow> nt_socket" where
  "demo_client i = zero_socket\<lparr>sockid := i, socktype := NT_SOCK_PIPE, sk_state := WAIT_ESTABLISHED\<rparr>"

lemma demo_backlog:
  "0 < sz \<Longrightarrow> \<exists>ctx cs. backlog_ntm True True [CHR 0x00] (demo_spsc_os n) () ''b-3'' 3 sz = Ret (Some ctx, cs)"
  by (auto simp: backlog_ntm_def backlog_init_def nt_spsc_shmring_init_def nt_spsc_shmring_init0_def spsc_open_def
      demo_spsc_os_def Let_def memcpy_def c_name_def)

theorem backlog_fifo_witness:
  "\<exists>ctx cs acc out ctx'. backlog_ntm True True [CHR 0x00] (demo_spsc_os 4) () ''b-3'' 3 4 = Ret (Some ctx, cs) \<and>
     fifo_run backlog_put backlog_take ctx [Push (demo_client 2), Push (demo_client 3), Pop] = Ret (acc, out, ctx') \<and>
     map to_backlog_sock acc = out @ backlog_waiting ctx'"
proof -
  from demo_backlog [of 4 4] obtain ctx cs where
    ctx: "backlog_ntm True True [CHR 0x00] (demo_spsc_os 4) () ''b-3'' 3 4 = Ret (Some ctx, cs)" by auto
  then have "backlog_ntm True True [CHR 0x00] (demo_spsc_os 4) () ''b-3'' 3 (2 ^ 2) = Ret (Some ctx, cs)" by simp
  from backlog_fifo [OF this _ _ _, of "\<lparr>sp_read = 7, sp_write = 9, sp_data = replicate (4 * 24) 0\<rparr>"
      "[Push (demo_client 2), Push (demo_client 3), Pop]"]
  have "\<exists>acc out ctx'. fifo_run backlog_put backlog_take ctx [Push (demo_client 2), Push (demo_client 3), Pop] = Ret (acc, out, ctx') \<and>
    map to_backlog_sock acc = out @ backlog_waiting ctx' \<and>
    backlog_is_full ctx' = Ret (length (backlog_waiting ctx') = 2 ^ 2 - 1)"
    by (simp only: demo_spsc_os_def spsc_os.select_convs spsc_shm.select_convs length_replicate) simp
  with ctx show ?thesis by blast
qed

theorem backlog_odd_full_witness:
  "\<exists>ctx cs. backlog_ntm True True [CHR 0x00] (demo_spsc_os 5) () ''b-3'' 3 5 = Ret (Some ctx, cs) \<and>
     backlog_is_full ctx = Ret True \<and> backlog_push ctx (demo_client 2) = Ret (- 1, ctx)"
proof -
  from demo_backlog [of 5 5] obtain ctx cs where
    ctx: "backlog_ntm True True [CHR 0x00] (demo_spsc_os 5) () ''b-3'' 3 5 = Ret (Some ctx, cs)" by auto
  from backlog_odd_full [OF this, of "demo_client 2"] ctx show ?thesis by auto
qed

end
