(* ===== verification/Ntm_Mgr.thy ===== *)
theory Ntm_Mgr
  imports Ntp_Conn Nt_Port Nt_Backlog
begin

unbundle bit_operations_syntax

text \<open>
  The state of the monitor, \<^verbatim>\<open>monitor/src/include/ntb_monitor.h\<close>, and the parts of \<^verbatim>\<open>ntb_monitor.c\<close> that the handlers share.
  What \<^verbatim>\<open>calloc\<close> returned is a number, and the objects behind the numbers are in heaps of the manager; a number without an
  object is a freed pointer. Sockets and ports are named by their index. The two proxy channels, the channels to the
  applications and the hash maps are those of the theories before.
\<close>

section \<open>Messages between two monitors\<close>

datatype ntm_sock_msg_type =
    CONNECT_OK | TRACK | TRACK_CONFIRM | STOP | STOP_CONFIRM | NTM_SUCCESS | FAILURE | QUIT
  | NT_SYN | NT_SYN_ACK | NT_INVALID_PORT | NT_LISTENER_NOT_FOUND | NT_LISTENER_NOT_READY | NT_BACKLOG_IS_FULL
  | NT_FIN | NT_FIN_ACK | NT_CLIENT_SYN_ACK | NO_TYPE

text \<open>Ports and addresses are in network order. \<^const>\<open>NO_TYPE\<close> is any value outside of the enumeration, such as the zero of \<^verbatim>\<open>memset\<close>.\<close>

record ntm_sock_msg =
  sm_src_addr :: u32
  sm_dst_addr :: u32
  sm_sport :: u16
  sm_dport :: u16
  sm_sockid :: int
  sm_type :: ntm_sock_msg_type
  sm_partition_id :: byte

definition zero_sock_msg :: ntm_sock_msg where
  "zero_sock_msg = \<lparr>sm_src_addr = 0, sm_dst_addr = 0, sm_sport = 0, sm_dport = 0, sm_sockid = 0, sm_type = NO_TYPE,
     sm_partition_id = 0\<rparr>"

text \<open>The conversions of a 16-bit value between host and network order.\<close>

definition swap16 :: "u16 \<Rightarrow> u16" where
  "swap16 x = ntohs (ucast x)"

section \<open>Objects\<close>

abbreviation (input) IPADDR_LEN :: nat where "IPADDR_LEN \<equiv> 16"

abbreviation (input) SHM_NAME_LEN :: nat where "SHM_NAME_LEN \<equiv> 64"

record nts_shm_conn =
  nx_sockid :: u32
  nx_socket :: "nat option"
  nx_domain :: int
  nx_protocol :: int
  nx_peer_port :: u32
  nx_peer_addr :: u32
  nx_running :: bool
  nx_port :: int
  nx_addrlen :: int
  nx_ip :: "byte list"
  nx_shm_addrlen :: int
  nx_shm_name :: "byte list"
  nx_shm_ctx :: "nts_msg shm_ctx4 cptr"
  nx_listener :: "nat option"
  nx_ntm_conn :: "nat option"
  nx_epoll_ctx :: "nat option"

definition zero_conn :: nts_shm_conn where
  "zero_conn = \<lparr>nx_sockid = 0, nx_socket = None, nx_domain = 0, nx_protocol = 0, nx_peer_port = 0, nx_peer_addr = 0,
     nx_running = False, nx_port = 0, nx_addrlen = 0, nx_ip = replicate IPADDR_LEN 0, nx_shm_addrlen = 0,
     nx_shm_name = replicate SHM_NAME_LEN 0, nx_shm_ctx = Null, nx_listener = None, nx_ntm_conn = None, nx_epoll_ctx = None\<rparr>"

record nt_listener =
  nl_sockid :: int
  nl_socket :: nat
  nl_backlog :: int

text \<open>The listener is an object of its own in the code; it is created and freed with its wrapper.\<close>

record nt_listener_wrapper =
  lw_listener :: nt_listener
  lw_port :: int
  lw_addrlen :: int
  lw_ip :: "byte list"
  lw_backlog_ctx :: "unit nt_backlog_context cptr"
  lw_accepted :: "(key, nat) hashMap"
  lw_conn :: nat

text \<open>A TCP connection to another monitor; \<open>rc_sock\<close> is the \<^verbatim>\<open>client_sock\<close> with its descriptor.\<close>

record ntm_conn =
  rc_ip :: "byte list"
  rc_addrlen :: int
  rc_port :: int
  rc_running :: bool
  rc_sock :: "int cptr"

record ntm_epoll =
  ne_socket :: nat
  ne_shm :: "shmring ep_ctx"
  ne_queue_size :: int
  ne_queue :: epoll_event_queue
  ne_sockets :: "(key, nat) hashMap cptr"

record ntm_config =
  max_concurrency :: int
  max_port :: int
  nt_max_conn_num :: int
  listen_ip :: "byte list"

section \<open>The manager\<close>

text \<open>\<open>mg_sent\<close> is what was handed to \<^verbatim>\<open>send\<close>, with the descriptors.\<close>

record ntm_manager =
  mg_socks :: nt_sock_context
  mg_ports :: nt_port_context
  port_sock_map :: "(key, nat) hashMap"
  nts_shm_conn_map :: "(key, nat) hashMap"
  listener_map :: "(key, nat) hashMap"
  conn_map :: "(key, nat) hashMap"
  epoll_ctx_map :: "(key, nat) hashMap"
  mg_conns :: "nat \<Rightarrow> nts_shm_conn option"
  mg_wraps :: "nat \<Rightarrow> nt_listener_wrapper option"
  mg_remotes :: "nat \<Rightarrow> ntm_conn option"
  mg_epolls :: "nat \<Rightarrow> ntm_epoll option"
  mg_ntp_send :: "ntm_ntp_msg shm_ctx4"
  mg_ntp_recv :: "ntp_ntm_msg shm_ctx4"
  mg_ep_send :: "sem_ring ep_ctx"
  mg_ep_recv :: "sem_ring ep_ctx"
  mg_sent :: "(int \<times> ntm_sock_msg) list"

text \<open>Dereferencing.\<close>

definition conn_of :: "ntm_manager \<Rightarrow> nat \<Rightarrow> nts_shm_conn outcome" where
  "conn_of m a = (case mg_conns m a of None \<Rightarrow> Undef | Some c \<Rightarrow> Ret c)"

definition wrap_of :: "ntm_manager \<Rightarrow> nat \<Rightarrow> nt_listener_wrapper outcome" where
  "wrap_of m a = (case mg_wraps m a of None \<Rightarrow> Undef | Some w \<Rightarrow> Ret w)"

definition remote_of :: "ntm_manager \<Rightarrow> nat \<Rightarrow> ntm_conn outcome" where
  "remote_of m a = (case mg_remotes m a of None \<Rightarrow> Undef | Some c \<Rightarrow> Ret c)"

definition sock_of :: "ntm_manager \<Rightarrow> nat \<Rightarrow> nt_socket outcome" where
  "sock_of m i = array_get (ntsock (mg_socks m)) i"

definition conn_socket :: "ntm_manager \<Rightarrow> nts_shm_conn \<Rightarrow> (nat \<times> nt_socket) outcome" where
  "conn_socket m c = (case nx_socket c of None \<Rightarrow> Undef | Some i \<Rightarrow> bind_out (sock_of m i) (\<lambda>s. Ret (i, s)))"

abbreviation put_conn :: "ntm_manager \<Rightarrow> nat \<Rightarrow> nts_shm_conn \<Rightarrow> ntm_manager" where
  "put_conn m a c \<equiv> m\<lparr>mg_conns := (mg_conns m)(a := Some c)\<rparr>"

abbreviation put_wrap :: "ntm_manager \<Rightarrow> nat \<Rightarrow> nt_listener_wrapper \<Rightarrow> ntm_manager" where
  "put_wrap m a w \<equiv> m\<lparr>mg_wraps := (mg_wraps m)(a := Some w)\<rparr>"

definition put_sock :: "ntm_manager \<Rightarrow> nat \<Rightarrow> nt_socket \<Rightarrow> ntm_manager" where
  "put_sock m i s = m\<lparr>mg_socks := (mg_socks m)\<lparr>ntsock := (ntsock (mg_socks m))[i := s]\<rparr>\<rparr>"

text \<open>\<^verbatim>\<open>Exists\<close> with a number as key; \<^const>\<open>map_get\<close>, \<^const>\<open>map_put\<close> and \<^const>\<open>map_remove\<close> are those of the proxy.\<close>

definition map_exists :: "(key, nat) hashMap \<Rightarrow> u32 \<Rightarrow> bool outcome" where
  "map_exists m i = bind_out (id_key i) (\<lambda>k. defaultExists defaultHashCode defaultEqual m k)"

text \<open>\<^verbatim>\<open>if (Exists(m, k)) Remove(m, k)\<close>.\<close>

definition map_drop :: "(key, nat) hashMap \<Rightarrow> u32 \<Rightarrow> (key, nat) hashMap outcome" where
  "map_drop m i = bind_out (map_exists m i) (\<lambda>ex. if ex then map_remove m i else Ret m)"

section \<open>Sending\<close>

text \<open>\<^verbatim>\<open>ntm_send_tcp_msg\<close>; \<open>r\<close> is what \<^verbatim>\<open>send\<close> returns.\<close>

definition ntm_send_tcp_msg :: "int \<Rightarrow> ntm_manager \<Rightarrow> nat \<Rightarrow> ntm_sock_msg \<Rightarrow> (int \<times> ntm_manager) outcome" where
  "ntm_send_tcp_msg r m a msg =
     bind_out (remote_of m a) (\<lambda>c.
     case rc_sock c of
       Live fd \<Rightarrow> Ret (r, m\<lparr>mg_sent := mg_sent m @ [(fd, msg)]\<rparr>)
     | Null \<Rightarrow> Abort
     | _ \<Rightarrow> Undef)"

text \<open>\<^verbatim>\<open>nts_shm_send(nts_shm_conn->nts_shm_ctx, msg)\<close>: the first access to the context is through the pointer.\<close>

definition send_to_nts :: "ntm_manager \<Rightarrow> nat \<Rightarrow> nts_msg \<Rightarrow> (int \<times> ntm_manager) outcome" where
  "send_to_nts m a msg =
     bind_out (conn_of m a) (\<lambda>c.
     case nx_shm_ctx c of
       Live ctx \<Rightarrow> bind_out (nts_shm_send ctx msg) (\<lambda>(r, ctx'). Ret (r, put_conn m a (c\<lparr>nx_shm_ctx := Live ctx'\<rparr>)))
     | _ \<Rightarrow> Undef)"

text \<open>
  The exchange with the proxy. Between two attempts the proxy moves: an element of \<open>env\<close> is what it does to the two
  channels. With no more moves the loop never ends.
\<close>

type_synonym ntp_move = "ntm_ntp_msg shm_ctx4 \<times> ntp_ntm_msg shm_ctx4 \<Rightarrow> ntm_ntp_msg shm_ctx4 \<times> ntp_ntm_msg shm_ctx4"

definition ntp_moves :: "ntp_move \<Rightarrow> ntm_manager \<Rightarrow> ntm_manager" where
  "ntp_moves e m = (case e (mg_ntp_send m, mg_ntp_recv m) of (s, r) \<Rightarrow> m\<lparr>mg_ntp_send := s, mg_ntp_recv := r\<rparr>)"

fun ntp_send_wait :: "ntp_move list \<Rightarrow> ntm_manager \<Rightarrow> ntm_ntp_msg \<Rightarrow> (ntp_move list \<times> ntm_manager) outcome" where
  "ntp_send_wait env m msg =
     bind_out (ntm_ntp_shm_send (mg_ntp_send m) msg) (\<lambda>(retval, ctx).
     let m' = m\<lparr>mg_ntp_send := ctx\<rparr> in
     if retval = - 1 then (case env of [] \<Rightarrow> Spin | e # es \<Rightarrow> ntp_send_wait es (ntp_moves e m') msg)
     else Ret (env, m'))"

fun ntp_recv_wait :: "ntp_move list \<Rightarrow> ntm_manager \<Rightarrow> ntp_ntm_msg \<Rightarrow> (ntp_ntm_msg \<times> ntm_manager) outcome" where
  "ntp_recv_wait env m buf =
     bind_out (ntp_ntm_shm_recv (mg_ntp_recv m) buf) (\<lambda>(retval, buf', ctx).
     let m' = m\<lparr>mg_ntp_recv := ctx\<rparr> in
     if retval = - 1 then (case env of [] \<Rightarrow> Spin | e # es \<Rightarrow> ntp_recv_wait es (ntp_moves e m') buf')
     else Ret (buf', m'))"

declare ntp_send_wait.simps [simp del] ntp_recv_wait.simps [simp del]

text \<open>\<open>out\<close> and \<open>inc\<close> are the uninitialised messages on the stack.\<close>

definition ask_ntp ::
  "ntp_move list \<Rightarrow> ntm_ntp_msg \<Rightarrow> ntp_ntm_msg \<Rightarrow> ntm_manager \<Rightarrow> ntm_sock_msg \<Rightarrow> byte \<Rightarrow> (ntp_ntm_msg \<times> ntm_manager) outcome"
where
  "ask_ntp env out inc m msg part =
     bind_out (ntp_send_wait env m
       (out\<lparr>cm_dst_ip := ucast (sm_src_addr msg), cm_dst_port := ucast (sm_sport msg), cm_src_ip := ucast (sm_dst_addr msg),
            cm_src_port := ucast (sm_dport msg), cm_msg_type := 1, cm_partition_id := part, cm_msg_len := 0\<rparr>)) (\<lambda>(env', m').
     ntp_recv_wait env' m' inc)"

section \<open>Taking down a connection\<close>

text \<open>\<^verbatim>\<open>parse_sockaddr_port\<close>: the port in host order.\<close>

definition parse_sockaddr_port :: "sockaddr_in \<Rightarrow> int" where
  "parse_sockaddr_port a = uint (swap16 (sin_port a))"

text \<open>Closing and destroying the channel of a connection, if there is one.\<close>

definition close_nts_shm :: "ntm_manager \<Rightarrow> nat \<Rightarrow> ntm_manager outcome" where
  "close_nts_shm m a =
     bind_out (conn_of m a) (\<lambda>c.
     case nx_shm_ctx c of
       Null \<Rightarrow> Ret m
     | Live ctx \<Rightarrow> bind_out (nts_shm_ntm_close ctx) (\<lambda>_. Ret (put_conn m a (c\<lparr>nx_shm_ctx := Dangling\<rparr>)))
     | _ \<Rightarrow> Undef)"

text \<open>An accepted socket is taken out of the map of its listener; the wrapper may have been freed.\<close>

definition leave_listener :: "ntm_manager \<Rightarrow> nat \<Rightarrow> nt_socket \<Rightarrow> ntm_manager outcome" where
  "leave_listener m a s =
     bind_out (conn_of m a) (\<lambda>c.
     if socktype s = NT_SOCK_PIPE then
       (case nx_listener c of
          None \<Rightarrow> Ret m
        | Some l \<Rightarrow>
            bind_out (wrap_of m l) (\<lambda>w.
            bind_out (map_drop (lw_accepted w) (sockid s)) (\<lambda>acc. Ret (put_wrap m l (w\<lparr>lw_accepted := acc\<rparr>)))))
     else Ret m)"

text \<open>What the three functions do with the connection of the socket.\<close>

definition drop_conn :: "ntm_manager \<Rightarrow> nat \<Rightarrow> nt_socket \<Rightarrow> ntm_manager outcome" where
  "drop_conn m a s =
     bind_out (leave_listener m a s) (\<lambda>m1.
     bind_out (close_nts_shm m1 a) (\<lambda>m2.
     bind_out (map_drop (nts_shm_conn_map m2) (sockid s)) (\<lambda>cm.
       Ret (m2\<lparr>nts_shm_conn_map := cm, mg_conns := (mg_conns m2)(a := None)\<rparr>))))"

definition drop_port :: "ntm_manager \<Rightarrow> int \<Rightarrow> ntm_manager outcome" where
  "drop_port m port =
     bind_out (map_drop (port_sock_map m) (of_int port)) (\<lambda>pm.
     bind_out (free_port (mg_ports m) port) (\<lambda>ports.
       Ret (m\<lparr>port_sock_map := pm, mg_ports := ports\<rparr>)))"

definition drop_socket :: "ntm_manager \<Rightarrow> nt_socket \<Rightarrow> ntm_manager outcome" where
  "drop_socket m s = bind_out (free_socket (mg_socks m) (sint (sockid s))) (\<lambda>c. Ret (m\<lparr>mg_socks := c\<rparr>))"

definition destroy_client_nt_socket_conn :: "ntm_manager \<Rightarrow> nat \<Rightarrow> nat \<Rightarrow> int \<Rightarrow> ntm_manager outcome" where
  "destroy_client_nt_socket_conn m i a bound_port =
     bind_out (sock_of m i) (\<lambda>s.
     bind_out (c_assert (0 < sockid s)) (\<lambda>_.
     bind_out (c_assert (0 \<le> bound_port)) (\<lambda>_.
     bind_out (drop_port m bound_port) (\<lambda>m1.
     bind_out (drop_conn m1 a s) (\<lambda>m2.
     drop_socket m2 s)))))"

definition destroy_client_nt_socket_conn_with_sock :: "ntm_manager \<Rightarrow> nat \<Rightarrow> ntm_manager outcome" where
  "destroy_client_nt_socket_conn_with_sock m i =
     bind_out (sock_of m i) (\<lambda>s.
     bind_out (c_assert (0 < sockid s)) (\<lambda>_.
     bind_out (map_get (nts_shm_conn_map m) (sockid s)) (\<lambda>conn.
     let bound_port = parse_sockaddr_port (saddr s) in
     case conn of
       Some a \<Rightarrow>
         if bound_port \<noteq> 0 then destroy_client_nt_socket_conn m i a bound_port
         else bind_out (drop_conn m a s) (\<lambda>m1. drop_socket m1 s)
     | None \<Rightarrow>
         if 0 < bound_port then bind_out (drop_port m bound_port) (\<lambda>m1. drop_socket m1 s)
         else drop_socket m s)))"

text \<open>A connection without a socket reads the port of an indeterminate pointer.\<close>

definition destroy_client_nt_socket_conn_with_nts_shm_conn :: "ntm_manager \<Rightarrow> nat \<Rightarrow> ntm_manager outcome" where
  "destroy_client_nt_socket_conn_with_nts_shm_conn m a =
     bind_out (conn_of m a) (\<lambda>c.
     case nx_socket c of
       Some i \<Rightarrow> destroy_client_nt_socket_conn_with_sock m i
     | None \<Rightarrow> Undef)"

end
