(* ===== verification/Ntm_Remote.thy ===== *)
theory Ntm_Remote
  imports Ntm_Mgr
begin

unbundle bit_operations_syntax

text \<open>
  The half of \<^verbatim>\<open>monitor/src/ntb_monitor.c\<close> that serves other monitors: the handlers of \<^verbatim>\<open>ntm_sock_handle_msg\<close>, which carry
  out the three-way handshake and the end of a connection, and the thread that receives for one TCP connection.
\<close>

abbreviation (input) AF_INET :: u16 where "AF_INET \<equiv> 2"

abbreviation (input) NTS_EPOLLIN :: u32 where "NTS_EPOLLIN \<equiv> 1"

text \<open>
  The answers of the system: the result of \<^verbatim>\<open>send\<close>, the address of a new connection object, the moves of the proxy,
  interruptions of the two semaphore waits, and the memory of the messages on the stack.
\<close>

record ntm_os =
  os_tcp :: int
  os_conn :: "nat option"
  os_env :: "ntp_move list"
  os_intr :: "bool \<times> bool"
  os_out :: ntm_ntp_msg
  os_inc :: ntp_ntm_msg
  os_resp :: nts_msg

abbreviation nts_type :: "nat \<Rightarrow> u32" where "nts_type k \<equiv> push_bit k 1"

section \<open>A connection request\<close>

text \<open>The message back, as far as it is filled at the start.\<close>

definition reply_to :: "ntm_sock_msg \<Rightarrow> ntm_sock_msg" where
  "reply_to msg = zero_sock_msg\<lparr>sm_src_addr := sm_dst_addr msg, sm_dport := sm_sport msg, sm_dst_addr := sm_src_addr msg\<rparr>"

definition refuse :: "ntm_os \<Rightarrow> ntm_manager \<Rightarrow> nat \<Rightarrow> ntm_sock_msg \<Rightarrow> ntm_sock_msg_type \<Rightarrow> ntm_manager outcome" where
  "refuse os m rc msg t = bind_out (ntm_send_tcp_msg (os_tcp os) m rc ((reply_to msg)\<lparr>sm_type := t\<rparr>)) (\<lambda>(_, m'). Ret m')"

definition live_ctx :: "'a cptr \<Rightarrow> 'a outcome" where
  "live_ctx p = (case p of Live x \<Rightarrow> Ret x | Null \<Rightarrow> Abort | _ \<Rightarrow> Undef)"

text \<open>The label \<^verbatim>\<open>FAIL\<close>: \<open>new\<close> is the pointer \<^verbatim>\<open>new_nts_shm_conn\<close>, which has no value before its assignment.\<close>

definition syn_fail :: "ntm_manager \<Rightarrow> nat \<Rightarrow> nat \<Rightarrow> nat \<Rightarrow> nat cptr \<Rightarrow> ntm_manager outcome" where
  "syn_fail m i p l new =
     bind_out (array_get (ntport (mg_ports m)) p) (\<lambda>port.
     bind_out (drop_port m (uint (port_id port))) (\<lambda>m1.
     bind_out (sock_of m1 i) (\<lambda>s.
     let m2 = put_sock m1 i (s\<lparr>sk_state := CLOSED\<rparr>) in
     bind_out (map_drop (nts_shm_conn_map m2) (sockid s)) (\<lambda>cm.
     bind_out (wrap_of m2 l) (\<lambda>w.
     bind_out (map_drop (lw_accepted w) (sockid s)) (\<lambda>acc.
     bind_out (drop_socket (put_wrap (m2\<lparr>nts_shm_conn_map := cm\<rparr>) l (w\<lparr>lw_accepted := acc\<rparr>)) s) (\<lambda>m3.
     case new of
       Null \<Rightarrow> Ret m3
     | Live a \<Rightarrow> Ret (m3\<lparr>mg_conns := (mg_conns m3)(a := None)\<rparr>)
     | _ \<Rightarrow> Undef)))))))"

text \<open>The event for a listener that is watched by \<^verbatim>\<open>epoll\<close>; the result of the push is only logged.\<close>

definition notify_listener :: "ntm_os \<Rightarrow> ntm_manager \<Rightarrow> nat \<Rightarrow> ntm_manager outcome" where
  "notify_listener os m l =
     bind_out (wrap_of m l) (\<lambda>w.
     bind_out (conn_of m (lw_conn w)) (\<lambda>c.
     bind_out (conn_socket m c) (\<lambda>(_, s).
     if sk_epoll s \<noteq> 0 \<and> sk_epoll s AND NTS_EPOLLIN \<noteq> 0 then
       (case nx_epoll_ctx c of
          None \<Rightarrow> Undef
        | Some e \<Rightarrow>
            (case mg_epolls m e of
               None \<Rightarrow> Undef
             | Some ep \<Rightarrow>
                 bind_out (ep_event_queue_push (fst (os_intr os)) (snd (os_intr os)) (ne_queue ep)
                    \<lparr>ei_sockid = sint (sockid s), ei_ev = \<lparr>ev_data = ucast (sockid s), ev_events = NTS_EPOLLIN\<rparr>\<rparr>) (\<lambda>(_, q).
                   Ret (m\<lparr>mg_epolls := (mg_epolls m)(e := Some (ep\<lparr>ne_queue := q\<rparr>))\<rparr>))))
     else Ret m)))"

text \<open>The socket, its port and the entry in \<^verbatim>\<open>port_sock_map\<close>.\<close>

definition syn_socket :: "ntm_manager \<Rightarrow> ntm_sock_msg \<Rightarrow> nat \<Rightarrow> (nat \<times> nat \<times> ntm_manager) outcome" where
  "syn_socket m msg l =
     bind_out (allocate_socket (mg_socks m) NT_SOCK_PIPE) (\<lambda>(i, sc).
     bind_out (allocate_port (mg_ports m)) (\<lambda>(p, pc).
     let m1 = m\<lparr>mg_socks := sc, mg_ports := pc\<rparr>; pid = port_id (ntport pc ! p) in
     bind_out (sock_of m1 i) (\<lambda>s.
     bind_out (map_put (port_sock_map m1) (ucast pid) i) (\<lambda>pm.
       Ret (i, p, (put_sock m1 i (s\<lparr>sk_listener := Some l,
          saddr := \<lparr>sin_family = AF_INET, sin_port = swap16 pid, sin_addr = sm_dst_addr msg\<rparr>\<rparr>))\<lparr>port_sock_map := pm\<rparr>)))))"

text \<open>The connection object, the maps and the backlog.\<close>

definition syn_establish ::
  "ntm_manager \<Rightarrow> nat \<Rightarrow> ntm_sock_msg \<Rightarrow> nat \<Rightarrow> nat \<Rightarrow> nat \<Rightarrow> (int \<times> ntm_manager) outcome"
where
  "syn_establish m rc msg l i a =
     bind_out (sock_of m i) (\<lambda>s.
     let m1 = put_conn m a (zero_conn\<lparr>nx_socket := Some i, nx_sockid := sockid s, nx_running := True, nx_listener := Some l,
                nx_ntm_conn := Some rc, nx_peer_addr := sm_src_addr msg, nx_peer_port := ucast (sm_sport msg)\<rparr>) in
     bind_out (map_put (nts_shm_conn_map m1) (sockid s) a) (\<lambda>cm.
     let s' = s\<lparr>sk_state := WAIT_ESTABLISHED\<rparr>; m2 = put_sock (m1\<lparr>nts_shm_conn_map := cm\<rparr>) i s' in
     bind_out (wrap_of m2 l) (\<lambda>w.
     bind_out (map_put (lw_accepted w) (sockid s) i) (\<lambda>acc.
     bind_out (live_ctx (lw_backlog_ctx w)) (\<lambda>ctx.
     bind_out (backlog_push ctx s') (\<lambda>(retval, ctx').
       Ret (retval, put_wrap m2 l (w\<lparr>lw_accepted := acc, lw_backlog_ctx := Live ctx'\<rparr>))))))))"

text \<open>From the first allocation on.\<close>

definition syn_accept :: "ntm_os \<Rightarrow> ntm_manager \<Rightarrow> nat \<Rightarrow> ntm_sock_msg \<Rightarrow> nat \<Rightarrow> ntm_manager outcome" where
  "syn_accept os m rc msg l =
     bind_out (syn_socket m msg l) (\<lambda>(i, p, m1).
     bind_out (ask_ntp (os_env os) (os_out os) (os_inc os) m1 msg (- 1)) (\<lambda>(inc, m2).
     if cm_msg_type inc \<noteq> 1 then syn_fail m2 i p l Wild
     else
       (case os_conn os of
          None \<Rightarrow> syn_fail m2 i p l Null
        | Some a \<Rightarrow>
            bind_out (syn_establish m2 rc msg l i a) (\<lambda>(retval, m3).
            if retval = - 1 then syn_fail m3 i p l (Live a)
            else
              bind_out (notify_listener os m3 l) (\<lambda>m4.
              bind_out (sock_of m4 i) (\<lambda>s.
              bind_out (ntm_send_tcp_msg (os_tcp os) m4 rc ((reply_to msg)\<lparr>sm_sport := sm_dport msg, sm_dport := sm_sport msg,
                 sm_sockid := sint (sockid s), sm_type := NT_SYN_ACK, sm_partition_id := cm_partition_id inc\<rparr>)) (\<lambda>(_, m5).
                Ret m5)))))))"

definition handle_nt_syn_msg :: "ntm_os \<Rightarrow> ntm_manager \<Rightarrow> nat \<Rightarrow> ntm_sock_msg \<Rightarrow> ntm_manager outcome" where
  "handle_nt_syn_msg os m rc msg =
     (let sport = uint (swap16 (sm_sport msg)); dport = uint (swap16 (sm_dport msg)) in
      if sport < 0 \<or> dport < 0 then refuse os m rc msg NT_INVALID_PORT
      else
        bind_out (map_exists (listener_map m) (of_int dport)) (\<lambda>ex.
        if \<not> ex then refuse os m rc msg NT_LISTENER_NOT_FOUND
        else
          bind_out (map_get (listener_map m) (of_int dport)) (\<lambda>g.
          case g of
            None \<Rightarrow> Undef
          | Some l \<Rightarrow>
              bind_out (wrap_of m l) (\<lambda>w.
              bind_out (sock_of m (nl_socket (lw_listener w))) (\<lambda>ls.
              if sk_state ls \<noteq> LISTENING then refuse os m rc msg NT_LISTENER_NOT_READY
              else
                bind_out (live_ctx (lw_backlog_ctx w)) (\<lambda>ctx.
                bind_out (backlog_is_full ctx) (\<lambda>full.
                if full then refuse os m rc msg NT_BACKLOG_IS_FULL
                else syn_accept os m rc msg l)))))))"

section \<open>The answers\<close>

definition handle_nt_syn_ack_msg :: "ntm_os \<Rightarrow> ntm_manager \<Rightarrow> nat \<Rightarrow> ntm_sock_msg \<Rightarrow> ntm_manager outcome" where
  "handle_nt_syn_ack_msg os m rc msg =
     bind_out (c_assert (0 < sm_sockid msg)) (\<lambda>_.
     let sport = uint (swap16 (sm_sport msg)); dport = uint (swap16 (sm_dport msg)) in
     if sport < 0 \<or> dport < 0 then Ret m
     else
       bind_out (map_get (port_sock_map m) (of_int dport)) (\<lambda>g.
       case g of
         None \<Rightarrow> Ret m
       | Some i \<Rightarrow>
           bind_out (ask_ntp (os_env os) (os_out os) (os_inc os) m msg (sm_partition_id msg)) (\<lambda>(inc, m1).
           if cm_msg_type inc \<noteq> 1 then Ret m1
           else
             bind_out (sock_of m1 i) (\<lambda>s.
             let m2 = put_sock m1 i (s\<lparr>sk_state := ESTABLISHED\<rparr>) in
             bind_out (ntm_send_tcp_msg (os_tcp os) m2 rc ((reply_to msg)\<lparr>sm_sockid := sm_sockid msg, sm_sport := sm_dport msg,
                sm_type := NT_CLIENT_SYN_ACK\<rparr>)) (\<lambda>(_, m3).
             bind_out (map_exists (nts_shm_conn_map m3) (sockid s)) (\<lambda>ex.
             if \<not> ex then Ret m3
             else
               bind_out (map_get (nts_shm_conn_map m3) (sockid s)) (\<lambda>h.
               case h of
                 None \<Rightarrow> Undef
               | Some a \<Rightarrow>
                   bind_out (conn_of m3 a) (\<lambda>c.
                   let m4 = put_conn m3 a (c\<lparr>nx_peer_port := ucast (sm_sport msg), nx_peer_addr := sm_src_addr msg\<rparr>) in
                   bind_out (send_to_nts m4 a ((os_resp os)\<lparr>ns_msg_type := nts_type NTS_MSG_ESTABLISH,
                      ns_sockid := sint (sockid s), ns_retval := 0\<rparr>)) (\<lambda>(_, m5). Ret m5)))))))))"

definition handle_nt_client_syn_ack_msg :: "ntm_os \<Rightarrow> ntm_manager \<Rightarrow> nat \<Rightarrow> ntm_sock_msg \<Rightarrow> (int \<times> ntm_manager) outcome" where
  "handle_nt_client_syn_ack_msg os m rc msg =
     bind_out (c_assert (0 < sm_sockid msg)) (\<lambda>_.
     let sport = uint (swap16 (sm_sport msg)); dport = uint (swap16 (sm_dport msg));
         no = (\<lambda>t. bind_out (refuse os m rc msg t) (\<lambda>m'. Ret (- 1, m'))) in
     if sport < 0 \<or> dport < 0 then no NT_INVALID_PORT
     else
       bind_out (map_exists (listener_map m) (of_int dport)) (\<lambda>ex.
       if \<not> ex then no NT_LISTENER_NOT_FOUND
       else
         bind_out (map_get (listener_map m) (of_int dport)) (\<lambda>g.
         case g of
           None \<Rightarrow> Undef
         | Some l \<Rightarrow>
             bind_out (wrap_of m l) (\<lambda>w.
             bind_out (sock_of m (nl_socket (lw_listener w))) (\<lambda>ls.
             if sk_state ls \<noteq> LISTENING then no NT_LISTENER_NOT_READY
             else
               bind_out (map_get (lw_accepted w) (of_int (sm_sockid msg))) (\<lambda>h.
               case h of
                 None \<Rightarrow> Undef
               | Some i \<Rightarrow>
                   bind_out (sock_of m i) (\<lambda>s.
                   let m1 = put_sock m i (s\<lparr>sk_state := ESTABLISHED\<rparr>) in
                   bind_out (send_to_nts m1 (lw_conn w) ((os_resp os)\<lparr>ns_sockid := sm_sockid msg,
                      ns_msg_type := nts_type NTS_MSG_CLIENT_SYN_ACK, ns_retval := 0\<rparr>)) (\<lambda>(retval, m2).
                     Ret (if retval \<noteq> 0 then - 1 else 0, m2)))))))))"

section \<open>The end of a connection\<close>

definition handle_nt_fin_ack_msg :: "ntm_os \<Rightarrow> ntm_manager \<Rightarrow> nat \<Rightarrow> ntm_sock_msg \<Rightarrow> ntm_manager outcome" where
  "handle_nt_fin_ack_msg os m rc msg =
     (let sport = uint (swap16 (sm_sport msg)); dport = uint (swap16 (sm_dport msg)) in
      if sport < 0 \<or> dport < 0 then Ret m
      else
        bind_out (map_get (port_sock_map m) (of_int dport)) (\<lambda>g.
        case g of
          None \<Rightarrow> Ret m
        | Some i \<Rightarrow>
            bind_out (sock_of m i) (\<lambda>s.
            let m1 = put_sock m i (s\<lparr>sk_state := WAIT_CLOSE\<rparr>) in
            bind_out (map_exists (nts_shm_conn_map m1) (sockid s)) (\<lambda>ex.
            if \<not> ex then Ret m1
            else
              bind_out (map_get (nts_shm_conn_map m1) (sockid s)) (\<lambda>h.
              case h of
                None \<Rightarrow> Undef
              | Some a \<Rightarrow>
                  bind_out (send_to_nts m1 a ((os_resp os)\<lparr>ns_msg_type := nts_type NTS_MSG_CLOSE,
                     ns_sockid := sint (sockid s)\<rparr>)) (\<lambda>(retval, m2).
                  if retval \<noteq> 0 then Ret m2
                  else destroy_client_nt_socket_conn (put_sock m2 i (s\<lparr>sk_state := CLOSED\<rparr>)) i a dport))))))"

text \<open>\<^verbatim>\<open>ntm_free\<close> asserts that there is a socket and frees it; the pointer in the connection stays.\<close>

definition ntm_free :: "ntm_manager \<Rightarrow> nat \<Rightarrow> ntm_manager outcome" where
  "ntm_free m rc =
     bind_out (remote_of m rc) (\<lambda>c.
     bind_out (live_ctx (rc_sock c)) (\<lambda>_. Ret (m\<lparr>mg_remotes := (mg_remotes m)(rc := Some (c\<lparr>rc_sock := Dangling\<rparr>))\<rparr>)))"

definition stop_running :: "ntm_manager \<Rightarrow> nat \<Rightarrow> ntm_manager outcome" where
  "stop_running m rc =
     bind_out (remote_of m rc) (\<lambda>c. Ret (m\<lparr>mg_remotes := (mg_remotes m)(rc := Some (c\<lparr>rc_running := False\<rparr>))\<rparr>))"

definition handle_stop_msg :: "ntm_os \<Rightarrow> ntm_manager \<Rightarrow> nat \<Rightarrow> ntm_sock_msg \<Rightarrow> ntm_manager outcome" where
  "handle_stop_msg os m rc msg =
     bind_out (stop_running m rc) (\<lambda>m1.
     bind_out (ntm_send_tcp_msg (os_tcp os) m1 rc ((reply_to msg)\<lparr>sm_type := STOP_CONFIRM, sm_sport := sm_dport msg\<rparr>)) (\<lambda>(retval, m2).
     if retval \<le> 0 then Ret m2 else ntm_free m2 rc))"

definition handle_stop_confirm_msg :: "ntm_manager \<Rightarrow> nat \<Rightarrow> ntm_manager outcome" where
  "handle_stop_confirm_msg m rc = bind_out (stop_running m rc) (\<lambda>m1. ntm_free m1 rc)"

definition send_connect_ok_msg :: "ntm_os \<Rightarrow> ntm_manager \<Rightarrow> nat \<Rightarrow> ntm_manager outcome" where
  "send_connect_ok_msg os m rc =
     bind_out (ntm_send_tcp_msg (os_tcp os) m rc (zero_sock_msg\<lparr>sm_type := CONNECT_OK\<rparr>)) (\<lambda>(_, m'). Ret m')"

section \<open>Dispatch and the receiving thread\<close>

text \<open>The handlers that only log are the last case.\<close>

definition ntm_sock_handle_msg :: "ntm_os \<Rightarrow> ntm_manager \<Rightarrow> nat \<Rightarrow> ntm_sock_msg \<Rightarrow> (int \<times> ntm_manager) outcome" where
  "ntm_sock_handle_msg os m rc msg =
     bind_out (remote_of m rc) (\<lambda>c.
     bind_out (c_assert (rc_sock c \<noteq> Null)) (\<lambda>_.
     let zero = (\<lambda>r. bind_out r (\<lambda>m'. Ret (0, m'))) in
     case sm_type msg of
       NT_SYN \<Rightarrow> zero (handle_nt_syn_msg os m rc msg)
     | NT_SYN_ACK \<Rightarrow> zero (handle_nt_syn_ack_msg os m rc msg)
     | NT_CLIENT_SYN_ACK \<Rightarrow> handle_nt_client_syn_ack_msg os m rc msg
     | NT_FIN_ACK \<Rightarrow> zero (handle_nt_fin_ack_msg os m rc msg)
     | STOP \<Rightarrow> zero (handle_stop_msg os m rc msg)
     | STOP_CONFIRM \<Rightarrow> zero (handle_stop_confirm_msg m rc)
     | _ \<Rightarrow> Ret (0, m)))"

text \<open>
  What \<^verbatim>\<open>recv\<close> delivers to the thread: a message, a failure that is tried again, or the end. The thread frees the
  socket of the connection and the connection when it stops.
\<close>

datatype tcp_event = Got ntm_os ntm_sock_msg | Again | End

definition ntm_sock_recv_end :: "ntm_manager \<Rightarrow> nat \<Rightarrow> ntm_manager outcome" where
  "ntm_sock_recv_end m rc =
     bind_out (remote_of m rc) (\<lambda>c.
     bind_out (if rc_sock c = Null then Ret m else ntm_free m rc) (\<lambda>m1.
       Ret (m1\<lparr>mg_remotes := (mg_remotes m1)(rc := None)\<rparr>)))"

fun ntm_sock_recv_loop :: "tcp_event list \<Rightarrow> ntm_manager \<Rightarrow> nat \<Rightarrow> ntm_manager outcome" where
  "ntm_sock_recv_loop evs m rc =
     bind_out (remote_of m rc) (\<lambda>c.
     if \<not> rc_running c then ntm_sock_recv_end m rc
     else
       case evs of
         [] \<Rightarrow> Spin
       | Again # evs' \<Rightarrow> ntm_sock_recv_loop evs' m rc
       | End # evs' \<Rightarrow> ntm_sock_recv_end m rc
       | Got os msg # evs' \<Rightarrow>
           bind_out (ntm_sock_handle_msg os m rc msg) (\<lambda>(retval, m').
           if retval = - 1 then ntm_sock_recv_end m' rc else ntm_sock_recv_loop evs' m' rc))"

declare ntm_sock_recv_loop.simps [simp del]

definition ntm_sock_recv_thread :: "tcp_event list \<Rightarrow> ntm_manager \<Rightarrow> nat \<Rightarrow> ntm_manager outcome" where
  "ntm_sock_recv_thread evs m rc =
     bind_out (remote_of m rc) (\<lambda>c.
     ntm_sock_recv_loop evs (m\<lparr>mg_remotes := (mg_remotes m)(rc := Some (c\<lparr>rc_running := True\<rparr>))\<rparr>) rc)"

end
