(* ===== verification/Ntm_Requests.thy ===== *)
theory Ntm_Requests
  imports Ntm_Remote
begin

unbundle bit_operations_syntax

text \<open>
  The half of \<^verbatim>\<open>monitor/src/ntb_monitor.c\<close> that serves the applications of its host: the handlers of
  \<^verbatim>\<open>nts_shm_handle_msg\<close> for sockets. The response on the stack has the contents of its memory until its
  fields are assigned.
\<close>

abbreviation (input) NT_ERR_INVALID_IP :: int where "NT_ERR_INVALID_IP \<equiv> 11"

abbreviation (input) NT_ERR_INVALID_PORT :: int where "NT_ERR_INVALID_PORT \<equiv> 12"

abbreviation (input) NT_ERR_INUSE_PORT :: int where "NT_ERR_INUSE_PORT \<equiv> 13"

abbreviation (input) NT_ERR_REQUIRE_CLOSED_FIRST :: int where "NT_ERR_REQUIRE_CLOSED_FIRST \<equiv> 14"

abbreviation (input) NT_ERR_REQUIRE_BIND_FIRST :: int where "NT_ERR_REQUIRE_BIND_FIRST \<equiv> 31"

abbreviation (input) NT_ERR_REQUIRE_LISTEN_FIRST :: int where "NT_ERR_REQUIRE_LISTEN_FIRST \<equiv> 40"

abbreviation (input) NT_ERR_REQUIRE_CLOSED_OR_BOUND_FIRST :: int where "NT_ERR_REQUIRE_CLOSED_OR_BOUND_FIRST \<equiv> 50"

abbreviation (input) NT_ERR_REMOTE_NTM_NOT_FOUND :: int where "NT_ERR_REMOTE_NTM_NOT_FOUND \<equiv> 51"

text \<open>
  The answers of the system: addresses of new objects, the attempts to open a channel and to reach another monitor,
  the result of \<^verbatim>\<open>send\<close>, and the resolver \<^verbatim>\<open>inet_addr\<close>.
\<close>

record req_os =
  ro_conn :: "nat option"
  ro_shm :: bool
  ro_shm_name :: bool
  ro_shm_os :: "nts_msg mr_os"
  ro_resp :: nts_msg
  ro_tcp :: int
  ro_sock_ok :: bool
  ro_connect :: int
  ro_fd :: int
  ro_remote :: "nat option"
  ro_wrap :: "nat option"
  ro_tail :: string
  ro_backlog_ok :: bool
  ro_backlog_os :: spsc_os
  ro_inet_addr :: "byte list \<Rightarrow> u32"

definition to_string :: "byte list \<Rightarrow> string" where
  "to_string bs = map (\<lambda>b. char_of (unat b)) bs"

text \<open>A response with an error; the result of sending it is only logged.\<close>

definition respond_error :: "req_os \<Rightarrow> ntm_manager \<Rightarrow> nat \<Rightarrow> nts_msg \<Rightarrow> int \<Rightarrow> ntm_manager outcome" where
  "respond_error os m a resp err =
     bind_out (send_to_nts m a (resp\<lparr>ns_retval := - 1, ns_nt_errno := err\<rparr>)) (\<lambda>(_, m'). Ret m')"

definition respond :: "ntm_manager \<Rightarrow> nat \<Rightarrow> nts_msg \<Rightarrow> ntm_manager outcome" where
  "respond m a resp = bind_out (send_to_nts m a resp) (\<lambda>(_, m'). Ret m')"

section \<open>A new socket\<close>

text \<open>The channel to the application, opened under the name in the message.\<close>

definition attach_nts :: "req_os \<Rightarrow> ntm_msg \<Rightarrow> (int \<times> nts_msg shm_ctx4) outcome" where
  "attach_nts os msg =
     bind_out (nts_shm (ro_shm os)) (\<lambda>ctx.
     bind_out (nts_shm_connect (ro_shm_name os) (ro_shm_os os) ctx (to_string (nm_nts_shm_name msg))
        (of_int (nm_nts_shm_addrlen msg))) (\<lambda>(retval, ctx', _). Ret (retval, ctx')))"

text \<open>The name in the connection object.\<close>

definition keep_name :: "nts_shm_conn \<Rightarrow> ntm_msg \<Rightarrow> nts_shm_conn outcome" where
  "keep_name c msg =
     (if 0 < nm_nts_shm_addrlen msg then
        bind_out (memcpy_int (nx_shm_name c) (nm_nts_shm_name msg) (nm_nts_shm_addrlen msg)) (\<lambda>nm.
          Ret (c\<lparr>nx_shm_addrlen := nm_nts_shm_addrlen msg, nx_shm_name := nm\<rparr>))
      else Ret c)"

definition handle_msg_nts_new_socket :: "req_os \<Rightarrow> ntm_manager \<Rightarrow> ntm_msg \<Rightarrow> ntm_manager outcome" where
  "handle_msg_nts_new_socket os m msg =
     (case ro_conn os of
        None \<Rightarrow> Ret m
      | Some a \<Rightarrow>
          bind_out (allocate_socket (mg_socks m) (of_int (nm_sock_type msg))) (\<lambda>(i, sc).
          let m1 = m\<lparr>mg_socks := sc\<rparr> in
          bind_out (sock_of m1 i) (\<lambda>s.
          bind_out (keep_name (zero_conn\<lparr>nx_socket := Some i, nx_sockid := sockid s, nx_domain := nm_domain msg,
             nx_protocol := nm_protocol msg, nx_running := True\<rparr>) msg) (\<lambda>c.
          bind_out (attach_nts os msg) (\<lambda>(retval, ctx).
          let m2 = put_conn m1 a (c\<lparr>nx_shm_ctx := Live ctx\<rparr>) in
          if retval \<noteq> 0 then Ret m2
          else
            bind_out (map_put (nts_shm_conn_map m2) (sockid s) a) (\<lambda>cm.
            respond (put_sock (m2\<lparr>nts_shm_conn_map := cm\<rparr>) i (s\<lparr>sk_state := CLOSED\<rparr>)) a
              ((ro_resp os)\<lparr>ns_msg_id := nm_msg_id msg, ns_msg_type := nts_type NTS_MSG_NEW_SOCK,
                 ns_sockid := sint (sockid s)\<rparr>)))))))"

section \<open>Bind and listen\<close>

definition response_to :: "req_os \<Rightarrow> ntm_msg \<Rightarrow> nat \<Rightarrow> nts_msg" where
  "response_to os msg k =
     (ro_resp os)\<lparr>ns_msg_id := nm_msg_id msg, ns_msg_type := nts_type k, ns_sockid := nm_sockid msg\<rparr>"

definition handle_msg_nts_bind :: "req_os \<Rightarrow> ntm_manager \<Rightarrow> ntm_msg \<Rightarrow> ntm_manager outcome" where
  "handle_msg_nts_bind os m msg =
     (let resp = response_to os msg NTS_MSG_BIND in
      bind_out (map_get (nts_shm_conn_map m) (of_int (nm_sockid msg))) (\<lambda>g.
      case g of
        None \<Rightarrow> Ret m
      | Some a \<Rightarrow>
          bind_out (conn_of m a) (\<lambda>c.
          bind_out (conn_socket m c) (\<lambda>(i, s).
          if sk_state s \<noteq> CLOSED then respond_error os m a resp NT_ERR_REQUIRE_CLOSED_FIRST
          else if nm_addrlen msg \<le> 0 then respond_error os m a resp NT_ERR_INVALID_IP
          else if nm_port msg < 0 \<or> num_ports (mg_ports m) \<le> nm_port msg then respond_error os m a resp NT_ERR_INVALID_PORT
          else
            bind_out (is_occupied (mg_ports m) (nm_port msg)) (\<lambda>occ.
            if occ \<noteq> 0 then respond_error os m a resp NT_ERR_INUSE_PORT
            else
              bind_out (allocate_specified_port (mg_ports m) (nm_port msg)) (\<lambda>(p, pc).
              case p of
                None \<Rightarrow> respond_error os (m\<lparr>mg_ports := pc\<rparr>) a resp NT_ERR_INUSE_PORT
              | Some _ \<Rightarrow>
                  bind_out (memcpy_int (nx_ip c) (nm_address msg) (nm_addrlen msg)) (\<lambda>ip.
                  respond (put_sock (put_conn (m\<lparr>mg_ports := pc\<rparr>) a
                             (c\<lparr>nx_port := nm_port msg, nx_addrlen := nm_addrlen msg, nx_ip := ip\<rparr>)) i
                             (s\<lparr>sk_state := BOUND, saddr := \<lparr>sin_family = AF_INET, sin_port = swap16 (of_int (nm_port msg)),
                                sin_addr = ro_inet_addr os (nm_address msg)\<rparr>\<rparr>))
                    a (resp\<lparr>ns_retval := 0\<rparr>))))))))"

text \<open>\<^verbatim>\<open>sprintf(shmaddr, "backlog-%d", sockid)\<close>.\<close>

definition int_string :: "int \<Rightarrow> string" where
  "int_string n = (if n < 0 then CHR ''-'' # dec_string (nat (- n)) else dec_string (nat n))"

definition backlog_name :: "int \<Rightarrow> string" where
  "backlog_name n = ''backlog-'' @ int_string n"

text \<open>
  A wrapper that \<^verbatim>\<open>calloc\<close> could not provide is written to all the same. A backlog that could not be set up is kept as a
  null pointer.
\<close>

definition handle_msg_nts_listen :: "ntm_config \<Rightarrow> req_os \<Rightarrow> ntm_manager \<Rightarrow> ntm_msg \<Rightarrow> ntm_manager outcome" where
  "handle_msg_nts_listen cfg os m msg =
     (let resp = response_to os msg NTS_MSG_LISTEN in
      bind_out (map_get (nts_shm_conn_map m) (of_int (nm_sockid msg))) (\<lambda>g.
      case g of
        None \<Rightarrow> Ret m
      | Some a \<Rightarrow>
          bind_out (conn_of m a) (\<lambda>c.
          bind_out (conn_socket m c) (\<lambda>(i, s).
          if sk_state s \<noteq> BOUND then respond_error os m a resp NT_ERR_REQUIRE_BIND_FIRST
          else
            let backlog = (if nt_max_conn_num cfg < nm_backlog msg then nt_max_conn_num cfg else nm_backlog msg);
                name = backlog_name (nm_sockid msg) in
            (case ro_wrap os of
               None \<Rightarrow> Undef
             | Some l \<Rightarrow>
                 bind_out (memcpy_int (replicate 16 0) (nx_ip c) (nx_addrlen c)) (\<lambda>ip.
                 bind_out (backlog_ntm (ro_backlog_ok os) (ro_backlog_ok os) (ro_tail os) (ro_backlog_os os) () name
                    (of_nat (length name)) backlog) (\<lambda>(bl, _).
                 bind_out (map_put (listener_map m) (of_int (nx_port c)) l) (\<lambda>lm.
                 respond (put_wrap (put_sock (m\<lparr>listener_map := lm\<rparr>) i (s\<lparr>socktype := NT_SOCK_LISTENER, sk_state := LISTENING\<rparr>)) l
                     \<lparr>lw_listener = \<lparr>nl_sockid = nm_sockid msg, nl_socket = i, nl_backlog = backlog\<rparr>, lw_port = nx_port c,
                      lw_addrlen = nx_addrlen c, lw_ip = ip, lw_backlog_ctx = (case bl of None \<Rightarrow> Null | Some b \<Rightarrow> Live b),
                      lw_accepted = createHashMap, lw_conn = a\<rparr>)
                   a (resp\<lparr>ns_retval := 0\<rparr>)))))))))"

section \<open>Accept\<close>

text \<open>\<^verbatim>\<open>handle_msg_nts_accept\<close> is not called by the dispatcher.\<close>

definition handle_msg_nts_accept :: "req_os \<Rightarrow> ntm_manager \<Rightarrow> ntm_msg \<Rightarrow> ntm_manager outcome" where
  "handle_msg_nts_accept os m msg =
     bind_out (map_get (nts_shm_conn_map m) (of_int (nm_sockid msg))) (\<lambda>g.
     case g of
       None \<Rightarrow> Ret m
     | Some a \<Rightarrow>
         bind_out (conn_of m a) (\<lambda>c.
         bind_out (conn_socket m c) (\<lambda>(i, s).
         if sk_state s \<noteq> LISTENING then respond_error os m a (response_to os msg NTS_MSG_ACCEPT) NT_ERR_REQUIRE_LISTEN_FIRST
         else Ret m)))"

definition handle_msg_nts_accept_ack :: "req_os \<Rightarrow> ntm_manager \<Rightarrow> ntm_msg \<Rightarrow> ntm_manager outcome" where
  "handle_msg_nts_accept_ack os m msg =
     bind_out (map_get (nts_shm_conn_map m) (of_int (nm_sockid msg))) (\<lambda>g.
     case g of
       None \<Rightarrow> Ret m
     | Some a \<Rightarrow>
         bind_out (conn_of m a) (\<lambda>c.
         bind_out (keep_name (c\<lparr>nx_running := True\<rparr>) msg) (\<lambda>c1.
         bind_out (attach_nts os msg) (\<lambda>(retval, ctx).
         let m1 = put_conn m a (c1\<lparr>nx_shm_ctx := Live ctx\<rparr>) in
         if retval = - 1 then close_nts_shm m1 a else Ret m1))))"

section \<open>Connect\<close>

text \<open>A C string in an array of the code is read up to its terminator.\<close>

definition str_key :: "byte list \<Rightarrow> key outcome" where
  "str_key bs = (if 0 \<in> set bs then Ret bs else Undef)"

text \<open>
  The connection to the other monitor: an existing one or a new one, which is also noted in the connection object.
  The keys of \<^verbatim>\<open>conn_map\<close> point into connection objects; they are taken with the contents they had when they were put in.
  The other result of a failed attempt is \<open>None\<close>; the receiving thread is started with the connection.
\<close>

definition reach_remote :: "req_os \<Rightarrow> ntm_manager \<Rightarrow> nat \<Rightarrow> (nat option \<times> ntm_manager) outcome" where
  "reach_remote os m a =
     bind_out (conn_of m a) (\<lambda>c.
     bind_out (str_key (nx_ip c)) (\<lambda>k.
     bind_out (defaultExists defaultHashCode defaultEqual (conn_map m) k) (\<lambda>ex.
     if ex then bind_out (defaultGet defaultHashCode defaultEqual (conn_map m) k) (\<lambda>g. Ret (g, m))
     else
       bind_out (c_assert (ro_sock_ok os)) (\<lambda>_.
       if ro_connect os \<noteq> 0 then Ret (None, m)
       else
         (case ro_remote os of
            None \<Rightarrow> Undef
          | Some r \<Rightarrow>
              let len = length (cstr (nx_ip c)) + 1 in
              bind_out (memcpy (replicate 16 0) (nx_ip c) len) (\<lambda>ip.
              bind_out (defaultPut defaultHashCode defaultEqual (conn_map m) k r) (\<lambda>cm.
                Ret (Some r, (put_conn m a (c\<lparr>nx_ntm_conn := Some r\<rparr>))\<lparr>conn_map := cm,
                   mg_remotes := (mg_remotes m)(r := Some \<lparr>rc_ip = ip, rc_addrlen = int len, rc_port = 9090,
                      rc_running = True, rc_sock = Live (ro_fd os)\<rparr>)\<rparr>))))))))"

text \<open>A port for a socket that was not bound.\<close>

definition auto_bind :: "ntm_config \<Rightarrow> req_os \<Rightarrow> ntm_manager \<Rightarrow> nat \<Rightarrow> (nat cptr \<times> ntm_manager) outcome" where
  "auto_bind cfg os m i =
     bind_out (sock_of m i) (\<lambda>s.
     if sk_state s = CLOSED then
       bind_out (allocate_port (mg_ports m)) (\<lambda>(p, pc).
       let pid = port_id (ntport pc ! p);
           m1 = put_sock (m\<lparr>mg_ports := pc\<rparr>) i (s\<lparr>saddr := \<lparr>sin_family = AF_INET, sin_port = swap16 pid,
                  sin_addr = ro_inet_addr os (listen_ip cfg)\<rparr>\<rparr>) in
       bind_out (map_put (port_sock_map m1) (ucast pid) i) (\<lambda>pm. Ret (Live p, m1\<lparr>port_sock_map := pm\<rparr>)))
     else Ret (Wild, m))"

text \<open>
  The label \<^verbatim>\<open>FAIL\<close>: \<open>conn\<close> and \<open>port\<close> are the pointers as they are at the jump. The entry in
  \<^verbatim>\<open>port_sock_map\<close> stays.
\<close>

definition connect_fail :: "ntm_manager \<Rightarrow> nat option \<Rightarrow> nat cptr \<Rightarrow> ntm_manager outcome" where
  "connect_fail m conn port =
     (case conn of
        None \<Rightarrow> Undef
      | Some a \<Rightarrow>
          bind_out (conn_of m a) (\<lambda>c.
          bind_out (conn_socket m c) (\<lambda>(i, s).
          if sk_state s = CLOSED then
            (case port of
               Null \<Rightarrow> Ret m
             | Live p \<Rightarrow>
                 let m1 = put_sock m i (s\<lparr>saddr := (saddr s)\<lparr>sin_port := 0\<rparr>\<rparr>) in
                 bind_out (array_get (ntport (mg_ports m1)) p) (\<lambda>pt.
                 bind_out (free_port (mg_ports m1) (uint (port_id pt))) (\<lambda>pc. Ret (m1\<lparr>mg_ports := pc\<rparr>)))
             | _ \<Rightarrow> Undef)
          else Ret m)))"

text \<open>An error before the port is chosen.\<close>

definition connect_error :: "req_os \<Rightarrow> ntm_manager \<Rightarrow> nat \<Rightarrow> nts_msg \<Rightarrow> int \<Rightarrow> ntm_manager outcome" where
  "connect_error os m a resp err =
     bind_out (respond_error os m a resp err) (\<lambda>m'. connect_fail m' (Some a) Wild)"

definition handle_msg_nts_connect :: "ntm_config \<Rightarrow> req_os \<Rightarrow> ntm_manager \<Rightarrow> ntm_msg \<Rightarrow> ntm_manager outcome" where
  "handle_msg_nts_connect cfg os m msg =
     (let resp = response_to os msg NTS_MSG_DISPATCHED in
      bind_out (map_get (nts_shm_conn_map m) (of_int (nm_sockid msg))) (\<lambda>g.
      case g of
        None \<Rightarrow> connect_fail m None Wild
      | Some a \<Rightarrow>
          bind_out (conn_of m a) (\<lambda>c.
          bind_out (conn_socket m c) (\<lambda>(i, s).
          if sk_state s \<noteq> CLOSED \<and> sk_state s \<noteq> BOUND then connect_error os m a resp NT_ERR_REQUIRE_CLOSED_OR_BOUND_FIRST
          else if nm_addrlen msg \<le> 0 then connect_error os m a resp NT_ERR_INVALID_IP
          else if nm_port msg < 0 then connect_error os m a resp NT_ERR_INVALID_PORT
          else
            bind_out (memcpy_int (replicate IPADDR_LEN 0) (nm_address msg) (nm_addrlen msg)) (\<lambda>ip.
            bind_out (reach_remote os (put_conn m a (c\<lparr>nx_port := nm_port msg, nx_addrlen := nm_addrlen msg, nx_ip := ip\<rparr>)) a)
              (\<lambda>(remote, m1).
            case remote of
              None \<Rightarrow> respond_error os m1 a resp NT_ERR_REMOTE_NTM_NOT_FOUND
            | Some r \<Rightarrow>
                bind_out (auto_bind cfg os m1 i) (\<lambda>(port, m2).
                bind_out (sock_of m2 i) (\<lambda>s2.
                bind_out (remote_of m2 r) (\<lambda>rc.
                bind_out (ntm_send_tcp_msg (ro_tcp os) m2 r (zero_sock_msg\<lparr>sm_type := NT_SYN, sm_src_addr := sin_addr (saddr s2),
                   sm_sport := sin_port (saddr s2), sm_dst_addr := ro_inet_addr os (rc_ip rc),
                   sm_dport := swap16 (of_int (nm_port msg))\<rparr>)) (\<lambda>(retval, m3).
                if retval \<le> 0 then connect_fail m3 (Some a) port
                else
                  bind_out (send_to_nts m3 a (resp\<lparr>ns_retval := 0, ns_port := parse_sockaddr_port (saddr s2)\<rparr>)) (\<lambda>(rv, m4).
                  if rv \<noteq> 0 then connect_fail m4 (Some a) port else Ret m4)))))))))))"

section \<open>Close\<close>

text \<open>
  \<^verbatim>\<open>handle_msg_nts_close\<close> for a listener. The last statement is a write through the connection that has just been freed.
\<close>

definition handle_msg_nts_close :: "req_os \<Rightarrow> ntm_manager \<Rightarrow> ntm_msg \<Rightarrow> ntm_manager outcome" where
  "handle_msg_nts_close os m msg =
     (if nm_msg_id msg \<le> 0 then Ret m
      else if nm_sockid msg \<le> 0 then Ret m
      else
        bind_out (map_get (nts_shm_conn_map m) (of_int (nm_sockid msg))) (\<lambda>g.
        case g of
          None \<Rightarrow> Ret m
        | Some a \<Rightarrow>
            bind_out (conn_of m a) (\<lambda>c.
            bind_out (conn_socket m c) (\<lambda>(i, s).
            if socktype s \<noteq> NT_SOCK_LISTENER \<and> sk_state s \<noteq> LISTENING then Ret m
            else
              let m1 = put_sock m i (s\<lparr>sk_state := WAIT_CLOSE\<rparr>) in
              bind_out (map_get (listener_map m1) (of_int (nx_port c))) (\<lambda>h.
              case h of
                None \<Rightarrow> Undef
              | Some l \<Rightarrow>
                  bind_out (wrap_of m1 l) (\<lambda>w.
                  bind_out (live_ctx (lw_backlog_ctx w)) (\<lambda>ctx.
                  bind_out (backlog_ntm_close ctx) (\<lambda>_.
                  bind_out (map_remove (listener_map m1) (of_int (nx_port c))) (\<lambda>lm.
                  bind_out (drop_port (m1\<lparr>listener_map := lm, mg_wraps := (mg_wraps m1)(l := None)\<rparr>) (nx_port c)) (\<lambda>m2.
                  bind_out (send_to_nts m2 a ((ro_resp os)\<lparr>ns_msg_id := nm_msg_id msg, ns_msg_type := nts_type NTS_MSG_CLOSE,
                     ns_sockid := nm_sockid msg, ns_retval := 0\<rparr>)) (\<lambda>(retval, m3).
                  if retval \<noteq> 0 then Ret m3
                  else
                    bind_out (close_nts_shm m3 a) (\<lambda>m4.
                    bind_out (map_drop (nts_shm_conn_map m4) (sockid s)) (\<lambda>cm.
                    bind_out (drop_socket (m4\<lparr>nts_shm_conn_map := cm, mg_conns := (mg_conns m4)(a := None)\<rparr>) s) (\<lambda>m5.
                    bind_out (conn_of m5 a) (\<lambda>c5.
                    bind_out (conn_socket m5 c5) (\<lambda>(i5, s5). Ret (put_sock m5 i5 (s5\<lparr>sk_state := CLOSED\<rparr>))))))))))))))))))"

definition handle_msg_nts_fin :: "req_os \<Rightarrow> ntm_manager \<Rightarrow> ntm_msg \<Rightarrow> ntm_manager outcome" where
  "handle_msg_nts_fin os m msg =
     (if nm_msg_id msg \<le> 0 then Ret m
      else if nm_sockid msg \<le> 0 then Ret m
      else
        bind_out (map_get (nts_shm_conn_map m) (of_int (nm_sockid msg))) (\<lambda>g.
        case g of
          None \<Rightarrow> Ret m
        | Some a \<Rightarrow>
            bind_out (conn_of m a) (\<lambda>c.
            bind_out (conn_socket m c) (\<lambda>(i, s).
            if sk_state s \<noteq> ESTABLISHED then Ret m
            else
              let m1 = put_sock m i (s\<lparr>sk_state := WAIT_CLOSE\<rparr>) in
              bind_out (case nx_ntm_conn c of
                  Some r \<Rightarrow> Ret (Some r)
                | None \<Rightarrow>
                    bind_out (str_key (nm_address msg)) (\<lambda>k. defaultGet defaultHashCode defaultEqual (conn_map m1) k)) (\<lambda>remote.
              case remote of
                None \<Rightarrow> Ret m1
              | Some r \<Rightarrow>
                  bind_out (ntm_send_tcp_msg (ro_tcp os) m1 r (zero_sock_msg\<lparr>sm_src_addr := sin_addr (saddr s),
                     sm_sport := sin_port (saddr s), sm_dst_addr := nx_peer_addr c, sm_dport := ucast (nx_peer_port c),
                     sm_type := NT_FIN_ACK\<rparr>)) (\<lambda>(retval, m2).
                  if retval \<le> 0 then Ret m2
                  else destroy_client_nt_socket_conn_with_nts_shm_conn (put_sock m2 i (s\<lparr>sk_state := CLOSED\<rparr>)) a))))))"

section \<open>Dispatch\<close>

text \<open>The chain of tests of \<^verbatim>\<open>nts_shm_handle_msg\<close> up to the requests for \<^verbatim>\<open>epoll\<close>, which are the argument \<open>epoll\<close>.\<close>

definition nts_shm_handle_msg ::
  "(ntm_manager \<Rightarrow> ntm_msg \<Rightarrow> ntm_manager outcome) \<Rightarrow> ntm_config \<Rightarrow> req_os \<Rightarrow> ntm_manager \<Rightarrow> ntm_msg \<Rightarrow> ntm_manager outcome"
where
  "nts_shm_handle_msg epoll cfg os m msg =
     (let t = nm_msg_type msg in
      if bit t NTM_MSG_INIT then Ret m
      else if bit t NTM_MSG_NEW_SOCK then handle_msg_nts_new_socket os m msg
      else if bit t NTM_MSG_BIND then handle_msg_nts_bind os m msg
      else if bit t NTM_MSG_LISTEN then handle_msg_nts_listen cfg os m msg
      else if bit t NTM_MSG_ACCEPT then Ret m
      else if bit t NTM_MSG_ACCEPT_ACK then handle_msg_nts_accept_ack os m msg
      else if bit t NTM_MSG_CONNECT then handle_msg_nts_connect cfg os m msg
      else if bit t 7 then Ret m
      else if bit t NTM_MSG_CLOSE then handle_msg_nts_close os m msg
      else if bit t NTM_MSG_FIN then handle_msg_nts_fin os m msg
      else epoll m msg)"

end
