(* ===== verification/Id_Map.thy ===== *)
theory Id_Map
  imports Ntp_Conn
begin

text \<open>
  The hash maps of the programs whose keys are the addresses of numbers: a number is its four bytes, and
  two numbers are the same key when their bytes agree up to the first zero. What the operations do to
  such a map, in terms of the numbers.
\<close>

abbreviation ids_ok :: "(key, nat) hashMap \<Rightarrow> bool" where
  "ids_ok m \<equiv> hm_inv defaultHashCode cstr m"

abbreviation id_str :: "u32 \<Rightarrow> byte list" where
  "id_str i \<equiv> cstr (le_enc 4 (unat i))"

definition id_lookup :: "(key, nat) hashMap \<Rightarrow> u32 \<Rightarrow> nat option" where
  "id_lookup m i = hm_map cstr m (id_str i)"

text \<open>A number with a zero byte.\<close>

definition id_ok :: "u32 \<Rightarrow> bool" where
  "id_ok i \<longleftrightarrow> 0 \<in> set (le_enc 4 (unat i))"

lemma le_enc_4: "le_enc 4 n = [of_nat n, of_nat (n div 256), of_nat (n div 65536), of_nat (n div 16777216)]"
proof -
  have "4 = Suc (Suc (Suc (Suc 0)))" by simp
  then show ?thesis by (simp only: le_enc.simps div_mult2_eq [symmetric]) simp
qed

lemma id_ok_small: "unat i < 2 ^ 24 \<Longrightarrow> id_ok i"
  by (simp add: id_ok_def le_enc_4 del: le_enc.simps)

lemma id_key_ok: "id_ok i \<Longrightarrow> id_key i = Ret (le_enc 4 (unat i))"
  by (simp add: id_key_def id_ok_def del: le_enc.simps)

lemma id_key_small: "unat i < 2 ^ 24 \<Longrightarrow> id_key i = Ret (le_enc 4 (unat i))"
  by (simp add: id_key_ok id_ok_small)

lemma map_get_key: "ids_ok m \<Longrightarrow> id_ok i \<Longrightarrow> map_get m i = Ret (id_lookup m i)"
  by (simp add: map_get_def id_key_ok dm.lookup_law id_lookup_def del: le_enc.simps)

lemma map_get_id: "ids_ok m \<Longrightarrow> unat i < 2 ^ 24 \<Longrightarrow> map_get m i = Ret (id_lookup m i)"
  by (simp add: map_get_key id_ok_small)

lemma map_put_key:
  assumes "ids_ok m" "id_ok i" "id_lookup m i = None"
  shows "\<exists>m'. map_put m i v = Ret m' \<and> ids_ok m' \<and>
    (\<forall>j. id_lookup m' j = (if id_str j = id_str i then Some v else id_lookup m j))"
  using dm.ins_law [of m "le_enc 4 (unat i)" v] assms
  by (auto simp: map_put_def id_key_ok id_lookup_def simp del: le_enc.simps)

lemma map_put_id:
  assumes "ids_ok m" "unat i < 2 ^ 24" "id_lookup m i = None"
  obtains m' where "map_put m i v = Ret m'" "ids_ok m'"
    "\<forall>j. id_lookup m' j = (if id_str j = id_str i then Some v else id_lookup m j)"
  using map_put_key [OF assms(1) id_ok_small [OF assms(2)] assms(3), of v] by blast

lemma map_remove_key:
  assumes "ids_ok m" "id_ok i"
  shows "\<exists>m'. map_remove m i = Ret m' \<and> ids_ok m' \<and>
    (\<forall>j. id_lookup m' j = (if id_str j = id_str i then None else id_lookup m j))"
  using dm.del_law [of m "le_enc 4 (unat i)"] assms
  by (auto simp: map_remove_def id_key_ok id_lookup_def simp del: le_enc.simps)

lemma id_lookup_cong: "id_str i = id_str j \<Longrightarrow> id_lookup m i = id_lookup m j"
  by (simp add: id_lookup_def)

lemma ids_ok_new: "ids_ok createHashMap" "id_lookup createHashMap i = None"
  by (simp_all add: hm_inv_create id_lookup_def)

end
