(* ===== verification/Ntm_Handshake.thy ===== *)
theory Ntm_Handshake
  imports Ntm_Requests Id_Map
begin

unbundle bit_operations_syntax

text \<open>
  What the handlers of the monitor do together: how a connection request is refused or accepted, how two monitors
  establish a connection, and the paths that leave defined behaviour or lose a connection.
\<close>

section \<open>The maps by number\<close>

lemma map_exists_id: "ids_ok m \<Longrightarrow> unat i < 2 ^ 24 \<Longrightarrow> map_exists m i = Ret (id_lookup m i \<noteq> None)"
  by (simp add: map_exists_def id_key_small dk.exists_ok hm_inv_def id_lookup_def del: le_enc.simps)

lemma map_drop_id:
  assumes "ids_ok m" "unat i < 2 ^ 24"
  shows "\<exists>m'. map_drop m i = Ret m' \<and> ids_ok m' \<and> (\<forall>j. id_lookup m' j = (if id_str j = id_str i then None else id_lookup m j))"
proof (cases "id_lookup m i")
  case None
  with assms show ?thesis by (auto simp: map_drop_def map_exists_id id_lookup_def)
next
  case (Some v)
  with assms dm.del_law [of m "le_enc 4 (unat i)"] show ?thesis
    by (auto simp: map_drop_def map_exists_id map_remove_def id_key_small id_lookup_def simp del: le_enc.simps)
qed

section \<open>The exchange with the proxy\<close>

text \<open>It reads and changes nothing but the two channels.\<close>

abbreviation with_chans :: "ntm_manager \<Rightarrow> ntm_manager \<Rightarrow> ntm_manager" where
  "with_chans m c \<equiv> m\<lparr>mg_ntp_send := mg_ntp_send c, mg_ntp_recv := mg_ntp_recv c\<rparr>"

definition same_chans :: "ntm_manager \<Rightarrow> ntm_manager \<Rightarrow> bool" where
  "same_chans m c \<longleftrightarrow> mg_ntp_send m = mg_ntp_send c \<and> mg_ntp_recv m = mg_ntp_recv c"

lemma ntp_moves_frame: "same_chans m c \<Longrightarrow> ntp_moves e m = with_chans m (ntp_moves e c)"
  by (simp add: ntp_moves_def same_chans_def split: prod.splits)

lemma ntp_send_wait_frame:
  "same_chans m c \<Longrightarrow>
   ntp_send_wait env m msg = bind_out (ntp_send_wait env c msg) (\<lambda>(env', c'). Ret (env', with_chans m c'))"
proof (induction env arbitrary: m c)
  case Nil
  then show ?case
    by (cases "ntm_ntp_shm_send (mg_ntp_send c) msg")
      (auto simp: same_chans_def Let_def ntp_send_wait.simps [where env = "[]"])
next
  case (Cons e env)
  show ?case
  proof (cases "ntm_ntp_shm_send (mg_ntp_send c) msg")
    case (Ret x)
    obtain r ctx where x: "x = (r, ctx)" by (cases x)
    let ?m = "ntp_moves e (m\<lparr>mg_ntp_send := ctx\<rparr>)" and ?c = "ntp_moves e (c\<lparr>mg_ntp_send := ctx\<rparr>)"
    have m: "?m = with_chans m ?c"
      using Cons.prems ntp_moves_frame [of "m\<lparr>mg_ntp_send := ctx\<rparr>" "c\<lparr>mg_ntp_send := ctx\<rparr>" e] by (simp add: same_chans_def)
    then have "same_chans ?m ?c" by (simp add: same_chans_def)
    from Cons.IH [OF this] m have ih: "ntp_send_wait env ?m msg =
        bind_out (ntp_send_wait env ?c msg) (\<lambda>(env', c'). Ret (env', with_chans m c'))" by simp
    from Ret x Cons.prems show ?thesis
      by (simp add: ntp_send_wait.simps [where env = "e # env"] same_chans_def Let_def ih)
  qed (use Cons.prems in \<open>simp_all add: same_chans_def ntp_send_wait.simps [where env = "e # env"]\<close>)
qed

lemma ntp_recv_wait_frame:
  "same_chans m c \<Longrightarrow>
   ntp_recv_wait env m buf = bind_out (ntp_recv_wait env c buf) (\<lambda>(inc, c'). Ret (inc, with_chans m c'))"
proof (induction env arbitrary: m c buf)
  case Nil
  then show ?case
    by (cases "ntp_ntm_shm_recv (mg_ntp_recv c) buf")
      (auto simp: same_chans_def Let_def ntp_recv_wait.simps [where env = "[]"])
next
  case (Cons e env)
  show ?case
  proof (cases "ntp_ntm_shm_recv (mg_ntp_recv c) buf")
    case (Ret x)
    obtain r buf' ctx where x: "x = (r, buf', ctx)" by (cases x)
    let ?m = "ntp_moves e (m\<lparr>mg_ntp_recv := ctx\<rparr>)" and ?c = "ntp_moves e (c\<lparr>mg_ntp_recv := ctx\<rparr>)"
    have m: "?m = with_chans m ?c"
      using Cons.prems ntp_moves_frame [of "m\<lparr>mg_ntp_recv := ctx\<rparr>" "c\<lparr>mg_ntp_recv := ctx\<rparr>" e] by (simp add: same_chans_def)
    then have "same_chans ?m ?c" by (simp add: same_chans_def)
    from Cons.IH [OF this] m have ih: "ntp_recv_wait env ?m buf' =
        bind_out (ntp_recv_wait env ?c buf') (\<lambda>(inc, c'). Ret (inc, with_chans m c'))" by simp
    from Ret x Cons.prems show ?thesis
      by (simp add: ntp_recv_wait.simps [where env = "e # env"] same_chans_def Let_def ih)
  qed (use Cons.prems in \<open>simp_all add: same_chans_def ntp_recv_wait.simps [where env = "e # env"]\<close>)
qed

lemma ask_ntp_frame:
  assumes "ask_ntp env out inc c msg part = Ret (inc', c')" "same_chans m c"
  shows "ask_ntp env out inc m msg part = Ret (inc', with_chans m c')"
proof -
  let ?req = "out\<lparr>cm_dst_ip := ucast (sm_src_addr msg), cm_dst_port := ucast (sm_sport msg), cm_src_ip := ucast (sm_dst_addr msg),
     cm_src_port := ucast (sm_dport msg), cm_msg_type := 1, cm_partition_id := part, cm_msg_len := 0\<rparr>"
  from assms(1) obtain env1 c1 where
    c1: "ntp_send_wait env c ?req = Ret (env1, c1)" "ntp_recv_wait env1 c1 inc = Ret (inc', c')"
    by (auto simp: ask_ntp_def bind_out_eq_Ret)
  have "same_chans (with_chans m c1) c1" by (simp add: same_chans_def)
  from ntp_recv_wait_frame [OF this, of env1 inc] c1 ntp_send_wait_frame [OF assms(2), of env ?req] show ?thesis
    by (simp add: ask_ntp_def)
qed

section \<open>Ports and connections\<close>

text \<open>The key under which a port of a message is looked up.\<close>

definition port_key :: "u16 \<Rightarrow> u32" where
  "port_key p = ucast (swap16 p)"

lemma port_key_int:
  "of_int (uint (swap16 p)) = port_key p" "word_of_int (uint (swap16 p)) = port_key p" "ucast (swap16 p) = port_key p"
  by (simp_all add: port_key_def)

lemma port_key_small [simp]: "unat (port_key p) < 16777216"
proof -
  have "unat (swap16 p) < 65536" using unsigned_less [of "swap16 p"] by simp
  moreover have "unat (port_key p) \<le> unat (swap16 p)" by (simp add: port_key_def unsigned_ucast_eq take_bit_nat_less_eq_self)
  ultimately show ?thesis by linarith
qed

definition tcp_up :: "ntm_manager \<Rightarrow> nat \<Rightarrow> int \<Rightarrow> bool" where
  "tcp_up m rc fd \<longleftrightarrow> (\<exists>c. mg_remotes m rc = Some c \<and> rc_sock c = Live fd)"

lemma send_tcp: "tcp_up m rc fd \<Longrightarrow> ntm_send_tcp_msg r m rc msg = Ret (r, m\<lparr>mg_sent := mg_sent m @ [(fd, msg)]\<rparr>)"
  by (auto simp: tcp_up_def ntm_send_tcp_msg_def remote_of_def)

lemma refuse_tcp:
  "tcp_up m rc fd \<Longrightarrow> refuse os m rc msg t = Ret (m\<lparr>mg_sent := mg_sent m @ [(fd, (reply_to msg)\<lparr>sm_type := t\<rparr>)]\<rparr>)"
  by (simp add: refuse_def send_tcp)

text \<open>The listeners of a monitor: each has a socket and a backlog.\<close>

definition listener_sock :: "ntm_manager \<Rightarrow> nt_listener_wrapper \<Rightarrow> nt_socket" where
  "listener_sock m w = ntsock (mg_socks m) ! nl_socket (lw_listener w)"

definition listeners_ok :: "ntm_manager \<Rightarrow> bool" where
  "listeners_ok m \<longleftrightarrow> ids_ok (listener_map m) \<and>
     (\<forall>k l. id_lookup (listener_map m) k = Some l \<longrightarrow>
        (\<exists>w b. mg_wraps m l = Some w \<and> nl_socket (lw_listener w) < length (ntsock (mg_socks m)) \<and>
           lw_backlog_ctx w = Live b \<and> backlog_ok b))"

lemma listeners_okD:
  assumes "listeners_ok m" "id_lookup (listener_map m) k = Some l"
  obtains w b where "mg_wraps m l = Some w" "nl_socket (lw_listener w) < length (ntsock (mg_socks m))"
    "lw_backlog_ctx w = Live b" "backlog_ok b" "ids_ok (listener_map m)"
  using assms unfolding listeners_ok_def by blast

text \<open>Why a request for a port is refused.\<close>

definition syn_verdict :: "ntm_manager \<Rightarrow> u32 \<Rightarrow> ntm_sock_msg_type option" where
  "syn_verdict m k =
     (case id_lookup (listener_map m) k of
        None \<Rightarrow> Some NT_LISTENER_NOT_FOUND
      | Some l \<Rightarrow>
          (case mg_wraps m l of
             None \<Rightarrow> None
           | Some w \<Rightarrow>
               if sk_state (listener_sock m w) \<noteq> LISTENING then Some NT_LISTENER_NOT_READY
               else
                 (case lw_backlog_ctx w of
                    Live b \<Rightarrow> if length (backlog_waiting b) = backlog_room b then Some NT_BACKLOG_IS_FULL else None
                  | _ \<Rightarrow> None)))"

lemma handle_nt_syn_verdict:
  assumes "listeners_ok m"
  shows "handle_nt_syn_msg os m rc msg =
    (case syn_verdict m (port_key (sm_dport msg)) of
       Some t \<Rightarrow> refuse os m rc msg t
     | None \<Rightarrow> syn_accept os m rc msg (the (id_lookup (listener_map m) (port_key (sm_dport msg)))))"
proof (cases "id_lookup (listener_map m) (port_key (sm_dport msg))")
  case None
  with assms show ?thesis
    by (simp add: handle_nt_syn_msg_def listeners_ok_def port_key_int map_exists_id syn_verdict_def)
next
  case (Some l)
  from listeners_okD [OF assms this] obtain w b where
    "mg_wraps m l = Some w" "nl_socket (lw_listener w) < length (ntsock (mg_socks m))"
    "lw_backlog_ctx w = Live b" "backlog_ok b" "ids_ok (listener_map m)" .
  with Some show ?thesis
    by (simp add: handle_nt_syn_msg_def port_key_int map_exists_id map_get_id wrap_of_def sock_of_def live_ctx_def
        backlog_is_full_iff syn_verdict_def listener_sock_def)
qed

text \<open>
  C24: A connection request for a port without a listener, for a listener that is not listening or for one with a full
  backlog changes nothing in the monitor; the other monitor gets exactly one answer, which names the reason and carries the
  port and the addresses of the request.
\<close>

theorem syn_refused:
  assumes "listeners_ok m" "tcp_up m rc fd" "syn_verdict m (port_key (sm_dport msg)) = Some t"
  shows "handle_nt_syn_msg os m rc msg = Ret (m\<lparr>mg_sent := mg_sent m @ [(fd, (reply_to msg)\<lparr>sm_type := t\<rparr>)]\<rparr>)"
  using assms by (simp add: handle_nt_syn_verdict refuse_tcp)

section \<open>An accepted request\<close>

text \<open>
  A monitor that can accept a connection for the port \<open>k\<close>: its listener \<open>l\<close> listens with room in the backlog and without
  \<^verbatim>\<open>epoll\<close>, \<open>i\<close> is the next free socket, there is a free port, and the maps have no entries for what is free.
\<close>

definition free_entries :: "ntm_manager \<Rightarrow> nt_listener_wrapper \<Rightarrow> nat \<Rightarrow> bool" where
  "free_entries m w i \<longleftrightarrow>
     ids_ok (port_sock_map m) \<and> ids_ok (nts_shm_conn_map m) \<and> ids_ok (lw_accepted w) \<and>
     id_lookup (nts_shm_conn_map m) (of_nat (Suc i)) = None \<and> id_lookup (lw_accepted w) (of_nat (Suc i)) = None \<and>
     (\<forall>q < length (ntport (mg_ports m)). \<not> port_used (mg_ports m) q \<longrightarrow> id_lookup (port_sock_map m) (of_nat q) = None)"

definition free_slots :: "ntm_manager \<Rightarrow> nat \<Rightarrow> bool" where
  "free_slots m i \<longleftrightarrow>
     (\<exists>xs. sock_inv (mg_socks m) (i # xs)) \<and> length (ntsock (mg_socks m)) < 2 ^ 24 \<and>
     (\<exists>ps. port_inv (mg_ports m) ps) \<and> length (ntport (mg_ports m)) \<le> 2 ^ 16 \<and>
     (\<exists>q < length (ntport (mg_ports m)). \<not> port_used (mg_ports m) q)"

definition can_accept :: "ntm_manager \<Rightarrow> u32 \<Rightarrow> nat \<Rightarrow> nat \<Rightarrow> bool" where
  "can_accept m k l i \<longleftrightarrow> listeners_ok m \<and> id_lookup (listener_map m) k = Some l \<and>
     syn_verdict m k = None \<and> free_slots m i \<and>
     (\<exists>w lc. mg_wraps m l = Some w \<and> free_entries m w i \<and>
        mg_conns m (lw_conn w) = Some lc \<and> nx_socket lc = Some (nl_socket (lw_listener w)) \<and>
        socktype (listener_sock m w) = NT_SOCK_LISTENER \<and> sk_epoll (listener_sock m w) = 0)"

lemma syn_socket_ok:
  assumes "free_slots m i" "free_entries m w i"
  obtains p pc sc pm where
    "syn_socket m msg l = Ret (i, p, m\<lparr>mg_socks := sc, mg_ports := pc, port_sock_map := pm\<rparr>)"
    "length (ntsock sc) = length (ntsock (mg_socks m))" "i < length (ntsock sc)"
    "sockid (ntsock sc ! i) = of_nat (Suc i)" "socktype (ntsock sc ! i) = NT_SOCK_PIPE"
    "saddr (ntsock sc ! i) = \<lparr>sin_family = AF_INET, sin_port = swap16 (of_nat p), sin_addr = sm_dst_addr msg\<rparr>"
    "\<forall>j. j \<noteq> i \<longrightarrow> ntsock sc ! j = ntsock (mg_socks m) ! j"
    "p < length (ntport (mg_ports m))" "\<not> port_used (mg_ports m) p" "port_used pc p"
    "ids_ok pm" "\<forall>q. id_lookup pm q = (if id_str q = id_str (of_nat p) then Some i else id_lookup (port_sock_map m) q)"
proof -
  from assms(1) obtain xs ps q where inv: "sock_inv (mg_socks m) (i # xs)" "port_inv (mg_ports m) ps"
    "q < length (ntport (mg_ports m))" "\<not> port_used (mg_ports m) q" and small: "length (ntport (mg_ports m)) \<le> 2 ^ 16"
    unfolding free_slots_def by blast
  from allocate_socket_inv [OF inv(1), of NT_SOCK_PIPE] obtain sc where sc:
    "allocate_socket (mg_socks m) NT_SOCK_PIPE = Ret (i, sc)" "sock_inv sc xs" "length (ntsock sc) = length (ntsock (mg_socks m))"
    "ntsock sc ! i = (ntsock (mg_socks m) ! i)\<lparr>socktype := NT_SOCK_PIPE, sk_state := CLOSED, opts := 0, saddr := zero_saddr\<rparr>"
    "\<forall>j. j \<noteq> i \<longrightarrow> ntsock sc ! j = ntsock (mg_socks m) ! j" by auto
  from allocate_port_unused [OF inv(2,3,4)] obtain p pc ys where pc: "allocate_port (mg_ports m) = Ret (p, pc)"
    "p < length (ntport (mg_ports m))" "\<not> port_used (mg_ports m) p" "port_inv pc ys"
    "length (ntport pc) = length (ntport (mg_ports m))" "\<And>k. port_used pc k \<longleftrightarrow> k = p \<or> port_used (mg_ports m) k" by metis
  have i: "i < length (ntsock (mg_socks m))" "sockid (ntsock (mg_socks m) ! i) = of_nat (Suc i)"
    using inv(1) by (auto simp: sock_inv_def)
  have pid: "port_id (ntport pc ! p) = of_nat p" using pc(2,4,5) by (simp add: port_inv_def)
  have p16: "p < 2 ^ 16" using pc(2) small by simp
  then have key: "ucast (of_nat p :: u16) = (of_nat p :: u32)" "unat (of_nat p :: u32) < 2 ^ 24"
    by (simp_all add: word_eq_iff_unat unsigned_ucast_eq unsigned_of_nat take_bit_nat_eq_self)
  have "ids_ok (port_sock_map m)" "id_lookup (port_sock_map m) (of_nat p) = None"
    using assms(2) pc(2,3) by (simp_all add: free_entries_def)
  from map_put_id [OF this(1) key(2) this(2), of i] obtain pm where
    pm: "map_put (port_sock_map m) (of_nat p) i = Ret pm" "ids_ok pm"
      "\<forall>q. id_lookup pm q = (if id_str q = id_str (of_nat p) then Some i else id_lookup (port_sock_map m) q)" by blast
  let ?s = "(ntsock sc ! i)\<lparr>sk_listener := Some l,
     saddr := \<lparr>sin_family = AF_INET, sin_port = swap16 (of_nat p), sin_addr = sm_dst_addr msg\<rparr>\<rparr>"
  have "syn_socket m msg l = Ret (i, p, m\<lparr>mg_socks := sc\<lparr>ntsock := (ntsock sc)[i := ?s]\<rparr>, mg_ports := pc, port_sock_map := pm\<rparr>)"
    using sc(1,3) pc(1) i pid key(1) pm(1) by (simp add: syn_socket_def sock_of_def put_sock_def Let_def)
  from that [OF this] show ?thesis using sc(3,4,5) i pc(2,3,6) pm(2,3) by simp
qed

lemma backlog_push_room:
  assumes "backlog_ok b" "length (backlog_waiting b) < backlog_room b"
  obtains b' where "backlog_push b s = Ret (0, b')" "backlog_ok b'"
    "backlog_waiting b' = backlog_waiting b @ [to_backlog_sock s]" "backlog_room b' = backlog_room b"
  using backlog.push_room [OF assms(1) _ assms(2), of s] that by (auto simp: backlog_put_def bind_out_eq_Ret)

definition accepted_conn :: "nat \<Rightarrow> ntm_sock_msg \<Rightarrow> nat \<Rightarrow> nat \<Rightarrow> nts_shm_conn" where
  "accepted_conn rc msg l i = zero_conn\<lparr>nx_socket := Some i, nx_sockid := of_nat (Suc i), nx_running := True,
     nx_listener := Some l, nx_ntm_conn := Some rc, nx_peer_addr := sm_src_addr msg, nx_peer_port := ucast (sm_sport msg)\<rparr>"

lemma syn_establish_ok:
  assumes "i < length (ntsock (mg_socks m))" "sockid (ntsock (mg_socks m) ! i) = of_nat (Suc i)" "Suc i < 2 ^ 24"
    and w: "mg_wraps m l = Some w" "lw_backlog_ctx w = Live b" "backlog_ok b" "length (backlog_waiting b) < backlog_room b"
    and maps: "ids_ok (nts_shm_conn_map m)" "id_lookup (nts_shm_conn_map m) (of_nat (Suc i)) = None"
      "ids_ok (lw_accepted w)" "id_lookup (lw_accepted w) (of_nat (Suc i)) = None"
  defines "s \<equiv> (ntsock (mg_socks m) ! i)\<lparr>sk_state := WAIT_ESTABLISHED\<rparr>"
  obtains cm acc b' where
    "syn_establish m rc msg l i a = Ret (0, put_wrap (put_sock ((put_conn m a (accepted_conn rc msg l i))\<lparr>nts_shm_conn_map := cm\<rparr>) i s)
       l (w\<lparr>lw_accepted := acc, lw_backlog_ctx := Live b'\<rparr>))"
    "ids_ok cm" "\<forall>j. id_lookup cm j = (if id_str j = id_str (of_nat (Suc i)) then Some a else id_lookup (nts_shm_conn_map m) j)"
    "ids_ok acc" "\<forall>j. id_lookup acc j = (if id_str j = id_str (of_nat (Suc i)) then Some i else id_lookup (lw_accepted w) j)"
    "backlog_ok b'" "backlog_waiting b' = backlog_waiting b @ [to_backlog_sock s]" "backlog_room b' = backlog_room b"
proof -
  have key: "unat (of_nat (Suc i) :: u32) < 2 ^ 24"
    using assms(3) by (simp add: unsigned_of_nat take_bit_nat_eq_self del: of_nat_Suc)
  from map_put_id [OF maps(1) key maps(2), of a] obtain cm where cm: "map_put (nts_shm_conn_map m) (of_nat (Suc i)) a = Ret cm"
    "ids_ok cm" "\<forall>j. id_lookup cm j = (if id_str j = id_str (of_nat (Suc i)) then Some a else id_lookup (nts_shm_conn_map m) j)"
    by blast
  from map_put_id [OF maps(3) key maps(4), of i] obtain acc where acc: "map_put (lw_accepted w) (of_nat (Suc i)) i = Ret acc"
    "ids_ok acc" "\<forall>j. id_lookup acc j = (if id_str j = id_str (of_nat (Suc i)) then Some i else id_lookup (lw_accepted w) j)"
    by blast
  from backlog_push_room [OF w(3,4), of s] obtain b' where b': "backlog_push b s = Ret (0, b')" "backlog_ok b'"
    "backlog_waiting b' = backlog_waiting b @ [to_backlog_sock s]" "backlog_room b' = backlog_room b" by blast
  show ?thesis
    by (rule that [of cm b' acc])
      (use assms(1,2) w(1,2) cm acc b' in
        \<open>simp_all add: syn_establish_def sock_of_def wrap_of_def live_ctx_def put_sock_def accepted_conn_def s_def Let_def del: of_nat_Suc\<close>)
qed

text \<open>The sockets waiting at a listener.\<close>

definition waiting :: "ntm_manager \<Rightarrow> nat \<Rightarrow> nt_backlog_sock list" where
  "waiting m l = (case mg_wraps m l of Some w \<Rightarrow> (case lw_backlog_ctx w of Live b \<Rightarrow> backlog_waiting b | _ \<Rightarrow> []) | None \<Rightarrow> [])"

definition syn_ack :: "ntm_sock_msg \<Rightarrow> nat \<Rightarrow> byte \<Rightarrow> ntm_sock_msg" where
  "syn_ack msg i part = (reply_to msg)\<lparr>sm_sport := sm_dport msg, sm_dport := sm_sport msg, sm_sockid := int (Suc i),
     sm_type := NT_SYN_ACK, sm_partition_id := part\<rparr>"

text \<open>What the monitor is after it accepted: the new socket \<open>i\<close> with the port \<open>p\<close> and the connection \<open>a\<close>.\<close>

definition accepted :: "ntm_manager \<Rightarrow> nat \<Rightarrow> ntm_sock_msg \<Rightarrow> nat \<Rightarrow> nat \<Rightarrow> nat \<Rightarrow> nat \<Rightarrow> ntm_manager \<Rightarrow> bool" where
  "accepted m rc msg l i p a m' \<longleftrightarrow>
     (let s = ntsock (mg_socks m') ! i in
      sockid s = of_nat (Suc i) \<and> socktype s = NT_SOCK_PIPE \<and> sk_state s = WAIT_ESTABLISHED \<and>
      saddr s = \<lparr>sin_family = AF_INET, sin_port = swap16 (of_nat p), sin_addr = sm_dst_addr msg\<rparr> \<and>
      \<not> port_used (mg_ports m) p \<and> port_used (mg_ports m') p \<and>
      id_lookup (port_sock_map m') (of_nat p) = Some i \<and>
      id_lookup (nts_shm_conn_map m') (of_nat (Suc i)) = Some a \<and> mg_conns m' a = Some (accepted_conn rc msg l i) \<and>
      waiting m' l = waiting m l @ [to_backlog_sock s])"

text \<open>What it waits for: the socket \<open>i\<close> is among the accepted ones of the listener \<open>l\<close> of the port \<open>k\<close>.\<close>

definition pending :: "ntm_manager \<Rightarrow> u32 \<Rightarrow> nat \<Rightarrow> nat \<Rightarrow> nt_listener_wrapper \<Rightarrow> bool" where
  "pending m k l i w \<longleftrightarrow> ids_ok (listener_map m) \<and> id_lookup (listener_map m) k = Some l \<and> mg_wraps m l = Some w \<and>
     nl_socket (lw_listener w) < length (ntsock (mg_socks m)) \<and> sk_state (listener_sock m w) = LISTENING \<and>
     ids_ok (lw_accepted w) \<and> id_lookup (lw_accepted w) (of_nat (Suc i)) = Some i \<and>
     i < length (ntsock (mg_socks m)) \<and> Suc i < 2 ^ 24"

lemma can_acceptD:
  assumes "can_accept m k l i" "mg_wraps m l = Some w"
  obtains lc b where "listeners_ok m" "id_lookup (listener_map m) k = Some l"
    "sk_state (listener_sock m w) = LISTENING" "free_slots m i" "free_entries m w i" "mg_conns m (lw_conn w) = Some lc"
    "nx_socket lc = Some (nl_socket (lw_listener w))" "sk_epoll (listener_sock m w) = 0"
    "lw_backlog_ctx w = Live b" "backlog_ok b" "length (backlog_waiting b) < backlog_room b"
    "nl_socket (lw_listener w) \<noteq> i" "Suc i < 2 ^ 24" "nl_socket (lw_listener w) < length (ntsock (mg_socks m))"
proof -
  from assms obtain lc where w: "listeners_ok m" "id_lookup (listener_map m) k = Some l"
    "syn_verdict m k = None" "free_slots m i" "free_entries m w i" "mg_conns m (lw_conn w) = Some lc"
    "nx_socket lc = Some (nl_socket (lw_listener w))" "socktype (listener_sock m w) = NT_SOCK_LISTENER" "sk_epoll (listener_sock m w) = 0"
    by (auto simp: can_accept_def)
  from listeners_okD [OF w(1,2)] assms(2) obtain b where b: "lw_backlog_ctx w = Live b" "backlog_ok b"
    and li: "nl_socket (lw_listener w) < length (ntsock (mg_socks m))" by auto
  have room: "sk_state (listener_sock m w) = LISTENING" "length (backlog_waiting b) < backlog_room b"
    using w(2,3) assms(2) b backlog.contents_bound [OF b(2)] by (auto simp: syn_verdict_def split: if_splits)
  from w(4) obtain xs where xs: "sock_inv (mg_socks m) (i # xs)" and lim: "length (ntsock (mg_socks m)) < 2 ^ 24"
    unfolding free_slots_def by blast
  have "i < length (ntsock (mg_socks m)) \<and> sock_unused (mg_socks m) i"
    using xs unfolding sock_inv_def by (metis list.set_intros(1))
  then have "nl_socket (lw_listener w) \<noteq> i" "Suc i < 2 ^ 24"
    using w(8) lim by (auto simp: sock_unused_def listener_sock_def)
  with that w room b li show ?thesis by blast
qed

lemma syn_accept_ok:
  assumes can: "can_accept m k l i" and tcp: "tcp_up m rc fd" and os: "os_conn os = Some a" "mg_conns m a = None"
    and ntp: "ask_ntp (os_env os) (os_out os) (os_inc os) m msg (- 1) = Ret (inc, mp)" "cm_msg_type inc = 1"
    and wrap: "mg_wraps m l = Some w"
  obtains m' p w' where "syn_accept os m rc msg l = Ret m'" "accepted m rc msg l i p a m'"
    "mg_sent m' = mg_sent m @ [(fd, syn_ack msg i (cm_partition_id inc))]"
    "pending m' k l i w'" "lw_conn w' = lw_conn w" "mg_remotes m' = mg_remotes m" "mg_conns m' = (mg_conns m)(a \<mapsto> accepted_conn rc msg l i)"
    "\<forall>q. id_lookup (port_sock_map m') q = (if id_str q = id_str (of_nat p) then Some i else id_lookup (port_sock_map m) q)"
    "ids_ok (port_sock_map m')" "p < length (ntport (mg_ports m))"
proof -
  from can_acceptD [OF can wrap] obtain lc b where w: "listeners_ok m" "id_lookup (listener_map m) k = Some l"
      "sk_state (listener_sock m w) = LISTENING" "free_slots m i" "free_entries m w i" "mg_conns m (lw_conn w) = Some lc"
      "nx_socket lc = Some (nl_socket (lw_listener w))" "sk_epoll (listener_sock m w) = 0"
    and b: "lw_backlog_ctx w = Live b" "backlog_ok b" "length (backlog_waiting b) < backlog_room b"
    and other: "nl_socket (lw_listener w) \<noteq> i" "Suc i < 2 ^ 24" "nl_socket (lw_listener w) < length (ntsock (mg_socks m))" .
  from syn_socket_ok [OF w(4,5), of msg l] obtain p pc sc pm where
    ss: "syn_socket m msg l = Ret (i, p, m\<lparr>mg_socks := sc, mg_ports := pc, port_sock_map := pm\<rparr>)"
    "length (ntsock sc) = length (ntsock (mg_socks m))" "i < length (ntsock sc)"
    "sockid (ntsock sc ! i) = of_nat (Suc i)" "socktype (ntsock sc ! i) = NT_SOCK_PIPE"
    "saddr (ntsock sc ! i) = \<lparr>sin_family = AF_INET, sin_port = swap16 (of_nat p), sin_addr = sm_dst_addr msg\<rparr>"
    "\<forall>j. j \<noteq> i \<longrightarrow> ntsock sc ! j = ntsock (mg_socks m) ! j"
    "p < length (ntport (mg_ports m))" "\<not> port_used (mg_ports m) p" "port_used pc p"
    "ids_ok pm" "\<forall>q. id_lookup pm q = (if id_str q = id_str (of_nat p) then Some i else id_lookup (port_sock_map m) q)" .
  define m1 where "m1 = m\<lparr>mg_socks := sc, mg_ports := pc, port_sock_map := pm\<rparr>"
  have "same_chans m1 m" by (simp add: same_chans_def m1_def)
  from ask_ntp_frame [OF ntp(1) this] have ask: "ask_ntp (os_env os) (os_out os) (os_inc os) m1 msg (- 1) = Ret (inc, with_chans m1 mp)" .
  let ?m2 = "with_chans m1 mp"
  define s where "s = (ntsock sc ! i)\<lparr>sk_state := WAIT_ESTABLISHED\<rparr>"
  have pre: "i < length (ntsock (mg_socks ?m2))" "sockid (ntsock (mg_socks ?m2) ! i) = of_nat (Suc i)" "mg_wraps ?m2 l = Some w"
    "ids_ok (nts_shm_conn_map ?m2)" "id_lookup (nts_shm_conn_map ?m2) (of_nat (Suc i)) = None"
    "ids_ok (lw_accepted w)" "id_lookup (lw_accepted w) (of_nat (Suc i)) = None"
    using ss wrap w(5) by (simp_all add: m1_def free_entries_def)
  have s2: "ntsock (mg_socks ?m2) ! i = ntsock sc ! i" "nts_shm_conn_map ?m2 = nts_shm_conn_map m" by (simp_all add: m1_def)
  from syn_establish_ok [OF pre(1,2) other(2) pre(3) b pre(4-7), where a = a and rc = rc and msg = msg, unfolded s2, folded s_def] obtain cm acc b' where
    est: "syn_establish ?m2 rc msg l i a =
       Ret (0, put_wrap (put_sock ((put_conn ?m2 a (accepted_conn rc msg l i))\<lparr>nts_shm_conn_map := cm\<rparr>) i s)
         l (w\<lparr>lw_accepted := acc, lw_backlog_ctx := Live b'\<rparr>))"
    "ids_ok cm" "\<forall>j. id_lookup cm j = (if id_str j = id_str (of_nat (Suc i)) then Some a else id_lookup (nts_shm_conn_map m) j)"
    "ids_ok acc" "\<forall>j. id_lookup acc j = (if id_str j = id_str (of_nat (Suc i)) then Some i else id_lookup (lw_accepted w) j)"
    "backlog_ok b'" "backlog_waiting b' = backlog_waiting b @ [to_backlog_sock s]" "backlog_room b' = backlog_room b" .
  define m3 where "m3 = put_wrap (put_sock ((put_conn ?m2 a (accepted_conn rc msg l i))\<lparr>nts_shm_conn_map := cm\<rparr>) i s)
       l (w\<lparr>lw_accepted := acc, lw_backlog_ctx := Live b'\<rparr>)"
  have "a \<noteq> lw_conn w" using os(2) w(6) by auto
  then have note': "notify_listener os m3 l = Ret m3"
    using w(6,7,8) other(1,3) ss(2,3,7)
    by (simp add: notify_listener_def m3_def m1_def wrap_of_def conn_of_def conn_socket_def sock_of_def put_sock_def listener_sock_def)
  have up: "tcp_up m3 rc fd" using tcp by (simp add: tcp_up_def m3_def m1_def put_sock_def)
  have sid: "sint (of_nat (Suc i) :: u32) = int (Suc i)"
    using other(2) by (simp add: signed_of_nat signed_take_bit_int_eq_self del: of_nat_Suc)
  have sk: "ntsock (mg_socks m3) ! i = s" "i < length (ntsock (mg_socks m3))" using ss(3) by (simp_all add: m3_def m1_def put_sock_def)
  let ?m5 = "m3\<lparr>mg_sent := mg_sent m3 @ [(fd, syn_ack msg i (cm_partition_id inc))]\<rparr>"
  have "syn_accept os m rc msg l = Ret ?m5"
    using ss(1) [folded m1_def] ask ntp(2) os(1) est(1) [folded m3_def] note' sk sid ss(4) send_tcp [OF up]
    by (simp add: syn_accept_def sock_of_def syn_ack_def s_def)
  moreover have "accepted m rc msg l i p a ?m5"
    using ss sk est wrap b by (simp add: accepted_def Let_def s_def m3_def m1_def put_sock_def waiting_def)
  moreover have "mg_sent ?m5 = mg_sent m @ [(fd, syn_ack msg i (cm_partition_id inc))]" by (simp add: m3_def m1_def put_sock_def)
  moreover have "pending ?m5 k l i (w\<lparr>lw_accepted := acc, lw_backlog_ctx := Live b'\<rparr>)"
    using w(1,2,3) ss(2,3,7) est(4,5) other
    by (auto simp: pending_def listeners_ok_def m3_def m1_def put_sock_def listener_sock_def)
  ultimately show ?thesis
    by (rule that) (use wrap ss(8,11,12) in \<open>simp_all add: m3_def m1_def put_sock_def\<close>)
qed


section \<open>The handshake\<close>

text \<open>The channel to the application of a connection, with room for one more message, and what waits in it.\<close>

definition app_ring :: "ntm_manager \<Rightarrow> nat \<Rightarrow> nts_msg msg_ring option" where
  "app_ring m a =
     (case mg_conns m a of
        Some c \<Rightarrow> (case nx_shm_ctx c of Live ctx \<Rightarrow> (case sc_handle ctx of Live r \<Rightarrow> Some r | _ \<Rightarrow> None) | _ \<Rightarrow> None)
      | None \<Rightarrow> None)"

definition inbox :: "ntm_manager \<Rightarrow> nat \<Rightarrow> nts_msg list" where
  "inbox m a = (case app_ring m a of Some r \<Rightarrow> msg_ring_contents nts_view r | None \<Rightarrow> [])"

definition app_ready :: "ntm_manager \<Rightarrow> nat \<Rightarrow> bool" where
  "app_ready m a \<longleftrightarrow> (\<exists>r. app_ring m a = Some r \<and> msg_ring_ok nts_good nts_shape r \<and> length (inbox m a) < unat (mr_max r) - 1)"

lemma send_to_nts_ok:
  assumes "app_ready m a" "nts_good msg" "mg_conns m a = Some c"
  obtains ctx where "send_to_nts m a msg = Ret (0, put_conn m a (c\<lparr>nx_shm_ctx := Live ctx\<rparr>))"
    "inbox (put_conn m a (c\<lparr>nx_shm_ctx := Live ctx\<rparr>)) a = inbox m a @ [nts_view msg]"
proof -
  from assms(1,3) obtain ctx r where r: "nx_shm_ctx c = Live ctx" "sc_handle ctx = Live r" "app_ring m a = Some r"
    "msg_ring_ok nts_good nts_shape r" "length (msg_ring_contents nts_view r) < unat (mr_max r) - 1"
    by (auto simp: app_ready_def app_ring_def inbox_def split: option.splits cptr.splits)
  from ma.put_room [OF r(4) assms(2) r(5)] obtain r' where
    "nts_shmring_push r msg = Ret (True, r')" "msg_ring_contents nts_view r' = msg_ring_contents nts_view r @ [nts_view msg]"
    by (auto simp: nts_ring_ops)
  with r assms(3) that [of "ctx\<lparr>sc_handle := Live r'\<rparr>"] show ?thesis
    by (auto simp: send_to_nts_def conn_of_def nts_shm_send_def live_ring_def inbox_def app_ring_def)
qed

lemma app_ring_update [simp]:
  "app_ring (m\<lparr>mg_socks := sc\<rparr>) a = app_ring m a" "app_ring (m\<lparr>mg_sent := xs\<rparr>) a = app_ring m a"
  "app_ring (with_chans m c) a = app_ring m a"
  by (simp_all add: app_ring_def)

text \<open>The messages of the handshake to the applications can be copied.\<close>

lemma handshake_msgs_good:
  assumes "nts_shape r"
  shows "nts_good (r\<lparr>ns_msg_type := nts_type NTS_MSG_ESTABLISH, ns_sockid := x, ns_retval := 0\<rparr>)"
    "nts_good (r\<lparr>ns_sockid := x, ns_msg_type := nts_type NTS_MSG_CLIENT_SYN_ACK, ns_retval := 0\<rparr>)"
  using assms by (simp_all add: nts_good_def nts_shape_def nts_kind_def belongs_def Let_def bit_simps)

text \<open>A monitor whose socket \<open>j\<close> with the port \<open>k\<close> and the connection \<open>a\<close> waits for the answer to its request.\<close>

definition requesting :: "ntm_manager \<Rightarrow> u32 \<Rightarrow> nat \<Rightarrow> nat \<Rightarrow> bool" where
  "requesting m k j a \<longleftrightarrow> ids_ok (port_sock_map m) \<and> id_lookup (port_sock_map m) k = Some j \<and>
     j < length (ntsock (mg_socks m)) \<and> unat (sockid (ntsock (mg_socks m) ! j)) < 2 ^ 24 \<and>
     ids_ok (nts_shm_conn_map m) \<and> id_lookup (nts_shm_conn_map m) (sockid (ntsock (mg_socks m) ! j)) = Some a \<and> app_ready m a"

definition client_syn_ack :: "ntm_sock_msg \<Rightarrow> ntm_sock_msg" where
  "client_syn_ack msg = (reply_to msg)\<lparr>sm_sockid := sm_sockid msg, sm_sport := sm_dport msg, sm_type := NT_CLIENT_SYN_ACK\<rparr>"

definition established_msg :: "ntm_os \<Rightarrow> nt_socket \<Rightarrow> nts_msg" where
  "established_msg os s = (os_resp os)\<lparr>ns_msg_type := nts_type NTS_MSG_ESTABLISH, ns_sockid := sint (sockid s), ns_retval := 0\<rparr>"

lemma syn_ack_ok:
  assumes req: "requesting m (port_key (sm_dport msg)) j a" and tcp: "tcp_up m rc fd" and "0 < sm_sockid msg" "nts_shape (os_resp os)"
    and ntp: "ask_ntp (os_env os) (os_out os) (os_inc os) m msg (sm_partition_id msg) = Ret (inc, mp)" "cm_msg_type inc = 1"
  defines "s \<equiv> ntsock (mg_socks m) ! j"
  obtains m' c where "handle_nt_syn_ack_msg os m rc msg = Ret m'" "mg_sent m' = mg_sent m @ [(fd, client_syn_ack msg)]"
    "ntsock (mg_socks m') = (ntsock (mg_socks m))[j := s\<lparr>sk_state := ESTABLISHED\<rparr>]"
    "mg_conns m' a = Some c" "nx_peer_port c = ucast (sm_sport msg)" "nx_peer_addr c = sm_src_addr msg"
    "inbox m' a = inbox m a @ [nts_view (established_msg os s)]"
proof -
  from req obtain c where r: "ids_ok (port_sock_map m)" "id_lookup (port_sock_map m) (port_key (sm_dport msg)) = Some j"
    "j < length (ntsock (mg_socks m))" "unat (sockid s) < 2 ^ 24" "ids_ok (nts_shm_conn_map m)"
    "id_lookup (nts_shm_conn_map m) (sockid s) = Some a" "app_ready m a" "mg_conns m a = Some c"
    by (auto simp: requesting_def s_def app_ready_def app_ring_def split: option.splits)
  define m1 where "m1 = m\<lparr>mg_ntp_send := mg_ntp_send mp, mg_ntp_recv := mg_ntp_recv mp\<rparr>"
  have m1: "mp = m1" using ask_ntp_frame [OF ntp(1), of m] ntp(1) by (simp add: m1_def same_chans_def)
  define m3 where "m3 = (put_sock m1 j (s\<lparr>sk_state := ESTABLISHED\<rparr>))\<lparr>mg_sent := mg_sent m @ [(fd, client_syn_ack msg)]\<rparr>"
  define c4 where "c4 = c\<lparr>nx_peer_port := ucast (sm_sport msg), nx_peer_addr := sm_src_addr msg\<rparr>"
  have "app_ring (put_conn m3 a c4) a = app_ring m a" using r(8) by (simp add: app_ring_def m3_def m1_def put_sock_def c4_def)
  then have ready: "app_ready (put_conn m3 a c4) a" and ib: "inbox (put_conn m3 a c4) a = inbox m a"
    using r(7) by (simp_all add: app_ready_def inbox_def)
  have good: "nts_good (established_msg os s)" using handshake_msgs_good(1) [OF assms(4)] by (simp add: established_msg_def)
  from send_to_nts_ok [OF ready good, of c4] obtain ctx where
    snd: "send_to_nts (put_conn m3 a c4) a (established_msg os s) = Ret (0, put_conn m3 a (c4\<lparr>nx_shm_ctx := Live ctx\<rparr>))"
    "inbox (put_conn m3 a (c4\<lparr>nx_shm_ctx := Live ctx\<rparr>)) a = inbox m a @ [nts_view (established_msg os s)]"
    unfolding ib by auto
  have up: "tcp_up (put_sock m1 j (s\<lparr>sk_state := ESTABLISHED\<rparr>)) rc fd" using tcp by (simp add: tcp_up_def m1_def put_sock_def)
  have sk: "sock_of m1 j = Ret s" using r(3) by (simp add: sock_of_def m1_def s_def)
  have m3: "mg_conns m3 a = Some c" "nts_shm_conn_map m3 = nts_shm_conn_map m"
    "put_sock m1 j (s\<lparr>sk_state := ESTABLISHED\<rparr>)\<lparr>mg_sent := mg_sent (put_sock m1 j (s\<lparr>sk_state := ESTABLISHED\<rparr>)) @ [(fd, client_syn_ack msg)]\<rparr> = m3"
    using r(8) by (simp_all add: m3_def m1_def put_sock_def)
  have "handle_nt_syn_ack_msg os m rc msg = Ret (put_conn m3 a (c4\<lparr>nx_shm_ctx := Live ctx\<rparr>))"
    using assms(3) r(1-6) ntp m1 sk send_tcp [OF up] m3 snd(1) [unfolded established_msg_def]
    by (simp add: handle_nt_syn_ack_msg_def port_key_int map_get_id map_exists_id conn_of_def
        client_syn_ack_def [symmetric] c4_def [symmetric])
  from that [OF this] snd(2) show ?thesis by (simp add: c4_def m3_def m1_def put_sock_def)
qed

definition client_ack_msg :: "ntm_os \<Rightarrow> nat \<Rightarrow> nts_msg" where
  "client_ack_msg os i = (os_resp os)\<lparr>ns_sockid := int (Suc i), ns_msg_type := nts_type NTS_MSG_CLIENT_SYN_ACK, ns_retval := 0\<rparr>"

lemma client_syn_ack_ok:
  assumes pend: "pending m (port_key (sm_dport msg)) l i w" and "sm_sockid msg = int (Suc i)" "nts_shape (os_resp os)"
    and app: "app_ready m (lw_conn w)"
  defines "s \<equiv> ntsock (mg_socks m) ! i"
  obtains m' where "handle_nt_client_syn_ack_msg os m rc msg = Ret (0, m')"
    "ntsock (mg_socks m') = (ntsock (mg_socks m))[i := s\<lparr>sk_state := ESTABLISHED\<rparr>]"
    "inbox m' (lw_conn w) = inbox m (lw_conn w) @ [nts_view (client_ack_msg os i)]" "port_sock_map m' = port_sock_map m"
proof -
  from pend have p: "ids_ok (listener_map m)" "id_lookup (listener_map m) (port_key (sm_dport msg)) = Some l" "mg_wraps m l = Some w"
    "nl_socket (lw_listener w) < length (ntsock (mg_socks m))" "sk_state (listener_sock m w) = LISTENING" "ids_ok (lw_accepted w)"
    "id_lookup (lw_accepted w) (of_nat (Suc i)) = Some i" "i < length (ntsock (mg_socks m))" "Suc i < 2 ^ 24"
    by (simp_all add: pending_def)
  have key: "unat (of_nat (Suc i) :: u32) < 2 ^ 24"
    using p(9) by (simp add: unsigned_of_nat take_bit_nat_eq_self del: of_nat_Suc)
  have g: "map_get (lw_accepted w) (of_int (sm_sockid msg)) = Ret (Some i)"
    using map_get_id [OF p(6) key] p(7) assms(2) by (metis of_int_of_nat_eq)
  from app obtain c where c: "mg_conns m (lw_conn w) = Some c" by (auto simp: app_ready_def app_ring_def split: option.splits)
  define m1 where "m1 = put_sock m i (s\<lparr>sk_state := ESTABLISHED\<rparr>)"
  have app1: "app_ready m1 (lw_conn w)" "inbox m1 = inbox m" "mg_conns m1 (lw_conn w) = Some c"
    using app c by (simp_all add: app_ready_def inbox_def app_ring_def m1_def put_sock_def fun_eq_iff)
  have "nts_good (client_ack_msg os i)" using handshake_msgs_good(2) [OF assms(3)] by (simp add: client_ack_msg_def)
  from send_to_nts_ok [OF app1(1) this app1(3)] obtain ctx where
    snd: "send_to_nts m1 (lw_conn w) (client_ack_msg os i) = Ret (0, put_conn m1 (lw_conn w) (c\<lparr>nx_shm_ctx := Live ctx\<rparr>))"
    "inbox (put_conn m1 (lw_conn w) (c\<lparr>nx_shm_ctx := Live ctx\<rparr>)) (lw_conn w) = inbox m (lw_conn w) @ [nts_view (client_ack_msg os i)]"
    unfolding app1(2) by auto
  have "handle_nt_client_syn_ack_msg os m rc msg = Ret (0, put_conn m1 (lw_conn w) (c\<lparr>nx_shm_ctx := Live ctx\<rparr>))"
    using p(1-5,8) g assms(2) snd(1) [unfolded client_ack_msg_def]
    by (simp add: handle_nt_client_syn_ack_msg_def port_key_int map_get_id map_exists_id wrap_of_def sock_of_def
        listener_sock_def s_def [symmetric] m1_def [symmetric])
  from that [OF this] snd(2) show ?thesis by (simp add: m1_def put_sock_def)
qed

text \<open>
  C5: The handshake of two monitors. The server handles a request \<open>syn\<close>, the client the answer to it and the server the
  client's answer, each message as the other side sent it, with a proxy on each side that sets up its end. Then both
  sockets are established, the client's connection names the port and the address of the request as its peer, the partition that the
  server's proxy chose is the one the client asks its own proxy for, and both applications have been told.
\<close>

theorem handshake_completes:
  assumes "can_accept ms (port_key (sm_dport syn)) l i" "tcp_up ms rs fs" "os_conn os1 = Some a" "mg_conns ms a = None"
    "ask_ntp (os_env os1) (os_out os1) (os_inc os1) ms syn (- 1) = Ret (inc, mp)" "cm_msg_type inc = 1"
    "mg_wraps ms l = Some w" "app_ready ms (lw_conn w)" "nts_shape (os_resp os3)"
    and "requesting mc (port_key (sm_sport syn)) j b" "tcp_up mc rc fc" "nts_shape (os_resp os2)"
    "ask_ntp (os_env os2) (os_out os2) (os_inc os2) mc (syn_ack syn i (cm_partition_id inc)) (cm_partition_id inc) = Ret (inc', mp')"
    "cm_msg_type inc' = 1"
  shows "\<exists>ms1 sa mc1 ca ms2 c. handle_nt_syn_msg os1 ms rs syn = Ret ms1 \<and> mg_sent ms1 = mg_sent ms @ [(fs, sa)] \<and>
    handle_nt_syn_ack_msg os2 mc rc sa = Ret mc1 \<and> mg_sent mc1 = mg_sent mc @ [(fc, ca)] \<and>
    handle_nt_client_syn_ack_msg os3 ms1 rs ca = Ret (0, ms2) \<and>
    sk_state (ntsock (mg_socks ms2) ! i) = ESTABLISHED \<and> sk_state (ntsock (mg_socks mc1) ! j) = ESTABLISHED \<and>
    sm_partition_id sa = cm_partition_id inc \<and>
    mg_conns mc1 b = Some c \<and> nx_peer_port c = ucast (sm_dport syn) \<and> nx_peer_addr c = sm_dst_addr syn \<and>
    inbox ms2 (lw_conn w) = inbox ms (lw_conn w) @ [nts_view (client_ack_msg os3 i)] \<and>
    inbox mc1 b = inbox mc b @ [nts_view (established_msg os2 (ntsock (mg_socks mc) ! j))]"
proof -
  let ?sa = "syn_ack syn i (cm_partition_id inc)"
  have sa: "sm_dport ?sa = sm_sport syn" "sm_sport ?sa = sm_dport syn" "sm_src_addr ?sa = sm_dst_addr syn" "sm_sockid ?sa = int (Suc i)"
    "sm_partition_id ?sa = cm_partition_id inc" by (simp_all add: syn_ack_def reply_to_def)
  from syn_accept_ok [OF assms(1-7)] obtain ms1 p w' where acc: "syn_accept os1 ms rs syn l = Ret ms1"
    "mg_sent ms1 = mg_sent ms @ [(fs, ?sa)]" "pending ms1 (port_key (sm_dport syn)) l i w'" "lw_conn w' = lw_conn w"
    "mg_conns ms1 = (mg_conns ms)(a \<mapsto> accepted_conn rs syn l i)" by blast
  from assms(1) have syn1: "handle_nt_syn_msg os1 ms rs syn = Ret ms1"
    using acc(1) by (auto simp: can_accept_def handle_nt_syn_verdict)
  have "a \<noteq> lw_conn w" using assms(4,8) by (auto simp: app_ready_def app_ring_def)
  then have "app_ring ms1 (lw_conn w) = app_ring ms (lw_conn w)" by (simp add: app_ring_def acc(5))
  then have app: "app_ready ms1 (lw_conn w')" "inbox ms1 (lw_conn w) = inbox ms (lw_conn w)"
    using assms(8) acc(4) by (simp_all add: app_ready_def inbox_def)
  from syn_ack_ok [of mc ?sa j b rc fc os2 inc' mp'] assms(10-14) sa obtain mc1 c where
    ack: "handle_nt_syn_ack_msg os2 mc rc ?sa = Ret mc1" "mg_sent mc1 = mg_sent mc @ [(fc, client_syn_ack ?sa)]"
    "ntsock (mg_socks mc1) = (ntsock (mg_socks mc))[j := (ntsock (mg_socks mc) ! j)\<lparr>sk_state := ESTABLISHED\<rparr>]"
    "mg_conns mc1 b = Some c" "nx_peer_port c = ucast (sm_dport syn)" "nx_peer_addr c = sm_dst_addr syn"
    "inbox mc1 b = inbox mc b @ [nts_view (established_msg os2 (ntsock (mg_socks mc) ! j))]" by auto
  have ca: "sm_dport (client_syn_ack ?sa) = sm_dport syn" "sm_sockid (client_syn_ack ?sa) = int (Suc i)"
    using sa by (simp_all add: client_syn_ack_def reply_to_def)
  from client_syn_ack_ok [of ms1 "client_syn_ack ?sa" l i w' os3 rs] ca acc(3) assms(9) app(1) obtain ms2 where
    fin: "handle_nt_client_syn_ack_msg os3 ms1 rs (client_syn_ack ?sa) = Ret (0, ms2)"
    "ntsock (mg_socks ms2) = (ntsock (mg_socks ms1))[i := (ntsock (mg_socks ms1) ! i)\<lparr>sk_state := ESTABLISHED\<rparr>]"
    "inbox ms2 (lw_conn w') = inbox ms1 (lw_conn w') @ [nts_view (client_ack_msg os3 i)]" by auto
  have "i < length (ntsock (mg_socks ms1))" "j < length (ntsock (mg_socks mc))"
    using acc(3) assms(10) by (simp_all add: pending_def requesting_def)
  then have "sk_state (ntsock (mg_socks ms2) ! i) = ESTABLISHED" "sk_state (ntsock (mg_socks mc1) ! j) = ESTABLISHED"
    by (simp_all add: fin(2) ack(3))
  with syn1 acc(2) ack fin(1,3) sa(5) acc(4) app(2) show ?thesis by metis
qed

section \<open>Lost connections\<close>

text \<open>
  The end of a connection does not reach the side that accepted it. The client only knows the port of the
  listener, which is in no map of sockets; its last message changes nothing, and the accepted socket with its port and its
  connection stays for ever.
\<close>

theorem accepted_fin_lost:
  assumes "can_accept m (port_key (sm_dport syn)) l i" "tcp_up m rc fd" "os_conn os = Some a" "mg_conns m a = None"
    "ask_ntp (os_env os) (os_out os) (os_inc os) m syn (- 1) = Ret (inc, mp)" "cm_msg_type inc = 1"
    and "id_lookup (port_sock_map m) (port_key (sm_dport syn)) = None"
    "\<forall>q < length (ntport (mg_ports m)). \<not> port_used (mg_ports m) q \<longrightarrow> id_str (of_nat q) \<noteq> id_str (port_key (sm_dport syn))"
    and "sm_dport fin = sm_dport syn"
  shows "\<exists>m'. handle_nt_syn_msg os m rc syn = Ret m' \<and> handle_nt_fin_ack_msg os' m' rc fin = Ret m' \<and>
    id_lookup (nts_shm_conn_map m') (of_nat (Suc i)) = Some a"
proof -
  from assms(1) obtain w where w: "mg_wraps m l = Some w" by (auto simp: can_accept_def)
  from syn_accept_ok [OF assms(1-6) w] obtain m' p where acc: "syn_accept os m rc syn l = Ret m'" "accepted m rc syn l i p a m'"
    "\<forall>q. id_lookup (port_sock_map m') q = (if id_str q = id_str (of_nat p) then Some i else id_lookup (port_sock_map m) q)"
    "ids_ok (port_sock_map m')" "p < length (ntport (mg_ports m))" by blast
  from assms(1) have syn: "handle_nt_syn_msg os m rc syn = Ret m'"
    using acc(1) by (auto simp: can_accept_def handle_nt_syn_verdict)
  have p: "\<not> port_used (mg_ports m) p" "id_lookup (nts_shm_conn_map m') (of_nat (Suc i)) = Some a"
    using acc(2) by (simp_all add: accepted_def Let_def)
  from p(1) assms(7,8) acc(3,5) have "id_lookup (port_sock_map m') (port_key (sm_dport syn)) = None" by auto
  with assms(9) acc(4) have "handle_nt_fin_ack_msg os' m' rc fin = Ret m'"
    by (simp add: handle_nt_fin_ack_msg_def port_key_int map_get_id)
  with syn p(2) show ?thesis by blast
qed

section \<open>Paths that leave defined behaviour\<close>

lemma free_port_ends: "free_port c k = Undef \<or> (\<exists>c'. free_port c k = Ret c')"
  by (cases "nat k < length (ntport c)") (simp_all add: free_port_def array_get_def)

lemma drop_socket_ends: "drop_socket m s = Undef \<or> (\<exists>m'. drop_socket m s = Ret m')"
  by (cases "nat (sint (sockid s)) < length (ntsock (mg_socks m))")
    (simp_all add: drop_socket_def free_socket_def array_get_def)

lemma syn_fail_wild:
  assumes "ids_ok (port_sock_map m)" "ids_ok (nts_shm_conn_map m)" "mg_wraps m l = Some w" "ids_ok (lw_accepted w)"
    "i < length (ntsock (mg_socks m))" "unat (sockid (ntsock (mg_socks m) ! i)) < 2 ^ 24"
  shows "syn_fail m i p l Wild = Undef"
proof (cases "p < length (ntport (mg_ports m))")
  case True
  let ?s = "ntsock (mg_socks m) ! i" and ?k = "uint (port_id (ntport (mg_ports m) ! p))"
  have "unat (port_id (ntport (mg_ports m) ! p)) < 2 ^ 16" using unsigned_less [of "port_id (ntport (mg_ports m) ! p)"] by simp
  then have "unat (of_int ?k :: u32) < 2 ^ 24" by (simp add: unsigned_ucast_eq take_bit_nat_eq_self)
  from map_drop_id [OF assms(1) this] obtain pm where pm: "map_drop (port_sock_map m) (of_int ?k) = Ret pm" by blast
  from map_drop_id [OF assms(2,6)] obtain cm where cm: "map_drop (nts_shm_conn_map m) (sockid ?s) = Ret cm" by blast
  from map_drop_id [OF assms(4,6)] obtain acc where acc: "map_drop (lw_accepted w) (sockid ?s) = Ret acc" by blast
  from free_port_ends [of "mg_ports m" ?k] show ?thesis
  proof
    assume "free_port (mg_ports m) ?k = Undef"
    with True pm show ?thesis by (simp add: syn_fail_def drop_port_def)
  next
    assume "\<exists>c'. free_port (mg_ports m) ?k = Ret c'"
    then obtain pc where pc: "free_port (mg_ports m) ?k = Ret pc" ..
    let ?m = "put_wrap ((put_sock (m\<lparr>port_sock_map := pm, mg_ports := pc\<rparr>) i (?s\<lparr>sk_state := CLOSED\<rparr>))\<lparr>nts_shm_conn_map := cm\<rparr>)
       l (w\<lparr>lw_accepted := acc\<rparr>)"
    from True pm pc cm acc assms(3,5) drop_socket_ends [of ?m ?s] show ?thesis
      by (auto simp: syn_fail_def drop_port_def sock_of_def wrap_of_def put_sock_def Let_def)
  qed
qed (simp add: syn_fail_def array_get_def)

text \<open>
  When the proxy does not set up the connection of an otherwise acceptable request, the monitor frees a pointer that was
  never assigned.
\<close>

theorem syn_proxy_refusal:
  assumes "can_accept m (port_key (sm_dport msg)) l i"
    "ask_ntp (os_env os) (os_out os) (os_inc os) m msg (- 1) = Ret (inc, mp)" "cm_msg_type inc \<noteq> 1"
  shows "handle_nt_syn_msg os m rc msg = Undef"
proof -
  from assms(1) obtain w where w: "mg_wraps m l = Some w" "listeners_ok m" "id_lookup (listener_map m) (port_key (sm_dport msg)) = Some l"
    "syn_verdict m (port_key (sm_dport msg)) = None" by (auto simp: can_accept_def)
  from can_acceptD [OF assms(1) w(1)] have slots: "free_slots m i" "free_entries m w i" "Suc i < 2 ^ 24" by blast+
  from syn_socket_ok [OF slots(1,2), of msg l] obtain p pc sc pm where
    ss: "syn_socket m msg l = Ret (i, p, m\<lparr>mg_socks := sc, mg_ports := pc, port_sock_map := pm\<rparr>)"
    "length (ntsock sc) = length (ntsock (mg_socks m))" "i < length (ntsock sc)"
    "sockid (ntsock sc ! i) = of_nat (Suc i)" "socktype (ntsock sc ! i) = NT_SOCK_PIPE"
    "saddr (ntsock sc ! i) = \<lparr>sin_family = AF_INET, sin_port = swap16 (of_nat p), sin_addr = sm_dst_addr msg\<rparr>"
    "\<forall>j. j \<noteq> i \<longrightarrow> ntsock sc ! j = ntsock (mg_socks m) ! j"
    "p < length (ntport (mg_ports m))" "\<not> port_used (mg_ports m) p" "port_used pc p"
    "ids_ok pm" "\<forall>q. id_lookup pm q = (if id_str q = id_str (of_nat p) then Some i else id_lookup (port_sock_map m) q)" .
  define m1 where "m1 = m\<lparr>mg_socks := sc, mg_ports := pc, port_sock_map := pm\<rparr>"
  have "same_chans m1 m" by (simp add: same_chans_def m1_def)
  from ask_ntp_frame [OF assms(2) this] have
    ask: "ask_ntp (os_env os) (os_out os) (os_inc os) m1 msg (- 1) = Ret (inc, with_chans m1 mp)" .
  have "unat (of_nat (Suc i) :: u32) < 2 ^ 24"
    using slots(3) by (simp add: unsigned_of_nat take_bit_nat_eq_self del: of_nat_Suc)
  then have "syn_fail (with_chans m1 mp) i p l Wild = Undef"
    using ss(3,4,11) w(1) slots(2) by (intro syn_fail_wild [of _ _ w]) (simp_all add: m1_def free_entries_def del: of_nat_Suc)
  with ss(1) ask assms(3) w handle_nt_syn_verdict [OF w(2), of os rc msg] show ?thesis
    by (simp add: syn_accept_def m1_def)
qed

text \<open>
  A monitor that is asked to stop by another one frees the socket of the connection twice: once in the handler and once
  at the end of the receiving thread.
\<close>

theorem stop_frees_twice:
  assumes "tcp_up m rc fd" "sm_type msg = STOP" "0 < os_tcp os"
  shows "ntm_sock_recv_thread (Got os msg # evs) m rc = Undef"
proof -
  from assms(1) obtain c where c: "mg_remotes m rc = Some c" "rc_sock c = Live fd" by (auto simp: tcp_up_def)
  let ?m = "m\<lparr>mg_remotes := (mg_remotes m)(rc := Some (c\<lparr>rc_running := True\<rparr>))\<rparr>"
  let ?c = "c\<lparr>rc_running := False, rc_sock := Dangling\<rparr>"
  let ?m' = "m\<lparr>mg_remotes := (mg_remotes m)(rc := Some ?c),
     mg_sent := mg_sent m @ [(fd, (reply_to msg)\<lparr>sm_type := STOP_CONFIRM, sm_sport := sm_dport msg\<rparr>)]\<rparr>"
  have "ntm_sock_handle_msg os ?m rc msg = Ret (0, ?m')"
    using c assms(2,3) by (simp add: ntm_sock_handle_msg_def handle_stop_msg_def stop_running_def ntm_send_tcp_msg_def
      remote_of_def ntm_free_def live_ctx_def)
  moreover have "ntm_sock_recv_loop evs ?m' rc = Undef"
    by (subst ntm_sock_recv_loop.simps) (simp add: ntm_sock_recv_end_def remote_of_def ntm_free_def live_ctx_def)
  ultimately show ?thesis
    using c by (simp add: ntm_sock_recv_thread_def ntm_sock_recv_loop.simps [where evs = "Got os msg # evs"] remote_of_def)
qed

lemma dispatched_good:
  "nts_shape r \<Longrightarrow> nts_good (r\<lparr>ns_msg_id := n, ns_msg_type := nts_type NTS_MSG_DISPATCHED, ns_sockid := x, ns_retval := y, ns_nt_errno := z\<rparr>)"
  by (simp add: nts_good_def nts_shape_def nts_kind_def belongs_def Let_def bit_simps)

text \<open>
  C36: An application can crash the monitor with a request to connect: for a number without a socket the error path
  follows a null pointer, and for a new socket with an invalid address length or port it tests a pointer that was never assigned.
\<close>

theorem connect_crash:
  assumes "ids_ok (nts_shm_conn_map m)" "nm_msg_type msg = push_bit NTM_MSG_CONNECT 1" "unat (of_int (nm_sockid msg) :: u32) < 2 ^ 24"
    "nts_shape (ro_resp os)"
    and "case id_lookup (nts_shm_conn_map m) (of_int (nm_sockid msg)) of
        None \<Rightarrow> True
      | Some a \<Rightarrow> app_ready m a \<and> (\<exists>c i. mg_conns m a = Some c \<and> nx_socket c = Some i \<and> i < length (ntsock (mg_socks m)) \<and>
          sk_state (ntsock (mg_socks m) ! i) = CLOSED) \<and> (nm_addrlen msg \<le> 0 \<or> nm_port msg < 0)"
  shows "nts_shm_handle_msg epoll cfg os m msg = Undef"
proof -
  have d: "nts_shm_handle_msg epoll cfg os m msg = handle_msg_nts_connect cfg os m msg"
    by (simp add: nts_shm_handle_msg_def assms(2) bit_simps)
  note g = map_get_id [OF assms(1,3)]
  show ?thesis
  proof (cases "id_lookup (nts_shm_conn_map m) (of_int (nm_sockid msg))")
    case None
    with d g show ?thesis by (simp add: handle_msg_nts_connect_def connect_fail_def)
  next
    case (Some a)
    with assms(5) obtain c i where c: "app_ready m a" "mg_conns m a = Some c" "nx_socket c = Some i" "i < length (ntsock (mg_socks m))"
      "sk_state (ntsock (mg_socks m) ! i) = CLOSED" "nm_addrlen msg \<le> 0 \<or> nm_port msg < 0" by auto
    have "connect_error os m a (response_to os msg NTS_MSG_DISPATCHED) e = Undef" for e
    proof -
      from send_to_nts_ok [OF c(1) dispatched_good [OF assms(4)] c(2)] obtain ctx where
        "send_to_nts m a ((response_to os msg NTS_MSG_DISPATCHED)\<lparr>ns_retval := - 1, ns_nt_errno := e\<rparr>) =
           Ret (0, put_conn m a (c\<lparr>nx_shm_ctx := Live ctx\<rparr>))"
        unfolding response_to_def by blast
      with c show ?thesis
        by (simp add: connect_error_def respond_error_def connect_fail_def conn_of_def conn_socket_def sock_of_def)
    qed
    with d g Some c show ?thesis by (auto simp: handle_msg_nts_connect_def conn_of_def conn_socket_def sock_of_def Let_def)
  qed
qed

section \<open>Two monitors\<close>

text \<open>
  A server with a listener on port 3 and a client whose socket has port 1. Their proxies answer when they are waited for.
\<close>

definition demo_ctl_ring :: "byte \<Rightarrow> u64 \<Rightarrow> ntm_ntp_msg shm_ctx4" where
  "demo_ctl_ring part w = \<lparr>sc_stat = SHM_READY, sc_handle = Live \<lparr>mr_fd = - 1, mr_MASK = 1, mr_addrlen = 1, mr_addr = [CHR 0x00],
     mr_shm = \<lparr>mb_buf = [cm_blank\<lparr>cm_msg_type := 1, cm_partition_id := part\<rparr>, cm_blank], mb_write = w, mb_read = 0\<rparr>, mr_max = 2\<rparr>,
     sc_addr = Null, sc_addrlen = 0\<rparr>"

definition demo_proxy :: "byte \<Rightarrow> ntp_move" where
  "demo_proxy part = (\<lambda>(s, r). (s, demo_ctl_ring part 1))"

definition demo_refusal :: ntp_move where
  "demo_refusal = (\<lambda>(s, r). (s, (demo_ctl_ring 0 1)\<lparr>sc_handle := Live \<lparr>mr_fd = - 1, mr_MASK = 1, mr_addrlen = 1, mr_addr = [CHR 0x00],
     mr_shm = \<lparr>mb_buf = [cm_blank, cm_blank], mb_write = 1, mb_read = 0\<rparr>, mr_max = 2\<rparr>\<rparr>))"

definition demo_ntm_os :: "ntp_move \<Rightarrow> ntm_os" where
  "demo_ntm_os e = \<lparr>os_tcp = 24, os_conn = Some 1, os_env = [e], os_intr = (False, False), os_out = cm_blank, os_inc = cm_blank,
     os_resp = nts_blank\<rparr>"

definition demo_conn :: nts_shm_conn where
  "demo_conn = zero_conn\<lparr>nx_sockid := 1, nx_socket := Some 0, nx_running := True, nx_port := 3,
     nx_shm_ctx := Live \<lparr>sc_stat = SHM_READY, sc_handle = Live demo_nts, sc_addr = Null, sc_addrlen = 0\<rparr>\<rparr>"

definition demo_socks :: "u32 \<Rightarrow> u32 \<Rightarrow> nt_sock_context" where
  "demo_socks type state = \<lparr>ntsock = [zero_socket\<lparr>sockid := 1, socktype := type, sk_state := state\<rparr>,
     zero_socket\<lparr>sockid := 2, socktype := NT_SOCK_UNUSED\<rparr>, zero_socket\<lparr>sockid := 3, socktype := NT_SOCK_UNUSED\<rparr>], free_ntsock = tailq_insert_tail (tailq_insert_tail tailq_init 1) 2\<rparr>"

definition demo_ports :: nt_port_context where
  "demo_ports = \<lparr>ntport = [\<lparr>port_id = 0, np_status = NT_PORT_UNUSED\<rparr>, \<lparr>port_id = 1, np_status = NT_PORT_UNUSED\<rparr>,
     \<lparr>port_id = 2, np_status = NT_PORT_UNUSED\<rparr>, \<lparr>port_id = 3, np_status = NT_PORT_USED\<rparr>], num_ports = 4,
     free_ntport = tailq_insert_tail (tailq_insert_tail (tailq_insert_tail tailq_init 0) 1) 2\<rparr>"

definition demo_wrap :: "unit nt_backlog_context \<Rightarrow> nt_listener_wrapper" where
  "demo_wrap b = \<lparr>lw_listener = \<lparr>nl_sockid = 1, nl_socket = 0, nl_backlog = 4\<rparr>, lw_port = 3, lw_addrlen = 0, lw_ip = [],
     lw_backlog_ctx = Live b, lw_accepted = createHashMap, lw_conn = 0\<rparr>"

definition demo_manager :: "nt_sock_context \<Rightarrow> (key, nat) hashMap \<Rightarrow> (key, nat) hashMap \<Rightarrow> (key, nat) hashMap \<Rightarrow>
    nt_listener_wrapper option \<Rightarrow> ntm_manager" where
  "demo_manager sc pm cm lm w = \<lparr>mg_socks = sc, mg_ports = demo_ports, port_sock_map = pm, nts_shm_conn_map = cm, listener_map = lm,
     conn_map = createHashMap, epoll_ctx_map = createHashMap, mg_conns = [0 \<mapsto> demo_conn],
     mg_wraps = (\<lambda>l. if l = 0 then w else None),
     mg_remotes = [0 \<mapsto> \<lparr>rc_ip = [], rc_addrlen = 0, rc_port = 9090, rc_running = True, rc_sock = Live 5\<rparr>],
     mg_epolls = Map.empty, mg_ntp_send = demo_ctl_ring 0 0, mg_ntp_recv = demo_ctl_ring 0 0,
     mg_ep_send = demo_sem_ctx, mg_ep_recv = demo_sem_ctx, mg_sent = []\<rparr>"

definition demo_syn :: ntm_sock_msg where
  "demo_syn = zero_sock_msg\<lparr>sm_type := NT_SYN, sm_src_addr := 7, sm_dst_addr := 8, sm_sport := swap16 1, sm_dport := swap16 3\<rparr>"

lemmas demo_ask_simps = ask_ntp_def ntp_send_wait.simps ntp_recv_wait.simps ntm_ntp_shm_send_def ntp_ntm_shm_recv_def demo_ctl_ring_def
  live_ring_def ntm_ntp_shmring_push_def msg_ring_push_def mask_increment_def ntm_ntp_msgcopy_def ntp_ntm_shmring_pop_def
  msg_ring_pop_def ring_empty_def ntp_ntm_msgcopy_def ntp_moves_def cm_blank_def Let_def

lemma demo_ask:
  assumes "mg_ntp_send m = demo_ctl_ring 0 0" "mg_ntp_recv m = demo_ctl_ring 0 0"
  shows "\<exists>mp. ask_ntp [demo_proxy part] cm_blank cm_blank m msg p = Ret (cm_blank\<lparr>cm_msg_type := 1, cm_partition_id := part\<rparr>, mp)"
    "\<exists>mp. ask_ntp [demo_refusal] cm_blank cm_blank m msg p = Ret (cm_blank, mp)"
  using assms by (simp_all add: demo_ask_simps demo_proxy_def demo_refusal_def)

lemma id_lookup_create [simp]: "id_lookup createHashMap j = None" "ids_ok createHashMap"
  by (simp_all add: id_lookup_def hm_inv_create)

lemma demo_map:
  assumes "unat k < 2 ^ 24"
  obtains m where "map_put createHashMap k v = Ret m" "ids_ok m" "\<forall>j. id_lookup m j = (if id_str j = id_str k then Some v else None)"
  by (rule map_put_id [OF id_lookup_create(2) assms id_lookup_create(1), of v]) (simp add: that del: le_enc.simps)

lemma demo_socks_ok:
  "sock_inv (demo_socks NT_SOCK_LISTENER st) [1, 2]" "length (ntsock (demo_socks t st)) = 3"
  using tq_rep_insert [OF tq_rep_insert [OF tq_rep_init, of 1], of 2]
  by (auto simp: sock_inv_def sock_unused_def demo_socks_def zero_socket_def less_Suc_eq)

lemma demo_ports_ok:
  "port_inv demo_ports [0, 1, 2]" "length (ntport demo_ports) = 4"
  using tq_rep_insert [OF tq_rep_insert [OF tq_rep_insert [OF tq_rep_init, of 0], of 1], of 2]
  by (auto simp: port_inv_def port_used_def demo_ports_def less_Suc_eq)

lemma demo_port_used: "q < 4 \<Longrightarrow> port_used demo_ports q \<longleftrightarrow> q = 3"
proof -
  assume "q < 4"
  then have "q = 0 \<or> q = 1 \<or> q = 2 \<or> q = 3" by arith
  then show ?thesis by (auto simp: port_used_def demo_ports_def)
qed

lemma demo_backlog_ok: "\<exists>b :: unit nt_backlog_context. backlog_ok b \<and> backlog_waiting b = [] \<and> backlog_room b = 3"
proof -
  from demo_backlog [of 4 4] obtain b cs where "backlog_ntm True True [CHR 0x00] (demo_spsc_os 4) () ''b-3'' 3 4 = Ret (Some b, cs)" by auto
  then have "backlog_ntm True True [CHR 0x00] (demo_spsc_os 4) () ''b-3'' 3 (2 ^ 2) = Ret (Some b, cs)" by simp
  moreover have "so_mmap (demo_spsc_os 4) = Some \<lparr>sp_read = 7, sp_write = 9, sp_data = replicate (4 * 24) 0\<rparr>"
    by (simp only: demo_spsc_os_def spsc_os.select_convs)
  moreover have "length (sp_data \<lparr>sp_read = 7, sp_write = 9, sp_data = replicate (4 * 24) 0\<rparr>) = 2 ^ 2 * 24" by simp
  ultimately have "backlog_ok b" "backlog_waiting b = []" "backlog_room b = 2 ^ 2 - 1"
    using backlog_ntm_pow2 [of _ _ _ _ _ 2 b cs] by force+
  then show ?thesis by auto
qed

abbreviation demo_server :: "(key, nat) hashMap \<Rightarrow> unit nt_backlog_context \<Rightarrow> ntm_manager" where
  "demo_server lm b \<equiv> demo_manager (demo_socks NT_SOCK_LISTENER LISTENING) createHashMap createHashMap lm (Some (demo_wrap b))"

lemma demo_key: "port_key (sm_dport demo_syn) = 3" "port_key (sm_sport demo_syn) = 1"
  by (simp_all add: port_key_def demo_syn_def swap16_def ntohs_def)

lemma demo_tcp: "tcp_up (demo_manager sc pm cm lm w) 0 5"
  by (simp add: tcp_up_def demo_manager_def)

lemma demo_app: "app_ready (demo_manager sc pm cm lm w) 0" "inbox (demo_manager sc pm cm lm w) 0 = []"
proof -
  have r: "app_ring (demo_manager sc pm cm lm w) 0 = Some demo_nts" by (simp add: app_ring_def demo_manager_def demo_conn_def)
  then show "inbox (demo_manager sc pm cm lm w) 0 = []"
    by (simp add: inbox_def demo_nts_def msg_ring_contents_def ring_list_def ring_count_def)
  with r show "app_ready (demo_manager sc pm cm lm w) 0" using demo_nts_ok by (simp add: app_ready_def demo_nts_def)
qed

lemma demo_server_ready:
  obtains lm b where "map_put createHashMap 3 0 = Ret lm" "can_accept (demo_server lm b) 3 0 1"
    "listeners_ok (demo_server lm b)" "syn_verdict (demo_server lm b) 1 = Some NT_LISTENER_NOT_FOUND"
proof -
  obtain lm where lm: "map_put createHashMap 3 0 = Ret lm" "ids_ok lm" "\<forall>j. id_lookup lm j = (if id_str j = id_str 3 then Some 0 else None)"
    by (rule demo_map [of 3]) simp_all
  obtain b :: "unit nt_backlog_context" where b: "backlog_ok b" "backlog_waiting b = []" "backlog_room b = 3" using demo_backlog_ok by blast
  have l: "listeners_ok (demo_server lm b)"
    using lm b demo_socks_ok(2) by (auto simp: listeners_ok_def demo_manager_def demo_wrap_def simp del: le_enc.simps split: if_splits)
  have s0: "ntsock (demo_socks NT_SOCK_LISTENER LISTENING) ! 0 = zero_socket\<lparr>sockid := 1, socktype := NT_SOCK_LISTENER, sk_state := LISTENING\<rparr>"
    by (simp add: demo_socks_def)
  have slots: "free_slots (demo_server lm b) 1"
  proof -
    have "\<exists>xs. sock_inv (demo_socks NT_SOCK_LISTENER LISTENING) (1 # xs)" using demo_socks_ok(1) by blast
    moreover have "\<exists>ps. port_inv demo_ports ps" using demo_ports_ok(1) by blast
    moreover have "\<exists>q < 4. \<not> port_used demo_ports q" using demo_port_used [of 0] by (intro exI [of _ 0]) simp
    ultimately show ?thesis
      using demo_socks_ok(2) demo_ports_ok(2) unfolding free_slots_def by (auto simp: demo_manager_def)
  qed
  have entries: "free_entries (demo_server lm b) (demo_wrap b) 1"
    by (simp add: free_entries_def demo_manager_def demo_wrap_def)
  have v: "syn_verdict (demo_server lm b) 3 = None"
    using lm b s0 by (simp add: syn_verdict_def demo_manager_def listener_sock_def demo_wrap_def del: le_enc.simps)
  have "id_str 1 \<noteq> id_str 3" by (simp add: le_enc_4 cstr_def del: le_enc.simps)
  then have v1: "syn_verdict (demo_server lm b) 1 = Some NT_LISTENER_NOT_FOUND"
    using lm by (simp add: syn_verdict_def demo_manager_def del: le_enc.simps)
  have "can_accept (demo_server lm b) 3 0 1"
    unfolding can_accept_def using l slots entries v lm s0
    by (simp add: demo_manager_def demo_wrap_def demo_conn_def zero_conn_def listener_sock_def zero_socket_def del: le_enc.simps)
  with that lm(1) l v1 show ?thesis by blast
qed

lemma demo_manager_chans [simp]:
  "mg_ntp_send (demo_manager sc pm cm lm w) = demo_ctl_ring 0 0" "mg_ntp_recv (demo_manager sc pm cm lm w) = demo_ctl_ring 0 0"
  "mg_socks (demo_manager sc pm cm lm w) = sc" "port_sock_map (demo_manager sc pm cm lm w) = pm"
  "nts_shm_conn_map (demo_manager sc pm cm lm w) = cm" "mg_conns (demo_manager sc pm cm lm w) 0 = Some demo_conn"
  by (simp_all add: demo_manager_def)

lemma demo_server_fields:
  "mg_conns (demo_server lm b) 1 = None" "mg_sent (demo_manager sc pm cm lm w) = []" "mg_wraps (demo_server lm b) 0 = Some (demo_wrap b)"
  "lw_conn (demo_wrap b) = 0"
  by (simp_all add: demo_manager_def demo_wrap_def)

lemma demo_ntm_os_fields [simp]:
  "os_conn (demo_ntm_os e) = Some 1" "os_env (demo_ntm_os e) = [e]" "os_out (demo_ntm_os e) = cm_blank" "os_inc (demo_ntm_os e) = cm_blank"
  "os_resp (demo_ntm_os e) = nts_blank" "os_tcp (demo_ntm_os e) = 24"
  by (simp_all add: demo_ntm_os_def)

theorem syn_refused_witness:
  "\<exists>lm b. map_put createHashMap 3 0 = Ret lm \<and>
     handle_nt_syn_msg (demo_ntm_os demo_refusal) (demo_server lm b) 0 (demo_syn\<lparr>sm_dport := swap16 1\<rparr>) =
     Ret ((demo_server lm b)\<lparr>mg_sent := [(5, (reply_to (demo_syn\<lparr>sm_dport := swap16 1\<rparr>))\<lparr>sm_type := NT_LISTENER_NOT_FOUND\<rparr>)]\<rparr>)"
proof -
  obtain lm b where m: "map_put createHashMap 3 0 = Ret lm" "listeners_ok (demo_server lm b)"
    "syn_verdict (demo_server lm b) 1 = Some NT_LISTENER_NOT_FOUND" by (rule demo_server_ready)
  have "port_key (sm_dport (demo_syn\<lparr>sm_dport := swap16 1\<rparr>)) = 1" by (simp add: port_key_def swap16_def ntohs_def)
  with syn_refused [OF m(2) demo_tcp, of "demo_syn\<lparr>sm_dport := swap16 1\<rparr>" NT_LISTENER_NOT_FOUND "demo_ntm_os demo_refusal"] m(1,3)
  show ?thesis by (auto simp: demo_server_fields(2))
qed

text \<open>The hypotheses of the theorems about the server.\<close>

lemma demo_server_asked:
  obtains lm b mp mq where "map_put createHashMap 3 0 = Ret lm" "can_accept (demo_server lm b) (port_key (sm_dport demo_syn)) 0 1"
    "ask_ntp (os_env (demo_ntm_os (demo_proxy 2))) (os_out (demo_ntm_os (demo_proxy 2))) (os_inc (demo_ntm_os (demo_proxy 2)))
       (demo_server lm b) demo_syn (- 1) = Ret (cm_blank\<lparr>cm_msg_type := 1, cm_partition_id := 2\<rparr>, mp)"
    "ask_ntp (os_env (demo_ntm_os demo_refusal)) (os_out (demo_ntm_os demo_refusal)) (os_inc (demo_ntm_os demo_refusal))
       (demo_server lm b) demo_syn (- 1) = Ret (cm_blank, mq)"
proof -
  obtain lm b where m: "map_put createHashMap 3 0 = Ret lm" "can_accept (demo_server lm b) 3 0 1" by (rule demo_server_ready)
  from demo_ask(1) [of "demo_server lm b" 2 demo_syn "- 1"] obtain mp where
    "ask_ntp [demo_proxy 2] cm_blank cm_blank (demo_server lm b) demo_syn (- 1) =
       Ret (cm_blank\<lparr>cm_msg_type := 1, cm_partition_id := 2\<rparr>, mp)" by auto
  moreover from demo_ask(2) [of "demo_server lm b" demo_syn "- 1"] obtain mq where
    "ask_ntp [demo_refusal] cm_blank cm_blank (demo_server lm b) demo_syn (- 1) = Ret (cm_blank, mq)" by auto
  ultimately show ?thesis using that [of lm b mp mq] m demo_key(1) by simp
qed


theorem syn_proxy_refusal_witness:
  "\<exists>lm b. map_put createHashMap 3 0 = Ret lm \<and>
     handle_nt_syn_msg (demo_ntm_os demo_refusal) (demo_server lm b) 0 demo_syn = Undef"
proof -
  obtain lm b mq where m: "map_put createHashMap 3 0 = Ret lm" "can_accept (demo_server lm b) (port_key (sm_dport demo_syn)) 0 1"
    and ask: "ask_ntp (os_env (demo_ntm_os demo_refusal)) (os_out (demo_ntm_os demo_refusal)) (os_inc (demo_ntm_os demo_refusal))
       (demo_server lm b) demo_syn (- 1) = Ret (cm_blank, mq)" by (rule demo_server_asked)
  from syn_proxy_refusal [OF m(2) ask, of 0] m(1) show ?thesis by (auto simp: cm_blank_def)
qed

theorem accepted_fin_lost_witness:
  "\<exists>lm b m'. map_put createHashMap 3 0 = Ret lm \<and>
     handle_nt_syn_msg (demo_ntm_os (demo_proxy 2)) (demo_server lm b) 0 demo_syn = Ret m' \<and>
     handle_nt_fin_ack_msg (demo_ntm_os demo_refusal) m' 0 (demo_syn\<lparr>sm_type := NT_FIN_ACK\<rparr>) = Ret m' \<and>
     id_lookup (nts_shm_conn_map m') 2 = Some 1"
proof -
  obtain lm b mp where m: "map_put createHashMap 3 0 = Ret lm" "can_accept (demo_server lm b) (port_key (sm_dport demo_syn)) 0 1"
    and ask: "ask_ntp (os_env (demo_ntm_os (demo_proxy 2))) (os_out (demo_ntm_os (demo_proxy 2))) (os_inc (demo_ntm_os (demo_proxy 2)))
       (demo_server lm b) demo_syn (- 1) = Ret (cm_blank\<lparr>cm_msg_type := 1, cm_partition_id := 2\<rparr>, mp)" by (rule demo_server_asked)
  have "id_str (of_nat q) \<noteq> id_str 3" if "q < 4" "\<not> port_used demo_ports q" for q
  proof -
    from that demo_port_used [of q] have "q = 0 \<or> q = 1 \<or> q = 2" by auto
    then show ?thesis by (auto simp: le_enc_4 cstr_def simp del: le_enc.simps)
  qed
  then have free: "\<forall>q < length (ntport (mg_ports (demo_server lm b))). \<not> port_used (mg_ports (demo_server lm b)) q \<longrightarrow>
      id_str (of_nat q) \<noteq> id_str (port_key (sm_dport demo_syn))"
    using demo_ports_ok(2) by (simp add: demo_manager_def demo_key del: le_enc.simps)
  have none: "id_lookup (port_sock_map (demo_server lm b)) (port_key (sm_dport demo_syn)) = None" by (simp add: demo_manager_def)
  from accepted_fin_lost [OF m(2) demo_tcp demo_ntm_os_fields(1) demo_server_fields(1) ask _ none free,
      of "demo_syn\<lparr>sm_type := NT_FIN_ACK\<rparr>" "demo_ntm_os demo_refusal"] obtain m' where
    "handle_nt_syn_msg (demo_ntm_os (demo_proxy 2)) (demo_server lm b) 0 demo_syn = Ret m'"
    "handle_nt_fin_ack_msg (demo_ntm_os demo_refusal) m' 0 (demo_syn\<lparr>sm_type := NT_FIN_ACK\<rparr>) = Ret m'"
    "id_lookup (nts_shm_conn_map m') 2 = Some 1" by auto
  with m(1) show ?thesis by blast
qed

text \<open>The client: its socket 0 with the number 1 has port 1 and the connection 0.\<close>

abbreviation demo_client_ntm :: "(key, nat) hashMap \<Rightarrow> (key, nat) hashMap \<Rightarrow> ntm_manager" where
  "demo_client_ntm pm cm \<equiv> demo_manager (demo_socks NT_SOCK_PIPE CLOSED) pm cm createHashMap None"

lemma demo_client_requests:
  obtains pm where "map_put createHashMap 1 0 = Ret pm" "requesting (demo_client_ntm pm pm) 1 0 0"
proof -
  obtain pm where pm: "map_put createHashMap 1 0 = Ret pm" "ids_ok pm" "\<forall>j. id_lookup pm j = (if id_str j = id_str 1 then Some 0 else None)"
    by (rule demo_map [of 1]) simp_all
  have "sockid (ntsock (demo_socks NT_SOCK_PIPE CLOSED) ! 0) = 1" by (simp add: demo_socks_def)
  with pm demo_app(1) have "requesting (demo_client_ntm pm pm) 1 0 0"
    unfolding requesting_def by (simp add: demo_socks_ok(2) del: le_enc.simps)
  with that pm(1) show ?thesis by blast
qed

theorem handshake_completes_witness:
  "\<exists>lm b pm ms1 sa mc1 ca ms2. map_put createHashMap 3 0 = Ret lm \<and> map_put createHashMap 1 0 = Ret pm \<and>
     handle_nt_syn_msg (demo_ntm_os (demo_proxy 2)) (demo_server lm b) 0 demo_syn = Ret ms1 \<and> mg_sent ms1 = [(5, sa)] \<and>
     handle_nt_syn_ack_msg (demo_ntm_os (demo_proxy 2)) (demo_client_ntm pm pm) 0 sa = Ret mc1 \<and> mg_sent mc1 = [(5, ca)] \<and>
     handle_nt_client_syn_ack_msg (demo_ntm_os demo_refusal) ms1 0 ca = Ret (0, ms2) \<and>
     sk_state (ntsock (mg_socks ms2) ! 1) = ESTABLISHED \<and> sk_state (ntsock (mg_socks mc1) ! 0) = ESTABLISHED"
proof -
  obtain lm b mp where m: "map_put createHashMap 3 0 = Ret lm" "can_accept (demo_server lm b) (port_key (sm_dport demo_syn)) 0 1"
    and ask: "ask_ntp (os_env (demo_ntm_os (demo_proxy 2))) (os_out (demo_ntm_os (demo_proxy 2))) (os_inc (demo_ntm_os (demo_proxy 2)))
       (demo_server lm b) demo_syn (- 1) = Ret (cm_blank\<lparr>cm_msg_type := 1, cm_partition_id := 2\<rparr>, mp)" by (rule demo_server_asked)
  obtain pm where c: "map_put createHashMap 1 0 = Ret pm" "requesting (demo_client_ntm pm pm) 1 0 0" by (rule demo_client_requests)
  let ?g = "cm_blank\<lparr>cm_msg_type := 1, cm_partition_id := 2\<rparr> :: ntp_ntm_msg"
  from demo_ask(1) [of "demo_client_ntm pm pm" 2 "syn_ack demo_syn 1 2" 2] obtain mq where
    ask': "ask_ntp (os_env (demo_ntm_os (demo_proxy 2))) (os_out (demo_ntm_os (demo_proxy 2))) (os_inc (demo_ntm_os (demo_proxy 2)))
       (demo_client_ntm pm pm) (syn_ack demo_syn 1 (cm_partition_id ?g)) (cm_partition_id ?g) = Ret (?g, mq)" by auto
  have shape: "nts_shape (os_resp (demo_ntm_os e))" for e by simp
  have app: "app_ready (demo_server lm b) (lw_conn (demo_wrap b))" using demo_app(1) by (simp add: demo_server_fields)
  have req: "requesting (demo_client_ntm pm pm) (port_key (sm_sport demo_syn)) 0 0" using c(2) demo_key by simp
  have one: "cm_msg_type ?g = 1" by simp
  from handshake_completes [OF m(2) demo_tcp demo_ntm_os_fields(1) demo_server_fields(1) ask one demo_server_fields(3) app
      shape [of demo_refusal] req demo_tcp shape ask' one] m(1) c(1)
  show ?thesis unfolding demo_server_fields(2) append_Nil by blast
qed

theorem stop_frees_twice_witness:
  "ntm_sock_recv_thread [Got (demo_ntm_os demo_refusal) (demo_syn\<lparr>sm_type := STOP\<rparr>)] (demo_client_ntm createHashMap createHashMap) 0 = Undef"
  by (rule stop_frees_twice [OF demo_tcp]) simp_all

definition demo_req_os :: req_os where
  "demo_req_os = \<lparr>ro_conn = None, ro_shm = True, ro_shm_name = True, ro_shm_os = demo_nts_os, ro_resp = nts_blank, ro_tcp = 24,
     ro_sock_ok = True, ro_connect = 0, ro_fd = 6, ro_remote = None, ro_wrap = None, ro_tail = [], ro_backlog_ok = True,
     ro_backlog_os = demo_spsc_os 4, ro_inet_addr = (\<lambda>_. 0)\<rparr>"

definition demo_connect :: ntm_msg where
  "demo_connect = \<lparr>nm_msg_id = 1, nm_msg_type = push_bit NTM_MSG_CONNECT 1, nm_sockid = 1, nm_howto = 0, nm_backlog = 0,
     nm_req_client_sockaddr = 0, nm_domain = 0, nm_sock_type = 0, nm_io_queue_size = 0, nm_protocol = 0, nm_nts_shm_addrlen = 0,
     nm_addrlen = 9, nm_port = - 1, nm_epid = 0, nm_epoll_op = 0, nm_events = 0, nm_ep_data = 0, nm_address = replicate 16 0,
     nm_nts_shm_name = replicate 64 0\<rparr>"

theorem connect_crash_witness:
  "\<exists>pm. map_put createHashMap 1 0 = Ret pm \<and>
     nts_shm_handle_msg (\<lambda>m _. Ret m) \<lparr>max_concurrency = 8, max_port = 4, nt_max_conn_num = 4, listen_ip = [49, 0]\<rparr>
       demo_req_os (demo_client_ntm pm pm) demo_connect = Undef"
proof -
  obtain pm where pm: "map_put createHashMap 1 0 = Ret pm" "requesting (demo_client_ntm pm pm) 1 0 0" by (rule demo_client_requests)
  have s0: "ntsock (demo_socks NT_SOCK_PIPE CLOSED) ! 0 = zero_socket\<lparr>sockid := 1, socktype := NT_SOCK_PIPE, sk_state := CLOSED\<rparr>"
    by (simp add: demo_socks_def)
  have "nts_shm_handle_msg (\<lambda>m _. Ret m) \<lparr>max_concurrency = 8, max_port = 4, nt_max_conn_num = 4, listen_ip = [49, 0]\<rparr>
       demo_req_os (demo_client_ntm pm pm) demo_connect = Undef"
    by (rule connect_crash)
      (use pm(2) demo_app(1) s0 in \<open>simp_all add: requesting_def demo_connect_def demo_req_os_def demo_conn_def demo_socks_ok(2)\<close>)
  with pm(1) show ?thesis by blast
qed

end
