(* ===== verification/Nt_Config.thy ===== *)
theory Nt_Config
  imports Ntm_Requests
begin

text \<open>
  The configuration files of the three programs: \<^verbatim>\<open>monitor/src/config.c\<close>,
  \<^verbatim>\<open>ntb-proxy/src/config.c\<close> and \<^verbatim>\<open>libnts/src/nts_config.c\<close>. The three files hold the same reader of
  lines \<open>key = value\<close> and differ in the keys. The reader is one group of definitions here, which
  takes the assignment of a key as an argument; each program has its own record and assignment.
  A file is the string of its characters; the line buffer is an array whose cells beyond the
  terminator keep what was there before.
\<close>

section \<open>Functions of the C library\<close>

text \<open>The characters of a buffer before its terminator.\<close>

definition chars_of :: "string \<Rightarrow> string" where
  "chars_of buf = takeWhile (\<lambda>c. c \<noteq> CHR 0x00) buf"

definition c_strlen :: "string \<Rightarrow> nat" where
  "c_strlen buf = length (chars_of buf)"

text \<open>
  \<^verbatim>\<open>fgets(buf, n, file)\<close>: at most \<open>n - 1\<close> characters, up to and with the first newline; nothing at
  the end of the file.
\<close>

fun fgets_take :: "nat \<Rightarrow> string \<Rightarrow> string \<times> string" where
  "fgets_take 0 cs = ([], cs)"
| "fgets_take (Suc n) [] = ([], [])"
| "fgets_take (Suc n) (c # cs) =
     (if c = CHR 0x0A then ([c], cs)
      else (let (line, rest) = fgets_take n cs in (c # line, rest)))"

definition c_fgets :: "string \<Rightarrow> nat \<Rightarrow> string \<Rightarrow> (string \<times> string) option" where
  "c_fgets buf n inp =
     (if inp = [] then None
      else (let (line, rest) = fgets_take (n - 1) inp
            in Some (line @ CHR 0x00 # drop (Suc (length line)) buf, rest)))"

text \<open>\<^verbatim>\<open>strstr(buf, pat) != NULL\<close>.\<close>

fun str_occurs :: "string \<Rightarrow> string \<Rightarrow> bool" where
  "str_occurs pat [] = (pat = [])"
| "str_occurs pat (c # cs) = (take (length pat) (c # cs) = pat \<or> str_occurs pat cs)"

definition c_strstr :: "string \<Rightarrow> string \<Rightarrow> bool" where
  "c_strstr buf pat = str_occurs pat (chars_of buf)"

text \<open>
  \<^verbatim>\<open>strcmp(buf, lit) == 0\<close> for an array longer than the literal: the comparison stops at the first
  difference, so it never leaves the array.
\<close>

definition str_is :: "string \<Rightarrow> string \<Rightarrow> bool" where
  "str_is buf lit = (take (Suc (length lit)) buf = lit @ [CHR 0x00])"

definition c_isspace :: "char \<Rightarrow> bool" where
  "c_isspace c = (c \<in> {CHR '' '', CHR 0x09, CHR 0x0A, CHR 0x0B, CHR 0x0C, CHR 0x0D})"

definition c_isdigit :: "char \<Rightarrow> bool" where
  "c_isdigit c = (48 \<le> (of_char c :: nat) \<and> (of_char c :: nat) \<le> 57)"

definition digit_val :: "char \<Rightarrow> nat" where
  "digit_val c = of_char c - 48"

text \<open>The optional sign of a number: its factor and what follows.\<close>

definition c_sign :: "string \<Rightarrow> int \<times> string" where
  "c_sign cs =
     (case cs of
        [] \<Rightarrow> (1, [])
      | c # r \<Rightarrow> if c = CHR ''-'' then (- 1, r) else if c = CHR ''+'' then (1, r) else (1, cs))"

text \<open>
  \<^verbatim>\<open>atoi\<close>: blanks, a sign, digits; undefined when the number is no \<^verbatim>\<open>int\<close>, and when no character
  of the array ends the digits.
\<close>

definition c_atoi :: "string \<Rightarrow> int outcome" where
  "c_atoi buf =
     (let (s, cs) = c_sign (dropWhile c_isspace buf);
          ds = takeWhile c_isdigit cs;
          n = s * int (foldl (\<lambda>a d. 10 * a + digit_val d) 0 ds)
      in if length ds = length cs then Undef
         else if - (2 ^ 31) \<le> n \<and> n < 2 ^ 31 then Ret n
         else Undef)"

text \<open>
  \<^verbatim>\<open>strtoull\<close> and \<^verbatim>\<open>strtoll\<close> to the base 16: blanks, a sign, \<^verbatim>\<open>0x\<close> when a hexadecimal digit follows
  it, hexadecimal digits; a number that does not fit saturates.
\<close>

definition hex_val :: "char \<Rightarrow> nat option" where
  "hex_val c =
     (let n = of_char c
      in if 48 \<le> n \<and> n \<le> 57 then Some (n - 48)
         else if 97 \<le> n \<and> n \<le> 102 then Some (n - 87)
         else if 65 \<le> n \<and> n \<le> 70 then Some (n - 55)
         else None)"

definition skip_0x :: "string \<Rightarrow> string" where
  "skip_0x cs =
     (case cs of
        z # x # d # r \<Rightarrow>
          if z = CHR ''0'' \<and> x \<in> {CHR ''x'', CHR ''X''} \<and> hex_val d \<noteq> None then d # r else cs
      | _ \<Rightarrow> cs)"

definition hex_number :: "string \<Rightarrow> (int \<times> nat) outcome" where
  "hex_number buf =
     (let (s, cs) = c_sign (dropWhile c_isspace buf);
          hs = skip_0x cs;
          ds = takeWhile (\<lambda>c. hex_val c \<noteq> None) hs
      in if length ds = length hs then Undef
         else Ret (s, foldl (\<lambda>a d. 16 * a + the (hex_val d)) 0 ds))"

definition c_strtoull16 :: "string \<Rightarrow> u64 outcome" where
  "c_strtoull16 buf =
     bind_out (hex_number buf) (\<lambda>(s, n).
       Ret (if n < 2 ^ 64 then of_int (s * int n) else - 1))"

definition c_strtoll16 :: "string \<Rightarrow> int outcome" where
  "c_strtoll16 buf =
     bind_out (hex_number buf) (\<lambda>(s, n).
       Ret (min (2 ^ 63 - 1) (max (- (2 ^ 63)) (s * int n))))"

section \<open>The reader of lines\<close>

abbreviation MAX_BUF_LEN :: nat where "MAX_BUF_LEN \<equiv> 1024"
abbreviation MAX_KEY_LEN :: nat where "MAX_KEY_LEN \<equiv> 64"
abbreviation MAX_VAL_LEN :: nat where "MAX_VAL_LEN \<equiv> 256"

definition conf_blank :: "char \<Rightarrow> bool" where
  "conf_blank c = (c = CHR '' '' \<or> c = CHR 0x09 \<or> c = CHR 0x0A)"

text \<open>
  \<^verbatim>\<open>trim\<close>: from the end of the string, the cell after each blank is cleared. The second component
  is the result \<open>n\<close>, the index of the last character that is not blank.
\<close>

fun trim_from :: "string \<Rightarrow> nat \<Rightarrow> string \<times> int" where
  "trim_from s 0 = (s, - 1)"
| "trim_from s (Suc n) =
     (if \<not> conf_blank (s ! n) then (s, int n) else trim_from (s[Suc n := CHR 0x00]) n)"

definition trim :: "string \<Rightarrow> string \<times> int" where
  "trim s = trim_from s (c_strlen s)"

text \<open>
  The loop over the characters of a line: spaces are skipped, the characters before the first
  \<open>=\<close> go into the key and the ones after it into the value, up to a \<open>#\<close> or a full array.
\<close>

fun scan_param ::
  "string \<Rightarrow> bool \<Rightarrow> string \<Rightarrow> nat \<Rightarrow> string \<Rightarrow> nat \<Rightarrow> string \<times> string \<times> nat" where
  "scan_param [] kv k klen v vlen = (k, v, vlen)"
| "scan_param (c # cs) kv k klen v vlen =
     (if c = CHR '' '' then scan_param cs kv k klen v vlen
      else if \<not> kv \<and> c \<noteq> CHR ''='' then
        if klen \<ge> MAX_KEY_LEN then (k, v, vlen)
        else scan_param cs kv (k[klen := c]) (Suc klen) v vlen
      else if c = CHR ''='' then scan_param cs True k klen v vlen
      else if vlen \<ge> MAX_VAL_LEN \<or> c = CHR ''#'' then (k, v, vlen)
      else scan_param cs kv k klen (v[vlen := c]) (Suc vlen))"

text \<open>
  The body of the loop up to the assignment: the buffer after the line, whether a comment is open,
  and the key, the value and the length of the value, when the line assigns.
\<close>

definition conf_line :: "string \<Rightarrow> bool \<Rightarrow> string \<times> bool \<times> (string \<times> string \<times> nat) option" where
  "conf_line buf0 comment =
     (let buf = fst (trim buf0);
          plain = (buf ! 0 \<noteq> CHR ''#'' \<and> (buf ! 0 \<noteq> CHR ''/'' \<or> buf ! 1 \<noteq> CHR ''/''));
          buf_len = c_strlen buf
      in if plain \<and> c_strstr buf ''/*'' then (buf, True, None)
         else if plain \<and> c_strstr buf ''*/'' then (buf, False, None)
         else if comment then (buf, comment, None)
         else if buf_len \<le> 1 \<or> buf ! 0 = CHR ''#'' \<or> buf ! 0 = CHR ''='' \<or> buf ! 0 = CHR ''/''
         then (buf, comment, None)
         else let buf = buf[buf_len - 1 := CHR 0x00];
                  (k, v, vlen) = scan_param (take buf_len buf) False
                    (replicate MAX_KEY_LEN (CHR 0x00)) 0 (replicate MAX_VAL_LEN (CHR 0x00)) 0
              in (buf, comment,
                  if str_is k [] \<or> str_is v [] then None else Some (k, v, vlen)))"

text \<open>
  The loop of \<^verbatim>\<open>load_conf\<close>. The assignment \<open>put\<close> gives the new configuration, and a value when it
  ends the loop.
\<close>

type_synonym 'c setter = "string \<Rightarrow> string \<Rightarrow> nat \<Rightarrow> 'c \<Rightarrow> ('c \<times> int option) outcome"

lemma fgets_take_rest: "length (snd (fgets_take n inp)) \<le> length inp"
  by (induction n inp rule: fgets_take.induct) (auto simp: Let_def split: prod.splits)

lemma c_fgets_shorter:
  assumes "c_fgets buf n inp = Some (buf', rest)" "1 < n"
  shows "length rest < length inp"
proof -
  obtain m c cs where nm: "n = Suc (Suc m)" and f: "inp = c # cs"
    using assms by (cases inp; cases n; cases "n - 1") (auto simp: c_fgets_def)
  have "length (snd (fgets_take (Suc m) (c # cs))) < length (c # cs)"
    using fgets_take_rest [of m cs] by (auto simp: Let_def split: prod.splits)
  then show ?thesis
    using assms by (auto simp: c_fgets_def nm f simp del: fgets_take.simps split: prod.splits)
qed

function conf_loop :: "'c setter \<Rightarrow> string \<Rightarrow> bool \<Rightarrow> string \<Rightarrow> 'c \<Rightarrow> ('c \<times> int option) outcome"
where
  "conf_loop put buf comment inp c =
     (case c_fgets buf MAX_BUF_LEN inp of
        None \<Rightarrow> Ret (c, None)
      | Some (buf1, rest) \<Rightarrow>
          (case conf_line buf1 comment of
             (buf2, comment2, None) \<Rightarrow> conf_loop put buf2 comment2 rest c
           | (buf2, comment2, Some (k, v, vlen)) \<Rightarrow>
               bind_out (put k v vlen c) (\<lambda>(c2, stop).
                 (case stop of
                    Some r \<Rightarrow> Ret (c2, Some r)
                  | None \<Rightarrow> conf_loop put buf2 comment2 rest c2))))"
  by pat_completeness auto
termination
  by (relation "measure (\<lambda>(put, buf, comment, inp, c). length inp)")
    (auto dest!: c_fgets_shorter [OF sym] c_fgets_shorter)

declare conf_loop.simps [simp del]


section \<open>The monitor\<close>

record ntm_conf =
  remote_ntm_tcp_timewait :: int
  remote_ntm_tcp_timeout :: int
  cfg_max_concurrency :: int
  cfg_max_port :: int
  cfg_max_conn_num :: int
  cfg_max_port_num :: int
  cfg_listen_port :: int
  ipaddr_len :: int
  cfg_listen_ip :: string

definition NTM_CONFIG :: ntm_conf where
  "NTM_CONFIG =
     \<lparr>remote_ntm_tcp_timewait = 0, remote_ntm_tcp_timeout = 1000,
      cfg_max_concurrency = 65536, cfg_max_port = 65536,
      cfg_max_conn_num = 65536, cfg_max_port_num = 65536,
      cfg_listen_port = 9090, ipaddr_len = 8,
      cfg_listen_ip = ''0.0.0.0'' @ replicate 25 (CHR 0x00)\<rparr>"

definition ntm_set_param :: "ntm_conf setter" where
  "ntm_set_param k v vlen c =
     (if str_is k ''listen_ip'' then
        bind_out (memcpy (cfg_listen_ip c) v vlen) (\<lambda>ip.
          Ret (c\<lparr>ipaddr_len := int vlen, cfg_listen_ip := ip\<rparr>, None))
      else if str_is k ''listen_port'' then
        bind_out (c_atoi v) (\<lambda>n. Ret (c\<lparr>cfg_listen_port := n\<rparr>, None))
      else if str_is k ''remote_ntm_tcp_timeout'' then
        bind_out (c_atoi v) (\<lambda>n. Ret (c\<lparr>remote_ntm_tcp_timeout := n\<rparr>, None))
      else if str_is k ''remote_ntm_tcp_timewait'' then
        bind_out (c_atoi v) (\<lambda>n. Ret (c\<lparr>remote_ntm_tcp_timewait := n\<rparr>, None))
      else if str_is k ''max_concurrency'' then
        bind_out (c_atoi v) (\<lambda>n. Ret (c\<lparr>cfg_max_concurrency := n\<rparr>, None))
      else if str_is k ''max_port'' then
        bind_out (c_atoi v) (\<lambda>n. Ret (c\<lparr>cfg_max_port := n\<rparr>, None))
      else Ret (c, Some 1))"

text \<open>
  \<^verbatim>\<open>load_conf\<close>, from the text of the file, or \<open>None\<close> when it does not open, and what the line buffer
  holds before: the configuration, the result, and whether the file was opened and left open.
\<close>

definition ntm_load_conf :: "string option \<Rightarrow> string \<Rightarrow> ntm_conf \<Rightarrow> (ntm_conf \<times> int \<times> bool) outcome" where
  "ntm_load_conf inp buf c =
     (case inp of
        None \<Rightarrow> Ret (c, - 1, False)
      | Some cs \<Rightarrow>
          bind_out (conf_loop ntm_set_param buf False cs c) (\<lambda>(c2, stop).
            (case stop of
               Some r \<Rightarrow> Ret (c2, r, True)
             | None \<Rightarrow> Ret (c2, 0, True))))"

section \<open>The proxy\<close>

text \<open>The fields of \<^verbatim>\<open>struct ntp_config\<close> that the transport does not use extend its record.\<close>

record ntp_conf = ntp_config +
  sublink_data_ring_size :: int
  sublink_ctrl_ring_size :: int
  nts_buff_size :: int
  ctrl_packet_size :: u16

definition NTP_CONFIG :: ntp_conf where
  "NTP_CONFIG =
     \<lparr>bulk_size = 1, num_partition = 1, ntb_packetbits_size = 7,
      data_ringbuffer_size = 0x4000000, ctrl_ringbuffer_size = 0x40000,
      data_packet_size = 0, datapacket_payload_size = 0,
      sublink_data_ring_size = 8388608, sublink_ctrl_ring_size = 262144,
      nts_buff_size = 8388608, ctrl_packet_size = 16\<rparr>"

abbreviation MAX_NUM_PARTITION :: u16 where "MAX_NUM_PARTITION \<equiv> 8"

text \<open>
  \<^verbatim>\<open>math_log2\<close>, the logarithm cut to an integer, on the values its caller has, which come from 16
  bits; the conversion of the logarithm of zero is undefined.
\<close>

fun log2_int :: "nat \<Rightarrow> int" where
  "log2_int n = (if n \<le> 1 then 0 else 1 + log2_int (n div 2))"

declare log2_int.simps [simp del]

definition math_log2 :: "int \<Rightarrow> int outcome" where
  "math_log2 value = (if value \<le> 0 then Undef else Ret (log2_int (nat value)))"

definition ntp_set_param :: "ntp_conf setter" where
  "ntp_set_param k v vlen c =
     (if str_is k ''sublink_data_ring_size'' then
        bind_out (c_atoi v) (\<lambda>n. Ret (c\<lparr>sublink_data_ring_size := n\<rparr>, None))
      else if str_is k ''sublink_ctrl_ring_size'' then
        bind_out (c_atoi v) (\<lambda>n. Ret (c\<lparr>sublink_ctrl_ring_size := n\<rparr>, None))
      else if str_is k ''nts_buff_size'' then
        bind_out (c_atoi v) (\<lambda>n. Ret (c\<lparr>nts_buff_size := n\<rparr>, None))
      else if str_is k ''bulk_size'' then
        bind_out (c_atoi v) (\<lambda>n. Ret (c\<lparr>bulk_size := n\<rparr>, None))
      else if str_is k ''num_partition'' then
        bind_out (c_atoi v) (\<lambda>n.
          let p = of_int n
          in Ret (c\<lparr>num_partition := if p \<le> MAX_NUM_PARTITION then p else MAX_NUM_PARTITION\<rparr>, None))
      else if str_is k ''ntb_packetbits_size'' then
        bind_out (c_atoi v) (\<lambda>n.
          let bits = of_int n :: u16
          in if unat bits \<ge> 31 then Undef
             else Ret (c\<lparr>ntb_packetbits_size := bits, data_packet_size := of_int (2 ^ unat bits)\<rparr>, None))
      else if str_is k ''ctrl_packet_size'' then
        bind_out (c_atoi v) (\<lambda>n. Ret (c\<lparr>ctrl_packet_size := of_int n\<rparr>, None))
      else if str_is k ''data_ringbuffer_size'' then
        bind_out (c_strtoull16 v) (\<lambda>n. Ret (c\<lparr>data_ringbuffer_size := n\<rparr>, None))
      else if str_is k ''ctrl_ringbuffer_size'' then
        bind_out (c_strtoll16 v) (\<lambda>n. Ret (c\<lparr>ctrl_ringbuffer_size := of_int n\<rparr>, None))
      else if str_is k ''data_packet_size'' then
        bind_out (c_atoi v) (\<lambda>n.
          let sz = of_int n :: u16
          in bind_out (math_log2 (uint sz)) (\<lambda>l.
               Ret (c\<lparr>data_packet_size := sz, ntb_packetbits_size := of_int l\<rparr>, None)))
      else Ret (c, None))"

definition ntp_load_conf :: "string option \<Rightarrow> string \<Rightarrow> ntp_conf \<Rightarrow> (ntp_conf \<times> int \<times> bool) outcome" where
  "ntp_load_conf inp buf c =
     (case inp of
        None \<Rightarrow> Ret (c, - 1, False)
      | Some cs \<Rightarrow>
          bind_out (conf_loop ntp_set_param buf False cs c) (\<lambda>(c2, _). Ret (c2, 0, False)))"

section \<open>The library\<close>

text \<open>
  The hosts of \<^verbatim>\<open>nt_host\<close> are structures on the heap in a tail queue. Nothing moves them in the
  queue, so it is the list of their addresses; an address whose structure was freed has none.
\<close>

record nt_host_entry =
  host_ipaddr :: string
  host_ipaddrlen :: u16

record nts_conf =
  cfg_tcp_timewait :: int
  cfg_tcp_timeout :: int
  cfg_mtu_size :: u16
  local_hostlen :: u16
  local_nt_host :: string
  max_payloadsize :: u16
  nt_host_head :: "nat list"
  nt_host_heap :: "nat \<Rightarrow> nt_host_entry option"
  nt_host_fresh :: nat

abbreviation IP_ADDRLEN :: nat where "IP_ADDRLEN \<equiv> 16"

definition NTS_CONFIG :: nts_conf where
  "NTS_CONFIG =
     \<lparr>cfg_tcp_timewait = 0, cfg_tcp_timeout = 1000, cfg_mtu_size = 1024, local_hostlen = 0,
      local_nt_host = replicate IP_ADDRLEN (CHR 0x00), max_payloadsize = 0,
      nt_host_head = [], nt_host_heap = Map.empty, nt_host_fresh = 0\<rparr>"

text \<open>\<^verbatim>\<open>strtok(s, delim)\<close>, repeated until it gives \<^verbatim>\<open>NULL\<close>: the words of the string.\<close>

function strtok_all :: "string \<Rightarrow> string \<Rightarrow> string list" where
  "strtok_all delim s =
     (let r = dropWhile (\<lambda>c. c \<in> set delim) s
      in if r = [] then []
         else takeWhile (\<lambda>c. c \<notin> set delim) r # strtok_all delim (dropWhile (\<lambda>c. c \<notin> set delim) r))"
  by pat_completeness auto
termination
proof (relation "measure (\<lambda>(delim, s). length s)", simp, clarify)
  fix delim s :: string
  let ?r = "dropWhile (\<lambda>c. c \<in> set delim) s"
  assume "?r \<noteq> []"
  then have "hd ?r \<notin> set delim"
    using hd_dropWhile [of "\<lambda>c. c \<in> set delim" s] by simp
  then have "length (dropWhile (\<lambda>c. c \<notin> set delim) ?r) < length ?r"
    using \<open>?r \<noteq> []\<close> length_dropWhile_le [of "\<lambda>c. c \<notin> set delim" "tl ?r"]
    by (cases ?r) auto
  also have "\<dots> \<le> length s"
    by (rule length_dropWhile_le)
  finally show "((delim, dropWhile (\<lambda>c. c \<notin> set delim) ?r), delim, s) \<in> measure (\<lambda>(delim, s). length s)"
    by simp
qed

declare strtok_all.simps [simp del]

text \<open>One turn of \<^verbatim>\<open>parse_nt_host\<close>; a null result of \<^verbatim>\<open>calloc\<close> is reported and then used.\<close>

fun add_nt_hosts :: "bool list \<Rightarrow> string list \<Rightarrow> nts_conf \<Rightarrow> nts_conf outcome" where
  "add_nt_hosts mem [] c = Ret c"
| "add_nt_hosts mem (w # ws) c =
     (if mem \<noteq> [] \<and> \<not> hd mem then Undef
      else bind_out (memcpy (replicate IP_ADDRLEN (CHR 0x00)) w (length w)) (\<lambda>ip.
        add_nt_hosts (tl mem) ws
          (c\<lparr>nt_host_head := nt_host_head c @ [nt_host_fresh c],
             nt_host_heap := (nt_host_heap c)(nt_host_fresh c \<mapsto>
               \<lparr>host_ipaddr = ip, host_ipaddrlen = of_nat (length w)\<rparr>),
             nt_host_fresh := Suc (nt_host_fresh c)\<rparr>)))"

definition parse_nt_host :: "bool list \<Rightarrow> string \<Rightarrow> nts_conf \<Rightarrow> nts_conf outcome" where
  "parse_nt_host mem v c =
     (if CHR 0x00 \<notin> set v then Undef
      else add_nt_hosts mem (strtok_all '' ,'' (chars_of v)) (c\<lparr>nt_host_head := []\<rparr>))"

definition nts_set_param :: "bool list \<Rightarrow> nts_conf setter" where
  "nts_set_param mem k v vlen c =
     (if str_is k ''local_nt_host'' then
        bind_out (memcpy (local_nt_host c) v vlen) (\<lambda>ip.
          Ret (c\<lparr>local_hostlen := of_nat vlen, local_nt_host := ip\<rparr>, None))
      else if str_is k ''nt_host'' then
        bind_out (parse_nt_host mem v c) (\<lambda>c2. Ret (c2, None))
      else if str_is k ''tcp_timewait'' then
        bind_out (c_atoi v) (\<lambda>n. Ret (c\<lparr>cfg_tcp_timewait := n\<rparr>, None))
      else if str_is k ''tcp_timeout'' then
        bind_out (c_atoi v) (\<lambda>n. Ret (c\<lparr>cfg_tcp_timeout := n\<rparr>, None))
      else if str_is k ''mtu_size'' then
        bind_out (c_atoi v) (\<lambda>n. Ret (c\<lparr>cfg_mtu_size := of_int n\<rparr>, None))
      else Ret (c, Some (- 1)))"

text \<open>\<^verbatim>\<open>load_conf\<close>; \<open>mem\<close> says which allocations for one line succeed.\<close>

definition nts_load_conf ::
  "bool list \<Rightarrow> string option \<Rightarrow> string \<Rightarrow> nts_conf \<Rightarrow> (nts_conf \<times> int \<times> bool) outcome" where
  "nts_load_conf mem inp buf c =
     (case inp of
        None \<Rightarrow> Ret (c, - 1, False)
      | Some cs \<Rightarrow>
          bind_out (conf_loop (nts_set_param mem) buf False cs c) (\<lambda>(c2, stop).
            (case stop of
               Some r \<Rightarrow> Ret (c2, r, False)
             | None \<Rightarrow> Ret (c2, 0, False))))"

text \<open>\<^verbatim>\<open>strcmp(addr, buf) == 0\<close> on two arrays, undefined when it leaves the second one.\<close>

fun c_streq :: "string \<Rightarrow> string \<Rightarrow> bool outcome" where
  "c_streq a [] = Undef"
| "c_streq [] (c # cs) = Ret (c = CHR 0x00)"
| "c_streq (x # xs) (c # cs) = (if x = c then c_streq xs cs else Ret False)"

text \<open>
  \<^verbatim>\<open>ip_is_valid\<close>: the loop variable is the pointer that held the structure allocated before the
  loop, so the entry that matches is freed where it is in the queue.
\<close>

fun ip_search :: "string \<Rightarrow> nat list \<Rightarrow> nts_conf \<Rightarrow> (nts_conf \<times> int) outcome" where
  "ip_search addr [] c = Ret (c, - 1)"
| "ip_search addr (i # is) c =
     (case nt_host_heap c i of
        None \<Rightarrow> Undef
      | Some e \<Rightarrow>
          bind_out (c_streq addr (host_ipaddr e)) (\<lambda>eq.
            if eq then Ret (c\<lparr>nt_host_heap := (nt_host_heap c)(i := None)\<rparr>, 0)
            else ip_search addr is c))"

definition ip_is_valid :: "string \<Rightarrow> nts_conf \<Rightarrow> (nts_conf \<times> int) outcome" where
  "ip_is_valid addr c = ip_search addr (nt_host_head c) c"

text \<open>\<^verbatim>\<open>free_conf\<close>: an entry is freed and then asked for its successor.\<close>

fun free_hosts :: "nat list \<Rightarrow> nts_conf \<Rightarrow> nts_conf outcome" where
  "free_hosts [] c = Ret c"
| "free_hosts (i # is) c =
     (case nt_host_heap c i of
        None \<Rightarrow> Undef
      | Some e \<Rightarrow>
          let c2 = c\<lparr>nt_host_heap := (nt_host_heap c)(i := None)\<rparr>
          in if nt_host_heap c2 i = None then Undef else free_hosts is c2)"

definition free_conf :: "nts_conf \<Rightarrow> nts_conf outcome" where
  "free_conf c = free_hosts (nt_host_head c) c"


section \<open>Numbers\<close>

lemma dec_string_digits: "c \<in> set (dec_string n) \<Longrightarrow> 48 \<le> (of_char c :: nat) \<and> (of_char c :: nat) \<le> 57"
proof (induction n rule: dec_string.induct)
  case (1 n)
  have d: "(of_char (char_of (48 + m :: nat)) :: nat) = 48 + m" if "m < 10" for m
    using that by (simp add: of_char_of)
  show ?case
    using 1 d [of n] d [of "n mod 10"] by (subst (asm) (2) dec_string.simps) (auto split: if_splits)
qed

lemma dec_string_ne: "dec_string n \<noteq> []"
  by (subst dec_string.simps) simp

lemma dec_string_isdigit: "c \<in> set (dec_string n) \<Longrightarrow> c_isdigit c"
  using dec_string_digits by (simp add: c_isdigit_def)

lemma dec_string_value: "foldl (\<lambda>a d. 10 * a + digit_val d) 0 (dec_string n) = n"
proof (induction n rule: dec_string.induct)
  case (1 n)
  have d: "digit_val (char_of (48 + m :: nat)) = m" if "m < 10" for m
    using that by (simp add: digit_val_def of_char_of)
  show ?case
    using 1 d [of n] d [of "n mod 10"] by (subst dec_string.simps) simp
qed

lemma isdigit_chars:
  "c_isdigit c \<Longrightarrow> \<not> c_isspace c \<and> c \<noteq> CHR ''-'' \<and> c \<noteq> CHR ''+'' \<and> c \<noteq> CHR 0x00 \<and> c \<noteq> CHR '' ''
     \<and> c \<noteq> CHR ''='' \<and> c \<noteq> CHR ''#'' \<and> c \<noteq> CHR ''/'' \<and> c \<noteq> CHR ''*'' \<and> c \<noteq> CHR 0x09 \<and> c \<noteq> CHR 0x0A"
  by (auto simp: c_isdigit_def c_isspace_def)

lemma takeWhile_dec_string:
  "takeWhile c_isdigit (dec_string n @ CHR 0x00 # r) = dec_string n"
  using dec_string_isdigit by (subst takeWhile_append2) (auto simp: c_isdigit_def)

lemma c_atoi_int_string:
  assumes "- (2 ^ 31) \<le> n" "n < 2 ^ 31"
  shows "c_atoi (int_string n @ CHR 0x00 # r) = Ret n"
proof (cases "n < 0")
  case True
  then show ?thesis
    using assms
    by (simp add: c_atoi_def int_string_def c_sign_def c_isspace_def takeWhile_dec_string dec_string_value)
next
  case False
  obtain d ds where ds: "dec_string (nat n) = d # ds"
    using dec_string_ne [of "nat n"] by (cases "dec_string (nat n)") auto
  have d: "\<not> c_isspace d \<and> d \<noteq> CHR ''-'' \<and> d \<noteq> CHR ''+''"
    using isdigit_chars dec_string_isdigit [of d "nat n"] ds by simp
  have s: "c_sign (dropWhile c_isspace (dec_string (nat n) @ CHR 0x00 # r))
             = (1, dec_string (nat n) @ CHR 0x00 # r)"
    using d by (simp add: ds c_sign_def)
  show ?thesis
    using assms False
    by (simp add: c_atoi_def int_string_def s takeWhile_dec_string dec_string_value)
qed

section \<open>Lines\<close>

text \<open>The characters that a key or a value is made of here.\<close>

definition word_char :: "char \<Rightarrow> bool" where
  "word_char c = (c \<notin> {CHR 0x00, CHR '' '', CHR ''='', CHR ''#'', CHR ''/'', CHR ''*'', CHR 0x09, CHR 0x0A})"

definition conf_word :: "nat \<Rightarrow> string \<Rightarrow> bool" where
  "conf_word n w = (w \<noteq> [] \<and> length w < n \<and> list_all word_char w)"

text \<open>The line that assigns a value to a key.\<close>

definition assignment :: "string \<Rightarrow> string \<Rightarrow> string" where
  "assignment k v = k @ '' = '' @ v"

lemma conf_word_chars:
  "conf_word n w \<Longrightarrow> c \<in> set w \<Longrightarrow> word_char c"
  by (simp add: conf_word_def list_all_iff)

lemma chars_of_line [simp]: "CHR 0x00 \<notin> set s \<Longrightarrow> chars_of (s @ CHR 0x00 # r) = s"
  unfolding chars_of_def by (subst takeWhile_append2) auto

text \<open>\<^verbatim>\<open>trim\<close> keeps one of the blanks at the end.\<close>

lemma trim_from_blanks:
  assumes "s = [] \<or> \<not> conf_blank (last s)" "list_all conf_blank bl"
  shows "\<exists>r2. fst (trim_from (s @ bl @ CHR 0x00 # r) (length s + length bl))
           = s @ take 1 bl @ CHR 0x00 # r2"
  using assms(2)
proof (induction bl arbitrary: r rule: rev_induct)
  case Nil
  show ?case
  proof (cases s rule: rev_cases)
    case Nil
    then show ?thesis by simp
  next
    case (snoc t x)
    then show ?thesis using assms(1) by simp
  qed
next
  case (snoc b bl)
  have "(s @ bl @ b # CHR 0x00 # r)[Suc (length s + length bl) := CHR 0x00] = s @ bl @ b # CHR 0x00 # r"
    by (simp add: list_update_append)
  moreover have "(s @ bl @ b # CHR 0x00 # r) ! (length s + length bl) = b"
    by (simp add: nth_append)
  ultimately have step: "trim_from (s @ (bl @ [b]) @ CHR 0x00 # r) (length s + length (bl @ [b]))
      = trim_from (s @ bl @ b # CHR 0x00 # r) (length s + length bl)"
    using snoc.prems by simp
  show ?case
  proof (cases bl rule: rev_cases)
    case Nil
    have "\<exists>r2. fst (trim_from (s @ b # CHR 0x00 # r) (length s)) = s @ b # CHR 0x00 # r2"
    proof (cases s rule: rev_cases)
      case (snoc t x)
      then show ?thesis using assms(1) by (simp add: nth_append)
    qed simp
    then show ?thesis using step Nil by simp
  next
    case (snoc bl2 b2)
    have upd: "(s @ bl2 @ b2 # b # CHR 0x00 # r)[Suc (length s + length bl2) := CHR 0x00]
        = s @ bl2 @ b2 # CHR 0x00 # CHR 0x00 # r"
      by (simp add: list_update_append)
    have "trim_from (s @ bl @ b # CHR 0x00 # r) (length s + length bl)
        = trim_from (s @ bl @ CHR 0x00 # CHR 0x00 # r) (length s + length bl)"
      using snoc.prems snoc upd
      by (simp add: nth_append list_update_append)
    moreover have "take 1 (bl @ [b]) = take 1 bl" "list_all conf_blank bl"
      using snoc snoc.prems by (cases bl2; simp)+
    ultimately show ?thesis
      using step snoc.IH [of "CHR 0x00 # r"] by (simp only:)
  qed
qed


lemma conf_blank_char: "conf_blank c \<Longrightarrow> c \<noteq> CHR 0x00"
  by (auto simp: conf_blank_def)

lemma trim_line:
  assumes "s \<noteq> []" "\<not> conf_blank (last s)" "list_all conf_blank bl" "CHR 0x00 \<notin> set s"
  obtains r2 where "fst (trim (s @ bl @ CHR 0x00 # r)) = s @ take 1 bl @ CHR 0x00 # r2"
proof -
  have "CHR 0x00 \<notin> set (s @ bl)"
    using assms(3,4) conf_blank_char [of "CHR 0x00"] by (auto simp: list_all_iff)
  then have "c_strlen ((s @ bl) @ CHR 0x00 # r) = length s + length bl"
    unfolding c_strlen_def by (subst chars_of_line) auto
  then have "trim (s @ bl @ CHR 0x00 # r) = trim_from (s @ bl @ CHR 0x00 # r) (length s + length bl)"
    by (simp only: trim_def append_assoc)
  moreover obtain r2 where "fst (trim_from (s @ bl @ CHR 0x00 # r) (length s + length bl))
      = s @ take 1 bl @ CHR 0x00 # r2"
    using trim_from_blanks [OF disjI2 [OF assms(2)] assms(3), of r] ..
  ultimately show thesis
    using that by (simp only:)
qed

text \<open>An array whose first cells are written and whose other cells are zero.\<close>

definition filled :: "nat \<Rightarrow> string \<Rightarrow> string" where
  "filled n w = w @ replicate (n - length w) (CHR 0x00)"

lemma filled_split:
  assumes "length w < n"
  shows "filled n w = w @ CHR 0x00 # replicate (n - Suc (length w)) (CHR 0x00)"
proof -
  have "n - length w = Suc (n - Suc (length w))"
    using assms by simp
  then show ?thesis
    by (simp only: filled_def replicate_Suc)
qed

lemma filled_snoc: "length w < n \<Longrightarrow> (filled n w)[length w := c] = filled n (w @ [c])"
  by (simp add: filled_split) (simp add: filled_def)

lemma scan_key:
  assumes "list_all word_char ks" "length w + length ks \<le> MAX_KEY_LEN"
  shows "scan_param (ks @ cs) False (filled MAX_KEY_LEN w) (length w) v vlen
       = scan_param cs False (filled MAX_KEY_LEN (w @ ks)) (length w + length ks) v vlen"
  using assms
proof (induction ks arbitrary: w)
  case (Cons c ks)
  have "scan_param ((c # ks) @ cs) False (filled MAX_KEY_LEN w) (length w) v vlen
      = scan_param (ks @ cs) False (filled MAX_KEY_LEN (w @ [c])) (length (w @ [c])) v vlen"
    using Cons.prems by (simp add: word_char_def filled_snoc)
  then show ?case
    using Cons.IH [of "w @ [c]"] Cons.prems by simp
qed simp

lemma scan_value:
  assumes "list_all (\<lambda>c. c \<notin> {CHR '' '', CHR ''='', CHR ''#''}) vs" "length w + length vs \<le> MAX_VAL_LEN"
  shows "scan_param (vs @ cs) True k klen (filled MAX_VAL_LEN w) (length w)
       = scan_param cs True k klen (filled MAX_VAL_LEN (w @ vs)) (length w + length vs)"
  using assms
proof (induction vs arbitrary: w)
  case (Cons c vs)
  have "scan_param ((c # vs) @ cs) True k klen (filled MAX_VAL_LEN w) (length w)
      = scan_param (vs @ cs) True k klen (filled MAX_VAL_LEN (w @ [c])) (length (w @ [c]))"
    using Cons.prems by (simp add: filled_snoc)
  then show ?case
    using Cons.IH [of "w @ [c]"] Cons.prems by simp
qed simp

lemma filled_zero: "length w < n \<Longrightarrow> filled n (w @ [CHR 0x00]) = filled n w"
  by (simp add: filled_split [of w]) (simp add: filled_def)

lemma chars_of_filled: "CHR 0x00 \<notin> set w \<Longrightarrow> length w < n \<Longrightarrow> chars_of (filled n w) = w"
  by (simp add: filled_split)

lemma scan_assignment:
  assumes "conf_word MAX_KEY_LEN k" "list_all word_char v" "length v < MAX_VAL_LEN"
  shows "scan_param (assignment k v @ [CHR 0x00]) False
           (replicate MAX_KEY_LEN (CHR 0x00)) 0 (replicate MAX_VAL_LEN (CHR 0x00)) 0
       = (filled MAX_KEY_LEN k, filled MAX_VAL_LEN v, Suc (length v))"
proof -
  have v: "list_all (\<lambda>c. c \<notin> {CHR '' '', CHR ''='', CHR ''#''}) (v @ [CHR 0x00])"
    using assms(2) by (auto simp: list_all_iff word_char_def)
  have z: "replicate n (CHR 0x00) = filled n []" for n
    by (simp add: filled_def)
  have 1: "scan_param (k @ '' = '' @ v @ [CHR 0x00]) False (filled MAX_KEY_LEN []) (length ([] :: string))
             (filled MAX_VAL_LEN []) (length ([] :: string))
      = scan_param ('' = '' @ v @ [CHR 0x00]) False (filled MAX_KEY_LEN k) (length k)
             (filled MAX_VAL_LEN []) (length ([] :: string))"
    using assms(1) by (subst scan_key) (auto simp: conf_word_def)
  have 2: "scan_param ((v @ [CHR 0x00]) @ []) True (filled MAX_KEY_LEN k) (length k)
             (filled MAX_VAL_LEN []) (length ([] :: string))
      = (filled MAX_KEY_LEN k, filled MAX_VAL_LEN v, Suc (length v))"
    using assms(3) by (subst scan_value [OF v]) (auto simp: filled_zero)
  show ?thesis
    using 1 2 by (simp add: assignment_def z)
qed

lemma str_is_filled:
  assumes "CHR 0x00 \<notin> set w" "CHR 0x00 \<notin> set lit" "length w < n"
  shows "str_is (filled n w) lit = (w = lit)"
proof
  assume "str_is (filled n w) lit"
  then have t: "take (Suc (length lit)) (filled n w) = lit @ [CHR 0x00]"
    by (simp add: str_is_def)
  have "chars_of (filled n w) = w"
    using assms(1,3) by (rule chars_of_filled)
  moreover have "chars_of (filled n w) = lit"
    using arg_cong [OF t, of "\<lambda>x. chars_of (x @ drop (Suc (length lit)) (filled n w))"] assms(2) by simp
  ultimately show "w = lit" by simp
next
  assume "w = lit"
  then show "str_is (filled n w) lit"
    using assms(3) by (simp add: str_is_def filled_split)
qed


lemma str_occurs_chars: "str_occurs pat cs \<Longrightarrow> set pat \<subseteq> set cs"
proof (induction cs)
  case (Cons c cs)
  show ?case
  proof (cases "take (length pat) (c # cs) = pat")
    case True
    then show ?thesis using set_take_subset [of "length pat" "c # cs"] by simp
  qed (use Cons in auto)
qed simp

lemma assignment_chars:
  assumes "conf_word MAX_KEY_LEN k" "list_all word_char v"
  shows "CHR 0x00 \<notin> set (assignment k v)" "CHR ''/'' \<notin> set (assignment k v)"
    "hd (assignment k v) \<noteq> CHR ''#''" "hd (assignment k v) \<noteq> CHR ''=''" "hd (assignment k v) \<noteq> CHR ''/''"
proof -
  have "c \<in> set k \<Longrightarrow> word_char c" "c \<in> set v \<Longrightarrow> word_char c" for c
    using assms by (auto simp: conf_word_def list_all_iff)
  moreover have "hd (assignment k v) \<in> set k"
    using assms(1) by (simp add: conf_word_def assignment_def)
  ultimately show "CHR 0x00 \<notin> set (assignment k v)" "CHR ''/'' \<notin> set (assignment k v)"
    "hd (assignment k v) \<noteq> CHR ''#''" "hd (assignment k v) \<noteq> CHR ''=''" "hd (assignment k v) \<noteq> CHR ''/''"
    by (fastforce simp: assignment_def word_char_def)+
qed

lemma conf_line_trimmed:
  assumes k: "conf_word MAX_KEY_LEN k" and v: "list_all word_char v" "length v < MAX_VAL_LEN"
    and x: "x \<noteq> CHR 0x00" "x \<noteq> CHR ''/''"
    and buf: "fst (trim buf0) = assignment k v @ x # CHR 0x00 # r"
  shows "conf_line buf0 False
       = (assignment k v @ CHR 0x00 # CHR 0x00 # r, False,
          if v = [] then None else Some (filled MAX_KEY_LEN k, filled MAX_VAL_LEN v, Suc (length v)))"
proof -
  note ch = assignment_chars [OF k v(1)]
  let ?b = "assignment k v @ x # CHR 0x00 # r"
  have cs: "chars_of ?b = assignment k v @ [x]"
    using chars_of_line [of "assignment k v @ [x]" r] ch(1) x(1) by simp
  have ne: "assignment k v \<noteq> []" "length (assignment k v) \<noteq> 0"
    by (simp_all add: assignment_def)
  have b0: "?b ! 0 = hd (assignment k v)"
    using ne by (simp add: nth_append hd_conv_nth)
  have no: "\<not> c_strstr ?b ''/*''" "\<not> c_strstr ?b ''*/''"
    using ch(2) x(2) str_occurs_chars [of "''/*''" "assignment k v @ [x]"]
      str_occurs_chars [of "''*/''" "assignment k v @ [x]"] by (auto simp: c_strstr_def cs)
  have len: "c_strlen ?b = Suc (length (assignment k v))"
    by (simp add: c_strlen_def cs)
  have zk: "CHR 0x00 \<notin> set k" and zv: "CHR 0x00 \<notin> set v" and k0: "k \<noteq> []" "length k < MAX_KEY_LEN"
    using k v by (auto simp: conf_word_def list_all_iff word_char_def)
  have e: "str_is (filled MAX_KEY_LEN k) [] = False" "str_is (filled MAX_VAL_LEN v) [] = (v = [])"
    using str_is_filled [OF zk _ k0(2), of "[]"] str_is_filled [OF zv _ v(2), of "[]"] k0 by auto
  show ?thesis
    unfolding conf_line_def Let_def buf len b0
    using no ch(3-5) ne scan_assignment [OF k v] e
    by (simp add: list_update_append)
qed

lemma assignment_last: "v \<noteq> [] \<Longrightarrow> last (assignment k v) = last v"
  by (simp add: assignment_def)

lemma word_char_not_blank: "word_char c \<Longrightarrow> \<not> conf_blank c \<and> c \<noteq> CHR 0x00 \<and> c \<noteq> CHR ''/''"
  by (auto simp: word_char_def conf_blank_def)

text \<open>A line of an assignment with blanks at its end, and one that ends with the value.\<close>

lemma conf_line_assigns:
  assumes "conf_word MAX_KEY_LEN k" "conf_word MAX_VAL_LEN v" "bl \<noteq> []" "list_all conf_blank bl"
  shows "\<exists>buf2. conf_line (assignment k v @ bl @ CHR 0x00 # r) False
     = (buf2, False, Some (filled MAX_KEY_LEN k, filled MAX_VAL_LEN v, Suc (length v)))"
proof -
  have v: "v \<noteq> []" "list_all word_char v" "length v < MAX_VAL_LEN"
    using assms(2) by (auto simp: conf_word_def)
  have nb: "\<not> conf_blank (last (assignment k v))"
    using v word_char_not_blank by (auto simp: assignment_last list_all_iff)
  obtain r2 where "fst (trim (assignment k v @ bl @ CHR 0x00 # r)) = assignment k v @ take 1 bl @ CHR 0x00 # r2"
    using trim_line [OF _ nb assms(4) assignment_chars(1) [OF assms(1) v(2)]]
    by (auto simp: assignment_def)
  moreover have "take 1 bl = [hd bl]" "conf_blank (hd bl)"
    using assms(3,4) by (cases bl; simp)+
  ultimately show ?thesis
    using conf_line_trimmed [OF assms(1) v(2,3), of "hd bl" "assignment k v @ bl @ CHR 0x00 # r" r2] v(1)
    by (auto simp: conf_blank_def)
qed

lemma conf_line_cut:
  assumes "conf_word MAX_KEY_LEN k" "conf_word MAX_VAL_LEN v"
  shows "\<exists>buf2. conf_line (assignment k v @ CHR 0x00 # r) False
     = (buf2, False, if butlast v = [] then None
                     else Some (filled MAX_KEY_LEN k, filled MAX_VAL_LEN (butlast v), length v))"
proof -
  obtain w x where vx: "v = w @ [x]"
    using assms(2) by (cases v rule: rev_cases) (auto simp: conf_word_def)
  have v: "list_all word_char w" "word_char x" "length w < MAX_VAL_LEN"
    using assms(2) by (auto simp: conf_word_def vx)
  have s: "assignment k v = assignment k w @ [x]"
    by (simp add: assignment_def vx)
  have nb: "\<not> conf_blank (last (assignment k v))" "CHR 0x00 \<notin> set (assignment k v)"
    using v word_char_not_blank assignment_chars(1) [OF assms(1)] assms(2)
    by (auto simp: assignment_last vx conf_word_def)
  obtain r2 where "fst (trim (assignment k v @ [] @ CHR 0x00 # r)) = assignment k v @ take 1 [] @ CHR 0x00 # r2"
    using trim_line [OF _ nb(1) _ nb(2), of "[]"] by (auto simp: assignment_def)
  then have "fst (trim (assignment k v @ CHR 0x00 # r)) = assignment k w @ x # CHR 0x00 # r2"
    by (simp add: s)
  then show ?thesis
    using conf_line_trimmed [OF assms(1) v(1,3), of x "assignment k v @ CHR 0x00 # r" r2]
      word_char_not_blank [OF v(2)] by (auto simp: vx)
qed


section \<open>Files\<close>

lemma fgets_take_line:
  "CHR 0x0A \<notin> set s \<Longrightarrow> length s < n \<Longrightarrow> fgets_take n (s @ CHR 0x0A # rest) = (s @ [CHR 0x0A], rest)"
proof (induction s arbitrary: n)
  case Nil
  then show ?case by (cases n) auto
next
  case (Cons c s)
  then show ?case by (cases n) auto
qed

lemma fgets_take_end: "CHR 0x0A \<notin> set s \<Longrightarrow> length s < n \<Longrightarrow> fgets_take n s = (s, [])"
proof (induction s arbitrary: n)
  case Nil
  then show ?case by (cases n) auto
next
  case (Cons c s)
  then show ?case by (cases n) auto
qed

lemma assignment_line:
  assumes "conf_word MAX_KEY_LEN k" "conf_word MAX_VAL_LEN v"
  shows "CHR 0x0A \<notin> set (assignment k v)" "length (assignment k v) < MAX_BUF_LEN - 1"
    "assignment k v \<noteq> []"
  using assms by (auto simp: assignment_def conf_word_def list_all_iff word_char_def)

definition conf_text :: "(string \<times> string) list \<Rightarrow> string" where
  "conf_text kvs = concat (map (\<lambda>(k, v). assignment k v @ [CHR 0x0A]) kvs)"

text \<open>The assignments of a list, one after the other.\<close>

fun assign_all :: "'c setter \<Rightarrow> (string \<times> string) list \<Rightarrow> 'c \<Rightarrow> ('c \<times> int option) outcome" where
  "assign_all put [] c = Ret (c, None)"
| "assign_all put ((k, v) # kvs) c =
     bind_out (put (filled MAX_KEY_LEN k) (filled MAX_VAL_LEN v) (Suc (length v)) c) (\<lambda>(c2, stop).
       (case stop of Some r \<Rightarrow> Ret (c2, Some r) | None \<Rightarrow> assign_all put kvs c2))"

lemma conf_loop_end [simp]: "conf_loop put buf comment [] c = Ret (c, None)"
  by (subst conf_loop.simps) (simp add: c_fgets_def)

lemma conf_loop_assignment:
  assumes "conf_word MAX_KEY_LEN k" "conf_word MAX_VAL_LEN v"
  shows "\<exists>buf2. conf_loop put buf False (assignment k v @ CHR 0x0A # rest) c
     = bind_out (put (filled MAX_KEY_LEN k) (filled MAX_VAL_LEN v) (Suc (length v)) c) (\<lambda>(c2, stop).
         (case stop of Some r \<Rightarrow> Ret (c2, Some r) | None \<Rightarrow> conf_loop put buf2 False rest c2))"
proof -
  have f: "fgets_take (MAX_BUF_LEN - 1) (assignment k v @ CHR 0x0A # rest)
      = (assignment k v @ [CHR 0x0A], rest)"
    using assignment_line [OF assms] by (intro fgets_take_line)
  obtain r where g: "c_fgets buf MAX_BUF_LEN (assignment k v @ CHR 0x0A # rest)
      = Some (assignment k v @ [CHR 0x0A] @ CHR 0x00 # r, rest)"
    unfolding c_fgets_def f by simp
  obtain buf2 where "conf_line (assignment k v @ [CHR 0x0A] @ CHR 0x00 # r) False
      = (buf2, False, Some (filled MAX_KEY_LEN k, filled MAX_VAL_LEN v, Suc (length v)))"
    using conf_line_assigns [OF assms, of "[CHR 0x0A]" r] by (auto simp: conf_blank_def)
  then show ?thesis
    by (subst conf_loop.simps) (simp add: g del: append.simps, blast)
qed

lemma conf_loop_text:
  assumes "list_all (\<lambda>(k, v). conf_word MAX_KEY_LEN k \<and> conf_word MAX_VAL_LEN v) kvs"
  shows "\<exists>buf2. conf_loop put buf False (conf_text kvs @ rest) c
    = bind_out (assign_all put kvs c) (\<lambda>(c2, stop).
        (case stop of Some r \<Rightarrow> Ret (c2, Some r) | None \<Rightarrow> conf_loop put buf2 False rest c2))"
  using assms
proof (induction kvs arbitrary: buf c)
  case Nil
  then show ?case by (auto simp: conf_text_def)
next
  case (Cons kv kvs)
  obtain k v where kv: "kv = (k, v)" by fastforce
  have w: "conf_word MAX_KEY_LEN k" "conf_word MAX_VAL_LEN v"
    and ws: "list_all (\<lambda>(k, v). conf_word MAX_KEY_LEN k \<and> conf_word MAX_VAL_LEN v) kvs"
    using Cons.prems by (auto simp: kv)
  let ?m = "put (filled MAX_KEY_LEN k) (filled MAX_VAL_LEN v) (Suc (length v)) c"
  obtain buf1 where 1: "conf_loop put buf False (assignment k v @ CHR 0x0A # conf_text kvs @ rest) c
     = bind_out ?m (\<lambda>(c2, stop).
         (case stop of Some r \<Rightarrow> Ret (c2, Some r) | None \<Rightarrow> conf_loop put buf1 False (conf_text kvs @ rest) c2))"
    using conf_loop_assignment [OF w, of put buf "conf_text kvs @ rest" c] ..
  have t: "conf_text (kv # kvs) @ rest = assignment k v @ CHR 0x0A # conf_text kvs @ rest"
    by (simp add: conf_text_def kv)
  consider (go) c2 where "?m = Ret (c2, None)" | (other) "\<forall>c2. ?m \<noteq> Ret (c2, None)" by blast
  then show ?case
  proof cases
    case go
    then show ?thesis using Cons.IH [OF ws, of buf1 c2] unfolding t 1 by (simp add: kv)
  next
    case other
    then show ?thesis unfolding t 1 by (cases ?m) (auto simp: kv split: option.splits)
  qed
qed

lemma conf_loop_file:
  assumes "list_all (\<lambda>(k, v). conf_word MAX_KEY_LEN k \<and> conf_word MAX_VAL_LEN v) kvs"
  shows "conf_loop put buf False (conf_text kvs) c = assign_all put kvs c"
proof -
  obtain buf2 where "conf_loop put buf False (conf_text kvs @ []) c
    = bind_out (assign_all put kvs c) (\<lambda>(c2, stop).
        (case stop of Some r \<Rightarrow> Ret (c2, Some r) | None \<Rightarrow> conf_loop put buf2 False [] c2))"
    using conf_loop_text [OF assms, of put buf "[]" c] ..
  then show ?thesis
    by (cases "assign_all put kvs c") (auto split: option.splits)
qed

text \<open>A last line without a newline loses its last character.\<close>

lemma conf_loop_cut:
  assumes "conf_word MAX_KEY_LEN k" "conf_word MAX_VAL_LEN v" "butlast v \<noteq> []"
  shows "conf_loop put buf False (assignment k v) c = assign_all put [(k, butlast v)] c"
proof -
  have f: "fgets_take (MAX_BUF_LEN - 1) (assignment k v) = (assignment k v, [])"
    using assignment_line [OF assms(1,2)] by (intro fgets_take_end)
  obtain r where g: "c_fgets buf MAX_BUF_LEN (assignment k v) = Some (assignment k v @ CHR 0x00 # r, [])"
    unfolding c_fgets_def f using assignment_line(3) [OF assms(1,2)] by simp
  have len: "Suc (length (butlast v)) = length v"
    using assms(3) by (cases v) auto
  obtain buf2 where "conf_line (assignment k v @ CHR 0x00 # r) False
      = (buf2, False, Some (filled MAX_KEY_LEN k, filled MAX_VAL_LEN (butlast v), length v))"
    using conf_line_cut [OF assms(1,2), of r] assms(3) by auto
  then show ?thesis
    by (subst conf_loop.simps) (simp add: g len del: length_butlast)
qed

lemma conf_loop_unterminated:
  assumes "list_all (\<lambda>(k, v). conf_word MAX_KEY_LEN k \<and> conf_word MAX_VAL_LEN v) kvs"
    and "conf_word MAX_KEY_LEN k" "conf_word MAX_VAL_LEN v" "butlast v \<noteq> []"
  shows "conf_loop put buf False (conf_text kvs @ assignment k v) c
       = conf_loop put buf3 False (conf_text (kvs @ [(k, butlast v)])) c"
proof -
  have w: "conf_word MAX_VAL_LEN (butlast v)"
    using assms(3,4) by (simp add: conf_word_def list_all_iff in_set_butlastD less_imp_diff_less)
  have a: "assign_all put (xs @ ys) c = bind_out (assign_all put xs c) (\<lambda>(c2, stop).
      (case stop of Some r \<Rightarrow> Ret (c2, Some r) | None \<Rightarrow> assign_all put ys c2))" for xs ys
    by (induction put xs c rule: assign_all.induct)
      (auto simp: bind_out_assoc split: option.splits intro!: arg_cong2 [where f = bind_out] ext)
  obtain buf2 where "conf_loop put buf False (conf_text kvs @ assignment k v) c
    = bind_out (assign_all put kvs c) (\<lambda>(c2, stop).
        (case stop of Some r \<Rightarrow> Ret (c2, Some r) | None \<Rightarrow> conf_loop put buf2 False (assignment k v) c2))"
    using conf_loop_text [OF assms(1), of put buf "assignment k v" c] ..
  then show ?thesis
    unfolding conf_loop_cut [OF assms(2-4)]
    using assms(1,2) w by (simp add: conf_loop_file a)
qed

text \<open>What an assignment keeps, a file keeps.\<close>

lemma conf_loop_keeps:
  assumes step: "\<And>k v vlen c c2 stop. P c \<Longrightarrow> put k v vlen c = Ret (c2, stop) \<Longrightarrow> P c2"
  shows "conf_loop put buf comment inp c = Ret (c2, stop) \<Longrightarrow> P c \<Longrightarrow> P c2"
proof (induction inp arbitrary: buf comment c rule: measure_induct_rule [of length])
  case (less inp)
  show ?case
  proof (cases "c_fgets buf MAX_BUF_LEN inp")
    case None
    then show ?thesis using less.prems by (simp add: conf_loop.simps [of put buf])
  next
    case (Some br)
    obtain buf1 rest b2 com2 kv where f: "br = (buf1, rest)" "conf_line buf1 comment = (b2, com2, kv)"
      by (metis prod.exhaust)
    have shorter: "length rest < length inp"
      using c_fgets_shorter Some f by simp
    show ?thesis
    proof (cases kv)
      case None
      then show ?thesis
        using less.IH [OF shorter] less.prems Some f by (simp add: conf_loop.simps [of put buf])
    next
      case (Some kvl)
      obtain k v n where kv: "kvl = (k, v, n)" by (metis prod.exhaust)
      obtain c3 stop3 where 3: "put k v n c = Ret (c3, stop3)"
          "conf_loop put b2 com2 rest c3 = Ret (c2, stop) \<or> c3 = c2"
        using less.prems(1) \<open>c_fgets _ _ _ = _\<close> f Some kv
        by (auto simp: conf_loop.simps [of put buf] split: option.splits)
      then show ?thesis
        using step [OF less.prems(2) 3(1)] less.IH [OF shorter, of b2 com2 c3] by auto
    qed
  qed
qed

section \<open>The monitor reads back what is written\<close>

definition ntm_conf_text :: "ntm_conf \<Rightarrow> string" where
  "ntm_conf_text c =
     conf_text
       [(''listen_ip'', chars_of (cfg_listen_ip c)),
        (''listen_port'', int_string (cfg_listen_port c)),
        (''remote_ntm_tcp_timeout'', int_string (remote_ntm_tcp_timeout c)),
        (''remote_ntm_tcp_timewait'', int_string (remote_ntm_tcp_timewait c)),
        (''max_concurrency'', int_string (cfg_max_concurrency c)),
        (''max_port'', int_string (cfg_max_port c))]"

definition c_int :: "int \<Rightarrow> bool" where
  "c_int n = (- (2 ^ 31) \<le> n \<and> n < 2 ^ 31)"

definition ntm_conf_ok :: "ntm_conf \<Rightarrow> bool" where
  "ntm_conf_ok c =
     (conf_word 32 (chars_of (cfg_listen_ip c)) \<and> c_int (cfg_listen_port c)
      \<and> c_int (remote_ntm_tcp_timeout c) \<and> c_int (remote_ntm_tcp_timewait c)
      \<and> c_int (cfg_max_concurrency c) \<and> c_int (cfg_max_port c))"

lemma dec_string_length: "n < 10 ^ Suc k \<Longrightarrow> length (dec_string n) \<le> Suc k"
proof (induction k arbitrary: n)
  case 0
  then show ?case by (subst dec_string.simps) simp
next
  case (Suc k)
  have "n div 10 < 10 ^ Suc k"
    using Suc.prems by simp
  then show ?case
    using Suc.IH [of "n div 10"] by (subst dec_string.simps) simp
qed

lemma dec_string_word:
  assumes "n < 10 ^ 10"
  shows "list_all word_char (dec_string n)" "length (dec_string n) < 255"
proof -
  show "list_all word_char (dec_string n)"
    using dec_string_isdigit isdigit_chars by (auto simp: list_all_iff word_char_def)
  show "length (dec_string n) < 255"
    using dec_string_length [of n 9] assms by simp
qed

lemma int_string_word:
  assumes "c_int n"
  shows "conf_word MAX_VAL_LEN (int_string n)"
proof -
  let ?d = "dec_string (nat \<bar>n\<bar>)"
  have "nat \<bar>n\<bar> < 10 ^ 10"
    using assms by (auto simp: c_int_def nat_less_iff)
  note d = dec_string_word [OF this] dec_string_ne [of "nat \<bar>n\<bar>"]
  have "int_string n = ?d \<or> int_string n = CHR ''-'' # ?d"
    by (auto simp: int_string_def)
  then show ?thesis
    using d by (auto simp: conf_word_def word_char_def)
qed

lemma c_atoi_filled: "c_int n \<Longrightarrow> c_atoi (filled MAX_VAL_LEN (int_string n)) = Ret n"
  using int_string_word [of n] c_atoi_int_string [of n]
  by (simp add: filled_split conf_word_def c_int_def)

text \<open>
  C17: a monitor reads a configuration file written from a configuration back to that configuration,
  whatever the line buffer and the configuration held before; it leaves the file open.
\<close>

theorem ntm_conf_roundtrip:
  assumes "ntm_conf_ok c" "length (cfg_listen_ip c0) = 32"
  shows "ntm_load_conf (Some (ntm_conf_text c)) buf c0
       = Ret (c0\<lparr>cfg_listen_port := cfg_listen_port c,
                  remote_ntm_tcp_timeout := remote_ntm_tcp_timeout c,
                  remote_ntm_tcp_timewait := remote_ntm_tcp_timewait c,
                  cfg_max_concurrency := cfg_max_concurrency c, cfg_max_port := cfg_max_port c,
                  ipaddr_len := int (Suc (c_strlen (cfg_listen_ip c))),
                  cfg_listen_ip := chars_of (cfg_listen_ip c) @ CHR 0x00
                     # drop (Suc (c_strlen (cfg_listen_ip c))) (cfg_listen_ip c0)\<rparr>, 0, True)"
proof -
  have ip: "conf_word MAX_VAL_LEN (chars_of (cfg_listen_ip c))" "c_strlen (cfg_listen_ip c) < 32"
    using assms(1) by (auto simp: ntm_conf_ok_def conf_word_def c_strlen_def)
  have cp: "memcpy (cfg_listen_ip c0) (filled MAX_VAL_LEN (chars_of (cfg_listen_ip c))) (Suc (length (chars_of (cfg_listen_ip c))))
      = Ret (chars_of (cfg_listen_ip c) @ CHR 0x00 # drop (Suc (c_strlen (cfg_listen_ip c))) (cfg_listen_ip c0))"
    using ip assms(2) by (simp add: filled_split c_strlen_def)
  have k: "list_all (conf_word MAX_KEY_LEN) [''listen_ip'', ''listen_port'', ''remote_ntm_tcp_timeout'',
      ''remote_ntm_tcp_timewait'', ''max_concurrency'', ''max_port'']"
    by (simp add: conf_word_def word_char_def)
  have eq: "str_is (filled MAX_KEY_LEN w) lit = (w = lit)"
    if "w \<in> {''listen_ip'', ''listen_port'', ''remote_ntm_tcp_timeout'', ''remote_ntm_tcp_timewait'',
              ''max_concurrency'', ''max_port''}" "CHR 0x00 \<notin> set lit" for w lit
    using that by (intro str_is_filled) auto
  have n: "c_int (cfg_listen_port c)" "c_int (remote_ntm_tcp_timeout c)" "c_int (remote_ntm_tcp_timewait c)"
      "c_int (cfg_max_concurrency c)" "c_int (cfg_max_port c)"
    using assms(1) by (auto simp: ntm_conf_ok_def)
  show ?thesis
    using k ip(1) n
    by (simp add: ntm_load_conf_def ntm_conf_text_def conf_loop_file int_string_word eq
        ntm_set_param_def cp c_atoi_filled c_strlen_def)
qed


definition demo_ntm_config :: ntm_conf where
  "demo_ntm_config = NTM_CONFIG\<lparr>cfg_listen_port := 9091, cfg_max_port := - 1,
     cfg_listen_ip := ''10.1.2.3'' @ replicate 24 (CHR 0x00)\<rparr>"

lemma demo_ntm_config_ok: "ntm_conf_ok demo_ntm_config" "length (cfg_listen_ip NTM_CONFIG) = 32"
  by (simp_all add: ntm_conf_ok_def demo_ntm_config_def NTM_CONFIG_def conf_word_def chars_of_def
      word_char_def c_int_def)

theorem ntm_conf_roundtrip_witness:
  "\<exists>c. ntm_load_conf (Some (ntm_conf_text demo_ntm_config)) [] NTM_CONFIG = Ret (c, 0, True)
     \<and> cfg_listen_port c = 9091 \<and> cfg_max_port c = - 1 \<and> chars_of (cfg_listen_ip c) = ''10.1.2.3''"
  using ntm_conf_roundtrip [OF demo_ntm_config_ok, of "[]"]
  by (simp add: demo_ntm_config_def chars_of_def)

text \<open>
  A file whose last line has no newline is read as if the last character of that line were not
  there, in each of the programs: every setting that the line makes is cut by one character.
\<close>

theorem conf_last_char_lost:
  assumes "list_all (\<lambda>(k, v). conf_word MAX_KEY_LEN k \<and> conf_word MAX_VAL_LEN v) kvs"
    and "conf_word MAX_KEY_LEN k" "conf_word MAX_VAL_LEN v" "butlast v \<noteq> []"
  shows "ntm_load_conf (Some (conf_text kvs @ assignment k v)) buf c
       = ntm_load_conf (Some (conf_text (kvs @ [(k, butlast v)]))) buf c
    \<and> ntp_load_conf (Some (conf_text kvs @ assignment k v)) buf c1
       = ntp_load_conf (Some (conf_text (kvs @ [(k, butlast v)]))) buf c1
    \<and> nts_load_conf mem (Some (conf_text kvs @ assignment k v)) buf c2
       = nts_load_conf mem (Some (conf_text (kvs @ [(k, butlast v)]))) buf c2"
  by (simp add: ntm_load_conf_def ntp_load_conf_def nts_load_conf_def
      conf_loop_unterminated [OF assms, where buf = buf and ?buf3.0 = buf])

theorem conf_last_char_lost_witness:
  "ntm_load_conf (Some (conf_text [(''max_port'', ''100'')] @ assignment ''listen_port'' ''9090'')) [] NTM_CONFIG
     = Ret (NTM_CONFIG\<lparr>cfg_max_port := 100, cfg_listen_port := 909\<rparr>, 0, True)"
proof -
  have w: "conf_word MAX_KEY_LEN ''max_port'' \<and> conf_word MAX_VAL_LEN ''100''"
      "conf_word MAX_KEY_LEN ''listen_port''" "conf_word MAX_VAL_LEN ''9090''" "conf_word MAX_VAL_LEN ''909''"
    by (simp_all add: conf_word_def word_char_def)
  have "int_string 100 = ''100''" "int_string 909 = ''909''"
    by code_simp+
  then have n: "c_atoi (filled MAX_VAL_LEN ''100'') = Ret 100" "c_atoi (filled MAX_VAL_LEN ''909'') = Ret 909"
    using c_atoi_filled [of 100] c_atoi_filled [of 909] by (simp_all add: c_int_def)
  have "ntm_load_conf (Some (conf_text [(''max_port'', ''100'')] @ assignment ''listen_port'' ''9090'')) [] NTM_CONFIG
      = ntm_load_conf (Some (conf_text ([(''max_port'', ''100'')] @ [(''listen_port'', butlast ''9090'')]))) [] NTM_CONFIG"
    using conf_last_char_lost [of "[(''max_port'', ''100'')]", OF _ w(2,3)] w(1) by simp
  also have "\<dots> = Ret (NTM_CONFIG\<lparr>cfg_max_port := 100, cfg_listen_port := 909\<rparr>, 0, True)"
    using w n by (simp add: ntm_load_conf_def conf_loop_file ntm_set_param_def str_is_filled)
  finally show ?thesis .
qed

section \<open>The proxy keeps its number of partitions\<close>

lemma ntp_set_param_partitions:
  assumes "num_partition c \<le> MAX_NUM_PARTITION" "ntp_set_param k v vlen c = Ret (c2, stop)"
  shows "num_partition c2 \<le> MAX_NUM_PARTITION"
  using assms by (auto simp: ntp_set_param_def Let_def split: if_splits)

text \<open>
  C26: whatever a configuration file holds, a proxy that reads it has at most eight partitions, also
  when the number in the file is negative and wraps.
\<close>

theorem ntp_partitions_bounded:
  assumes "ntp_load_conf inp buf c = Ret (c2, ret, open)" "num_partition c \<le> MAX_NUM_PARTITION"
  shows "num_partition c2 \<le> MAX_NUM_PARTITION"
proof (cases inp)
  case None
  then show ?thesis using assms by (simp add: ntp_load_conf_def)
next
  case (Some cs)
  then obtain stop where "conf_loop ntp_set_param buf False cs c = Ret (c2, stop)"
    using assms(1) by (auto simp: ntp_load_conf_def)
  then show ?thesis
    by (rule conf_loop_keeps [where P = "\<lambda>c. num_partition c \<le> MAX_NUM_PARTITION", rotated])
      (use assms(2) ntp_set_param_partitions in blast)+
qed

theorem ntp_partitions_bounded_witness:
  "\<exists>c. ntp_load_conf (Some (conf_text [(''num_partition'', ''-1'')])) [] NTP_CONFIG = Ret (c, 0, False)
     \<and> num_partition c \<le> MAX_NUM_PARTITION"
proof -
  have w: "conf_word MAX_KEY_LEN ''num_partition''" "conf_word MAX_VAL_LEN ''-1''"
    by (simp_all add: conf_word_def word_char_def)
  have "int_string (- 1) = ''-1''"
    by code_simp
  then have n: "c_atoi (filled MAX_VAL_LEN ''-1'') = Ret (- 1)"
    using c_atoi_filled [of "- 1"] by (simp add: c_int_def)
  obtain c where c: "ntp_load_conf (Some (conf_text [(''num_partition'', ''-1'')])) [] NTP_CONFIG = Ret (c, 0, False)"
    using w n by (simp add: ntp_load_conf_def conf_loop_file ntp_set_param_def str_is_filled Let_def)
  then have "num_partition c \<le> MAX_NUM_PARTITION"
    by (rule ntp_partitions_bounded) (simp add: NTP_CONFIG_def)
  then show ?thesis using c by blast
qed

section \<open>The hosts of the library\<close>

lemma strtok_all_word:
  assumes "w \<noteq> []" "\<forall>c\<in>set w. c \<notin> set delim"
  shows "strtok_all delim w = [w]"
proof -
  have 1: "dropWhile (\<lambda>c. c \<in> set delim) w = w"
    using assms by (cases w) auto
  have 2: "takeWhile (\<lambda>c. c \<notin> set delim) w = w" "dropWhile (\<lambda>c. c \<notin> set delim) w = []"
    using assms(2) by (simp_all add: takeWhile_eq_all_conv dropWhile_eq_Nil_conv)
  have 3: "strtok_all delim [] = []"
    by (subst strtok_all.simps) simp
  show ?thesis
    using assms(1) unfolding strtok_all.simps [of delim w] Let_def 1 2 3 by simp
qed

lemma c_streq_self: "CHR 0x00 \<notin> set w \<Longrightarrow> length w < n \<Longrightarrow> c_streq w (filled n w) = Ret True"
proof -
  have "c_streq w (w @ CHR 0x00 # r) = Ret True" for r
    by (induction w) auto
  then show "length w < n \<Longrightarrow> c_streq w (filled n w) = Ret True"
    by (simp add: filled_split)
qed

text \<open>
  C39: a library that has read one host in \<^verbatim>\<open>nt_host\<close> finds it, but the lookup frees the entry it
  finds and leaves it in the queue: the next lookup reads freed memory. So does \<^verbatim>\<open>free_conf\<close>, which
  asks an entry for its successor after it has freed it.
\<close>

theorem nt_host_use_after_free:
  assumes "conf_word IP_ADDRLEN h" "CHR '','' \<notin> set h"
  shows "\<exists>c1 c2. nts_load_conf [] (Some (conf_text [(''nt_host'', h)])) buf c = Ret (c1, 0, False)
    \<and> ip_is_valid h c1 = Ret (c2, 0) \<and> ip_is_valid h c2 = Undef \<and> free_conf c1 = Undef"
proof -
  have h: "h \<noteq> []" "length h < IP_ADDRLEN" "list_all word_char h" "conf_word MAX_VAL_LEN h"
    using assms(1) by (auto simp: conf_word_def)
  then have z: "CHR 0x00 \<notin> set h" "\<forall>c\<in>set h. c \<notin> set '' ,''"
    using assms(2) by (auto simp: list_all_iff word_char_def)
  let ?e = "\<lparr>host_ipaddr = filled IP_ADDRLEN h, host_ipaddrlen = of_nat (length h)\<rparr>"
  let ?c1 = "c\<lparr>nt_host_head := [nt_host_fresh c],
      nt_host_heap := (nt_host_heap c)(nt_host_fresh c \<mapsto> ?e), nt_host_fresh := Suc (nt_host_fresh c)\<rparr>"
  have "parse_nt_host [] (filled MAX_VAL_LEN h) c = Ret ?c1"
    using h z strtok_all_word [OF h(1) z(2)]
    by (simp add: parse_nt_host_def chars_of_filled) (simp add: filled_def)
  then have "nts_load_conf [] (Some (conf_text [(''nt_host'', h)])) buf c = Ret (?c1, 0, False)"
    using h by (simp add: nts_load_conf_def conf_loop_file conf_word_def word_char_def nts_set_param_def str_is_filled)
  moreover have "ip_is_valid h ?c1 = Ret (?c1\<lparr>nt_host_heap := (nt_host_heap ?c1)(nt_host_fresh c := None)\<rparr>, 0)"
      "ip_is_valid h (?c1\<lparr>nt_host_heap := (nt_host_heap ?c1)(nt_host_fresh c := None)\<rparr>) = Undef"
      "free_conf ?c1 = Undef"
    using c_streq_self [OF z(1) h(2)] by (simp_all add: ip_is_valid_def free_conf_def)
  ultimately show ?thesis
    by blast
qed

theorem nt_host_use_after_free_witness:
  "\<exists>c1 c2. nts_load_conf [] (Some (conf_text [(''nt_host'', ''10.0.0.2'')])) [] NTS_CONFIG = Ret (c1, 0, False)
    \<and> ip_is_valid ''10.0.0.2'' c1 = Ret (c2, 0) \<and> ip_is_valid ''10.0.0.2'' c2 = Undef \<and> free_conf c1 = Undef"
  by (rule nt_host_use_after_free) (simp_all add: conf_word_def word_char_def)

end
