(* ===== verification/Epoll_Msg.thy ===== *)
theory Epoll_Msg
  imports Epoll_Shm Epoll_Event_Queue Byte_Mem Hash_Map
begin

text \<open>
  The requests and responses about \<^verbatim>\<open>epoll\<close>, \<^verbatim>\<open>libfdu-utils/epoll_msg.h\<close>: the structure and the bytes that the
  channels carry, and the loop over the entries of a hash map that the handlers of these requests
  share. A field of type \<^verbatim>\<open>int\<close> is its 32 bits, read with \<^const>\<open>sint\<close> where the sign matters.
\<close>

section \<open>The message\<close>

abbreviation EPOLL_MSG_CREATE :: u32 where "EPOLL_MSG_CREATE \<equiv> 1"

abbreviation EPOLL_MSG_CTL :: u32 where "EPOLL_MSG_CTL \<equiv> 2"

abbreviation NTS_EPOLLNONE :: u32 where "NTS_EPOLLNONE \<equiv> 0"

abbreviation EPOLL_CTL_ADD :: u32 where "EPOLL_CTL_ADD \<equiv> 1"

abbreviation EPOLL_CTL_DEL :: u32 where "EPOLL_CTL_DEL \<equiv> 2"

abbreviation EPOLL_CTL_MOD :: u32 where "EPOLL_CTL_MOD \<equiv> 3"

abbreviation EPOLL_SHM_NAME_LEN :: nat where "EPOLL_SHM_NAME_LEN \<equiv> 64"

record epoll_msg =
  em_id :: u64
  em_msg_type :: u32
  em_status :: u32
  em_sockid :: u32
  em_sock_type :: u32
  em_retval :: u32
  em_nt_errno :: u32
  em_shm_addrlen :: u32
  em_epid :: u32
  em_epoll_op :: u32
  em_io_queue_size :: u32
  em_ep_data :: u64
  em_src_port :: u16
  em_dst_port :: u16
  em_events :: u32
  em_shm_name :: "byte list"

text \<open>The structure after \<^verbatim>\<open>memset(&msg, 0, sizeof(epoll_msg))\<close>.\<close>

definition zero_epoll_msg :: epoll_msg where
  "zero_epoll_msg =
     \<lparr>em_id = 0, em_msg_type = 0, em_status = 0, em_sockid = 0, em_sock_type = 0, em_retval = 0,
      em_nt_errno = 0, em_shm_addrlen = 0, em_epid = 0, em_epoll_op = 0, em_io_queue_size = 0,
      em_ep_data = 0, em_src_port = 0, em_dst_port = 0, em_events = 0,
      em_shm_name = replicate EPOLL_SHM_NAME_LEN 0\<rparr>"

definition put32 :: "u32 \<Rightarrow> byte list" where
  "put32 x = le_enc 4 (unat x)"

definition get32 :: "byte list \<Rightarrow> nat \<Rightarrow> u32" where
  "get32 m off = of_nat (le_dec (seg m off 4))"

definition epoll_bytes :: "epoll_msg \<Rightarrow> byte list" where
  "epoll_bytes m =
     put64 (em_id m) @ put32 (em_msg_type m) @ put32 (em_status m) @ put32 (em_sockid m) @
     put32 (em_sock_type m) @ put32 (em_retval m) @ put32 (em_nt_errno m) @ put32 (em_shm_addrlen m) @
     put32 (em_epid m) @ put32 (em_epoll_op m) @ put32 (em_io_queue_size m) @ put64 (em_ep_data m) @
     put16 (em_src_port m) @ put16 (em_dst_port m) @ put32 (em_events m) @ em_shm_name m"

definition epoll_of_bytes :: "byte list \<Rightarrow> epoll_msg" where
  "epoll_of_bytes b =
     \<lparr>em_id = get64 b 0, em_msg_type = get32 b 8, em_status = get32 b 12, em_sockid = get32 b 16,
      em_sock_type = get32 b 20, em_retval = get32 b 24, em_nt_errno = get32 b 28,
      em_shm_addrlen = get32 b 32, em_epid = get32 b 36, em_epoll_op = get32 b 40,
      em_io_queue_size = get32 b 44, em_ep_data = get64 b 48, em_src_port = get16 b 56,
      em_dst_port = get16 b 58, em_events = get32 b 60, em_shm_name = seg b 64 64\<rparr>"

lemma length_put32 [simp]: "length (put32 x) = 4"
  by (simp add: put32_def)

lemma length_epoll_bytes: "length (em_shm_name m) = EPOLL_SHM_NAME_LEN \<Longrightarrow> length (epoll_bytes m) = 128"
  by (simp add: epoll_bytes_def)

lemma get32_put32: "seg m off 4 = put32 x \<Longrightarrow> get32 m off = x"
proof -
  have "unat x < 256 ^ 4" using unsigned_less [of x] by simp
  then show "seg m off 4 = put32 x \<Longrightarrow> get32 m off = x" by (simp add: get32_def put32_def)
qed

lemma seg_field: "length a = off \<Longrightarrow> length f = n \<Longrightarrow> seg (a @ f @ r) off n = f"
  by (simp add: seg_def)

text \<open>The fields of the message, each with its place.\<close>

lemma epoll_fields:
  assumes "length (em_shm_name m) = EPOLL_SHM_NAME_LEN"
  shows "seg (epoll_bytes m) 0 8 = put64 (em_id m)" "seg (epoll_bytes m) 8 4 = put32 (em_msg_type m)"
    "seg (epoll_bytes m) 12 4 = put32 (em_status m)" "seg (epoll_bytes m) 16 4 = put32 (em_sockid m)"
    "seg (epoll_bytes m) 20 4 = put32 (em_sock_type m)" "seg (epoll_bytes m) 24 4 = put32 (em_retval m)"
    "seg (epoll_bytes m) 28 4 = put32 (em_nt_errno m)" "seg (epoll_bytes m) 32 4 = put32 (em_shm_addrlen m)"
    "seg (epoll_bytes m) 36 4 = put32 (em_epid m)" "seg (epoll_bytes m) 40 4 = put32 (em_epoll_op m)"
    "seg (epoll_bytes m) 44 4 = put32 (em_io_queue_size m)" "seg (epoll_bytes m) 48 8 = put64 (em_ep_data m)"
    "seg (epoll_bytes m) 56 2 = put16 (em_src_port m)" "seg (epoll_bytes m) 58 2 = put16 (em_dst_port m)"
    "seg (epoll_bytes m) 60 4 = put32 (em_events m)" "seg (epoll_bytes m) 64 64 = em_shm_name m"
  using assms by (simp_all add: seg_def epoll_bytes_def)

lemma epoll_bytes_inverse:
  "length (em_shm_name m) = EPOLL_SHM_NAME_LEN \<Longrightarrow> epoll_of_bytes (epoll_bytes m) = m"
  by (simp add: epoll_of_bytes_def epoll_fields get16_put16 get32_put32 get64_put64)

text \<open>The name in a message or a context, as far as its terminator.\<close>

definition name_of :: "byte list \<Rightarrow> string" where
  "name_of bs = map (\<lambda>b. char_of (unat b)) (cstr bs)"

section \<open>The loop over a hash map\<close>

text \<open>
  \<^verbatim>\<open>while (hasNextHashMapIterator(iter)) { iter = nextHashMapIterator(iter); ... iter->entry->value ... }\<close>,
  where the body is a step on the rest of the state. A step that finds no entry dereferences a null
  pointer; one that does not advance is repeated for ever. The first argument bounds the rounds.
\<close>

fun for_entries ::
  "nat \<Rightarrow> ('k, 'v) hashMap \<Rightarrow> hashMapIterator \<Rightarrow> ('v \<Rightarrow> 's \<Rightarrow> 's outcome) \<Rightarrow> 's \<Rightarrow> 's outcome"
where
  "for_entries 0 m it body s = (if hasNextHashMapIterator m it then Spin else Ret s)"
| "for_entries (Suc n) m it body s =
     (if \<not> hasNextHashMapIterator m it then Ret s
      else
        let it' = nextHashMapIterator m it in
        (case it_entry it' of
           None \<Rightarrow> Undef
         | Some (b, i) \<Rightarrow>
             if it_count it' = it_count it then Spin
             else bind_out (body (snd (hm_list m ! b ! i)) s) (for_entries n m it' body)))"

definition for_each :: "('k, 'v) hashMap \<Rightarrow> ('v \<Rightarrow> 's \<Rightarrow> 's outcome) \<Rightarrow> 's \<Rightarrow> 's outcome" where
  "for_each m = for_entries (nat (hm_size m)) m createHashMapIterator"

fun fold_out :: "('v \<Rightarrow> 's \<Rightarrow> 's outcome) \<Rightarrow> 'v list \<Rightarrow> 's \<Rightarrow> 's outcome" where
  "fold_out body [] s = Ret s"
| "fold_out body (v # vs) s = bind_out (body v s) (fold_out body vs)"

lemma for_entries_rest:
  assumes "length (hm_list m) = listSize m" "- 1 \<le> it_hashCode it"
    and "hm_size m = it_count it + int (length (it_rest m it))" "n = length (it_rest m it)"
  shows "for_entries n m it body s = fold_out body (map snd (it_rest m it)) s"
  using assms
proof (induction n arbitrary: it s)
  case 0
  then show ?case by (simp add: hasNextHashMapIterator_def)
next
  case (Suc n)
  then obtain e es where e: "it_rest m it = e # es" by (cases "it_rest m it") auto
  have nx: "hasNextHashMapIterator m it" using Suc.prems e by (simp add: hasNextHashMapIterator_def)
  from next_step [OF Suc.prems(1) nx e Suc.prems(2)] obtain b i where bi:
    "it_entry (nextHashMapIterator m it) = Some (b, i)" "hm_list m ! b ! i = e"
    "it_count (nextHashMapIterator m it) = it_count it + 1" "it_rest m (nextHashMapIterator m it) = es"
    "- 1 \<le> it_hashCode (nextHashMapIterator m it)" by blast
  have "for_entries n m (nextHashMapIterator m it) body = fold_out body (map snd es)"
    using Suc.IH [of "nextHashMapIterator m it"] Suc.prems e bi by (intro ext) simp
  with bi nx e show ?case by (simp add: Let_def)
qed

text \<open>On a well-formed table the loop runs its body once for each pair.\<close>

lemma for_each_entries:
  assumes "length (hm_list m) = listSize m" "hm_size m = int (length (hm_entries m))"
  shows "for_each m body s = fold_out body (map snd (hm_entries m)) s"
  using for_entries_rest [of m createHashMapIterator "nat (hm_size m)" body s] assms
  by (simp add: it_rest_def createHashMapIterator_def hm_entries_def for_each_def)

lemma fold_out_Undef:
  assumes "v \<in> set vs" "P s"
    and "\<And>w s. P s \<Longrightarrow> body w s = Undef \<or> (\<exists>s'. body w s = Ret s' \<and> P s')"
    and "\<And>s. P s \<Longrightarrow> body v s = Undef"
  shows "fold_out body vs s = Undef"
  using assms(1,2)
proof (induction vs arbitrary: s)
  case (Cons w vs)
  show ?case
  proof (cases "v = w")
    case True
    then show ?thesis using assms(4) Cons.prems(2) by simp
  next
    case False
    then show ?thesis
      using assms(3) [OF Cons.prems(2), of w] Cons by auto
  qed
qed simp

section \<open>A queue of messages\<close>

text \<open>A channel over the semaphore ring that is open, and the requests in it.\<close>

definition sem_ready :: "sem_ring ep_ctx \<Rightarrow> bool" where
  "sem_ready ctx \<longleftrightarrow> (\<exists>h. ep_handle ctx = Live h \<and> sem_inv h \<and> sr_ele_size h = EPOLL_MSG_SIZE)"

definition sem_ring_of :: "sem_ring ep_ctx \<Rightarrow> sem_ring" where
  "sem_ring_of ctx = (case ep_handle ctx of Live h \<Rightarrow> h)"

definition sem_msgs :: "sem_ring ep_ctx \<Rightarrow> byte list list" where
  "sem_msgs ctx = sem_contents (sem_ring_of ctx)"

definition sem_cap :: "sem_ring ep_ctx \<Rightarrow> nat" where
  "sem_cap ctx = unat (sr_capacity (sem_ring_of ctx))"

lemma sem_send_ok:
  assumes "sem_ready ctx" "length msg = 128" "length (sem_msgs ctx) < sem_cap ctx"
  shows "\<exists>ctx'. epoll_sem_shm_send False False ctx msg = Ret (0, ctx') \<and> sem_ready ctx' \<and>
     sem_msgs ctx' = sem_msgs ctx @ [msg] \<and> sem_cap ctx' = sem_cap ctx"
proof -
  obtain h where h: "ep_handle ctx = Live h" "sem_inv h" "sr_ele_size h = EPOLL_MSG_SIZE"
    using assms(1) by (auto simp: sem_ready_def)
  have e: "length msg = unat (sr_ele_size h)" and r: "sr_spool h < unat (sr_capacity h)"
    using assms(2,3) h by (simp_all add: sem_msgs_def sem_cap_def sem_ring_of_def sem_contents_def)
  from sem_push_room [OF h(2) e r] h(3) obtain h1 where
    "sem_shmring_push False False h msg EPOLL_MSG_SIZE = Ret (0, h1)" "sem_inv h1"
      "sem_contents h1 = sem_contents h @ [msg]" "sr_ele_size h1 = EPOLL_MSG_SIZE" "sr_capacity h1 = sr_capacity h" by auto
  then show ?thesis
    using h by (intro exI [of _ "ctx\<lparr>ep_handle := Live h1\<rparr>"])
      (simp add: epoll_sem_shm_send_def deref_def sem_ready_def sem_msgs_def sem_cap_def sem_ring_of_def)
qed

lemma sem_recv_ok:
  assumes "sem_ready ctx" "length buf = 128" "sem_msgs ctx = x # xs"
  shows "\<exists>ctx'. epoll_sem_shm_recv False ctx buf = Ret (0, x, ctx') \<and> sem_ready ctx' \<and>
     sem_msgs ctx' = xs \<and> sem_cap ctx' = sem_cap ctx"
proof -
  obtain h where h: "ep_handle ctx = Live h" "sem_inv h" "sr_ele_size h = EPOLL_MSG_SIZE"
    using assms(1) by (auto simp: sem_ready_def)
  have c: "sem_contents h = x # xs"
    using assms(3) h by (simp add: sem_msgs_def sem_ring_of_def)
  from sem_pop_some [OF h(2) c, of buf] h(3) assms(2) obtain h1 where
    "sem_shmring_pop False h buf EPOLL_MSG_SIZE = Ret (0, x, h1)" "sem_inv h1"
      "sem_contents h1 = xs" "sr_ele_size h1 = EPOLL_MSG_SIZE" "sr_capacity h1 = sr_capacity h" by auto
  then show ?thesis
    using h by (intro exI [of _ "ctx\<lparr>ep_handle := Live h1\<rparr>"])
      (simp add: epoll_sem_shm_recv_def deref_def sem_ready_def sem_msgs_def sem_cap_def sem_ring_of_def)
qed

text \<open>With nothing in the queue the receiver waits.\<close>

lemma sem_recv_waits:
  assumes "sem_ready ctx" "sem_msgs ctx = []"
  shows "epoll_sem_shm_recv False ctx buf = Spin"
proof -
  obtain h where h: "ep_handle ctx = Live h" "sem_contents h = []"
    using assms by (auto simp: sem_ready_def sem_msgs_def sem_ring_of_def)
  then have "sr_spool h = 0"
    by (metis length_0_conv length_ring_cells sem_contents_def)
  then show ?thesis
    using h by (simp add: epoll_sem_shm_recv_def deref_def sem_shmring_pop_def sem_wait_def Let_def)
qed

end
