(* ===== verification/Ntm_Epoll.thy ===== *)
theory Ntm_Epoll
  imports Ntm_Requests Epoll_Msg Id_Map
begin

unbundle bit_operations_syntax

text \<open>
  The requests about \<^verbatim>\<open>epoll\<close> at the monitor: the handlers of \<^verbatim>\<open>monitor/src/ntb_monitor.c\<close> that
  \<^const>\<open>nts_shm_handle_msg\<close> takes as an argument. A handler asks the proxy over one queue and waits for
  its response on the other; what the proxy does to the two queues in between is an argument. What the destructors of an event queue and
  of a channel give back to the system is stated where they are defined; the handlers do not carry it on.
\<close>

section \<open>Talking to the proxy and to the application\<close>

text \<open>The queue of requests and the queue of responses.\<close>

type_synonym ep_move = "sem_ring ep_ctx \<times> sem_ring ep_ctx \<Rightarrow> sem_ring ep_ctx \<times> sem_ring ep_ctx"

text \<open>
  The answers of the system: the new context, its channel and its event queue, the memory of the
  messages on the stack, the interrupted waits, what the proxy does, and how often the application
  reads while the monitor writes to it.
\<close>

record ntm_ep_os =
  po_ctx :: "nat option"
  po_shm :: bool
  po_shm_name :: bool
  po_shm_os :: shm_os
  po_queue :: "ep_region sem_os"
  po_req :: epoll_msg
  po_resp :: epoll_msg
  po_buf :: "byte list"
  po_send :: "bool \<times> bool"
  po_recv :: bool
  po_proxy :: ep_move
  po_env :: "nat list"

definition ep_moves :: "ep_move \<Rightarrow> ntm_manager \<Rightarrow> ntm_manager" where
  "ep_moves f m = (case f (mg_ep_recv m, mg_ep_send m) of (rq, rs) \<Rightarrow> m\<lparr>mg_ep_recv := rq, mg_ep_send := rs\<rparr>)"

text \<open>A request to the proxy and its response: whether both calls and the proxy succeed.\<close>

definition ask_epoll :: "ntm_ep_os \<Rightarrow> ntm_manager \<Rightarrow> epoll_msg \<Rightarrow> (bool \<times> ntm_manager) outcome" where
  "ask_epoll os m req =
     bind_out (epoll_sem_shm_send (fst (po_send os)) (snd (po_send os)) (mg_ep_recv m) (epoll_bytes req)) (\<lambda>(rc, ctx).
     let m1 = m\<lparr>mg_ep_recv := ctx\<rparr> in
     if rc \<noteq> 0 then Ret (False, m1)
     else
       let m2 = ep_moves (po_proxy os) m1 in
       bind_out (epoll_sem_shm_recv (po_recv os) (mg_ep_send m2) (po_buf os)) (\<lambda>(rc', buf, ctx').
         Ret (rc' = 0 \<and> em_retval (epoll_of_bytes buf) = 0, m2\<lparr>mg_ep_send := ctx'\<rparr>)))"

definition epoll_of :: "ntm_manager \<Rightarrow> nat \<Rightarrow> ntm_epoll outcome" where
  "epoll_of m a = (case mg_epolls m a of None \<Rightarrow> Undef | Some e \<Rightarrow> Ret e)"

abbreviation put_epoll :: "ntm_manager \<Rightarrow> nat \<Rightarrow> ntm_epoll \<Rightarrow> ntm_manager" where
  "put_epoll m a e \<equiv> m\<lparr>mg_epolls := (mg_epolls m)(a \<mapsto> e)\<rparr>"

text \<open>\<^verbatim>\<open>epoll_shm_send(epoll_ctx->epoll_shm_ctx, &msg)\<close>, whose result is only logged.\<close>

definition answer_epoll :: "ntm_ep_os \<Rightarrow> ntm_manager \<Rightarrow> nat \<Rightarrow> epoll_msg \<Rightarrow> ntm_manager outcome" where
  "answer_epoll os m a msg =
     bind_out (epoll_of m a) (\<lambda>e.
     bind_out (epoll_shm_send (po_env os) (ne_shm e) (epoll_bytes msg)) (\<lambda>(_, ctx).
       Ret (put_epoll m a (e\<lparr>ne_shm := ctx\<rparr>))))"

section \<open>Create\<close>

abbreviation EP_SHM_QUEUE_PREFIX :: string where "EP_SHM_QUEUE_PREFIX \<equiv> ''epoll-io-queue-''"

definition queue_name :: "u32 \<Rightarrow> string" where
  "queue_name i = EP_SHM_QUEUE_PREFIX @ int_string (sint i)"

definition name_bytes :: "string \<Rightarrow> byte list" where
  "name_bytes s = map (\<lambda>c. of_char c) s @ [0]"

text \<open>Closing the channel and freeing the socket; the context is freed with them.\<close>

definition abandon_epoll :: "ntm_manager \<Rightarrow> shmring ep_ctx \<Rightarrow> nt_socket \<Rightarrow> ntm_manager outcome" where
  "abandon_epoll m ctx s = bind_out (epoll_shm_slave_close ctx) (\<lambda>_. drop_socket m s)"

text \<open>
  The request to the proxy and the response to the application, for a context whose channel and event queue
  are ready. The context enters the heap with the map.
\<close>

definition announce_epoll ::
  "ntm_ep_os \<Rightarrow> ntm_manager \<Rightarrow> ntm_msg \<Rightarrow> nat \<Rightarrow> nat \<Rightarrow> nt_socket \<Rightarrow> shmring ep_ctx \<Rightarrow> epoll_event_queue \<Rightarrow> ntm_manager outcome"
where
  "announce_epoll os m msg a i s ctx q =
     (let name = name_bytes (queue_name (sockid s)); len = length name in
      bind_out (memcpy (em_shm_name (po_req os)) name len) (\<lambda>nm.
      bind_out (ask_epoll os m
         ((po_req os)\<lparr>em_id := nm_msg_id msg, em_sockid := sockid s, em_sock_type := NT_SOCK_EPOLL,
            em_msg_type := EPOLL_MSG_CREATE, em_io_queue_size := of_int (nm_io_queue_size msg),
            em_shm_addrlen := of_nat len, em_shm_name := nm\<rparr>)) (\<lambda>(ok, m1).
      if \<not> ok then abandon_epoll m1 ctx s
      else
        bind_out (memcpy (em_shm_name (po_resp os)) name len) (\<lambda>nm'.
        bind_out (epoll_shm_send (po_env os) ctx (epoll_bytes
           ((po_resp os)\<lparr>em_id := nm_msg_id msg, em_retval := 0, em_sockid := sockid s, em_msg_type := EPOLL_MSG_CREATE,
              em_shm_addrlen := of_nat len, em_shm_name := nm'\<rparr>))) (\<lambda>(retval, ctx').
        if retval \<noteq> 0 then abandon_epoll m1 ctx' s
        else
          bind_out (map_put (epoll_ctx_map m1) (sockid s) a) (\<lambda>em.
            Ret (put_sock (put_epoll (m1\<lparr>epoll_ctx_map := em\<rparr>) a
                 \<lparr>ne_socket = i, ne_shm = ctx', ne_queue_size = nm_io_queue_size msg, ne_queue = q,
                  ne_sockets = Live createHashMap\<rparr>) i (s\<lparr>sk_state := CLOSED\<rparr>))))))))"

definition handle_msg_nts_epoll_create :: "ntm_ep_os \<Rightarrow> ntm_manager \<Rightarrow> ntm_msg \<Rightarrow> ntm_manager outcome" where
  "handle_msg_nts_epoll_create os m msg =
     (if nm_nts_shm_addrlen msg < 0 then Ret m
      else if nm_io_queue_size msg < 0 then Ret m
      else if of_int (nm_sock_type msg) \<noteq> NT_SOCK_EPOLL then Ret m
      else
        case po_ctx os of
          None \<Rightarrow> Ret m
        | Some a \<Rightarrow>
            bind_out (allocate_socket (mg_socks m) (of_int (nm_sock_type msg))) (\<lambda>(i, sc).
            let m1 = m\<lparr>mg_socks := sc\<rparr> in
            bind_out (sock_of m1 i) (\<lambda>s.
            bind_out (memcpy_int (replicate EPOLL_SHM_NAME_LEN 0) (nm_nts_shm_name msg) (nm_nts_shm_addrlen msg)) (\<lambda>addr.
            case epoll_shm (po_shm os) of
              None \<Rightarrow> Abort
            | Some ctx0 \<Rightarrow>
                bind_out (epoll_shm_connect (po_shm_name os) (po_shm_os os) ctx0 (name_of addr)
                   (of_int (nm_nts_shm_addrlen msg))) (\<lambda>(retval, ctx, _).
                if retval \<noteq> 0 then drop_socket m1 s
                else
                  let name = queue_name (sockid s) in
                  bind_out (ep_event_queue_create (po_queue os) name (of_nat (Suc (length name)))
                     (of_int (nm_io_queue_size msg))) (\<lambda>(queue, _).
                  case queue of
                    None \<Rightarrow> abandon_epoll m1 ctx s
                  | Some q \<Rightarrow> announce_epoll os m1 msg a i s ctx q))))))"

section \<open>Control\<close>

abbreviation (input) EEXIST :: u32 where "EEXIST \<equiv> 17"

abbreviation (input) ENOENT :: u32 where "ENOENT \<equiv> 2"

abbreviation (input) CTL_ADD :: int where "CTL_ADD \<equiv> 1"

abbreviation (input) CTL_DEL :: int where "CTL_DEL \<equiv> 2"

abbreviation (input) CTL_MOD :: int where "CTL_MOD \<equiv> 3"

definition ctl_answer :: "ntm_ep_os \<Rightarrow> ntm_msg \<Rightarrow> epoll_msg" where
  "ctl_answer os msg =
     (po_resp os)\<lparr>em_id := nm_msg_id msg, em_msg_type := EPOLL_MSG_CTL, em_epoll_op := of_int (nm_epoll_op msg)\<rparr>"

text \<open>The error of an operation that does not fit the state of the socket.\<close>

definition ctl_conflict :: "ntm_msg \<Rightarrow> nt_socket \<Rightarrow> u32 option" where
  "ctl_conflict msg s =
     (if nm_epoll_op msg = CTL_ADD then (if sk_epoll s \<noteq> 0 then Some EEXIST else None)
      else if sk_epoll s = 0 then Some ENOENT else None)"

text \<open>The socket after the operation.\<close>

definition ctl_socket :: "ntm_msg \<Rightarrow> nt_socket \<Rightarrow> nt_socket" where
  "ctl_socket msg s =
     (if nm_epoll_op msg = CTL_DEL then s\<lparr>sk_epoll := NTS_EPOLLNONE\<rparr>
      else s\<lparr>ep_data := nm_ep_data msg, sk_epoll := nm_events msg\<rparr>)"

text \<open>A listener is kept by the monitor: the map of the context and the context of the connection.\<close>

definition ctl_listener :: "ntm_ep_os \<Rightarrow> ntm_manager \<Rightarrow> ntm_msg \<Rightarrow> nat \<Rightarrow> nat \<Rightarrow> nat \<Rightarrow> nt_socket \<Rightarrow> ntm_manager outcome" where
  "ctl_listener os m msg a b i s =
     bind_out (answer_epoll os m a ((ctl_answer os msg)\<lparr>em_retval := 0\<rparr>)) (\<lambda>m1.
     bind_out (epoll_of m1 a) (\<lambda>e.
     bind_out (conn_of m1 b) (\<lambda>c.
     if nm_epoll_op msg = CTL_ADD then
       bind_out (deref (ne_sockets e)) (\<lambda>sm.
       bind_out (map_put sm (sockid s) i) (\<lambda>sm'.
         Ret (put_conn (put_epoll m1 a (e\<lparr>ne_sockets := Live sm'\<rparr>)) b (c\<lparr>nx_epoll_ctx := Some a\<rparr>))))
     else if nm_epoll_op msg = CTL_DEL then
       bind_out (deref (ne_sockets e)) (\<lambda>sm.
       bind_out (map_remove sm (sockid s)) (\<lambda>sm'.
         Ret (put_conn (put_epoll m1 a (e\<lparr>ne_sockets := Live sm'\<rparr>)) b (c\<lparr>nx_epoll_ctx := None\<rparr>))))
     else Ret m1)))"

text \<open>The request to the proxy; the ports are only set when a socket is added, events and data not when it is removed.\<close>

definition ctl_request :: "ntm_ep_os \<Rightarrow> ntm_msg \<Rightarrow> nt_socket \<Rightarrow> nts_shm_conn \<Rightarrow> epoll_msg" where
  "ctl_request os msg s c =
     (let r = (po_req os)\<lparr>em_id := nm_msg_id msg, em_sockid := of_int (nm_sockid msg), em_msg_type := EPOLL_MSG_CTL,
                em_epid := of_int (nm_epid msg), em_epoll_op := of_int (nm_epoll_op msg)\<rparr>;
          r1 = (if nm_epoll_op msg = CTL_ADD
                then r\<lparr>em_src_port := sin_port (saddr s), em_dst_port := ucast (nx_peer_port c)\<rparr> else r)
      in if nm_epoll_op msg = CTL_ADD \<or> nm_epoll_op msg = CTL_MOD
         then r1\<lparr>em_ep_data := nm_ep_data msg, em_events := nm_events msg\<rparr> else r1)"

definition handle_msg_nts_epoll_ctl :: "ntm_ep_os \<Rightarrow> ntm_manager \<Rightarrow> ntm_msg \<Rightarrow> ntm_manager outcome" where
  "handle_msg_nts_epoll_ctl os m msg =
     (if nm_sockid msg < 0 then Ret m
      else if nm_epid msg < 0 then Ret m
      else if of_int (nm_sock_type msg) = NT_SOCK_UNUSED \<or> of_int (nm_sock_type msg) = NT_SOCK_EPOLL then Ret m
      else if nm_epoll_op msg \<noteq> CTL_ADD \<and> nm_epoll_op msg \<noteq> CTL_DEL \<and> nm_epoll_op msg \<noteq> CTL_MOD then Ret m
      else
        bind_out (map_get (epoll_ctx_map m) (of_int (nm_epid msg))) (\<lambda>g.
        case g of
          None \<Rightarrow> Ret m
        | Some a \<Rightarrow>
            bind_out (map_get (nts_shm_conn_map m) (of_int (nm_sockid msg))) (\<lambda>h.
            case h of
              None \<Rightarrow> Ret m
            | Some b \<Rightarrow>
                bind_out (conn_of m b) (\<lambda>c.
                bind_out (conn_socket m c) (\<lambda>(i, s).
                case ctl_conflict msg s of
                  Some err \<Rightarrow> answer_epoll os m a ((ctl_answer os msg)\<lparr>em_retval := - 1, em_nt_errno := err\<rparr>)
                | None \<Rightarrow>
                    let s1 = ctl_socket msg s; m1 = put_sock m i s1 in
                    if socktype s1 = NT_SOCK_LISTENER then ctl_listener os m1 msg a b i s1
                    else
                      bind_out (ask_epoll os m1 (ctl_request os msg s1 c)) (\<lambda>(ok, m2).
                      if \<not> ok then Ret m2
                      else answer_epoll os m2 a ((ctl_answer os msg)\<lparr>em_retval := 0\<rparr>)))))))"

section \<open>Close\<close>

definition unwatch_listener :: "nat \<Rightarrow> ntm_manager \<Rightarrow> ntm_manager outcome" where
  "unwatch_listener i m = bind_out (sock_of m i) (\<lambda>s. Ret (put_sock m i (s\<lparr>sk_epoll := NTS_EPOLLNONE\<rparr>)))"

text \<open>The answer to the application and the end of the context, after the proxy has closed its own.\<close>

definition epoll_finish :: "ntm_ep_os \<Rightarrow> ntm_manager \<Rightarrow> ntm_msg \<Rightarrow> nat \<Rightarrow> nt_socket \<Rightarrow> ntm_manager outcome" where
  "epoll_finish os m msg a s =
     bind_out (answer_epoll os m a ((po_resp os)\<lparr>em_id := nm_msg_id msg, em_retval := 0,
         em_epid := of_int (nm_epid msg), em_msg_type := of_nat EPOLL_MSG_CLOSE\<rparr>)) (\<lambda>m1.
     bind_out (epoll_of m1 a) (\<lambda>e.
     bind_out (epoll_shm_slave_close (ne_shm e)) (\<lambda>_.
     bind_out (map_remove (epoll_ctx_map m1) (sockid s)) (\<lambda>em.
     drop_socket (m1\<lparr>epoll_ctx_map := em, mg_epolls := (mg_epolls m1)(a := None)\<rparr>) s))))"

text \<open>
  The map of the listeners is freed before the proxy is asked, and its pointer is null from there on. The
  socket of a context is never null and its identifier has no sign.
\<close>

definition handle_msg_nts_epoll_close :: "ntm_ep_os \<Rightarrow> ntm_manager \<Rightarrow> ntm_msg \<Rightarrow> ntm_manager outcome" where
  "handle_msg_nts_epoll_close os m msg =
     (if nm_epid msg < 0 \<or> of_int (nm_sock_type msg) \<noteq> NT_SOCK_EPOLL then Ret m
      else
        bind_out (map_get (epoll_ctx_map m) (of_int (nm_epid msg))) (\<lambda>g.
        case g of
          None \<Rightarrow> Ret m
        | Some a \<Rightarrow>
            bind_out (epoll_of m a) (\<lambda>e.
            bind_out (sock_of m (ne_socket e)) (\<lambda>s.
            bind_out (deref (ne_sockets e)) (\<lambda>sm.
            bind_out (for_each sm unwatch_listener m) (\<lambda>m1.
            let m2 = put_epoll m1 a (e\<lparr>ne_sockets := Null\<rparr>) in
            bind_out (ask_epoll os m2
               ((po_req os)\<lparr>em_id := nm_msg_id msg, em_sock_type := NT_SOCK_EPOLL, em_msg_type := of_nat EPOLL_MSG_CLOSE,
                  em_epid := of_int (nm_epid msg)\<rparr>)) (\<lambda>(ok, m3).
            if ok then epoll_finish os m3 msg a s else Ret m3)))))))"

section \<open>Dispatch\<close>

text \<open>The end of the chain of tests in \<^verbatim>\<open>nts_shm_handle_msg\<close>; \<^verbatim>\<open>handle_msg_nts_epoll_wait\<close> is empty.\<close>

definition epoll_handle_msg :: "ntm_ep_os \<Rightarrow> ntm_manager \<Rightarrow> ntm_msg \<Rightarrow> ntm_manager outcome" where
  "epoll_handle_msg os m msg =
     (let t = nm_msg_type msg in
      if bit t NTM_MSG_EPOLL_CREATE then handle_msg_nts_epoll_create os m msg
      else if bit t NTM_MSG_EPOLL_CTL then handle_msg_nts_epoll_ctl os m msg
      else if bit t NTM_MSG_EPOLL_CLOSE then handle_msg_nts_epoll_close os m msg
      else Ret m)"

end
