(* ===== verification/Ntp_Epoll.thy ===== *)
theory Ntp_Epoll
  imports Id_Map Epoll_Msg
begin

text \<open>
  The requests about \<^verbatim>\<open>epoll\<close> at the proxy: \<^verbatim>\<open>ntp_handle_epoll_msg\<close> with its three handlers in
  \<^verbatim>\<open>ntb-proxy/src/ntp_func.c\<close>, and the thread of \<^verbatim>\<open>main.c\<close> that takes them from the queue.
  What \<^verbatim>\<open>ep_event_queue_free\<close> gives back to the system is stated where it is defined; the handlers do not carry it on.
\<close>

section \<open>Handlers\<close>

text \<open>
  The answers of the system to one request: the new context, the event queue, whether the waits of
  the two sends are interrupted, and of the receive.
\<close>

record ntp_ep_os =
  eo_ctx :: "nat option"
  eo_queue :: "ep_region sem_os"
  eo_send1 :: "bool \<times> bool"
  eo_send2 :: "bool \<times> bool"
  eo_recv :: bool

definition send_epoll :: "bool \<times> bool \<Rightarrow> ntb_link_custom \<Rightarrow> epoll_msg \<Rightarrow> (int \<times> ntb_link_custom) outcome" where
  "send_epoll intr lk msg =
     bind_out (epoll_sem_shm_send (fst intr) (snd intr) (lk_ep_send lk) (epoll_bytes msg)) (\<lambda>(rc, ctx).
       Ret (rc, lk\<lparr>lk_ep_send := ctx\<rparr>))"

text \<open>The label \<^verbatim>\<open>FAIL\<close>: the result of the send is ignored.\<close>

definition refuse_epoll :: "bool \<times> bool \<Rightarrow> ntb_link_custom \<Rightarrow> epoll_msg \<Rightarrow> (int \<times> ntb_link_custom) outcome" where
  "refuse_epoll intr lk msg =
     bind_out (send_epoll intr lk (msg\<lparr>em_retval := - 1\<rparr>)) (\<lambda>(_, lk'). Ret (- 1, lk'))"

definition handle_epoll_create_msg ::
  "ntp_ep_os \<Rightarrow> ntb_link_custom \<Rightarrow> epoll_msg \<Rightarrow> (int \<times> ntb_link_custom) outcome"
where
  "handle_epoll_create_msg os lk req =
     (let resp = zero_epoll_msg\<lparr>em_id := em_id req, em_msg_type := em_msg_type req, em_retval := 0\<rparr> in
      case eo_ctx os of
        None \<Rightarrow> Ret (- 1, lk)
      | Some a \<Rightarrow>
          bind_out (memcpy_int (replicate EPOLL_SHM_NAME_LEN 0) (em_shm_name req) (sint (em_shm_addrlen req))) (\<lambda>addr.
          bind_out (ep_event_queue_init (eo_queue os) (name_of addr) (scast (em_shm_addrlen req))
             (scast (em_io_queue_size req))) (\<lambda>(queue, _).
          case queue of
            None \<Rightarrow> refuse_epoll (eo_send1 os) lk resp
          | Some q \<Rightarrow>
              bind_out (send_epoll (eo_send1 os) lk resp) (\<lambda>(rc, lk1).
              if rc \<noteq> 0 then refuse_epoll (eo_send2 os) lk1 resp
              else
                bind_out (map_put (lk_epoll_ctx_map lk1) (em_sockid req) a) (\<lambda>cm.
                  Ret (0, lk1\<lparr>lk_epoll_ctx_map := cm,
                     lk_epolls := (lk_epolls lk1)(a \<mapsto>
                       \<lparr>ec_epoll_fd = em_sockid req, ec_shmaddr = name_of addr,
                        ec_shmlen = sint (em_shm_addrlen req), ec_queue_size = sint (em_io_queue_size req),
                        ec_queue = q, ec_conn_map = createHashMap\<rparr>)\<rparr>))))))"

definition epoll_at :: "ntb_link_custom \<Rightarrow> nat \<Rightarrow> epoll_context outcome" where
  "epoll_at lk a = (case lk_epolls lk a of None \<Rightarrow> Undef | Some e \<Rightarrow> Ret e)"

text \<open>
  The connection of a request, by its ports when it is to be added, else by the identifier of its
  socket. A connection that is added is entered into the map of the context first.
\<close>

definition find_watched ::
  "ntb_link_custom \<Rightarrow> nat \<Rightarrow> epoll_msg \<Rightarrow> (nat option \<times> ntb_link_custom) outcome"
where
  "find_watched lk a req =
     bind_out (epoll_at lk a) (\<lambda>e.
     if em_epoll_op req = EPOLL_CTL_ADD then
       let conn_id = create_conn_id (ntohs (ucast (em_src_port req))) (ntohs (ucast (em_dst_port req))) in
       bind_out (map_get (lk_port2conn lk) conn_id) (\<lambda>g.
       case g of
         None \<Rightarrow> Ret (None, lk)
       | Some r \<Rightarrow>
           bind_out (conn_at lk r) (\<lambda>c.
           bind_out (map_put (ec_conn_map e) (em_sockid req) r) (\<lambda>cm.
             Ret (Some r, (set_conn lk r (c\<lparr>nc_sockid := em_sockid req, nc_epoll_ctx := Live a\<rparr>))
               \<lparr>lk_epolls := (lk_epolls lk)(a \<mapsto> e\<lparr>ec_conn_map := cm\<rparr>)\<rparr>))))
     else bind_out (map_get (ec_conn_map e) (em_sockid req)) (\<lambda>g. Ret (g, lk)))"

text \<open>The events and the data of the connection, after the operation.\<close>

definition set_watched :: "ntb_link_custom \<Rightarrow> nat \<Rightarrow> nat \<Rightarrow> epoll_msg \<Rightarrow> ntb_link_custom outcome" where
  "set_watched lk a r req =
     bind_out (conn_at lk r) (\<lambda>c.
     if em_epoll_op req = EPOLL_CTL_ADD \<or> em_epoll_op req = EPOLL_CTL_MOD then
       Ret (set_conn lk r (c\<lparr>nc_epoll := em_events req, nc_ep_data := em_ep_data req\<rparr>))
     else if em_epoll_op req = EPOLL_CTL_DEL then
       bind_out (epoll_at lk a) (\<lambda>e.
       bind_out (map_remove (ec_conn_map e) (nc_sockid c)) (\<lambda>cm.
         Ret ((set_conn lk r (c\<lparr>nc_epoll := NTS_EPOLLNONE\<rparr>))
           \<lparr>lk_epolls := (lk_epolls lk)(a \<mapsto> e\<lparr>ec_conn_map := cm\<rparr>)\<rparr>)))
     else Ret lk)"

definition handle_epoll_ctl_msg ::
  "ntp_ep_os \<Rightarrow> ntb_link_custom \<Rightarrow> epoll_msg \<Rightarrow> (int \<times> ntb_link_custom) outcome"
where
  "handle_epoll_ctl_msg os lk req =
     (let resp = zero_epoll_msg\<lparr>em_id := em_id req, em_msg_type := em_msg_type req, em_epid := em_epid req,
                   em_epoll_op := em_epoll_op req, em_retval := 0\<rparr> in
      bind_out (map_get (lk_epoll_ctx_map lk) (em_epid req)) (\<lambda>g.
      case g of
        None \<Rightarrow> refuse_epoll (eo_send1 os) lk resp
      | Some a \<Rightarrow>
          bind_out (find_watched lk a req) (\<lambda>(conn, lk1).
          case conn of
            None \<Rightarrow> refuse_epoll (eo_send1 os) lk1 resp
          | Some r \<Rightarrow>
              bind_out (set_watched lk1 a r req) (\<lambda>lk2.
              bind_out (send_epoll (eo_send1 os) lk2 resp) (\<lambda>(rc, lk3).
              if rc \<noteq> 0 then refuse_epoll (eo_send2 os) lk3 resp else Ret (0, lk3))))))"

text \<open>One step of the loop that ends the watching of the connections of a context.\<close>

definition unwatch :: "nat \<Rightarrow> ntb_link_custom \<Rightarrow> ntb_link_custom outcome" where
  "unwatch r lk =
     bind_out (conn_at lk r) (\<lambda>c. Ret (set_conn lk r (c\<lparr>nc_epoll := NTS_EPOLLNONE, nc_epoll_ctx := Null\<rparr>)))"

text \<open>The context that is not known is answered with \<open>- 1\<close>; the result of the last send is ignored.\<close>

definition handle_epoll_close_msg ::
  "ntp_ep_os \<Rightarrow> ntb_link_custom \<Rightarrow> epoll_msg \<Rightarrow> (int \<times> ntb_link_custom) outcome"
where
  "handle_epoll_close_msg os lk req =
     (let resp = zero_epoll_msg\<lparr>em_id := em_id req, em_msg_type := em_msg_type req, em_retval := 0\<rparr> in
      bind_out (map_get (lk_epoll_ctx_map lk) (em_epid req)) (\<lambda>g.
      case g of
        None \<Rightarrow> refuse_epoll (eo_send1 os) lk resp
      | Some a \<Rightarrow>
          bind_out (epoll_at lk a) (\<lambda>e.
          bind_out (for_each (ec_conn_map e) unwatch lk) (\<lambda>lk1.
          bind_out (map_remove (lk_epoll_ctx_map lk1) (em_epid req)) (\<lambda>cm.
          bind_out (send_epoll (eo_send1 os)
             (lk1\<lparr>lk_epoll_ctx_map := cm, lk_epolls := (lk_epolls lk1)(a := None)\<rparr>) resp) (\<lambda>(_, lk2).
            Ret (0, lk2)))))))"

definition ntp_handle_epoll_msg ::
  "ntp_ep_os \<Rightarrow> ntb_link_custom \<Rightarrow> epoll_msg \<Rightarrow> (int \<times> ntb_link_custom) outcome"
where
  "ntp_handle_epoll_msg os lk req =
     (if em_msg_type req = EPOLL_MSG_CREATE then handle_epoll_create_msg os lk req
      else if em_msg_type req = EPOLL_MSG_CTL then handle_epoll_ctl_msg os lk req
      else if em_msg_type req = of_nat EPOLL_MSG_CLOSE then handle_epoll_close_msg os lk req
      else Ret (- 1, lk))"

section \<open>The thread\<close>

text \<open>
  One round of \<^verbatim>\<open>ntp_epoll_listen_thread\<close>: the first component is whether the loop goes on. The buffer
  of the request keeps its bytes between the rounds; \<open>stop\<close> is \<^verbatim>\<open>is_stop\<close> after the receive.
\<close>

definition epoll_listen_turn ::
  "ntp_ep_os \<Rightarrow> bool \<Rightarrow> ntb_link_custom \<Rightarrow> sem_ring ep_ctx \<Rightarrow> byte list
     \<Rightarrow> (bool \<times> ntb_link_custom \<times> sem_ring ep_ctx \<times> byte list) outcome"
where
  "epoll_listen_turn os stop lk ctx buf =
     bind_out (epoll_sem_shm_recv (eo_recv os) ctx buf) (\<lambda>(rc, buf', ctx').
     if rc \<noteq> 0 \<or> stop then Ret (False, lk, ctx', buf')
     else
       bind_out (ntp_handle_epoll_msg os lk (epoll_of_bytes buf')) (\<lambda>(rc', lk').
         Ret (rc' = 0, lk', ctx', buf')))"

text \<open>The thread over the requests that are in the queue: it waits for more, or it has ended.\<close>

fun ntp_epoll_listen_thread ::
  "ntp_ep_os list \<Rightarrow> ntb_link_custom \<Rightarrow> sem_ring ep_ctx \<Rightarrow> byte list
     \<Rightarrow> (bool \<times> ntb_link_custom \<times> sem_ring ep_ctx \<times> byte list) outcome"
where
  "ntp_epoll_listen_thread [] lk ctx buf = Ret (True, lk, ctx, buf)"
| "ntp_epoll_listen_thread (os # oss) lk ctx buf =
     bind_out (epoll_listen_turn os False lk ctx buf) (\<lambda>(go, lk', ctx', buf').
     if go then ntp_epoll_listen_thread oss lk' ctx' buf' else Ret (False, lk', ctx', buf'))"


section \<open>What a context watches\<close>

text \<open>The connection that is watched under the identifier of a socket, with its events and its data.\<close>

definition interest :: "ntb_link_custom \<Rightarrow> nat \<Rightarrow> u32 \<Rightarrow> (nat \<times> u32 \<times> u64) option" where
  "interest lk a i =
     (case lk_epolls lk a of
        None \<Rightarrow> None
      | Some e \<Rightarrow>
          (case id_lookup (ec_conn_map e) i of
             None \<Rightarrow> None
           | Some r \<Rightarrow>
               (case lk_conns lk r of None \<Rightarrow> None | Some c \<Rightarrow> Some (r, nc_epoll c, nc_ep_data c))))"

text \<open>Every connection that a context watches is there and has the identifier it is watched under.\<close>

definition watch_inv :: "ntb_link_custom \<Rightarrow> nat \<Rightarrow> bool" where
  "watch_inv lk a \<longleftrightarrow>
     (\<exists>e. lk_epolls lk a = Some e \<and> ids_ok (ec_conn_map e) \<and>
        (\<forall>i r. id_lookup (ec_conn_map e) i = Some r \<longrightarrow>
           (\<exists>c. lk_conns lk r = Some c \<and> id_ok (nc_sockid c) \<and> id_str (nc_sockid c) = id_str i)))"

text \<open>The effect of a request on what is watched, as the operation of \<^verbatim>\<open>epoll_ctl\<close> is meant.\<close>

definition ctl_spec ::
  "epoll_msg \<Rightarrow> nat \<Rightarrow> (u32 \<Rightarrow> (nat \<times> u32 \<times> u64) option) \<Rightarrow> u32 \<Rightarrow> (nat \<times> u32 \<times> u64) option"
where
  "ctl_spec req r f i =
     (if id_str i \<noteq> id_str (em_sockid req) then f i
      else if em_epoll_op req = EPOLL_CTL_DEL then None
      else Some (r, em_events req, em_ep_data req))"

text \<open>The connection that a request is about, when the proxy can serve it.\<close>

definition ctl_target :: "ntb_link_custom \<Rightarrow> nat \<Rightarrow> epoll_msg \<Rightarrow> nat \<Rightarrow> bool" where
  "ctl_target lk a req r \<longleftrightarrow>
     (if em_epoll_op req = EPOLL_CTL_ADD then
        let cid = create_conn_id (ntohs (ucast (em_src_port req))) (ntohs (ucast (em_dst_port req))) in
        id_ok cid \<and> id_lookup (lk_port2conn lk) cid = Some r \<and> lk_conns lk r \<noteq> None \<and>
        interest lk a (em_sockid req) = None \<and> (\<forall>j. \<forall>ev. interest lk a j \<noteq> Some (r, ev))
      else em_epoll_op req \<in> {EPOLL_CTL_MOD, EPOLL_CTL_DEL} \<and> (\<exists>ev. interest lk a (em_sockid req) = Some (r, ev)))"

lemma watch_invE:
  assumes "watch_inv lk a"
  obtains e where "lk_epolls lk a = Some e" "ids_ok (ec_conn_map e)"
    "\<forall>i r. id_lookup (ec_conn_map e) i = Some r \<longrightarrow>
       (\<exists>c. lk_conns lk r = Some c \<and> id_ok (nc_sockid c) \<and> id_str (nc_sockid c) = id_str i)"
  using assms by (auto simp: watch_inv_def)

lemma watch_invI:
  assumes "lk_epolls lk a = Some e" "ids_ok (ec_conn_map e)"
    and "\<And>i r. id_lookup (ec_conn_map e) i = Some r \<Longrightarrow>
       \<exists>c. lk_conns lk r = Some c \<and> id_ok (nc_sockid c) \<and> id_str (nc_sockid c) = id_str i"
  shows "watch_inv lk a"
  using assms unfolding watch_inv_def by blast

lemma interest_None:
  "watch_inv lk a \<Longrightarrow> lk_epolls lk a = Some e \<Longrightarrow> interest lk a i = None \<longleftrightarrow> id_lookup (ec_conn_map e) i = None"
  by (fastforce simp: interest_def watch_inv_def split: option.splits)

lemma interest_Some:
  "lk_epolls lk a = Some e \<Longrightarrow> interest lk a i = Some (r, ev) \<longleftrightarrow>
     id_lookup (ec_conn_map e) i = Some r \<and> (\<exists>c. lk_conns lk r = Some c \<and> ev = (nc_epoll c, nc_ep_data c))"
  by (auto simp: interest_def split: option.splits)

text \<open>An added connection, a changed one and a removed one.\<close>

lemma watch_add:
  assumes inv: "watch_inv lk a" and op: "em_epoll_op req = EPOLL_CTL_ADD" and t: "ctl_target lk a req r"
    and ok: "ids_ok (lk_port2conn lk)" "id_ok (em_sockid req)"
  shows "\<exists>lk1 lk2. find_watched lk a req = Ret (Some r, lk1) \<and> set_watched lk1 a r req = Ret lk2 \<and>
     watch_inv lk2 a \<and> interest lk2 a = ctl_spec req r (interest lk a) \<and>
     lk2 = lk\<lparr>lk_conns := lk_conns lk2, lk_epolls := lk_epolls lk2\<rparr>"
proof -
  let ?cid = "create_conn_id (ntohs (ucast (em_src_port req))) (ntohs (ucast (em_dst_port req)))"
  obtain e where e: "lk_epolls lk a = Some e" "ids_ok (ec_conn_map e)"
    and w: "\<forall>i r. id_lookup (ec_conn_map e) i = Some r \<longrightarrow>
       (\<exists>c. lk_conns lk r = Some c \<and> id_ok (nc_sockid c) \<and> id_str (nc_sockid c) = id_str i)"
    using inv by (rule watch_invE)
  obtain c where c: "id_ok ?cid" "id_lookup (lk_port2conn lk) ?cid = Some r" "lk_conns lk r = Some c"
    and new: "id_lookup (ec_conn_map e) (em_sockid req) = None"
    using t op interest_None [OF inv e(1)] by (auto simp: ctl_target_def Let_def)
  have other: "id_lookup (ec_conn_map e) j \<noteq> Some r" for j
    using t op interest_Some [OF e(1)] c(3) by (fastforce simp: ctl_target_def Let_def)
  obtain cm where cm: "map_put (ec_conn_map e) (em_sockid req) r = Ret cm" "ids_ok cm"
      "\<forall>j. id_lookup cm j = (if id_str j = id_str (em_sockid req) then Some r else id_lookup (ec_conn_map e) j)"
    using map_put_key [OF e(2) ok(2) new, of r] by blast
  let ?c1 = "c\<lparr>nc_sockid := em_sockid req, nc_epoll_ctx := Live a\<rparr>"
  let ?lk1 = "(set_conn lk r ?c1)\<lparr>lk_epolls := (lk_epolls lk)(a \<mapsto> e\<lparr>ec_conn_map := cm\<rparr>)\<rparr>"
  let ?lk2 = "set_conn ?lk1 r (?c1\<lparr>nc_epoll := em_events req, nc_ep_data := em_ep_data req\<rparr>)"
  have "find_watched lk a req = Ret (Some r, ?lk1)"
    using e c op cm map_get_key [OF ok(1) c(1)] by (simp add: find_watched_def epoll_at_def conn_at_def Let_def)
  moreover have "set_watched ?lk1 a r req = Ret ?lk2"
    using op by (simp add: set_watched_def conn_at_def)
  moreover have "watch_inv ?lk2 a"
    using w cm other ok(2) by (auto simp: watch_inv_def)
  moreover have "interest ?lk2 a = ctl_spec req r (interest lk a)"
    using e cm other op by (auto simp: interest_def ctl_spec_def fun_eq_iff split: option.splits)
  ultimately show ?thesis
    by - (rule exI [of _ ?lk1], rule exI [of _ ?lk2], simp)
qed

lemma watch_change:
  assumes inv: "watch_inv lk a" and op: "em_epoll_op req \<noteq> EPOLL_CTL_ADD" and t: "ctl_target lk a req r"
    and ok: "id_ok (em_sockid req)"
  shows "\<exists>lk2. find_watched lk a req = Ret (Some r, lk) \<and> set_watched lk a r req = Ret lk2 \<and>
     watch_inv lk2 a \<and> interest lk2 a = ctl_spec req r (interest lk a) \<and>
     lk2 = lk\<lparr>lk_conns := lk_conns lk2, lk_epolls := lk_epolls lk2\<rparr>"
proof -
  obtain e where e: "lk_epolls lk a = Some e" "ids_ok (ec_conn_map e)"
    and w: "\<forall>i r. id_lookup (ec_conn_map e) i = Some r \<longrightarrow>
       (\<exists>c. lk_conns lk r = Some c \<and> id_ok (nc_sockid c) \<and> id_str (nc_sockid c) = id_str i)"
    using inv by (rule watch_invE)
  have l: "id_lookup (ec_conn_map e) (em_sockid req) = Some r" and opt: "em_epoll_op req \<in> {EPOLL_CTL_MOD, EPOLL_CTL_DEL}"
    using t op interest_Some [OF e(1)] by (auto simp: ctl_target_def)
  obtain c where c: "lk_conns lk r = Some c" "id_ok (nc_sockid c)" "id_str (nc_sockid c) = id_str (em_sockid req)"
    using w l by blast
  have only: "id_str i = id_str (em_sockid req)" if "id_lookup (ec_conn_map e) i = Some r" for i
    using w that c by fastforce
  have same: "id_lookup (ec_conn_map e) i = Some r" if "id_str i = id_str (em_sockid req)" for i
    using id_lookup_cong [OF that] l by simp
  have f: "find_watched lk a req = Ret (Some r, lk)"
    using e op l map_get_key [OF e(2) ok] by (simp add: find_watched_def epoll_at_def)
  show ?thesis
  proof (cases "em_epoll_op req = EPOLL_CTL_MOD")
    case True
    let ?lk2 = "set_conn lk r (c\<lparr>nc_epoll := em_events req, nc_ep_data := em_ep_data req\<rparr>)"
    have "set_watched lk a r req = Ret ?lk2"
      using True c by (simp add: set_watched_def conn_at_def)
    moreover have live: "\<exists>c'. lk_conns ?lk2 r' = Some c' \<and> id_ok (nc_sockid c') \<and> id_str (nc_sockid c') = id_str i"
      if "id_lookup (ec_conn_map e) i = Some r'" for i r'
      using w that c only [of i] by (cases "r' = r") auto
    moreover have "watch_inv ?lk2 a"
      by (rule watch_invI [of _ _ e]) (simp_all only: e(2) live, simp add: e(1))
    moreover have "interest ?lk2 a i = ctl_spec req r (interest lk a) i" for i
      using e(1) only [of i] same [of i] True
      by (cases "id_str i = id_str (em_sockid req)")
        (auto simp: interest_def ctl_spec_def split: option.splits)
    then have "interest ?lk2 a = ctl_spec req r (interest lk a)"
      by (rule ext)
    ultimately show ?thesis
      using f by (intro exI [of _ ?lk2]) simp
  next
    case False
    then have del: "em_epoll_op req = EPOLL_CTL_DEL"
      using opt by simp
    obtain cm where cm: "map_remove (ec_conn_map e) (nc_sockid c) = Ret cm" "ids_ok cm"
        "\<forall>j. id_lookup cm j = (if id_str j = id_str (nc_sockid c) then None else id_lookup (ec_conn_map e) j)"
      using map_remove_key [OF e(2) c(2)] by blast
    let ?lk2 = "(set_conn lk r (c\<lparr>nc_epoll := NTS_EPOLLNONE\<rparr>))\<lparr>lk_epolls := (lk_epolls lk)(a \<mapsto> e\<lparr>ec_conn_map := cm\<rparr>)\<rparr>"
    have "set_watched lk a r req = Ret ?lk2"
      using del c e cm by (simp add: set_watched_def conn_at_def epoll_at_def)
    moreover have live: "\<exists>c'. lk_conns ?lk2 r' = Some c' \<and> id_ok (nc_sockid c') \<and> id_str (nc_sockid c') = id_str i"
      if "id_lookup cm i = Some r'" for i r'
      using w that c cm(3) only [of i] by (cases "r' = r") (auto split: if_splits)
    moreover have "watch_inv ?lk2 a"
      by (rule watch_invI [of _ _ "e\<lparr>ec_conn_map := cm\<rparr>"], simp, simp add: cm(2), rule live, simp)
    moreover have "interest ?lk2 a i = ctl_spec req r (interest lk a) i" for i
      using e(1) only [of i] del cm(3) c(3)
      by (cases "id_str i = id_str (em_sockid req)")
        (auto simp: interest_def ctl_spec_def split: option.splits)
    then have "interest ?lk2 a = ctl_spec req r (interest lk a)"
      by (rule ext)
    ultimately show ?thesis
      using f by (intro exI [of _ ?lk2]) simp
  qed
qed


section \<open>Serving a request\<close>

text \<open>A proxy that can answer: its maps are well formed and its queue of responses has room.\<close>

definition ep_serves :: "ntb_link_custom \<Rightarrow> bool" where
  "ep_serves lk \<longleftrightarrow> ids_ok (lk_port2conn lk) \<and> ids_ok (lk_epoll_ctx_map lk) \<and>
     sem_ready (lk_ep_send lk) \<and> length (sem_msgs (lk_ep_send lk)) < sem_cap (lk_ep_send lk)"

definition quiet :: "ntp_ep_os \<Rightarrow> bool" where
  "quiet os \<longleftrightarrow> eo_send1 os = (False, False) \<and> eo_send2 os = (False, False) \<and> \<not> eo_recv os"

definition ctl_response :: "epoll_msg \<Rightarrow> u32 \<Rightarrow> epoll_msg" where
  "ctl_response req rv =
     zero_epoll_msg\<lparr>em_id := em_id req, em_msg_type := em_msg_type req, em_epid := em_epid req,
       em_epoll_op := em_epoll_op req, em_retval := rv\<rparr>"

lemma send_epoll_ok:
  assumes "ep_serves lk" "length (em_shm_name msg) = EPOLL_SHM_NAME_LEN"
  shows "\<exists>ctx. send_epoll (False, False) lk msg = Ret (0, lk\<lparr>lk_ep_send := ctx\<rparr>) \<and> sem_ready ctx \<and>
     sem_msgs ctx = sem_msgs (lk_ep_send lk) @ [epoll_bytes msg] \<and> sem_cap ctx = sem_cap (lk_ep_send lk)"
  using sem_send_ok [of "lk_ep_send lk" "epoll_bytes msg"] length_epoll_bytes [OF assms(2)] assms(1)
  by (auto simp: send_epoll_def ep_serves_def)

lemma zero_name [simp]: "length (em_shm_name zero_epoll_msg) = 64"
  by (simp add: zero_epoll_msg_def)

text \<open>The queue of responses plays no part in what is watched.\<close>

lemma watch_send [simp]:
  "interest (lk\<lparr>lk_ep_send := q\<rparr>) = interest lk" "watch_inv (lk\<lparr>lk_ep_send := q\<rparr>) = watch_inv lk"
  "ctl_target (lk\<lparr>lk_ep_send := q\<rparr>) = ctl_target lk"
proof -
  show i: "interest (lk\<lparr>lk_ep_send := q\<rparr>) = interest lk"
    by (intro ext) (auto simp: interest_def split: option.splits)
  show "watch_inv (lk\<lparr>lk_ep_send := q\<rparr>) = watch_inv lk"
    by (intro ext) (simp add: watch_inv_def)
  show "ctl_target (lk\<lparr>lk_ep_send := q\<rparr>) = ctl_target lk"
    by (intro ext) (simp add: ctl_target_def i)
qed

lemma ctl_served:
  assumes "ep_serves lk" "quiet os" "id_ok (em_epid req)" "id_ok (em_sockid req)"
    and "id_lookup (lk_epoll_ctx_map lk) (em_epid req) = Some a" "watch_inv lk a" "ctl_target lk a req r"
  shows "\<exists>lk'. handle_epoll_ctl_msg os lk req = Ret (0, lk') \<and> watch_inv lk' a \<and>
     interest lk' a = ctl_spec req r (interest lk a) \<and> sem_ready (lk_ep_send lk') \<and>
     sem_msgs (lk_ep_send lk') = sem_msgs (lk_ep_send lk) @ [epoll_bytes (ctl_response req 0)] \<and>
     sem_cap (lk_ep_send lk') = sem_cap (lk_ep_send lk)"
proof -
  obtain lk1 lk2 where w: "find_watched lk a req = Ret (Some r, lk1)" "set_watched lk1 a r req = Ret lk2"
      "watch_inv lk2 a" "interest lk2 a = ctl_spec req r (interest lk a)"
    and fr: "lk2 = lk\<lparr>lk_conns := lk_conns lk2, lk_epolls := lk_epolls lk2\<rparr>"
  proof (cases "em_epoll_op req = EPOLL_CTL_ADD")
    case True
    have "ids_ok (lk_port2conn lk)" using assms(1) by (simp add: ep_serves_def)
    from watch_add [OF assms(6) True assms(7) this assms(4)] that show thesis by blast
  next
    case False
    from watch_change [OF assms(6) False assms(7) assms(4)] that show thesis by blast
  qed
  have "lk_ep_send lk2 = lk_ep_send lk" "lk_port2conn lk2 = lk_port2conn lk"
      "lk_epoll_ctx_map lk2 = lk_epoll_ctx_map lk"
    by (subst fr, simp)+
  then have same: "lk_ep_send lk2 = lk_ep_send lk" "ep_serves lk2"
    using assms(1) by (simp_all add: ep_serves_def)
  obtain ctx where ctx: "send_epoll (False, False) lk2 (ctl_response req 0) = Ret (0, lk2\<lparr>lk_ep_send := ctx\<rparr>)" "sem_ready ctx"
      "sem_msgs ctx = sem_msgs (lk_ep_send lk) @ [epoll_bytes (ctl_response req 0)]" "sem_cap ctx = sem_cap (lk_ep_send lk)"
    using send_epoll_ok [OF same(2), of "ctl_response req 0"] same(1) by (auto simp: ctl_response_def)
  have g: "map_get (lk_epoll_ctx_map lk) (em_epid req) = Ret (Some a)"
    using map_get_key [of "lk_epoll_ctx_map lk" "em_epid req"] assms by (simp add: ep_serves_def)
  have "handle_epoll_ctl_msg os lk req = Ret (0, lk2\<lparr>lk_ep_send := ctx\<rparr>)"
    using assms(2) g w(1,2) ctx(1) by (simp add: handle_epoll_ctl_msg_def Let_def quiet_def ctl_response_def)
  then show ?thesis
    using w ctx by (intro exI [of _ "lk2\<lparr>lk_ep_send := ctx\<rparr>"]) simp
qed


section \<open>An example\<close>

text \<open>
  A proxy with one connection from port 1 to port 2 and one context, number 5, that watches it under the
  identifier 9 or does not watch anything; \<open>pm\<close>, \<open>xm\<close> and \<open>cm\<close> are its three maps.
\<close>

definition demo_ep_conn :: ntb_conn where
  "demo_ep_conn =
     (let ch = \<lparr>shm_stat = NTP_SHM_UNREADY, ntsring_handle = None, ctx_addr = [], slot_size = 128,
                 node_idxs_cache = [], max_lens = [], mp_handler = None\<rparr>
      in \<lparr>nc_partition = Live 0, nc_partition_id = 0, nc_detect_time = 0, nc_conn_id = create_conn_id 1 2,
          nc_state = READY_CONN, nc_send_ring = ch, nc_recv_ring = ch, nc_ep_data = 3, nc_epoll = 1, nc_sockid = 9,
          nc_epoll_ctx = Live 0\<rparr>)"

definition demo_ep_queue :: epoll_event_queue where
  "demo_ep_queue =
     \<lparr>eq_start = 0, eq_end = 0, eq_size = 1, eq_num_events = 0,
      eq_events = [\<lparr>ei_sockid = 0, ei_ev = \<lparr>ev_data = 0, ev_events = 0\<rparr>\<rparr>], eq_capacity = 1, eq_mutex = 1,
      eq_empty_sem = 1, eq_full_sem = 0, eq_addr = ''e'', eq_fd = 3\<rparr>"

definition demo_ep_link :: "(key, nat) hashMap \<Rightarrow> (key, nat) hashMap \<Rightarrow> (key, nat) hashMap \<Rightarrow> ntb_link_custom" where
  "demo_ep_link pm xm cm =
     (let r = \<lparr>rb_cur_index = 0, rb_area = [], rb_capacity = 8\<rparr>;
          dl = \<lparr>local_cum = 0, remote_cum = 0, local_ring = r, remote_ring = r\<rparr>
      in \<lparr>lk_conns = [0 \<mapsto> demo_ep_conn],
          lk_epolls = [0 \<mapsto> \<lparr>ec_epoll_fd = 5, ec_shmaddr = ''e'', ec_shmlen = 2, ec_queue_size = 1,
             ec_queue = demo_ep_queue, ec_conn_map = cm\<rparr>],
          lk_port2conn = pm, lk_ntp_ntm = \<lparr>sc_stat = SHM_UNREADY, sc_handle = Null, sc_addr = Null, sc_addrlen = 0\<rparr>,
          lk_ep_send = demo_sem_ctx, lk_epoll_ctx_map = xm, lk_num_partition = 1,
          lk_partitions = [\<lparr>pt_id = 0, pt_num_conns = 1, pt_recv_packet_counter = 0, pt_send_list = [0], pt_data_link = dl\<rparr>],
          lk_round_robin_idx = 0, lk_ctrl_link = dl\<rparr>)"

definition demo_ep_os :: ntp_ep_os where
  "demo_ep_os =
     \<lparr>eo_ctx = None,
      eo_queue = \<lparr>so_handle = False, so_data = False, so_open = - 1, so_errno_retry = False, so_reopen = - 1,
        so_ftruncate = False, so_mmap = None, so_mutex = None, so_buf_count = None, so_spool = None, so_post = False\<rparr>,
      eo_send1 = (False, False), eo_send2 = (False, False), eo_recv = False\<rparr>"

definition demo_ep_req :: "u32 \<Rightarrow> u32 \<Rightarrow> epoll_msg" where
  "demo_ep_req t op = zero_epoll_msg\<lparr>em_id := 1, em_msg_type := t, em_sockid := 9, em_epid := 5, em_epoll_op := op,
     em_ep_data := 7, em_events := 1, em_src_port := 0x0100, em_dst_port := 0x0200\<rparr>"

text \<open>A map with one entry.\<close>

lemma one_entry:
  assumes "id_ok i"
  obtains m where "ids_ok m" "\<forall>j. id_lookup m j = (if id_str j = id_str i then Some v else None)"
  using map_put_key [OF ids_ok_new(1) assms ids_ok_new(2), of v] by (auto simp: ids_ok_new(2))

lemma demo_sem_ready: "sem_ready demo_sem_ctx" "sem_msgs demo_sem_ctx = []" "sem_cap demo_sem_ctx = 2"
  by (auto simp: sem_ready_def sem_msgs_def sem_cap_def sem_ring_of_def demo_sem_ctx_def sem_inv_def sem_contents_def
      demo_req_def ring_cells_def)

lemma demo_ids: "id_ok 5" "id_ok 9" "id_ok (create_conn_id 1 2)"
  by (simp_all add: id_ok_small create_conn_id_def)

lemma demo_quiet: "quiet demo_ep_os"
  by (simp add: quiet_def demo_ep_os_def)

lemma demo_ports_of: "create_conn_id (ntohs (ucast (em_src_port (demo_ep_req t op)))) (ntohs (ucast (em_dst_port (demo_ep_req t op))))
    = create_conn_id 1 2"
  by (simp add: demo_ep_req_def ntohs_def take_bit_eq_mod)

section \<open>Properties\<close>

text \<open>
  C16: the proxy implements \<^verbatim>\<open>epoll_ctl\<close>. A request to add, change or remove a connection that it
  can serve succeeds, changes what the context watches as the operation says and nothing else of it,
  keeps every watched connection registered under its own identifier, and is answered by one
  response with result zero.
\<close>

theorem epoll_ctl_refines:
  assumes "ep_serves lk" "quiet os" "em_msg_type req = EPOLL_MSG_CTL" "id_ok (em_epid req)" "id_ok (em_sockid req)"
    and "id_lookup (lk_epoll_ctx_map lk) (em_epid req) = Some a" "watch_inv lk a" "ctl_target lk a req r"
  shows "\<exists>lk'. ntp_handle_epoll_msg os lk req = Ret (0, lk') \<and> watch_inv lk' a \<and>
     interest lk' a = ctl_spec req r (interest lk a) \<and>
     sem_msgs (lk_ep_send lk') = sem_msgs (lk_ep_send lk) @ [epoll_bytes (ctl_response req 0)]"
  using ctl_served [OF assms(1,2,4-8)] assms(3) by (auto simp: ntp_handle_epoll_msg_def)

theorem epoll_ctl_refines_witness:
  "\<exists>lk lk'. interest lk 0 9 = None \<and> ntp_handle_epoll_msg demo_ep_os lk (demo_ep_req EPOLL_MSG_CTL EPOLL_CTL_ADD) = Ret (0, lk') \<and>
     interest lk' 0 9 = Some (0, 1, 7)"
proof -
  let ?req = "demo_ep_req EPOLL_MSG_CTL EPOLL_CTL_ADD"
  obtain pm where pm: "ids_ok pm" "\<forall>j. id_lookup pm j = (if id_str j = id_str (create_conn_id 1 2) then Some 0 else None)"
    using one_entry [OF demo_ids(3)] .
  obtain xm where xm: "ids_ok xm" "\<forall>j. id_lookup xm j = (if id_str j = id_str 5 then Some 0 else None)"
    using one_entry [OF demo_ids(1)] .
  let ?lk = "demo_ep_link pm xm createHashMap"
  have s: "ep_serves ?lk" "id_lookup (lk_epoll_ctx_map ?lk) 5 = Some 0" "lk_port2conn ?lk = pm"
    using pm xm by (simp_all add: ep_serves_def demo_ep_link_def Let_def demo_sem_ready)
  have none: "interest ?lk 0 j = None" for j
    by (simp add: interest_def demo_ep_link_def Let_def ids_ok_new)
  have w: "watch_inv ?lk 0"
    by (simp add: watch_inv_def demo_ep_link_def Let_def ids_ok_new)
  have c: "lk_conns ?lk 0 \<noteq> None"
    by (simp add: demo_ep_link_def Let_def)
  have t: "ctl_target ?lk 0 ?req 0"
    unfolding ctl_target_def demo_ports_of Let_def s(3) using pm demo_ids none c by (simp add: demo_ep_req_def)
  have r: "em_msg_type ?req = EPOLL_MSG_CTL" "em_epid ?req = 5" "em_sockid ?req = 9" "em_events ?req = 1" "em_ep_data ?req = 7"
      "em_epoll_op ?req = EPOLL_CTL_ADD"
    by (simp_all add: demo_ep_req_def)
  obtain lk' where "ntp_handle_epoll_msg demo_ep_os ?lk ?req = Ret (0, lk')" "interest lk' 0 = ctl_spec ?req 0 (interest ?lk 0)"
    using epoll_ctl_refines [OF s(1) demo_quiet r(1) _ _ _ w t] demo_ids s(2) r by auto
  then show ?thesis
    using none by (intro exI [of _ ?lk] exI [of _ lk']) (simp add: ctl_spec_def r)
qed

text \<open>A request for a context, or to add a connection, that the proxy does not know.\<close>

definition ctl_unknown :: "ntb_link_custom \<Rightarrow> epoll_msg \<Rightarrow> bool" where
  "ctl_unknown lk req \<longleftrightarrow> id_ok (em_epid req) \<and>
     (case id_lookup (lk_epoll_ctx_map lk) (em_epid req) of
        None \<Rightarrow> True
      | Some a \<Rightarrow> lk_epolls lk a \<noteq> None \<and> em_epoll_op req = EPOLL_CTL_ADD \<and>
          (let cid = create_conn_id (ntohs (ucast (em_src_port req))) (ntohs (ucast (em_dst_port req)))
           in id_ok cid \<and> id_lookup (lk_port2conn lk) cid = None))"

lemma ctl_refused:
  assumes "ep_serves lk" "quiet os" "ctl_unknown lk req"
  shows "\<exists>ctx. handle_epoll_ctl_msg os lk req = Ret (- 1, lk\<lparr>lk_ep_send := ctx\<rparr>) \<and> sem_ready ctx \<and>
     sem_msgs ctx = sem_msgs (lk_ep_send lk) @ [epoll_bytes (ctl_response req (- 1))] \<and> sem_cap ctx = sem_cap (lk_ep_send lk)"
proof -
  let ?cid = "create_conn_id (ntohs (ucast (em_src_port req))) (ntohs (ucast (em_dst_port req)))"
  let ?resp = "zero_epoll_msg\<lparr>em_id := em_id req, em_msg_type := em_msg_type req, em_epid := em_epid req,
      em_epoll_op := em_epoll_op req, em_retval := 0\<rparr>"
  have g: "map_get (lk_epoll_ctx_map lk) (em_epid req) = Ret (id_lookup (lk_epoll_ctx_map lk) (em_epid req))"
    using map_get_key [of "lk_epoll_ctx_map lk" "em_epid req"] assms by (simp add: ep_serves_def ctl_unknown_def)
  have p: "id_ok ?cid \<Longrightarrow> map_get (lk_port2conn lk) ?cid = Ret (id_lookup (lk_port2conn lk) ?cid)"
    using map_get_key [of "lk_port2conn lk" ?cid] assms by (simp add: ep_serves_def)
  have h: "handle_epoll_ctl_msg os lk req = refuse_epoll (eo_send1 os) lk ?resp"
    using assms(3) g p
    by (auto simp: handle_epoll_ctl_msg_def ctl_unknown_def Let_def find_watched_def epoll_at_def split: option.splits)
  have r: "?resp\<lparr>em_retval := - 1\<rparr> = ctl_response req (- 1)"
    by (simp add: ctl_response_def)
  obtain ctx where "send_epoll (False, False) lk (ctl_response req (- 1)) = Ret (0, lk\<lparr>lk_ep_send := ctx\<rparr>)" "sem_ready ctx"
      "sem_msgs ctx = sem_msgs (lk_ep_send lk) @ [epoll_bytes (ctl_response req (- 1))]" "sem_cap ctx = sem_cap (lk_ep_send lk)"
    using send_epoll_ok [OF assms(1), of "ctl_response req (- 1)"] by (auto simp: ctl_response_def)
  then show ?thesis
    using assms(2) unfolding h refuse_epoll_def r by (intro exI [of _ ctx]) (simp add: quiet_def)
qed

text \<open>
  One request that the proxy refuses ends its thread for these requests. After an \<^verbatim>\<open>epoll_ctl\<close> for a
  context or a connection that does not exist, the requests behind it stay in the queue whatever they are.
\<close>

theorem epoll_thread_ends:
  assumes "ep_serves lk" "quiet os" "sem_ready ctx" "sem_msgs ctx = epoll_bytes req # rest" "length buf = 128"
    and "length (em_shm_name req) = EPOLL_SHM_NAME_LEN" "em_msg_type req = EPOLL_MSG_CTL" "ctl_unknown lk req"
  shows "\<exists>lk' ctx'. ntp_epoll_listen_thread (os # oss) lk ctx buf = Ret (False, lk', ctx', epoll_bytes req) \<and>
     sem_msgs ctx' = rest \<and> sem_msgs (lk_ep_send lk') = sem_msgs (lk_ep_send lk) @ [epoll_bytes (ctl_response req (- 1))]"
proof -
  obtain ctx' where c: "epoll_sem_shm_recv False ctx buf = Ret (0, epoll_bytes req, ctx')" "sem_msgs ctx' = rest"
    using sem_recv_ok [OF assms(3,5,4)] by blast
  obtain rs where "handle_epoll_ctl_msg os lk req = Ret (- 1, lk\<lparr>lk_ep_send := rs\<rparr>)"
      "sem_msgs rs = sem_msgs (lk_ep_send lk) @ [epoll_bytes (ctl_response req (- 1))]"
    using ctl_refused [OF assms(1,2,8)] by blast
  then show ?thesis
    using c assms(2,7) by (simp add: epoll_listen_turn_def quiet_def epoll_bytes_inverse [OF assms(6)] ntp_handle_epoll_msg_def)
qed

theorem epoll_thread_ends_witness:
  "\<exists>lk ctx lk' ctx'. ntp_epoll_listen_thread [demo_ep_os, demo_ep_os] lk ctx (demo_req 0) = Ret (False, lk', ctx', epoll_bytes (demo_ep_req EPOLL_MSG_CTL EPOLL_CTL_ADD)) \<and>
     sem_msgs ctx' = [epoll_bytes (demo_ep_req EPOLL_MSG_CREATE 0)]"
proof -
  let ?a = "demo_ep_req EPOLL_MSG_CTL EPOLL_CTL_ADD" and ?b = "demo_ep_req EPOLL_MSG_CREATE 0"
  let ?lk = "demo_ep_link createHashMap createHashMap createHashMap"
  have n: "length (em_shm_name ?a) = EPOLL_SHM_NAME_LEN" "length (em_shm_name ?b) = EPOLL_SHM_NAME_LEN"
    by (simp_all add: demo_ep_req_def)
  obtain c1 where c1: "sem_ready c1" "sem_msgs c1 = [epoll_bytes ?a]" "sem_cap c1 = 2"
    using sem_send_ok [OF demo_sem_ready(1) length_epoll_bytes [OF n(1)]] demo_sem_ready by auto
  obtain c2 where c2: "sem_ready c2" "sem_msgs c2 = [epoll_bytes ?a, epoll_bytes ?b]"
    using sem_send_ok [OF c1(1) length_epoll_bytes [OF n(2)]] c1 by auto
  have s: "ep_serves ?lk" "ctl_unknown ?lk ?a"
    using demo_ids
    by (simp_all add: ep_serves_def demo_ep_link_def Let_def demo_sem_ready ids_ok_new ctl_unknown_def demo_ep_req_def)
  have r: "length (demo_req 0) = 128" "em_msg_type ?a = EPOLL_MSG_CTL"
    by (simp_all add: demo_ep_req_def demo_req_def)
  from epoll_thread_ends [OF s(1) demo_quiet c2 r(1) n(1) r(2) s(2), of "[demo_ep_os]"] show ?thesis
    by blast
qed

lemma lookup_in_entries: "id_lookup m i = Some r \<Longrightarrow> r \<in> set (map snd (hm_entries m))"
  by (force simp: id_lookup_def hm_map_def dest: map_of_SomeD)

lemma for_each_freed:
  assumes "ids_ok m" "id_lookup m i = Some r" "lk_conns lk r = None"
  shows "for_each m unwatch lk = Undef"
proof -
  have "fold_out unwatch (map snd (hm_entries m)) lk = Undef"
  proof (rule fold_out_Undef [where P = "\<lambda>l. lk_conns l r = None", OF lookup_in_entries [OF assms(2)]])
    show "unwatch w s = Undef \<or> (\<exists>s'. unwatch w s = Ret s' \<and> lk_conns s' r = None)" if "lk_conns s r = None" for w s
      using that by (auto simp: unwatch_def conn_at_def split: option.splits)
  qed (use assms(3) in \<open>auto simp: unwatch_def conn_at_def\<close>)
  then show ?thesis
    using assms(1) by (subst for_each_entries) (simp_all add: hm_inv_def hm_wf_def)
qed

text \<open>
  C38: when a connection that a context watches is closed, the send thread frees it and the context
  keeps it: closing the context later writes to freed memory.
\<close>

theorem epoll_close_freed_conn:
  assumes "ids_ok (lk_epoll_ctx_map lk)" "id_ok (em_epid req)"
    and "id_lookup (lk_epoll_ctx_map lk) (em_epid req) = Some a" "watch_inv lk a" "interest lk a i = Some (r, ev)"
    and "ntb_conn_remove lk pidx k = Ret (lk', calls)" "pt_send_list (lk_partitions lk ! pidx) ! k = r"
  shows "handle_epoll_close_msg os lk' req = Undef"
proof -
  obtain e where e: "lk_epolls lk a = Some e" "ids_ok (ec_conn_map e)"
    using assms(4) by (rule watch_invE)
  have l: "id_lookup (ec_conn_map e) i = Some r"
    using assms(5) interest_Some [OF e(1)] by blast
  have lk': "lk_epolls lk' = lk_epolls lk" "lk_epoll_ctx_map lk' = lk_epoll_ctx_map lk" "lk_conns lk' r = None"
    using assms(6,7) by (auto simp: ntb_conn_remove_def array_get_Ret case_prod_beta)
  have "map_get (lk_epoll_ctx_map lk') (em_epid req) = Ret (Some a)"
    using map_get_key [OF assms(1,2)] assms(3) lk'(2) by simp
  then show ?thesis
    using for_each_freed [OF e(2) l lk'(3)] e(1) lk'(1)
    by (simp add: handle_epoll_close_msg_def Let_def epoll_at_def)
qed

theorem epoll_close_freed_conn_witness:
  "\<exists>lk lk' calls. ntb_conn_remove lk 0 0 = Ret (lk', calls) \<and> interest lk 0 9 \<noteq> None \<and>
     handle_epoll_close_msg demo_ep_os lk' (demo_ep_req 4 0) = Undef"
proof -
  obtain pm where pm: "ids_ok pm" "\<forall>j. id_lookup pm j = (if id_str j = id_str (create_conn_id 1 2) then Some 0 else None)"
    using one_entry [OF demo_ids(3)] .
  obtain xm where xm: "ids_ok xm" "\<forall>j. id_lookup xm j = (if id_str j = id_str 5 then Some 0 else None)"
    using one_entry [OF demo_ids(1)] .
  obtain cm where cm: "ids_ok cm" "\<forall>j. id_lookup cm j = (if id_str j = id_str 9 then Some 0 else None)"
    using one_entry [OF demo_ids(2)] .
  let ?lk = "demo_ep_link pm xm cm"
  have w: "watch_inv ?lk 0" "interest ?lk 0 9 = Some (0, 1, 3)"
    using cm demo_ids by (auto simp: watch_inv_def interest_def demo_ep_link_def demo_ep_conn_def Let_def split: if_splits)
  obtain lk' calls where rm: "ntb_conn_remove ?lk 0 0 = Ret (lk', calls)"
    using map_remove_key [OF pm(1) demo_ids(3)]
    by (auto simp: ntb_conn_remove_def demo_ep_link_def demo_ep_conn_def conn_at_def Let_def case_prod_beta)
  have "handle_epoll_close_msg demo_ep_os lk' (demo_ep_req 4 0) = Undef"
    by (rule epoll_close_freed_conn [OF _ _ _ w rm])
      (use xm demo_ids in \<open>simp_all add: demo_ep_link_def demo_ep_req_def Let_def\<close>)
  then show ?thesis
    using rm w(2) by (metis option.distinct(1))
qed

end
