(* ===== verification/Epoll_Plane.thy ===== *)
theory Epoll_Plane
  imports Ntm_Epoll Ntp_Epoll Ntm_Handshake
begin

text \<open>
  The monitor and the proxy of a host together, for the requests about \<^verbatim>\<open>epoll\<close>: what the proxy does
  while the monitor waits is one round of its thread, on the queues that the two share.
\<close>

section \<open>One round of the proxy\<close>

definition proxy_round :: "ntp_ep_os \<Rightarrow> ntb_link_custom \<Rightarrow> byte list \<Rightarrow> ep_move" where
  "proxy_round pos lk buf = (\<lambda>(rq, rs).
     case epoll_listen_turn pos False (lk\<lparr>lk_ep_send := rs\<rparr>) rq buf of
       Ret (_, lk', rq', _) \<Rightarrow> (rq', lk_ep_send lk')
     | _ \<Rightarrow> (rq, rs))"

text \<open>The queues between the two are open, empty and have room for a message.\<close>

definition ep_idle :: "ntm_manager \<Rightarrow> bool" where
  "ep_idle m \<longleftrightarrow> sem_ready (mg_ep_recv m) \<and> sem_msgs (mg_ep_recv m) = [] \<and> 0 < sem_cap (mg_ep_recv m) \<and>
     sem_ready (mg_ep_send m) \<and> sem_msgs (mg_ep_send m) = [] \<and> 0 < sem_cap (mg_ep_send m)"

text \<open>A system in which no wait is interrupted and the messages on the stack have their size.\<close>

definition ep_calm :: "ntm_ep_os \<Rightarrow> bool" where
  "ep_calm os \<longleftrightarrow> po_send os = (False, False) \<and> \<not> po_recv os \<and> length (po_buf os) = 128 \<and>
     length (em_shm_name (po_req os)) = EPOLL_SHM_NAME_LEN \<and> length (em_shm_name (po_resp os)) = EPOLL_SHM_NAME_LEN"

lemma ask_epoll_sends:
  assumes "ep_idle m" "ep_calm os" "length (em_shm_name req) = EPOLL_SHM_NAME_LEN"
  obtains rq where "epoll_sem_shm_send False False (mg_ep_recv m) (epoll_bytes req) = Ret (0, rq)" "sem_ready rq"
    "sem_msgs rq = [epoll_bytes req]" "sem_cap rq = sem_cap (mg_ep_recv m)"
  using sem_send_ok [of "mg_ep_recv m" "epoll_bytes req"] length_epoll_bytes [OF assms(3)] assms(1)
  by (auto simp: ep_idle_def)

text \<open>A request that the proxy answers in one round.\<close>

lemma ask_epoll_answered:
  assumes idle: "ep_idle m" and calm: "ep_calm os" and pos: "quiet pos" and buf: "length buf = 128"
    and req: "length (em_shm_name req) = EPOLL_SHM_NAME_LEN" "em_msg_type req = EPOLL_MSG_CTL"
    and resp: "length (em_shm_name resp) = EPOLL_SHM_NAME_LEN"
    and h: "handle_epoll_ctl_msg pos (lk\<lparr>lk_ep_send := mg_ep_send m\<rparr>) req = Ret (rv, lk')"
      "sem_ready (lk_ep_send lk')" "sem_msgs (lk_ep_send lk') = [epoll_bytes resp]"
      "sem_cap (lk_ep_send lk') = sem_cap (mg_ep_send m)"
    and px: "po_proxy os = proxy_round pos lk buf"
  shows "\<exists>rq rs rq1. ask_epoll os m req = Ret (em_retval resp = 0, m\<lparr>mg_ep_recv := rq, mg_ep_send := rs\<rparr>) \<and>
     ep_idle (m\<lparr>mg_ep_recv := rq, mg_ep_send := rs\<rparr>) \<and>
     epoll_listen_turn pos False (lk\<lparr>lk_ep_send := mg_ep_send m\<rparr>) rq1 buf = Ret (rv = 0, lk', rq, epoll_bytes req) \<and>
     sem_msgs rq1 = [epoll_bytes req]"
proof -
  obtain rq1 where r1: "epoll_sem_shm_send False False (mg_ep_recv m) (epoll_bytes req) = Ret (0, rq1)" "sem_ready rq1"
      "sem_msgs rq1 = [epoll_bytes req]" "sem_cap rq1 = sem_cap (mg_ep_recv m)"
    using ask_epoll_sends [OF idle calm req(1)] .
  obtain rq where r2: "epoll_sem_shm_recv False rq1 buf = Ret (0, epoll_bytes req, rq)" "sem_ready rq" "sem_msgs rq = []"
      "sem_cap rq = sem_cap (mg_ep_recv m)"
    using sem_recv_ok [OF r1(2) buf r1(3)] r1(4) by auto
  have t: "epoll_listen_turn pos False (lk\<lparr>lk_ep_send := mg_ep_send m\<rparr>) rq1 buf = Ret (rv = 0, lk', rq, epoll_bytes req)"
    using pos r2(1) h(1) req(2)
    by (simp add: epoll_listen_turn_def quiet_def epoll_bytes_inverse [OF req(1)] ntp_handle_epoll_msg_def)
  have "length (po_buf os) = 128" using calm by (simp add: ep_calm_def)
  from sem_recv_ok [OF h(2) this h(3)] obtain rs where
    rs: "epoll_sem_shm_recv False (lk_ep_send lk') (po_buf os) = Ret (0, epoll_bytes resp, rs)" "sem_ready rs" "sem_msgs rs = []"
      "sem_cap rs = sem_cap (mg_ep_send m)"
    using h(4) by auto
  have "ask_epoll os m req = Ret (em_retval resp = 0, m\<lparr>mg_ep_recv := rq, mg_ep_send := rs\<rparr>)"
    using calm r1(1) t rs(1)
    by (simp add: ask_epoll_def ep_calm_def Let_def ep_moves_def px proxy_round_def epoll_bytes_inverse [OF resp])
  moreover have "ep_idle (m\<lparr>mg_ep_recv := rq, mg_ep_send := rs\<rparr>)"
    using idle r2 rs by (simp add: ep_idle_def)
  ultimately show ?thesis
    using t r1(3) by blast
qed

text \<open>Without a proxy the monitor waits for ever.\<close>

lemma ask_epoll_hangs:
  assumes "ep_idle m" "ep_calm os" "length (em_shm_name req) = EPOLL_SHM_NAME_LEN" "po_proxy os = id"
  shows "ask_epoll os m req = Spin"
proof -
  obtain rq where "epoll_sem_shm_send False False (mg_ep_recv m) (epoll_bytes req) = Ret (0, rq)"
    using ask_epoll_sends [OF assms(1-3)] .
  moreover have "epoll_sem_shm_recv False (mg_ep_send m) (po_buf os) = Spin"
    using assms(1) by (intro sem_recv_waits) (simp_all add: ep_idle_def)
  ultimately show ?thesis
    using assms(2,4) by (simp add: ask_epoll_def ep_calm_def Let_def ep_moves_def)
qed

section \<open>Requests of an application\<close>

text \<open>
  A request \<^verbatim>\<open>epoll_ctl\<close> for a connected socket \<open>i\<close> with connection \<open>b\<close>, in the context \<open>a\<close> whose channel to the
  application is open.
\<close>

definition ctl_ready :: "ntm_manager \<Rightarrow> ntm_msg \<Rightarrow> nat \<Rightarrow> nat \<Rightarrow> nat \<Rightarrow> bool" where
  "ctl_ready m msg a b i \<longleftrightarrow>
     ids_ok (epoll_ctx_map m) \<and> ids_ok (nts_shm_conn_map m) \<and> 0 \<le> nm_sockid msg \<and> 0 \<le> nm_epid msg \<and>
     id_ok (of_int (nm_sockid msg)) \<and> id_ok (of_int (nm_epid msg)) \<and> nm_sock_type msg = 2 \<and>
     id_lookup (epoll_ctx_map m) (of_int (nm_epid msg)) = Some a \<and>
     id_lookup (nts_shm_conn_map m) (of_int (nm_sockid msg)) = Some b \<and>
     (\<exists>c. mg_conns m b = Some c \<and> nx_socket c = Some i) \<and> i < length (ntsock (mg_socks m)) \<and>
     socktype (ntsock (mg_socks m) ! i) \<noteq> NT_SOCK_LISTENER"

text \<open>The request that the monitor makes of it.\<close>

definition ctl_forward :: "ntm_ep_os \<Rightarrow> ntm_manager \<Rightarrow> ntm_msg \<Rightarrow> nat \<Rightarrow> nat \<Rightarrow> epoll_msg" where
  "ctl_forward os m msg b i =
     ctl_request os msg (ctl_socket msg (ntsock (mg_socks m) ! i)) (the (mg_conns m b))"

lemma ctl_forward_fields:
  "em_msg_type (ctl_forward os m msg b i) = EPOLL_MSG_CTL"
  "em_epid (ctl_forward os m msg b i) = of_int (nm_epid msg)"
  "em_sockid (ctl_forward os m msg b i) = of_int (nm_sockid msg)"
  "em_epoll_op (ctl_forward os m msg b i) = of_int (nm_epoll_op msg)"
  "em_shm_name (ctl_forward os m msg b i) = em_shm_name (po_req os)"
  by (simp_all add: ctl_forward_def ctl_request_def Let_def)

lemma ctl_handler:
  assumes r: "ctl_ready m msg a b i" and op: "nm_epoll_op msg \<in> {CTL_ADD, CTL_DEL, CTL_MOD}"
    and ok: "ctl_conflict msg (ntsock (mg_socks m) ! i) = None"
  shows "handle_msg_nts_epoll_ctl os m msg =
     bind_out (ask_epoll os (put_sock m i (ctl_socket msg (ntsock (mg_socks m) ! i))) (ctl_forward os m msg b i)) (\<lambda>(ok, m2).
       if \<not> ok then Ret m2 else answer_epoll os m2 a ((ctl_answer os msg)\<lparr>em_retval := 0\<rparr>))"
proof -
  let ?s = "ntsock (mg_socks m) ! i"
  obtain c where c: "mg_conns m b = Some c" "nx_socket c = Some i"
    using r by (auto simp: ctl_ready_def)
  have g: "map_get (epoll_ctx_map m) (of_int (nm_epid msg)) = Ret (Some a)"
      "map_get (nts_shm_conn_map m) (of_int (nm_sockid msg)) = Ret (Some b)"
    using r map_get_key by (simp_all add: ctl_ready_def)
  have s: "conn_of m b = Ret c" "conn_socket m c = Ret (i, ?s)"
    using r c by (simp_all add: conn_of_def conn_socket_def sock_of_def ctl_ready_def)
  have l: "socktype (ctl_socket msg ?s) \<noteq> NT_SOCK_LISTENER" "\<not> nm_sockid msg < 0" "\<not> nm_epid msg < 0" "nm_sock_type msg = 2"
    using r by (simp_all add: ctl_socket_def ctl_ready_def)
  have o: "\<not> (nm_epoll_op msg \<noteq> CTL_ADD \<and> nm_epoll_op msg \<noteq> CTL_DEL \<and> nm_epoll_op msg \<noteq> CTL_MOD)"
    using op by auto
  show ?thesis
    unfolding handle_msg_nts_epoll_ctl_def ctl_forward_def
    using g s l ok c(1) o by (auto simp: Let_def)
qed


text \<open>The messages that an application finds in the channel of its context.\<close>

definition app_msgs :: "ntm_manager \<Rightarrow> nat \<Rightarrow> byte list list" where
  "app_msgs m a = (case mg_epolls m a of Some e \<Rightarrow> (case ep_handle (ne_shm e) of Live s \<Rightarrow> shmring_contents s | _ \<Rightarrow> []) | None \<Rightarrow> [])"

text \<open>The channel is open, empty and its application does not read while the monitor writes \<open>n\<close> times.\<close>

definition app_waits :: "ntm_manager \<Rightarrow> nat \<Rightarrow> ntm_ep_os \<Rightarrow> nat \<Rightarrow> bool" where
  "app_waits m a os n \<longleftrightarrow> (\<exists>e s. mg_epolls m a = Some e \<and> ep_handle (ne_shm e) = Live s \<and> req_ring s \<and>
     shmring_contents s = [] \<and> unat (capacity s) = Suc n) \<and> po_env os = replicate n 0"

lemma answer_epoll_ok:
  assumes "app_waits m a os n" "length (em_shm_name msg) = EPOLL_SHM_NAME_LEN"
  shows "\<exists>e. answer_epoll os m a msg = Ret (put_epoll m a e) \<and> app_msgs (put_epoll m a e) a = replicate n (epoll_bytes msg)"
proof -
  obtain e s where e: "mg_epolls m a = Some e" "ep_handle (ne_shm e) = Live s" "req_ring s"
      "shmring_contents s = []" "unat (capacity s) = Suc n" and env: "po_env os = replicate n 0"
    using assms(1) by (auto simp: app_waits_def)
  have "set (replicate n (0::nat)) \<subseteq> {0}" by auto
  from epoll_push_loop_fills [OF e(3) length_epoll_bytes [OF assms(2)] _ this] e(4,5) obtain s' where
    "epoll_push_loop (replicate n 0) s (epoll_bytes msg) = Ret (0, s')" "shmring_contents s' = replicate n (epoll_bytes msg)" by auto
  then show ?thesis
    using e env by (intro exI [of _ "e\<lparr>ne_shm := (ne_shm e)\<lparr>ep_handle := Live s'\<rparr>\<rparr>"])
      (simp add: answer_epoll_def epoll_of_def epoll_shm_send_def deref_def app_msgs_def)
qed

lemma put_sock_fields [simp]:
  "mg_ep_recv (put_sock m i s) = mg_ep_recv m" "mg_ep_send (put_sock m i s) = mg_ep_send m"
  "mg_epolls (put_sock m i s) = mg_epolls m" "mg_conns (put_sock m i s) = mg_conns m"
  "epoll_ctx_map (put_sock m i s) = epoll_ctx_map m" "nts_shm_conn_map (put_sock m i s) = nts_shm_conn_map m"
  by (simp_all add: put_sock_def)

lemma ep_idle_put_sock [simp]: "ep_idle (put_sock m i s) = ep_idle m"
  by (simp add: ep_idle_def)

section \<open>Properties\<close>



text \<open>
  C37: when the proxy does not know the connection that an application wants to watch, the application gets no
  answer, the monitor counts the socket as watched, and the thread of the proxy has ended: the next
  request of this kind, here one to change the same socket, leaves the monitor waiting for ever.
\<close>

theorem epoll_refusal_hangs:
  assumes "ctl_ready m msg a b i" "nm_epoll_op msg = CTL_ADD" "sk_epoll (ntsock (mg_socks m) ! i) = 0" "nm_events msg \<noteq> 0"
    and "ep_idle m" "ep_calm os" "quiet pos" "length buf = 128" "po_proxy os = proxy_round pos lk buf"
    and "ep_serves (lk\<lparr>lk_ep_send := mg_ep_send m\<rparr>)" "ctl_unknown lk (ctl_forward os m msg b i)"
    and "ep_calm os2" "po_proxy os2 = id"
  shows "\<exists>m' lk' rq rq'. handle_msg_nts_epoll_ctl os m msg = Ret m' \<and> mg_epolls m' = mg_epolls m \<and>
     sk_epoll (ntsock (mg_socks m') ! i) = nm_events msg \<and>
     epoll_listen_turn pos False (lk\<lparr>lk_ep_send := mg_ep_send m\<rparr>) rq buf = Ret (False, lk', rq', epoll_bytes (ctl_forward os m msg b i)) \<and>
     handle_msg_nts_epoll_ctl os2 m' (msg\<lparr>nm_epoll_op := CTL_MOD\<rparr>) = Spin"
proof -
  let ?f = "ctl_forward os m msg b i" and ?lk = "lk\<lparr>lk_ep_send := mg_ep_send m\<rparr>"
  let ?s1 = "ctl_socket msg (ntsock (mg_socks m) ! i)"
  let ?m1 = "put_sock m i ?s1" and ?msg2 = "msg\<lparr>nm_epoll_op := CTL_MOD\<rparr>"
  have il: "i < length (ntsock (mg_socks m))"
    using assms(1) by (simp add: ctl_ready_def)
  have s1: "sk_epoll ?s1 = nm_events msg" "socktype ?s1 = socktype (ntsock (mg_socks m) ! i)"
    using assms(2) by (simp_all add: ctl_socket_def)
  have u: "ctl_unknown ?lk ?f"
    using assms(11) by (auto simp: ctl_unknown_def Let_def split: option.splits)
  obtain q0 where h: "handle_epoll_ctl_msg pos ?lk ?f = Ret (- 1, ?lk\<lparr>lk_ep_send := q0\<rparr>)" "sem_ready q0"
      "sem_msgs q0 = [epoll_bytes (ctl_response ?f (- 1))]" "sem_cap q0 = sem_cap (mg_ep_send m)"
    using ctl_refused [OF assms(10,7) u] assms(5) by (auto simp: ep_idle_def)
  have n: "length (em_shm_name ?f) = EPOLL_SHM_NAME_LEN" "length (em_shm_name (ctl_response ?f (- 1))) = EPOLL_SHM_NAME_LEN"
    using assms(6) by (simp_all add: ctl_forward_fields ep_calm_def ctl_response_def)
  have idle: "ep_idle ?m1" using assms(5) by simp
  obtain rq rs rq1 where q: "ask_epoll os ?m1 ?f = Ret (False, ?m1\<lparr>mg_ep_recv := rq, mg_ep_send := rs\<rparr>)"
      "ep_idle (?m1\<lparr>mg_ep_recv := rq, mg_ep_send := rs\<rparr>)"
      "epoll_listen_turn pos False ?lk rq1 buf = Ret (False, ?lk\<lparr>lk_ep_send := q0\<rparr>, rq, epoll_bytes ?f)"
    using ask_epoll_answered [OF idle assms(6-8) n(1) _ n(2) _ _ _ _ assms(9), of "- 1"] h ctl_forward_fields(1)
    by (auto simp: ctl_response_def)
  let ?m' = "?m1\<lparr>mg_ep_recv := rq, mg_ep_send := rs\<rparr>"
  have "handle_msg_nts_epoll_ctl os m msg = Ret ?m'"
    using ctl_handler [OF assms(1), of os] assms(2,3) q(1) by (simp add: ctl_conflict_def)
  moreover have "ctl_ready ?m' ?msg2 a b i"
    using assms(1) s1(2) by (simp add: ctl_ready_def) (simp add: put_sock_def)
  moreover have "ctl_conflict ?msg2 (ntsock (mg_socks ?m') ! i) = None"
    using il s1(1) assms(4) by (simp add: ctl_conflict_def put_sock_def)
  moreover have "ask_epoll os2 (put_sock ?m' i s) (ctl_forward os2 ?m' ?msg2 b i) = Spin" for s
    using q(2) assms(12,13) by (intro ask_epoll_hangs) (simp_all add: ctl_forward_fields ep_calm_def)
  ultimately show ?thesis
    using ctl_handler [of ?m' ?msg2 a b i os2] q(3) il s1(1) by (intro exI [of _ ?m']) (auto simp: put_sock_def)
qed

section \<open>Closing a context\<close>

lemma ask_epoll_socks: "ask_epoll os m req = Ret (ok, m') \<Longrightarrow> mg_socks m' = mg_socks m"
  by (auto simp: ask_epoll_def Let_def ep_moves_def split: if_splits prod.splits)

lemma answer_epoll_socks: "answer_epoll os m a msg = Ret m' \<Longrightarrow> mg_socks m' = mg_socks m"
  by (auto simp: answer_epoll_def)

lemma drop_socket_epoll:
  "drop_socket m s = Ret m' \<Longrightarrow> sk_epoll (ntsock (mg_socks m') ! i) = sk_epoll (ntsock (mg_socks m) ! i)"
  by (cases "i = nat (sint (sockid s))") (auto simp: drop_socket_def free_socket_def array_get_Ret split: if_splits)

lemma epoll_finish_epoll:
  assumes "epoll_finish os m msg a s = Ret m'"
  shows "sk_epoll (ntsock (mg_socks m') ! i) = sk_epoll (ntsock (mg_socks m) ! i)"
proof -
  obtain m1 ans em ep where "answer_epoll os m a ans = Ret m1" "drop_socket (m1\<lparr>epoll_ctx_map := em, mg_epolls := ep\<rparr>) s = Ret m'"
    using assms by (auto simp: epoll_finish_def)
  then show ?thesis
    using drop_socket_epoll [of "m1\<lparr>epoll_ctx_map := em, mg_epolls := ep\<rparr>" s m' i] answer_epoll_socks [of os m a ans m1] by simp
qed

lemma fold_unwatch:
  "fold_out unwatch_listener js m = Ret m' \<Longrightarrow> i \<notin> set js \<Longrightarrow>
   sk_epoll (ntsock (mg_socks m') ! i) = sk_epoll (ntsock (mg_socks m) ! i)"
proof (induction js arbitrary: m)
  case (Cons j js)
  then obtain m1 where m1: "unwatch_listener j m = Ret m1" "fold_out unwatch_listener js m1 = Ret m'"
    by auto
  then have "sk_epoll (ntsock (mg_socks m1) ! i) = sk_epoll (ntsock (mg_socks m) ! i)"
    using Cons.prems(2) by (auto simp: unwatch_listener_def put_sock_def)
  then show ?case
    using Cons.IH [OF m1(2)] Cons.prems(2) by simp
qed simp

lemma epoll_close_handler:
  assumes "\<not> nm_epid msg < 0" "of_int (nm_sock_type msg) = NT_SOCK_EPOLL"
    and "map_get (epoll_ctx_map m) (of_int (nm_epid msg)) = Ret (Some a)" "mg_epolls m a = Some e"
    and "sock_of m (ne_socket e) = Ret s" "ne_sockets e = Live sm" "for_each sm unwatch_listener m = Ret m1"
  shows "handle_msg_nts_epoll_close os m msg =
     bind_out (ask_epoll os (put_epoll m1 a (e\<lparr>ne_sockets := Null\<rparr>))
        ((po_req os)\<lparr>em_id := nm_msg_id msg, em_sock_type := NT_SOCK_EPOLL, em_msg_type := of_nat EPOLL_MSG_CLOSE,
           em_epid := of_int (nm_epid msg)\<rparr>)) (\<lambda>(ok, m3).
       if ok then epoll_finish os m3 msg a s else Ret m3)"
  using assms by (simp add: handle_msg_nts_epoll_close_def epoll_of_def deref_def Let_def)

text \<open>The close of a context changes no socket that is not one of its listeners.\<close>

lemma epoll_close_epoll:
  assumes "handle_msg_nts_epoll_close os m msg = Ret m'" "ids_ok (epoll_ctx_map m)" "id_ok (of_int (nm_epid msg))"
    and "id_lookup (epoll_ctx_map m) (of_int (nm_epid msg)) = Some a" "mg_epolls m a = Some e"
    and "ne_sockets e = Live sm" "ids_ok sm" "i \<notin> snd ` set (hm_entries sm)"
  shows "sk_epoll (ntsock (mg_socks m') ! i) = sk_epoll (ntsock (mg_socks m) ! i)"
proof (cases "nm_epid msg < 0 \<or> of_int (nm_sock_type msg) \<noteq> NT_SOCK_EPOLL")
  case True
  then show ?thesis using assms(1) by (simp add: handle_msg_nts_epoll_close_def)
next
  case False
  have g: "map_get (epoll_ctx_map m) (of_int (nm_epid msg)) = Ret (Some a)"
    using map_get_key [OF assms(2,3)] assms(4) by simp
  from assms(1) False g assms(5,6) obtain s m1 ok m3 req where
    m1: "for_each sm unwatch_listener m = Ret m1"
    and m3: "ask_epoll os (put_epoll m1 a (e\<lparr>ne_sockets := Null\<rparr>)) req = Ret (ok, m3)"
    and rest: "(if ok then epoll_finish os m3 msg a s else Ret m3) = Ret m'"
    by (auto simp: handle_msg_nts_epoll_close_def epoll_of_def deref_def Let_def)
  have "fold_out unwatch_listener (map snd (hm_entries sm)) m = Ret m1"
    using m1 assms(7) by (simp add: for_each_entries hm_inv_def hm_wf_def)
  moreover have "i \<notin> set (map snd (hm_entries sm))"
    using assms(8) by simp
  ultimately have "sk_epoll (ntsock (mg_socks m1) ! i) = sk_epoll (ntsock (mg_socks m) ! i)"
    by (rule fold_unwatch)
  moreover have "mg_socks m3 = mg_socks m1"
    using ask_epoll_socks [OF m3] by simp
  moreover have "sk_epoll (ntsock (mg_socks m') ! i) = sk_epoll (ntsock (mg_socks m3) ! i)"
    using rest epoll_finish_epoll by (cases ok) auto
  ultimately show ?thesis by simp
qed


lemma ctl_handler_conflict:
  assumes r: "ctl_ready m msg a b i" and op: "nm_epoll_op msg \<in> {CTL_ADD, CTL_DEL, CTL_MOD}"
    and err: "ctl_conflict msg (ntsock (mg_socks m) ! i) = Some err"
  shows "handle_msg_nts_epoll_ctl os m msg =
     answer_epoll os m a ((ctl_answer os msg)\<lparr>em_retval := - 1, em_nt_errno := err\<rparr>)"
proof -
  obtain c where c: "mg_conns m b = Some c" "nx_socket c = Some i"
    using r by (auto simp: ctl_ready_def)
  have g: "map_get (epoll_ctx_map m) (of_int (nm_epid msg)) = Ret (Some a)"
      "map_get (nts_shm_conn_map m) (of_int (nm_sockid msg)) = Ret (Some b)"
    using r map_get_key by (simp_all add: ctl_ready_def)
  have s: "conn_of m b = Ret c" "conn_socket m c = Ret (i, ntsock (mg_socks m) ! i)"
    using r c by (simp_all add: conn_of_def conn_socket_def sock_of_def ctl_ready_def)
  have l: "\<not> nm_sockid msg < 0" "\<not> nm_epid msg < 0" "nm_sock_type msg = 2"
    using r by (simp_all add: ctl_ready_def)
  have o: "\<not> (nm_epoll_op msg \<noteq> CTL_ADD \<and> nm_epoll_op msg \<noteq> CTL_DEL \<and> nm_epoll_op msg \<noteq> CTL_MOD)"
    using op by auto
  show ?thesis
    unfolding handle_msg_nts_epoll_ctl_def using g s l err o by auto
qed

text \<open>
  Closing a context leaves the sockets of connections that it watched marked as watched. An application
  that closes its context and adds such a socket to another context is refused with \<^verbatim>\<open>EEXIST\<close>.
\<close>

theorem epoll_close_keeps_watched:
  assumes "handle_msg_nts_epoll_close os m msg = Ret m'" "ids_ok (epoll_ctx_map m)" "id_ok (of_int (nm_epid msg))"
    and "id_lookup (epoll_ctx_map m) (of_int (nm_epid msg)) = Some a" "mg_epolls m a = Some e"
    and "ne_sockets e = Live sm" "ids_ok sm" "i \<notin> snd ` set (hm_entries sm)" "sk_epoll (ntsock (mg_socks m) ! i) \<noteq> 0"
    and "ctl_ready m' msg2 a2 b i" "nm_epoll_op msg2 = CTL_ADD" "app_waits m' a2 os2 n" "ep_calm os2"
  shows "\<exists>m''. handle_msg_nts_epoll_ctl os2 m' msg2 = Ret m'' \<and>
     app_msgs m'' a2 = replicate n (epoll_bytes ((ctl_answer os2 msg2)\<lparr>em_retval := - 1, em_nt_errno := EEXIST\<rparr>))"
proof -
  have "sk_epoll (ntsock (mg_socks m') ! i) \<noteq> 0"
    using epoll_close_epoll [OF assms(1-8)] assms(9) by simp
  then have "ctl_conflict msg2 (ntsock (mg_socks m') ! i) = Some EEXIST"
    using assms(11) by (simp add: ctl_conflict_def)
  moreover have "length (em_shm_name ((ctl_answer os2 msg2)\<lparr>em_retval := - 1, em_nt_errno := EEXIST\<rparr>)) = EPOLL_SHM_NAME_LEN"
    using assms(13) by (simp add: ctl_answer_def ep_calm_def)
  ultimately show ?thesis
    using ctl_handler_conflict [OF assms(10)] answer_epoll_ok [OF assms(12)] assms(11) by fastforce
qed

section \<open>Examples\<close>

text \<open>
  A monitor with one connected socket, number 1, whose events are \<open>ev\<close>, and two contexts, numbers 2 and 3,
  with the channels of their applications.
\<close>

definition demo_ep_ctx :: "nat \<Rightarrow> ntm_epoll" where
  "demo_ep_ctx k = \<lparr>ne_socket = k, ne_shm = demo_req_ctx 0, ne_queue_size = 1, ne_queue = demo_ep_queue,
     ne_sockets = Live createHashMap\<rparr>"

definition demo_ep_socks :: "u32 \<Rightarrow> nt_sock_context" where
  "demo_ep_socks ev =
     \<lparr>ntsock = [zero_socket\<lparr>sockid := 1, socktype := NT_SOCK_STREAM, sk_state := ESTABLISHED, sk_epoll := ev,
                  saddr := \<lparr>sin_family = AF_INET, sin_port = 0x0100, sin_addr = 0\<rparr>\<rparr>,
                zero_socket\<lparr>sockid := 2, socktype := NT_SOCK_EPOLL\<rparr>, zero_socket\<lparr>sockid := 3, socktype := NT_SOCK_EPOLL\<rparr>],
      free_ntsock = tailq_init\<rparr>"

definition demo_ep_mgr :: "u32 \<Rightarrow> (key, nat) hashMap \<Rightarrow> (key, nat) hashMap \<Rightarrow> ntm_manager" where
  "demo_ep_mgr ev xm cm =
     (demo_manager (demo_ep_socks ev) createHashMap cm createHashMap None)
       \<lparr>mg_conns := [0 \<mapsto> zero_conn\<lparr>nx_sockid := 1, nx_socket := Some 0, nx_peer_port := 0x0200\<rparr>],
        epoll_ctx_map := xm, mg_epolls := [0 \<mapsto> demo_ep_ctx 1, 1 \<mapsto> demo_ep_ctx 2]\<rparr>"

definition demo_ctl_req :: "int \<Rightarrow> int \<Rightarrow> ntm_msg" where
  "demo_ctl_req epid op = demo_connect\<lparr>nm_sockid := 1, nm_epid := epid, nm_sock_type := 2, nm_epoll_op := op, nm_events := 1,
     nm_ep_data := 7\<rparr>"

definition demo_ntm_ep_os :: "ep_move \<Rightarrow> ntm_ep_os" where
  "demo_ntm_ep_os f =
     \<lparr>po_ctx = None, po_shm = True, po_shm_name = True,
      po_shm_os = \<lparr>os_calloc_handle = False, os_calloc_data = False, os_shm_open = - 1, os_errno_retry = False,
        os_shm_reopen = - 1, os_ftruncate = False, os_mmap = None\<rparr>,
      po_queue = eo_queue demo_ep_os, po_req = zero_epoll_msg, po_resp = zero_epoll_msg, po_buf = demo_req 0,
      po_send = (False, False), po_recv = False, po_proxy = f, po_env = replicate 3 0\<rparr>"

lemma demo_calm: "ep_calm (demo_ntm_ep_os f)"
  by (simp add: ep_calm_def demo_ntm_ep_os_def demo_req_def)

lemma demo_idle: "ep_idle (demo_ep_mgr ev xm cm)"
  using demo_sem_ready by (simp add: ep_idle_def demo_ep_mgr_def demo_manager_def)

lemma demo_small_ids: "id_ok 1" "id_ok 2" "id_ok 3" "id_str 2 \<noteq> id_str 3"
  by (simp_all add: id_ok_small le_enc_4 cstr_def del: le_enc.simps)

lemma two_entries:
  obtains m where "ids_ok m" "id_lookup m 2 = Some 0" "id_lookup m 3 = Some 1"
proof -
  obtain m1 where m1: "ids_ok m1" "\<forall>j. id_lookup m1 j = (if id_str j = id_str 2 then Some 0 else None)"
    using one_entry [OF demo_small_ids(2)] .
  have "id_lookup m1 3 = None"
    using m1(2) demo_small_ids(4) by auto
  from map_put_key [OF m1(1) demo_small_ids(3) this, of 1] m1(2) demo_small_ids(4) that show thesis
    by auto
qed

lemma demo_app_waits: "mg_epolls m a = Some (demo_ep_ctx k) \<Longrightarrow> app_waits m a (demo_ntm_ep_os f) 3"
proof -
  have "shmring_contents (demo_req_ring 0) = []"
    by (simp add: shmring_contents_def ring_list_def ring_count_def demo_req_ring_def)
  moreover have "req_ring (demo_req_ring 0)"
    by (rule demo_req_ring_ok) simp
  ultimately show "mg_epolls m a = Some (demo_ep_ctx k) \<Longrightarrow> app_waits m a (demo_ntm_ep_os f) 3"
    by (simp add: app_waits_def demo_ep_ctx_def demo_req_ctx_def demo_ntm_ep_os_def) (simp add: demo_req_ring_def)
qed

lemma demo_ctl_ready:
  assumes "ids_ok xm" "id_lookup xm (of_int epid) = Some a" "ids_ok cm" "id_lookup cm 1 = Some 0"
    and "epid \<in> {2, 3}"
  shows "ctl_ready (demo_ep_mgr ev xm cm) (demo_ctl_req epid op) a 0 0"
  using assms demo_small_ids
  by (auto simp: ctl_ready_def demo_ep_mgr_def demo_manager_def demo_ctl_req_def demo_ep_socks_def)


lemma demo_forward:
  fixes f ev xm cm defines "r \<equiv> ctl_forward (demo_ntm_ep_os f) (demo_ep_mgr ev xm cm) (demo_ctl_req 2 CTL_ADD) 0 0"
  shows "create_conn_id (ntohs (ucast (em_src_port r))) (ntohs (ucast (em_dst_port r))) = create_conn_id 1 2"
    "em_sockid r = 1" "em_epid r = 2" "em_epoll_op r = EPOLL_CTL_ADD"
  by (simp_all add: r_def ctl_forward_def ctl_request_def demo_ep_mgr_def demo_manager_def demo_ep_socks_def demo_ctl_req_def ctl_socket_def
      ntohs_def take_bit_eq_mod Let_def)

lemma demo_mgr_send: "mg_ep_send (demo_ep_mgr ev xm cm) = demo_sem_ctx" "mg_epolls (demo_ep_mgr ev xm cm) 0 = Some (demo_ep_ctx 1)"
  "ntsock (mg_socks (demo_ep_mgr ev xm cm)) ! 0 = ntsock (demo_ep_socks ev) ! 0" "sk_epoll (ntsock (demo_ep_socks ev) ! 0) = ev"
  by (simp_all add: demo_ep_mgr_def demo_manager_def demo_ep_socks_def)

lemma demo_link_send: "(demo_ep_link pm xm cm)\<lparr>lk_ep_send := demo_sem_ctx\<rparr> = demo_ep_link pm xm cm"
  by (simp add: demo_ep_link_def Let_def)


theorem epoll_refusal_hangs_witness:
  "\<exists>m os m' os2. handle_msg_nts_epoll_ctl os m (demo_ctl_req 2 CTL_ADD) = Ret m' \<and> mg_epolls m' = mg_epolls m \<and>
     handle_msg_nts_epoll_ctl os2 m' ((demo_ctl_req 2 CTL_ADD)\<lparr>nm_epoll_op := CTL_MOD\<rparr>) = Spin"
proof -
  obtain cm where cm: "ids_ok cm" "\<forall>j. id_lookup cm j = (if id_str j = id_str 1 then Some 0 else None)"
    using one_entry [OF demo_small_ids(1)] .
  obtain xm where xm: "ids_ok xm" "id_lookup xm 2 = Some 0" "id_lookup xm 3 = Some 1"
    using two_entries .
  let ?lk = "demo_ep_link createHashMap xm createHashMap"
  let ?os = "demo_ntm_ep_os (proxy_round demo_ep_os ?lk (demo_req 0))" and ?m = "demo_ep_mgr 0 xm cm" and ?msg = "demo_ctl_req 2 CTL_ADD"
  have r: "ctl_ready ?m ?msg 0 0 0"
    using xm cm by (intro demo_ctl_ready) auto
  have op: "nm_epoll_op ?msg = CTL_ADD" "sk_epoll (ntsock (mg_socks ?m) ! 0) = 0" "nm_events ?msg \<noteq> 0"
    "length (demo_req 0) = 128" "po_proxy ?os = proxy_round demo_ep_os ?lk (demo_req 0)" "po_proxy (demo_ntm_ep_os id) = id"
    by (simp_all add: demo_ctl_req_def demo_mgr_send demo_req_def demo_ntm_ep_os_def)
  have s: "ep_serves (?lk\<lparr>lk_ep_send := mg_ep_send ?m\<rparr>)" "lk_epoll_ctx_map ?lk = xm" "lk_port2conn ?lk = createHashMap"
      "lk_epolls ?lk 0 \<noteq> None"
    using xm unfolding demo_mgr_send demo_link_send
    by (simp_all add: ep_serves_def demo_ep_link_def Let_def demo_sem_ready ids_ok_new)
  have u: "ctl_unknown ?lk (ctl_forward ?os ?m ?msg 0 0)"
    unfolding ctl_unknown_def demo_forward Let_def s(2,3) using s(4) xm demo_ids demo_small_ids by (simp add: ids_ok_new)
  from epoll_refusal_hangs [OF r op(1-3) demo_idle demo_calm demo_quiet op(4,5) s(1) u demo_calm op(6)]
  show ?thesis by metis
qed


text \<open>A proxy that answers whatever it is asked with success, and a monitor that closes its context 2.\<close>

lemma demo_ask_yes:
  assumes "sem_ready q" "sem_msgs q = [epoll_bytes zero_epoll_msg]" "ep_idle m" "length (em_shm_name req) = EPOLL_SHM_NAME_LEN"
  shows "\<exists>rq rs. ask_epoll (demo_ntm_ep_os (\<lambda>(rq, rs). (rq, q))) m req = Ret (True, m\<lparr>mg_ep_recv := rq, mg_ep_send := rs\<rparr>)"
proof -
  obtain rq where "epoll_sem_shm_send False False (mg_ep_recv m) (epoll_bytes req) = Ret (0, rq)"
    using ask_epoll_sends [OF assms(3) demo_calm assms(4)] .
  moreover have "length (demo_req 0) = 128" by (simp add: demo_req_def)
  from sem_recv_ok [OF assms(1) this assms(2)] obtain rs where
    "epoll_sem_shm_recv False q (demo_req 0) = Ret (0, epoll_bytes zero_epoll_msg, rs)" by blast
  moreover have "em_retval (epoll_of_bytes (epoll_bytes zero_epoll_msg)) = 0"
    by (subst epoll_bytes_inverse) (simp_all add: zero_epoll_msg_def)
  ultimately have "ask_epoll (demo_ntm_ep_os (\<lambda>(rq, rs). (rq, q))) m req = Ret (True, m\<lparr>mg_ep_recv := rq, mg_ep_send := rs\<rparr>)"
    by (simp add: ask_epoll_def demo_ntm_ep_os_def Let_def ep_moves_def)
  then show ?thesis by blast
qed

lemma demo_finish:
  assumes "mg_epolls m 0 = Some (e\<lparr>ne_shm := demo_req_ctx 0\<rparr>)" "ids_ok (epoll_ctx_map m)" "sockid s = 2"
    "mg_socks m = demo_ep_socks ev"
  shows "\<exists>em sc ep. epoll_finish (demo_ntm_ep_os f) m msg 0 s = Ret (m\<lparr>epoll_ctx_map := em, mg_socks := sc, mg_epolls := ep\<rparr>) \<and>
     ids_ok em \<and> (\<forall>j. id_lookup em j = (if id_str j = id_str 2 then None else id_lookup (epoll_ctx_map m) j)) \<and>
     length (ntsock sc) = 3 \<and> socktype (ntsock sc ! 0) = NT_SOCK_STREAM \<and> ep 1 = mg_epolls m 1"
proof -
  let ?ans = "(po_resp (demo_ntm_ep_os f))\<lparr>em_id := nm_msg_id msg, em_retval := 0, em_epid := of_int (nm_epid msg),
      em_msg_type := of_nat EPOLL_MSG_CLOSE\<rparr>"
  have n: "length (epoll_bytes ?ans) = 128"
    by (rule length_epoll_bytes) (simp add: demo_ntm_ep_os_def)
  have c: "shmring_contents (demo_req_ring 0) = []" "unat (capacity (demo_req_ring 0)) = 4"
    by (simp_all add: shmring_contents_def ring_list_def ring_count_def demo_req_ring_def)
  have r: "req_ring (demo_req_ring 0)"
    by (rule demo_req_ring_ok) simp
  have "set (replicate 3 (0::nat)) \<subseteq> {0}" by auto
  from epoll_push_loop_fills [OF r n _ this] c obtain s' where
    s': "epoll_push_loop (replicate 3 0) (demo_req_ring 0) (epoll_bytes ?ans) = Ret (0, s')" by auto
  obtain em where em: "map_remove (epoll_ctx_map m) 2 = Ret em" "ids_ok em"
      "\<forall>j. id_lookup em j = (if id_str j = id_str 2 then None else id_lookup (epoll_ctx_map m) j)"
    using map_remove_key [OF assms(2) demo_small_ids(2)] by blast
  let ?e1 = "e\<lparr>ne_shm := (demo_req_ctx 0)\<lparr>ep_handle := Live s'\<rparr>\<rparr>"
  have env: "po_env (demo_ntm_ep_os f) = replicate 3 0" by (simp add: demo_ntm_ep_os_def)
  have "epoll_shm_send (po_env (demo_ntm_ep_os f)) (demo_req_ctx 0) (epoll_bytes ?ans) = Ret (0, (demo_req_ctx 0)\<lparr>ep_handle := Live s'\<rparr>)"
    unfolding env epoll_shm_send_def using s' by (simp add: deref_def demo_req_ctx_def)
  then have 1: "answer_epoll (demo_ntm_ep_os f) m 0 ?ans = Ret (put_epoll m 0 ?e1)"
    unfolding answer_epoll_def epoll_of_def assms(1) by simp
  have 2: "\<exists>r. epoll_shm_slave_close (ne_shm ?e1) = Ret r"
    by (simp add: epoll_shm_slave_close_def epoll_shm_close_def ep_shut_def demo_req_ctx_def)
  let ?sc = "(demo_ep_socks ev)\<lparr>ntsock := (ntsock (demo_ep_socks ev))[2 := (ntsock (demo_ep_socks ev) ! 2)\<lparr>socktype := NT_SOCK_UNUSED\<rparr>],
      free_ntsock := tailq_insert_tail tailq_init 2\<rparr>"
  have "free_socket (demo_ep_socks ev) 2 = Ret ?sc"
    by (simp add: free_socket_def demo_ep_socks_def)
  then have 3: "drop_socket (m\<lparr>epoll_ctx_map := em, mg_epolls := ep\<rparr>) s = Ret (m\<lparr>epoll_ctx_map := em, mg_socks := ?sc, mg_epolls := ep\<rparr>)" for ep
    using assms(3,4) by (simp add: drop_socket_def)
  have "epoll_finish (demo_ntm_ep_os f) m msg 0 s =
      Ret (m\<lparr>epoll_ctx_map := em, mg_socks := ?sc, mg_epolls := (mg_epolls m)(0 := None)\<rparr>)"
    unfolding epoll_finish_def 1 using 2 3 em(1) assms(3) by (auto simp: epoll_of_def)
  moreover have "length (ntsock ?sc) = 3" "socktype (ntsock ?sc ! 0) = NT_SOCK_STREAM"
    by (simp_all add: demo_ep_socks_def)
  ultimately show ?thesis
    using em(2,3) by - (rule exI [of _ em], rule exI [of _ ?sc], rule exI [of _ "(mg_epolls m)(0 := None)"], simp)
qed

theorem epoll_close_keeps_watched_witness:
  "\<exists>m os os2 m' m''. handle_msg_nts_epoll_close os m ((demo_ctl_req 2 0)\<lparr>nm_sock_type := 5\<rparr>) = Ret m' \<and>
     handle_msg_nts_epoll_ctl os2 m' (demo_ctl_req 3 CTL_ADD) = Ret m'' \<and>
     app_msgs m'' 1 = replicate 3 (epoll_bytes ((ctl_answer os2 (demo_ctl_req 3 CTL_ADD))\<lparr>em_retval := - 1, em_nt_errno := EEXIST\<rparr>))"
proof -
  obtain cm where cm: "ids_ok cm" "\<forall>j. id_lookup cm j = (if id_str j = id_str 1 then Some 0 else None)"
    using one_entry [OF demo_small_ids(1)] .
  obtain xm where xm: "ids_ok xm" "id_lookup xm 2 = Some 0" "id_lookup xm 3 = Some 1"
    using two_entries .
  have zn: "length (em_shm_name zero_epoll_msg) = EPOLL_SHM_NAME_LEN" by simp
  obtain q where q: "sem_ready q" "sem_msgs q = [epoll_bytes zero_epoll_msg]"
    using sem_send_ok [OF demo_sem_ready(1) length_epoll_bytes [OF zn]] demo_sem_ready by auto
  let ?os = "demo_ntm_ep_os (\<lambda>(rq, rs). (rq, q))" and ?m = "demo_ep_mgr 1 xm cm"
    and ?msg = "(demo_ctl_req 2 0)\<lparr>nm_sock_type := 5\<rparr>" and ?msg2 = "demo_ctl_req 3 CTL_ADD"
  let ?m1 = "put_epoll ?m 0 ((demo_ep_ctx 1)\<lparr>ne_sockets := Null\<rparr>)"
  let ?req = "(po_req ?os)\<lparr>em_id := nm_msg_id ?msg, em_sock_type := NT_SOCK_EPOLL, em_msg_type := of_nat EPOLL_MSG_CLOSE,
      em_epid := of_int (nm_epid ?msg)\<rparr>"
  have idle: "ep_idle ?m1" using demo_idle [of 1 xm cm] by (simp add: ep_idle_def)
  have rn: "length (em_shm_name ?req) = EPOLL_SHM_NAME_LEN" by (simp add: demo_ntm_ep_os_def)
  obtain rq rs where a: "ask_epoll ?os ?m1 ?req = Ret (True, ?m1\<lparr>mg_ep_recv := rq, mg_ep_send := rs\<rparr>)"
    using demo_ask_yes [OF q idle rn] by blast
  let ?m2 = "?m1\<lparr>mg_ep_recv := rq, mg_ep_send := rs\<rparr>" and ?s = "ntsock (demo_ep_socks 1) ! 1"
  have f: "mg_epolls ?m2 0 = Some (((demo_ep_ctx 1)\<lparr>ne_sockets := Null\<rparr>)\<lparr>ne_shm := demo_req_ctx 0\<rparr>)" "ids_ok (epoll_ctx_map ?m2)"
      "sockid ?s = 2" "mg_socks ?m2 = demo_ep_socks 1" "epoll_ctx_map ?m2 = xm" "mg_epolls ?m2 1 = Some (demo_ep_ctx 2)"
    using xm(1) by (simp_all add: demo_ep_mgr_def demo_manager_def demo_ep_ctx_def demo_ep_socks_def)
  obtain em sc ep where fin: "epoll_finish ?os ?m2 ?msg 0 ?s = Ret (?m2\<lparr>epoll_ctx_map := em, mg_socks := sc, mg_epolls := ep\<rparr>)"
      "ids_ok em" "\<forall>j. id_lookup em j = (if id_str j = id_str 2 then None else id_lookup xm j)"
      "length (ntsock sc) = 3" "socktype (ntsock sc ! 0) = NT_SOCK_STREAM" "ep 1 = Some (demo_ep_ctx 2)"
    using demo_finish [OF f(1-4), where f = "\<lambda>(rq, rs). (rq, q)" and msg = ?msg] unfolding f(5,6) by (elim exE conjE) (rule that)
  let ?m' = "?m2\<lparr>epoll_ctx_map := em, mg_socks := sc, mg_epolls := ep\<rparr>"
  have fe: "for_each createHashMap unwatch_listener ?m = Ret ?m" "hm_entries (createHashMap :: (key, nat) hashMap) = []"
    by (simp_all add: for_each_def createHashMap_def hasNextHashMapIterator_def createHashMapIterator_def hm_entries_def)
  have mm: "epoll_ctx_map ?m = xm" "mg_epolls ?m 0 = Some (demo_ep_ctx 1)" "sock_of ?m 1 = Ret ?s" "ne_sockets (demo_ep_ctx 1) = Live createHashMap"
      "ne_socket (demo_ep_ctx 1) = 1" "nm_epid ?msg = 2" "nm_sock_type ?msg = 5"
    by (simp_all add: demo_ep_mgr_def demo_manager_def demo_ep_ctx_def demo_ep_socks_def sock_of_def demo_ctl_req_def)
  have g: "map_get xm 2 = Ret (Some 0)"
    using map_get_key [OF xm(1) demo_small_ids(2)] xm(2) by simp
  have gd: "\<not> nm_epid ?msg < 0" "of_int (nm_sock_type ?msg) = NT_SOCK_EPOLL"
      "map_get (epoll_ctx_map ?m) (of_int (nm_epid ?msg)) = Ret (Some 0)" "sock_of ?m (ne_socket (demo_ep_ctx 1)) = Ret ?s"
    using g mm by simp_all
  have cl: "handle_msg_nts_epoll_close ?os ?m ?msg = Ret ?m'"
    unfolding epoll_close_handler [OF gd(1-3) mm(2) gd(4) mm(4) fe(1)] a using fin(1) by simp
  have cr: "ctl_ready ?m' ?msg2 1 0 0"
    using fin xm(3) cm demo_small_ids
    by (simp add: ctl_ready_def demo_ep_mgr_def demo_manager_def demo_ctl_req_def)
  have aw: "app_waits ?m' 1 (demo_ntm_ep_os id) 3"
    using fin(6) by (intro demo_app_waits [of _ _ 2]) simp
  have h: "ids_ok (epoll_ctx_map ?m)" "id_ok (of_int (nm_epid ?msg))" "id_lookup (epoll_ctx_map ?m) (of_int (nm_epid ?msg)) = Some 0"
      "0 \<notin> snd ` set (hm_entries (createHashMap :: (key, nat) hashMap))" "sk_epoll (ntsock (mg_socks ?m) ! 0) \<noteq> 0" "nm_epoll_op ?msg2 = CTL_ADD"
    using xm demo_small_ids fe(2) mm(1,6) by (simp_all add: demo_mgr_send demo_ctl_req_def)
  from epoll_close_keeps_watched [OF cl h(1-3) mm(2,4) ids_ok_new(1) h(4,5) cr h(6) aw demo_calm] cl
  show ?thesis by blast
qed

end
