(* ===== verification/Nts_Api.thy ===== *)
theory Nts_Api
  imports Ntm_Requests Id_Map Nts_Sock
begin

text \<open>
  The calls of the socket library that set up and take down a socket, in \<^verbatim>\<open>libnts/src/nts_api.c\<close>:
  \<^verbatim>\<open>nts_socket\<close>, \<^verbatim>\<open>nts_bind\<close>, \<^verbatim>\<open>nts_listen\<close>, \<^verbatim>\<open>nts_accept\<close>, \<^verbatim>\<open>nts_connect\<close> and \<^verbatim>\<open>nts_close\<close>. Each of them sends a request to
  the monitor and looks at the channel of the socket until a response is there. The rest of the structure
  \<^verbatim>\<open>nt_sock_context\<close> is added to the part that reading and writing use, so that all calls act on the same state.
\<close>

section \<open>Data\<close>

text \<open>The union of \<^verbatim>\<open>backlog_ctx\<close> and \<^verbatim>\<open>listener_socket\<close>; a listener is named by the address of its context.\<close>

datatype sock_link = No_Link | Backlog "nat nt_backlog_context" | Accepted_By nat

text \<open>A context in the map always has its socket, whose fields are here with it.\<close>

record nts_sock = Nts_Sock.nt_sock_context +
  so_id :: u32
  so_type :: u32
  so_saddr :: sockaddr_in
  so_epoll :: u32
  so_events :: u32
  so_ep_data :: u64
  so_shmaddr :: string
  so_shm :: "nts_msg shm_ctx4"
  so_msg_id :: int
  so_link :: sock_link

text \<open>\<^verbatim>\<open>nts_context\<close> with its map of sockets.\<close>

type_synonym 'b nts_lib = "(unit nts_sock_ext, 'b) nts_context_scheme"

text \<open>
  What the monitor does to the ring of requests and to the channel of the socket between two looks of the
  library.
\<close>

type_synonym ntm_move = "ntm_shm_context \<times> nts_msg shm_ctx4 \<Rightarrow> ntm_shm_context \<times> nts_msg shm_ctx4"

text \<open>
  The answers of the system to one call: the new context, its buffer, its socket, its name, its channel and its
  backlog, the two data channels, the memory of the messages on the stack, the interrupted waits of the send, what the
  monitor does before each look (before the second response of a connect in \<open>ao_moves2\<close>), what
  arrives in the backlog, and how the proxy empties the send channel.
\<close>

record api_os =
  ao_ctx :: "nat option"
  ao_buf :: bool
  ao_sock :: bool
  ao_uuid :: "string option"
  ao_shm :: bool
  ao_shm_name :: bool
  ao_shm_os :: "nts_msg mr_os"
  ao_backlog_ok :: bool
  ao_backlog_tail :: string
  ao_backlog_os :: spsc_os
  ao_chan :: bool
  ao_recv_os :: chan_os
  ao_send_os :: chan_os
  ao_msg :: ntm_msg
  ao_resp :: nts_msg
  ao_elem :: "byte list"
  ao_intr :: "bool \<times> bool"
  ao_moves :: "ntm_move list"
  ao_moves2 :: "ntm_move list"
  ao_arrive :: "(nat nt_backlog_context \<Rightarrow> nat nt_backlog_context) list"
  ao_proxy :: "nat list"

abbreviation put_so :: "'b nts_lib \<Rightarrow> nat \<Rightarrow> nts_sock \<Rightarrow> 'b nts_lib" where
  "put_so nts r sk \<equiv> nts\<lparr>nx_socks := (nx_socks nts)(r := Some sk)\<rparr>"

abbreviation drop_so :: "'b nts_lib \<Rightarrow> nat \<Rightarrow> 'b nts_lib" where
  "drop_so nts r \<equiv> nts\<lparr>nx_socks := (nx_socks nts)(r := None)\<rparr>"

section \<open>Talking to the monitor\<close>

text \<open>The loop around \<^verbatim>\<open>nts_shm_recv\<close>.\<close>

fun recv_wait ::
  "ntm_move list \<Rightarrow> ntm_shm_context \<Rightarrow> nts_msg shm_ctx4 \<Rightarrow> nts_msg \<Rightarrow> (nts_msg \<times> ntm_shm_context \<times> nts_msg shm_ctx4) outcome"
where
  "recv_wait [] ntm ctx buf = Spin"
| "recv_wait (f # fs) ntm ctx buf =
     (case f (ntm, ctx) of (ntm1, ctx1) \<Rightarrow>
        bind_out (nts_shm_recv ctx1 buf) (\<lambda>(rc, m, ctx2).
          if rc = 0 then Ret (m, ntm1, ctx2) else recv_wait fs ntm1 ctx2 m))"

declare recv_wait.simps [simp del]

text \<open>
  A request and its response; nothing when the send failed. \<open>r\<close> is the context whose channel carries the response.
\<close>

definition ask_ntm :: "api_os \<Rightarrow> 'b nts_lib \<Rightarrow> nat \<Rightarrow> nts_sock \<Rightarrow> ntm_msg \<Rightarrow> (nts_msg option \<times> nts_sock \<times> 'b nts_lib) outcome" where
  "ask_ntm os nts r sk msg =
     bind_out (ntm_shm_send (fst (ao_intr os)) (snd (ao_intr os)) (nx_ntm nts) msg) (\<lambda>(rc, ntm).
     if rc \<noteq> 0 then Ret (None, sk, nts\<lparr>nx_ntm := ntm\<rparr>)
     else
       bind_out (recv_wait (ao_moves os) ntm (so_shm sk) (ao_resp os)) (\<lambda>(m, ntm', ctx).
         let sk' = sk\<lparr>so_shm := ctx\<rparr> in Ret (Some m, sk', (put_so nts r sk')\<lparr>nx_ntm := ntm'\<rparr>)))"

text \<open>The test of a response.\<close>

definition granted :: "ntm_msg \<Rightarrow> nts_msg \<Rightarrow> bool" where
  "granted msg m \<longleftrightarrow> ns_msg_id m = nm_msg_id msg \<and> ns_retval m \<noteq> - 1"

abbreviation ntm_type :: "nat \<Rightarrow> u32" where
  "ntm_type k \<equiv> 2 ^ k"

section \<open>Socket\<close>

definition shm_bytes :: "string \<Rightarrow> byte list" where
  "shm_bytes s = map of_char s"

text \<open>\<^verbatim>\<open>sprintf(nts_shmaddr, "nts_shm-%s", shm_uuid)\<close>, into 64 bytes.\<close>

definition generate_nts_shmname :: "string option \<Rightarrow> string option outcome" where
  "generate_nts_shmname uuid =
     (case uuid of
        None \<Rightarrow> Ret None
      | Some u \<Rightarrow> if length u + 9 \<le> 64 then Ret (Some (''nts_shm-'' @ u)) else Undef)"

text \<open>\<^verbatim>\<open>nts_shm\<close> and \<^verbatim>\<open>nts_shm_accept\<close>, whose result is ignored.\<close>

definition open_nts_shm :: "api_os \<Rightarrow> string \<Rightarrow> nts_msg shm_ctx4 outcome" where
  "open_nts_shm os addr =
     bind_out (nts_shm (ao_shm os)) (\<lambda>ctx.
     bind_out (nts_shm_accept (ao_shm_name os) (ao_shm_os os) ctx addr (of_nat (length addr))) (\<lambda>(_, ctx', _). Ret ctx'))"

definition new_socket_msg :: "string \<Rightarrow> int \<Rightarrow> int \<Rightarrow> int \<Rightarrow> ntm_msg outcome" where
  "new_socket_msg addr domain type protocol =
     bind_out (memcpy (replicate 64 0) (shm_bytes addr) (length addr)) (\<lambda>nm.
       Ret (ntm_blank\<lparr>nm_msg_id := 1, nm_msg_type := ntm_type NTM_MSG_NEW_SOCK, nm_nts_shm_addrlen := int (length addr),
              nm_nts_shm_name := nm, nm_domain := domain, nm_sock_type := type, nm_protocol := protocol\<rparr>))"

definition new_sock :: "nts_config \<Rightarrow> int \<Rightarrow> int \<Rightarrow> string \<Rightarrow> nts_msg shm_ctx4 \<Rightarrow> nts_sock" where
  "new_sock cfg type sid addr ctx =
     \<lparr>so_state = socket_state.CLOSED, sk_send = Null, sk_recv = Null, sk_buf = replicate (unat (max_payloadsize cfg)) 0, sk_buflen = 0,
      so_id = of_int sid, so_type = of_int type, so_saddr = zero_saddr, so_epoll = 0, so_events = 0, so_ep_data = 0,
      so_shmaddr = addr, so_shm = ctx, so_msg_id = 2, so_link = No_Link\<rparr>"

text \<open>
  Every jump to \<^verbatim>\<open>FAIL\<close> is taken before \<^verbatim>\<open>socket\<close> has a value, and the label frees it. The context enters the heap when it
  is complete.
\<close>

definition nts_socket :: "nts_config \<Rightarrow> api_os \<Rightarrow> 'b nts_lib \<Rightarrow> int \<Rightarrow> int \<Rightarrow> int \<Rightarrow> (int \<times> 'b nts_lib) outcome" where
  "nts_socket cfg os nts domain type protocol =
     (case ao_ctx os of
        None \<Rightarrow> Undef
      | Some a \<Rightarrow>
          if \<not> ao_buf os then Undef
          else
            bind_out (generate_nts_shmname (ao_uuid os)) (\<lambda>name.
            case name of
              None \<Rightarrow> Undef
            | Some addr \<Rightarrow>
                bind_out (open_nts_shm os addr) (\<lambda>ctx.
                bind_out (new_socket_msg addr domain type protocol) (\<lambda>msg.
                bind_out (ntm_shm_send (fst (ao_intr os)) (snd (ao_intr os)) (nx_ntm nts) msg) (\<lambda>(rc, ntm).
                if rc \<noteq> 0 then Undef
                else
                  bind_out (recv_wait (ao_moves os) ntm ctx (ao_resp os)) (\<lambda>(m, ntm', ctx').
                  if \<not> granted msg m then Undef
                  else if \<not> ao_sock os then Undef
                  else
                    bind_out (map_put (nx_sock_map nts) (of_int (ns_sockid m)) a) (\<lambda>sm.
                      Ret (sint (of_int (ns_sockid m) :: u32),
                        (put_so (nts\<lparr>nx_ntm := ntm', nx_sock_map := sm\<rparr>) a
                          (new_sock cfg type (ns_sockid m) addr ctx'))))))))))"

section \<open>Bind\<close>

text \<open>\<^verbatim>\<open>inet_ntop\<close>: the four bytes of the address as they are in memory.\<close>

definition dotted :: "u32 \<Rightarrow> string" where
  "dotted a =
     (let b = map (\<lambda>x. dec_string (unat x)) (le_enc 4 (unat a)) in
      b ! 0 @ ''.'' @ b ! 1 @ ''.'' @ b ! 2 @ ''.'' @ b ! 3)"

text \<open>The fields of a request that carry an address.\<close>

definition with_addr :: "ntm_msg \<Rightarrow> sockaddr_in \<Rightarrow> ntm_msg outcome" where
  "with_addr msg addr =
     (let text = shm_bytes (dotted (sin_addr addr)) in
      bind_out (memcpy (nm_address msg) (text @ [0]) (length text + 1)) (\<lambda>a.
        Ret (msg\<lparr>nm_port := uint (swap16 (sin_port addr)), nm_address := a, nm_addrlen := int (length text) + 1\<rparr>)))"

definition nts_bind :: "api_os \<Rightarrow> 'b nts_lib \<Rightarrow> int \<Rightarrow> sockaddr_in \<Rightarrow> u32 \<Rightarrow> (int \<times> 'b nts_lib) outcome" where
  "nts_bind os nts sid addr alen =
     bind_out (c_assert (0 \<le> sid)) (\<lambda>_.
     bind_out (c_assert (0 < alen)) (\<lambda>_.
     bind_out (find_sock nts sid) (\<lambda>s.
     case s of
       None \<Rightarrow> Ret (- 1, nts)
     | Some (r, sk) \<Rightarrow>
         if so_state sk \<noteq> socket_state.CLOSED then Ret (- 1, nts)
         else
           bind_out (with_addr ((ao_msg os)\<lparr>nm_msg_id := of_int (so_msg_id sk), nm_msg_type := ntm_type NTM_MSG_BIND,
              nm_sockid := sid\<rparr>) addr) (\<lambda>msg.
           bind_out (ask_ntm os nts r sk msg) (\<lambda>(m, sk1, nts1).
           case m of
             None \<Rightarrow> Ret (- 1, nts1)
           | Some resp \<Rightarrow>
               if \<not> granted msg resp then Ret (- 1, nts1)
               else
                 Ret (0, put_so nts1 r (sk1\<lparr>so_saddr := \<lparr>sin_family = AF_INET, sin_port = sin_port addr, sin_addr = sin_addr addr\<rparr>,
                   so_state := socket_state.BOUND, so_msg_id := so_msg_id sk1 + 1\<rparr>)))))))"

section \<open>Listen\<close>

definition listen_msg :: "api_os \<Rightarrow> nts_sock \<Rightarrow> int \<Rightarrow> int \<Rightarrow> ntm_msg" where
  "listen_msg os sk sid backlog =
     (ao_msg os)\<lparr>nm_msg_id := of_int (so_msg_id sk), nm_msg_type := ntm_type NTM_MSG_LISTEN, nm_sockid := sid, nm_backlog := backlog\<rparr>"

text \<open>A backlog that could not be opened is a null pointer.\<close>

definition nts_listen :: "api_os \<Rightarrow> 'b nts_lib \<Rightarrow> int \<Rightarrow> int \<Rightarrow> (int \<times> 'b nts_lib) outcome" where
  "nts_listen os nts sid backlog =
     bind_out (c_assert (0 \<le> sid)) (\<lambda>_.
     bind_out (c_assert (0 < backlog)) (\<lambda>_.
     bind_out (find_sock nts sid) (\<lambda>s.
     case s of
       None \<Rightarrow> Ret (- 1, nts)
     | Some (r, sk) \<Rightarrow>
         if so_state sk \<noteq> socket_state.BOUND then Ret (- 1, nts)
         else
           bind_out (ask_ntm os nts r sk (listen_msg os sk sid backlog)) (\<lambda>(m, sk1, nts1).
           case m of
             None \<Rightarrow> Ret (- 1, nts1)
           | Some resp \<Rightarrow>
               if \<not> granted (listen_msg os sk sid backlog) resp then Ret (- 1, nts1)
               else
                 let name = backlog_name sid in
                 bind_out (backlog_nts (ao_backlog_ok os) (ao_backlog_ok os) (ao_backlog_tail os) (ao_backlog_os os) r name
                    (of_nat (length name)) backlog) (\<lambda>(bl, _).
                   Ret (0, put_so nts1 r (sk1\<lparr>so_state := socket_state.LISTENING, so_type := NT_SOCK_LISTENER,
                     so_link := (case bl of None \<Rightarrow> No_Link | Some b \<Rightarrow> Backlog b), so_msg_id := so_msg_id sk1 + 1\<rparr>)))))))"

section \<open>Accept\<close>

text \<open>\<^verbatim>\<open>ntp_shm\<close> and \<^verbatim>\<open>ntp_shm_connect\<close> for one direction; the result of the connect is ignored.\<close>

definition open_chan :: "nts_config \<Rightarrow> bool \<Rightarrow> chan_os \<Rightarrow> string \<Rightarrow> ntp_shm_context outcome" where
  "open_chan cfg ok os name =
     (case ntp_shm ok (unat (mtu_size cfg)) of
        None \<Rightarrow> Abort
      | Some ctx \<Rightarrow> bind_out (ntp_shm_connect os ctx name (of_nat (length name))) (\<lambda>(_, ctx', _). Ret ctx'))"

text \<open>The two data channels of a connection, named by the local and the remote port.\<close>

definition open_chans :: "nts_config \<Rightarrow> api_os \<Rightarrow> u16 \<Rightarrow> u16 \<Rightarrow> (ntp_shm_context \<times> ntp_shm_context) outcome" where
  "open_chans cfg os local_port remote_port =
     bind_out (open_chan cfg (ao_chan os) (ao_recv_os os) (shm_name local_port remote_port CHR ''r'')) (\<lambda>rx.
     bind_out (open_chan cfg (ao_chan os) (ao_send_os os) (shm_name local_port remote_port CHR ''s'')) (\<lambda>tx. Ret (rx, tx)))"

text \<open>The loop around \<^verbatim>\<open>backlog_pop\<close>.\<close>

fun pop_wait ::
  "byte list \<Rightarrow> (nat nt_backlog_context \<Rightarrow> nat nt_backlog_context) list \<Rightarrow> nat nt_backlog_context \<Rightarrow> nt_socket
     \<Rightarrow> (nt_socket \<times> nat nt_backlog_context) outcome"
where
  "pop_wait buf [] bl s = Spin"
| "pop_wait buf (f # fs) bl s =
     bind_out (backlog_pop buf (f bl) s) (\<lambda>(rc, s', bl').
     if rc = - 1 then pop_wait buf fs bl' s' else Ret (s', bl'))"

declare pop_wait.simps [simp del]

text \<open>The context of an accepted socket, when its channels are open and the monitor has said that it is established.\<close>

definition accepted_sock ::
  "nts_config \<Rightarrow> nt_socket \<Rightarrow> nat \<Rightarrow> string \<Rightarrow> nts_msg shm_ctx4 \<Rightarrow> ntp_shm_context \<Rightarrow> ntp_shm_context \<Rightarrow> nts_sock"
where
  "accepted_sock cfg c r addr ctx rx tx =
     \<lparr>so_state = socket_state.ESTABLISHED, sk_send = Live tx, sk_recv = Live rx, sk_buf = replicate (unat (max_payloadsize cfg)) 0,
      sk_buflen = 0, so_id = sockid c, so_type = socktype c, so_saddr = saddr c, so_epoll = 0, so_events = 0,
      so_ep_data = 0, so_shmaddr = addr, so_shm = ctx, so_msg_id = 1, so_link = Accepted_By r\<rparr>"

text \<open>
  The label \<^verbatim>\<open>FAIL\<close> for a context that is there: its channel is closed, socket and context are freed, its data channels stay open.
  The map may already refer to the context.
\<close>

definition accept_fail :: "'b nts_lib \<Rightarrow> nat \<Rightarrow> nts_msg shm_ctx4 option \<Rightarrow> (int \<times> 'b nts_lib) outcome" where
  "accept_fail nts b shm =
     (case shm of
        None \<Rightarrow> Ret (- 1, drop_so nts b)
      | Some ctx \<Rightarrow>
          if sc_stat ctx = SHM_READY then bind_out (nts_shm_close ctx) (\<lambda>_. Ret (- 1, drop_so nts b))
          else Ret (- 1, drop_so nts b))"

definition accept_ack_msg :: "api_os \<Rightarrow> nt_socket \<Rightarrow> string \<Rightarrow> ntm_msg outcome" where
  "accept_ack_msg os c addr =
     bind_out (memcpy (nm_nts_shm_name (ao_msg os)) (shm_bytes addr @ [0]) (length addr + 1)) (\<lambda>nm.
       Ret ((ao_msg os)\<lparr>nm_msg_id := 1, nm_sockid := sint (sockid c), nm_msg_type := ntm_type NTM_MSG_ACCEPT_ACK,
              nm_nts_shm_addrlen := int (length addr), nm_nts_shm_name := nm\<rparr>))"

text \<open>
  The second half: the context of the socket is in the map, the monitor confirms the connection on the channel of
  the listener, and is told the name of the new channel. The listener itself cannot be closed meanwhile by
  the thread that waits here.
\<close>

definition accept_confirm ::
  "nts_config \<Rightarrow> api_os \<Rightarrow> 'b nts_lib \<Rightarrow> nat \<Rightarrow> nts_sock \<Rightarrow> nat \<Rightarrow> nt_socket \<Rightarrow> string \<Rightarrow> nts_msg shm_ctx4
     \<Rightarrow> ntp_shm_context \<Rightarrow> ntp_shm_context \<Rightarrow> (int \<times> 'b nts_lib) outcome"
where
  "accept_confirm cfg os nts r sk b c addr ctx rx tx =
     bind_out (recv_wait (ao_moves os) (nx_ntm nts) (so_shm sk) (ao_resp os)) (\<lambda>(m, ntm, shm).
     let nts1 = (put_so nts r (sk\<lparr>so_shm := shm\<rparr>))\<lparr>nx_ntm := ntm\<rparr> in
     if ns_retval m = - 1 \<or> ns_msg_type m \<noteq> 2 ^ NTS_MSG_CLIENT_SYN_ACK \<or> of_int (ns_sockid m) \<noteq> sockid c
     then accept_fail nts1 b (Some ctx)
     else
       bind_out (accept_ack_msg os c addr) (\<lambda>msg.
       bind_out (ntm_shm_send (fst (ao_intr os)) (snd (ao_intr os)) (nx_ntm nts1) msg) (\<lambda>(rc, ntm').
       let nts2 = nts1\<lparr>nx_ntm := ntm'\<rparr> in
       if rc \<noteq> 0 then accept_fail nts2 b (Some ctx)
       else if so_state sk = socket_state.CLOSED then accept_fail nts2 b (Some ctx)
       else Ret (sint (sockid c), put_so nts2 b (accepted_sock cfg c r addr ctx rx tx)))))"

text \<open>
  A jump to \<^verbatim>\<open>FAIL\<close> before the backlog is looked at finds \<^verbatim>\<open>client_socket\<close> and \<^verbatim>\<open>client_sock_ctx\<close> without a value. The
  results of the two allocations are not tested: \<^verbatim>\<open>backlog_pop\<close> asserts that there is a socket, and the context is
  written to.
\<close>

definition nts_accept :: "nts_config \<Rightarrow> api_os \<Rightarrow> 'b nts_lib \<Rightarrow> int \<Rightarrow> (int \<times> 'b nts_lib) outcome" where
  "nts_accept cfg os nts sid =
     bind_out (c_assert (0 \<le> sid)) (\<lambda>_.
     bind_out (find_sock nts sid) (\<lambda>s.
     case s of
       None \<Rightarrow> Undef
     | Some (r, sk) \<Rightarrow>
         if so_type sk \<noteq> NT_SOCK_LISTENER \<or> so_state sk \<noteq> socket_state.LISTENING then Undef
         else
           (case so_link sk of
              Backlog bl \<Rightarrow>
                if bl_stat bl \<noteq> BACKLOG_READY then Undef
                else if \<not> ao_sock os then Abort
                else
                  bind_out (pop_wait (ao_elem os) (ao_arrive os) bl zero_socket) (\<lambda>(c, bl').
                  let sk1 = sk\<lparr>so_link := Backlog bl'\<rparr>; nts1 = put_so nts r sk1 in
                  case ao_ctx os of
                    None \<Rightarrow> Undef
                  | Some b \<Rightarrow>
                      if \<not> ao_buf os then accept_fail nts1 b None
                      else
                        bind_out (generate_nts_shmname (ao_uuid os)) (\<lambda>name.
                        case name of
                          None \<Rightarrow> accept_fail nts1 b None
                        | Some addr \<Rightarrow>
                            bind_out (open_nts_shm os addr) (\<lambda>ctx.
                            bind_out (open_chans cfg os (swap16 (sin_port (so_saddr sk))) (swap16 (sin_port (saddr c))))
                              (\<lambda>(rx, tx).
                            bind_out (map_put (nx_sock_map nts1) (sockid c) b) (\<lambda>sm.
                              accept_confirm cfg os (nts1\<lparr>nx_sock_map := sm\<rparr>) r sk1 b c addr ctx rx tx)))))
            | _ \<Rightarrow> Undef)))"

section \<open>Connect\<close>

text \<open>
  The second response and what follows it. \<^verbatim>\<open>Put\<close> enters the context under the key it already has.
\<close>

definition connect_finish ::
  "nts_config \<Rightarrow> api_os \<Rightarrow> 'b nts_lib \<Rightarrow> nat \<Rightarrow> nts_sock \<Rightarrow> int \<Rightarrow> sockaddr_in \<Rightarrow> nts_msg \<Rightarrow> (int \<times> 'b nts_lib) outcome"
where
  "connect_finish cfg os nts r sk sid name buf =
     bind_out (recv_wait (ao_moves2 os) (nx_ntm nts) (so_shm sk) buf) (\<lambda>(m, ntm, ctx).
     let sk1 = sk\<lparr>so_shm := ctx\<rparr>; nts1 = (put_so nts r sk1)\<lparr>nx_ntm := ntm\<rparr> in
     if ns_retval m = - 1 \<or> ns_msg_type m \<noteq> 2 ^ NTS_MSG_ESTABLISH then Ret (- 1, nts1)
     else
       bind_out (open_chans cfg os (swap16 (sin_port (so_saddr sk))) (swap16 (sin_port name))) (\<lambda>(rx, tx).
       bind_out (map_put (nx_sock_map nts1) (of_int sid) r) (\<lambda>sm.
         Ret (0, put_so (nts1\<lparr>nx_sock_map := sm\<rparr>) r
           (sk1\<lparr>sk_recv := Live rx, sk_send := Live tx, so_state := socket_state.ESTABLISHED\<rparr>)))))"

definition nts_connect :: "nts_config \<Rightarrow> api_os \<Rightarrow> 'b nts_lib \<Rightarrow> int \<Rightarrow> sockaddr_in \<Rightarrow> u32 \<Rightarrow> (int \<times> 'b nts_lib) outcome" where
  "nts_connect cfg os nts sid name namelen =
     bind_out (c_assert (0 \<le> sid)) (\<lambda>_.
     bind_out (c_assert (0 < namelen)) (\<lambda>_.
     bind_out (find_sock nts sid) (\<lambda>s.
     case s of
       None \<Rightarrow> Ret (- 1, nts)
     | Some (r, sk) \<Rightarrow>
         if so_state sk \<noteq> socket_state.CLOSED then Ret (- 1, nts)
         else
           bind_out (with_addr ((ao_msg os)\<lparr>nm_msg_id := of_int (so_msg_id sk), nm_msg_type := ntm_type NTM_MSG_CONNECT,
              nm_sockid := sid\<rparr>) name) (\<lambda>msg.
           bind_out (ask_ntm os nts r sk msg) (\<lambda>(m, sk1, nts1).
           case m of
             None \<Rightarrow> Ret (- 1, nts1)
           | Some resp \<Rightarrow>
               if \<not> granted msg resp \<or> ns_msg_type resp \<noteq> 2 ^ NTS_MSG_DISPATCHED then Ret (- 1, nts1)
               else
                 let sk2 = sk1\<lparr>so_saddr := (so_saddr sk1)\<lparr>sin_port := swap16 (of_int (ns_port resp))\<rparr>\<rparr> in
                 connect_finish cfg os (put_so nts1 r sk2) r sk2 sid name resp)))))"

section \<open>Close\<close>

text \<open>The end of a context whose channel is closed.\<close>

definition free_sock :: "'b nts_lib \<Rightarrow> nat \<Rightarrow> nts_sock \<Rightarrow> (int \<times> 'b nts_lib) outcome" where
  "free_sock nts r sk = bind_out (nts_shm_close (so_shm sk)) (\<lambda>_. Ret (0, drop_so nts r))"

definition close_backlog :: "sock_link \<Rightarrow> unit outcome" where
  "close_backlog l = (case l of Backlog bl \<Rightarrow> bind_out (backlog_nts_close bl) (\<lambda>_. Ret ()) | No_Link \<Rightarrow> Ret () | _ \<Rightarrow> Undef)"

text \<open>A listener: the response has no \<^verbatim>\<open>retval\<close>, so that what is tested is the memory of the message.\<close>

definition close_listener :: "api_os \<Rightarrow> 'b nts_lib \<Rightarrow> nat \<Rightarrow> nts_sock \<Rightarrow> int \<Rightarrow> (int \<times> 'b nts_lib) outcome" where
  "close_listener os nts r sk sid =
     (let sk1 = sk\<lparr>so_state := socket_state.WAIT_FIN\<rparr>; nts1 = put_so nts r sk1;
          msg = (ao_msg os)\<lparr>nm_msg_id := of_int (so_msg_id sk), nm_msg_type := ntm_type NTM_MSG_CLOSE, nm_sockid := sid\<rparr> in
      bind_out (ntm_shm_send (fst (ao_intr os)) (snd (ao_intr os)) (nx_ntm nts1) msg) (\<lambda>(rc, ntm).
      if rc \<noteq> 0 then Ret (- 1, nts1\<lparr>nx_ntm := ntm\<rparr>)
      else
        bind_out (close_backlog (so_link sk1)) (\<lambda>_.
        bind_out (recv_wait (ao_moves os) ntm (so_shm sk1) (ao_resp os)) (\<lambda>(m, ntm', ctx).
        let sk2 = sk1\<lparr>so_shm := ctx\<rparr>; nts2 = (put_so nts1 r sk2)\<lparr>nx_ntm := ntm'\<rparr> in
        if ns_msg_id m \<noteq> nm_msg_id msg \<or> ns_msg_type m \<noteq> 2 ^ NTS_MSG_CLOSE \<or> ns_retval m = - 1 then Ret (- 1, nts2)
        else free_sock nts2 r sk2))))"

text \<open>A message without payload tells the peer, whose monitor answers.\<close>

definition send_fin :: "nts_config \<Rightarrow> nat list \<Rightarrow> ntp_shm_context \<Rightarrow> (int \<times> ntp_shm_context) outcome" where
  "send_fin cfg env ctx =
     bind_out (ntp_shm_ntpacket_alloc ctx (unat (mtu_size cfg))) (\<lambda>(_, off, ctx1).
     bind_out (fill_block ctx1 off NTP_FIN 0) (\<lambda>ctx2. ntp_shm_send env ctx2 off))"

definition close_conn :: "nts_config \<Rightarrow> api_os \<Rightarrow> 'b nts_lib \<Rightarrow> nat \<Rightarrow> nts_sock \<Rightarrow> (int \<times> 'b nts_lib) outcome" where
  "close_conn cfg os nts r sk =
     (case sk_send sk of
        Live tx \<Rightarrow>
          bind_out (send_fin cfg (ao_proxy os) tx) (\<lambda>(rc, tx').
          let sk1 = sk\<lparr>so_state := socket_state.WAIT_FIN, sk_send := Live tx'\<rparr>; nts1 = put_so nts r sk1 in
          if rc = - 1 then Ret (- 1, nts1)
          else
            bind_out (recv_wait (ao_moves os) (nx_ntm nts1) (so_shm sk1) nts_blank) (\<lambda>(m, ntm, ctx).
            let sk2 = sk1\<lparr>so_shm := ctx\<rparr>; nts2 = (put_so nts1 r sk2)\<lparr>nx_ntm := ntm\<rparr> in
            if ns_retval m = - 1 \<or> ns_msg_type m \<noteq> 2 ^ NTS_MSG_CLOSE then Ret (- 1, nts2)
            else
              bind_out (end_channel (sk_send sk2)) (\<lambda>_.
              bind_out (end_channel (sk_recv sk2)) (\<lambda>_. free_sock nts2 r sk2))))
      | Null \<Rightarrow> Abort
      | _ \<Rightarrow> Undef)"

text \<open>The context leaves the map first, whatever happens then.\<close>

definition nts_close :: "nts_config \<Rightarrow> api_os \<Rightarrow> 'b nts_lib \<Rightarrow> int \<Rightarrow> (int \<times> 'b nts_lib) outcome" where
  "nts_close cfg os nts sid =
     bind_out (c_assert (0 \<le> sid)) (\<lambda>_.
     bind_out (find_sock nts sid) (\<lambda>s.
     case s of
       None \<Rightarrow> Ret (- 1, nts)
     | Some (r, sk) \<Rightarrow>
         bind_out (map_remove (nx_sock_map nts) (of_int sid)) (\<lambda>sm.
         let nts1 = nts\<lparr>nx_sock_map := sm\<rparr> in
         if so_type sk \<noteq> NT_SOCK_LISTENER \<and> so_state sk \<noteq> socket_state.ESTABLISHED then free_sock nts1 r sk
         else if so_type sk = NT_SOCK_LISTENER \<and> so_state sk = socket_state.LISTENING then close_listener os nts1 r sk sid
         else close_conn cfg os nts1 r sk)))"

end
