(* ===== verification/Nts_Life.thy ===== *)
theory Nts_Life
  imports Nts_Api
begin

text \<open>
  The life of a socket as the application sees it: the calls of the library refine a state machine on
  numbers of sockets, whatever the monitor answers.
\<close>

section \<open>Calls\<close>

datatype api_call =
  Socket int int int | Bind int sockaddr_in u32 | Listen int int | Accept int | Connect int sockaddr_in u32 | Close int

fun api_step :: "nts_config \<Rightarrow> api_os \<Rightarrow> api_call \<Rightarrow> 'b nts_lib \<Rightarrow> (int \<times> 'b nts_lib) outcome" where
  "api_step cfg os (Socket d t p) nts = nts_socket cfg os nts d t p"
| "api_step cfg os (Bind s a n) nts = nts_bind os nts s a n"
| "api_step cfg os (Listen s b) nts = nts_listen os nts s b"
| "api_step cfg os (Accept s) nts = nts_accept cfg os nts s"
| "api_step cfg os (Connect s a n) nts = nts_connect cfg os nts s a n"
| "api_step cfg os (Close s) nts = nts_close cfg os nts s"

section \<open>The state machine\<close>

type_synonym sock_states = "u32 \<Rightarrow> socket_state option"

definition set_state :: "int \<Rightarrow> socket_state option \<Rightarrow> sock_states \<Rightarrow> sock_states" where
  "set_state s x f i = (if id_str i = id_str (of_int s) then x else f i)"

text \<open>The states after a call with result \<open>rc\<close>.\<close>

fun life :: "api_call \<Rightarrow> int \<Rightarrow> sock_states \<Rightarrow> sock_states" where
  "life (Socket d t p) rc f = set_state rc (Some socket_state.CLOSED) f"
| "life (Bind s a n) rc f = (if rc = 0 then set_state s (Some socket_state.BOUND) f else f)"
| "life (Listen s b) rc f = (if rc = 0 then set_state s (Some socket_state.LISTENING) f else f)"
| "life (Accept s) rc f = set_state rc (Some socket_state.ESTABLISHED) f"
| "life (Connect s a n) rc f = (if rc = 0 then set_state s (Some socket_state.ESTABLISHED) f else f)"
| "life (Close s) rc f = set_state s None f"

text \<open>The states in which a call may succeed.\<close>

fun legal :: "api_call \<Rightarrow> int \<Rightarrow> sock_states \<Rightarrow> bool" where
  "legal (Socket d t p) rc f \<longleftrightarrow> f (of_int rc) = None"
| "legal (Bind s a n) rc f \<longleftrightarrow> rc = 0 \<and> f (of_int s) = Some socket_state.CLOSED \<or> rc = - 1"
| "legal (Listen s b) rc f \<longleftrightarrow> rc = 0 \<and> f (of_int s) = Some socket_state.BOUND \<or> rc = - 1"
| "legal (Accept s) rc f \<longleftrightarrow> f (of_int s) = Some socket_state.LISTENING \<and> f (of_int rc) = None"
| "legal (Connect s a n) rc f \<longleftrightarrow> rc = 0 \<and> f (of_int s) = Some socket_state.CLOSED \<or> rc = - 1"
| "legal (Close s) rc f \<longleftrightarrow> rc = 0 \<and> f (of_int s) \<noteq> None \<or> rc = - 1"

section \<open>The library\<close>

definition abs_state :: "'b nts_lib \<Rightarrow> sock_states" where
  "abs_state nts i =
     (case id_lookup (nx_sock_map nts) i of None \<Rightarrow> None | Some r \<Rightarrow> map_option so_state (nx_socks nts r))"

text \<open>What a socket has in its states: the data channels exactly when it is established, a backlog only when it listens.\<close>

definition sock_typed :: "nts_sock \<Rightarrow> bool" where
  "sock_typed sk \<longleftrightarrow>
     (if so_state sk = socket_state.ESTABLISHED then \<exists>rx tx. sk_recv sk = Live rx \<and> sk_send sk = Live tx
      else
        sk_recv sk = Null \<and> sk_send sk = Null \<and>
        (if so_state sk = socket_state.LISTENING then so_type sk = NT_SOCK_LISTENER \<and> (\<forall>r. so_link sk \<noteq> Accepted_By r)
         else so_state sk \<in> {socket_state.CLOSED, socket_state.BOUND} \<and> so_link sk = No_Link))"

definition lib_inv :: "'b nts_lib \<Rightarrow> bool" where
  "lib_inv nts \<longleftrightarrow>
     ids_ok (nx_sock_map nts) \<and>
     (\<forall>i r. id_lookup (nx_sock_map nts) i = Some r \<longrightarrow>
        (\<exists>sk. nx_socks nts r = Some sk \<and> id_ok (so_id sk) \<and> id_str (so_id sk) = id_str i \<and> sock_typed sk))"

text \<open>
  What the library relies on: a new context gets memory that is not in use, the monitor gives out numbers that are not
  in use and that are keys, and the number of a socket that is connected is the first one in its chain of the map. Accepts that fail are
  not part of a history.
\<close>

definition head_of :: "(key, nat) hashMap \<Rightarrow> u32 \<Rightarrow> bool" where
  "head_of m i \<longleftrightarrow>
     (\<exists>k v es. hm_list m ! (unat (defaultHashCode (le_enc 4 (unat i))) mod listSize m) = (k, v) # es \<and> cstr k = id_str i)"

fun api_ok :: "api_os \<Rightarrow> api_call \<Rightarrow> int \<Rightarrow> 'b nts_lib \<Rightarrow> bool" where
  "api_ok os (Socket d t p) rc nts \<longleftrightarrow>
     (\<forall>a. ao_ctx os = Some a \<longrightarrow> nx_socks nts a = None) \<and> id_ok (of_int rc) \<and> id_lookup (nx_sock_map nts) (of_int rc) = None"
| "api_ok os (Accept s) rc nts \<longleftrightarrow>
     id_ok (of_int s) \<and> (\<forall>a. ao_ctx os = Some a \<longrightarrow> nx_socks nts a = None) \<and> id_ok (of_int rc) \<and>
     id_lookup (nx_sock_map nts) (of_int rc) = None \<and> rc \<noteq> - 1"
| "api_ok os (Connect s a n) rc nts \<longleftrightarrow> id_ok (of_int s) \<and> head_of (nx_sock_map nts) (of_int s)"
| "api_ok os (Bind s a n) rc nts \<longleftrightarrow> id_ok (of_int s)"
| "api_ok os (Listen s b) rc nts \<longleftrightarrow> id_ok (of_int s)"
| "api_ok os (Close s) rc nts \<longleftrightarrow> id_ok (of_int s)"

inductive api_run :: "nts_config \<Rightarrow> 'b nts_lib \<Rightarrow> (api_call \<times> int) list \<Rightarrow> 'b nts_lib \<Rightarrow> bool" for cfg nts where
  start: "api_run cfg nts [] nts"
| call: "api_run cfg nts tr nts1 \<Longrightarrow> api_ok os c rc nts1 \<Longrightarrow> api_step cfg os c nts1 = Ret (rc, nts2) \<Longrightarrow>
     api_run cfg nts (tr @ [(c, rc)]) nts2"

fun life_run :: "(api_call \<times> int) list \<Rightarrow> sock_states \<Rightarrow> sock_states option" where
  "life_run [] f = Some f"
| "life_run ((c, rc) # tr) f = (if legal c rc f then life_run tr (life c rc f) else None)"

lemma life_run_snoc: "life_run tr f = Some g \<Longrightarrow> legal c rc g \<Longrightarrow> life_run (tr @ [(c, rc)]) f = Some (life c rc g)"
  by (induction tr f rule: life_run.induct) (auto split: if_splits)

section \<open>Updates of the table\<close>

lemma lib_lookup:
  assumes "lib_inv nts" "id_lookup (nx_sock_map nts) i = Some r"
  obtains sk where "nx_socks nts r = Some sk" "id_ok (so_id sk)" "id_str (so_id sk) = id_str i" "sock_typed sk"
  using assms unfolding lib_inv_def by blast

lemma find_sock_inv:
  assumes "lib_inv nts" "id_ok (of_int s)"
  shows "find_sock nts s = Ret (case id_lookup (nx_sock_map nts) (of_int s) of None \<Rightarrow> None
       | Some r \<Rightarrow> Some (r, the (nx_socks nts r)))"
proof (cases "id_lookup (nx_sock_map nts) (of_int s)")
  case None
  then show ?thesis using assms by (simp add: find_sock_def lib_inv_def map_get_key)
next
  case (Some r)
  then obtain sk where "nx_socks nts r = Some sk" using lib_lookup [OF assms(1)] by metis
  then show ?thesis using assms Some by (simp add: find_sock_def lib_inv_def map_get_key)
qed

lemma lib_same_id:
  assumes "lib_inv nts" "id_lookup (nx_sock_map nts) i = Some r" "id_lookup (nx_sock_map nts) j = Some r"
  shows "id_str i = id_str j"
  using lib_lookup [OF assms(1,2)] lib_lookup [OF assms(1,3)] by (metis option.inject)

text \<open>A context that changes but keeps its number.\<close>

lemma lib_update:
  assumes inv: "lib_inv nts" and r: "id_lookup (nx_sock_map nts) (of_int s) = Some r" "nx_socks nts r = Some sk"
    and sk': "so_id sk' = so_id sk" "sock_typed sk'"
    and m: "nx_sock_map nts' = nx_sock_map nts" "nx_socks nts' = (nx_socks nts)(r := Some sk')"
  shows "lib_inv nts' \<and> abs_state nts' = set_state s (Some (so_state sk')) (abs_state nts)"
proof
  show "lib_inv nts'"
    unfolding lib_inv_def m
  proof (intro conjI allI impI)
    show "ids_ok (nx_sock_map nts)" using inv by (simp add: lib_inv_def)
    fix j q assume j: "id_lookup (nx_sock_map nts) j = Some q"
    then obtain s1 where s1: "nx_socks nts q = Some s1" "id_ok (so_id s1)" "id_str (so_id s1) = id_str j" "sock_typed s1"
      by (rule lib_lookup [OF inv])
    show "\<exists>sk. ((nx_socks nts)(r := Some sk')) q = Some sk \<and> id_ok (so_id sk) \<and> id_str (so_id sk) = id_str j \<and> sock_typed sk"
    proof (cases "q = r")
      case True
      then have "s1 = sk" using s1(1) r(2) by simp
      then show ?thesis using True s1 sk' by (intro exI [of _ sk']) simp
    next
      case False
      then show ?thesis using s1 by (intro exI [of _ s1]) simp
    qed
  qed
  show "abs_state nts' = set_state s (Some (so_state sk')) (abs_state nts)"
  proof
    fix i
    show "abs_state nts' i = set_state s (Some (so_state sk')) (abs_state nts) i"
    proof (cases "id_str i = id_str (of_int s)")
      case True
      then show ?thesis using r id_lookup_cong [OF True, of "nx_sock_map nts"] by (simp add: abs_state_def set_state_def m)
    next
      case False
      then have "id_lookup (nx_sock_map nts) i \<noteq> Some r" using lib_same_id [OF inv] r(1) by blast
      then show ?thesis using False by (auto simp: abs_state_def set_state_def m split: option.splits)
    qed
  qed
qed

text \<open>A new context, and one that leaves the map.\<close>

lemma lib_insert:
  assumes inv: "lib_inv nts" and new: "id_ok (of_int s)" "id_lookup (nx_sock_map nts) (of_int s) = None" "nx_socks nts a = None"
    and sk: "so_id sk = of_int s" "sock_typed sk" and put: "map_put (nx_sock_map nts) (of_int s) a = Ret sm"
    and m: "nx_sock_map nts' = sm" "nx_socks nts' = (nx_socks nts)(a := Some sk)"
  shows "lib_inv nts' \<and> abs_state nts' = set_state s (Some (so_state sk)) (abs_state nts)"
proof -
  have ids: "ids_ok (nx_sock_map nts)" using inv by (simp add: lib_inv_def)
  have sm: "ids_ok sm" "\<And>j. id_lookup sm j = (if id_str j = id_str (of_int s) then Some a else id_lookup (nx_sock_map nts) j)"
    using map_put_key [OF ids new(1,2), of a] put by auto
  have na: "id_lookup (nx_sock_map nts) j \<noteq> Some a" for j using new(3) lib_lookup [OF inv, of j a] by fastforce
  have "lib_inv nts'"
    unfolding lib_inv_def m
  proof (intro conjI allI impI)
    show "ids_ok sm" by (rule sm(1))
    fix j q assume j: "id_lookup sm j = Some q"
    show "\<exists>sk'. ((nx_socks nts)(a := Some sk)) q = Some sk' \<and> id_ok (so_id sk') \<and> id_str (so_id sk') = id_str j \<and> sock_typed sk'"
    proof (cases "id_str j = id_str (of_int s)")
      case True
      then show ?thesis using j sm(2) [of j] sk new(1) by (intro exI [of _ sk]) simp
    next
      case False
      then have q: "id_lookup (nx_sock_map nts) j = Some q" using j sm(2) [of j] by simp
      then have "q \<noteq> a" using na by blast
      then show ?thesis using lib_lookup [OF inv q] by (metis fun_upd_other)
    qed
  qed
  moreover have "abs_state nts' = set_state s (Some (so_state sk)) (abs_state nts)"
    using na by (auto simp: abs_state_def set_state_def m sm(2) fun_eq_iff split: option.splits)
  ultimately show ?thesis ..
qed

lemma lib_remove:
  assumes inv: "lib_inv nts" and s: "id_ok (of_int s)" "id_lookup (nx_sock_map nts) (of_int s) = Some r"
    and rem: "map_remove (nx_sock_map nts) (of_int s) = Ret sm"
    and m: "nx_sock_map nts' = sm" "\<And>q. q \<noteq> r \<Longrightarrow> nx_socks nts' q = nx_socks nts q"
  shows "lib_inv nts' \<and> abs_state nts' = set_state s None (abs_state nts)"
proof -
  have ids: "ids_ok (nx_sock_map nts)" using inv by (simp add: lib_inv_def)
  have sm: "ids_ok sm" "\<And>j. id_lookup sm j = (if id_str j = id_str (of_int s) then None else id_lookup (nx_sock_map nts) j)"
    using map_remove_key [OF ids s(1)] rem by auto
  have q: "q \<noteq> r" if "id_str j \<noteq> id_str (of_int s)" "id_lookup (nx_sock_map nts) j = Some q" for j q
    using lib_same_id [OF inv _ s(2)] that by blast
  have "lib_inv nts'"
    unfolding lib_inv_def m(1)
  proof (intro conjI allI impI)
    show "ids_ok sm" by (rule sm(1))
    fix j p assume j: "id_lookup sm j = Some p"
    then have d: "id_str j \<noteq> id_str (of_int s)" "id_lookup (nx_sock_map nts) j = Some p" using sm(2) [of j] by (auto split: if_splits)
    show "\<exists>sk. nx_socks nts' p = Some sk \<and> id_ok (so_id sk) \<and> id_str (so_id sk) = id_str j \<and> sock_typed sk"
      unfolding m(2) [OF q [OF d]] using lib_lookup [OF inv d(2)] by metis
  qed
  moreover have "abs_state nts' i = set_state s None (abs_state nts) i" for i
    using q m(2) by (auto simp: abs_state_def set_state_def m(1) sm(2) split: option.splits)
  ultimately show ?thesis by blast
qed

text \<open>Storing the value that is there, under the first key of a chain.\<close>

lemma map_put_same:
  assumes "ids_ok m" "id_ok i" "id_lookup m i = Some r" "head_of m i"
  shows "map_put m i r = Ret m"
proof -
  let ?k = "le_enc 4 (unat i)"
  let ?n = "unat (defaultHashCode ?k) mod listSize m"
  have wf: "hm_wf defaultHashCode cstr m" using assms(1) by (simp add: hm_inv_def)
  obtain k v es where b: "hm_list m ! ?n = (k, v) # es" "cstr k = id_str i" using assms(4) unfolding head_of_def by blast
  have n: "?n < length (hm_list m)" using wf by (simp add: hm_wf_def)
  have "(k, v) \<in> set (hm_entries m)" unfolding hm_entries_def using b(1) nth_mem [OF n] by force
  then have "hm_map cstr m (cstr k) = Some v"
    using wf by (force simp: hm_map_def hm_wf_def comp_def intro!: map_of_is_SomeI)
  then have "v = r" using assms(3) b(2) by (simp add: id_lookup_def)
  then have "put_slot defaultHashCode defaultEqual m ?k r = Ret (False, m)"
    using put_existing_slot(1) [OF wf _ b(1), of r] assms(3) b(1) list_update_id [of "hm_list m" ?n]
    by (simp add: id_lookup_def del: le_enc.simps list_update_id)
  then show ?thesis
    using assms(2) by (simp add: map_put_def id_key_ok defaultPut_def hm_fuel_def numeral_2_eq_2 del: le_enc.simps)
qed

section \<open>The calls refine the machine\<close>

definition refines :: "api_call \<Rightarrow> int \<Rightarrow> 'b nts_lib \<Rightarrow> 'b nts_lib \<Rightarrow> bool" where
  "refines c rc nts nts' \<longleftrightarrow>
     lib_inv nts' \<and> legal c rc (abs_state nts) \<and> abs_state nts' = life c rc (abs_state nts)"

lemma abs_known:
  assumes "id_lookup (nx_sock_map nts) (of_int s) = Some r" "nx_socks nts r = Some sk"
  shows "abs_state nts (of_int s) = Some (so_state sk)" "set_state s (Some (so_state sk)) (abs_state nts) = abs_state nts"
proof -
  show *: "abs_state nts (of_int s) = Some (so_state sk)" using assms by (simp add: abs_state_def)
  have "abs_state nts i = abs_state nts (of_int s)" if "id_str i = id_str (of_int s)" for i
    using id_lookup_cong [OF that] by (simp add: abs_state_def)
  then show "set_state s (Some (so_state sk)) (abs_state nts) = abs_state nts"
    by (simp add: set_state_def fun_eq_iff *)
qed

text \<open>A context whose state stays, and a library that keeps its sockets.\<close>

lemma lib_touch:
  assumes "lib_inv nts" "id_lookup (nx_sock_map nts) (of_int s) = Some r" "nx_socks nts r = Some sk"
    and "so_id sk' = so_id sk" "sock_typed sk'" "so_state sk' = so_state sk"
    and "nx_sock_map nts' = nx_sock_map nts" "nx_socks nts' = (nx_socks nts)(r := Some sk')"
  shows "lib_inv nts' \<and> abs_state nts' = abs_state nts"
  using lib_update [OF assms(1-5) assms(7,8)] abs_known(2) [OF assms(2,3)] assms(6) by simp

lemma lib_keep:
  assumes "lib_inv nts" "nx_sock_map nts' = nx_sock_map nts" "nx_socks nts' = nx_socks nts"
  shows "lib_inv nts' \<and> abs_state nts' = abs_state nts"
proof
  show "lib_inv nts'" using assms(1) unfolding lib_inv_def assms(2,3) .
  show "abs_state nts' = abs_state nts" by (rule ext) (unfold abs_state_def assms(2,3), rule refl)
qed

lemma ask_ntm_Ret:
  assumes "ask_ntm os nts r sk msg = Ret (m, sk1, nts1)"
  shows "nx_sock_map nts1 = nx_sock_map nts"
    and "sk1 = sk\<lparr>so_shm := so_shm sk1\<rparr>"
    and "m = None \<Longrightarrow> nx_socks nts1 = nx_socks nts"
    and "m \<noteq> None \<Longrightarrow> nx_socks nts1 = (nx_socks nts)(r := Some sk1)"
proof -
  obtain rc ntm where s: "ntm_shm_send (fst (ao_intr os)) (snd (ao_intr os)) (nx_ntm nts) msg = Ret (rc, ntm)"
    using assms unfolding ask_ntm_def bind_out_eq_Ret by (metis surj_pair)
  have *: "nx_sock_map nts1 = nx_sock_map nts \<and> sk1 = sk\<lparr>so_shm := so_shm sk1\<rparr> \<and>
      (m = None \<longrightarrow> nx_socks nts1 = nx_socks nts) \<and> (m \<noteq> None \<longrightarrow> nx_socks nts1 = (nx_socks nts)(r := Some sk1))"
  proof (cases "rc = 0")
    case True
    obtain m' ntm' ctx where "recv_wait (ao_moves os) ntm (so_shm sk) (ao_resp os) = Ret (m', ntm', ctx)"
      "m = Some m'" "sk1 = sk\<lparr>so_shm := ctx\<rparr>" "nts1 = (put_so nts r sk1)\<lparr>nx_ntm := ntm'\<rparr>"
      using assms True unfolding ask_ntm_def s by (auto simp: Let_def)
    then show ?thesis by simp
  next
    case False
    then show ?thesis using assms unfolding ask_ntm_def s by auto
  qed
  then show "nx_sock_map nts1 = nx_sock_map nts" "sk1 = sk\<lparr>so_shm := so_shm sk1\<rparr>"
    "m = None \<Longrightarrow> nx_socks nts1 = nx_socks nts" "m \<noteq> None \<Longrightarrow> nx_socks nts1 = (nx_socks nts)(r := Some sk1)"
    by blast+
qed

lemma typed_shm: "sock_typed (sk\<lparr>so_shm := x\<rparr>) = sock_typed sk"
  by (simp add: sock_typed_def)

text \<open>The known socket of a call.\<close>

lemma find_known:
  assumes "lib_inv nts" "id_ok (of_int s)" "find_sock nts s = Ret (Some (r, sk))"
  shows "id_lookup (nx_sock_map nts) (of_int s) = Some r" "nx_socks nts r = Some sk" "sock_typed sk"
proof -
  from assms(3) find_sock_inv [OF assms(1,2)] show l: "id_lookup (nx_sock_map nts) (of_int s) = Some r"
    by (auto split: option.splits)
  then obtain sk' where sk': "nx_socks nts r = Some sk'" "sock_typed sk'" using lib_lookup [OF assms(1)] by metis
  moreover have "the (nx_socks nts r) = sk" using assms(3) find_sock_inv [OF assms(1,2)] l by simp
  ultimately show "nx_socks nts r = Some sk" "sock_typed sk" by simp_all
qed

lemma find_unknown:
  assumes "lib_inv nts" "id_ok (of_int s)" "find_sock nts s = Ret None"
  shows "abs_state nts (of_int s) = None"
  using assms(3) find_sock_inv [OF assms(1,2)] by (auto simp: abs_state_def split: option.splits)

text \<open>
  The pattern of a request: refused without a change of state, or granted and then the context gets its new
  state.
\<close>

lemma request_refines:
  assumes inv: "lib_inv nts" and k: "id_lookup (nx_sock_map nts) (of_int s) = Some r" "nx_socks nts r = Some sk" "sock_typed sk"
    and ask: "ask_ntm os nts r sk msg = Ret (m, sk1, nts1)"
  shows "lib_inv nts1" "abs_state nts1 = abs_state nts"
    and "m \<noteq> None \<Longrightarrow> sock_typed sk2 \<Longrightarrow> so_id sk2 = so_id sk1 \<Longrightarrow> nx_sock_map nts2 = nx_sock_map nts1 \<Longrightarrow>
      nx_socks nts2 = (nx_socks nts1)(r := Some sk2) \<Longrightarrow>
      lib_inv nts2 \<and> abs_state nts2 = set_state s (Some (so_state sk2)) (abs_state nts)"
proof -
  note a = ask_ntm_Ret [OF ask]
  have sk1: "so_id sk1 = so_id sk" "so_state sk1 = so_state sk" "sock_typed sk1"
    using k(3) by (subst a(2), simp add: typed_shm)+
  have "lib_inv nts1 \<and> abs_state nts1 = abs_state nts"
  proof (cases "m = None")
    case True
    then show ?thesis using lib_keep [OF inv a(1)] a(3) by simp
  next
    case False
    then show ?thesis using lib_touch [OF inv k(1,2) sk1(1,3,2) a(1)] a(4) by simp
  qed
  then show i1: "lib_inv nts1" and s1: "abs_state nts1 = abs_state nts" by simp_all
  assume m: "m \<noteq> None" and 2: "sock_typed sk2" "so_id sk2 = so_id sk1" "nx_sock_map nts2 = nx_sock_map nts1"
    "nx_socks nts2 = (nx_socks nts1)(r := Some sk2)"
  have "id_lookup (nx_sock_map nts1) (of_int s) = Some r" "nx_socks nts1 r = Some sk1" using k(1) a(1) a(4) [OF m] by simp_all
  from lib_update [OF i1 this 2(2,1,3,4)]
  show "lib_inv nts2 \<and> abs_state nts2 = set_state s (Some (so_state sk2)) (abs_state nts)" unfolding s1 .
qed

lemma bind_refines:
  assumes inv: "lib_inv nts" "id_ok (of_int s)" and st: "nts_bind os nts s a n = Ret (rc, nts')"
  shows "refines (Bind s a n) rc nts nts'"
proof -
  obtain f where f: "find_sock nts s = Ret f" using st by (auto simp: nts_bind_def)
  show ?thesis
  proof (cases "\<exists>r sk. f = Some (r, sk) \<and> so_state sk = socket_state.CLOSED")
    case False
    then have "rc = - 1 \<and> nts' = nts" using st f by (auto simp: nts_bind_def split: option.splits prod.splits)
    then show ?thesis using inv by (simp add: refines_def)
  next
    case True
    then obtain r sk where sk: "f = Some (r, sk)" "so_state sk = socket_state.CLOSED" by blast
    note k = find_known [OF inv f [unfolded sk(1)]]
    obtain msg m sk1 nts1 where ask: "ask_ntm os nts r sk msg = Ret (m, sk1, nts1)"
      and res: "(case m of None \<Rightarrow> Ret (- 1, nts1) | Some resp \<Rightarrow> if \<not> granted msg resp then Ret (- 1, nts1)
         else Ret (0, put_so nts1 r (sk1\<lparr>so_saddr := \<lparr>sin_family = AF_INET, sin_port = sin_port a, sin_addr = sin_addr a\<rparr>,
           so_state := socket_state.BOUND, so_msg_id := so_msg_id sk1 + 1\<rparr>))) = Ret (rc, nts')"
      using st f sk by (auto simp: nts_bind_def)
    note q = request_refines [OF inv(1) k ask]
    let ?sk2 = "sk1\<lparr>so_saddr := \<lparr>sin_family = AF_INET, sin_port = sin_port a, sin_addr = sin_addr a\<rparr>,
           so_state := socket_state.BOUND, so_msg_id := so_msg_id sk1 + 1\<rparr>"
    obtain ctx where "sk1 = sk\<lparr>so_shm := ctx\<rparr>" using ask_ntm_Ret(2) [OF ask] by blast
    then have t: "sock_typed ?sk2" "so_id ?sk2 = so_id sk1" using k(3) sk(2) by (simp_all add: sock_typed_def)
    show ?thesis
    proof (cases "\<exists>resp. m = Some resp \<and> granted msg resp")
      case True
      then have g: "m \<noteq> None" "rc = 0" "nts' = put_so nts1 r ?sk2" using res by auto
      have "lib_inv nts' \<and> abs_state nts' = set_state s (Some (so_state ?sk2)) (abs_state nts)"
        by (rule q(3) [OF g(1) t]) (simp_all add: g(3))
      then show ?thesis using g(2) abs_known(1) [OF k(1,2)] sk(2) by (simp add: refines_def)
    next
      case False
      then have "rc = - 1" "nts' = nts1" using res by (auto split: option.splits)
      then show ?thesis using q(1,2) by (simp add: refines_def)
    qed
  qed
qed

lemma listen_refines:
  assumes inv: "lib_inv nts" "id_ok (of_int s)" and st: "nts_listen os nts s b = Ret (rc, nts')"
  shows "refines (Listen s b) rc nts nts'"
proof -
  obtain f where f: "find_sock nts s = Ret f" using st by (auto simp: nts_listen_def)
  show ?thesis
  proof (cases "\<exists>r sk. f = Some (r, sk) \<and> so_state sk = socket_state.BOUND")
    case False
    then have "rc = - 1 \<and> nts' = nts" using st f by (auto simp: nts_listen_def split: option.splits prod.splits)
    then show ?thesis using inv by (simp add: refines_def)
  next
    case True
    then obtain r sk where sk: "f = Some (r, sk)" "so_state sk = socket_state.BOUND" by blast
    note k = find_known [OF inv f [unfolded sk(1)]]
    obtain msg m sk1 nts1 where ask: "ask_ntm os nts r sk msg = Ret (m, sk1, nts1)"
      and res: "(case m of None \<Rightarrow> Ret (- 1, nts1) | Some resp \<Rightarrow> if \<not> granted msg resp then Ret (- 1, nts1)
         else bind_out (backlog_nts (ao_backlog_ok os) (ao_backlog_ok os) (ao_backlog_tail os) (ao_backlog_os os) r
               (backlog_name s) (of_nat (length (backlog_name s))) b) (\<lambda>(bl, _).
             Ret (0, put_so nts1 r (sk1\<lparr>so_state := socket_state.LISTENING, so_type := NT_SOCK_LISTENER,
               so_link := (case bl of None \<Rightarrow> No_Link | Some b \<Rightarrow> Backlog b), so_msg_id := so_msg_id sk1 + 1\<rparr>)))) = Ret (rc, nts')"
      using st [unfolded nts_listen_def Let_def] f sk by auto
    note q = request_refines [OF inv(1) k ask]
    obtain ctx where c: "sk1 = sk\<lparr>so_shm := ctx\<rparr>" using ask_ntm_Ret(2) [OF ask] by blast
    show ?thesis
    proof (cases "\<exists>resp. m = Some resp \<and> granted msg resp")
      case True
      then obtain bl where g: "m \<noteq> None" "rc = 0" "nts' = put_so nts1 r (sk1\<lparr>so_state := socket_state.LISTENING, so_type := NT_SOCK_LISTENER,
          so_link := (case bl of None \<Rightarrow> No_Link | Some b \<Rightarrow> Backlog b), so_msg_id := so_msg_id sk1 + 1\<rparr>)"
        using res by auto
      let ?sk2 = "sk1\<lparr>so_state := socket_state.LISTENING, so_type := NT_SOCK_LISTENER,
          so_link := (case bl of None \<Rightarrow> No_Link | Some b \<Rightarrow> Backlog b), so_msg_id := so_msg_id sk1 + 1\<rparr>"
      have t: "sock_typed ?sk2" "so_id ?sk2 = so_id sk1"
        using k(3) sk(2) c by (simp_all add: sock_typed_def split: option.splits)
      have "lib_inv nts' \<and> abs_state nts' = set_state s (Some (so_state ?sk2)) (abs_state nts)"
        by (rule q(3) [OF g(1) t]) (simp_all add: g(3))
      then show ?thesis using g(2) abs_known(1) [OF k(1,2)] sk(2) by (simp add: refines_def)
    next
      case False
      then have "rc = - 1" "nts' = nts1" using res by (auto split: option.splits)
      then show ?thesis using q(1,2) by (simp add: refines_def)
    qed
  qed
qed

text \<open>The second half of a connect, which stores the context under the key it has.\<close>

lemma connect_finish_Ret:
  assumes "connect_finish cfg os nts r sk s a buf = Ret (rc, nts')"
    and "map_put (nx_sock_map nts) (of_int s) r = Ret (nx_sock_map nts)"
  shows "\<exists>sk'. so_id sk' = so_id sk \<and> nx_sock_map nts' = nx_sock_map nts \<and> nx_socks nts' = (nx_socks nts)(r := Some sk') \<and>
     (rc = - 1 \<and> sock_typed sk' = sock_typed sk \<and> so_state sk' = so_state sk \<or>
      rc = 0 \<and> so_state sk' = socket_state.ESTABLISHED \<and> sock_typed sk')"
proof -
  obtain m ntm ctx where w: "recv_wait (ao_moves2 os) (nx_ntm nts) (so_shm sk) buf = Ret (m, ntm, ctx)"
    using assms(1) unfolding connect_finish_def bind_out_eq_Ret by (metis surj_pair)
  let ?sk1 = "sk\<lparr>so_shm := ctx\<rparr>"
  let ?nts1 = "(put_so nts r ?sk1)\<lparr>nx_ntm := ntm\<rparr>"
  show ?thesis
  proof (cases "ns_retval m = - 1 \<or> ns_msg_type m \<noteq> 2 ^ NTS_MSG_ESTABLISH")
    case True
    then have "rc = - 1" "nts' = ?nts1" using assms(1) unfolding connect_finish_def w by auto
    then show ?thesis by - (rule exI [of _ ?sk1], simp add: typed_shm)
  next
    case False
    then obtain rx tx where "rc = 0" and n: "nts' = put_so ?nts1 r (?sk1\<lparr>sk_recv := Live rx, sk_send := Live tx, so_state := socket_state.ESTABLISHED\<rparr>)"
      using assms unfolding connect_finish_def w by (auto simp: Let_def)
    then show ?thesis
      by - (rule exI [of _ "?sk1\<lparr>sk_recv := Live rx, sk_send := Live tx, so_state := socket_state.ESTABLISHED\<rparr>"],
        simp add: sock_typed_def)
  qed
qed

lemma connect_refines:
  assumes inv: "lib_inv nts" "id_ok (of_int s)" and hd: "head_of (nx_sock_map nts) (of_int s)"
    and st: "nts_connect cfg os nts s a n = Ret (rc, nts')"
  shows "refines (Connect s a n) rc nts nts'"
proof -
  obtain f where f: "find_sock nts s = Ret f" using st by (auto simp: nts_connect_def)
  show ?thesis
  proof (cases "\<exists>r sk. f = Some (r, sk) \<and> so_state sk = socket_state.CLOSED")
    case False
    then have "rc = - 1 \<and> nts' = nts" using st f by (auto simp: nts_connect_def split: option.splits prod.splits)
    then show ?thesis using inv by (simp add: refines_def)
  next
    case True
    then obtain r sk where sk: "f = Some (r, sk)" "so_state sk = socket_state.CLOSED" by blast
    note k = find_known [OF inv f [unfolded sk(1)]]
    obtain msg m sk1 nts1 where ask: "ask_ntm os nts r sk msg = Ret (m, sk1, nts1)"
      and res: "(case m of None \<Rightarrow> Ret (- 1, nts1) | Some resp \<Rightarrow>
          if \<not> granted msg resp \<or> ns_msg_type resp \<noteq> 2 ^ NTS_MSG_DISPATCHED then Ret (- 1, nts1)
          else connect_finish cfg os (put_so nts1 r (sk1\<lparr>so_saddr := (so_saddr sk1)\<lparr>sin_port := swap16 (of_int (ns_port resp))\<rparr>\<rparr>)) r
                 (sk1\<lparr>so_saddr := (so_saddr sk1)\<lparr>sin_port := swap16 (of_int (ns_port resp))\<rparr>\<rparr>) s a resp) = Ret (rc, nts')"
      using st [unfolded nts_connect_def Let_def] f sk by auto
    note q = request_refines [OF inv(1) k ask]
    obtain ctx where c: "sk1 = sk\<lparr>so_shm := ctx\<rparr>" using ask_ntm_Ret(2) [OF ask] by blast
    show ?thesis
    proof (cases "\<exists>resp. m = Some resp \<and> granted msg resp \<and> ns_msg_type resp = 2 ^ NTS_MSG_DISPATCHED")
      case True
      then obtain resp where m: "m = Some resp" "granted msg resp" "ns_msg_type resp = 2 ^ NTS_MSG_DISPATCHED" by blast
      define sk2 where "sk2 = sk1\<lparr>so_saddr := (so_saddr sk1)\<lparr>sin_port := swap16 (of_int (ns_port resp))\<rparr>\<rparr>"
      have fin: "connect_finish cfg os (put_so nts1 r sk2) r sk2 s a resp = Ret (rc, nts')"
        using res m by (simp add: sk2_def)
      have m1: "nx_sock_map nts1 = nx_sock_map nts" using ask_ntm_Ret(1) [OF ask] .
      from connect_finish_Ret [OF fin] m1 k(1) hd inv obtain sk3 where sk3: "so_id sk3 = so_id sk2" "nx_sock_map nts' = nx_sock_map nts1"
        "nx_socks nts' = (nx_socks nts1)(r := Some sk3)"
        "rc = - 1 \<and> sock_typed sk3 = sock_typed sk2 \<and> so_state sk3 = so_state sk2 \<or>
         rc = 0 \<and> so_state sk3 = socket_state.ESTABLISHED \<and> sock_typed sk3"
        by (auto simp: map_put_same lib_inv_def)
      have t: "sock_typed sk2" "so_id sk2 = so_id sk1" "so_state sk2 = socket_state.CLOSED"
        using k(3) sk(2) c by (simp_all add: sk2_def sock_typed_def)
      have "sock_typed sk3" "so_id sk3 = so_id sk1" using sk3 t by auto
      then have "lib_inv nts' \<and> abs_state nts' = set_state s (Some (so_state sk3)) (abs_state nts)"
        by (intro q(3)) (simp_all add: m(1) sk3)
      then show ?thesis using sk3(4) t(3) abs_known [OF k(1,2)] sk(2) by (auto simp: refines_def)
    next
      case False
      then have "rc = - 1" "nts' = nts1" using res by (auto split: option.splits if_splits)
      then show ?thesis using q(1,2) by (simp add: refines_def)
    qed
  qed
qed

lemma nts_socket_Ret:
  assumes "nts_socket cfg os nts d t p = Ret (rc, nts')" "ao_ctx os = Some a"
  shows "\<exists>sid addr ctx sm. rc = sint (of_int sid :: u32) \<and> map_put (nx_sock_map nts) (of_int sid) a = Ret sm \<and>
    nx_sock_map nts' = sm \<and> nx_socks nts' = (nx_socks nts)(a := Some (new_sock cfg t sid addr ctx))"
  using assms by (auto simp: nts_socket_def split: if_splits option.splits) blast

lemma socket_refines:
  assumes inv: "lib_inv nts" and ok: "api_ok os (Socket d t p) rc nts" and st: "nts_socket cfg os nts d t p = Ret (rc, nts')"
  shows "refines (Socket d t p) rc nts nts'"
proof -
  obtain a where a: "ao_ctx os = Some a" using st by (cases "ao_ctx os") (auto simp: nts_socket_def)
  obtain sid addr ctx sm where rc: "rc = sint (of_int sid :: u32)"
    and sm: "map_put (nx_sock_map nts) (of_int sid) a = Ret sm"
    and n: "nx_sock_map nts' = sm" "nx_socks nts' = (nx_socks nts)(a := Some (new_sock cfg t sid addr ctx))"
    using nts_socket_Ret [OF st a] by blast
  let ?sk = "new_sock cfg t sid addr ctx"
  have i: "of_int sid = (of_int rc :: u32)" by (simp add: rc)
  have t: "so_id ?sk = of_int rc" "sock_typed ?sk" by (simp_all add: new_sock_def i sock_typed_def)
  have u: "id_ok (of_int rc)" "id_lookup (nx_sock_map nts) (of_int rc) = None" "nx_socks nts a = None" using ok a by simp_all
  have "lib_inv nts' \<and> abs_state nts' = set_state rc (Some (so_state ?sk)) (abs_state nts)"
    by (rule lib_insert [OF inv u t sm [unfolded i] n])
  then show ?thesis using u(2) by (simp add: refines_def abs_state_def new_sock_def)
qed

text \<open>An accept that succeeds leaves the listener as it was, but for its channel and its backlog.\<close>

lemma accept_fail_rc: "accept_fail nts b shm = Ret (rc, nts') \<Longrightarrow> rc = - 1"
  by (auto simp: accept_fail_def split: option.splits if_splits)

lemma accept_confirm_Ret:
  assumes "accept_confirm cfg os nts r sk b c addr ctx rx tx = Ret (rc, nts')" "rc \<noteq> - 1"
  shows "\<exists>shm. rc = sint (sockid c) \<and> nx_sock_map nts' = nx_sock_map nts \<and>
     nx_socks nts' = (nx_socks nts)(r := Some (sk\<lparr>so_shm := shm\<rparr>), b := Some (accepted_sock cfg c r addr ctx rx tx))"
proof -
  obtain m ntm shm where w: "recv_wait (ao_moves os) (nx_ntm nts) (so_shm sk) (ao_resp os) = Ret (m, ntm, shm)"
    using assms(1) unfolding accept_confirm_def bind_out_eq_Ret by (metis surj_pair)
  show ?thesis
    using assms unfolding accept_confirm_def w
    by (auto simp: Let_def dest: accept_fail_rc split: if_splits intro!: exI [of _ shm])
qed

lemma nts_accept_Ret:
  assumes "nts_accept cfg os nts s = Ret (rc, nts')" "rc \<noteq> - 1"
  shows "\<exists>r sk bl c b addr ctx rx tx sm shm. find_sock nts s = Ret (Some (r, sk)) \<and> so_type sk = NT_SOCK_LISTENER \<and>
     so_state sk = socket_state.LISTENING \<and> ao_ctx os = Some b \<and> rc = sint (sockid c) \<and>
     map_put (nx_sock_map nts) (sockid c) b = Ret sm \<and> nx_sock_map nts' = sm \<and>
     nx_socks nts' = (nx_socks nts)(r := Some (sk\<lparr>so_link := Backlog bl, so_shm := shm\<rparr>), b := Some (accepted_sock cfg c r addr ctx rx tx))"
proof -
  obtain r sk where f: "find_sock nts s = Ret (Some (r, sk))" "so_type sk = NT_SOCK_LISTENER" "so_state sk = socket_state.LISTENING"
    using assms(1) by (auto simp: nts_accept_def split: option.splits if_splits)
  obtain bl0 where l: "so_link sk = Backlog bl0" "bl_stat bl0 = BACKLOG_READY" "ao_sock os"
    using assms(1) f by (cases "so_link sk") (auto simp: nts_accept_def split: if_splits)
  obtain c bl where w: "pop_wait (ao_elem os) (ao_arrive os) bl0 zero_socket = Ret (c, bl)"
    using assms(1) f l unfolding nts_accept_def by (auto split: prod.splits)
  obtain b where b: "ao_ctx os = Some b" using assms(1) f l w unfolding nts_accept_def by (auto simp: Let_def split: option.splits)
  let ?nts1 = "put_so nts r (sk\<lparr>so_link := Backlog bl\<rparr>)"
  obtain addr ctx rx tx sm where "map_put (nx_sock_map nts) (sockid c) b = Ret sm"
    and "accept_confirm cfg os (?nts1\<lparr>nx_sock_map := sm\<rparr>) r (sk\<lparr>so_link := Backlog bl\<rparr>) b c addr ctx rx tx = Ret (rc, nts')"
    using assms f l w b unfolding nts_accept_def
    by (auto simp: Let_def dest: accept_fail_rc split: if_splits option.splits)
  then show ?thesis
    using accept_confirm_Ret [OF _ assms(2)] f b by fastforce
qed

lemma accept_refines:
  assumes inv: "lib_inv nts" and ok: "api_ok os (Accept s) rc nts" and st: "nts_accept cfg os nts s = Ret (rc, nts')"
  shows "refines (Accept s) rc nts nts'"
proof -
  have u: "id_ok (of_int s)" "id_ok (of_int rc)" "id_lookup (nx_sock_map nts) (of_int rc) = None" "rc \<noteq> - 1" using ok by simp_all
  obtain r sk bl c b addr ctx rx tx sm shm where f: "find_sock nts s = Ret (Some (r, sk))" "so_type sk = NT_SOCK_LISTENER"
      "so_state sk = socket_state.LISTENING" and b: "ao_ctx os = Some b" and rc: "rc = sint (sockid c)"
    and sm: "map_put (nx_sock_map nts) (sockid c) b = Ret sm" and n: "nx_sock_map nts' = sm"
      "nx_socks nts' = (nx_socks nts)(r := Some (sk\<lparr>so_link := Backlog bl, so_shm := shm\<rparr>), b := Some (accepted_sock cfg c r addr ctx rx tx))"
    using nts_accept_Ret [OF st u(4)] by blast
  note k = find_known [OF inv u(1) f(1)]
  let ?sk' = "sk\<lparr>so_link := Backlog bl, so_shm := shm\<rparr>" and ?c = "accepted_sock cfg c r addr ctx rx tx"
  let ?nts1 = "put_so nts r ?sk'"
  have "sock_typed ?sk'" using k(3) f by (simp add: sock_typed_def)
  then have i1: "lib_inv ?nts1" "abs_state ?nts1 = abs_state nts"
    using lib_touch [OF inv k(1,2), of ?sk' ?nts1] by simp_all
  have i: "sockid c = (of_int rc :: u32)" by (simp add: rc)
  have nb: "nx_socks nts b = None" using ok b by simp
  then have "nx_socks ?nts1 b = None" using k(2) by auto
  moreover have "so_id ?c = of_int rc" "sock_typed ?c" by (simp_all add: accepted_sock_def i sock_typed_def)
  ultimately have "lib_inv nts' \<and> abs_state nts' = set_state rc (Some (so_state ?c)) (abs_state ?nts1)"
    using lib_insert [OF i1(1) u(2), of b ?c sm nts'] u(3) sm n by (simp add: i)
  then show ?thesis
    using u(3) abs_known(1) [OF k(1,2)] f(3) i1(2) by (simp add: refines_def accepted_sock_def) (simp add: abs_state_def)
qed

text \<open>What closing does after the context has left the map touches this context only.\<close>

definition only_at :: "nat \<Rightarrow> int \<Rightarrow> 'b nts_lib \<Rightarrow> 'b nts_lib \<Rightarrow> bool" where
  "only_at r rc nts nts' \<longleftrightarrow>
     (rc = 0 \<or> rc = - 1) \<and> nx_sock_map nts' = nx_sock_map nts \<and> (\<forall>q. q \<noteq> r \<longrightarrow> nx_socks nts' q = nx_socks nts q)"

lemma free_sock_only: "free_sock nts r sk = Ret (rc, nts') \<Longrightarrow> only_at r rc nts nts'"
  by (auto simp: free_sock_def only_at_def)

lemma only_at_trans:
  "only_at r rc nts1 nts' \<Longrightarrow> nx_sock_map nts1 = nx_sock_map nts \<Longrightarrow> nx_socks nts1 = (nx_socks nts)(r := x) \<Longrightarrow>
     only_at r rc nts nts'"
  by (simp add: only_at_def)

lemma close_listener_only:
  assumes "close_listener os nts r sk s = Ret (rc, nts')"
  shows "only_at r rc nts nts'"
proof -
  let ?sk1 = "sk\<lparr>so_state := socket_state.WAIT_FIN\<rparr>"
  let ?msg = "(ao_msg os)\<lparr>nm_msg_id := of_int (so_msg_id sk), nm_msg_type := ntm_type NTM_MSG_CLOSE, nm_sockid := s\<rparr>"
  obtain e ntm where send: "ntm_shm_send (fst (ao_intr os)) (snd (ao_intr os)) (nx_ntm nts) ?msg = Ret (e, ntm)"
    using assms by (auto simp: close_listener_def Let_def)
  show ?thesis
  proof (cases "e = 0")
    case False
    then show ?thesis using assms send by (auto simp: close_listener_def Let_def only_at_def)
  next
    case True
    then obtain m ntm' ctx where "recv_wait (ao_moves os) ntm (so_shm ?sk1) (ao_resp os) = Ret (m, ntm', ctx)"
      and res: "(if ns_msg_id m \<noteq> nm_msg_id ?msg \<or> ns_msg_type m \<noteq> 2 ^ NTS_MSG_CLOSE \<or> ns_retval m = - 1
         then Ret (- 1, (put_so (put_so nts r ?sk1) r (?sk1\<lparr>so_shm := ctx\<rparr>))\<lparr>nx_ntm := ntm'\<rparr>)
         else free_sock ((put_so (put_so nts r ?sk1) r (?sk1\<lparr>so_shm := ctx\<rparr>))\<lparr>nx_ntm := ntm'\<rparr>) r (?sk1\<lparr>so_shm := ctx\<rparr>)) = Ret (rc, nts')"
      using assms send unfolding close_listener_def Let_def by auto
    from res show ?thesis
      by (auto simp: only_at_def dest!: free_sock_only split: if_splits)
  qed
qed

lemma close_conn_only:
  assumes "close_conn cfg os nts r sk = Ret (rc, nts')"
  shows "only_at r rc nts nts'"
proof -
  obtain tx e tx' where tx: "sk_send sk = Live tx" "send_fin cfg (ao_proxy os) tx = Ret (e, tx')"
    using assms by (auto simp: close_conn_def Let_def split: cptr.splits)
  show ?thesis
  proof (cases "e = - 1")
    case True
    then show ?thesis using assms tx by (auto simp: close_conn_def Let_def only_at_def)
  next
    case False
    then obtain m ntm ctx where "recv_wait (ao_moves os) (nx_ntm nts) (so_shm sk) nts_blank = Ret (m, ntm, ctx)"
      using assms tx by (auto simp: close_conn_def Let_def)
    then show ?thesis
      using assms tx False
      by (auto simp: close_conn_def Let_def only_at_def dest!: free_sock_only split: if_splits)
  qed
qed

lemma abs_unknown:
  assumes "lib_inv nts" "id_ok (of_int s)" "find_sock nts s = Ret None"
  shows "set_state s None (abs_state nts) = abs_state nts"
proof
  fix i
  have "abs_state nts i = None" if "id_str i = id_str (of_int s)"
    using find_unknown [OF assms] id_lookup_cong [OF that, of "nx_sock_map nts"] unfolding abs_state_def by simp
  then show "set_state s None (abs_state nts) i = abs_state nts i" by (simp add: set_state_def)
qed

lemma close_refines:
  assumes inv: "lib_inv nts" "id_ok (of_int s)" and st: "nts_close cfg os nts s = Ret (rc, nts')"
  shows "refines (Close s) rc nts nts'"
proof -
  obtain f where f: "find_sock nts s = Ret f" using st by (auto simp: nts_close_def)
  show ?thesis
  proof (cases f)
    case None
    then have "rc = - 1" "nts' = nts" using st f by (auto simp: nts_close_def)
    moreover have "set_state s None (abs_state nts) = abs_state nts" by (rule abs_unknown [OF inv f [unfolded None]])
    ultimately show ?thesis using inv(1) by (simp add: refines_def)
  next
    case (Some p)
    obtain r sk where p: "p = (r, sk)" by (cases p)
    note k = find_known [OF inv f [unfolded Some p]]
    obtain sm where rem: "map_remove (nx_sock_map nts) (of_int s) = Ret sm"
      using st f Some p by (auto simp: nts_close_def)
    have "only_at r rc (nts\<lparr>nx_sock_map := sm\<rparr>) nts'"
      using st f Some p rem
      by (auto simp: nts_close_def Let_def dest: free_sock_only close_listener_only close_conn_only split: if_splits)
    then have o: "rc = 0 \<or> rc = - 1" "nx_sock_map nts' = sm" "\<And>q. q \<noteq> r \<Longrightarrow> nx_socks nts' q = nx_socks nts q"
      by (simp_all add: only_at_def)
    show ?thesis
      using lib_remove [OF inv k(1) rem o(2,3)] o(1) abs_known(1) [OF k(1,2)] by (auto simp: refines_def)
  qed
qed

section \<open>Histories\<close>

lemma api_step_refines:
  assumes "lib_inv nts" "api_ok os c rc nts" "api_step cfg os c nts = Ret (rc, nts')"
  shows "refines c rc nts nts'"
  using assms
  by (cases c) (auto intro: socket_refines bind_refines listen_refines accept_refines connect_refines close_refines)


section \<open>A socket from its creation to its end\<close>

definition demo_answer :: "nts_msg \<Rightarrow> ntm_move" where
  "demo_answer m = (\<lambda>(ntm, ctx). (ntm, case nts_shm_send ctx m of Ret (_, c) \<Rightarrow> c | _ \<Rightarrow> ctx))"

definition demo_chan_os :: chan_os where
  "demo_chan_os = \<lparr>os_ring = Shmring.demo_os, os_idxs = True, os_values = True, os_lens = True,
     os_pool = \<lparr>os_handler = False, os_mem_name = False, os_mp_name = False, os_sem_name = False, os_mem_exists = False, os_mem_fd = - 1,
       os_mem_trunc = False, os_mem_map = None, os_mp_exists = False, os_mp_fd = - 1, os_mp_trunc = False, os_mp_map = None, os_sem = False\<rparr>\<rparr>"

definition demo_api :: "u64 \<Rightarrow> u32 \<Rightarrow> api_os" where
  "demo_api i t = \<lparr>ao_ctx = Some 0, ao_buf = True, ao_sock = True, ao_uuid = Some ''u'', ao_shm = True, ao_shm_name = True,
     ao_shm_os = demo_nts_os, ao_backlog_ok = True, ao_backlog_tail = [CHR 0x00], ao_backlog_os = demo_spsc_os 4, ao_chan = True,
     ao_recv_os = demo_chan_os, ao_send_os = demo_chan_os, ao_msg = ntm_blank, ao_resp = nts_blank, ao_elem = [],
     ao_intr = (False, False), ao_moves = [id, demo_answer (nts_blank\<lparr>ns_msg_id := i, ns_msg_type := t, ns_sockid := 3\<rparr>)],
     ao_moves2 = [], ao_arrive = [], ao_proxy = []\<rparr>"

definition demo_lib :: "unit nts_lib" where
  "demo_lib = \<lparr>nx_sock_map = createHashMap, nx_socks = (\<lambda>_. None),
     nx_ntm = \<lparr>nx_stat = SHM_READY, nx_handle = Live demo_ntm, nx_addr = Null, nx_addrlen = 0\<rparr>\<rparr>"

definition demo_opened :: "(int \<times> unit nts_lib) outcome \<Rightarrow> bool" where
  "demo_opened x =
     (case x of
        Ret (rc, nts) \<Rightarrow>
          rc = 3 \<and> (case nx_socks nts 0 of None \<Rightarrow> False | Some sk \<Rightarrow> (case nts_shm_close (so_shm sk) of Ret _ \<Rightarrow> True | _ \<Rightarrow> False))
      | _ \<Rightarrow> False)"

lemma demo_opens: "demo_opened (nts_socket demo_nts_cfg (demo_api 1 2) demo_lib 2 1 0)"
  by code_simp

lemma demo_lib_inv: "lib_inv demo_lib" "api_ok (demo_api 1 2) (Socket 2 1 0) 3 demo_lib" "id_ok 3"
  by (simp_all add: lib_inv_def demo_lib_def ids_ok_new demo_api_def id_ok_small del: le_enc.simps)

lemma demo_socket:
  obtains nts1 sk x where "nts_socket demo_nts_cfg (demo_api 1 2) demo_lib 2 1 0 = Ret (3, nts1)" "lib_inv nts1"
    "find_sock nts1 3 = Ret (Some (0, sk))" "so_state sk = socket_state.CLOSED" "so_type sk = 1" "nts_shm_close (so_shm sk) = Ret x"
proof -
  obtain nts1 sk where s: "nts_socket demo_nts_cfg (demo_api 1 2) demo_lib 2 1 0 = Ret (3, nts1)" "nx_socks nts1 0 = Some sk"
      and c: "case nts_shm_close (so_shm sk) of Ret _ \<Rightarrow> True | _ \<Rightarrow> False"
    using demo_opens by (auto simp: demo_opened_def split: outcome.splits option.splits)
  obtain x where x: "nts_shm_close (so_shm sk) = Ret x" using c by (cases "nts_shm_close (so_shm sk)") simp_all
  have r: "refines (Socket 2 1 0) 3 demo_lib nts1" by (rule socket_refines [OF demo_lib_inv(1,2) s(1)])
  then have i: "lib_inv nts1" "abs_state nts1 3 = Some socket_state.CLOSED" by (simp_all add: refines_def set_state_def)
  obtain sid addr ctx sm where n: "map_put (nx_sock_map demo_lib) (of_int sid) 0 = Ret sm" "3 = sint (of_int sid :: u32)" "nx_sock_map nts1 = sm"
      "nx_socks nts1 = (nx_socks demo_lib)(0 := Some (new_sock demo_nts_cfg 1 sid addr ctx))"
    using nts_socket_Ret [OF s(1), of 0] by (auto simp: demo_api_def)
  have sk: "sk = new_sock demo_nts_cfg 1 sid addr ctx" using s(2) n(4) by simp
  obtain r' where r': "id_lookup (nx_sock_map nts1) 3 = Some r'" "nx_socks nts1 r' \<noteq> None"
    using i(2) by (auto simp: abs_state_def split: option.splits)
  then have "r' = 0" using n(4) by (auto simp: demo_lib_def split: if_splits)
  then have "find_sock nts1 3 = Ret (Some (0, sk))"
    using find_sock_inv [OF i(1), of 3] demo_lib_inv(3) r'(1) s(2) by simp
  then show ?thesis using that [OF s(1) i(1) _ _ _ x] by (simp add: sk new_sock_def)
qed


end
