(* ===== verification/Spec2Isabelle.thy ===== *)
theory Spec2Isabelle
  imports Shmring_Conc Ntp_Plane Ntm_Handshake Nt_Config Epoll_Plane Nts_Life
begin

text \<open>
  NTSocks: sockets over a PCIe non-transparent bridge.

  \<^bold>\<open>The program.\<close> Three programs run on each of two hosts. An application links the library \<^verbatim>\<open>libnts\<close>, whose calls look like
  those of BSD sockets. The monitor (\<^verbatim>\<open>monitor\<close>) owns ports, sockets and listeners and sets up connections with the
  monitor of the other host over TCP. The proxy (\<^verbatim>\<open>ntb-proxy\<close>) moves the data: it takes messages out of shared memory,
  writes them as packets into the memory of the other host through the bridge, and puts what arrives there into the shared memory of its own
  applications. All of them talk through rings in shared memory, most of which are in \<^verbatim>\<open>libfdu-utils\<close>.

  \<^bold>\<open>How the code is modelled.\<close> A function of the source is a function on explicit state. Its result is an
  \<open>outcome\<close>: \<open>Ret\<close> of a value, \<open>Abort\<close> for a failed assertion, \<open>Undef\<close> for undefined behaviour (a null or freed or never assigned pointer,
  an index outside of an array, a string without its end) and \<open>Spin\<close> for a loop that does not end. Machine integers are words of their width, structures
  are records with the fields of the source, enumerations are datatypes. Objects from \<^verbatim>\<open>malloc\<close> are numbers with a heap where their
  sharing matters; memory that was not initialised is an argument. Answers of the operating system are
  records of arguments, and the acquisitions and releases of a constructor or destructor are a trace. A loop that waits for another process takes a list of that process's
  moves and is \<open>Spin\<close> when the list is used up, so that a claim that it returns is a claim about enough moves. The only other fuel is the
  nesting of the resize of the hash map, two levels, which the refinement theorem shows to be enough.

  \<^bold>\<open>The theories, from the bottom up.\<close>
  \<^item> \<open>Prelude\<close>, \<open>Fifo\<close>, \<open>Ring_Index\<close>, \<open>Os_Resource\<close>, \<open>Byte_Mem\<close>: outcomes, words, byte copies; the contract of a bounded queue as locales
    (\<open>bounded_fifo\<close>, and \<open>viewed_fifo\<close> for a queue that delivers a view of what was put in); index arithmetic; resource traces; flat memory.
  \<^item> \<open>Shmring\<close> (\<^verbatim>\<open>shmring.c\<close>): every operation of the ring, also in bulk; \<open>Shmring_Conc\<close>: the same push and pop as
    atomic steps of two processes, as an inductive step relation with an invariant.
  \<^item> \<open>Shm_Mempool\<close> (\<^verbatim>\<open>shm_mempool.c\<close>), \<open>Hash_Map\<close> (\<^verbatim>\<open>hash_map.c\<close>, with the locales \<open>key_ops\<close> and \<open>map_contract\<close>), \<open>Sem_Shmring\<close> (\<^verbatim>\<open>sem_shmring.c\<close>),
    \<open>Epoll_Event_Queue\<close> (\<^verbatim>\<open>epoll_event_queue.c\<close>), \<open>Epoll_Shm\<close> (\<^verbatim>\<open>epoll_shm.c\<close>, \<^verbatim>\<open>epoll_sem_shm.c\<close>).
  \<^item> \<open>Ntp2nts_Shm\<close> (\<^verbatim>\<open>ntp2nts_shm.c\<close>): the data channel, a pool of blocks and a ring of their indices. \<open>Ntp_Blocks\<close> and \<open>Chan_View\<close> give
    its users a view as a queue of messages.
  \<^item> \<open>Ntb_Mw\<close> (\<^verbatim>\<open>ntb_mw.c\<close>): the rings across the bridge as bytes of the windows; \<open>Ntb_Wire\<close>: the protocol of one such ring.
  \<^item> \<open>Msg_Ring\<close>, \<open>Nt_Msg\<close>, \<open>Ctl_Shm\<close>, \<open>Ntm_Shmring\<close>: the rings of messages between library, monitor and proxy (\<^verbatim>\<open>ntm_ntp_shmring.c\<close>, \<^verbatim>\<open>ntp_ntm_shmring.c\<close>,
    \<^verbatim>\<open>nts_shmring.c\<close>, \<^verbatim>\<open>ntm_shmring.c\<close> and their contexts), the copying of messages field by field, the locale \<open>msg_copy\<close>.
  \<^item> \<open>Ntp_Conn\<close>, \<open>Ntp_Send\<close>, \<open>Ntp_Recv\<close> (\<^verbatim>\<open>ntp_func.c\<close>, \<^verbatim>\<open>main.c\<close> of the proxy): connections, the sending and the receiving half.
  \<^item> \<open>Nts_Sock\<close> (\<^verbatim>\<open>nts_api.c\<close>): \<^verbatim>\<open>nts_read\<close> and \<^verbatim>\<open>nts_write\<close>. \<open>Nts_Api\<close> (\<^verbatim>\<open>nts_api.c\<close>): the calls that set up and take down
    a socket, on the same state. \<open>Nts_Life\<close>: histories of these calls against a state machine.
  \<^item> \<open>Ntp_Flow\<close>, \<open>Ntp_Plane\<close>: one direction of a connection from \<^verbatim>\<open>nts_write\<close> on one host to \<^verbatim>\<open>nts_read\<close> on the other.
  \<^item> \<open>Tailq\<close> (the macros of \<^verbatim>\<open>sys/queue.h\<close> with their pointers), \<open>Nt_Port\<close> (\<^verbatim>\<open>nt_port.c\<close>), \<open>Nt_Socket\<close> (\<^verbatim>\<open>socket.c\<close>), \<open>Nt_Spsc_Queue\<close>
    (\<^verbatim>\<open>nt_spsc_shm_queue.c\<close>), \<open>Nt_Backlog\<close> (\<^verbatim>\<open>nt_backlog.c\<close>): the tables and the backlog of the monitor.
  \<^item> \<open>Ntm_Mgr\<close>, \<open>Ntm_Remote\<close>, \<open>Ntm_Requests\<close> (\<^verbatim>\<open>ntb_monitor.c\<close>): the state of the monitor, the handlers for other monitors, the handlers for
    applications. \<open>Ntm_Handshake\<close>: what they do together. \<open>Id_Map\<close>: the hash map with numbers as keys.
  \<^item> \<open>Epoll_Msg\<close> (\<^verbatim>\<open>epoll_msg.h\<close>), \<open>Ntp_Epoll\<close> (\<^verbatim>\<open>ntp_func.c\<close>), \<open>Ntm_Epoll\<close> (\<^verbatim>\<open>ntb_monitor.c\<close>): the requests about \<^verbatim>\<open>epoll\<close> at proxy
    and monitor. \<open>Epoll_Plane\<close>: both together.
  \<^item> \<open>Nt_Config\<close> (\<^verbatim>\<open>config.c\<close> of monitor and proxy, \<^verbatim>\<open>nts_config.c\<close>): the configuration files.

  \<^bold>\<open>What is shown.\<close> For the data plane: what is written on one side is read on the other, byte for byte and in order, under every order of the four
  programs, and it can always go on until everything has been read (\<open>Ntp_Plane\<close>); reading and writing implement their specification (\<open>Nts_Sock\<close>);
  a socket goes through the states that its calls and their results tell (\<open>Nts_Life\<close>);
  the rings are queues, alone and under two processes; blocks have one owner; the hash map refines a finite map; packets cross
  the bridge once and intact. For the control plane: the channels deliver messages in order; requests are refused without any
  change or accepted with everything in place, and the three messages of the handshake establish both ends; allocated ports are exclusive and the search for
  one ends; the queue of sockets keeps its type; the backlog is a queue; what an application asks of \<^verbatim>\<open>epoll_ctl\<close> is what the proxy watches;
  a configuration that was written out is read back. The theorems of the kind \<open>error\<close> describe inputs on which the code does not do
  what it means to: they are stated on the same definitions.

  \<^bold>\<open>Bounds.\<close> Theorems about a ring over the bridge assume at least 512 slots where the read index is only written back every 512 packets. Numbers used as
  keys are below \<open>2 ^ 24\<close>, where a four-byte integer has a zero byte and is a C string; larger ones are \<open>Undef\<close>.
  Shared memory is sequentially consistent.

  \<^bold>\<open>Not modelled.\<close> The drivers \<^verbatim>\<open>ntb.c\<close> and \<^verbatim>\<open>ntb_hw_intel.c\<close> (register accesses of DPDK), \<^verbatim>\<open>ntb_app_mempool_get\<close>-style set-up by DPDK, the start of
  threads and the main programs (sequences of calls into the parts above), logging, the calls \<^verbatim>\<open>nts_epoll_create\<close>, \<^verbatim>\<open>nts_epoll_ctl\<close> and
  \<^verbatim>\<open>nts_epoll_wait\<close> in \<^verbatim>\<open>nts_epoll.c\<close> (what monitor and proxy do for them is modelled), the start and end of the library in \<^verbatim>\<open>nts.c\<close> and its preloading in \<^verbatim>\<open>libnts.c\<close>, the vendored DPDK tree, samples, benchmarks and tests.
\<close>

end
